(* ===== verification/PyVal.thy ===== *)
theory PyVal
  imports Prelude
begin

section \<open>Dynamically typed values, strings and numbers\<close>

text \<open>
  JSON-like Python values (request bodies, place dictionaries, responses) with the
  operations the program uses on them: truthiness, \<open>dict.get\<close>, subscription, numeric
  comparison, \<open>float()\<close>, \<open>int()\<close>, and the string methods \<open>lower\<close>,
  \<open>strip\<close>, \<open>split\<close> and \<open>in\<close>.  An operation that raises in Python on some
  operand types returns \<open>Inl\<close> of that exception here.
\<close>

datatype pyval =
    VNone
  | VBool bool
  | VInt int
  | VFloat real
  | VStr string
  | VList "pyval list"
  | VDict "(string \<times> pyval) list"

type_synonym pydict = "(string \<times> pyval) list"

subsection \<open>Truthiness and numbers\<close>

fun truthy :: "pyval \<Rightarrow> bool" where
  "truthy VNone = False"
| "truthy (VBool b) = b"
| "truthy (VInt i) = (i \<noteq> 0)"
| "truthy (VFloat x) = (x \<noteq> 0)"
| "truthy (VStr s) = (s \<noteq> [])"
| "truthy (VList xs) = (xs \<noteq> [])"
| "truthy (VDict d) = (d \<noteq> [])"

fun num_of :: "pyval \<Rightarrow> real option" where
  "num_of (VBool b) = Some (if b then 1 else 0)"
| "num_of (VInt i) = Some (real_of_int i)"
| "num_of (VFloat x) = Some x"
| "num_of _ = None"

text \<open>Arithmetic and ordering between two values: only numbers are compared by the program.\<close>

definition need_num :: "pyval \<Rightarrow> real res" where
  "need_num v = (case num_of v of None \<Rightarrow> Inl TypeError | Some x \<Rightarrow> Inr x)"

lemma need_num_simps [simp]:
  "need_num (VInt i) = Inr (real_of_int i)" "need_num (VFloat x) = Inr x"
  "need_num (VBool b) = Inr (if b then 1 else 0)" "need_num VNone = Inl TypeError"
  "need_num (VStr s) = Inl TypeError" "need_num (VList xs) = Inl TypeError"
  "need_num (VDict d) = Inl TypeError"
  by (simp_all add: need_num_def)

definition eq_num :: "pyval \<Rightarrow> real \<Rightarrow> bool" where
  "eq_num v x \<longleftrightarrow> num_of v = Some x"

definition lt_num :: "pyval \<Rightarrow> pyval \<Rightarrow> bool res" where
  "lt_num a b = rbind (need_num a) (\<lambda>x. rbind (need_num b) (\<lambda>y. Inr (x < y)))"

text \<open>\<open>int(x)\<close> of a float truncates toward zero; \<open>round(x, n)\<close> rounds half to even.\<close>

definition py_trunc :: "real \<Rightarrow> int" where
  "py_trunc x = (if 0 \<le> x then \<lfloor>x\<rfloor> else \<lceil>x\<rceil>)"

definition round_half_even :: "real \<Rightarrow> int" where
  "round_half_even x =
     (let f = \<lfloor>x\<rfloor>; d = x - real_of_int f in
      if d < 1/2 then f else if d > 1/2 then f + 1 else if even f then f else f + 1)"

definition py_round :: "nat \<Rightarrow> real \<Rightarrow> real" where
  "py_round n x = real_of_int (round_half_even (x * 10 ^ n)) / 10 ^ n"

lemma py_trunc_nonneg: "0 \<le> x \<Longrightarrow> 0 \<le> py_trunc x"
  by (simp add: py_trunc_def)

lemma py_trunc_le: "0 \<le> x \<Longrightarrow> real_of_int (py_trunc x) \<le> x"
  by (simp add: py_trunc_def)

lemma py_trunc_mono: "x \<le> y \<Longrightarrow> py_trunc x \<le> py_trunc y"
  unfolding py_trunc_def
  by (smt (verit, best) ceiling_le_zero ceiling_mono floor_mono zero_le_floor)

lemma py_trunc_of_int [simp]: "py_trunc (real_of_int i) = i"
  by (simp add: py_trunc_def)

lemma round_half_even_bounds: "x - 1/2 \<le> real_of_int (round_half_even x) \<and> real_of_int (round_half_even x) \<le> x + 1/2"
  unfolding round_half_even_def Let_def by (auto; linarith)

lemma py_round_error: "\<bar>py_round n x - x\<bar> \<le> 1 / (2 * 10 ^ n)"
proof -
  let ?k = "real_of_int (round_half_even (x * 10 ^ n))"
  have "\<bar>?k - x * 10 ^ n\<bar> \<le> 1/2"
    using round_half_even_bounds [of "x * 10 ^ n"] by linarith
  then have "\<bar>?k - x * 10 ^ n\<bar> / 10 ^ n \<le> (1/2) / 10 ^ n"
    by (rule divide_right_mono) simp
  moreover have "py_round n x - x = (?k - x * 10 ^ n) / 10 ^ n"
    by (simp add: py_round_def diff_divide_distrib)
  ultimately show ?thesis by simp
qed

subsection \<open>Dictionaries with string keys\<close>

definition dget :: "pydict \<Rightarrow> string \<Rightarrow> pyval \<Rightarrow> pyval" where
  "dget d k dflt = (case map_of d k of None \<Rightarrow> dflt | Some v \<Rightarrow> v)"

definition dindex :: "pydict \<Rightarrow> string \<Rightarrow> pyval res" where
  "dindex d k = (case map_of d k of None \<Rightarrow> Inl KeyError | Some v \<Rightarrow> Inr v)"

definition has_key :: "pydict \<Rightarrow> string \<Rightarrow> bool" where
  "has_key d k \<longleftrightarrow> map_of d k \<noteq> None"

text \<open>\<open>v.get(k, dflt)\<close> on a value that may not be a dictionary.\<close>

fun vget :: "pyval \<Rightarrow> string \<Rightarrow> pyval \<Rightarrow> pyval res" where
  "vget (VDict d) k dflt = Inr (dget d k dflt)"
| "vget _ k dflt = Inl AttributeError"

text \<open>\<open>a or b\<close> on values, and \<open>len(v)\<close>.\<close>

definition por :: "pyval \<Rightarrow> pyval \<Rightarrow> pyval" where
  "por a b = (if truthy a then a else b)"

fun vlen :: "pyval \<Rightarrow> nat res" where
  "vlen (VStr s) = Inr (length s)"
| "vlen (VList xs) = Inr (length xs)"
| "vlen (VDict d) = Inr (length d)"
| "vlen _ = Inl TypeError"

text \<open>Values that can be keys of a dictionary or members of a set.\<close>

fun hashable :: "pyval \<Rightarrow> bool" where
  "hashable (VList xs) = False"
| "hashable (VDict d) = False"
| "hashable v = True"

text \<open>The elements a \<open>for\<close> loop sees.\<close>

fun viter :: "pyval \<Rightarrow> pyval list res" where
  "viter (VList xs) = Inr xs"
| "viter (VStr s) = Inr (map (\<lambda>c. VStr [c]) s)"
| "viter (VDict d) = Inr (map (\<lambda>(k, v). VStr k) d)"
| "viter _ = Inl TypeError"

text \<open>\<open>v[k]\<close> with a string key, and \<open>v[0]\<close>.\<close>

fun vindex :: "pyval \<Rightarrow> string \<Rightarrow> pyval res" where
  "vindex (VDict d) k = dindex d k"
| "vindex _ k = Inl TypeError"

fun vfirst :: "pyval \<Rightarrow> pyval res" where
  "vfirst (VList []) = Inl IndexError"
| "vfirst (VList (x # xs)) = Inr x"
| "vfirst (VStr []) = Inl IndexError"
| "vfirst (VStr (c # s)) = Inr (VStr [c])"
| "vfirst (VDict d) = Inl KeyError"
| "vfirst _ = Inl TypeError"

lemma dget_Nil [simp]: "dget [] k v = v"
  by (simp add: dget_def)

lemma dget_Cons [simp]: "dget ((k', w) # d) k v = (if k = k' then w else dget d k v)"
  by (simp add: dget_def)

lemma dget_dset: "dget (dset k w d) k' v = (if k' = k then w else dget d k' v)"
  by (simp add: dget_def)

lemma dindex_dset: "dindex (dset k w d) k' = (if k' = k then Inr w else dindex d k')"
  by (simp add: dindex_def)

lemma dindex_eq_Inr: "dindex d k = Inr v \<longleftrightarrow> map_of d k = Some v"
  by (simp add: dindex_def split: option.splits)

subsection \<open>Strings\<close>

definition lower_char :: "char \<Rightarrow> char" where
  "lower_char c = (let n = (of_char c :: nat) in if 65 \<le> n \<and> n \<le> 90 then char_of (n + 32) else c)"

definition lower :: "string \<Rightarrow> string" where
  "lower s = map lower_char s"

definition is_space :: "char \<Rightarrow> bool" where
  "is_space c \<longleftrightarrow> (of_char c :: nat) \<in> {9, 10, 11, 12, 13, 28, 29, 30, 31, 32}"

definition strip :: "string \<Rightarrow> string" where
  "strip s = rev (dropWhile is_space (rev (dropWhile is_space s)))"

fun contains :: "string \<Rightarrow> string \<Rightarrow> bool" where
  "contains p [] = (p = [])"
| "contains p (c # s) = (take (length p) (c # s) = p \<or> contains p s)"

fun split_on :: "char \<Rightarrow> string \<Rightarrow> string list" where
  "split_on sep [] = [[]]"
| "split_on sep (c # s) =
     (if c = sep then [] # split_on sep s
      else (case split_on sep s of [] \<Rightarrow> [[c]] | w # ws \<Rightarrow> (c # w) # ws))"

definition digit_val :: "char \<Rightarrow> nat option" where
  "digit_val c = (let n = (of_char c :: nat) in if 48 \<le> n \<and> n \<le> 57 then Some (n - 48) else None)"

fun digits_val :: "string \<Rightarrow> nat \<Rightarrow> nat option" where
  "digits_val [] acc = Some acc"
| "digits_val (c # s) acc =
     (case digit_val c of None \<Rightarrow> None | Some d \<Rightarrow> digits_val s (10 * acc + d))"

text \<open>\<open>int(s)\<close> of a decimal literal (underscores are not accepted by the model).\<close>

definition parse_nat :: "string \<Rightarrow> nat option" where
  "parse_nat s = (if s = [] then None else digits_val s 0)"

definition signed :: "(string \<Rightarrow> 'a::uminus option) \<Rightarrow> string \<Rightarrow> 'a option" where
  "signed p s =
     (case s of [] \<Rightarrow> None
      | c # r \<Rightarrow> if c = CHR ''-'' then map_option uminus (p r)
                else if c = CHR ''+'' then p r else p s)"

definition parse_int :: "string \<Rightarrow> int option" where
  "parse_int s = signed (\<lambda>t. map_option int (parse_nat t)) (strip s)"

text \<open>
  \<open>float(s)\<close> of a literal \<open>[sign] digits [. digits] [e [sign] digits]\<close>; the spellings
  of infinities and NaN and digit separators are outside the model.
\<close>

definition parse_ufloat :: "string \<Rightarrow> real option" where
  "parse_ufloat s =
     (case split_on (CHR ''.'') s of
        [a] \<Rightarrow> map_option real (parse_nat a)
      | [a, b] \<Rightarrow>
          (if a = [] \<and> b = [] then None
           else (case (digits_val a 0, digits_val b 0) of
                   (Some x, Some y) \<Rightarrow> Some (real x + real y / 10 ^ length b)
                 | _ \<Rightarrow> None))
      | _ \<Rightarrow> None)"

definition parse_exp :: "string \<Rightarrow> real option" where
  "parse_exp s =
     map_option (\<lambda>e::int. if 0 \<le> e then 10 ^ nat e else 1 / 10 ^ nat (- e))
       (signed (\<lambda>t. map_option int (parse_nat t)) s)"

definition parse_sci :: "string \<Rightarrow> real option" where
  "parse_sci s =
     (case split_on (CHR ''e'') (lower s) of
        [m] \<Rightarrow> parse_ufloat m
      | [m, e] \<Rightarrow> (case (parse_ufloat m, parse_exp e) of
                     (Some x, Some y) \<Rightarrow> Some (x * y) | _ \<Rightarrow> None)
      | _ \<Rightarrow> None)"

definition parse_float :: "string \<Rightarrow> real option" where
  "parse_float s = signed parse_sci (strip s)"

fun py_float :: "pyval \<Rightarrow> real res" where
  "py_float (VStr s) = (case parse_float s of None \<Rightarrow> Inl ValueError | Some x \<Rightarrow> Inr x)"
| "py_float v = need_num v"

fun py_int :: "pyval \<Rightarrow> int res" where
  "py_int (VStr s) = (case parse_int s of None \<Rightarrow> Inl ValueError | Some x \<Rightarrow> Inr x)"
| "py_int (VFloat x) = Inr (py_trunc x)"
| "py_int (VInt i) = Inr i"
| "py_int (VBool b) = Inr (if b then 1 else 0)"
| "py_int _ = Inl TypeError"

fun vlower :: "pyval \<Rightarrow> string res" where
  "vlower (VStr s) = Inr (lower s)"
| "vlower _ = Inl AttributeError"

text \<open>Decimal rendering of naturals and integers in f-strings.\<close>

fun show_nat :: "nat \<Rightarrow> string" where
  "show_nat n = (if n < 10 then [char_of (48 + n)] else show_nat (n div 10) @ [char_of (48 + n mod 10)])"

declare show_nat.simps [simp del]

definition show_int :: "int \<Rightarrow> string" where
  "show_int i = (if i < 0 then ''-'' @ show_nat (nat (- i)) else show_nat (nat i))"

lemma digits_val_append:
  "digits_val (s @ t) acc = (case digits_val s acc of None \<Rightarrow> None | Some a \<Rightarrow> digits_val t a)"
  by (induction s arbitrary: acc) (auto split: option.splits)

lemma digit_val_char: "d < 10 \<Longrightarrow> digit_val (char_of (48 + d)) = Some d"
  by (simp add: digit_val_def)

lemma show_nat_nonempty: "show_nat n \<noteq> []"
  by (subst show_nat.simps) simp

lemma digits_val_show_nat: "digits_val (show_nat n) 0 = Some n"
proof (induction n rule: show_nat.induct)
  case (1 n)
  show ?case
  proof (cases "n < 10")
    case True
    then show ?thesis by (subst show_nat.simps) (simp add: digit_val_char)
  next
    case False
    then show ?thesis
      using "1.IH" by (subst show_nat.simps) (simp add: digits_val_append digit_val_char)
  qed
qed

lemma parse_nat_show_nat: "parse_nat (show_nat n) = Some n"
  by (simp add: parse_nat_def show_nat_nonempty digits_val_show_nat)

lemma show_nat_inj: "show_nat m = show_nat n \<longleftrightarrow> m = n"
  by (metis option.inject parse_nat_show_nat)

text \<open>\<open>{n:02d}\<close>, and how a decimal survives a field separator.\<close>

definition pad2 :: "nat \<Rightarrow> string" where
  "pad2 n = (if n < 10 then CHR ''0'' # show_nat n else show_nat n)"

definition is_digit :: "char \<Rightarrow> bool" where
  "is_digit c \<longleftrightarrow> digit_val c \<noteq> None"

lemma show_nat_digits: "\<forall>c \<in> set (show_nat n). is_digit c"
proof (induction n rule: show_nat.induct)
  case (1 n)
  show ?case
  proof (cases "n < 10")
    case True
    then show ?thesis by (subst show_nat.simps) (simp add: is_digit_def digit_val_char)
  next
    case False
    with "1.IH" show ?thesis by (subst show_nat.simps) (simp add: is_digit_def digit_val_char)
  qed
qed

lemma pad2_digits: "\<forall>c \<in> set (pad2 n). is_digit c"
  using show_nat_digits [of n] by (auto simp: pad2_def is_digit_def digit_val_def)

lemma digits_val_pad2: "digits_val (pad2 n) 0 = Some n"
  by (simp add: pad2_def digits_val_show_nat digit_val_def)

lemma pad2_nonempty: "pad2 n \<noteq> []"
  by (simp add: pad2_def show_nat_nonempty)

lemma digit_not_special:
  assumes "is_digit c" shows "\<not> is_space c \<and> c \<noteq> CHR ''-'' \<and> c \<noteq> CHR ''+'' \<and> c \<noteq> CHR '':'' \<and> c \<noteq> CHR ''.''"
  using assms by (auto simp: is_digit_def digit_val_def is_space_def Let_def split: if_splits)

lemma dropWhile_none: "\<forall>c \<in> set s. \<not> P c \<Longrightarrow> dropWhile P s = s"
  by (cases s) auto

lemma strip_digits: "\<forall>c \<in> set s. is_digit c \<Longrightarrow> strip s = s"
  by (simp add: strip_def dropWhile_none digit_not_special)

lemma parse_int_digits:
  assumes "\<forall>c \<in> set s. is_digit c" "s \<noteq> []" "digits_val s 0 = Some n"
  shows "parse_int s = Some (int n)"
  using assms digit_not_special
  by (cases s) (auto simp: parse_int_def strip_digits signed_def parse_nat_def)

lemma split_on_none: "sep \<notin> set s \<Longrightarrow> split_on sep s = [s]"
  by (induction s) auto

lemma split_on_append: "sep \<notin> set s \<Longrightarrow> split_on sep (s @ sep # t) = s # split_on sep t"
  by (induction s) auto

subsection \<open>Printing floats\<close>

text \<open>
  \<open>len(str(x).split('.')[-1])\<close> for a float printed in positional notation: the number of
  decimals, at least one and at most seventeen.
\<close>

fun decimals_from :: "nat \<Rightarrow> nat \<Rightarrow> real \<Rightarrow> nat" where
  "decimals_from 0 n x = n"
| "decimals_from (Suc fuel) n x =
     (if x * 10 ^ n = real_of_int \<lfloor>x * 10 ^ n\<rfloor> then n else decimals_from fuel (Suc n) x)"

definition str_decimals :: "real \<Rightarrow> nat" where
  "str_decimals x = decimals_from 16 1 x"

text \<open>\<open>str(x)\<close> in that notation: the integer part, a point, the decimals with leading zeros.\<close>

definition show_float :: "real \<Rightarrow> string" where
  "show_float x =
     (let n = str_decimals x; m = nat \<lfloor>\<bar>x\<bar> * 10 ^ n\<rfloor>; frac = show_nat (m mod 10 ^ n)
      in (if x < 0 then ''-'' else []) @ show_nat (m div 10 ^ n) @ ''.'' @
         replicate (n - length frac) (CHR ''0'') @ frac)"

text \<open>
  \<open>repr(v)\<close>, which \<open>str\<close> shows for the items of a list or a dictionary: strings in quotes, double ones when they
  hold a single quote and no double one, with escapes for the quote, the backslash and control characters.
\<close>

definition hex_digit :: "nat \<Rightarrow> char" where
  "hex_digit n = (if n < 10 then char_of (48 + n) else char_of (87 + n))"

definition repr_char :: "char \<Rightarrow> char \<Rightarrow> string" where
  "repr_char q c =
     (let n = of_char c :: nat
      in if c = q \<or> n = 92 then [CHR 0x5C, c] else if n = 10 then [CHR 0x5C, CHR ''n''] else if n = 13 then [CHR 0x5C, CHR ''r'']
         else if n = 9 then [CHR 0x5C, CHR ''t''] else if n < 32 \<or> n = 127 then [CHR 0x5C, CHR ''x'', hex_digit (n div 16), hex_digit (n mod 16)]
         else [c])"

definition repr_str :: "string \<Rightarrow> string" where
  "repr_str s =
     (let q = (if CHR 0x27 \<in> set s \<and> CHR 0x22 \<notin> set s then CHR 0x22 else CHR 0x27) in q # concat (map (repr_char q) s) @ [q])"

fun separated :: "string list \<Rightarrow> string" where
  "separated [] = []"
| "separated [s] = s"
| "separated (s # t # ts) = s @ '', '' @ separated (t # ts)"

fun py_repr :: "pyval \<Rightarrow> string" where
  "py_repr VNone = ''None''"
| "py_repr (VBool b) = (if b then ''True'' else ''False'')"
| "py_repr (VInt i) = show_int i"
| "py_repr (VFloat x) = show_float x"
| "py_repr (VStr s) = repr_str s"
| "py_repr (VList vs) = ''['' @ separated (map py_repr vs) @ '']''"
| "py_repr (VDict d) = ''{'' @ separated (map (\<lambda>kv. repr_str (fst kv) @ '': '' @ py_repr (snd kv)) d) @ ''}''"

lemma py_repr_list_example: "py_repr (VList [VStr ''a'', VBool True, VNone]) = [CHR ''['', CHR 0x27, CHR ''a'', CHR 0x27] @ '', True, None]''"
  by (simp add: repr_str_def repr_char_def Let_def)

end
