(* ===== verification/CircuitBreakers.thy ===== *)
theory CircuitBreakers
  imports PyVal
begin

section \<open>Circuit breakers\<close>

text \<open>
  The three circuit breakers of the program: \<open>CircuitBreaker\<close> and
  \<open>City2GraphCircuitBreaker\<close> (src/utils/hybrid_optimizer_v31.py) and
  \<open>ORToolsCircuitBreaker\<close> (src/services/city2graph_ortools_service.py).  Each protects
  an asynchronous call; a call is admitted or rejected when it starts and reports success
  or failure when it ends, so calls in flight may interleave.  The locale
  \<open>circuit_breaker\<close> states the contract the three share over an abstract view, its
  lemmas hold in every interleaving, and each breaker interprets it.
\<close>

datatype cb_state = CLOSED | OPEN | HALF_OPEN

text \<open>
  The outcome of a protected coroutine: how long it would run and what it returns or raises.
  \<open>asyncio.wait_for\<close> replaces the outcome by \<open>TimeoutError\<close> when it runs too long.
\<close>

type_synonym 'a outcome = "real \<times> 'a res"

fun wait_for :: "real \<Rightarrow> 'a outcome \<Rightarrow> 'a outcome" where
  "wait_for tmo (d, r) = (if d \<le> tmo then (d, r) else (tmo, Inl TimeoutError))"

subsection \<open>The optimiser's breaker for routing and places\<close>

record breaker =
  failure_threshold :: int
  call_timeout :: real
  recovery_timeout :: real
  failure_count :: int
  last_failure_time :: "real option"
  state :: cb_state

definition new_breaker :: "int \<Rightarrow> real \<Rightarrow> real \<Rightarrow> breaker" where
  "new_breaker thr tmo rec =
     \<lparr>failure_threshold = thr, call_timeout = tmo, recovery_timeout = rec,
      failure_count = 0, last_failure_time = None, state = CLOSED\<rparr>"

definition is_open :: "real \<Rightarrow> breaker \<Rightarrow> (bool \<times> breaker) res" where
  "is_open now b =
     (if state b = OPEN then
        (case last_failure_time b of
           None \<Rightarrow> Inl TypeError
         | Some t \<Rightarrow>
             if now - t > recovery_timeout b then Inr (False, b\<lparr>state := HALF_OPEN\<rparr>)
             else Inr (True, b))
      else Inr (False, b))"

definition record_success :: "breaker \<Rightarrow> breaker" where
  "record_success b = b\<lparr>failure_count := 0, state := CLOSED\<rparr>"

definition record_failure :: "real \<Rightarrow> breaker \<Rightarrow> breaker" where
  "record_failure now b =
     (let b1 = b\<lparr>failure_count := failure_count b + 1, last_failure_time := Some now\<rparr> in
      if failure_count b1 \<ge> failure_threshold b1 then b1\<lparr>state := OPEN\<rparr> else b1)"

definition is_closed :: "breaker \<Rightarrow> bool" where
  "is_closed b \<longleftrightarrow> state b = CLOSED"

text \<open>One whole call: the coroutine starts at \<open>now\<close> and its exception is re-raised.\<close>

definition call :: "real \<Rightarrow> 'a outcome \<Rightarrow> breaker \<Rightarrow> 'a res \<times> breaker" where
  "call now out b =
     (case is_open now b of
        Inl e \<Rightarrow> (Inl e, b)
      | Inr (True, b') \<Rightarrow> (Inl CircuitOpen, b')
      | Inr (False, b') \<Rightarrow>
          (let (d, r) = wait_for (call_timeout b') out in
           case r of
             Inr v \<Rightarrow> (Inr v, record_success b')
           | Inl e \<Rightarrow> (Inl e, record_failure (now + d) b')))"

subsection \<open>The City2Graph breaker\<close>

record c2g_breaker =
  c2g_failure_count :: int
  c2g_failure_threshold :: int
  c2g_last_failure_time :: "real option"
  c2g_state :: cb_state
  c2g_recovery_timeout :: real

definition new_c2g_breaker :: "int \<Rightarrow> real \<Rightarrow> c2g_breaker" where
  "new_c2g_breaker thr rec =
     \<lparr>c2g_failure_count = 0, c2g_failure_threshold = thr, c2g_last_failure_time = None,
      c2g_state = CLOSED, c2g_recovery_timeout = rec\<rparr>"

text \<open>The head of \<open>call\<close>: the last failure time is tested for truth, so 0 counts as none.\<close>

definition c2g_admit :: "real \<Rightarrow> c2g_breaker \<Rightarrow> (bool \<times> c2g_breaker) res" where
  "c2g_admit now b =
     (if c2g_state b = OPEN then
        (case c2g_last_failure_time b of
           None \<Rightarrow> Inr (False, b)
         | Some t \<Rightarrow>
             if t \<noteq> 0 \<and> now - t > c2g_recovery_timeout b
             then Inr (True, b\<lparr>c2g_state := HALF_OPEN\<rparr>) else Inr (False, b))
      else Inr (True, b))"

definition c2g_success :: "c2g_breaker \<Rightarrow> c2g_breaker" where
  "c2g_success b =
     (if c2g_state b = HALF_OPEN then b\<lparr>c2g_state := CLOSED, c2g_failure_count := 0\<rparr> else b)"

definition c2g_failure :: "real \<Rightarrow> c2g_breaker \<Rightarrow> c2g_breaker" where
  "c2g_failure now b =
     (let b1 = b\<lparr>c2g_failure_count := c2g_failure_count b + 1,
                 c2g_last_failure_time := Some now\<rparr> in
      if c2g_failure_count b1 \<ge> c2g_failure_threshold b1 then b1\<lparr>c2g_state := OPEN\<rparr> else b1)"

definition c2g_call :: "real \<Rightarrow> 'a outcome \<Rightarrow> c2g_breaker \<Rightarrow> 'a res \<times> c2g_breaker" where
  "c2g_call now out b =
     (case c2g_admit now b of
        Inl e \<Rightarrow> (Inl e, b)
      | Inr (False, b') \<Rightarrow> (Inl (OtherError ''Circuit breaker is OPEN''), b')
      | Inr (True, b') \<Rightarrow>
          (case snd out of
             Inr v \<Rightarrow> (Inr v, c2g_success b')
           | Inl e \<Rightarrow> (Inl e, c2g_failure (now + fst out) b')))"

text \<open>\<open>execute_with_circuit_breaker\<close> only logs the status and re-raises.\<close>

definition execute_with_circuit_breaker ::
  "real \<Rightarrow> 'a outcome \<Rightarrow> c2g_breaker \<Rightarrow> 'a res \<times> c2g_breaker" where
  "execute_with_circuit_breaker now out b = c2g_call now out b"

text \<open>
  \<open>safe_city2graph_execution\<close>: a pair of a result and an error text; \<open>msg\<close> is
  \<open>str\<close> of an exception, and a timeout argument that is false falls back on the setting.
\<close>

definition safe_city2graph_execution ::
  "(py_error \<Rightarrow> string) \<Rightarrow> int \<Rightarrow> int option \<Rightarrow> 'a outcome \<Rightarrow> 'a option \<times> string option" where
  "safe_city2graph_execution msg default_timeout timeout_s out =
     (let timeout = (case timeout_s of None \<Rightarrow> default_timeout
                     | Some t \<Rightarrow> if t = 0 then default_timeout else t) in
      case snd (wait_for (real_of_int timeout) out) of
        Inr v \<Rightarrow> (Some v, None)
      | Inl TimeoutError \<Rightarrow>
          (None, Some (''city2graph_timeout_after_'' @ show_int timeout @ ''s''))
      | Inl ImportError \<Rightarrow> (None, Some (''city2graph_not_available: '' @ msg ImportError))
      | Inl e \<Rightarrow> (None, Some (''city2graph_error: '' @ msg e)))"

subsection \<open>The OR-Tools breaker\<close>

record ot_breaker =
  ot_failure_count :: int
  ot_failure_threshold :: int
  ot_last_failure_time :: "real option"
  ot_recovery_timeout :: real
  ot_state :: cb_state
  ot_success_count :: int
  ot_total_executions :: int
  ot_avg_execution_time :: real

definition new_ot_breaker :: "int \<Rightarrow> real \<Rightarrow> ot_breaker" where
  "new_ot_breaker thr rec =
     \<lparr>ot_failure_count = 0, ot_failure_threshold = thr, ot_last_failure_time = None,
      ot_recovery_timeout = rec, ot_state = CLOSED,
      ot_success_count = 0, ot_total_executions = 0, ot_avg_execution_time = 2000\<rparr>"

definition ot_admit :: "real \<Rightarrow> ot_breaker \<Rightarrow> (bool \<times> ot_breaker) res" where
  "ot_admit now b =
     rbind
       (if ot_state b = OPEN then
          (case ot_last_failure_time b of
             None \<Rightarrow> Inl TypeError
           | Some t \<Rightarrow>
               if now - t > ot_recovery_timeout b then Inr (True, b\<lparr>ot_state := HALF_OPEN\<rparr>)
               else Inr (False, b))
        else Inr (True, b))
       (\<lambda>(adm, b'). Inr (adm, if adm then b'\<lparr>ot_total_executions := ot_total_executions b' + 1\<rparr> else b'))"

definition ot_update_avg :: "real \<Rightarrow> ot_breaker \<Rightarrow> ot_breaker" where
  "ot_update_avg t b =
     b\<lparr>ot_avg_execution_time := (1 - 1/10) * ot_avg_execution_time b + 1/10 * t\<rparr>"

text \<open>
  \<open>_monitor_performance\<close> only logs, but comparing \<open>places_count\<close> with 3 may raise.
\<close>

definition ot_monitor_performance :: "pyval \<Rightarrow> unit res" where
  "ot_monitor_performance result =
     (case result of
        VDict d \<Rightarrow>
          if truthy result \<and> eq_num (dget d ''total_distance_km'' (VInt 0)) 0
          then rbind (lt_num (VInt 3) (dget d ''places_count'' (VInt 0))) (\<lambda>_. Inr ())
          else Inr ()
      | _ \<Rightarrow> Inr ())"

definition ot_success :: "real \<Rightarrow> ot_breaker \<Rightarrow> ot_breaker" where
  "ot_success exec_ms b =
     (let b1 = (if ot_state b = HALF_OPEN then b\<lparr>ot_state := CLOSED, ot_failure_count := 0\<rparr> else b)
      in ot_update_avg exec_ms (b1\<lparr>ot_success_count := ot_success_count b1 + 1\<rparr>))"

definition ot_failure :: "real \<Rightarrow> ot_breaker \<Rightarrow> ot_breaker" where
  "ot_failure now b =
     (let b1 = b\<lparr>ot_failure_count := ot_failure_count b + 1, ot_last_failure_time := Some now\<rparr> in
      if ot_failure_count b1 \<ge> ot_failure_threshold b1 then b1\<lparr>ot_state := OPEN\<rparr> else b1)"

definition execute_ortools :: "real \<Rightarrow> pyval outcome \<Rightarrow> ot_breaker \<Rightarrow> pyval res \<times> ot_breaker" where
  "execute_ortools now out b =
     (case ot_admit now b of
        Inl e \<Rightarrow> (Inl e, b)
      | Inr (False, b') \<Rightarrow> (Inl CircuitOpen, b')
      | Inr (True, b') \<Rightarrow>
          (case snd out of
             Inl e \<Rightarrow> (Inl e, ot_failure (now + fst out) b')
           | Inr v \<Rightarrow>
               (let b2 = ot_success (fst out * 1000) b' in
                case ot_monitor_performance v of
                  Inl e \<Rightarrow> (Inl e, ot_failure (now + fst out) b2)
                | Inr _ \<Rightarrow> (Inr v, b2))))"

definition ot_success_rate :: "ot_breaker \<Rightarrow> real" where
  "ot_success_rate b = real_of_int (ot_success_count b) / real_of_int (max (ot_total_executions b) 1)"

definition ot_healthy :: "ot_breaker \<Rightarrow> bool" where
  "ot_healthy b \<longleftrightarrow> ot_state b = CLOSED \<and> ot_success_rate b > 9/10"


fun show_cb_state :: "cb_state \<Rightarrow> string" where
  "show_cb_state CLOSED = ''CLOSED''"
| "show_cb_state OPEN = ''OPEN''"
| "show_cb_state HALF_OPEN = ''HALF_OPEN''"

definition ot_get_health_status :: "ot_breaker \<Rightarrow> pydict" where
  "ot_get_health_status b =
     (let rate = ot_success_rate b in
      [(''state'', VStr (show_cb_state (ot_state b))),
       (''failure_count'', VInt (ot_failure_count b)),
       (''success_rate'', VFloat rate),
       (''total_executions'', VInt (ot_total_executions b)),
       (''avg_execution_time_ms'', VFloat (ot_avg_execution_time b)),
       (''vs_benchmark'', VDict
          [(''execution_time_ratio'', VFloat (ot_avg_execution_time b / 2000)),
           (''success_rate_vs_expected'', VFloat (rate / 1))]),
       (''healthy'', VBool (ot_healthy b))])"

definition c2g_get_status :: "c2g_breaker \<Rightarrow> pydict" where
  "c2g_get_status b =
     [(''state'', VStr (show_cb_state (c2g_state b))),
      (''failure_count'', VInt (c2g_failure_count b)),
      (''failure_threshold'', VInt (c2g_failure_threshold b)),
      (''last_failure_time'', case c2g_last_failure_time b of None \<Rightarrow> VNone | Some t \<Rightarrow> VFloat t),
      (''recovery_timeout'', VFloat (c2g_recovery_timeout b))]"

subsection \<open>The shared contract\<close>

text \<open>What the three have in common, abstracting from their bookkeeping.\<close>

record cb_view =
  v_state :: cb_state
  v_count :: int
  v_thr :: int
  v_last :: "real option"
  v_rec :: real

definition fail_view :: "real \<Rightarrow> cb_view \<Rightarrow> cb_view" where
  "fail_view now v =
     v\<lparr>v_count := v_count v + 1, v_last := Some now,
       v_state := (if v_count v + 1 \<ge> v_thr v then OPEN else v_state v)\<rparr>"

definition reset_view :: "cb_view \<Rightarrow> cb_view" where
  "reset_view v = v\<lparr>v_state := CLOSED, v_count := 0\<rparr>"

definition cb_inv :: "int \<Rightarrow> real \<Rightarrow> cb_view \<Rightarrow> bool" where
  "cb_inv thr rec v \<longleftrightarrow>
     v_thr v = thr \<and> v_rec v = rec \<and> 0 < thr \<and> 0 \<le> v_count v \<and>
     (v_state v = CLOSED \<longrightarrow> v_count v < thr) \<and>
     (v_state v \<noteq> CLOSED \<longrightarrow> thr \<le> v_count v \<and> (\<exists>t>0. v_last v = Some t))"

lemma cb_inv_fail: "cb_inv thr rec v \<Longrightarrow> 0 < now \<Longrightarrow> cb_inv thr rec (fail_view now v)"
  by (auto simp: cb_inv_def fail_view_def)

lemma cb_inv_reset: "cb_inv thr rec v \<Longrightarrow> cb_inv thr rec (reset_view v)"
  by (auto simp: cb_inv_def reset_view_def)

lemma cb_inv_probe: "cb_inv thr rec v \<Longrightarrow> v_state v = OPEN \<Longrightarrow> cb_inv thr rec (v\<lparr>v_state := HALF_OPEN\<rparr>)"
  by (auto simp: cb_inv_def)

text \<open>
  Interleavings of protected calls: the configuration is the breaker with the number of
  calls in flight; a call starts (admitted or rejected) or one in flight ends.
\<close>

inductive cb_step ::
  "(real \<Rightarrow> 'b \<Rightarrow> (bool \<times> 'b) res) \<Rightarrow> (real \<Rightarrow> 'b \<Rightarrow> 'b) \<Rightarrow> (real \<Rightarrow> 'b \<Rightarrow> 'b) \<Rightarrow>
   'b \<times> nat \<Rightarrow> 'b \<times> nat \<Rightarrow> bool" for admit success failure where
  admitted: "admit now b = Inr (True, b') \<Longrightarrow> cb_step admit success failure (b, n) (b', Suc n)"
| rejected: "admit now b = Inr (False, b') \<Longrightarrow> cb_step admit success failure (b, n) (b', n)"
| succeeded: "cb_step admit success failure (b, Suc n) (success t b, n)"
| failed: "0 < now \<Longrightarrow> cb_step admit success failure (b, Suc n) (failure now b, n)"

inductive_cases cb_stepE: "cb_step admit success failure (b, n) c"

locale circuit_breaker =
  fixes admit :: "real \<Rightarrow> 'b \<Rightarrow> (bool \<times> 'b) res"
    and success :: "real \<Rightarrow> 'b \<Rightarrow> 'b"
    and failure :: "real \<Rightarrow> 'b \<Rightarrow> 'b"
    and view :: "'b \<Rightarrow> cb_view"
  assumes admit_through:
      "v_state (view b) \<noteq> OPEN \<Longrightarrow> \<exists>b'. admit now b = Inr (True, b') \<and> view b' = view b"
    and admit_wait:
      "v_state (view b) = OPEN \<Longrightarrow> v_last (view b) = Some t \<Longrightarrow> now - t \<le> v_rec (view b) \<Longrightarrow>
       admit now b = Inr (False, b)"
    and admit_probe:
      "v_state (view b) = OPEN \<Longrightarrow> v_last (view b) = Some t \<Longrightarrow> 0 < t \<Longrightarrow> now - t > v_rec (view b) \<Longrightarrow>
       \<exists>b'. admit now b = Inr (True, b') \<and> view b' = (view b)\<lparr>v_state := HALF_OPEN\<rparr>"
    and failure_view: "view (failure now b) = fail_view now (view b)"
    and success_probe: "v_state (view b) = HALF_OPEN \<Longrightarrow> view (success t b) = reset_view (view b)"
    and success_any: "view (success t b) = view b \<or> view (success t b) = reset_view (view b)"
begin

lemma admit_total:
  assumes "cb_inv thr rec (view b)"
  obtains (through) b' where "v_state (view b) \<noteq> OPEN" "admit now b = Inr (True, b')" "view b' = view b"
  | (wait) t where "v_state (view b) = OPEN" "v_last (view b) = Some t" "now - t \<le> v_rec (view b)"
      "admit now b = Inr (False, b)"
  | (probe) t b' where "v_state (view b) = OPEN" "v_last (view b) = Some t" "now - t > v_rec (view b)"
      "admit now b = Inr (True, b')" "view b' = (view b)\<lparr>v_state := HALF_OPEN\<rparr>"
proof (cases "v_state (view b) = OPEN")
  case True
  with assms obtain t where "v_last (view b) = Some t" "0 < t"
    by (auto simp: cb_inv_def)
  with True that(2,3) admit_wait admit_probe show thesis
    by (metis linorder_not_less)
next
  case False
  with that(1) admit_through show thesis by blast
qed

lemma admit_never_raises: "cb_inv thr rec (view b) \<Longrightarrow> \<exists>r. admit now b = Inr r"
  by (rule admit_total [of thr rec b now]) auto

lemma admit_inv: "cb_inv thr rec (view b) \<Longrightarrow> admit now b = Inr (a, b') \<Longrightarrow> cb_inv thr rec (view b')"
  by (rule admit_total [of thr rec b now]) (auto simp: cb_inv_probe)

lemma success_inv: "cb_inv thr rec (view b) \<Longrightarrow> cb_inv thr rec (view (success t b))"
  using success_any [of t b] by (auto simp: cb_inv_reset)

lemma failure_inv: "cb_inv thr rec (view b) \<Longrightarrow> 0 < now \<Longrightarrow> cb_inv thr rec (view (failure now b))"
  by (simp add: failure_view cb_inv_fail)

lemma step_inv: "cb_step admit success failure c c' \<Longrightarrow> cb_inv thr rec (view (fst c)) \<Longrightarrow> cb_inv thr rec (view (fst c'))"
  by (induction rule: cb_step.induct) (auto intro: admit_inv success_inv failure_inv)

lemma reachable_inv:
  "(cb_step admit success failure)\<^sup>*\<^sup>* c c' \<Longrightarrow> cb_inv thr rec (view (fst c)) \<Longrightarrow> cb_inv thr rec (view (fst c'))"
  by (induction rule: rtranclp_induct) (auto intro: step_inv)

lemma rejects_only_when_recovering:
  assumes "cb_inv thr rec (view b)" and "admit now b = Inr (False, b')"
  shows "b' = b \<and> v_state (view b) = OPEN \<and> thr \<le> v_count (view b) \<and>
    (\<exists>t. v_last (view b) = Some t \<and> now - t \<le> rec)"
  using assms(1)
proof (cases rule: admit_total [where now = now])
  case (wait t)
  with assms show ?thesis by (auto simp: cb_inv_def)
qed (use assms(2) in auto)

lemma recovery:
  assumes "cb_inv thr rec (view b)" "v_last (view b) = Some t" "now > t + rec"
  shows "\<exists>b'. admit now b = Inr (True, b') \<and> v_state (view b') \<noteq> OPEN \<and>
    (v_state (view b) \<noteq> CLOSED \<longrightarrow> view (success x b') = reset_view (view b'))"
  using assms(1)
proof (cases rule: admit_total [where now = now])
  case (through b')
  then have "v_state (view b) \<noteq> CLOSED \<longrightarrow> v_state (view b') = HALF_OPEN"
    by (cases "v_state (view b)") auto
  with through success_probe show ?thesis by auto
next
  case (wait t')
  with assms show ?thesis by (simp add: cb_inv_def)
next
  case (probe t' b')
  then have "v_state (view b') = HALF_OPEN" by simp
  with probe success_probe [of b' x] show ?thesis by auto
qed

lemma failed_probe_reopens:
  assumes "cb_inv thr rec (view b)" "v_state (view b) = HALF_OPEN"
  shows "v_state (view (failure now b)) = OPEN \<and> v_last (view (failure now b)) = Some now"
  using assms by (auto simp: failure_view fail_view_def cb_inv_def)

end

definition breaker_view :: "breaker \<Rightarrow> cb_view" where
  "breaker_view b = \<lparr>v_state = state b, v_count = failure_count b, v_thr = failure_threshold b,
     v_last = last_failure_time b, v_rec = recovery_timeout b\<rparr>"

definition c2g_view :: "c2g_breaker \<Rightarrow> cb_view" where
  "c2g_view b = \<lparr>v_state = c2g_state b, v_count = c2g_failure_count b,
     v_thr = c2g_failure_threshold b, v_last = c2g_last_failure_time b,
     v_rec = c2g_recovery_timeout b\<rparr>"

definition ot_view :: "ot_breaker \<Rightarrow> cb_view" where
  "ot_view b = \<lparr>v_state = ot_state b, v_count = ot_failure_count b,
     v_thr = ot_failure_threshold b, v_last = ot_last_failure_time b,
     v_rec = ot_recovery_timeout b\<rparr>"

text \<open>\<open>is_open\<close> answers the negation of \<open>admitted\<close>.\<close>

definition breaker_admit :: "real \<Rightarrow> breaker \<Rightarrow> (bool \<times> breaker) res" where
  "breaker_admit now b = rbind (is_open now b) (\<lambda>(opn, b'). Inr (\<not> opn, b'))"

interpretation cb: circuit_breaker breaker_admit "\<lambda>_. record_success" record_failure breaker_view
  by unfold_locales
    (auto simp: breaker_admit_def is_open_def breaker_view_def record_failure_def fail_view_def
       record_success_def reset_view_def Let_def)

interpretation c2g: circuit_breaker c2g_admit "\<lambda>_. c2g_success" c2g_failure c2g_view
  by unfold_locales
    (auto simp: c2g_admit_def c2g_view_def c2g_failure_def fail_view_def c2g_success_def
       reset_view_def Let_def)

interpretation ot: circuit_breaker ot_admit ot_success ot_failure ot_view
  by unfold_locales
    (auto simp: ot_admit_def ot_view_def ot_failure_def fail_view_def ot_success_def
       reset_view_def ot_update_avg_def Let_def)


lemma cb_inv_new [simp]:
  "0 < thr \<Longrightarrow> cb_inv thr rec (breaker_view (new_breaker thr tmo rec))"
  "0 < thr \<Longrightarrow> cb_inv thr rec (c2g_view (new_c2g_breaker thr rec))"
  "0 < thr \<Longrightarrow> cb_inv thr rec (ot_view (new_ot_breaker thr rec))"
  by (simp_all add: cb_inv_def breaker_view_def new_breaker_def c2g_view_def new_c2g_breaker_def
      ot_view_def new_ot_breaker_def)

subsection \<open>Sequential runs\<close>

text \<open>Calls made one after the other, each with its start time and the outcome of its coroutine.\<close>

fun run_calls :: "(real \<Rightarrow> 'a outcome \<Rightarrow> 'b \<Rightarrow> 'a res \<times> 'b) \<Rightarrow> (real \<times> 'a outcome) list \<Rightarrow> 'b \<Rightarrow> 'a res list \<times> 'b" where
  "run_calls f [] b = ([], b)"
| "run_calls f ((now, out) # cs) b =
     (let (r, b') = f now out b; (rs, b'') = run_calls f cs b' in (r # rs, b''))"

lemma run_calls_append:
  "run_calls f (xs @ ys) b =
     (let (rs, b') = run_calls f xs b; (qs, b'') = run_calls f ys b' in (rs @ qs, b''))"
  by (induction xs arbitrary: b) (auto simp: Let_def split: prod.splits)

text \<open>The consecutive-failure reading of a run: \<open>True\<close> is a success.\<close>

fun streak :: "int \<Rightarrow> bool list \<Rightarrow> int" where
  "streak n [] = n"
| "streak n (ok # oks) = (if ok then streak 0 oks else streak (n + 1) oks)"

fun streaks_below :: "int \<Rightarrow> int \<Rightarrow> bool list \<Rightarrow> bool" where
  "streaks_below thr n [] = True"
| "streaks_below thr n (ok # oks) =
     (if ok then streaks_below thr 0 oks else n + 1 < thr \<and> streaks_below thr (n + 1) oks)"

definition call_ok :: "'a outcome \<Rightarrow> bool" where
  "call_ok out = (case snd out of Inl _ \<Rightarrow> False | Inr _ \<Rightarrow> True)"

lemma run_call_closed:
  assumes "state b = CLOSED" "streaks_below (failure_threshold b) (failure_count b)
      (map (\<lambda>(now, out). call_ok (wait_for (call_timeout b) out)) cs)"
  shows "\<exists>b'. run_calls call cs b = (map (\<lambda>(now, out). snd (wait_for (call_timeout b) out)) cs, b') \<and>
    state b' = CLOSED \<and>
    failure_count b' = streak (failure_count b) (map (\<lambda>(now, out). call_ok (wait_for (call_timeout b) out)) cs)"
  using assms
proof (induction cs arbitrary: b)
  case (Cons c cs)
  obtain now d r where c: "c = (now, d, r)" by (cases c) auto
  obtain d' r' where w: "wait_for (call_timeout b) (d, r) = (d', r')" by fastforce
  show ?case
  proof (cases r')
    case (Inl e)
    let ?b1 = "record_failure (now + d') b"
    have "call now (d, r) b = (Inl e, ?b1)"
      using Cons.prems(1) w Inl by (simp add: call_def is_open_def)
    moreover have "state ?b1 = CLOSED" "failure_count ?b1 = failure_count b + 1"
      "failure_threshold ?b1 = failure_threshold b" "call_timeout ?b1 = call_timeout b"
      using Cons.prems w Inl c by (auto simp: record_failure_def Let_def call_ok_def)
    ultimately show ?thesis
      using Cons.IH [of ?b1] Cons.prems(2) w Inl c by (auto simp: call_ok_def)
  next
    case (Inr v)
    let ?b1 = "record_success b"
    have "call now (d, r) b = (Inr v, ?b1)"
      using Cons.prems(1) w Inr by (simp add: call_def is_open_def)
    moreover have "state ?b1 = CLOSED" "failure_count ?b1 = 0"
      "failure_threshold ?b1 = failure_threshold b" "call_timeout ?b1 = call_timeout b"
      by (auto simp: record_success_def)
    ultimately show ?thesis
      using Cons.IH [of ?b1] Cons.prems(2) w Inr c by (auto simp: call_ok_def)
  qed
qed auto

definition n_failures :: "(real \<times> 'a outcome) list \<Rightarrow> int" where
  "n_failures cs = int (length (filter (\<lambda>(now, out). \<not> call_ok out) cs))"

lemma run_c2g_closed:
  assumes "c2g_state b = CLOSED" "c2g_failure_count b + n_failures cs < c2g_failure_threshold b"
  shows "\<exists>rs b'. run_calls c2g_call cs b = (rs, b') \<and> c2g_state b' = CLOSED \<and>
    c2g_failure_count b' = c2g_failure_count b + n_failures cs \<and>
    c2g_failure_threshold b' = c2g_failure_threshold b"
  using assms
proof (induction cs arbitrary: b)
  case (Cons c cs)
  obtain now d r where c: "c = (now, d, r)" by (cases c) auto
  show ?case
  proof (cases r)
    case (Inl e)
    let ?b1 = "c2g_failure (now + d) b"
    have f: "n_failures (c # cs) = n_failures cs + 1"
      using c Inl by (simp add: n_failures_def call_ok_def)
    have "c2g_call now (d, r) b = (Inl e, ?b1)"
      using Cons.prems(1) Inl by (simp add: c2g_call_def c2g_admit_def)
    moreover have "c2g_state ?b1 = CLOSED" "c2g_failure_count ?b1 = c2g_failure_count b + 1"
      "c2g_failure_threshold ?b1 = c2g_failure_threshold b"
      using Cons.prems f by (auto simp: c2g_failure_def Let_def n_failures_def)
    ultimately show ?thesis
      using Cons.IH [of ?b1] Cons.prems(2) f c by auto
  next
    case (Inr v)
    have "c2g_call now (d, r) b = (Inr v, b)" "n_failures (c # cs) = n_failures cs"
      using Cons.prems(1) Inr c by (simp_all add: c2g_call_def c2g_admit_def c2g_success_def n_failures_def call_ok_def)
    then show ?thesis using Cons.IH [of b] Cons.prems c by auto
  qed
qed (auto simp: n_failures_def)

subsection \<open>Properties\<close>

text \<open>
  C6: in every interleaving of calls through the optimiser's circuit breaker, starting from a new
  breaker with a positive threshold, \<open>is_open\<close> never raises; the breaker is OPEN only after at
  least \<open>failure_threshold\<close> recorded failures; a call is rejected exactly when the breaker is
  OPEN and the recovery window of the last failure has not elapsed, and a rejection changes
  nothing.
\<close>

theorem breaker_interleaving_contract:
  assumes "0 < thr"
    and "(cb_step breaker_admit (\<lambda>_. record_success) record_failure)\<^sup>*\<^sup>* (new_breaker thr tmo rec, 0) (b, n)"
  shows "(state b = OPEN \<longrightarrow> thr \<le> failure_count b) \<and>
    (\<exists>opn b'. is_open now b = Inr (opn, b') \<and>
      (opn \<longleftrightarrow> state b = OPEN \<and> (\<exists>t. last_failure_time b = Some t \<and> now - t \<le> rec)) \<and>
      (opn \<longrightarrow> b' = b))"
proof -
  have inv: "cb_inv thr rec (breaker_view b)"
    using cb.reachable_inv [OF assms(2), of thr rec] assms(1) by simp
  then show ?thesis
    by (auto simp: cb_inv_def breaker_view_def is_open_def)
qed

theorem breaker_interleaving_contract_witness:
  "\<exists>opn b'. is_open 5 (record_failure 3 (new_breaker 1 15 60)) = Inr (opn, b') \<and> opn"
proof -
  have a: "cb_step breaker_admit (\<lambda>_. record_success) record_failure (new_breaker 1 15 60, 0) (new_breaker 1 15 60, 1)"
    using cb_step.admitted [of breaker_admit 1 "new_breaker 1 15 60" "new_breaker 1 15 60" "\<lambda>_. record_success" record_failure 0]
    by (simp add: breaker_admit_def is_open_def new_breaker_def)
  have b: "cb_step breaker_admit (\<lambda>_. record_success) record_failure (new_breaker 1 15 60, 1) (record_failure 3 (new_breaker 1 15 60), 0)"
    using cb_step.failed [of 3 breaker_admit "\<lambda>_. record_success" record_failure "new_breaker 1 15 60" 0] by simp
  have "(cb_step breaker_admit (\<lambda>_. record_success) record_failure)\<^sup>*\<^sup>* (new_breaker 1 15 60, 0) (record_failure 3 (new_breaker 1 15 60), 0)"
    using a b by (meson r_into_rtranclp rtranclp_trans)
  from breaker_interleaving_contract [OF _ this, of 5] show ?thesis
    by (auto simp: record_failure_def new_breaker_def Let_def)
qed

text \<open>
  C7: the optimiser's breaker implements the consecutive-failure policy: from a CLOSED breaker, a
  sequence of calls in which no run of failures (timeouts included) reaches the threshold is
  answered as if there were no breaker, leaves it CLOSED, and its counter is the length of the
  current run of failures.
\<close>

theorem breaker_counts_consecutive_failures:
  assumes "state b = CLOSED"
    and "streaks_below (failure_threshold b) (failure_count b)
      (map (\<lambda>(now, out). call_ok (wait_for (call_timeout b) out)) cs)"
  shows "fst (run_calls call cs b) = map (\<lambda>(now, out). snd (wait_for (call_timeout b) out)) cs \<and>
    state (snd (run_calls call cs b)) = CLOSED \<and>
    failure_count (snd (run_calls call cs b)) =
      streak (failure_count b) (map (\<lambda>(now, out). call_ok (wait_for (call_timeout b) out)) cs)"
  using run_call_closed [OF assms] by auto

theorem breaker_counts_consecutive_failures_witness:
  "failure_count (snd (run_calls call
     [(10, 1, Inl ConnectionError), (20, 1, Inr ()), (30, 99, Inr ()), (50, 1, Inl ValueError)]
     (new_breaker 3 15 60))) = 2"
proof -
  have "failure_count (snd (run_calls call
     [(10, 1, Inl ConnectionError), (20, 1, Inr ()), (30, 99, Inr ()), (50, 1, Inl ValueError)]
     (new_breaker 3 15 60))) = streak 0 [False, True, False, False]"
    using breaker_counts_consecutive_failures
      [of "new_breaker 3 15 60" "[(10, 1, Inl ConnectionError), (20, 1, Inr ()), (30, 99, Inr ()), (50, 1, Inl ValueError)]"]
    by (simp add: new_breaker_def call_ok_def)
  then show ?thesis by simp
qed

text \<open>
  the City2Graph breaker counts failures over its whole closed life, not consecutive ones:
  from a new breaker, any sequence of calls with one failure less than the threshold, whatever
  successes lie between, followed by one failing call leaves it OPEN.
\<close>

theorem c2g_opens_on_scattered_failures:
  assumes "n_failures cs + 1 = thr"
  shows "c2g_state (snd (run_calls c2g_call (cs @ [(now, d, Inl e)]) (new_c2g_breaker thr rec))) = OPEN"
proof -
  have "c2g_failure_count (new_c2g_breaker thr rec) + n_failures cs < c2g_failure_threshold (new_c2g_breaker thr rec)"
    using assms by (simp add: new_c2g_breaker_def)
  moreover have "c2g_state (new_c2g_breaker thr rec) = CLOSED"
    by (simp add: new_c2g_breaker_def)
  ultimately obtain rs b' where r: "run_calls c2g_call cs (new_c2g_breaker thr rec) = (rs, b')"
    "c2g_state b' = CLOSED" "c2g_failure_count b' = n_failures cs" "c2g_failure_threshold b' = thr"
    using run_c2g_closed [of "new_c2g_breaker thr rec" cs] by (auto simp: new_c2g_breaker_def)
  then show ?thesis
    using assms by (simp add: run_calls_append c2g_call_def c2g_admit_def c2g_failure_def Let_def)
qed

theorem c2g_opens_on_scattered_failures_witness:
  "c2g_state (snd (run_calls c2g_call
     ([(1, 1, Inl ValueError), (2, 1, Inr ()), (3, 1, Inr ())] @ [(9, 1, Inl KeyError)])
     (new_c2g_breaker 2 300))) = OPEN"
  by (rule c2g_opens_on_scattered_failures) (simp add: n_failures_def call_ok_def)

end
