(* ===== verification/ProfessionalOptimizer.thy ===== *)
theory ProfessionalOptimizer
  imports PyVal
begin

section \<open>The OR-Tools solver wrapper\<close>

text \<open>
  src/services/ortools_professional_optimizer.py.  \<open>ORToolsTSPSolver\<close> builds a routing problem,
  hands it to the OR-Tools library and reads the route off the solution;
  \<open>ProfessionalItineraryOptimizer\<close> converts the place dictionaries and wraps the result.
  The library is the parameter \<open>solver\<close>: it maps a routing problem to a solution, to none, or
  to an exception.  A solution is read through the four queries the code makes of it.
\<close>

record poi =
  poi_id :: int
  poi_name :: pyval
  poi_lat :: pyval
  poi_lon :: pyval
  poi_rating :: pyval
  poi_category :: pyval
  poi_duration_minutes :: pyval
  poi_opening_hour :: pyval
  poi_closing_hour :: pyval
  poi_is_mandatory :: pyval
  poi_priority :: pyval

record opt_window =
  start_minutes :: int
  end_minutes :: int

definition window_from_hours :: "int \<Rightarrow> int \<Rightarrow> opt_window" where
  "window_from_hours a b = \<lparr>start_minutes = a * 60, end_minutes = b * 60\<rparr>"

record opt_result =
  or_success :: bool
  or_route :: "nat list"
  or_total_distance_m :: real
  or_total_time_minutes :: real
  or_algorithm_used :: string
  or_constraints_satisfied :: bool
  or_dropped_pois :: "nat list option"

record od_matrix =
  od_distances :: "real list list option"
  od_durations :: "real list list option"

record routing_problem =
  rp_nodes :: nat
  rp_cost :: "nat \<Rightarrow> nat \<Rightarrow> int res"
  rp_time :: "(nat \<Rightarrow> nat \<Rightarrow> int res) option"
  rp_windows :: "(nat \<times> int \<times> int) list"
  rp_disjunctions :: "(nat \<times> int) list"
  rp_time_limit_s :: int

record ort_solution =
  sol_start :: nat
  sol_is_end :: "nat \<Rightarrow> bool"
  sol_node :: "nat \<Rightarrow> nat"
  sol_next :: "nat \<Rightarrow> nat"
  sol_cumul :: "nat \<Rightarrow> int"

type_synonym solver = "routing_problem \<Rightarrow> ort_solution option res"

subsection \<open>Matrix access and callbacks\<close>

definition lookup2 :: "'a list list \<Rightarrow> nat \<Rightarrow> nat \<Rightarrow> 'a res" where
  "lookup2 m i j =
     (if i < length m then (if j < length (m ! i) then Inr (m ! i ! j) else Inl IndexError)
      else Inl IndexError)"

definition distance_callback :: "real list list \<Rightarrow> nat \<Rightarrow> nat \<Rightarrow> int res" where
  "distance_callback dm i j = rbind (lookup2 dm i j) (\<lambda>x. Inr (py_trunc x))"

text \<open>Arguments of the library's integer setters.\<close>

fun need_int :: "pyval \<Rightarrow> int res" where
  "need_int (VInt i) = Inr i"
| "need_int (VBool b) = Inr (if b then 1 else 0)"
| "need_int _ = Inl TypeError"

definition time_callback :: "real list list \<Rightarrow> poi list \<Rightarrow> nat \<Rightarrow> nat \<Rightarrow> int res" where
  "time_callback tm pois i j =
     rbind (lookup2 tm i j) (\<lambda>t.
     rbind (if i < length pois then need_int (poi_duration_minutes (pois ! i)) else Inr 0) (\<lambda>s.
     Inr (py_trunc t + s)))"

definition basic_problem :: "real list list \<Rightarrow> routing_problem" where
  "basic_problem dm =
     \<lparr>rp_nodes = length dm, rp_cost = distance_callback dm, rp_time = None,
      rp_windows = [], rp_disjunctions = [], rp_time_limit_s = 1\<rparr>"

text \<open>The depot (the first place) gets a ten-hour range from the start time, the others their opening hours.\<close>

definition poi_window :: "int \<Rightarrow> nat \<times> poi \<Rightarrow> (nat \<times> int \<times> int) res" where
  "poi_window start ip =
     (case ip of (i, p) \<Rightarrow>
        if i = 0 then Inr (0, start, start + 600)
        else rbind (need_int (poi_opening_hour p)) (\<lambda>a.
             rbind (need_int (poi_closing_hour p)) (\<lambda>b. Inr (i, a * 60, b * 60))))"

definition vrptw_problem ::
  "real list list \<Rightarrow> real list list \<Rightarrow> poi list \<Rightarrow> int \<Rightarrow> routing_problem res" where
  "vrptw_problem dm tm pois start =
     rbind (rmap_list (poi_window start) (enumerate 0 pois)) (\<lambda>ws.
     Inr \<lparr>rp_nodes = length pois, rp_cost = distance_callback dm,
          rp_time = Some (time_callback tm pois), rp_windows = ws,
          rp_disjunctions =
            map (\<lambda>(i, p). (i, 10000))
              (filter (\<lambda>(i, p). truthy (poi_is_mandatory p) \<and> i > 0) (enumerate 0 pois)),
          rp_time_limit_s = 2\<rparr>)"

subsection \<open>Reading the route off a solution\<close>

text \<open>
  The \<open>while\<close> loop of both extractors: \<open>None\<close> is a loop that never reaches an end index.
  The accumulator holds the route, the length so far and the last cumulated time.
\<close>

partial_function (option) extract_loop ::
  "ort_solution \<Rightarrow> real list list \<Rightarrow> nat \<Rightarrow> nat list \<Rightarrow> real \<Rightarrow> int \<Rightarrow> (nat list \<times> real \<times> int) res option" where
  "extract_loop sol dm i route tot t =
     (if sol_is_end sol i then Some (Inr (route, tot, t))
      else if sol_is_end sol (sol_next sol i)
      then extract_loop sol dm (sol_next sol i) (route @ [sol_node sol i]) tot (sol_cumul sol i)
      else (case lookup2 dm (sol_node sol i) (sol_node sol (sol_next sol i)) of
              Inl e \<Rightarrow> Some (Inl e)
            | Inr x \<Rightarrow> extract_loop sol dm (sol_next sol i) (route @ [sol_node sol i]) (tot + x)
                          (sol_cumul sol i)))"

definition extract_solution_basic :: "ort_solution \<Rightarrow> real list list \<Rightarrow> opt_result res option" where
  "extract_solution_basic sol dm =
     map_option (\<lambda>r. rbind r (\<lambda>(route, tot, _).
       Inr \<lparr>or_success = True, or_route = route, or_total_distance_m = tot,
            or_total_time_minutes = (tot / 1000 / 50) * 60 + real (length route) * 60,
            or_algorithm_used = ''OR_TOOLS_TSP_BASIC'', or_constraints_satisfied = True,
            or_dropped_pois = None\<rparr>))
       (extract_loop sol dm (sol_start sol) [] 0 0)"

definition extract_solution_vrptw :: "ort_solution \<Rightarrow> real list list \<Rightarrow> poi list \<Rightarrow> opt_result res option" where
  "extract_solution_vrptw sol dm pois =
     map_option (\<lambda>r. rbind r (\<lambda>(route, tot, t).
       let dropped = filter (\<lambda>i. i \<notin> set route) [0..<length pois] in
       Inr \<lparr>or_success = True, or_route = route, or_total_distance_m = tot,
            or_total_time_minutes = real_of_int t,
            or_algorithm_used = ''OR_TOOLS_VRPTW'', or_constraints_satisfied = (dropped = []),
            or_dropped_pois = Some dropped\<rparr>))
       (extract_loop sol dm (sol_start sol) [] 0 0)"

definition failed_result :: "string \<Rightarrow> opt_result" where
  "failed_result alg =
     \<lparr>or_success = False, or_route = [], or_total_distance_m = 0, or_total_time_minutes = 0,
      or_algorithm_used = alg, or_constraints_satisfied = False, or_dropped_pois = None\<rparr>"

definition solve_tsp_basic :: "solver \<Rightarrow> real list list \<Rightarrow> opt_result option" where
  "solve_tsp_basic solver dm =
     (case solver (basic_problem dm) of
        Inl e \<Rightarrow> Some (failed_result ''OR_TOOLS_ERROR'')
      | Inr None \<Rightarrow> Some (failed_result ''OR_TOOLS_TSP_FAILED'')
      | Inr (Some sol) \<Rightarrow>
          map_option (\<lambda>r. case r of Inl e \<Rightarrow> failed_result ''OR_TOOLS_ERROR'' | Inr x \<Rightarrow> x)
            (extract_solution_basic sol dm))"

definition solve_vrptw ::
  "solver \<Rightarrow> real list list \<Rightarrow> real list list \<Rightarrow> poi list \<Rightarrow> int \<Rightarrow> opt_result option" where
  "solve_vrptw solver dm tm pois start =
     (case rbind (vrptw_problem dm tm pois start) solver of
        Inl e \<Rightarrow> solve_tsp_basic solver dm
      | Inr None \<Rightarrow> solve_tsp_basic solver dm
      | Inr (Some sol) \<Rightarrow>
          (case extract_solution_vrptw sol dm pois of
             None \<Rightarrow> None
           | Some (Inl e) \<Rightarrow> solve_tsp_basic solver dm
           | Some (Inr x) \<Rightarrow> Some x))"

subsection \<open>The itinerary optimizer\<close>

definition to_poi :: "nat \<times> pydict \<Rightarrow> poi res" where
  "to_poi ip =
     (case ip of (i, p) \<Rightarrow>
       rbind (dindex p ''lat'') (\<lambda>lat. rbind (dindex p ''lon'') (\<lambda>lon.
       Inr \<lparr>poi_id = int i, poi_name = dget p ''name'' (VStr (''POI_'' @ show_nat i)),
            poi_lat = lat, poi_lon = lon,
            poi_rating = dget p ''rating'' VNone, poi_category = dget p ''category'' VNone,
            poi_duration_minutes = dget p ''duration_minutes'' (VInt 60),
            poi_opening_hour = dget p ''opening_hour'' (VInt 9),
            poi_closing_hour = dget p ''closing_hour'' (VInt 18),
            poi_is_mandatory = dget p ''is_mandatory'' (VBool True),
            poi_priority = dget p ''priority'' (VInt 1)\<rparr>)))"

definition parse_time_to_minutes :: "string \<Rightarrow> int res" where
  "parse_time_to_minutes s =
     rbind (rmap_list (\<lambda>w. py_int (VStr w)) (split_on (CHR '':'') s)) (\<lambda>ws.
     case ws of [h, m] \<Rightarrow> Inr (h * 60 + m) | _ \<Rightarrow> Inl ValueError)"

record opt_response =
  rs_success :: bool
  rs_route :: "nat list" \<comment> \<open>\<open>optimized_route\<close>, or \<open>fallback_route\<close> when not successful\<close>
  rs_pois :: "pydict list"
  rs_total_distance_km :: real
  rs_total_time_minutes :: real
  rs_algorithm_used :: string
  rs_constraints_satisfied :: bool
  rs_dropped_pois :: "nat list"
  rs_pois_optimized :: nat
  rs_efficiency_gain :: "int \<times> nat" \<comment> \<open>the two numbers of the text \<open>kept/total\<close>\<close>

definition nth_res :: "'a list \<Rightarrow> nat \<Rightarrow> 'a res" where
  "nth_res xs i = (if i < length xs then Inr (xs ! i) else Inl IndexError)"

definition wrap_result :: "pydict list \<Rightarrow> opt_result \<Rightarrow> opt_response res" where
  "wrap_result pois r =
     (let dropped = (case or_dropped_pois r of None \<Rightarrow> [] | Some ds \<Rightarrow> ds) in
      if or_success r then
        rbind (rmap_list (nth_res pois) (or_route r)) (\<lambda>ps.
        Inr \<lparr>rs_success = True, rs_route = or_route r, rs_pois = ps,
             rs_total_distance_km = or_total_distance_m r / 1000,
             rs_total_time_minutes = or_total_time_minutes r,
             rs_algorithm_used = or_algorithm_used r,
             rs_constraints_satisfied = or_constraints_satisfied r,
             rs_dropped_pois = dropped, rs_pois_optimized = length (or_route r),
             rs_efficiency_gain = (int (length pois) - int (length dropped), length pois)\<rparr>)
      else
        Inr \<lparr>rs_success = False, rs_route = [0..<length pois], rs_pois = [],
             rs_total_distance_km = 0, rs_total_time_minutes = 0,
             rs_algorithm_used = or_algorithm_used r, rs_constraints_satisfied = False,
             rs_dropped_pois = [], rs_pois_optimized = 0,
             rs_efficiency_gain = (0, length pois)\<rparr>)"

definition need_key :: "'a option \<Rightarrow> 'a res" where
  "need_key v = (case v of None \<Rightarrow> Inl KeyError | Some x \<Rightarrow> Inr x)"

definition optimize_itinerary_advanced ::
  "solver \<Rightarrow> pydict list \<Rightarrow> od_matrix \<Rightarrow> bool \<Rightarrow> string \<Rightarrow> opt_response res option" where
  "optimize_itinerary_advanced solver pois mat use_tw start_time =
     (case rbind (rmap_list to_poi (enumerate 0 pois)) (\<lambda>sp.
           rbind (need_key (od_distances mat)) (\<lambda>dm.
           rbind (need_key (od_durations mat)) (\<lambda>du.
           if use_tw \<and> length sp > 1
           then rbind (parse_time_to_minutes start_time) (\<lambda>st. Inr (sp, dm, du, Some st))
           else Inr (sp, dm, du, None)))) of
        Inl e \<Rightarrow> Some (Inl e)
      | Inr (sp, dm, du, st) \<Rightarrow>
          map_option (wrap_result pois)
            (case st of
               Some s \<Rightarrow> solve_vrptw solver dm (map (map (\<lambda>d. d / 60)) du) sp s
             | None \<Rightarrow> solve_tsp_basic solver dm))"


text \<open>
  The dictionary the caller receives; \<open>opt_time\<close> is the solver's running time and \<open>speed\<close> its
  rendering with three decimals.
\<close>

definition response_dict :: "real \<Rightarrow> string \<Rightarrow> opt_response \<Rightarrow> pydict" where
  "response_dict opt_time speed r =
     (let ints = (\<lambda>ns. VList (map (\<lambda>n. VInt (int n)) ns)) in
      if rs_success r then
        [(''success'', VBool True), (''optimized_route'', ints (rs_route r)),
         (''optimized_pois'', VList (map VDict (rs_pois r))),
         (''total_distance_km'', VFloat (rs_total_distance_km r)),
         (''total_time_minutes'', VFloat (rs_total_time_minutes r)),
         (''optimization_time_s'', VFloat opt_time),
         (''algorithm_used'', VStr (rs_algorithm_used r)),
         (''constraints_satisfied'', VBool (rs_constraints_satisfied r)),
         (''dropped_pois'', ints (rs_dropped_pois r)),
         (''performance_metrics'', VDict
            [(''pois_optimized'', VInt (int (rs_pois_optimized r))),
             (''efficiency_gain'', VStr (show_int (fst (rs_efficiency_gain r)) @ ''/'' @
                 show_nat (snd (rs_efficiency_gain r)))),
             (''algorithm_speed'', VStr (speed @ ''s''))])]
      else
        [(''success'', VBool False), (''error'', VStr (''Optimizaci'' @ [CHR 0xC3, CHR 0xB3] @ ''n fall'' @ [CHR 0xC3, CHR 0xB3])),
         (''fallback_route'', ints (rs_route r)), (''algorithm_used'', VStr (rs_algorithm_used r))])"

subsection \<open>Lemmas\<close>

text \<open>The route a solution describes from an index, when it reaches an end.\<close>

fun sol_path :: "ort_solution \<Rightarrow> nat \<Rightarrow> nat list \<Rightarrow> bool" where
  "sol_path sol i [] = sol_is_end sol i"
| "sol_path sol i (n # ns) = (\<not> sol_is_end sol i \<and> sol_node sol i = n \<and> sol_path sol (sol_next sol i) ns)"

fun legs_length :: "real list list \<Rightarrow> nat list \<Rightarrow> real" where
  "legs_length dm (a # b # ns) = dm ! a ! b + legs_length dm (b # ns)"
| "legs_length dm _ = 0"

definition square :: "real list list \<Rightarrow> nat \<Rightarrow> bool" where
  "square dm n \<longleftrightarrow> length dm = n \<and> (\<forall>row \<in> set dm. length row = n)"

lemma lookup2_square: "square dm n \<Longrightarrow> i < n \<Longrightarrow> j < n \<Longrightarrow> lookup2 dm i j = Inr (dm ! i ! j)"
  by (auto simp: lookup2_def square_def)

lemma extract_loop_path:
  assumes "sol_path sol i ns" "square dm n" "set ns \<subseteq> {..<n}"
  shows "\<exists>t'. extract_loop sol dm i r tot t = Some (Inr (r @ ns, tot + legs_length dm ns, t'))"
  using assms
proof (induction ns arbitrary: i r tot t)
  case Nil
  then show ?case by (subst extract_loop.simps) simp
next
  case (Cons a ns)
  let ?j = "sol_next sol i"
  show ?case
  proof (cases ns)
    case Nil
    with Cons.prems have "sol_is_end sol ?j" by simp
    with Cons.prems Cons.IH [of ?j "r @ [a]" tot "sol_cumul sol i"] Nil show ?thesis
      by (subst extract_loop.simps) auto
  next
    case (Cons b ns')
    with Cons.prems have j: "\<not> sol_is_end sol ?j" "sol_node sol ?j = b" "a < n" "b < n" "sol_node sol i = a"
      by auto
    with Cons.prems Cons have "lookup2 dm a b = Inr (dm ! a ! b)" by (simp add: lookup2_square)
    with j Cons.prems Cons.IH [of ?j "r @ [a]" "tot + dm ! a ! b" "sol_cumul sol i"] Cons show ?thesis
      by (subst extract_loop.simps) (auto simp: add.assoc)
  qed
qed

lemma poi_windows_total:
  assumes "\<And>p. p \<in> set pois \<Longrightarrow> \<exists>a b. need_int (poi_opening_hour p) = Inr a \<and> need_int (poi_closing_hour p) = Inr b"
  shows "\<exists>ws. rmap_list (poi_window start) (enumerate 0 pois) = Inr ws"
proof -
  have "\<exists>w. poi_window start ip = Inr w" if "ip \<in> set (enumerate 0 pois)" for ip
  proof -
    obtain i p where ip: "ip = (i, p)" by (cases ip)
    with that have "p \<in> set pois" by (auto simp: in_set_enumerate_eq)
    then obtain a b where "need_int (poi_opening_hour p) = Inr a" "need_int (poi_closing_hour p) = Inr b"
      using assms by blast
    with ip show ?thesis by (simp add: poi_window_def)
  qed
  then show ?thesis
    using rmap_list_total [of "enumerate 0 pois" "poi_window start" "\<lambda>ip. projr (poi_window start ip)"]
    by (metis sum.sel(2))
qed

subsection \<open>Properties\<close>

text \<open>
  When the solver's answer to the time-window problem is a route over the given places,
  \<open>solve_vrptw\<close> returns exactly that route, its length is the sum of its legs, the dropped places
  are exactly the places off the route, and \<open>constraints_satisfied\<close> says that none is.
\<close>

lemma solve_vrptw_solution:
  assumes "vrptw_problem dm tm pois start = Inr prob" "solver prob = Inr (Some sol)"
    and "sol_path sol (sol_start sol) ns" "square dm (length pois)" "set ns \<subseteq> {..<length pois}"
  shows "\<exists>r. solve_vrptw solver dm tm pois start = Some r \<and> or_success r \<and> or_route r = ns \<and>
    or_total_distance_m r = legs_length dm ns \<and>
    (\<exists>ds. or_dropped_pois r = Some ds \<and> distinct ds \<and> set ds = {..<length pois} - set ns \<and>
      (or_constraints_satisfied r \<longleftrightarrow> {..<length pois} = set ns))"
proof -
  obtain t' where e: "extract_loop sol dm (sol_start sol) [] 0 0 = Some (Inr (ns, legs_length dm ns, t'))"
    using extract_loop_path [OF assms(3,4,5), of "[]" 0 0] by auto
  let ?ds = "filter (\<lambda>i. i \<notin> set ns) [0..<length pois]"
  have "set ?ds = {..<length pois} - set ns" by auto
  moreover have "?ds = [] \<longleftrightarrow> {..<length pois} = set ns"
    using assms(5) by (auto simp: filter_empty_conv)
  moreover have "extract_solution_vrptw sol dm pois =
      Some (Inr \<lparr>or_success = True, or_route = ns, or_total_distance_m = legs_length dm ns,
        or_total_time_minutes = real_of_int t', or_algorithm_used = ''OR_TOOLS_VRPTW'',
        or_constraints_satisfied = (?ds = []), or_dropped_pois = Some ?ds\<rparr>)"
    by (simp add: extract_solution_vrptw_def e Let_def)
  then have "solve_vrptw solver dm tm pois start =
      Some \<lparr>or_success = True, or_route = ns, or_total_distance_m = legs_length dm ns,
        or_total_time_minutes = real_of_int t', or_algorithm_used = ''OR_TOOLS_VRPTW'',
        or_constraints_satisfied = (?ds = []), or_dropped_pois = Some ?ds\<rparr>"
    by (simp add: solve_vrptw_def assms(1,2))
  ultimately show ?thesis by (simp del: set_filter)
qed

text \<open>What the solver is asked: the problem of the places, their hours and their flags.\<close>

lemma poi_windows_nth:
  assumes "rmap_list (poi_window start) xs = Inr ws"
  shows "length ws = length xs \<and> (\<forall>i < length xs. poi_window start (xs ! i) = Inr (ws ! i))"
  using assms
proof (induction xs arbitrary: ws)
  case (Cons x xs)
  then obtain w vs where "poi_window start x = Inr w" "rmap_list (poi_window start) xs = Inr vs" "ws = w # vs"
    by (auto simp: rbind_eq_Inr_iff)
  with Cons.IH [of vs] show ?case by (auto simp: nth_Cons split: nat.split)
qed simp

definition asked_problem :: "real list list \<Rightarrow> poi list \<Rightarrow> int \<Rightarrow> routing_problem \<Rightarrow> bool" where
  "asked_problem dm pois start prob \<longleftrightarrow>
     rp_nodes prob = length pois \<and> length (rp_windows prob) = length pois \<and>
     (\<forall>i < length pois. if i = 0 then rp_windows prob ! i = (0, start, start + 600)
        else \<exists>a b. need_int (poi_opening_hour (pois ! i)) = Inr a \<and> need_int (poi_closing_hour (pois ! i)) = Inr b \<and>
               rp_windows prob ! i = (i, a * 60, b * 60)) \<and>
     set (rp_disjunctions prob) = {(i, 10000) |i. 0 < i \<and> i < length pois \<and> truthy (poi_is_mandatory (pois ! i))} \<and>
     (\<forall>i < length pois. \<forall>j < length pois. rp_cost prob i j = Inr (py_trunc (dm ! i ! j)))"

lemma vrptw_problem_asked:
  assumes "vrptw_problem dm tm pois start = Inr prob" "square dm (length pois)"
  shows "asked_problem dm pois start prob"
proof -
  from assms(1) obtain ws where w: "rmap_list (poi_window start) (enumerate 0 pois) = Inr ws" and p: "prob = \<lparr>rp_nodes = length pois, rp_cost = distance_callback dm,
          rp_time = Some (time_callback tm pois), rp_windows = ws,
          rp_disjunctions = map (\<lambda>(i, p). (i, 10000)) (filter (\<lambda>(i, p). truthy (poi_is_mandatory p) \<and> i > 0) (enumerate 0 pois)),
          rp_time_limit_s = 2\<rparr>"
    by (auto simp: vrptw_problem_def rbind_eq_Inr_iff)
  note n = poi_windows_nth [OF w]
  have W: "\<forall>i < length pois. if i = 0 then ws ! i = (0, start, start + 600)
        else \<exists>a b. need_int (poi_opening_hour (pois ! i)) = Inr a \<and> need_int (poi_closing_hour (pois ! i)) = Inr b \<and> ws ! i = (i, a * 60, b * 60)"
  proof (intro allI impI)
    fix i assume i: "i < length pois"
    then have "poi_window start (i, pois ! i) = Inr (ws ! i)" using n by (auto simp: nth_enumerate_eq)
    then show "if i = 0 then ws ! i = (0, start, start + 600)
        else \<exists>a b. need_int (poi_opening_hour (pois ! i)) = Inr a \<and> need_int (poi_closing_hour (pois ! i)) = Inr b \<and> ws ! i = (i, a * 60, b * 60)"
      by (auto simp: poi_window_def rbind_eq_Inr_iff)
  qed
  have D: "set (map (\<lambda>(i, p). (i, 10000 :: int)) (filter (\<lambda>(i, p). truthy (poi_is_mandatory p) \<and> i > 0) (enumerate 0 pois))) =
      {(i, 10000) |i. 0 < i \<and> i < length pois \<and> truthy (poi_is_mandatory (pois ! i))}"
    by (force simp: in_set_enumerate_eq)
  have C: "\<forall>i < length pois. \<forall>j < length pois. distance_callback dm i j = Inr (py_trunc (dm ! i ! j))"
    using assms(2) by (auto simp: distance_callback_def lookup2_def square_def)
  show ?thesis unfolding asked_problem_def p routing_problem.simps
    by (intro conjI; (rule refl W D C)?) (use n in simp)
qed


definition demo_poi :: poi where
  "demo_poi = \<lparr>poi_id = 0, poi_name = VStr ''A'', poi_lat = VFloat 0, poi_lon = VFloat 0,
     poi_rating = VNone, poi_category = VNone, poi_duration_minutes = VInt 60,
     poi_opening_hour = VInt 9, poi_closing_hour = VInt 18, poi_is_mandatory = VBool True,
     poi_priority = VInt 1\<rparr>"

definition demo_solution :: ort_solution where
  "demo_solution = \<lparr>sol_start = 0, sol_is_end = (\<lambda>i. i = 3), sol_node = (\<lambda>i. i),
     sol_next = (\<lambda>i. if i = 0 then 2 else 3), sol_cumul = (\<lambda>i. 540)\<rparr>"


text \<open>
  the start time the service passes, \<open>f"{h:02d}:{m:02d}"\<close>, is read back by
  \<open>_parse_time_to_minutes\<close> as the minutes since midnight.
\<close>

theorem parse_time_roundtrip:
  "parse_time_to_minutes (pad2 h @ '':'' @ pad2 m) = Inr (int h * 60 + int m)"
proof -
  have sep: "CHR '':'' \<notin> set (pad2 k)" for k
    using pad2_digits [of k] digit_not_special by blast
  have int: "py_int (VStr (pad2 k)) = Inr (int k)" for k
    using parse_int_digits [OF pad2_digits pad2_nonempty digits_val_pad2, of k] by simp
  have "split_on (CHR '':'') (pad2 h @ CHR '':'' # pad2 m) = [pad2 h, pad2 m]"
    by (simp add: split_on_append split_on_none sep)
  then show ?thesis
    using int [of h] int [of m] by (simp add: parse_time_to_minutes_def del: py_int.simps)
qed

end
