(* ===== verification/Settings.thy ===== *)
theory Settings
  imports PyVal
begin

section \<open>Configuration\<close>

text \<open>
  src/settings.py: the fields of \<open>Settings\<close> that the modelled code reads, under their own names.
  The plain fields have literal defaults (\<open>default_settings\<close>); the feature flags of City2Graph and
  OR-Tools are computed from the environment when the class body runs, so loading them may raise.
\<close>

subsection \<open>Planning constants\<close>

record settings =
  MAX_DAILY_ACTIVITIES :: int
  MAX_WALKING_DISTANCE_KM :: real
  DEFAULT_ACTIVITY_BUFFER_MIN :: int
  BUSINESS_START_H :: int
  BUSINESS_END_H :: int
  CITY_SPEED_KMH_WALK :: real
  CITY_SPEED_KMH_DRIVE :: real
  CITY_SPEED_KMH_BIKE :: real
  CITY_SPEED_KMH_TRANSIT :: real
  MIN_TRAVEL_MIN :: int
  CLUSTER_EPS_KM_URBAN :: real
  CLUSTER_EPS_KM_RURAL :: real
  CLUSTER_MIN_SAMPLES :: int
  WALK_MAX_KM :: real
  INTERCITY_THRESHOLD_KM_URBAN :: real
  INTERCITY_THRESHOLD_KM_RURAL :: real
  LONG_TRANSFER_MIN :: int
  WALK_KMH :: real
  DRIVE_KMH :: real
  TRANSIT_KMH :: real
  AIR_SPEED_KMPH :: real
  AIR_BUFFERS_MIN :: int
  WALK_THRESHOLD_KM :: real
  DRIVE_THRESHOLD_KM :: real
  FLIGHT_THRESHOLD_KM :: real
  TRANSIT_AVAILABLE :: bool
  RESTAURANT_LUNCH_START :: int
  RESTAURANT_LUNCH_END :: int
  RESTAURANT_DINNER_START :: int
  RESTAURANT_DINNER_END :: int
  MUSEUM_PREFERRED_START :: int
  MUSEUM_PREFERRED_END :: int
  SHOPPING_PREFERRED_START :: int
  SHOPPING_PREFERRED_END :: int
  DEFAULT_PACKING_STRATEGY :: string
  MIN_ACTIVITIES_PER_DAY :: int
  MAX_ACTIVITIES_PER_DAY :: int
  TARGET_MINUTES_PER_DAY :: int

definition default_settings :: settings where
  "default_settings = \<lparr>
     MAX_DAILY_ACTIVITIES = 8,
     MAX_WALKING_DISTANCE_KM = 15,
     DEFAULT_ACTIVITY_BUFFER_MIN = 15,
     BUSINESS_START_H = 9,
     BUSINESS_END_H = 18,
     CITY_SPEED_KMH_WALK = 9/2,
     CITY_SPEED_KMH_DRIVE = 22,
     CITY_SPEED_KMH_BIKE = 15,
     CITY_SPEED_KMH_TRANSIT = 25,
     MIN_TRAVEL_MIN = 8,
     CLUSTER_EPS_KM_URBAN = 8,
     CLUSTER_EPS_KM_RURAL = 15,
     CLUSTER_MIN_SAMPLES = 1,
     WALK_MAX_KM = 2,
     INTERCITY_THRESHOLD_KM_URBAN = 25,
     INTERCITY_THRESHOLD_KM_RURAL = 40,
     LONG_TRANSFER_MIN = 120,
     WALK_KMH = 9/2,
     DRIVE_KMH = 50,
     TRANSIT_KMH = 35,
     AIR_SPEED_KMPH = 750,
     AIR_BUFFERS_MIN = 90,
     WALK_THRESHOLD_KM = 2,
     DRIVE_THRESHOLD_KM = 15,
     FLIGHT_THRESHOLD_KM = 1000,
     TRANSIT_AVAILABLE = True,
     RESTAURANT_LUNCH_START = 12,
     RESTAURANT_LUNCH_END = 15,
     RESTAURANT_DINNER_START = 19,
     RESTAURANT_DINNER_END = 22,
     MUSEUM_PREFERRED_START = 10,
     MUSEUM_PREFERRED_END = 17,
     SHOPPING_PREFERRED_START = 10,
     SHOPPING_PREFERRED_END = 20,
     DEFAULT_PACKING_STRATEGY = ''balanced'',
     MIN_ACTIVITIES_PER_DAY = 2,
     MAX_ACTIVITIES_PER_DAY = 6,
     TARGET_MINUTES_PER_DAY = 300\<rparr>"

subsection \<open>Values from the environment\<close>

type_synonym environ = "string \<Rightarrow> string option"

definition getenv :: "environ \<Rightarrow> string \<Rightarrow> string \<Rightarrow> string" where
  "getenv env k dflt = (case env k of None \<Rightarrow> dflt | Some v \<Rightarrow> v)"

definition env_bool :: "environ \<Rightarrow> string \<Rightarrow> string \<Rightarrow> bool" where
  "env_bool env k dflt \<longleftrightarrow> lower (getenv env k dflt) = ''true''"

definition env_int :: "environ \<Rightarrow> string \<Rightarrow> string \<Rightarrow> int res" where
  "env_int env k dflt = py_int (VStr (getenv env k dflt))"

definition env_float :: "environ \<Rightarrow> string \<Rightarrow> string \<Rightarrow> real res" where
  "env_float env k dflt = py_float (VStr (getenv env k dflt))"

subsection \<open>City2Graph flags\<close>

record c2g_settings =
  ENABLE_CITY2GRAPH :: bool
  CITY2GRAPH_MIN_PLACES :: int
  CITY2GRAPH_MIN_DAYS :: int
  CITY2GRAPH_COMPLEXITY_THRESHOLD :: real
  CITY2GRAPH_CITIES :: string
  CITY2GRAPH_EXCLUDE_CITIES :: string
  CITY2GRAPH_TIMEOUT_S :: int
  CITY2GRAPH_FALLBACK_ENABLED :: bool
  CITY2GRAPH_MAX_CONCURRENT :: int
  CITY2GRAPH_FAILURE_THRESHOLD :: int
  CITY2GRAPH_RECOVERY_TIMEOUT :: int
  CITY2GRAPH_USER_PERCENTAGE :: int
  CITY2GRAPH_TRACK_DECISIONS :: bool
  CITY2GRAPH_GEO_SPREAD_THRESHOLD_KM :: real
  CITY2GRAPH_SEMANTIC_TYPES_THRESHOLD :: int

definition load_c2g_settings :: "environ \<Rightarrow> c2g_settings res" where
  "load_c2g_settings env =
     rbind (env_int env ''CITY2GRAPH_MIN_PLACES'' ''8'') (\<lambda>v1.
     rbind (env_int env ''CITY2GRAPH_MIN_DAYS'' ''3'') (\<lambda>v2.
     rbind (env_float env ''CITY2GRAPH_COMPLEXITY_THRESHOLD'' ''5.0'') (\<lambda>v3.
     rbind (env_int env ''CITY2GRAPH_TIMEOUT_S'' ''30'') (\<lambda>v4.
     rbind (env_int env ''CITY2GRAPH_MAX_CONCURRENT'' ''1'') (\<lambda>v5.
     rbind (env_int env ''CITY2GRAPH_FAILURE_THRESHOLD'' ''5'') (\<lambda>v6.
     rbind (env_int env ''CITY2GRAPH_RECOVERY_TIMEOUT'' ''300'') (\<lambda>v7.
     rbind (env_int env ''CITY2GRAPH_USER_PERCENTAGE'' ''0'') (\<lambda>v8.
     rbind (env_float env ''CITY2GRAPH_GEO_SPREAD_THRESHOLD_KM'' ''50.0'') (\<lambda>v9.
     rbind (env_int env ''CITY2GRAPH_SEMANTIC_TYPES_THRESHOLD'' ''3'') (\<lambda>v10.
     Inr \<lparr>ENABLE_CITY2GRAPH = env_bool env ''ENABLE_CITY2GRAPH'' ''false'',
       CITY2GRAPH_MIN_PLACES = v1,
       CITY2GRAPH_MIN_DAYS = v2,
       CITY2GRAPH_COMPLEXITY_THRESHOLD = v3,
       CITY2GRAPH_CITIES = getenv env ''CITY2GRAPH_CITIES'' '''',
       CITY2GRAPH_EXCLUDE_CITIES = getenv env ''CITY2GRAPH_EXCLUDE_CITIES'' '''',
       CITY2GRAPH_TIMEOUT_S = v4,
       CITY2GRAPH_FALLBACK_ENABLED = env_bool env ''CITY2GRAPH_FALLBACK_ENABLED'' ''true'',
       CITY2GRAPH_MAX_CONCURRENT = v5,
       CITY2GRAPH_FAILURE_THRESHOLD = v6,
       CITY2GRAPH_RECOVERY_TIMEOUT = v7,
       CITY2GRAPH_USER_PERCENTAGE = v8,
       CITY2GRAPH_TRACK_DECISIONS = env_bool env ''CITY2GRAPH_TRACK_DECISIONS'' ''true'',
       CITY2GRAPH_GEO_SPREAD_THRESHOLD_KM = v9,
       CITY2GRAPH_SEMANTIC_TYPES_THRESHOLD = v10\<rparr>))))))))))"

subsection \<open>OR-Tools flags\<close>

record ot_settings =
  ENABLE_ORTOOLS :: bool
  ORTOOLS_MIN_PLACES :: int
  ORTOOLS_MIN_DAYS :: int
  ORTOOLS_MAX_PLACES :: int
  ORTOOLS_MAX_DISTANCE_KM :: int
  ORTOOLS_TIMEOUT_S :: int
  ORTOOLS_SLOW_THRESHOLD_MS :: int
  ORTOOLS_EXPECTED_EXEC_TIME_MS :: int
  ORTOOLS_CITIES :: string
  ORTOOLS_EXCLUDE_CITIES :: string
  ORTOOLS_FAILURE_THRESHOLD :: int
  ORTOOLS_RECOVERY_TIMEOUT :: int
  ORTOOLS_HEALTH_CHECK_TTL :: int
  ORTOOLS_USER_PERCENTAGE :: int
  ORTOOLS_TRACK_PERFORMANCE :: bool
  ORTOOLS_ENABLE_TIME_WINDOWS :: bool
  ORTOOLS_ENABLE_VEHICLE_ROUTING :: bool
  ORTOOLS_ENABLE_ADVANCED_CONSTRAINTS :: bool
  ORTOOLS_OPTIMIZATION_TARGET :: string
  ORTOOLS_ENABLE_PARALLEL_OPTIMIZATION :: bool
  ORTOOLS_CACHE_DISTANCE_MATRIX :: bool
  ORTOOLS_DISTANCE_CACHE_TTL :: int
  ORTOOLS_MAX_PARALLEL_REQUESTS :: int
  ORTOOLS_ENABLE_MULTI_CITY :: bool
  ORTOOLS_MULTI_CITY_THRESHOLD_KM :: int
  ORTOOLS_ACCOMMODATE_MULTI_CITY :: bool
  ORTOOLS_FALLBACK_TO_LEGACY :: bool
  ORTOOLS_FALLBACK_ON_SLOW :: bool
  ORTOOLS_LOG_PERFORMANCE :: bool
  ORTOOLS_ALERT_ON_DEGRADATION :: bool
  ORTOOLS_VALIDATE_VS_BENCHMARKS :: bool
  ORTOOLS_BENCHMARK_SUCCESS_RATE_THRESHOLD :: real

definition load_ot_settings :: "environ \<Rightarrow> ot_settings res" where
  "load_ot_settings env =
     rbind (env_int env ''ORTOOLS_MIN_PLACES'' ''4'') (\<lambda>v1.
     rbind (env_int env ''ORTOOLS_MIN_DAYS'' ''1'') (\<lambda>v2.
     rbind (env_int env ''ORTOOLS_MAX_PLACES'' ''50'') (\<lambda>v3.
     rbind (env_int env ''ORTOOLS_MAX_DISTANCE_KM'' ''500'') (\<lambda>v4.
     rbind (env_int env ''ORTOOLS_TIMEOUT_S'' ''10'') (\<lambda>v5.
     rbind (env_int env ''ORTOOLS_SLOW_THRESHOLD_MS'' ''5000'') (\<lambda>v6.
     rbind (env_int env ''ORTOOLS_FAILURE_THRESHOLD'' ''3'') (\<lambda>v7.
     rbind (env_int env ''ORTOOLS_RECOVERY_TIMEOUT'' ''60'') (\<lambda>v8.
     rbind (env_int env ''ORTOOLS_HEALTH_CHECK_TTL'' ''300'') (\<lambda>v9.
     rbind (env_int env ''ORTOOLS_USER_PERCENTAGE'' ''50'') (\<lambda>v10.
     rbind (env_int env ''ORTOOLS_DISTANCE_CACHE_TTL'' ''3600'') (\<lambda>v11.
     rbind (env_int env ''ORTOOLS_MAX_PARALLEL_REQUESTS'' ''3'') (\<lambda>v12.
     rbind (env_int env ''ORTOOLS_MULTI_CITY_THRESHOLD_KM'' ''100'') (\<lambda>v13.
     rbind (env_float env ''ORTOOLS_BENCHMARK_SUCCESS_RATE_THRESHOLD'' ''0.95'') (\<lambda>v14.
     Inr \<lparr>ENABLE_ORTOOLS = env_bool env ''ENABLE_ORTOOLS'' ''false'',
       ORTOOLS_MIN_PLACES = v1,
       ORTOOLS_MIN_DAYS = v2,
       ORTOOLS_MAX_PLACES = v3,
       ORTOOLS_MAX_DISTANCE_KM = v4,
       ORTOOLS_TIMEOUT_S = v5,
       ORTOOLS_SLOW_THRESHOLD_MS = v6,
       ORTOOLS_EXPECTED_EXEC_TIME_MS = 2000,
       ORTOOLS_CITIES = getenv env ''ORTOOLS_CITIES'' ''santiago,valparaiso,antofagasta,la_serena,concepcion,temuco,iquique,calama'',
       ORTOOLS_EXCLUDE_CITIES = getenv env ''ORTOOLS_EXCLUDE_CITIES'' '''',
       ORTOOLS_FAILURE_THRESHOLD = v7,
       ORTOOLS_RECOVERY_TIMEOUT = v8,
       ORTOOLS_HEALTH_CHECK_TTL = v9,
       ORTOOLS_USER_PERCENTAGE = v10,
       ORTOOLS_TRACK_PERFORMANCE = env_bool env ''ORTOOLS_TRACK_PERFORMANCE'' ''true'',
       ORTOOLS_ENABLE_TIME_WINDOWS = env_bool env ''ORTOOLS_ENABLE_TIME_WINDOWS'' ''true'',
       ORTOOLS_ENABLE_VEHICLE_ROUTING = env_bool env ''ORTOOLS_ENABLE_VEHICLE_ROUTING'' ''true'',
       ORTOOLS_ENABLE_ADVANCED_CONSTRAINTS = env_bool env ''ORTOOLS_ENABLE_ADVANCED_CONSTRAINTS'' ''true'',
       ORTOOLS_OPTIMIZATION_TARGET = getenv env ''ORTOOLS_OPTIMIZATION_TARGET'' ''minimize_travel_time'',
       ORTOOLS_ENABLE_PARALLEL_OPTIMIZATION = env_bool env ''ORTOOLS_ENABLE_PARALLEL_OPTIMIZATION'' ''true'',
       ORTOOLS_CACHE_DISTANCE_MATRIX = env_bool env ''ORTOOLS_CACHE_DISTANCE_MATRIX'' ''true'',
       ORTOOLS_DISTANCE_CACHE_TTL = v11,
       ORTOOLS_MAX_PARALLEL_REQUESTS = v12,
       ORTOOLS_ENABLE_MULTI_CITY = env_bool env ''ORTOOLS_ENABLE_MULTI_CITY'' ''true'',
       ORTOOLS_MULTI_CITY_THRESHOLD_KM = v13,
       ORTOOLS_ACCOMMODATE_MULTI_CITY = env_bool env ''ORTOOLS_ACCOMMODATE_MULTI_CITY'' ''true'',
       ORTOOLS_FALLBACK_TO_LEGACY = env_bool env ''ORTOOLS_FALLBACK_TO_LEGACY'' ''true'',
       ORTOOLS_FALLBACK_ON_SLOW = env_bool env ''ORTOOLS_FALLBACK_ON_SLOW'' ''false'',
       ORTOOLS_LOG_PERFORMANCE = env_bool env ''ORTOOLS_LOG_PERFORMANCE'' ''true'',
       ORTOOLS_ALERT_ON_DEGRADATION = env_bool env ''ORTOOLS_ALERT_ON_DEGRADATION'' ''true'',
       ORTOOLS_VALIDATE_VS_BENCHMARKS = env_bool env ''ORTOOLS_VALIDATE_VS_BENCHMARKS'' ''true'',
       ORTOOLS_BENCHMARK_SUCCESS_RATE_THRESHOLD = v14\<rparr>))))))))))))))"

subsection \<open>The defaults\<close>

text \<open>With nothing set in the environment both groups of flags load, with these values.\<close>

definition default_ot_settings :: ot_settings where
  "default_ot_settings = \<lparr>ENABLE_ORTOOLS = False, ORTOOLS_MIN_PLACES = 4, ORTOOLS_MIN_DAYS = 1, ORTOOLS_MAX_PLACES = 50,
     ORTOOLS_MAX_DISTANCE_KM = 500, ORTOOLS_TIMEOUT_S = 10, ORTOOLS_SLOW_THRESHOLD_MS = 5000, ORTOOLS_EXPECTED_EXEC_TIME_MS = 2000,
     ORTOOLS_CITIES = ''santiago,valparaiso,antofagasta,la_serena,concepcion,temuco,iquique,calama'',
     ORTOOLS_EXCLUDE_CITIES = '''', ORTOOLS_FAILURE_THRESHOLD = 3, ORTOOLS_RECOVERY_TIMEOUT = 60, ORTOOLS_HEALTH_CHECK_TTL = 300,
     ORTOOLS_USER_PERCENTAGE = 50, ORTOOLS_TRACK_PERFORMANCE = True, ORTOOLS_ENABLE_TIME_WINDOWS = True,
     ORTOOLS_ENABLE_VEHICLE_ROUTING = True, ORTOOLS_ENABLE_ADVANCED_CONSTRAINTS = True,
     ORTOOLS_OPTIMIZATION_TARGET = ''minimize_travel_time'', ORTOOLS_ENABLE_PARALLEL_OPTIMIZATION = True,
     ORTOOLS_CACHE_DISTANCE_MATRIX = True, ORTOOLS_DISTANCE_CACHE_TTL = 3600, ORTOOLS_MAX_PARALLEL_REQUESTS = 3,
     ORTOOLS_ENABLE_MULTI_CITY = True, ORTOOLS_MULTI_CITY_THRESHOLD_KM = 100, ORTOOLS_ACCOMMODATE_MULTI_CITY = True,
     ORTOOLS_FALLBACK_TO_LEGACY = True, ORTOOLS_FALLBACK_ON_SLOW = False, ORTOOLS_LOG_PERFORMANCE = True,
     ORTOOLS_ALERT_ON_DEGRADATION = True, ORTOOLS_VALIDATE_VS_BENCHMARKS = True, ORTOOLS_BENCHMARK_SUCCESS_RATE_THRESHOLD = 95/100\<rparr>"

lemmas number_parsing = py_int.simps parse_int_def parse_nat_def strip_def is_space_def signed_def digit_val_def
  py_float.simps parse_float_def parse_sci_def parse_ufloat_def lower_def lower_char_def

lemma load_ot_defaults: "load_ot_settings (\<lambda>k. None) = Inr default_ot_settings"
  by (simp add: load_ot_settings_def env_int_def env_float_def env_bool_def getenv_def number_parsing default_ot_settings_def)

definition default_c2g_settings :: c2g_settings where
  "default_c2g_settings = \<lparr>ENABLE_CITY2GRAPH = False, CITY2GRAPH_MIN_PLACES = 8, CITY2GRAPH_MIN_DAYS = 3,
     CITY2GRAPH_COMPLEXITY_THRESHOLD = 5, CITY2GRAPH_CITIES = '''', CITY2GRAPH_EXCLUDE_CITIES = '''', CITY2GRAPH_TIMEOUT_S = 30,
     CITY2GRAPH_FALLBACK_ENABLED = True, CITY2GRAPH_MAX_CONCURRENT = 1, CITY2GRAPH_FAILURE_THRESHOLD = 5,
     CITY2GRAPH_RECOVERY_TIMEOUT = 300, CITY2GRAPH_USER_PERCENTAGE = 0, CITY2GRAPH_TRACK_DECISIONS = True,
     CITY2GRAPH_GEO_SPREAD_THRESHOLD_KM = 50, CITY2GRAPH_SEMANTIC_TYPES_THRESHOLD = 3\<rparr>"

lemma load_c2g_defaults: "load_c2g_settings (\<lambda>k. None) = Inr default_c2g_settings"
  by (simp add: load_c2g_settings_def env_int_def env_float_def env_bool_def getenv_def number_parsing default_c2g_settings_def)

end
