(* ===== verification/Geo.thy ===== *)
theory Geo
  imports Settings
begin

section \<open>Geographic computations\<close>

text \<open>
  src/utils/geo_utils.py and src/utils/geographic_validator.py, with the second form of the
  haversine formula that the OR-Tools service uses.  Angles and distances are reals; \<open>sin\<close>,
  \<open>cos\<close>, \<open>asin\<close>, \<open>sqrt\<close> and \<open>atan2\<close> of the \<open>math\<close> module are the real functions.
\<close>

definition radians :: "real \<Rightarrow> real" where
  "radians x = x * pi / 180"

definition degrees :: "real \<Rightarrow> real" where
  "degrees x = x * 180 / pi"

definition atan2 :: "real \<Rightarrow> real \<Rightarrow> real" where
  "atan2 y x =
     (if x > 0 then arctan (y / x)
      else if x < 0 then (if y \<ge> 0 then arctan (y / x) + pi else arctan (y / x) - pi)
      else if y > 0 then pi / 2 else if y < 0 then - pi / 2 else 0)"

definition EARTH_RADIUS_KM :: real where
  "EARTH_RADIUS_KM = 6371"

type_synonym coord = "real \<times> real"

subsection \<open>The haversine distance\<close>

definition haversine_a :: "real \<Rightarrow> real \<Rightarrow> real \<Rightarrow> real \<Rightarrow> real" where
  "haversine_a lat1 lon1 lat2 lon2 =
     (sin (radians (lat2 - lat1) / 2))\<^sup>2 +
      cos (radians lat1) * cos (radians lat2) * (sin (radians (lon2 - lon1) / 2))\<^sup>2"

definition haversine_km :: "real \<Rightarrow> real \<Rightarrow> real \<Rightarrow> real \<Rightarrow> real res" where
  "haversine_km lat1 lon1 lat2 lon2 =
     (if \<not> (- 90 \<le> lat1 \<and> lat1 \<le> 90 \<and> - 90 \<le> lat2 \<and> lat2 \<le> 90) then Inl ValueError
      else if \<not> (- 180 \<le> lon1 \<and> lon1 \<le> 180 \<and> - 180 \<le> lon2 \<and> lon2 \<le> 180) then Inl ValueError
      else if lat1 = lat2 \<and> lon1 = lon2 then Inr 0
      else Inr (2 * EARTH_RADIUS_KM * arcsin (sqrt (haversine_a lat1 lon1 lat2 lon2))))"

text \<open>
  The unchecked variants: \<open>haversine_asin\<close> (geographic validator) and \<open>haversine_atan2\<close>
  (OR-Tools service), which convert each coordinate to radians before subtracting.
\<close>

definition haversine_asin :: "real \<Rightarrow> real \<Rightarrow> real \<Rightarrow> real \<Rightarrow> real" where
  "haversine_asin lat1 lon1 lat2 lon2 =
     (let la1 = radians lat1; lo1 = radians lon1; la2 = radians lat2; lo2 = radians lon2;
          a = (sin ((la2 - la1) / 2))\<^sup>2 + cos la1 * cos la2 * (sin ((lo2 - lo1) / 2))\<^sup>2
      in 6371 * (2 * arcsin (sqrt a)))"

definition haversine_atan2 :: "coord \<Rightarrow> coord \<Rightarrow> real" where
  "haversine_atan2 c1 c2 =
     (case c1 of (lat1, lon1) \<Rightarrow> case c2 of (lat2, lon2) \<Rightarrow>
      let la1 = radians lat1; lo1 = radians lon1; la2 = radians lat2; lo2 = radians lon2;
          a = (sin ((la2 - la1) / 2))\<^sup>2 + cos la1 * cos la2 * (sin ((lo2 - lo1) / 2))\<^sup>2
      in 6371 * (2 * atan2 (sqrt a) (sqrt (1 - a))))"

lemma cos_mult_half: "cos a * cos b = (cos (a - b) + cos (a + b)) / (2::real)"
  by (simp add: cos_add cos_diff)

lemma sin_half_sq: "(sin (x / 2))\<^sup>2 = (1 - cos x) / (2::real)"
  using cos_double_sin [of "x / 2"] by simp

lemma haversine_sum_bounds:
  fixes a b t :: real
  assumes "0 \<le> t" "t \<le> 1"
  shows "0 \<le> (sin ((b - a) / 2))\<^sup>2 + cos a * cos b * t \<and> (sin ((b - a) / 2))\<^sup>2 + cos a * cos b * t \<le> 1"
proof -
  let ?s = "(sin ((b - a) / 2))\<^sup>2"
  have s: "?s = (1 - cos (a - b)) / 2"
    by (metis cos_minus minus_diff_eq sin_half_sq)
  have s01: "0 \<le> ?s" "?s \<le> 1"
    unfolding s using cos_ge_minus_one [of "a - b"] cos_le_one [of "a - b"] by simp_all
  have e: "?s + cos a * cos b = (1 + cos (a + b)) / 2"
    unfolding s cos_mult_half by (simp add: field_simps)
  have e01: "0 \<le> ?s + cos a * cos b" "?s + cos a * cos b \<le> 1"
    unfolding e using cos_ge_minus_one [of "a + b"] cos_le_one [of "a + b"] by (simp, linarith, simp)
  have mix: "?s + cos a * cos b * t = (1 - t) * ?s + t * (?s + cos a * cos b)"
    by (simp add: algebra_simps)
  have "0 \<le> (1 - t) * ?s" "0 \<le> t * (?s + cos a * cos b)"
    using assms s01(1) e01(1) by simp_all
  moreover have "(1 - t) * ?s \<le> 1 - t" "t * (?s + cos a * cos b) \<le> t"
    using assms s01(2) e01(2) by (simp_all add: mult_left_le)
  ultimately show ?thesis unfolding mix by linarith
qed

lemma haversine_a_bounds: "0 \<le> haversine_a lat1 lon1 lat2 lon2 \<and> haversine_a lat1 lon1 lat2 lon2 \<le> 1"
proof -
  have "radians (lat2 - lat1) / 2 = (radians lat2 - radians lat1) / 2"
    by (simp add: radians_def field_simps)
  moreover have "(sin (radians (lon2 - lon1) / 2))\<^sup>2 \<le> 1"
    by (simp add: abs_square_le_1)
  ultimately show ?thesis
    using haversine_sum_bounds [of "(sin (radians (lon2 - lon1) / 2))\<^sup>2" "radians lat2" "radians lat1"]
    by (simp add: haversine_a_def)
qed

lemma haversine_a_sym: "haversine_a lat1 lon1 lat2 lon2 = haversine_a lat2 lon2 lat1 lon1"
proof -
  have "radians (x - y) / 2 = - (radians (y - x) / 2)" for x y
    by (simp add: radians_def field_simps)
  then have sq: "(sin (radians (x - y) / 2))\<^sup>2 = (sin (radians (y - x) / 2))\<^sup>2" for x y
    by (metis power2_minus sin_minus)
  show ?thesis
    unfolding haversine_a_def sq [of lat2 lat1] sq [of lon2 lon1] by (simp add: mult.commute)
qed

lemma arcsin_sqrt_bounds: "0 \<le> a \<Longrightarrow> a \<le> 1 \<Longrightarrow> 0 \<le> arcsin (sqrt a) \<and> arcsin (sqrt a) \<le> pi / 2"
  using arcsin_le_arcsin [of 0 "sqrt a"] arcsin_le_arcsin [of "sqrt a" 1]
    order_trans [of "-1" 0 "sqrt a"] by simp

definition in_range :: "real \<Rightarrow> real \<Rightarrow> bool" where
  "in_range lat lon \<longleftrightarrow> - 90 \<le> lat \<and> lat \<le> 90 \<and> - 180 \<le> lon \<and> lon \<le> 180"

lemma haversine_a_same [simp]: "haversine_a lat lon lat lon = 0"
  by (simp add: haversine_a_def radians_def)

lemma haversine_km_Inr:
  assumes "in_range lat1 lon1" "in_range lat2 lon2"
  shows "haversine_km lat1 lon1 lat2 lon2 = Inr (2 * EARTH_RADIUS_KM * arcsin (sqrt (haversine_a lat1 lon1 lat2 lon2)))"
  using assms by (cases "lat1 = lat2 \<and> lon1 = lon2") (simp_all add: haversine_km_def in_range_def)

lemma haversine_km_cases:
  "(\<not> (in_range lat1 lon1 \<and> in_range lat2 lon2) \<and> haversine_km lat1 lon1 lat2 lon2 = Inl ValueError) \<or>
   (in_range lat1 lon1 \<and> in_range lat2 lon2 \<and>
    haversine_km lat1 lon1 lat2 lon2 = Inr (2 * EARTH_RADIUS_KM * arcsin (sqrt (haversine_a lat1 lon1 lat2 lon2))))"
proof (cases "in_range lat1 lon1 \<and> in_range lat2 lon2")
  case True
  then show ?thesis by (simp add: haversine_km_Inr)
next
  case False
  then have "haversine_km lat1 lon1 lat2 lon2 = Inl ValueError"
    unfolding haversine_km_def in_range_def by (metis (no_types))
  with False show ?thesis by simp
qed

lemma haversine_km_nonneg: "haversine_km lat1 lon1 lat2 lon2 = Inr d \<Longrightarrow> 0 \<le> d"
  using haversine_km_cases [of lat1 lon1 lat2 lon2] haversine_a_bounds arcsin_sqrt_bounds
  by (auto simp: EARTH_RADIUS_KM_def)

text \<open>From the equator to a pole, an example used below.\<close>

lemma pole_distance: "haversine_km 0 0 90 0 = Inr (EARTH_RADIUS_KM * pi / 2)"
proof -
  have "sqrt (1/2) = sin (pi/4)" by (simp add: sin_45 real_sqrt_divide field_simps)
  then have a: "arcsin (sqrt (1/2)) = pi / 4" using arcsin_sin [of "pi/4"] pi_gt_zero by simp
  have h: "haversine_a 0 0 90 0 = 1/2" by (simp add: haversine_a_def radians_def sin_45 power_divide)
  show ?thesis unfolding haversine_km_def h a by simp
qed

lemma arcsin_eq_atan2:
  assumes "0 \<le> a" "a \<le> 1"
  shows "atan2 (sqrt a) (sqrt (1 - a)) = arcsin (sqrt a)"
proof (cases "a = 1")
  case True
  then show ?thesis by (simp add: atan2_def)
next
  case False
  with assms have a: "a < 1" by simp
  let ?x = "arcsin (sqrt a)"
  have "- 1 \<le> sqrt a" using assms(1) order_trans [of "-1" 0 "sqrt a"] by simp
  with assms have x: "sin ?x = sqrt a" "cos ?x = sqrt (1 - a)"
    by (auto simp: cos_arcsin)
  have "?x \<noteq> pi / 2"
  proof
    assume h: "?x = pi / 2"
    show False using x(1) a unfolding h by simp
  qed
  then have "0 \<le> ?x" "?x \<noteq> pi / 2" "?x \<le> pi / 2"
    using arcsin_sqrt_bounds [OF assms] by simp_all
  then have "arctan (tan ?x) = ?x"
    by (intro arctan_tan) auto
  then show ?thesis
    using a x by (simp add: atan2_def tan_def)
qed

lemma radians_diff: "radians (x - y) / 2 = (radians x - radians y) / 2"
  by (simp add: radians_def field_simps)

lemma haversine_a_radians:
  "haversine_a lat1 lon1 lat2 lon2 = (sin ((radians lat2 - radians lat1) / 2))\<^sup>2 +
     cos (radians lat1) * cos (radians lat2) * (sin ((radians lon2 - radians lon1) / 2))\<^sup>2"
  by (simp add: haversine_a_def radians_diff)

lemma haversine_atan2_eq:
  "haversine_atan2 (lat1, lon1) (lat2, lon2) = 6371 * (2 * arcsin (sqrt (haversine_a lat1 lon1 lat2 lon2)))"
  using arcsin_eq_atan2 haversine_a_bounds
  by (simp add: haversine_atan2_def Let_def haversine_a_radians [symmetric])

lemma haversine_atan2_sym: "haversine_atan2 p q = haversine_atan2 q p"
  by (cases p; cases q) (simp add: haversine_atan2_eq haversine_a_sym)

lemma haversine_atan2_nonneg: "0 \<le> haversine_atan2 p q"
  using arcsin_sqrt_bounds haversine_a_bounds by (cases p; cases q) (auto simp: haversine_atan2_eq)

subsection \<open>The other operations of geo\_utils\<close>

definition speed_map :: "settings \<Rightarrow> string \<Rightarrow> real option" where
  "speed_map st =
     [''walk'' \<mapsto> CITY_SPEED_KMH_WALK st, ''drive'' \<mapsto> CITY_SPEED_KMH_DRIVE st,
      ''bike'' \<mapsto> CITY_SPEED_KMH_BIKE st, ''transit'' \<mapsto> CITY_SPEED_KMH_TRANSIT st]"

text \<open>A zero speed (possible only through the configuration) raises.\<close>

definition py_div :: "real \<Rightarrow> real \<Rightarrow> real res" where
  "py_div a b = (if b = 0 then Inl ZeroDivisionError else Inr (a / b))"

definition estimate_travel_minutes ::
  "settings \<Rightarrow> real \<Rightarrow> real \<Rightarrow> real \<Rightarrow> real \<Rightarrow> string \<Rightarrow> real res" where
  "estimate_travel_minutes st lat1 lon1 lat2 lon2 mode =
     (case speed_map st mode of
        None \<Rightarrow> Inl ValueError
      | Some v \<Rightarrow>
          rbind (haversine_km lat1 lon1 lat2 lon2) (\<lambda>km.
          rbind (py_div km v) (\<lambda>h.
          Inr (max (real_of_int (MIN_TRAVEL_MIN st)) (h * 60)))))"

definition calculate_center_point :: "coord list \<Rightarrow> coord res" where
  "calculate_center_point cs =
     (if cs = [] then Inl ValueError
      else
        let n = real (length cs);
            x = sum_list (map (\<lambda>(lat, lon). cos (radians lat) * cos (radians lon)) cs) / n;
            y = sum_list (map (\<lambda>(lat, lon). cos (radians lat) * sin (radians lon)) cs) / n;
            z = sum_list (map (\<lambda>(lat, lon). sin (radians lat)) cs) / n
        in Inr (degrees (atan2 z (sqrt (x * x + y * y))), degrees (atan2 y x)))"

definition is_within_radius :: "real \<Rightarrow> real \<Rightarrow> real \<Rightarrow> real \<Rightarrow> real \<Rightarrow> bool res" where
  "is_within_radius clat clon plat plon radius_km =
     rbind (haversine_km clat clon plat plon) (\<lambda>d. Inr (d \<le> radius_km))"

text \<open>At a pole the exact cosine is zero (the floating-point one is about \<open>6e-17\<close>).\<close>

definition calculate_bounding_box :: "real \<Rightarrow> real \<Rightarrow> real \<Rightarrow> (real \<times> real \<times> real \<times> real) res" where
  "calculate_bounding_box lat lon radius_km =
     rbind (py_div radius_km (111 * cos (radians lat))) (\<lambda>lon_delta.
     let lat_delta = radius_km / 111 in
     Inr (lat - lat_delta, lon - lon_delta, lat + lat_delta, lon + lon_delta))"

definition get_city_bounds :: "real \<Rightarrow> real \<Rightarrow> real \<Rightarrow> pydict res" where
  "get_city_bounds lat lon radius_km =
     rbind (calculate_bounding_box lat lon radius_km) (\<lambda>(a, b, c, d).
     Inr [(''min_lat'', VFloat a), (''min_lon'', VFloat b), (''max_lat'', VFloat c),
          (''max_lon'', VFloat d), (''center_lat'', VFloat lat), (''center_lon'', VFloat lon),
          (''radius_km'', VFloat radius_km)])"

text \<open>The loops over consecutive places of a route.\<close>

fun route_sum :: "(coord \<Rightarrow> coord \<Rightarrow> real res) \<Rightarrow> coord list \<Rightarrow> real \<Rightarrow> real res" where
  "route_sum leg (p # q # ps) acc = rbind (leg p q) (\<lambda>d. route_sum leg (q # ps) (acc + d))"
| "route_sum leg _ acc = Inr acc"

definition total_route_distance :: "coord list \<Rightarrow> real res" where
  "total_route_distance ps = route_sum (\<lambda>(a, b) (c, d). haversine_km a b c d) ps 0"

definition total_route_time :: "settings \<Rightarrow> coord list \<Rightarrow> string \<Rightarrow> real res" where
  "total_route_time st ps mode =
     route_sum (\<lambda>(a, b) (c, d). estimate_travel_minutes st a b c d mode) ps 0"

lemma route_sum_lower:
  assumes "\<And>p q d. leg p q = Inr d \<Longrightarrow> m \<le> d" "route_sum leg ps acc = Inr t"
  shows "acc + m * real (length ps - 1) \<le> t"
  using assms(2)
proof (induction ps arbitrary: acc rule: induct_list012)
  case (3 p q ps)
  then obtain d where d: "leg p q = Inr d" "route_sum leg (q # ps) (acc + d) = Inr t"
    by (auto simp: rbind_eq_Inr_iff)
  have "acc + d + m * real (length (q # ps) - 1) \<le> t"
    using "3.IH"(2) d(2) by simp
  with assms(1) [OF d(1)] show ?case by (simp add: algebra_simps)
qed auto

subsection \<open>The geographic validator\<close>

record geo_scope =
  gs_places_in_chile :: nat
  gs_places_outside_chile :: nat
  gs_max_distance_km :: real
  gs_is_chile_focused :: bool
  gs_is_mixed_geography :: bool
  gs_is_international_trip :: bool
  gs_warning_needed :: bool
  gs_chile_places :: "pydict list"
  gs_international_places :: "pydict list"

text \<open>The chained comparisons stop at the first false one, so the longitude may go unread.\<close>

definition is_in_chile :: "pydict \<Rightarrow> bool res" where
  "is_in_chile p =
     rbind (need_num (dget p ''lat'' (VInt 0))) (\<lambda>lat.
     if - 56 \<le> lat \<and> lat \<le> - (35/2)
     then rbind (need_num (dget p ''lon'' (VInt 0))) (\<lambda>lon. Inr (- 81 \<le> lon \<and> lon \<le> - 66))
     else Inr False)"

definition place_distance :: "pydict \<Rightarrow> pydict \<Rightarrow> real res" where
  "place_distance p q =
     rbind (need_num (dget p ''lat'' (VInt 0))) (\<lambda>a.
     rbind (need_num (dget p ''lon'' (VInt 0))) (\<lambda>b.
     rbind (need_num (dget q ''lat'' (VInt 0))) (\<lambda>c.
     rbind (need_num (dget q ''lon'' (VInt 0))) (\<lambda>d.
     Inr (haversine_asin a b c d)))))"

fun split_places :: "pydict list \<Rightarrow> (pydict list \<times> pydict list) res" where
  "split_places [] = Inr ([], [])"
| "split_places (p # ps) =
     rbind (is_in_chile p) (\<lambda>inside.
     rbind (split_places ps) (\<lambda>(ins, outs).
     Inr (if inside then (p # ins, outs) else (ins, p # outs))))"

fun pairs_max :: "('a \<Rightarrow> 'a \<Rightarrow> real res) \<Rightarrow> 'a list \<Rightarrow> real \<Rightarrow> real res" where
  "pairs_max df [] m = Inr m"
| "pairs_max df (p # ps) m =
     rbind (rfold (\<lambda>q m. rbind (df p q) (\<lambda>d. Inr (max m d))) ps m) (pairs_max df ps)"

definition validate_geographic_scope :: "pydict list \<Rightarrow> geo_scope res" where
  "validate_geographic_scope places =
     rbind (split_places places) (\<lambda>(ins, outs).
     rbind (pairs_max place_distance places 0) (\<lambda>m.
     Inr \<lparr>gs_places_in_chile = length ins, gs_places_outside_chile = length outs,
          gs_max_distance_km = m, gs_is_chile_focused = (length outs = 0),
          gs_is_mixed_geography = (length ins > 0 \<and> length outs > 0),
          gs_is_international_trip = (length ins = 0), gs_warning_needed = (m > 5000),
          gs_chile_places = ins, gs_international_places = outs\<rparr>))"

lemma split_places_filter:
  "split_places ps = Inr (ins, outs) \<Longrightarrow>
   ins = filter (\<lambda>p. is_in_chile p = Inr True) ps \<and> outs = filter (\<lambda>p. is_in_chile p = Inr False) ps \<and>
   length ins + length outs = length ps"
proof (induction ps arbitrary: ins outs)
  case (Cons p ps)
  then obtain b i' o' where *: "is_in_chile p = Inr b" "split_places ps = Inr (i', o')"
    "(ins, outs) = (if b then (p # i', o') else (i', p # o'))"
    by (auto simp: rbind_eq_Inr_iff)
  from Cons.IH [OF *(2)] * show ?case by (cases b) auto
qed auto

lemma rfold_max_bound:
  fixes df :: "'a \<Rightarrow> real res"
  shows "rfold (\<lambda>q m. rbind (df q) (\<lambda>d. Inr (max m d))) qs m = Inr m' \<Longrightarrow>
   m \<le> m' \<and> (\<forall>q \<in> set qs. \<exists>d. df q = Inr d \<and> d \<le> m') \<and>
   (m' = m \<or> (\<exists>q \<in> set qs. df q = Inr m'))"
proof (induction qs arbitrary: m)
  case (Cons q qs)
  then obtain d where d: "df q = Inr d"
    "rfold (\<lambda>q m. rbind (df q) (\<lambda>d. Inr (max m d))) qs (max m d) = Inr m'"
    by (auto simp: rbind_eq_Inr_iff)
  note ih = Cons.IH [OF d(2)]
  have "max m d \<le> m'" using ih by (rule conjunct1)
  then have "m \<le> m' \<and> d \<le> m'" by linarith
  moreover have "m' = m \<or> m' = d \<or> (\<exists>q \<in> set qs. df q = Inr m')"
    using ih by (auto simp: max_def split: if_splits)
  ultimately show ?case using ih d(1) by auto
qed auto

lemma pairs_max_bound:
  "pairs_max df ps m = Inr m' \<Longrightarrow>
   m \<le> m' \<and> (\<forall>i j. i < j \<and> j < length ps \<longrightarrow> (\<exists>d. df (ps ! i) (ps ! j) = Inr d \<and> d \<le> m')) \<and>
   (m' = m \<or> (\<exists>i j. i < j \<and> j < length ps \<and> df (ps ! i) (ps ! j) = Inr m'))"
proof (induction ps arbitrary: m)
  case (Cons p ps)
  then obtain m1 where m1: "rfold (\<lambda>q m. rbind (df p q) (\<lambda>d. Inr (max m d))) ps m = Inr m1"
    "pairs_max df ps m1 = Inr m'"
    by (auto simp: rbind_eq_Inr_iff)
  note a = rfold_max_bound [of "df p", OF m1(1)] and b = Cons.IH [OF m1(2)]
  have le: "m \<le> m'" using a b by linarith
  moreover have "\<exists>d. df ((p # ps) ! i) ((p # ps) ! j) = Inr d \<and> d \<le> m'"
    if "i < j" "j < length (p # ps)" for i j
  proof (cases i)
    case 0
    with that obtain j' where "j = Suc j'" "j' < length ps" by (cases j) auto
    with a b 0 show ?thesis by (metis nth_Cons_0 nth_Cons_Suc nth_mem order_trans)
  next
    case (Suc i')
    with that obtain j' where "j = Suc j'" "i' < j'" "j' < length ps" by (cases j) auto
    with b Suc show ?thesis by simp
  qed
  moreover have "m' = m \<or> (\<exists>i j. i < j \<and> j < length (p # ps) \<and> df ((p # ps) ! i) ((p # ps) ! j) = Inr m')"
  proof -
    consider "m' = m1" "m1 = m" | q where "m' = m1" "q \<in> set ps" "df p q = Inr m1"
      | i j where "i < j" "j < length ps" "df (ps ! i) (ps ! j) = Inr m'"
      using a b by blast
    then show ?thesis
    proof cases
      case 2
      then obtain j where "j < length ps" "q = ps ! j" by (metis in_set_conv_nth)
      with 2 have "0 < Suc j \<and> Suc j < length (p # ps) \<and> df ((p # ps) ! 0) ((p # ps) ! Suc j) = Inr m'"
        by simp
      then show ?thesis by blast
    next
      case 3
      then have "Suc i < Suc j \<and> Suc j < length (p # ps) \<and> df ((p # ps) ! Suc i) ((p # ps) ! Suc j) = Inr m'"
        by simp
      then show ?thesis by blast
    qed auto
  qed
  ultimately show ?case by blast
qed auto

subsection \<open>Properties\<close>

text \<open>
  C39: \<open>haversine_km\<close> raises \<open>ValueError\<close> exactly when a coordinate is out of range, is symmetric,
  and otherwise returns a distance between 0 and half the circumference, 0 for a point and itself.
\<close>

theorem haversine_km_contract:
  "haversine_km lat1 lon1 lat2 lon2 = haversine_km lat2 lon2 lat1 lon1 \<and>
   (case haversine_km lat1 lon1 lat2 lon2 of
      Inl e \<Rightarrow> e = ValueError \<and> \<not> (in_range lat1 lon1 \<and> in_range lat2 lon2)
    | Inr d \<Rightarrow> in_range lat1 lon1 \<and> in_range lat2 lon2 \<and> 0 \<le> d \<and> d \<le> pi * EARTH_RADIUS_KM \<and>
              (if lat1 = lat2 \<and> lon1 = lon2 then d = 0 else True))"
proof -
  have sym: "haversine_km lat1 lon1 lat2 lon2 = haversine_km lat2 lon2 lat1 lon1"
    using haversine_km_cases [of lat1 lon1 lat2 lon2] haversine_km_cases [of lat2 lon2 lat1 lon1]
      haversine_a_sym [of lat1 lon1 lat2 lon2] by auto
  have "arcsin (sqrt (haversine_a lat1 lon1 lat2 lon2)) \<le> pi / 2"
    "0 \<le> arcsin (sqrt (haversine_a lat1 lon1 lat2 lon2))"
    using arcsin_sqrt_bounds haversine_a_bounds by blast+
  then show ?thesis
    using sym haversine_km_cases [of lat1 lon1 lat2 lon2]
    by (auto simp: EARTH_RADIUS_KM_def)
qed

text \<open>
  on valid coordinates the three haversine formulas of the program (\<open>asin\<close> on degree
  differences, \<open>asin\<close> on radian differences, \<open>atan2\<close>) compute the same distance.
\<close>

theorem haversine_variants_agree:
  assumes "in_range lat1 lon1" "in_range lat2 lon2"
  shows "haversine_km lat1 lon1 lat2 lon2 = Inr (haversine_asin lat1 lon1 lat2 lon2) \<and>
    haversine_asin lat1 lon1 lat2 lon2 = haversine_atan2 (lat1, lon1) (lat2, lon2)"
proof -
  have "haversine_asin lat1 lon1 lat2 lon2 = 6371 * (2 * arcsin (sqrt (haversine_a lat1 lon1 lat2 lon2)))"
    by (simp add: haversine_asin_def Let_def haversine_a_radians)
  then show ?thesis
    using haversine_km_Inr [OF assms] by (simp add: haversine_atan2_eq EARTH_RADIUS_KM_def)
qed

theorem haversine_variants_agree_witness:
  "haversine_km 0 0 0 0 = Inr (haversine_asin 0 0 0 0) \<and> haversine_asin 0 0 0 0 = haversine_atan2 (0, 0) (0, 0)"
  by (rule haversine_variants_agree) (simp_all add: in_range_def)

text \<open>
  every leg of a timed route costs at least \<open>MIN_TRAVEL_MIN\<close>, so a route over \<open>n\<close> places takes
  at least \<open>n - 1\<close> times that.
\<close>

theorem total_route_time_lower_bound:
  assumes "total_route_time st ps mode = Inr t"
  shows "real_of_int (MIN_TRAVEL_MIN st) * real (length ps - 1) \<le> t"
proof -
  have leg: "real_of_int (MIN_TRAVEL_MIN st) \<le> d"
    if "(\<lambda>(a, b) (c, d). estimate_travel_minutes st a b c d mode) p q = Inr d" for p q d
    using that by (auto simp: estimate_travel_minutes_def rbind_eq_Inr_iff split: option.splits prod.splits)
  show ?thesis
    using route_sum_lower [OF leg assms [unfolded total_route_time_def]] by simp
qed

theorem total_route_time_lower_bound_witness:
  "total_route_time default_settings [(1, 1), (1, 1), (1, 1)] ''walk'' = Inr 16 \<and> 8 * real 2 \<le> 16"
proof -
  have e: "total_route_time default_settings [(1, 1), (1, 1), (1, 1)] ''walk'' = Inr 16"
    by (simp add: total_route_time_def estimate_travel_minutes_def speed_map_def haversine_km_def
        py_div_def default_settings_def)
  from total_route_time_lower_bound [OF e] e show ?thesis by simp
qed

text \<open>
  the geographic validator splits the places into those in Chile and the others without losing
  any, the three scope flags follow from the counts, and the reported maximum is an upper bound of
  all pairwise distances that is attained (or 0).
\<close>

theorem validate_geographic_scope_correct:
  assumes "validate_geographic_scope places = Inr g"
  shows "gs_chile_places g = filter (\<lambda>p. is_in_chile p = Inr True) places \<and>
    gs_international_places g = filter (\<lambda>p. is_in_chile p = Inr False) places \<and>
    gs_places_in_chile g + gs_places_outside_chile g = length places \<and>
    (gs_is_mixed_geography g \<longleftrightarrow> \<not> gs_is_chile_focused g \<and> \<not> gs_is_international_trip g) \<and>
    (\<forall>i j. i < j \<and> j < length places \<longrightarrow>
      (\<exists>d. place_distance (places ! i) (places ! j) = Inr d \<and> d \<le> gs_max_distance_km g)) \<and>
    (gs_max_distance_km g = 0 \<or>
      (\<exists>i j. i < j \<and> j < length places \<and>
        place_distance (places ! i) (places ! j) = Inr (gs_max_distance_km g)))"
proof -
  from assms obtain ins outs m where s: "split_places places = Inr (ins, outs)"
    and m: "pairs_max place_distance places 0 = Inr m"
    and g: "g = \<lparr>gs_places_in_chile = length ins, gs_places_outside_chile = length outs,
          gs_max_distance_km = m, gs_is_chile_focused = (length outs = 0),
          gs_is_mixed_geography = (length ins > 0 \<and> length outs > 0),
          gs_is_international_trip = (length ins = 0), gs_warning_needed = (m > 5000),
          gs_chile_places = ins, gs_international_places = outs\<rparr>"
    by (auto simp: validate_geographic_scope_def rbind_eq_Inr_iff)
  note sp = split_places_filter [OF s] and mx = pairs_max_bound [OF m]
  have "length ins + length outs = length places" using sp by blast
  then have "gs_places_in_chile g + gs_places_outside_chile g = length places"
    "gs_is_mixed_geography g \<longleftrightarrow> \<not> gs_is_chile_focused g \<and> \<not> gs_is_international_trip g"
    unfolding g by auto
  moreover have "gs_chile_places g = ins" "gs_international_places g = outs" "gs_max_distance_km g = m"
    unfolding g by simp_all
  ultimately show ?thesis using sp mx by metis
qed

theorem validate_geographic_scope_correct_witness:
  "\<exists>g. validate_geographic_scope [[(''lat'', VFloat (-33)), (''lon'', VFloat (-70))], [(''lat'', VFloat 48), (''lon'', VInt 2)]] = Inr g \<and>
     gs_places_in_chile g + gs_places_outside_chile g = 2"
proof -
  obtain g where g: "validate_geographic_scope [[(''lat'', VFloat (-33)), (''lon'', VFloat (-70))], [(''lat'', VFloat 48), (''lon'', VInt 2)]] = Inr g"
    by (simp add: validate_geographic_scope_def is_in_chile_def place_distance_def)
  with validate_geographic_scope_correct [OF g] show ?thesis by simp
qed

end
