(* ===== verification/ORToolsService.thy ===== *)
theory ORToolsService
  imports CircuitBreakers ProfessionalOptimizer Geo
begin

section \<open>The OR-Tools service\<close>

text \<open>
  src/services/city2graph\_ortools\_service.py: \<open>City2GraphORToolsService\<close>, which guards the
  OR-Tools optimizer with a cached health check and the breaker of theory \<open>CircuitBreakers\<close>.
  Parameters of the model: the solver library, the OSRM distance service, and the record
  \<open>ot_env\<close> of what one request meets (whether the optimizer can be constructed, whether it has
  the expected method, how long the steps take).
\<close>

record ot_service =
  os_optimizer :: bool \<comment> \<open>\<open>ortools_optimizer is not None\<close>\<close>
  os_breaker :: ot_breaker
  os_health_status :: string
  os_health_ts :: real
  os_health_ttl :: real

definition new_ot_service :: ot_service where
  "new_ot_service =
     \<lparr>os_optimizer = False, os_breaker = new_ot_breaker 3 60, os_health_status = ''unknown'',
      os_health_ts = 0, os_health_ttl = 300\<rparr>"

record ot_env =
  env_init_ok :: bool
  env_has_methods :: bool
  env_health_d :: real
  env_exec_d :: real
  env_solve_s :: real
  env_speed :: string

type_synonym osrm = "(pyval \<times> pyval) list \<Rightarrow> od_matrix option res"

subsection \<open>Initialisation and health\<close>

definition ot_initialize :: "ot_env \<Rightarrow> ot_service \<Rightarrow> ot_service" where
  "ot_initialize env s = (if env_init_ok env then s\<lparr>os_optimizer := True\<rparr> else s)"

definition quick_health_test :: "ot_env \<Rightarrow> ot_service \<Rightarrow> bool" where
  "quick_health_test env s \<longleftrightarrow> os_optimizer s \<and> env_has_methods env"

definition is_healthy :: "ot_env \<Rightarrow> real \<Rightarrow> ot_service \<Rightarrow> bool \<times> ot_service" where
  "is_healthy env now s =
     (if now - os_health_ts s < os_health_ttl s then (os_health_status s = ''healthy'', s)
      else
        let s1 = (if os_optimizer s then s else ot_initialize env s) in
        if \<not> os_optimizer s1 then (False, s1)
        else
          case wait_for 5 (env_health_d env, Inr (quick_health_test env s1)) of
            (d, Inl e) \<Rightarrow> (False, s1\<lparr>os_health_status := ''unhealthy'', os_health_ts := now\<rparr>)
          | (d, Inr ok) \<Rightarrow>
              (let healthy = (ok \<and> d * 1000 < 5000 \<and> ot_state (os_breaker s1) = CLOSED) in
               (healthy, s1\<lparr>os_health_status := (if healthy then ''healthy'' else ''unhealthy''),
                            os_health_ts := now\<rparr>)))"

subsection \<open>The distance matrix\<close>

definition place_coords :: "pyval \<Rightarrow> (pyval \<times> pyval) res" where
  "place_coords p =
     rbind (vget p ''latitude'' (VInt 0)) (\<lambda>la. rbind (vget p ''lat'' la) (\<lambda>lat.
     rbind (vget p ''longitude'' (VInt 0)) (\<lambda>lo. rbind (vget p ''lon'' lo) (\<lambda>lon.
     Inr (lat, lon)))))"

definition euclid_cell :: "(pyval \<times> pyval) list \<Rightarrow> nat \<Rightarrow> nat \<Rightarrow> real res" where
  "euclid_cell cs i j =
     (if i = j then Inr 0
      else rbind (need_num (fst (cs ! i))) (\<lambda>a. rbind (need_num (snd (cs ! i))) (\<lambda>b.
           rbind (need_num (fst (cs ! j))) (\<lambda>c. rbind (need_num (snd (cs ! j))) (\<lambda>d.
           Inr (haversine_atan2 (a, b) (c, d)))))))"

text \<open>Distances in kilometres and durations in minutes at 50 km/h.\<close>

definition create_euclidean_matrix :: "(pyval \<times> pyval) list \<Rightarrow> od_matrix res" where
  "create_euclidean_matrix cs =
     (let n = length cs in
      rbind (rmap_list (\<lambda>i. rmap_list (euclid_cell cs i) [0..<n]) [0..<n]) (\<lambda>dm.
      Inr \<lparr>od_distances = Some dm, od_durations = Some (map (map (\<lambda>d. d / 50 * 60)) dm)\<rparr>))"

definition get_distance_matrix :: "osrm option \<Rightarrow> pyval list \<Rightarrow> od_matrix res" where
  "get_distance_matrix osrm places =
     rbind (rmap_list place_coords places) (\<lambda>cs.
     case osrm of
       None \<Rightarrow> create_euclidean_matrix cs
     | Some service \<Rightarrow>
         (case service cs of
            Inr (Some m) \<Rightarrow>
              (case od_distances m of
                 Some (row # rows) \<Rightarrow> Inr m
               | _ \<Rightarrow> create_euclidean_matrix cs)
          | _ \<Rightarrow> create_euclidean_matrix cs))"

subsection \<open>Optimization\<close>

text \<open>A call with keyword arguments raises when a name is not a parameter of the callee.\<close>

definition call_kwargs :: "string list \<Rightarrow> string list \<Rightarrow> 'a res option \<Rightarrow> 'a res option" where
  "call_kwargs params kws body = (if set kws \<subseteq> set params then body else Some (Inl TypeError))"

definition optimize_itinerary_advanced_params :: "string list" where
  "optimize_itinerary_advanced_params = [''pois'', ''distance_matrix'', ''use_time_windows'', ''start_time'']"

fun dict_list :: "pyval list \<Rightarrow> pydict list" where
  "dict_list (VDict d # vs) = d # dict_list vs"
| "dict_list (v # vs) = dict_list vs"
| "dict_list [] = []"

definition start_time_arg :: "pyval \<Rightarrow> string res" where
  "start_time_arg prefs =
     rbind (vget prefs ''daily_start_hour'' (VInt 9)) (\<lambda>h.
     case h of
       VInt i \<Rightarrow> if 0 \<le> i then Inr (pad2 (nat i) @ '':00'') else Inr (show_int i @ '':00'')
     | VBool b \<Rightarrow> Inr (pad2 (if b then 1 else 0) @ '':00'')
     | _ \<Rightarrow> Inl ValueError)"

definition execute_ortools_optimization ::
  "solver \<Rightarrow> osrm option \<Rightarrow> ot_env \<Rightarrow> pydict \<Rightarrow> ot_service \<Rightarrow> pyval res option" where
  "execute_ortools_optimization solver osrm env request s =
     (if \<not> os_optimizer s \<and> \<not> env_init_ok env
      then Some (Inl (OtherError ''Could not initialize OR-Tools optimizer''))
      else
        case rbind (viter (dget request ''places'' (VList []))) (\<lambda>places.
             rbind (get_distance_matrix osrm places) (\<lambda>m.
             rbind (vlen (dget request ''accommodations'' (VList []))) (\<lambda>_.
             rbind (start_time_arg (dget request ''preferences'' (VDict []))) (\<lambda>st.
             Inr (places, m, st))))) of
          Inl e \<Rightarrow> Some (Inl e)
        | Inr (places, m, st) \<Rightarrow>
            call_kwargs optimize_itinerary_advanced_params
              [''pois'', ''accommodations'', ''distance_matrix'', ''use_time_windows'', ''start_time'']
              (map_option (\<lambda>r. rbind r (\<lambda>resp.
                  Inr (VDict (response_dict (env_solve_s env) (env_speed env) resp))))
                (optimize_itinerary_advanced solver (dict_list places) m True st)))"

definition generate_metrics :: "pydict \<Rightarrow> real \<Rightarrow> pydict \<Rightarrow> pydict res" where
  "generate_metrics result exec_ms request =
     rbind (vlen (dget request ''places'' (VList []))) (\<lambda>n.
     let total_distance = dget result ''total_distance_km'' (VInt 0);
         total_time = dget result ''total_time_minutes'' (VInt 0);
         success = dget result ''success'' (VBool False)
     in rbind (lt_num (VInt 0) total_distance) (\<lambda>realistic.
        Inr [(''execution_time_ms'', VFloat exec_ms), (''success'', success),
             (''places_processed'', VInt (int n)), (''total_distance_km'', total_distance),
             (''total_time_minutes'', total_time),
             (''benchmark_deviation'', VDict
                [(''execution_time_ratio'', VFloat (exec_ms / 2000)),
                 (''distance_realistic'', VBool realistic),
                 (''success_vs_expected'', VFloat (if truthy success then 1 else 0))])]))"

definition attach_metrics :: "pyval \<Rightarrow> real \<Rightarrow> pydict \<Rightarrow> ot_breaker \<Rightarrow> pyval res" where
  "attach_metrics result exec_ms request br =
     (case result of
        VDict d \<Rightarrow>
          rbind (generate_metrics d exec_ms request) (\<lambda>m.
          Inr (VDict (dset ''execution_meta'' (VDict
                   [(''algorithm'', VStr ''ortools_professional''), (''execution_time_ms'', VFloat exec_ms),
                    (''circuit_breaker_state'', VStr (show_cb_state (ot_state br))),
                    (''vs_benchmark'', dget m ''benchmark_deviation'' VNone)])
                 (dset ''ortools_metrics'' (VDict m) d))))
      | _ \<Rightarrow> Inl AttributeError)"

text \<open>
  The whole request: \<open>None\<close> is a request that never ends.  The optimizer runs only when the
  breaker admits the call.
\<close>

definition optimize_with_ortools ::
  "solver \<Rightarrow> osrm option \<Rightarrow> ot_env \<Rightarrow> real \<Rightarrow> pydict \<Rightarrow> ot_service \<Rightarrow> (pyval res \<times> ot_service) option" where
  "optimize_with_ortools solver osrm env now request s =
     (case is_healthy env now s of
        (False, s1) \<Rightarrow> Some (Inl (OtherError ''OR-Tools service is not healthy''), s1)
      | (True, s1) \<Rightarrow>
          (case ot_admit now (os_breaker s1) of
             Inr (True, _) \<Rightarrow>
               (case execute_ortools_optimization solver osrm env request s1 of
                  None \<Rightarrow> None
                | Some r \<Rightarrow>
                    (let (res, br) = execute_ortools now (env_exec_d env, r) (os_breaker s1);
                         s2 = (if os_optimizer s1 then s1 else ot_initialize env s1)\<lparr>os_breaker := br\<rparr>
                     in Some (rbind res (\<lambda>v. attach_metrics v (env_exec_d env * 1000) request br), s2)))
           | _ \<Rightarrow>
               (let (res, br) = execute_ortools now (0, Inl CircuitOpen) (os_breaker s1)
                in Some (res, s1\<lparr>os_breaker := br\<rparr>))))"

fun serve ::
  "solver \<Rightarrow> osrm option \<Rightarrow> (ot_env \<times> real \<times> pydict) list \<Rightarrow> ot_service \<Rightarrow> (pyval res list \<times> ot_service) option" where
  "serve solver osrm [] s = Some ([], s)"
| "serve solver osrm ((env, now, req) # reqs) s =
     (case optimize_with_ortools solver osrm env now req s of
        None \<Rightarrow> None
      | Some (r, s1) \<Rightarrow> map_option (\<lambda>(rs, s2). (r # rs, s2)) (serve solver osrm reqs s1))"

definition overall_healthy :: "ot_service \<Rightarrow> bool" where
  "overall_healthy s \<longleftrightarrow>
     os_optimizer s \<and> ot_healthy (os_breaker s) \<and> os_health_status s = ''healthy''"

subsection \<open>Lemmas\<close>

lemma rmap_list_upt:
  assumes "\<And>i. i < n \<Longrightarrow> \<exists>y. f i = Inr y"
  shows "\<exists>ys. rmap_list f [0..<n] = Inr ys \<and> length ys = n \<and> (\<forall>i<n. f i = Inr (ys ! i))"
proof -
  have eq: "f i = Inr (projr (f i))" if "i \<in> set [0..<n]" for i
    using assms [of i] that by auto
  have "rmap_list f [0..<n] = Inr (map (\<lambda>i. projr (f i)) [0..<n])"
    by (rule rmap_list_total) (rule eq)
  then show ?thesis using eq by simp
qed

lemma execute_always_raises:
  "\<exists>e. execute_ortools_optimization solver osrm env request s = Some (Inl e)"
proof -
  have "\<not> set [''pois'', ''accommodations'', ''distance_matrix'', ''use_time_windows'', ''start_time'']
      \<subseteq> set optimize_itinerary_advanced_params"
    by (simp add: optimize_itinerary_advanced_params_def)
  then have "call_kwargs optimize_itinerary_advanced_params
      [''pois'', ''accommodations'', ''distance_matrix'', ''use_time_windows'', ''start_time''] body = Some (Inl TypeError)"
    for body :: "pyval res option"
    unfolding call_kwargs_def by (rule if_not_P)
  then show ?thesis
    by (auto simp: execute_ortools_optimization_def split: sum.splits)
qed

definition stuck :: "ot_service \<Rightarrow> bool" where
  "stuck s \<longleftrightarrow> ot_state (os_breaker s) = OPEN \<and> os_health_status s \<noteq> ''healthy''"

lemma is_healthy_stuck:
  assumes "stuck s"
  shows "\<exists>s'. is_healthy env now s = (False, s') \<and> stuck s' \<and> os_breaker s' = os_breaker s"
proof (cases "now - os_health_ts s < os_health_ttl s")
  case True
  with assms show ?thesis by (simp add: is_healthy_def stuck_def)
next
  case False
  have "os_breaker (ot_initialize env s) = os_breaker s" "os_health_status (ot_initialize env s) = os_health_status s"
    by (simp_all add: ot_initialize_def)
  with False assms show ?thesis
    by (cases "os_optimizer s"; cases "os_optimizer (ot_initialize env s)")
      (simp_all add: is_healthy_def stuck_def Let_def)
qed

lemma execute_ortools_Inl: "\<exists>e br. execute_ortools now (d, Inl e') b = (Inl e, br)"
  by (auto simp: execute_ortools_def split: sum.splits prod.splits bool.splits)

lemma optimize_never_succeeds:
  assumes "optimize_with_ortools solver osrm env now request s = Some (r, s')"
  shows "\<exists>e. r = Inl e"
proof -
  obtain ok s1 where h: "is_healthy env now s = (ok, s1)" by fastforce
  obtain e where e: "execute_ortools_optimization solver osrm env request s1 = Some (Inl e)"
    using execute_always_raises by blast
  show ?thesis
  proof (cases ok)
    case False
    with assms h show ?thesis by (auto simp: optimize_with_ortools_def)
  next
    case True
    obtain e1 b1 where "execute_ortools now (env_exec_d env, Inl e) (os_breaker s1) = (Inl e1, b1)"
      using execute_ortools_Inl by blast
    moreover obtain e2 b2 where "execute_ortools now (0, Inl CircuitOpen) (os_breaker s1) = (Inl e2, b2)"
      using execute_ortools_Inl by blast
    ultimately show ?thesis
      using assms h True e
      by (auto simp: optimize_with_ortools_def Let_def split: sum.splits prod.splits bool.splits)
  qed
qed

lemma optimize_total: "\<exists>r s'. optimize_with_ortools solver osrm env now request s = Some (r, s')"
proof -
  obtain ok s1 where h: "is_healthy env now s = (ok, s1)" by fastforce
  obtain e where e: "execute_ortools_optimization solver osrm env request s1 = Some (Inl e)"
    using execute_always_raises by blast
  show ?thesis
    unfolding optimize_with_ortools_def h using e
    by (cases ok) (auto simp: Let_def split: sum.splits prod.splits bool.splits)
qed

lemma optimize_stuck:
  assumes "stuck s"
  shows "\<exists>s'. optimize_with_ortools solver osrm env now request s =
      Some (Inl (OtherError ''OR-Tools service is not healthy''), s') \<and> stuck s' \<and> os_breaker s' = os_breaker s"
proof -
  obtain s' where "is_healthy env now s = (False, s')" "stuck s'" "os_breaker s' = os_breaker s"
    using is_healthy_stuck [OF assms] by blast
  then show ?thesis by (simp add: optimize_with_ortools_def)
qed

lemma serve_stuck:
  assumes "stuck s"
  shows "\<exists>s'. serve solver osrm reqs s =
      Some (replicate (length reqs) (Inl (OtherError ''OR-Tools service is not healthy'')), s') \<and>
      stuck s' \<and> os_breaker s' = os_breaker s"
  using assms
proof (induction reqs arbitrary: s)
  case (Cons q reqs)
  obtain env now req where q: "q = (env, now, req)" by (cases q)
  obtain s1 where s1: "optimize_with_ortools solver osrm env now req s =
      Some (Inl (OtherError ''OR-Tools service is not healthy''), s1)" "stuck s1" "os_breaker s1 = os_breaker s"
    using optimize_stuck [OF Cons.prems] by blast
  from Cons.IH [OF s1(2)] s1 show ?case unfolding q by auto
qed simp

lemma euclid_cell_num:
  assumes "\<And>c. c \<in> set cs \<Longrightarrow> \<exists>a b. need_num (fst c) = Inr a \<and> need_num (snd c) = Inr b"
    and "i < length cs" "j < length cs"
  shows "\<exists>d. euclid_cell cs i j = Inr d \<and> euclid_cell cs j i = Inr d \<and> 0 \<le> d \<and> (i = j \<longrightarrow> d = 0)"
proof -
  obtain a b where i: "need_num (fst (cs ! i)) = Inr a" "need_num (snd (cs ! i)) = Inr b"
    using assms by (meson nth_mem)
  obtain c d where j: "need_num (fst (cs ! j)) = Inr c" "need_num (snd (cs ! j)) = Inr d"
    using assms by (meson nth_mem)
  show ?thesis
    using i j haversine_atan2_sym [of "(a, b)" "(c, d)"] haversine_atan2_nonneg [of "(a, b)" "(c, d)"]
    by (auto simp: euclid_cell_def)
qed

subsection \<open>Properties\<close>

text \<open>
  no request can be optimized through this service: whatever the request, the solver, the
  distance service and the state, \<open>_execute_ortools_optimization\<close> ends by raising, because it
  passes \<open>accommodations=\<close> to a method without that parameter.
\<close>

theorem ortools_execution_always_raises:
  "\<exists>e. execute_ortools_optimization solver osrm env request s = Some (Inl e)"
  by (rule execute_always_raises)

text \<open>
  C35: consequently every call of \<open>optimize_with_ortools\<close> returns in finite time with an exception.
\<close>

theorem optimize_with_ortools_never_succeeds:
  "\<exists>e s'. optimize_with_ortools solver osrm env now request s = Some (Inl e, s')"
  using optimize_total [of solver osrm env now request s] optimize_never_succeeds by blast

text \<open>
  the health check and the breaker deadlock: once the breaker is OPEN and the cached health is
  not \<open>healthy\<close>, every later request, at whatever time, is refused as unhealthy and the breaker
  never leaves OPEN, because the health check demands a CLOSED breaker and only an admitted call
  could close it.
\<close>

theorem open_breaker_is_permanent:
  assumes "ot_state (os_breaker s) = OPEN" "os_health_status s \<noteq> ''healthy''"
  shows "\<exists>s'. serve solver osrm reqs s =
      Some (replicate (length reqs) (Inl (OtherError ''OR-Tools service is not healthy'')), s') \<and>
      ot_state (os_breaker s') = OPEN"
  using serve_stuck [of s solver osrm reqs] assms by (auto simp: stuck_def)

definition demo_env :: ot_env where
  "demo_env = \<lparr>env_init_ok = True, env_has_methods = True, env_health_d = 1/10, env_exec_d = 1,
     env_solve_s = 1, env_speed = ''1.000''\<rparr>"

theorem open_breaker_is_permanent_witness:
  "\<exists>s'. serve (\<lambda>_. Inr None) None [(demo_env, 10 ^ 9, []), (demo_env, 10 ^ 9 + 100000, [])]
      (new_ot_service\<lparr>os_breaker := (new_ot_breaker 3 60)\<lparr>ot_state := OPEN, ot_failure_count := 3, ot_last_failure_time := Some 1\<rparr>\<rparr>) =
      Some ([Inl (OtherError ''OR-Tools service is not healthy''), Inl (OtherError ''OR-Tools service is not healthy'')], s')"
  using open_breaker_is_permanent [of "new_ot_service\<lparr>os_breaker := (new_ot_breaker 3 60)\<lparr>ot_state := OPEN, ot_failure_count := 3, ot_last_failure_time := Some 1\<rparr>\<rparr>"
      "\<lambda>_. Inr None" None "[(demo_env, 10 ^ 9, []), (demo_env, 10 ^ 9 + 100000, [])]"]
  by (auto simp: new_ot_service_def numeral_2_eq_2)

text \<open>
  the fallback matrix of numeric coordinates is square, has a zero diagonal, is symmetric and
  non-negative, and its durations are its distances at 50 km/h.
\<close>

theorem euclidean_matrix_shape:
  assumes "\<And>c. c \<in> set cs \<Longrightarrow> \<exists>a b. need_num (fst c) = Inr a \<and> need_num (snd c) = Inr b"
  shows "\<exists>dm. create_euclidean_matrix cs =
      Inr \<lparr>od_distances = Some dm, od_durations = Some (map (map (\<lambda>d. d / 50 * 60)) dm)\<rparr> \<and>
    square dm (length cs) \<and>
    (\<forall>i<length cs. \<forall>j<length cs. dm ! i ! j = dm ! j ! i \<and> 0 \<le> dm ! i ! j \<and> dm ! i ! i = 0)"
proof -
  let ?n = "length cs"
  have cell: "\<exists>d. euclid_cell cs i j = Inr d \<and> euclid_cell cs j i = Inr d \<and> 0 \<le> d \<and> (i = j \<longrightarrow> d = 0)"
    if "i < ?n" "j < ?n" for i j
    using euclid_cell_num [OF assms that] .
  have row: "\<exists>ys. rmap_list (euclid_cell cs i) [0..<?n] = Inr ys \<and> length ys = ?n \<and> (\<forall>j<?n. euclid_cell cs i j = Inr (ys ! j))"
    if "i < ?n" for i
    using cell [OF that] by (intro rmap_list_upt) blast
  then have "\<exists>y. rmap_list (euclid_cell cs i) [0..<?n] = Inr y" if "i < ?n" for i
    using that by blast
  then obtain dm where dm: "rmap_list (\<lambda>i. rmap_list (euclid_cell cs i) [0..<?n]) [0..<?n] = Inr dm"
    "length dm = ?n" "\<And>i. i < ?n \<Longrightarrow> rmap_list (euclid_cell cs i) [0..<?n] = Inr (dm ! i)"
    using rmap_list_upt [of ?n "\<lambda>i. rmap_list (euclid_cell cs i) [0..<?n]"] by blast
  have entry: "length (dm ! i) = ?n" "\<And>j. j < ?n \<Longrightarrow> euclid_cell cs i j = Inr (dm ! i ! j)" if "i < ?n" for i
    using row [OF that] dm(3) [OF that] by auto
  have "square dm ?n"
    using dm(2) entry(1) by (auto simp: square_def in_set_conv_nth)
  moreover have "dm ! i ! j = dm ! j ! i \<and> 0 \<le> dm ! i ! j \<and> dm ! i ! i = 0" if "i < ?n" "j < ?n" for i j
    using cell [OF that] cell [OF that(1) that(1)] entry(2) [OF that] entry(2) [OF that(2,1)] entry(2) [OF that(1,1)] by auto
  ultimately show ?thesis
    using dm(1) by (auto simp: create_euclidean_matrix_def Let_def)
qed

theorem euclidean_matrix_shape_witness:
  "\<exists>dm. create_euclidean_matrix [(VFloat 0, VInt 0), (VFloat 1, VFloat 1)] =
      Inr \<lparr>od_distances = Some dm, od_durations = Some (map (map (\<lambda>d. d / 50 * 60)) dm)\<rparr> \<and> square dm 2"
proof -
  have h: "\<exists>a b. need_num (fst c) = Inr a \<and> need_num (snd c) = Inr b"
    if "c \<in> set [(VFloat 0, VInt 0), (VFloat 1, VFloat 1)]" for c
    using that by auto
  have "length [(VFloat 0, VInt 0), (VFloat 1, VFloat 1)] = 2" by simp
  with euclidean_matrix_shape [OF h] show ?thesis by metis
qed

end
