(* ===== verification/Coordinates.thy ===== *)
theory Coordinates
  imports Geo
begin

section \<open>Coordinate validation\<close>

text \<open>
  The coordinate checks of \<open>HybridOptimizerV31\<close> (src/utils/hybrid_optimizer_v31.py):
  \<open>validate_coordinates\<close> over a list of places, \<open>_validate_single_coordinate\<close>,
  \<open>_attempt_coordinate_correction\<close> and the key of the distance cache.  A place that is
  corrected is updated in place in the code; here the updated place is what is returned.
  The log lines are left out.
\<close>

definition DEFAULT_COORDINATE :: coord where
  "DEFAULT_COORDINATE = (- 334489 / 10000, - 706693 / 10000)"

definition attempt_coordinate_correction :: "real \<Rightarrow> real \<Rightarrow> coord option" where
  "attempt_coordinate_correction lat lon =
     (let clat = (if lat > 90 then 90 else if lat < - 90 then - 90 else lat);
          clon = (if lon > 180 then (if lon \<le> 360 then lon - 360 else 180)
                  else if lon < - 180 then (if lon \<ge> - 360 then lon + 360 else - 180) else lon)
      in if \<bar>lat - clat\<bar> \<le> 5 \<and> \<bar>lon - clon\<bar> \<le> 5 then Some (clat, clon) else None)"

definition validate_single_coordinate :: "pyval \<Rightarrow> pyval \<Rightarrow> coord" where
  "validate_single_coordinate vlat vlon =
     (case rbind (py_float vlat) (\<lambda>lat. rbind (py_float vlon) (\<lambda>lon. Inr (lat, lon))) of
        Inl e \<Rightarrow> DEFAULT_COORDINATE
      | Inr (lat, lon) \<Rightarrow>
          if - 90 \<le> lat \<and> lat \<le> 90 \<and> - 180 \<le> lon \<and> lon \<le> 180 then (lat, lon)
          else (case attempt_coordinate_correction lat lon of
                  Some c \<Rightarrow> c | None \<Rightarrow> DEFAULT_COORDINATE))"

text \<open>
  The body of the loop over places: the place to append to \<open>validated\<close>, if any, and
  whether the place counts as invalid.
\<close>

definition validate_place :: "pydict \<Rightarrow> pydict option \<times> bool" where
  "validate_place place =
     (case rbind (py_float (dget place ''lat'' (VInt 0))) (\<lambda>lat.
           rbind (py_float (dget place ''lon'' (VInt 0))) (\<lambda>lon. Inr (lat, lon))) of
        Inl e \<Rightarrow> (None, True)
      | Inr (lat, lon) \<Rightarrow>
          if \<not> (- 90 \<le> lat \<and> lat \<le> 90 \<and> - 180 \<le> lon \<and> lon \<le> 180) then
            (case attempt_coordinate_correction lat lon of
               Some (clat, clon) \<Rightarrow>
                 (Some (dset ''coordinates_corrected'' (VBool True)
                    (dset ''lon'' (VFloat clon) (dset ''lat'' (VFloat clat) place))), True)
             | None \<Rightarrow> (None, True))
          else if \<bar>lat\<bar> < 1/1000 \<and> \<bar>lon\<bar> < 1/1000 then (None, True)
          else if \<bar>lat\<bar> > \<bar>lon\<bar> \<and> \<bar>lon\<bar> > 90 \<and>
                  - 90 \<le> lon \<and> lon \<le> 90 \<and> - 180 \<le> lat \<and> lat \<le> 180 then
            (Some (dset ''coordinates_swapped'' (VBool True)
               (dset ''lon'' (VFloat lat) (dset ''lat'' (VFloat lon) place))), False)
          else (Some place, False))"

fun validate_coordinates :: "pydict list \<Rightarrow> pydict list \<times> nat" where
  "validate_coordinates [] = ([], 0)"
| "validate_coordinates (place # places) =
     (let (kept, bad) = validate_place place; (validated, invalid_count) = validate_coordinates places
      in ((case kept of None \<Rightarrow> validated | Some p \<Rightarrow> p # validated),
          (if bad then Suc invalid_count else invalid_count)))"

subsection \<open>The key of the distance cache\<close>

text \<open>
  The key string is the rendering of the five components of this tuple; the tuple stands for
  it.  Tuples compare lexicographically.
\<close>

type_synonym cache_key = "coord \<times> coord \<times> string"

definition coord_le :: "coord \<Rightarrow> coord \<Rightarrow> bool" where
  "coord_le p q \<longleftrightarrow> fst p < fst q \<or> (fst p = fst q \<and> snd p \<le> snd q)"

definition get_cache_key :: "real \<Rightarrow> real \<Rightarrow> real \<Rightarrow> real \<Rightarrow> string \<Rightarrow> cache_key" where
  "get_cache_key lat1 lon1 lat2 lon2 mode =
     (let p = (py_round 3 lat1, py_round 3 lon1); q = (py_round 3 lat2, py_round 3 lon2)
      in if coord_le p q then (p, q, mode) else (q, p, mode))"

lemma coord_le_total: "coord_le p q \<or> coord_le q p"
  by (auto simp: coord_le_def)

lemma coord_le_antisym: "coord_le p q \<Longrightarrow> coord_le q p \<Longrightarrow> p = q"
  by (cases p; cases q) (auto simp: coord_le_def)

lemma get_cache_key_sym: "get_cache_key a b c d mode = get_cache_key c d a b mode"
  using coord_le_total coord_le_antisym by (auto simp: get_cache_key_def Let_def)

lemma get_cache_key_near:
  assumes "get_cache_key a b c d mode = get_cache_key a' b' c' d' mode'"
  shows "mode = mode' \<and>
    ((\<bar>a - a'\<bar> \<le> 1/1000 \<and> \<bar>b - b'\<bar> \<le> 1/1000 \<and> \<bar>c - c'\<bar> \<le> 1/1000 \<and> \<bar>d - d'\<bar> \<le> 1/1000) \<or>
     (\<bar>a - c'\<bar> \<le> 1/1000 \<and> \<bar>b - d'\<bar> \<le> 1/1000 \<and> \<bar>c - a'\<bar> \<le> 1/1000 \<and> \<bar>d - b'\<bar> \<le> 1/1000))"
proof -
  have near: "\<bar>x - y\<bar> \<le> 1/1000" if "py_round 3 x = py_round 3 y" for x y
  proof -
    have "\<bar>py_round 3 x - x\<bar> \<le> 1/2000" "\<bar>py_round 3 y - y\<bar> \<le> 1/2000"
      using py_round_error [of 3 x] py_round_error [of 3 y] by simp_all
    with that show ?thesis by linarith
  qed
  have "mode = mode'"
    using assms by (auto simp: get_cache_key_def Let_def split: if_splits)
  moreover consider
      "py_round 3 a = py_round 3 a'" "py_round 3 b = py_round 3 b'" "py_round 3 c = py_round 3 c'" "py_round 3 d = py_round 3 d'"
    | "py_round 3 a = py_round 3 c'" "py_round 3 b = py_round 3 d'" "py_round 3 c = py_round 3 a'" "py_round 3 d = py_round 3 b'"
    using assms by (auto simp: get_cache_key_def Let_def split: if_splits)
  ultimately show ?thesis using near by metis
qed

lemma correction_Some_iff:
  "attempt_coordinate_correction lat lon = Some c \<longleftrightarrow>
     - 95 \<le> lat \<and> lat \<le> 95 \<and> - 180 \<le> lon \<and> lon \<le> 180 \<and> c = (max (- 90) (min 90 lat), lon)"
  by (auto simp: attempt_coordinate_correction_def Let_def abs_if split: if_splits)

lemma default_in_range: "in_range (fst DEFAULT_COORDINATE) (snd DEFAULT_COORDINATE)"
  by (simp add: DEFAULT_COORDINATE_def in_range_def)

lemma py_float_VFloat [simp]: "py_float (VFloat x) = Inr x"
  by simp

definition place_in_range :: "pydict \<Rightarrow> bool" where
  "place_in_range p \<longleftrightarrow> (\<exists>lat lon. py_float (dget p ''lat'' (VInt 0)) = Inr lat \<and>
     py_float (dget p ''lon'' (VInt 0)) = Inr lon \<and> in_range lat lon \<and> \<not> (\<bar>lat\<bar> < 1/1000 \<and> \<bar>lon\<bar> < 1/1000))"

lemma validate_place_in_range:
  assumes "validate_place place = (Some p, bad)" shows "place_in_range p"
proof -
  from assms obtain lat lon where c: "py_float (dget place ''lat'' (VInt 0)) = Inr lat"
    "py_float (dget place ''lon'' (VInt 0)) = Inr lon"
    by (auto simp: validate_place_def rbind_def split: sum.splits)
  show ?thesis
  proof (cases "in_range lat lon")
    case True
    with assms c show ?thesis
      by (auto simp: validate_place_def in_range_def place_in_range_def dget_dset split: if_splits)
  next
    case False
    then have "\<not> (- 90 \<le> lat \<and> lat \<le> 90 \<and> - 180 \<le> lon \<and> lon \<le> 180)" by (simp add: in_range_def)
    with assms c obtain cc where cc: "attempt_coordinate_correction lat lon = Some cc"
      and p: "p = dset ''coordinates_corrected'' (VBool True)
                (dset ''lon'' (VFloat (snd cc)) (dset ''lat'' (VFloat (fst cc)) place))"
      by (auto simp: validate_place_def split: option.splits)
    from cc False have "\<bar>fst cc\<bar> = 90" "in_range (fst cc) (snd cc)"
      by (auto simp: correction_Some_iff in_range_def)
    with p show ?thesis by (auto simp: place_in_range_def dget_dset)
  qed
qed

lemma validate_place_no_change:
  assumes "py_float (dget place ''lat'' (VInt 0)) = Inr lat" "py_float (dget place ''lon'' (VInt 0)) = Inr lon"
    and "in_range lat lon" "\<not> (\<bar>lat\<bar> < 1/1000 \<and> \<bar>lon\<bar> < 1/1000)"
  shows "validate_place place = (Some place, False)"
  using assms by (auto simp: validate_place_def in_range_def)

lemma validate_coordinates_filter:
  "fst (validate_coordinates places) = List.map_filter (\<lambda>p. fst (validate_place p)) places"
  by (induction places) (auto simp: List.map_filter_simps Let_def split: prod.splits option.splits)

subsection \<open>Properties\<close>

text \<open>
  \<open>_attempt_coordinate_correction\<close> succeeds exactly when the longitude is already in range and
  the latitude is within five degrees of its range, and then only clamps the latitude: the
  longitude branches can never take effect, because wrapping by 360 always fails the size check.
\<close>

theorem coordinate_correction_exact:
  "attempt_coordinate_correction lat lon =
     (if \<bar>lat\<bar> \<le> 95 \<and> \<bar>lon\<bar> \<le> 180 then Some (max (- 90) (min 90 lat), lon) else None)"
proof (cases "attempt_coordinate_correction lat lon")
  case None
  then have "\<not> (- 95 \<le> lat \<and> lat \<le> 95 \<and> - 180 \<le> lon \<and> lon \<le> 180)"
    using correction_Some_iff [of lat lon "(max (- 90) (min 90 lat), lon)"] by simp
  with None show ?thesis by (auto simp: abs_le_iff)
next
  case (Some c)
  then have "- 95 \<le> lat \<and> lat \<le> 95 \<and> - 180 \<le> lon \<and> lon \<le> 180 \<and> c = (max (- 90) (min 90 lat), lon)"
    by (simp add: correction_Some_iff)
  with Some show ?thesis by (auto simp: abs_le_iff)
qed

text \<open>
  whatever values it is given, \<open>_validate_single_coordinate\<close> returns a coordinate in range, so a
  distance to any other such coordinate is defined; a coordinate already in range is returned
  unchanged.
\<close>

theorem validate_single_coordinate_total:
  "(case validate_single_coordinate vlat vlon of (lat, lon) \<Rightarrow> in_range lat lon) \<and>
   (\<exists>d. haversine_km (fst (validate_single_coordinate vlat vlon)) (snd (validate_single_coordinate vlat vlon))
      (fst (validate_single_coordinate vlat' vlon')) (snd (validate_single_coordinate vlat' vlon')) = Inr d) \<and>
   validate_single_coordinate (VFloat (max (- 90) (min 90 x))) (VFloat (max (- 180) (min 180 y))) =
     (max (- 90) (min 90 x), max (- 180) (min 180 y))"
proof -
  have rng: "in_range (fst (validate_single_coordinate u v)) (snd (validate_single_coordinate u v))" for u v
    using default_in_range
    by (auto simp: validate_single_coordinate_def in_range_def correction_Some_iff
        split: sum.splits option.splits if_splits)
  have same: "validate_single_coordinate (VFloat u) (VFloat v) = (u, v)" if "in_range u v" for u v
    using that by (simp add: validate_single_coordinate_def in_range_def)
  have "in_range (max (- 90) (min 90 x)) (max (- 180) (min 180 y))"
    by (simp add: in_range_def max_def min_def)
  from same [OF this] rng [of vlat vlon] haversine_km_Inr [OF rng rng] show ?thesis
    by (simp add: case_prod_beta)
qed

text \<open>
  \<open>validate_coordinates\<close> keeps an order-preserving selection of the places, every kept place has
  a numeric coordinate in range that is not the suspicious origin, and validating again changes
  nothing and counts nothing as invalid.
\<close>

theorem validate_coordinates_sound:
  "fst (validate_coordinates places) = List.map_filter (\<lambda>p. fst (validate_place p)) places \<and>
   list_all place_in_range (fst (validate_coordinates places)) \<and>
   validate_coordinates (fst (validate_coordinates places)) = (fst (validate_coordinates places), 0)"
proof -
  let ?v = "fst (validate_coordinates places)"
  have rng: "list_all place_in_range ?v"
    by (induction places) (auto simp: Let_def dest: validate_place_in_range split: prod.splits option.splits)
  have "validate_coordinates ps = (ps, 0)" if "list_all place_in_range ps" for ps
    using that by (induction ps) (auto simp: place_in_range_def validate_place_no_change)
  with rng show ?thesis using validate_coordinates_filter by blast
qed

text \<open>
  the distance cache is keyed independently of direction, and two requests share an entry only
  if they have the same mode and their end points, matched in one of the two orders, agree to a
  thousandth of a degree.
\<close>

theorem cache_key_sound:
  assumes "get_cache_key a b c d mode = get_cache_key a' b' c' d' mode'"
  shows "get_cache_key c d a b mode = get_cache_key a' b' c' d' mode' \<and> mode = mode' \<and>
    ((\<bar>a - a'\<bar> \<le> 1/1000 \<and> \<bar>b - b'\<bar> \<le> 1/1000 \<and> \<bar>c - c'\<bar> \<le> 1/1000 \<and> \<bar>d - d'\<bar> \<le> 1/1000) \<or>
     (\<bar>a - c'\<bar> \<le> 1/1000 \<and> \<bar>b - d'\<bar> \<le> 1/1000 \<and> \<bar>c - a'\<bar> \<le> 1/1000 \<and> \<bar>d - b'\<bar> \<le> 1/1000))"
  using assms get_cache_key_sym [of c d a b mode] get_cache_key_near [OF assms] by simp

theorem cache_key_sound_witness:
  "get_cache_key 2 2 1 1 ''walk'' = get_cache_key (10002/10000) 1 2 2 ''walk''"
proof -
  have k: "get_cache_key 1 1 2 2 ''walk'' = get_cache_key (10002/10000) 1 2 2 ''walk''"
    by (simp add: get_cache_key_def py_round_def round_half_even_def Let_def)
  show ?thesis using cache_key_sound [OF k] by simp
qed

end
