(* ===== verification/Caches.thy ===== *)
theory Caches
  imports PyVal
begin

section \<open>Time-to-live caches\<close>

text \<open>
  The two in-memory caches: \<open>GoogleAPICache\<close> with its decorator \<open>cache_google_api\<close>
  (src/utils/google_cache.py) and the \<open>cache_result\<close> decorator with its two module-level
  dictionaries (src/utils/performance_cache.py).  Keys are abstract: the MD5 digest (or
  Python hash) of the call stands for the call.  The locale \<open>ttl_cache\<close> states what a
  client relies on; its lemmas bound the age of every answer in any interleaving of lookups,
  stores and clean-ups.
\<close>

subsection \<open>GoogleAPICache\<close>

record 'v g_entry =
  g_data :: "'v option"
  g_expires_at :: real
  g_created_at :: real

type_synonym ('k, 'v) g_cache = "('k, 'v g_entry) dict"

definition g_is_expired :: "real \<Rightarrow> 'v g_entry \<Rightarrow> bool" where
  "g_is_expired now e \<longleftrightarrow> now > g_expires_at e"

definition g_get :: "real \<Rightarrow> 'k \<Rightarrow> ('k, 'v) g_cache \<Rightarrow> 'v option \<times> ('k, 'v) g_cache" where
  "g_get now key c =
     (case map_of c key of
        Some e \<Rightarrow> if \<not> g_is_expired now e then (g_data e, c) else (None, ddel key c)
      | None \<Rightarrow> (None, c))"

definition g_set :: "int \<Rightarrow> real \<Rightarrow> 'k \<Rightarrow> 'v option \<Rightarrow> int option \<Rightarrow> ('k, 'v) g_cache \<Rightarrow> ('k, 'v) g_cache" where
  "g_set default_ttl now key data ttl c =
     (let t = (case ttl of None \<Rightarrow> default_ttl | Some t \<Rightarrow> if t = 0 then default_ttl else t)
      in dset key \<lparr>g_data = data, g_expires_at = now + real_of_int t, g_created_at = now\<rparr> c)"

definition g_clear_expired :: "real \<Rightarrow> ('k, 'v) g_cache \<Rightarrow> nat \<times> ('k, 'v) g_cache" where
  "g_clear_expired now c =
     (let expired_keys = map fst (filter (\<lambda>(k, e). g_is_expired now e) c)
      in (length expired_keys, fold ddel expired_keys c))"

definition g_stats :: "real \<Rightarrow> ('k, 'v) g_cache \<Rightarrow> nat \<times> nat" where
  "g_stats now c = (length c, length (filter (\<lambda>(k, e). g_is_expired now e) c))"

text \<open>
  The cached object is the one the caller got: assigning to its fields after the call changes the entry
  (\<open>free_routing_service\<close> does so with the routes it adjusts).
\<close>

definition set_cached :: "'k \<Rightarrow> 'v \<Rightarrow> ('k, 'v) g_cache \<Rightarrow> ('k, 'v) g_cache" where
  "set_cached key v c =
     (case map_of c key of None \<Rightarrow> c | Some e \<Rightarrow> dset key (e\<lparr>g_data := Some v\<rparr>) c)"

text \<open>
  The decorator: the wrapped coroutine runs for \<open>d\<close> seconds and its exceptions pass through.
  A cached \<open>None\<close> is indistinguishable from a miss.
\<close>

definition cache_google_api ::
  "int \<Rightarrow> int \<Rightarrow> real \<Rightarrow> 'k \<Rightarrow> real \<times> 'v option res \<Rightarrow> ('k, 'v) g_cache \<Rightarrow> 'v option res \<times> ('k, 'v) g_cache" where
  "cache_google_api default_ttl ttl now key out c =
     (let (cached, c1) = g_get now key c in
      if cached \<noteq> None then (Inr cached, c1)
      else (case snd out of
              Inl e \<Rightarrow> (Inl e, c1)
            | Inr r \<Rightarrow> (Inr r, g_set default_ttl (now + fst out) key r (Some ttl) c1)))"

text \<open>Batches of at most \<open>n\<close> requests; \<open>range\<close> rejects a zero step and is empty for a negative one.\<close>

function chunks :: "nat \<Rightarrow> 'a list \<Rightarrow> 'a list list" where
  "chunks n xs = (if n = 0 \<or> xs = [] then [] else take n xs # chunks n (drop n xs))"
  by pat_completeness auto
termination by (relation "measure (\<lambda>(n, xs). length xs)") auto

declare chunks.simps [simp del]

definition batch_google_requests :: "'a list \<Rightarrow> int \<Rightarrow> 'a list list res" where
  "batch_google_requests requests max_batch_size =
     (if max_batch_size = 0 then Inl ValueError
      else if max_batch_size < 0 then Inr []
      else Inr (chunks (nat max_batch_size) requests))"

lemma chunks_concat: "0 < n \<Longrightarrow> concat (chunks n xs) = xs"
proof (induction n xs rule: chunks.induct)
  case (1 n xs)
  then show ?case by (subst chunks.simps) auto
qed

lemma chunks_length: "ys \<in> set (chunks n xs) \<Longrightarrow> ys \<noteq> [] \<and> length ys \<le> n"
proof (induction n xs rule: chunks.induct)
  case (1 n xs)
  show ?case
  proof (cases "n = 0 \<or> xs = []")
    case True
    with "1.prems" show ?thesis by (subst (asm) chunks.simps) simp
  next
    case False
    with "1.prems" have "ys = take n xs \<or> ys \<in> set (chunks n (drop n xs))"
      by (subst (asm) chunks.simps) simp
    with "1.IH" [OF False] False show ?thesis by auto
  qed
qed

lemma batch_google_requests_partition:
  assumes "0 < n"
  shows "\<exists>bs. batch_google_requests reqs n = Inr bs \<and> concat bs = reqs \<and>
    list_all (\<lambda>b. b \<noteq> [] \<and> length b \<le> nat n) bs"
  using assms chunks_length by (auto simp: batch_google_requests_def chunks_concat list_all_iff)

subsection \<open>The performance cache\<close>

record 'k perf_cache =
  pc_cache :: "('k, pyval) dict"
  pc_expiry :: "('k, real) dict"

definition pc_lookup :: "real \<Rightarrow> 'k \<Rightarrow> 'k perf_cache \<Rightarrow> pyval option" where
  "pc_lookup now key c =
     (case map_of (pc_cache c) key of
        None \<Rightarrow> None
      | Some v \<Rightarrow>
          (case map_of (pc_expiry c) key of
             Some t \<Rightarrow> if now < t then Some v else None
           | None \<Rightarrow> None))"

definition pc_store :: "int \<Rightarrow> real \<Rightarrow> 'k \<Rightarrow> pyval \<Rightarrow> 'k perf_cache \<Rightarrow> 'k perf_cache" where
  "pc_store expiry_minutes now key v c =
     c\<lparr>pc_cache := dset key v (pc_cache c),
       pc_expiry := dset key (now + 60 * real_of_int expiry_minutes) (pc_expiry c)\<rparr>"

definition cache_result ::
  "int \<Rightarrow> real \<Rightarrow> 'k \<Rightarrow> real \<times> pyval res \<Rightarrow> 'k perf_cache \<Rightarrow> pyval res \<times> 'k perf_cache" where
  "cache_result expiry_minutes now key out c =
     (case pc_lookup now key c of
        Some v \<Rightarrow> (Inr v, c)
      | None \<Rightarrow>
          (case snd out of
             Inl e \<Rightarrow> (Inl e, c)
           | Inr r \<Rightarrow> (Inr r, pc_store expiry_minutes (now + fst out) key r c)))"

definition clear_cache :: "'k perf_cache \<Rightarrow> 'k perf_cache" where
  "clear_cache c = c\<lparr>pc_cache := [], pc_expiry := []\<rparr>"

definition cleanup_expired_cache :: "real \<Rightarrow> 'k perf_cache \<Rightarrow> 'k perf_cache" where
  "cleanup_expired_cache now c =
     (let expired_keys = map fst (filter (\<lambda>(k, t). t < now) (pc_expiry c))
      in fold (\<lambda>k c. c\<lparr>pc_cache := ddel k (pc_cache c), pc_expiry := ddel k (pc_expiry c)\<rparr>)
           expired_keys c)"

subsection \<open>The contract of a time-to-live cache\<close>

text \<open>
  A store names the lifetime of its entry and may store nothing at all (Python's \<open>None\<close>); \<open>patch\<close> is the
  update in place of the value under a key.
\<close>

locale ttl_cache =
  fixes get :: "real \<Rightarrow> 'k \<Rightarrow> 'c \<Rightarrow> 'v option \<times> 'c"
    and put :: "real \<Rightarrow> int \<Rightarrow> 'k \<Rightarrow> 'v option \<Rightarrow> 'c \<Rightarrow> 'c"
    and patch :: "'k \<Rightarrow> 'v \<Rightarrow> 'c \<Rightarrow> 'c"
    and purge :: "real \<Rightarrow> 'c \<Rightarrow> 'c"
    and view :: "'c \<Rightarrow> 'k \<Rightarrow> ('v \<times> real) option"
    and life :: "int \<Rightarrow> real"
    and wf :: "'c \<Rightarrow> bool"
  assumes get_hit: "wf c \<Longrightarrow> fst (get now k c) = Some v \<Longrightarrow> \<exists>e. view c k = Some (v, e) \<and> now \<le> e"
    and get_fresh: "wf c \<Longrightarrow> view c k = Some (v, e) \<Longrightarrow> now < e \<Longrightarrow> fst (get now k c) = Some v"
    and get_view: "wf c \<Longrightarrow> view (snd (get now k c)) k' = Some x \<Longrightarrow> view c k' = Some x"
    and get_keep: "wf c \<Longrightarrow> view c k' = Some (v, e) \<Longrightarrow> now < e \<Longrightarrow> view (snd (get now k c)) k' = Some (v, e)"
    and put_view: "wf c \<Longrightarrow> view (put now l k u c) k' =
           (if k' = k then map_option (\<lambda>v. (v, now + life l)) u else view c k')"
    and patch_view: "wf c \<Longrightarrow> view c k \<noteq> None \<Longrightarrow> view (patch k v c) k' =
           (if k' = k then map_option (\<lambda>(w, e). (v, e)) (view c k) else view c k')"
    and purge_view: "wf c \<Longrightarrow> view (purge now c) k' = Some x \<Longrightarrow> view c k' = Some x"
    and purge_keep: "wf c \<Longrightarrow> view c k' = Some (v, e) \<Longrightarrow> now \<le> e \<Longrightarrow> view (purge now c) k' = Some (v, e)"
    and get_wf: "wf c \<Longrightarrow> wf (snd (get now k c))"
    and put_wf: "wf c \<Longrightarrow> wf (put now l k u c)"
    and patch_wf: "wf c \<Longrightarrow> wf (patch k v c)"
    and purge_wf: "wf c \<Longrightarrow> wf (purge now c)"

text \<open>
  Interleavings of coroutines that share a cache: a configuration is the cache, the clock and
  the log of stores and of updates in place, newest first.
\<close>

datatype ('k, 'v) cache_event = Stored real int 'k "'v option" | Patched 'k 'v

inductive ttl_step ::
  "(real \<Rightarrow> 'k \<Rightarrow> 'c \<Rightarrow> 'v option \<times> 'c) \<Rightarrow> (real \<Rightarrow> int \<Rightarrow> 'k \<Rightarrow> 'v option \<Rightarrow> 'c \<Rightarrow> 'c) \<Rightarrow> ('k \<Rightarrow> 'v \<Rightarrow> 'c \<Rightarrow> 'c) \<Rightarrow> (real \<Rightarrow> 'c \<Rightarrow> 'c) \<Rightarrow>
   ('c \<Rightarrow> 'k \<Rightarrow> ('v \<times> real) option) \<Rightarrow>
   'c \<times> real \<times> ('k, 'v) cache_event list \<Rightarrow> 'c \<times> real \<times> ('k, 'v) cache_event list \<Rightarrow> bool"
  for get put patch purge view where
  tick: "now \<le> now' \<Longrightarrow> ttl_step get put patch purge view (c, now, hist) (c, now', hist)"
| lookup: "ttl_step get put patch purge view (c, now, hist) (snd (get now k c), now, hist)"
| store: "ttl_step get put patch purge view (c, now, hist) (put now l k u c, now, Stored now l k u # hist)"
| patch: "view c k \<noteq> None \<Longrightarrow> ttl_step get put patch purge view (c, now, hist) (patch k v c, now, Patched k v # hist)"
| purge: "ttl_step get put patch purge view (c, now, hist) (purge now c, now, hist)"

fun last_stored :: "'k \<Rightarrow> ('k, 'v) cache_event list \<Rightarrow> (real \<times> int) option" where
  "last_stored k [] = None"
| "last_stored k (Stored t l k' u # hist) = (if k' = k then Some (t, l) else last_stored k hist)"
| "last_stored k (Patched k' v # hist) = last_stored k hist"

fun last_value :: "'k \<Rightarrow> ('k, 'v) cache_event list \<Rightarrow> 'v option" where
  "last_value k [] = None"
| "last_value k (Stored t l k' u # hist) = (if k' = k then u else last_value k hist)"
| "last_value k (Patched k' v # hist) = (if k' = k then Some v else last_value k hist)"

definition logged :: "('c \<Rightarrow> 'k \<Rightarrow> ('v \<times> real) option) \<Rightarrow> (int \<Rightarrow> real) \<Rightarrow> 'c \<Rightarrow> ('k, 'v) cache_event list \<Rightarrow> bool" where
  "logged view life c hist \<longleftrightarrow>
     (\<forall>k v e. view c k = Some (v, e) \<longrightarrow>
        (\<exists>t l. e = t + life l \<and> last_stored k hist = Some (t, l) \<and> last_value k hist = Some v))"

lemma loggedD:
  "logged view life c hist \<Longrightarrow> view c k = Some (v, e) \<Longrightarrow>
   \<exists>t l. e = t + life l \<and> last_stored k hist = Some (t, l) \<and> last_value k hist = Some v"
  unfolding logged_def by blast

context ttl_cache
begin

lemma logged_get: "wf c \<Longrightarrow> logged view life c hist \<Longrightarrow> logged view life (snd (get now k c)) hist"
  unfolding logged_def using get_view by blast

lemma logged_purge: "wf c \<Longrightarrow> logged view life c hist \<Longrightarrow> logged view life (purge now c) hist"
  unfolding logged_def using purge_view by blast

lemma logged_put: "wf c \<Longrightarrow> logged view life c hist \<Longrightarrow> logged view life (put now l k u c) (Stored now l k u # hist)"
  unfolding logged_def by (auto simp: put_view split: if_splits)

lemma logged_patch:
  assumes "wf c" "logged view life c hist" "view c k \<noteq> None"
  shows "logged view life (patch k v c) (Patched k v # hist)"
  unfolding logged_def
proof (intro allI impI)
  fix k' w e assume p: "view (patch k v c) k' = Some (w, e)"
  show "\<exists>t l. e = t + life l \<and> last_stored k' (Patched k v # hist) = Some (t, l) \<and> last_value k' (Patched k v # hist) = Some w"
  proof (cases "k' = k")
    case True
    with p obtain w' where w': "view c k = Some (w', e)" "w = v" using patch_view [OF assms(1,3)] by auto
    from loggedD [OF assms(2) w'(1)] True w'(2) show ?thesis by auto
  next
    case False
    with p have "view c k' = Some (w, e)" using patch_view [OF assms(1,3)] by simp
    from loggedD [OF assms(2) this] False show ?thesis by auto
  qed
qed

lemma logged_step:
  assumes "ttl_step get put patch purge view s s'"
    and "wf (fst s) \<and> logged view life (fst s) (snd (snd s))"
  shows "wf (fst s') \<and> logged view life (fst s') (snd (snd s'))"
  using assms
proof (induction rule: ttl_step.induct)
  case (lookup c now hist k)
  then show ?case using get_wf [of c now k] logged_get [of c hist now k] by simp
next
  case (store c now hist l k u)
  then show ?case using put_wf [of c now l k u] logged_put [of c hist now l k u] by simp
next
  case (patch c k now hist v)
  then show ?case using patch_wf [of c k v] logged_patch [of c hist k v] by simp
next
  case (purge c now hist)
  then show ?case using purge_wf [of c now] logged_purge [of c hist now] by simp
qed simp

lemma logged_reachable:
  "(ttl_step get put patch purge view)\<^sup>*\<^sup>* s s' \<Longrightarrow> wf (fst s) \<and> logged view life (fst s) (snd (snd s)) \<Longrightarrow>
   wf (fst s') \<and> logged view life (fst s') (snd (snd s'))"
proof (induction rule: rtranclp_induct)
  case (step y z)
  then show ?case using logged_step [OF step.hyps(2)] by blast
qed simp

lemma hit_is_recent:
  assumes "(ttl_step get put patch purge view)\<^sup>*\<^sup>* (c0, now0, []) (c, now, hist)" and "wf c0" and "view c0 = (\<lambda>k. None)"
    and "fst (get now k c) = Some v"
  shows "\<exists>t l. last_stored k hist = Some (t, l) \<and> last_value k hist = Some v \<and> now - t \<le> life l"
proof -
  from assms(2,3) have "wf (fst (c0, now0, [])) \<and> logged view life (fst (c0, now0, [])) (snd (snd (c0, now0, [])))"
    by (simp add: logged_def)
  from logged_reachable [OF assms(1) this] have wf: "wf c" and lg: "logged view life c hist" by simp_all
  from get_hit [OF wf assms(4)] obtain e where e: "view c k = Some (v, e)" "now \<le> e" by blast
  from loggedD [OF lg e(1)] e(2) show ?thesis by auto
qed

end

definition g_view :: "('k, 'v) g_cache \<Rightarrow> 'k \<Rightarrow> ('v \<times> real) option" where
  "g_view c k =
     (case map_of c k of None \<Rightarrow> None
      | Some e \<Rightarrow> (case g_data e of None \<Rightarrow> None | Some v \<Rightarrow> Some (v, g_expires_at e)))"

definition pc_view :: "'k perf_cache \<Rightarrow> 'k \<Rightarrow> (pyval \<times> real) option" where
  "pc_view c k =
     (case map_of (pc_cache c) k of None \<Rightarrow> None
      | Some v \<Rightarrow> (case map_of (pc_expiry c) k of None \<Rightarrow> None | Some e \<Rightarrow> Some (v, e)))"

lemma map_of_fold_ddel: "map_of (fold ddel ks c) k = (if k \<in> set ks then None else map_of c k)"
  by (induction ks arbitrary: c) auto

lemma is_dict_fold_ddel: "is_dict c \<Longrightarrow> is_dict (fold ddel ks c)"
  by (induction ks arbitrary: c) auto

lemma cleanup_fold:
  "fold (\<lambda>k c. c\<lparr>pc_cache := ddel k (pc_cache c), pc_expiry := ddel k (pc_expiry c)\<rparr>) ks c =
     c\<lparr>pc_cache := fold ddel ks (pc_cache c), pc_expiry := fold ddel ks (pc_expiry c)\<rparr>"
  by (induction ks arbitrary: c) auto

lemma mem_filter_keys:
  "is_dict d \<Longrightarrow> k \<in> fst ` set (filter (\<lambda>(k, e). P e) d) \<longleftrightarrow> (\<exists>e. map_of d k = Some e \<and> P e)"
  by (force simp: is_dict_def image_iff)

lemma g_view_get:
  "g_view (snd (g_get now k c)) k' = Some x \<Longrightarrow> g_view c k' = Some x"
  by (auto simp: g_get_def g_view_def split: option.splits if_splits)

text \<open>The lifetime that \<open>set\<close> gives: a missing or zero one is the default of the cache.\<close>

definition g_lifetime :: "int \<Rightarrow> int \<Rightarrow> real" where
  "g_lifetime default_ttl l = real_of_int (if l = 0 then default_ttl else l)"

interpretation gc: ttl_cache g_get "\<lambda>now l k u c. g_set d now k u (Some l) c" set_cached
    "\<lambda>now c. snd (g_clear_expired now c)" g_view "g_lifetime d" is_dict
proof unfold_locales
  fix c :: "('a, 'b) g_cache" and now k k' v e x l u
  show "is_dict c \<Longrightarrow> fst (g_get now k c) = Some v \<Longrightarrow> \<exists>e. g_view c k = Some (v, e) \<and> now \<le> e"
    by (auto simp: g_get_def g_view_def g_is_expired_def split: option.splits if_splits)
  show "is_dict c \<Longrightarrow> g_view c k = Some (v, e) \<Longrightarrow> now < e \<Longrightarrow> fst (g_get now k c) = Some v"
    by (auto simp: g_get_def g_view_def g_is_expired_def split: option.splits if_splits)
  show "is_dict c \<Longrightarrow> g_view (snd (g_get now k c)) k' = Some x \<Longrightarrow> g_view c k' = Some x"
    by (rule g_view_get)
  show "is_dict c \<Longrightarrow> g_view c k' = Some (v, e) \<Longrightarrow> now < e \<Longrightarrow> g_view (snd (g_get now k c)) k' = Some (v, e)"
    by (auto simp: g_get_def g_view_def g_is_expired_def split: option.splits if_splits)
  show "is_dict c \<Longrightarrow> g_view (g_set d now k u (Some l) c) k' =
      (if k' = k then map_option (\<lambda>v. (v, now + g_lifetime d l)) u else g_view c k')"
    by (auto simp: g_set_def g_view_def g_lifetime_def Let_def split: option.splits)
  show "is_dict c \<Longrightarrow> g_view c k \<noteq> None \<Longrightarrow> g_view (set_cached k v c) k' =
      (if k' = k then map_option (\<lambda>(w, e). (v, e)) (g_view c k) else g_view c k')"
    by (auto simp: set_cached_def g_view_def split: option.splits)
  show "is_dict c \<Longrightarrow> g_view (snd (g_clear_expired now c)) k' = Some x \<Longrightarrow> g_view c k' = Some x"
    by (auto simp: g_clear_expired_def g_view_def Let_def map_of_fold_ddel split: if_splits)
  show "is_dict c \<Longrightarrow> g_view c k' = Some (v, e) \<Longrightarrow> now \<le> e \<Longrightarrow> g_view (snd (g_clear_expired now c)) k' = Some (v, e)"
    using mem_filter_keys [of c k' "g_is_expired now"]
    by (auto simp: g_clear_expired_def g_view_def Let_def map_of_fold_ddel g_is_expired_def split: option.splits if_splits)
  show "is_dict c \<Longrightarrow> is_dict (snd (g_get now k c))"
    by (auto simp: g_get_def split: prod.splits option.splits)
  show "is_dict c \<Longrightarrow> is_dict (g_set d now k u (Some l) c)"
    by (simp add: g_set_def Let_def)
  show "is_dict c \<Longrightarrow> is_dict (set_cached k v c)"
    by (auto simp: set_cached_def split: option.splits)
  show "is_dict c \<Longrightarrow> is_dict (snd (g_clear_expired now c))"
    by (simp add: g_clear_expired_def Let_def is_dict_fold_ddel)
qed

definition pc_wf :: "'k perf_cache \<Rightarrow> bool" where
  "pc_wf c \<longleftrightarrow> is_dict (pc_cache c) \<and> is_dict (pc_expiry c)"

text \<open>An answer of \<open>cache_result\<close> is never \<open>None\<close> for the endpoints it decorates; its callers may update it in place too.\<close>

definition pc_put :: "real \<Rightarrow> int \<Rightarrow> 'k \<Rightarrow> pyval option \<Rightarrow> 'k perf_cache \<Rightarrow> 'k perf_cache" where
  "pc_put now m k u c =
     (case u of Some v \<Rightarrow> pc_store m now k v c
      | None \<Rightarrow> c\<lparr>pc_cache := ddel k (pc_cache c), pc_expiry := ddel k (pc_expiry c)\<rparr>)"

definition pc_patch :: "'k \<Rightarrow> pyval \<Rightarrow> 'k perf_cache \<Rightarrow> 'k perf_cache" where
  "pc_patch k v c = c\<lparr>pc_cache := dset k v (pc_cache c)\<rparr>"

interpretation pc: ttl_cache "\<lambda>now k c. (pc_lookup now k c, c)" pc_put pc_patch
    cleanup_expired_cache pc_view "\<lambda>m. 60 * real_of_int m" pc_wf
proof unfold_locales
  fix c :: "'a perf_cache" and now k k' v e x m u
  show "pc_wf c \<Longrightarrow> fst (pc_lookup now k c, c) = Some v \<Longrightarrow> \<exists>e. pc_view c k = Some (v, e) \<and> now \<le> e"
    by (auto simp: pc_lookup_def pc_view_def split: option.splits if_splits)
  show "pc_wf c \<Longrightarrow> pc_view c k = Some (v, e) \<Longrightarrow> now < e \<Longrightarrow> fst (pc_lookup now k c, c) = Some v"
    by (auto simp: pc_lookup_def pc_view_def split: option.splits if_splits)
  show "pc_wf c \<Longrightarrow> pc_view (pc_put now m k u c) k' = (if k' = k then map_option (\<lambda>v. (v, now + 60 * real_of_int m)) u else pc_view c k')"
    by (cases u) (auto simp: pc_put_def pc_store_def pc_view_def split: option.splits)
  show "pc_wf c \<Longrightarrow> pc_view c k \<noteq> None \<Longrightarrow> pc_view (pc_patch k v c) k' =
      (if k' = k then map_option (\<lambda>(w, e). (v, e)) (pc_view c k) else pc_view c k')"
    by (auto simp: pc_patch_def pc_view_def split: option.splits)
  show "pc_wf c \<Longrightarrow> pc_view (cleanup_expired_cache now c) k' = Some x \<Longrightarrow> pc_view c k' = Some x"
    by (auto simp: cleanup_expired_cache_def pc_view_def Let_def cleanup_fold map_of_fold_ddel
        split: option.splits if_splits)
  show "pc_wf c \<Longrightarrow> pc_view c k' = Some (v, e) \<Longrightarrow> now \<le> e \<Longrightarrow> pc_view (cleanup_expired_cache now c) k' = Some (v, e)"
    using mem_filter_keys [of "pc_expiry c" k' "\<lambda>t. t < now"]
    by (auto simp: cleanup_expired_cache_def pc_view_def pc_wf_def Let_def cleanup_fold map_of_fold_ddel
        split: option.splits if_splits)
  show "pc_wf c \<Longrightarrow> pc_wf (cleanup_expired_cache now c)"
    by (simp add: cleanup_expired_cache_def Let_def cleanup_fold pc_wf_def is_dict_fold_ddel)
  show "pc_wf c \<Longrightarrow> pc_wf (pc_put now m k u c)"
    by (cases u) (simp_all add: pc_put_def pc_store_def pc_wf_def)
  show "pc_wf c \<Longrightarrow> pc_wf (pc_patch k v c)"
    by (simp add: pc_patch_def pc_wf_def)
qed auto

subsection \<open>Properties\<close>

text \<open>
  C23: in every interleaving of lookups, stores with any lifetimes, updates in place of cached answers and clean-ups on the Google API
  cache, starting from an empty cache, an answer that is served is the value most recently stored under its key, or put in its
  place since, and the store was made no longer ago than the lifetime it named.
\<close>

theorem google_cache_never_stale:
  assumes "(ttl_step g_get (\<lambda>now l k u c. g_set default_ttl now k u (Some l) c) set_cached
      (\<lambda>now c. snd (g_clear_expired now c)) g_view)\<^sup>*\<^sup>* ([], now0, []) (c, now, hist)"
    and "fst (g_get now k c) = Some v"
  shows "\<exists>t l. last_stored k hist = Some (t, l) \<and> last_value k hist = Some v \<and> now - t \<le> g_lifetime default_ttl l"
proof -
  have "g_view [] = (\<lambda>k. None)" by (simp add: g_view_def fun_eq_iff)
  then show ?thesis using gc.hit_is_recent [OF assms(1) _ _ assms(2)] by simp
qed

theorem google_cache_never_stale_witness:
  "\<exists>t l. last_stored ''k'' [Patched ''k'' (VInt 8), Stored 5 7200 ''k'' (Some (VInt 7))] = Some (t, l) \<and>
     last_value ''k'' [Patched ''k'' (VInt 8), Stored 5 7200 ''k'' (Some (VInt 7))] = Some (VInt 8) \<and> (4000::real) - t \<le> g_lifetime 1800 l"
proof -
  let ?p = "\<lambda>now l k u c. g_set 1800 now k u (Some l) c" and ?q = "\<lambda>now c. snd (g_clear_expired now c)"
  let ?c = "?p 5 7200 ''k'' (Some (VInt 7)) []"
  have a: "ttl_step g_get ?p set_cached ?q g_view ([], 5, []) (?c, 5, [Stored 5 7200 ''k'' (Some (VInt 7))])"
    by (rule ttl_step.store)
  have b: "ttl_step g_get ?p set_cached ?q g_view (?c, 5, [Stored 5 7200 ''k'' (Some (VInt 7))])
      (set_cached ''k'' (VInt 8) ?c, 5, [Patched ''k'' (VInt 8), Stored 5 7200 ''k'' (Some (VInt 7))])"
    by (rule ttl_step.patch) (simp add: g_set_def g_view_def)
  have c: "ttl_step g_get ?p set_cached ?q g_view (set_cached ''k'' (VInt 8) ?c, 5, [Patched ''k'' (VInt 8), Stored 5 7200 ''k'' (Some (VInt 7))])
      (set_cached ''k'' (VInt 8) ?c, 4000, [Patched ''k'' (VInt 8), Stored 5 7200 ''k'' (Some (VInt 7))])"
    by (rule ttl_step.tick) simp
  have "(ttl_step g_get ?p set_cached ?q g_view)\<^sup>*\<^sup>* ([], 5, [])
      (set_cached ''k'' (VInt 8) ?c, 4000, [Patched ''k'' (VInt 8), Stored 5 7200 ''k'' (Some (VInt 7))])"
    using a b c by (meson r_into_rtranclp rtranclp_trans)
  moreover have "fst (g_get 4000 ''k'' (set_cached ''k'' (VInt 8) ?c)) = Some (VInt 8)"
    by (simp add: g_get_def g_set_def g_is_expired_def set_cached_def)
  ultimately show ?thesis by (rule google_cache_never_stale)
qed

text \<open>
  the decorator \<open>cache_result\<close> computes a call at most once per lifetime: after a successful
  call, any call with the same key that starts before the entry expires returns the stored value
  whatever the function would answer now, even if expired entries are cleaned up in between, and
  leaves the cache as it is.
\<close>

theorem cache_result_hits_until_expiry:
  assumes "cache_result m now k (d, Inr v) c = (Inr v, c')" and "pc_lookup now k c = None" and "pc_wf c"
    and "now'' \<le> now'" and "now' < now + d + 60 * real_of_int m"
  shows "cache_result m now' k out (cleanup_expired_cache now'' c') = (Inr v, cleanup_expired_cache now'' c')"
proof -
  have c': "c' = pc_store m (now + d) k v c"
    using assms(1,2) by (simp add: cache_result_def)
  have p: "c' = pc_put (now + d) m k (Some v) c" unfolding c' by (simp add: pc_put_def)
  have wf: "pc_wf c'" unfolding p by (rule pc.put_wf [OF assms(3)])
  have "pc_view c' k = Some (v, now + d + 60 * real_of_int m)"
    unfolding p using pc.put_view [OF assms(3)] by simp
  from pc.purge_keep [OF wf this, of now''] assms(4,5)
  have "pc_view (cleanup_expired_cache now'' c') k = Some (v, now + d + 60 * real_of_int m)" by simp
  from pc.get_fresh [OF pc.purge_wf [OF wf] this assms(5)]
  show ?thesis by (simp add: cache_result_def)
qed

theorem cache_result_hits_until_expiry_witness:
  "fst (cache_result 30 900 ''q'' (1, Inl TimeoutError)
     (cleanup_expired_cache 800 (snd (cache_result 30 0 ''q'' (2, Inr (VInt 1)) \<lparr>pc_cache = [], pc_expiry = []\<rparr>)))) = Inr (VInt 1)"
proof -
  let ?c = "\<lparr>pc_cache = [], pc_expiry = []\<rparr> :: string perf_cache"
  have a: "cache_result 30 0 ''q'' (2, Inr (VInt 1)) ?c = (Inr (VInt 1), snd (cache_result 30 0 ''q'' (2, Inr (VInt 1)) ?c))"
    by (simp add: cache_result_def pc_lookup_def)
  have b: "pc_lookup 0 ''q'' ?c = None" by (simp add: pc_lookup_def)
  have c: "pc_wf ?c" by (simp add: pc_wf_def)
  show ?thesis
    using cache_result_hits_until_expiry [OF a b c, of 800 900 "(1, Inl TimeoutError)"] by simp
qed

end
