(* ===== verification/Routing.thy ===== *)
theory Routing
  imports Geo Caches
begin

section \<open>Routing services\<close>

text \<open>
  The routing stack below the optimiser: the OSRM and OpenRouteService clients
  (src/utils/osrm\_service.py, src/utils/openroute\_service.py), the free service that tries
  them in order and validates their answers (src/utils/free\_routing\_service.py) and the
  hybrid service over it (src/utils/hybrid\_routing\_service.py).  An HTTP exchange is a
  parameter: its duration, and the status with the decoded JSON body or the exception.
  Both clients sit behind the decorator of the Google API cache; the dictionary it returns
  is the cached object itself, so the adjustments made to an answer are also made to the
  cached entry.
\<close>

type_synonym http = "int \<times> pyval"

text \<open>The answer dictionary of \<open>eta_between\<close>; the flags are keys that are set or absent.\<close>

record eta =
  eta_distance_km :: real
  eta_duration_minutes :: real
  eta_status :: string
  eta_source :: string
  eta_primary_source :: "string option"
  eta_distance_validated :: bool
  eta_fallback_to_haversine :: bool
  eta_speed_adjusted :: bool
  eta_context :: "(string \<times> real \<times> string) option"

definition mk_eta :: "real \<Rightarrow> real \<Rightarrow> string \<Rightarrow> string \<Rightarrow> eta" where
  "mk_eta km dur status source =
     \<lparr>eta_distance_km = km, eta_duration_minutes = dur, eta_status = status, eta_source = source,
      eta_primary_source = None, eta_distance_validated = False,
      eta_fallback_to_haversine = False, eta_speed_adjusted = False, eta_context = None\<rparr>"

definition speed_of :: "(string \<times> real) list \<Rightarrow> string \<Rightarrow> real \<Rightarrow> real" where
  "speed_of speeds mode dflt = (case map_of speeds mode of None \<Rightarrow> dflt | Some v \<Rightarrow> v)"

definition coord_km :: "coord \<Rightarrow> coord \<Rightarrow> real res" where
  "coord_km p q = haversine_km (fst p) (snd p) (fst q) (snd q)"

text \<open>\<open>try: m except Exception: h\<close>\<close>

definition or_else :: "'a res \<Rightarrow> 'a res \<Rightarrow> 'a res" where
  "or_else m h = (case m of Inl e \<Rightarrow> h | Inr x \<Rightarrow> Inr x)"

subsection \<open>OSRM\<close>

definition walk_modes :: "string list" where
  "walk_modes = [''walk'', ''walking'']"

definition osrm_parse :: "pyval \<Rightarrow> eta res" where
  "osrm_parse data =
     rbind (vindex data ''routes'') (\<lambda>routes.
     rbind (vfirst routes) (\<lambda>route.
     rbind (vindex route ''distance'') (\<lambda>vm.
     rbind (vindex route ''duration'') (\<lambda>vs.
     rbind (need_num vm) (\<lambda>distance_m.
     rbind (need_num vs) (\<lambda>duration_s.
     Inr (mk_eta (distance_m / 1000) (duration_s / 60) ''OK'' ''osrm'')))))))"

definition osrm_walking_eta :: "coord \<Rightarrow> coord \<Rightarrow> eta res" where
  "osrm_walking_eta origin destination =
     rbind (coord_km origin destination) (\<lambda>distance_km.
     let speed_kmh = (if distance_km \<le> 1/2 then 5 else if distance_km \<le> 2 then 9/2 else 4)
     in Inr (mk_eta distance_km (distance_km / speed_kmh * 60 * (115/100)) ''OK'' ''osrm_walking_calculated''))"

definition osrm_fallback_eta :: "coord \<Rightarrow> coord \<Rightarrow> string \<Rightarrow> eta res" where
  "osrm_fallback_eta origin destination mode =
     rbind (coord_km origin destination) (\<lambda>distance_km.
     let speeds = [(''walk'', 5), (''walking'', 5), (''drive'', 45), (''car'', 45), (''transit'', 25), (''bicycle'', 15)];
         speed_kmh = speed_of speeds mode 5
     in Inr (mk_eta distance_km (distance_km / speed_kmh * 60 * (125/100)) ''FALLBACK_OSRM'' ''fallback_haversine''))"

definition osrm_driving_eta :: "http res \<Rightarrow> eta res" where
  "osrm_driving_eta answer =
     rbind answer (\<lambda>(status, data).
     if status = 200 then osrm_parse data else Inl (OtherError (''OSRM HTTP '' @ show_int status)))"

definition osrm_eta_between :: "coord \<Rightarrow> coord \<Rightarrow> string \<Rightarrow> real \<times> http res \<Rightarrow> real \<times> eta res" where
  "osrm_eta_between origin destination mode net =
     (if mode \<in> set walk_modes
      then (0, or_else (osrm_walking_eta origin destination) (osrm_fallback_eta origin destination mode))
      else (fst net, or_else (osrm_driving_eta (snd net)) (osrm_fallback_eta origin destination mode)))"

subsection \<open>OpenRouteService\<close>

definition ors_parse :: "pyval \<Rightarrow> eta res" where
  "ors_parse data =
     rbind (vindex data ''routes'') (\<lambda>routes.
     rbind (vfirst routes) (\<lambda>route.
     rbind (vindex route ''summary'') (\<lambda>summary.
     rbind (vindex summary ''distance'') (\<lambda>vm.
     rbind (vindex summary ''duration'') (\<lambda>vs.
     rbind (need_num vm) (\<lambda>distance_m.
     rbind (need_num vs) (\<lambda>duration_s.
     Inr (mk_eta (distance_m / 1000) (duration_s / 60) ''OK'' ''openroute''))))))))"

definition ors_fallback_eta :: "coord \<Rightarrow> coord \<Rightarrow> string \<Rightarrow> eta res" where
  "ors_fallback_eta origin destination mode =
     rbind (coord_km origin destination) (\<lambda>distance_km.
     let speeds = [(''walk'', 5), (''walking'', 5), (''drive'', 50), (''car'', 50), (''transit'', 30), (''bicycle'', 15)];
         speed_kmh = speed_of speeds mode 5
     in Inr (mk_eta distance_km (distance_km / speed_kmh * 60 * (12/10)) ''FALLBACK_CALCULATION'' ''fallback_calculation''))"

definition ors_eta_between :: "string option \<Rightarrow> coord \<Rightarrow> coord \<Rightarrow> string \<Rightarrow> real \<times> http res \<Rightarrow> real \<times> eta res" where
  "ors_eta_between api_key origin destination mode net =
     (if api_key = None \<or> api_key = Some [] then (0, ors_fallback_eta origin destination mode)
      else (fst net,
        or_else (rbind (snd net) (\<lambda>(status, data).
                   if status = 200 then ors_parse data else ors_fallback_eta origin destination mode))
          (ors_fallback_eta origin destination mode)))"

subsection \<open>The free routing service\<close>

definition micro_distance_eta :: "real \<Rightarrow> string \<Rightarrow> eta" where
  "micro_distance_eta distance_km mode =
     (mk_eta distance_km
        (if mode \<in> set walk_modes then max 1 (distance_km / 5 * 60) else max 2 (distance_km / 20 * 60))
        ''OK'' ''micro_distance_calculation'')\<lparr>eta_primary_source := Some ''direct_calculation''\<rparr>"

definition detect_urban_context :: "coord \<Rightarrow> bool" where
  "detect_urban_context origin \<longleftrightarrow> str_decimals (fst origin) + str_decimals (snd origin) \<ge> 8"

definition intelligent_fallback :: "coord \<Rightarrow> string \<Rightarrow> real \<Rightarrow> eta" where
  "intelligent_fallback origin mode distance_km =
     (let is_urban = detect_urban_context origin;
          speeds = (if is_urban
            then [(''walk'', 9/2), (''walking'', 9/2), (''drive'', 25), (''car'', 25), (''transit'', 20), (''bicycle'', 12)]
            else [(''walk'', 11/2), (''walking'', 11/2), (''drive'', 70), (''car'', 70), (''transit'', 45), (''bicycle'', 18)]);
          buffer_factor = (if is_urban then 14/10 else 12/10);
          speed_kmh = speed_of speeds mode 5;
          ctxt = (if is_urban then ''urban'' else ''rural'')
      in (mk_eta distance_km (distance_km / speed_kmh * 60 * buffer_factor) ''INTELLIGENT_FALLBACK''
            (''intelligent_fallback_'' @ ctxt))
           \<lparr>eta_primary_source := Some ''fallback_calculation'',
            eta_context := Some (ctxt, speed_kmh, show_int (py_trunc ((buffer_factor - 1) * 100)) @ ''%'')\<rparr>)"

definition speed_limits :: "string \<Rightarrow> real \<times> real" where
  "speed_limits mode =
     (case map_of [(''walk'', (2, 8)), (''walking'', (2, 8)), (''drive'', (10, 120)), (''car'', (10, 120)),
                   (''transit'', (8, 80)), (''bicycle'', (8, 30))] mode of
        None \<Rightarrow> (1, 150) | Some l \<Rightarrow> l)"

definition validate_and_adjust_eta :: "eta \<Rightarrow> real \<Rightarrow> string \<Rightarrow> eta" where
  "validate_and_adjust_eta result haversine_distance_km mode =
     (let duration_minutes = eta_duration_minutes result;
          distance_diff = \<bar>eta_distance_km result - haversine_distance_km\<bar>;
          r1 = (if distance_diff > 1/10 then
                  (if distance_diff > haversine_distance_km * 2
                   then result\<lparr>eta_distance_km := haversine_distance_km, eta_fallback_to_haversine := True\<rparr>
                   else result\<lparr>eta_distance_validated := True\<rparr>)
                else result)
      in if duration_minutes > 0 then
           (let implied = eta_distance_km r1 / duration_minutes * 60;
                (min_speed, max_speed) = speed_limits mode
            in if implied < min_speed \<or> implied > max_speed then
                 (let target = (if implied < min_speed then min_speed * (15/10) else max_speed * (8/10))
                  in r1\<lparr>eta_duration_minutes := eta_distance_km r1 / target * 60, eta_speed_adjusted := True\<rparr>)
               else r1)
         else r1)"

text \<open>
  One iteration of the service loop: the cached client under \<open>wait_for\<close>, then the status
  test; an accepted answer is marked, adjusted and written through to the cache entry it
  came from.  \<open>clock\<close> is when the client is called.
\<close>

datatype route_client = OSRM | OpenRoute

type_synonym route_key = "route_client \<times> coord \<times> coord \<times> string"

fun client_name :: "route_client \<Rightarrow> string" where
  "client_name OSRM = ''osrm''"
| "client_name OpenRoute = ''openroute''"

definition try_client ::
  "route_key \<Rightarrow> real \<Rightarrow> real \<times> eta res \<Rightarrow> real \<Rightarrow> (route_key, eta) g_cache \<Rightarrow> eta option \<times> real \<times> (route_key, eta) g_cache" where
  "try_client key clock body distance_km c =
     (let hit = (fst (g_get clock key c) \<noteq> None);
          (d, r) = (if fst body \<le> 8 then body else (8, Inl TimeoutError));
          (r', c') = cache_google_api 1800 3600 clock key (d, map_sum id Some r) c;
          clock' = (if hit then clock else clock + d)
      in case r' of
           Inr (Some e) \<Rightarrow>
             (if eta_status e \<in> {''OK'', ''FALLBACK_CALCULATION''} then
                (let e' = validate_and_adjust_eta (e\<lparr>eta_primary_source := Some (client_name (fst key))\<rparr>)
                            distance_km (snd (snd (snd key)))
                 in (Some e', clock', set_cached key e' c'))
              else (None, clock', c'))
         | _ \<Rightarrow> (None, clock', c'))"

definition free_eta_between ::
  "string option \<Rightarrow> coord \<Rightarrow> coord \<Rightarrow> string \<Rightarrow> real \<times> http res \<Rightarrow> real \<times> http res \<Rightarrow> real \<Rightarrow>
   (route_key, eta) g_cache \<Rightarrow> eta res \<times> (route_key, eta) g_cache" where
  "free_eta_between api_key origin destination mode net1 net2 now c =
     (case coord_km origin destination of
        Inl e \<Rightarrow> (Inl e, c)
      | Inr distance_km \<Rightarrow>
          if distance_km < 1/10 then (Inr (micro_distance_eta distance_km mode), c)
          else
            (case try_client (OSRM, origin, destination, mode) now
                    (osrm_eta_between origin destination mode net1) distance_km c of
               (Some e, _, c1) \<Rightarrow> (Inr e, c1)
             | (None, clock, c1) \<Rightarrow>
                 (case try_client (OpenRoute, origin, destination, mode) clock
                         (ors_eta_between api_key origin destination mode net2) distance_km c1 of
                    (Some e, _, c2) \<Rightarrow> (Inr e, c2)
                  | (None, _, c2) \<Rightarrow> (Inr (intelligent_fallback origin mode distance_km), c2))))"

text \<open>The distance alone; an exception falls back to the haversine distance, which may raise again.\<close>

definition free_get_distance_km ::
  "string option \<Rightarrow> coord \<Rightarrow> coord \<Rightarrow> string \<Rightarrow> real \<times> http res \<Rightarrow> real \<times> http res \<Rightarrow> real \<Rightarrow>
   (route_key, eta) g_cache \<Rightarrow> real res \<times> (route_key, eta) g_cache" where
  "free_get_distance_km api_key origin destination mode net1 net2 now c =
     (case free_eta_between api_key origin destination mode net1 net2 now c of
        (Inr e, c') \<Rightarrow> (Inr (eta_distance_km e), c')
      | (Inl _, c') \<Rightarrow> (coord_km origin destination, c'))"

subsection \<open>The hybrid routing service\<close>

record routing_result =
  rr_distance_km :: real
  rr_duration_minutes :: real
  rr_processing_time_ms :: real
  rr_source :: string
  rr_success :: bool
  rr_confidence :: real
  rr_fallback_from :: "string option"

record routing_stats =
  osrm_calls :: int
  google_calls :: int
  euclidean_calls :: int
  osrm_failures :: int
  google_failures :: int
  total_time_saved_ms :: int

definition new_routing_stats :: routing_stats where
  "new_routing_stats = \<lparr>osrm_calls = 0, google_calls = 0, euclidean_calls = 0,
     osrm_failures = 0, google_failures = 0, total_time_saved_ms = 0\<rparr>"

text \<open>The state of the service: its statistics, whether the free service was importable, the API cache.\<close>

record hybrid_routing =
  hr_stats :: routing_stats
  hr_google_available :: bool
  hr_cache :: "(route_key, eta) g_cache"

text \<open>
  What the network answers during one \<open>get_route\<close>: the direct OSRM request, the two clients
  of the free service and the key of OpenRouteService; the elapsed times are the measured ones.
\<close>

record routing_net =
  net_osrm_direct :: "http res"
  net_osrm :: "real \<times> http res"
  net_openroute :: "real \<times> http res"
  net_api_key :: "string option"
  net_elapsed_ms :: real

definition get_osrm_route :: "routing_net \<Rightarrow> routing_result option" where
  "get_osrm_route net =
     (case rbind (net_osrm_direct net) (\<lambda>(status, data).
           if status = 200 then
             rbind (vindex data ''code'') (\<lambda>code.
             if code \<noteq> VStr ''Ok'' then Inr None else
             rbind (vindex data ''routes'') (\<lambda>routes.
             if \<not> truthy routes then Inr None else
             rbind (vfirst routes) (\<lambda>route.
             rbind (rbind (vindex route ''distance'') need_num) (\<lambda>m.
             rbind (rbind (vindex route ''duration'') need_num) (\<lambda>s.
             Inr (Some \<lparr>rr_distance_km = py_round 2 (m / 1000), rr_duration_minutes = py_round 1 (s / 60),
                    rr_processing_time_ms = net_elapsed_ms net, rr_source = ''osrm'', rr_success = True,
                    rr_confidence = 9/10, rr_fallback_from = None\<rparr>))))))
           else Inr None) of
        Inl e \<Rightarrow> None
      | Inr r \<Rightarrow> r)"

definition get_google_route ::
  "coord \<Rightarrow> coord \<Rightarrow> string \<Rightarrow> routing_net \<Rightarrow> real \<Rightarrow> hybrid_routing \<Rightarrow> routing_result option \<times> hybrid_routing" where
  "get_google_route origin destination mode net now hr =
     (let (r, c') = free_eta_between (net_api_key net) origin destination mode (net_osrm net) (net_openroute net) now (hr_cache hr);
          hr' = hr\<lparr>hr_cache := c'\<rparr>
      in case r of
           Inl e \<Rightarrow> (None, hr')
         | Inr e \<Rightarrow>
             (Some \<lparr>rr_distance_km = eta_distance_km e, rr_duration_minutes = eta_duration_minutes e,
                rr_processing_time_ms = net_elapsed_ms net, rr_source = ''google'', rr_success = True,
                rr_confidence = 95/100, rr_fallback_from = None\<rparr>, hr'))"

definition get_euclidean_route ::
  "string \<Rightarrow> real \<Rightarrow> routing_net \<Rightarrow> hybrid_routing \<Rightarrow> routing_result \<times> hybrid_routing" where
  "get_euclidean_route mode euclidean_distance net hr =
     (let speed_kmh = speed_of [(''walk'', 5), (''drive'', 25), (''car'', 25), (''transit'', 20), (''bike'', 15)] mode 25
      in (\<lparr>rr_distance_km = euclidean_distance,
           rr_duration_minutes = py_round 1 (euclidean_distance / speed_kmh * 60),
           rr_processing_time_ms = net_elapsed_ms net, rr_source = ''euclidean'', rr_success = True,
           rr_confidence = 6/10, rr_fallback_from = Some ''all_services''\<rparr>,
          hr\<lparr>hr_stats := (hr_stats hr)\<lparr>euclidean_calls := euclidean_calls (hr_stats hr) + 1\<rparr>\<rparr>))"

definition count_osrm :: "hybrid_routing \<Rightarrow> hybrid_routing" where
  "count_osrm hr = hr\<lparr>hr_stats := (hr_stats hr)\<lparr>osrm_calls := osrm_calls (hr_stats hr) + 1\<rparr>\<rparr>"

definition count_osrm_failure :: "hybrid_routing \<Rightarrow> hybrid_routing" where
  "count_osrm_failure hr = hr\<lparr>hr_stats := (hr_stats hr)\<lparr>osrm_failures := osrm_failures (hr_stats hr) + 1\<rparr>\<rparr>"

definition count_google :: "hybrid_routing \<Rightarrow> hybrid_routing" where
  "count_google hr = hr\<lparr>hr_stats := (hr_stats hr)\<lparr>google_calls := google_calls (hr_stats hr) + 1\<rparr>\<rparr>"

text \<open>\<open>result and result.success\<close>\<close>

definition successful :: "routing_result option \<Rightarrow> routing_result option" where
  "successful r = (case r of Some x \<Rightarrow> if rr_success x then Some x else None | None \<Rightarrow> None)"

definition route_urban_strategy ::
  "coord \<Rightarrow> coord \<Rightarrow> string \<Rightarrow> real \<Rightarrow> routing_net \<Rightarrow> real \<Rightarrow> hybrid_routing \<Rightarrow> routing_result \<times> hybrid_routing" where
  "route_urban_strategy origin destination mode d net now hr =
     (case successful (get_osrm_route net) of
        Some r \<Rightarrow> (r, count_osrm hr)
      | None \<Rightarrow>
          (let hr1 = count_osrm_failure hr in
           if hr_google_available hr1 then
             (let (g, hr2) = get_google_route origin destination mode net now hr1 in
              case successful g of
                Some r \<Rightarrow> (r\<lparr>rr_fallback_from := Some ''osrm''\<rparr>, count_google hr2)
              | None \<Rightarrow> get_euclidean_route mode d net hr2)
           else get_euclidean_route mode d net hr1))"

definition route_intercity_strategy ::
  "coord \<Rightarrow> coord \<Rightarrow> string \<Rightarrow> real \<Rightarrow> routing_net \<Rightarrow> real \<Rightarrow> hybrid_routing \<Rightarrow> routing_result \<times> hybrid_routing" where
  "route_intercity_strategy origin destination mode d net now hr =
     (let (g, hr1) = (if hr_google_available hr then get_google_route origin destination mode net now hr else (None, hr))
      in case successful g of
           Some r \<Rightarrow> (r, count_google hr1)
         | None \<Rightarrow>
             (case successful (get_osrm_route net) of
                Some r \<Rightarrow> (r\<lparr>rr_fallback_from := Some ''google'', rr_confidence := 7/10\<rparr>, count_osrm hr1)
              | None \<Rightarrow> get_euclidean_route mode d net hr1))"

definition get_route ::
  "coord \<Rightarrow> coord \<Rightarrow> string \<Rightarrow> routing_net \<Rightarrow> real \<Rightarrow> hybrid_routing \<Rightarrow> routing_result res \<times> hybrid_routing" where
  "get_route origin destination mode net now hr =
     (case coord_km origin destination of
        Inl e \<Rightarrow> (Inl e, hr)
      | Inr d \<Rightarrow>
          (let (r, hr') = (if d \<le> 50 then route_urban_strategy origin destination mode d net now hr
                           else route_intercity_strategy origin destination mode d net now hr)
           in (Inr (r\<lparr>rr_processing_time_ms := net_elapsed_ms net\<rparr>), hr')))"

text \<open>The derived figures; before the first call only the counters are returned.\<close>

definition get_stats :: "routing_stats \<Rightarrow> (real \<times> int \<times> real \<times> real \<times> real) option" where
  "get_stats st =
     (let total_calls = osrm_calls st + google_calls st + euclidean_calls st in
      if total_calls = 0 then None
      else Some ((if osrm_calls st + osrm_failures st > 0
             then real_of_int (osrm_calls st) / real_of_int (osrm_calls st + osrm_failures st) * 100 else 0),
            total_calls, real_of_int (osrm_calls st) / real_of_int total_calls * 100,
            real_of_int (google_calls st) / real_of_int total_calls * 100,
            real_of_int (euclidean_calls st) / real_of_int total_calls * 100))"

definition reset_stats :: "hybrid_routing \<Rightarrow> hybrid_routing" where
  "reset_stats hr = hr\<lparr>hr_stats := new_routing_stats\<rparr>"

subsection \<open>Lemmas\<close>

definition speed_ok :: "string \<Rightarrow> eta \<Rightarrow> bool" where
  "speed_ok mode e \<longleftrightarrow> eta_duration_minutes e \<le> 0 \<or>
     (fst (speed_limits mode) \<le> eta_distance_km e / eta_duration_minutes e * 60 \<and>
      eta_distance_km e / eta_duration_minutes e * 60 \<le> snd (speed_limits mode))"

definition distance_ok :: "real \<Rightarrow> eta \<Rightarrow> bool" where
  "distance_ok d e \<longleftrightarrow> \<bar>eta_distance_km e - d\<bar> \<le> max (1/10) (2 * d)"

lemma speed_limits_sane:
  "0 < fst (speed_limits mode) \<and> fst (speed_limits mode) * (15/10) \<le> snd (speed_limits mode) \<and>
   fst (speed_limits mode) \<le> snd (speed_limits mode) * (8/10)"
  by (simp add: speed_limits_def)

text \<open>The two halves of the adjustment.\<close>

definition adjust_distance :: "eta \<Rightarrow> real \<Rightarrow> eta" where
  "adjust_distance e d =
     (if \<bar>eta_distance_km e - d\<bar> > 1/10 then
        (if \<bar>eta_distance_km e - d\<bar> > d * 2
         then e\<lparr>eta_distance_km := d, eta_fallback_to_haversine := True\<rparr>
         else e\<lparr>eta_distance_validated := True\<rparr>)
      else e)"

definition adjust_speed :: "eta \<Rightarrow> string \<Rightarrow> eta" where
  "adjust_speed e mode =
     (if speed_ok mode e then e
      else e\<lparr>eta_duration_minutes := eta_distance_km e /
             (if eta_distance_km e / eta_duration_minutes e * 60 < fst (speed_limits mode)
              then fst (speed_limits mode) * (15/10) else snd (speed_limits mode) * (8/10)) * 60,
             eta_speed_adjusted := True\<rparr>)"

lemma validate_and_adjust_split:
  "validate_and_adjust_eta e d mode = adjust_speed (adjust_distance e d) mode"
proof -
  have "eta_duration_minutes (adjust_distance e d) = eta_duration_minutes e"
    by (simp add: adjust_distance_def)
  then show ?thesis
    by (auto simp: validate_and_adjust_eta_def Let_def adjust_distance_def adjust_speed_def speed_ok_def
        case_prod_beta not_le not_less)
qed

lemma adjust_speed_ok: "speed_ok mode (adjust_speed e mode)"
proof (cases "speed_ok mode e")
  case False
  note lim = speed_limits_sane [of mode]
  let ?t = "if eta_distance_km e / eta_duration_minutes e * 60 < fst (speed_limits mode)
              then fst (speed_limits mode) * (15/10) else snd (speed_limits mode) * (8/10)"
  have t: "0 < ?t" "fst (speed_limits mode) \<le> ?t" "?t \<le> snd (speed_limits mode)" using lim by auto
  have e: "adjust_speed e mode = e\<lparr>eta_duration_minutes := eta_distance_km e / ?t * 60, eta_speed_adjusted := True\<rparr>"
    using False by (simp add: adjust_speed_def)
  show ?thesis
  proof (cases "eta_distance_km e = 0")
    case True
    then show ?thesis unfolding e by (simp add: speed_ok_def)
  next
    case False
    then have "eta_distance_km e / (eta_distance_km e / ?t * 60) * 60 = ?t" using t(1) by (simp add: field_simps)
    then show ?thesis unfolding e speed_ok_def using t by simp
  qed
qed (simp add: adjust_speed_def)

lemma adjust_distance_ok: "0 \<le> d \<Longrightarrow> distance_ok d (adjust_distance e d)"
  by (auto simp: adjust_distance_def distance_ok_def)

lemma adjust_speed_distance [simp]: "eta_distance_km (adjust_speed e mode) = eta_distance_km e"
  by (simp add: adjust_speed_def)

lemma adjust_distance_idem: "0 \<le> d \<Longrightarrow> adjust_distance (adjust_speed (adjust_distance e d) mode) d = adjust_speed (adjust_distance e d) mode"
  by (cases e) (auto simp: adjust_distance_def adjust_speed_def)

lemma osrm_ok_or_fallback:
  "snd (osrm_eta_between origin destination mode net) = Inr e \<Longrightarrow>
   eta_status e = ''OK'' \<or> osrm_fallback_eta origin destination mode = Inr e"
  by (auto simp: osrm_eta_between_def or_else_def osrm_walking_eta_def osrm_driving_eta_def osrm_parse_def
      mk_eta_def Let_def rbind_eq_Inr_iff split: sum.splits if_splits)

lemma coord_km_Inr: "coord_km p q = Inr d \<Longrightarrow> 0 \<le> d"
  by (simp add: coord_km_def haversine_km_nonneg)

lemma coord_km_total: "in_range (fst p) (snd p) \<Longrightarrow> in_range (fst q) (snd q) \<Longrightarrow> \<exists>d. coord_km p q = Inr d"
  by (simp add: coord_km_def haversine_km_Inr)

lemma try_client_ok:
  assumes "try_client key clock body d c = (Some e, clock', c')" "0 \<le> d"
  shows "distance_ok d e \<and> speed_ok (snd (snd (snd key))) e \<and> eta_primary_source e = Some (client_name (fst key))"
proof -
  from assms(1) obtain e0 where e: "e = validate_and_adjust_eta (e0\<lparr>eta_primary_source := Some (client_name (fst key))\<rparr>)
                            d (snd (snd (snd key)))"
    by (auto simp: try_client_def Let_def split: prod.splits sum.splits option.splits if_splits)
  have "eta_primary_source (adjust_speed (adjust_distance x d) m) = eta_primary_source x" for x m
    by (simp add: adjust_speed_def adjust_distance_def)
  then show ?thesis
    using adjust_distance_ok [OF assms(2)] adjust_speed_ok
    unfolding e validate_and_adjust_split distance_ok_def by simp
qed

lemma free_eta_out_of_range:
  "coord_km p q = Inl er \<Longrightarrow> free_eta_between key p q mode n1 n2 now c = (Inl er, c)"
  by (simp add: free_eta_between_def)

lemma mk_eta_sel [simp]:
  "eta_distance_km (mk_eta a b s t) = a" "eta_duration_minutes (mk_eta a b s t) = b"
  "eta_status (mk_eta a b s t) = s" "eta_primary_source (mk_eta a b s t) = None"
  by (simp_all add: mk_eta_def)

lemma free_eta_in_range:
  assumes "coord_km p q = Inr d"
  obtains e c' where "free_eta_between key p q mode n1 n2 now c = (Inr e, c')" "distance_ok d e"
    "eta_primary_source e \<in> {Some ''osrm'', Some ''openroute''} \<longrightarrow> speed_ok mode e"
proof -
  note d0 = coord_km_Inr [OF assms]
  show thesis
  proof (cases "d < 1/10")
    case True
    then have "free_eta_between key p q mode n1 n2 now c = (Inr (micro_distance_eta d mode), c)"
      using assms by (simp add: free_eta_between_def)
    then show thesis by (rule that) (simp_all add: micro_distance_eta_def distance_ok_def)
  next
    case far: False
    obtain e1 t1 c1 where t1: "try_client (OSRM, p, q, mode) now (osrm_eta_between p q mode n1) d c = (e1, t1, c1)"
      by (cases "try_client (OSRM, p, q, mode) now (osrm_eta_between p q mode n1) d c") auto
    obtain e2 t2 c2 where t2: "try_client (OpenRoute, p, q, mode) t1 (ors_eta_between key p q mode n2) d c1 = (e2, t2, c2)"
      by (cases "try_client (OpenRoute, p, q, mode) t1 (ors_eta_between key p q mode n2) d c1") auto
    consider (a) e where "e1 = Some e" | (b) e where "e1 = None" "e2 = Some e" | (c) "e1 = None" "e2 = None"
      by (cases e1; cases e2) auto
    then show thesis
    proof cases
      case a
      then have "free_eta_between key p q mode n1 n2 now c = (Inr e, c1)"
        using assms far t1 by (simp add: free_eta_between_def)
      then show thesis using that try_client_ok [OF t1 [unfolded a] d0] by simp
    next
      case b
      then have "free_eta_between key p q mode n1 n2 now c = (Inr e, c2)"
        using assms far t1 t2 by (simp add: free_eta_between_def)
      then show thesis using that try_client_ok [OF t2 [unfolded b(2)] d0] by simp
    next
      case c
      then have "free_eta_between key p q mode n1 n2 now c = (Inr (intelligent_fallback p mode d), c2)"
        using assms far t1 t2 by (simp add: free_eta_between_def)
      then show thesis by (rule that) (simp_all add: intelligent_fallback_def distance_ok_def Let_def d0)
    qed
  qed
qed

lemma g_get_miss: "map_of c k = None \<Longrightarrow> g_get now k c = (None, c)"
  by (simp add: g_get_def)

lemma map_of_g_get: "map_of c k = None \<Longrightarrow> map_of (snd (g_get now k' c)) k = None"
  by (simp add: g_get_def split: option.splits)

lemma cache_google_api_other:
  "k \<noteq> k' \<Longrightarrow> map_of c k = None \<Longrightarrow> map_of (snd (cache_google_api dt ttl now k' out c)) k = None"
  using map_of_g_get [of c k now k']
  by (auto simp: cache_google_api_def g_set_def Let_def split: prod.splits sum.splits)

lemma try_client_other:
  assumes "k \<noteq> key" "map_of c k = None" "try_client key clock body d c = (r, clock', c')"
  shows "map_of c' k = None"
proof -
  note * = cache_google_api_other [OF assms(1,2)]
  have "map_of (set_cached key v x) k = map_of x k" for v :: eta and x
    using assms(1) by (simp add: set_cached_def split: option.splits)
  with assms(3) * show ?thesis
    by (auto simp: try_client_def Let_def split: prod.splits sum.splits option.splits if_splits)
      (metis snd_conv)+
qed

lemma try_client_cold:
  assumes "map_of c key = None" "try_client key clock (dur, Inr e) d c = (None, clock', c')"
    and "eta_status e \<in> {''OK'', ''FALLBACK_CALCULATION''}"
  shows "dur > 8"
proof (rule ccontr)
  assume "\<not> dur > 8"
  then have "cache_google_api 1800 3600 clock key (dur, Inr (Some e)) c =
      (Inr (Some e), g_set 1800 (clock + dur) key (Some e) (Some 3600) c)"
    using assms(1) by (simp add: cache_google_api_def g_get_miss)
  with assms \<open>\<not> dur > 8\<close> show False
    by (simp add: try_client_def Let_def split: if_splits)
qed

lemma ors_accepted:
  assumes "coord_km p q = Inr d"
  shows "\<exists>e. snd (ors_eta_between key p q mode net) = Inr e \<and> eta_status e \<in> {''OK'', ''FALLBACK_CALCULATION''}"
proof -
  have f: "\<exists>e. ors_fallback_eta p q mode = Inr e \<and> eta_status e = ''FALLBACK_CALCULATION''"
    using assms by (simp add: ors_fallback_eta_def Let_def)
  have ok: "ors_parse data = Inr e \<Longrightarrow> eta_status e = ''OK''" for data e
    by (auto simp: ors_parse_def rbind_eq_Inr_iff)
  show ?thesis
  proof (cases "key = None \<or> key = Some []")
    case True
    with f show ?thesis by (auto simp: ors_eta_between_def)
  next
    case False
    let ?m = "rbind (snd net) (\<lambda>(status, data). if status = 200 then ors_parse data else ors_fallback_eta p q mode)"
    show ?thesis
    proof (cases ?m)
      case (Inl er)
      with f False show ?thesis by (auto simp: ors_eta_between_def or_else_def)
    next
      case (Inr e)
      with f ok have "eta_status e \<in> {''OK'', ''FALLBACK_CALCULATION''}"
        by (auto simp: rbind_eq_Inr_iff split: if_splits)
      with Inr False show ?thesis by (auto simp: ors_eta_between_def or_else_def)
    qed
  qed
qed

definition calls_made :: "routing_stats \<Rightarrow> int" where
  "calls_made st = osrm_calls st + google_calls st + euclidean_calls st"

lemma get_osrm_success: "get_osrm_route net = Some r \<Longrightarrow> rr_success r \<and> rr_source r = ''osrm''"
  by (auto simp: get_osrm_route_def rbind_eq_Inr_iff split: sum.splits if_splits prod.splits)

lemma get_google_in_range:
  assumes "coord_km p q = Inr d"
  shows "\<exists>r hr'. get_google_route p q mode net now hr = (Some r, hr') \<and> rr_success r \<and> rr_source r = ''google'' \<and>
    \<bar>rr_distance_km r - d\<bar> \<le> max (1/10) (2 * d) \<and> hr_stats hr' = hr_stats hr"
proof -
  obtain e c' where e: "free_eta_between (net_api_key net) p q mode (net_osrm net) (net_openroute net) now (hr_cache hr) = (Inr e, c')"
    "distance_ok d e"
    using free_eta_in_range [OF assms] by metis
  then show ?thesis by (simp add: get_google_route_def distance_ok_def)
qed

subsection \<open>Properties\<close>

text \<open>
  C21: \<open>_validate_and_adjust_eta\<close> yields a distance within a tenth of a kilometre or twice the
  straight-line distance of it, and a duration that is not positive or implies a speed within the
  limits of the mode; applying it again changes nothing, so re-adjusting the dictionary that a
  cache hit shares with the cache is harmless.
\<close>

theorem adjust_eta_sound_and_idempotent:
  assumes "0 \<le> d"
  shows "distance_ok d (validate_and_adjust_eta e d mode) \<and> speed_ok mode (validate_and_adjust_eta e d mode) \<and>
    validate_and_adjust_eta (validate_and_adjust_eta e d mode) d mode = validate_and_adjust_eta e d mode"
proof -
  have "distance_ok d (adjust_speed x mode) = distance_ok d x" for x by (simp add: distance_ok_def)
  moreover have "adjust_speed (adjust_speed x mode) mode = adjust_speed x mode" for x
    using adjust_speed_ok [of mode x] by (simp add: adjust_speed_def)
  ultimately show ?thesis
    unfolding validate_and_adjust_split
    using adjust_distance_ok [OF assms] adjust_speed_ok adjust_distance_idem [OF assms] by simp
qed

theorem adjust_eta_sound_and_idempotent_witness:
  "speed_ok ''walk'' (validate_and_adjust_eta (mk_eta 9 1 ''OK'' ''osrm'') 2 ''walk'')"
  using adjust_eta_sound_and_idempotent [of 2 "mk_eta 9 1 ''OK'' ''osrm''" "''walk''"] by simp

text \<open>
  C22: for coordinates in range the free routing service always answers, whatever the network does and
  whatever the cache holds; its distance is within the validated distance of the straight line, and
  an answer that came from a client has a plausible speed.
\<close>

theorem free_eta_between_total:
  assumes "in_range (fst p) (snd p)" "in_range (fst q) (snd q)"
  shows "\<exists>d e c'. coord_km p q = Inr d \<and> free_eta_between key p q mode n1 n2 now c = (Inr e, c') \<and>
    distance_ok d e \<and> (eta_primary_source e \<in> {Some ''osrm'', Some ''openroute''} \<longrightarrow> speed_ok mode e)"
proof -
  obtain d where d: "coord_km p q = Inr d" using coord_km_total [OF assms] by blast
  then show ?thesis by (rule free_eta_in_range [where mode = mode]) (use d in blast)
qed

theorem free_eta_between_total_witness:
  "\<exists>e c'. free_eta_between None (1, 1) (2, 2) ''drive'' (1, Inl ConnectionError) (99, Inl TimeoutError) 0 [] = (Inr e, c')"
  using free_eta_between_total [of "(1, 1)" "(2, 2)" None "''drive''" "(1, Inl ConnectionError)" "(99, Inl TimeoutError)" 0 "[]"]
  by (auto simp: in_range_def)

text \<open>
  the final fallback of the free routing service is reached, on a cold cache, only when
  OpenRouteService has an API key and takes longer than eight seconds: its own fallback is accepted
  in every other case.
\<close>

theorem intelligent_fallback_only_on_timeout:
  assumes "map_of c (OpenRoute, p, q, mode) = None"
    and "free_eta_between key p q mode n1 n2 now c = (Inr e, c')"
    and "eta_primary_source e = Some ''fallback_calculation''"
  shows "fst n2 > 8 \<and> key \<noteq> None \<and> key \<noteq> Some []"
proof -
  obtain d where d: "coord_km p q = Inr d"
    using assms(2) by (auto simp: free_eta_between_def split: sum.splits)
  note d0 = coord_km_Inr [OF d]
  have far: "\<not> d < 1/10"
    using assms(2,3) d by (auto simp: free_eta_between_def micro_distance_eta_def)
  obtain e1 t1 c1 where t1: "try_client (OSRM, p, q, mode) now (osrm_eta_between p q mode n1) d c = (e1, t1, c1)"
    by (cases "try_client (OSRM, p, q, mode) now (osrm_eta_between p q mode n1) d c") auto
  have e1: "e1 = None"
  proof (cases e1)
    case (Some x)
    then have "eta_primary_source x = Some ''osrm''" using try_client_ok [OF t1 [unfolded Some] d0] by simp
    then show ?thesis using assms(2,3) d far t1 Some by (auto simp: free_eta_between_def)
  qed simp
  obtain e2 t2 c2 where t2: "try_client (OpenRoute, p, q, mode) t1 (ors_eta_between key p q mode n2) d c1 = (e2, t2, c2)"
    by (cases "try_client (OpenRoute, p, q, mode) t1 (ors_eta_between key p q mode n2) d c1") auto
  have e2: "e2 = None"
  proof (cases e2)
    case (Some x)
    then have "eta_primary_source x = Some ''openroute''" using try_client_ok [OF t2 [unfolded Some] d0] by simp
    then show ?thesis using assms(2,3) d far t1 t2 e1 Some by (auto simp: free_eta_between_def)
  qed simp
  have cold: "map_of c1 (OpenRoute, p, q, mode) = None"
    by (rule try_client_other [OF _ assms(1) t1]) simp
  obtain x where x: "snd (ors_eta_between key p q mode n2) = Inr x" "eta_status x \<in> {''OK'', ''FALLBACK_CALCULATION''}"
    using ors_accepted [OF d] by blast
  then have "ors_eta_between key p q mode n2 = (fst (ors_eta_between key p q mode n2), Inr x)"
    by (metis prod.collapse)
  then have "fst (ors_eta_between key p q mode n2) > 8"
    using try_client_cold [OF cold _ x(2)] t2 e2 by metis
  then show ?thesis by (auto simp: ors_eta_between_def split: if_splits)
qed

theorem intelligent_fallback_only_on_timeout_witness:
  "fst (99 :: real, Inl TimeoutError :: http res) > 8 \<and>
   eta_primary_source (intelligent_fallback (0, 0) ''drive'' (pi * 6371)) = Some ''fallback_calculation''"
proof -
  have d: "coord_km (0, 0) (0, 180) = Inr (pi * 6371)"
    by (simp add: coord_km_def haversine_km_def haversine_a_def radians_def EARTH_RADIUS_KM_def)
  have far: "\<not> pi * 6371 < 1/10" using pi_ge_two by simp
  have a: "try_client (OSRM, (0, 0), (0, 180), ''drive'') 0 (osrm_eta_between (0, 0) (0, 180) ''drive'' (99, Inl TimeoutError))
      (pi * 6371) [] = (None, 8, [])"
    by (simp add: try_client_def cache_google_api_def g_get_def osrm_eta_between_def walk_modes_def)
  have b: "try_client (OpenRoute, (0, 0), (0, 180), ''drive'') 8
      (ors_eta_between (Some ''k'') (0, 0) (0, 180) ''drive'' (99, Inl TimeoutError)) (pi * 6371) [] = (None, 16, [])"
    by (simp add: try_client_def cache_google_api_def g_get_def ors_eta_between_def)
  have e: "free_eta_between (Some ''k'') (0, 0) (0, 180) ''drive'' (99, Inl TimeoutError) (99, Inl TimeoutError) 0 [] =
      (Inr (intelligent_fallback (0, 0) ''drive'' (pi * 6371)), [])"
    using d far a b by (simp add: free_eta_between_def)
  have s: "eta_primary_source (intelligent_fallback (0, 0) ''drive'' (pi * 6371)) = Some ''fallback_calculation''"
    by (simp add: intelligent_fallback_def Let_def)
  from intelligent_fallback_only_on_timeout [OF _ e s] s show ?thesis by simp
qed

text \<open>
  \<open>HybridRoutingService.get_route\<close> raises exactly on coordinates out of range; otherwise it returns
  a successful route and counts exactly one call, and as long as the free service is available
  neither the straight-line route nor, beyond 50 km, OSRM is ever the source.  It never counts a Google
  failure.
\<close>

theorem get_route_sources:
  assumes "get_route p q mode net now hr = (r, hr')" and "hr_google_available hr"
  shows "google_failures (hr_stats hr') = google_failures (hr_stats hr) \<and>
    (case r of
      Inl e \<Rightarrow> \<not> (in_range (fst p) (snd p) \<and> in_range (fst q) (snd q)) \<and> hr' = hr
    | Inr x \<Rightarrow> rr_success x \<and> calls_made (hr_stats hr') = calls_made (hr_stats hr) + 1 \<and>
        euclidean_calls (hr_stats hr') = euclidean_calls (hr_stats hr) \<and>
        (rr_source x = ''google'' \<or> rr_source x = ''osrm'' \<and> (\<exists>d. coord_km p q = Inr d \<and> d \<le> 50)))"
proof (cases "coord_km p q")
  case (Inl e)
  then have "\<not> (in_range (fst p) (snd p) \<and> in_range (fst q) (snd q))"
    using coord_km_total [of p q] by auto
  with Inl assms show ?thesis by (auto simp: get_route_def)
next
  case (Inr d)
  obtain g h where g: "get_google_route p q mode net now hr = (Some g, h)" "rr_success g" "rr_source g = ''google''"
      "hr_stats h = hr_stats hr"
    using get_google_in_range [OF Inr, of mode net now hr] by blast
  obtain g2 h2 where g2: "get_google_route p q mode net now (count_osrm_failure hr) = (Some g2, h2)"
      "rr_success g2" "rr_source g2 = ''google''" "hr_stats h2 = hr_stats (count_osrm_failure hr)"
    using get_google_in_range [OF Inr, of mode net now "count_osrm_failure hr"] by blast
  show ?thesis
  proof (cases "d \<le> 50")
    case True
    show ?thesis
    proof (cases "get_osrm_route net")
      case None
      with assms Inr True g2 show ?thesis
        by (auto simp: get_route_def route_urban_strategy_def successful_def count_osrm_failure_def
            count_google_def calls_made_def Let_def)
    next
      case (Some x)
      with assms Inr True get_osrm_success [OF Some] show ?thesis
        by (auto simp: get_route_def route_urban_strategy_def successful_def count_osrm_def calls_made_def)
    qed
  next
    case False
    with assms Inr g show ?thesis
      by (auto simp: get_route_def route_intercity_strategy_def successful_def count_google_def calls_made_def)
  qed
qed

theorem get_route_sources_witness:
  "google_failures (hr_stats (snd (get_route (0, 0) (0, 0) ''walk''
     \<lparr>net_osrm_direct = Inl ConnectionError, net_osrm = (1, Inl ConnectionError), net_openroute = (1, Inl ConnectionError),
      net_api_key = None, net_elapsed_ms = 3\<rparr> 0
     \<lparr>hr_stats = new_routing_stats, hr_google_available = True, hr_cache = []\<rparr>))) = 0"
proof -
  let ?n = "\<lparr>net_osrm_direct = Inl ConnectionError, net_osrm = (1, Inl ConnectionError), net_openroute = (1, Inl ConnectionError),
      net_api_key = None, net_elapsed_ms = 3\<rparr>"
  let ?h = "\<lparr>hr_stats = new_routing_stats, hr_google_available = True, hr_cache = []\<rparr>"
  obtain r h where g: "get_route (0, 0) (0, 0) ''walk'' ?n 0 ?h = (r, h)" by fastforce
  from get_route_sources [OF g] g show ?thesis by (simp add: new_routing_stats_def)
qed

end
