(* ===== verification/RobustServices.thy ===== *)
theory RobustServices
  imports Coordinates CircuitBreakers Routing
begin

section \<open>Robust service wrappers and the distance cache of the optimiser\<close>

text \<open>
  The part of \<open>HybridOptimizerV31\<close> (src/utils/hybrid\_optimizer\_v31.py) between the
  planning algorithms and the external services: three retry loops behind circuit breakers,
  their fallbacks, the two cached routing entry points with the distance cache, the batch
  operations, and the lazily loaded suggestions.  Services answer through parameters: the
  outcome of each attempt.  The clock advances by the duration of the attempts and the
  back-off sleeps.  Persisting the cache to a file does not change the state and is left out.
\<close>

record placeholder =
  ph_day_number :: int
  ph_location :: coord
  ph_duration_minutes :: int
  ph_status :: string
  ph_created_at :: real
  ph_loaded_at :: "real option"

record optimizer =
  routing_breaker :: breaker
  places_breaker :: breaker
  distance_cache :: "(cache_key, pydict) dict"
  cache_hits :: int
  cache_misses :: int
  lazy_placeholders :: "(string, placeholder) dict"

definition MAX_RETRIES :: nat where
  "MAX_RETRIES = 3"

definition new_optimizer :: optimizer where
  "new_optimizer =
     \<lparr>routing_breaker = new_breaker 3 15 60, places_breaker = new_breaker 5 20 120,
      distance_cache = [], cache_hits = 0, cache_misses = 0, lazy_placeholders = []\<rparr>"

definition o_acute :: string where
  "o_acute = [char_of (195::nat), char_of (179::nat)]"

definition no_address :: string where
  "no_address = ''Direcci'' @ o_acute @ ''n no disponible''"

subsection \<open>Fallbacks\<close>

definition emergency_routing_fallback :: "coord \<Rightarrow> coord \<Rightarrow> string \<Rightarrow> pydict res" where
  "emergency_routing_fallback origin destination mode =
     rbind (coord_km origin destination) (\<lambda>distance_km.
     let speed = speed_of [(''walk'', 4), (''bicycle'', 15), (''drive'', 30), (''transit'', 20)] mode 4;
         duration_minutes = py_trunc (distance_km / speed * 60)
     in Inr [(''duration_minutes'', VInt (max duration_minutes 5)), (''distance_km'', VFloat distance_km),
             (''fallback_used'', VBool True), (''fallback_reason'', VStr ''routing_service_unavailable'')])"

text \<open>The keyword arguments the fallbacks read; \<open>None\<close> is an absent argument.\<close>

record place_kwargs =
  pk_type :: "string option"
  pk_types :: "string list option"

definition kw_type :: "place_kwargs \<Rightarrow> string" where
  "kw_type kw = (case pk_type kw of None \<Rightarrow> ''point_of_interest'' | Some t \<Rightarrow> t)"

definition emergency_places_fallback :: "real \<Rightarrow> real \<Rightarrow> place_kwargs \<Rightarrow> pydict list" where
  "emergency_places_fallback lat lon kw =
     map (\<lambda>i. [(''name'', VStr (''Lugar '' @ show_nat (i + 1))),
               (''lat'', VFloat (lat + (real i - 1) * (5/1000))), (''lon'', VFloat (lon + (real i - 1) * (5/1000))),
               (''type'', VStr (kw_type kw)), (''rating'', VFloat 4), (''fallback_generated'', VBool True),
               (''address'', VStr no_address),
               (''place_id'', VStr (''fallback_'' @ show_float lat @ ''_'' @ show_float lon @ ''_'' @ show_nat i))])
       [0..<3]"

definition synthetic_templates :: "(string \<times> string list) list" where
  "synthetic_templates =
     [(''restaurant'', [''Restaurante local'', ''Caf'' @ [char_of (195::nat), char_of (169::nat)],
                        ''Comida r'' @ [char_of (195::nat), char_of (161::nat)] @ ''pida'']),
      (''tourist_attraction'', [''Sitio hist'' @ o_acute @ ''rico'', ''Mirador'', ''Plaza'']),
      (''lodging'', [''Hotel'', ''Hostal'', ''Casa de hu'' @ [char_of (195::nat), char_of (169::nat)] @ ''spedes'']),
      (''point_of_interest'', [''Lugar de inter'' @ [char_of (195::nat), char_of (169::nat)] @ ''s'',
                               ''Centro comercial'', ''Parque''])]"

definition synthetic_places_fallback :: "real \<Rightarrow> real \<Rightarrow> real \<Rightarrow> place_kwargs \<Rightarrow> pydict list" where
  "synthetic_places_fallback now lat lon kw =
     (let types = (case pk_types kw of None \<Rightarrow> [kw_type kw] | Some ts \<Rightarrow> ts);
          primary_type = (case types of [] \<Rightarrow> kw_type kw | t # _ \<Rightarrow> t);
          templates = (case map_of synthetic_templates primary_type of
                         Some ts \<Rightarrow> ts | None \<Rightarrow> the (map_of synthetic_templates ''point_of_interest''))
      in map (\<lambda>(i, template).
             [(''name'', VStr template),
              (''lat'', VFloat (lat + (real i - 1) * (3/1000))), (''lon'', VFloat (lon + (real i - 1) * (3/1000))),
              (''type'', VStr primary_type), (''rating'', VFloat (4 + real i * (1/10))), (''synthetic'', VBool True),
              (''address'', VStr no_address),
              (''place_id'', VStr (''synthetic_'' @ primary_type @ ''_'' @ show_nat i @ ''_'' @ show_int (py_trunc now)))])
           (zip [0..<length templates] templates))"

subsection \<open>The retry loop\<close>

text \<open>How long a call through the breaker takes.\<close>

definition call_elapsed :: "real \<Rightarrow> 'a outcome \<Rightarrow> breaker \<Rightarrow> real" where
  "call_elapsed now out b =
     (case is_open now b of
        Inr (False, b') \<Rightarrow> fst (wait_for (call_timeout b') out)
      | _ \<Rightarrow> 0)"

text \<open>
  The loop the three wrappers share: \<open>step\<close> is one attempt (its answer, the time after it, the
  breaker); an exception that \<open>final\<close> accepts ends the loop at once, any other is retried
  after \<open>backoff_factor ** attempt\<close> seconds while attempts are left.
\<close>

fun retry_loop ::
  "(nat \<Rightarrow> real \<Rightarrow> breaker \<Rightarrow> 'a res \<times> real \<times> breaker) \<Rightarrow> (py_error \<Rightarrow> bool) \<Rightarrow> nat \<Rightarrow> nat \<Rightarrow> real \<Rightarrow> breaker \<Rightarrow>
   'a res \<times> real \<times> breaker" where
  "retry_loop step final left attempt now b =
     (case step attempt now b of
        (Inr v, now', b') \<Rightarrow> (Inr v, now', b')
      | (Inl e, now', b') \<Rightarrow>
          if final e then (Inl e, now', b')
          else (case left of
                  0 \<Rightarrow> (Inl e, now', b')
                | Suc left' \<Rightarrow> retry_loop step final left' (Suc attempt) (now' + 2 ^ attempt) b'))"

declare retry_loop.simps [simp del]

text \<open>The answers of the routing backend, one outcome per attempt.\<close>

datatype routing_backend =
    HybridBackend "nat \<Rightarrow> routing_result option outcome"
  | FreeBackend "nat \<Rightarrow> pydict outcome"

definition routing_result_dict :: "routing_result \<Rightarrow> pydict" where
  "routing_result_dict r =
     [(''distance_km'', VFloat (rr_distance_km r)), (''duration_minutes'', VFloat (rr_duration_minutes r)),
      (''processing_time_ms'', VFloat (rr_processing_time_ms r)), (''source'', VStr (rr_source r)),
      (''confidence'', VFloat (rr_confidence r))]"

fun routing_attempt :: "routing_backend \<Rightarrow> nat \<Rightarrow> real \<Rightarrow> breaker \<Rightarrow> pydict res \<times> real \<times> breaker" where
  "routing_attempt (HybridBackend f) attempt now b =
     (let (r, b') = call now (f attempt) b
      in (rbind r (\<lambda>res. case successful res of
                      Some x \<Rightarrow> Inr (routing_result_dict x)
                    | None \<Rightarrow> Inl (OtherError ''HybridRoutingService returned unsuccessful result'')),
          now + call_elapsed now (f attempt) b, b'))"
| "routing_attempt (FreeBackend f) attempt now b =
     (let (r, b') = call now (f attempt) b in (r, now + call_elapsed now (f attempt) b, b'))"

definition routing_service_robust ::
  "routing_backend \<Rightarrow> coord \<Rightarrow> coord \<Rightarrow> string \<Rightarrow> real \<Rightarrow> optimizer \<Rightarrow> pydict res \<times> real \<times> optimizer" where
  "routing_service_robust backend origin destination mode now s =
     (case retry_loop (routing_attempt backend) (\<lambda>e. e = CircuitOpen) MAX_RETRIES 0 now (routing_breaker s) of
        (Inr v, now', b') \<Rightarrow> (Inr v, now', s\<lparr>routing_breaker := b'\<rparr>)
      | (Inl e, now', b') \<Rightarrow>
          (emergency_routing_fallback origin destination mode, now', s\<lparr>routing_breaker := b'\<rparr>))"

definition places_attempt ::
  "(nat \<Rightarrow> pydict list outcome) \<Rightarrow> nat \<Rightarrow> real \<Rightarrow> breaker \<Rightarrow> pydict list res \<times> real \<times> breaker" where
  "places_attempt f attempt now b =
     (let (r, b') = call now (f attempt) b in (r, now + call_elapsed now (f attempt) b, b'))"

definition places_service_robust ::
  "(nat \<Rightarrow> pydict list outcome) \<Rightarrow> real \<Rightarrow> real \<Rightarrow> place_kwargs \<Rightarrow> real \<Rightarrow> optimizer \<Rightarrow>
   pydict list \<times> real \<times> optimizer" where
  "places_service_robust svc lat lon kw now s =
     (case retry_loop (places_attempt svc) (\<lambda>e. e = CircuitOpen \<or> e = QuotaExceeded) MAX_RETRIES 0 now (places_breaker s) of
        (Inr v, now', b') \<Rightarrow> (v, now', s\<lparr>places_breaker := b'\<rparr>)
      | (Inl e, now', b') \<Rightarrow>
          ((if e = QuotaExceeded then synthetic_places_fallback now' lat lon kw
            else emergency_places_fallback lat lon kw), now', s\<lparr>places_breaker := b'\<rparr>))"

definition places_service_real_robust ::
  "(nat \<Rightarrow> pydict list outcome) \<Rightarrow> real \<Rightarrow> real \<Rightarrow> place_kwargs \<Rightarrow> real \<Rightarrow> optimizer \<Rightarrow>
   pydict list \<times> real \<times> optimizer" where
  "places_service_real_robust svc lat lon kw now s =
     (case retry_loop (places_attempt svc) (\<lambda>e. e = CircuitOpen \<or> e = QuotaExceeded) MAX_RETRIES 0 now (places_breaker s) of
        (Inr v, now', b') \<Rightarrow> (v, now', s\<lparr>places_breaker := b'\<rparr>)
      | (Inl e, now', b') \<Rightarrow> (synthetic_places_fallback now' lat lon kw, now', s\<lparr>places_breaker := b'\<rparr>))"

subsection \<open>Cached routing\<close>

definition positive_duration :: "pydict \<Rightarrow> bool res" where
  "positive_duration r =
     (if r = [] then Inr False
      else rbind (need_num (dget r ''duration_minutes'' (VInt 0))) (\<lambda>d. Inr (d > 0)))"

definition mode_mapping :: "string \<Rightarrow> string" where
  "mode_mapping mode =
     (case map_of [(''walk'', ''walk''), (''walking'', ''walk''), (''drive'', ''drive''), (''driving'', ''drive''),
                   (''bike'', ''bike''), (''bicycle'', ''bike'')] mode of
        None \<Rightarrow> ''walk'' | Some m \<Rightarrow> m)"

text \<open>
  The attempt on the multi-modal router: \<open>Inl\<close> when it raises or fails, with the state left by
  then (the entry is stored before a debug message formats the distance, which may raise).
\<close>

definition multimodal_attempt ::
  "cache_key \<Rightarrow> string \<Rightarrow> pydict option res \<Rightarrow> optimizer \<Rightarrow> pydict option \<times> optimizer" where
  "multimodal_attempt key mode answer s =
     (case answer of
        Inr (Some route_result) \<Rightarrow>
          (if route_result \<noteq> [] \<and> truthy (dget route_result ''success'' (VBool False)) then
             (let result = [(''distance_km'', dget route_result ''distance_km'' (VInt 0)),
                            (''duration_minutes'', dget route_result ''duration_minutes'' (VInt 0)),
                            (''source'', VStr (''multimodal_router_'' @ mode_mapping mode)),
                            (''route_info'', dget route_result ''route_info'' (VDict [])),
                            (''cache_hit'', VBool False)]
              in case positive_duration result of
                   Inl e \<Rightarrow> (None, s)
                 | Inr False \<Rightarrow> (Some result, s\<lparr>cache_misses := cache_misses s + 1\<rparr>)
                 | Inr True \<Rightarrow>
                     (let s1 = s\<lparr>distance_cache := dset key result (distance_cache s)\<rparr>
                      in case need_num (dget result ''distance_km'' (VInt 0)) of
                           Inl e \<Rightarrow> (None, s1)
                         | Inr _ \<Rightarrow> (Some result, s1\<lparr>cache_misses := cache_misses s1 + 1\<rparr>)))
           else (None, s))
      | _ \<Rightarrow> (None, s))"

definition evict :: "(cache_key, pydict) dict \<Rightarrow> (cache_key, pydict) dict" where
  "evict c = (if length c > 1000 then drop 200 c else c)"

definition routing_service_cached ::
  "routing_backend \<Rightarrow> pydict option res option \<Rightarrow> coord \<Rightarrow> coord \<Rightarrow> string \<Rightarrow> real \<Rightarrow> optimizer \<Rightarrow> pydict res \<times> optimizer" where
  "routing_service_cached backend router origin destination mode now s =
     (let key = get_cache_key (fst origin) (snd origin) (fst destination) (snd destination) mode in
      case map_of (distance_cache s) key of
        Some entry \<Rightarrow>
          (Inr (dset ''cache_hit'' (VBool True) entry), s\<lparr>cache_hits := cache_hits s + 1\<rparr>)
      | None \<Rightarrow>
          (let (answered, s1) = (case router of None \<Rightarrow> (None, s) | Some a \<Rightarrow> multimodal_attempt key mode a s) in
           case answered of
             Some result \<Rightarrow> (Inr result, s1)
           | None \<Rightarrow>
               (let s2 = s1\<lparr>cache_misses := cache_misses s1 + 1\<rparr>;
                    (r, now', s3) = routing_service_robust backend origin destination mode now s2 in
                case r of
                  Inl e \<Rightarrow> (Inl e, s3)
                | Inr result \<Rightarrow>
                    (case positive_duration result of
                       Inl e \<Rightarrow> (Inl e, s3)
                     | Inr pos \<Rightarrow>
                         (Inr (dset ''cache_hit'' (VBool False) result),
                          if pos then s3\<lparr>distance_cache := evict (dset key result (distance_cache s3))\<rparr> else s3)))))"

definition routing_service_persistent_cached ::
  "routing_backend \<Rightarrow> coord \<Rightarrow> coord \<Rightarrow> string \<Rightarrow> real \<Rightarrow> optimizer \<Rightarrow> pydict res \<times> optimizer" where
  "routing_service_persistent_cached backend origin destination mode now s =
     (let key = get_cache_key (fst origin) (snd origin) (fst destination) (snd destination) mode in
      case map_of (distance_cache s) key of
        Some entry \<Rightarrow>
          (Inr (dset ''persistent_cache'' (VBool True) (dset ''cache_hit'' (VBool True) entry)),
           s\<lparr>cache_hits := cache_hits s + 1\<rparr>)
      | None \<Rightarrow>
          (let s2 = s\<lparr>cache_misses := cache_misses s + 1\<rparr>;
               (r, now', s3) = routing_service_robust backend origin destination mode now s2 in
           case r of
             Inl e \<Rightarrow> (Inl e, s3)
           | Inr result \<Rightarrow>
               (case positive_duration result of
                  Inl e \<Rightarrow> (Inl e, s3)
                | Inr pos \<Rightarrow>
                    (let stamped = (if pos then dset ''timestamp'' (VFloat now') result else result)
                     in (Inr (dset ''persistent_cache'' (VBool True) (dset ''cache_hit'' (VBool False) stamped)),
                         if pos then s3\<lparr>distance_cache := dset key stamped (distance_cache s3)\<rparr> else s3)))))"

definition get_cache_stats :: "optimizer \<Rightarrow> int \<times> int \<times> real \<times> nat \<times> int" where
  "get_cache_stats s =
     (let total_requests = cache_hits s + cache_misses s;
          hit_rate = (if total_requests > 0 then real_of_int (cache_hits s) / real_of_int total_requests * 100 else 0)
      in (cache_hits s, cache_misses s, py_round 2 hit_rate, length (distance_cache s), total_requests))"

text \<open>
  Dropping entries older than \<open>max_age_days\<close>: an entry without a timestamp counts as new and one
  whose timestamp cannot be read is kept.  \<open>fromisoformat\<close> is the parser of \<open>datetime\<close>.
\<close>

definition entry_expired :: "(string \<Rightarrow> real res) \<Rightarrow> real \<Rightarrow> int \<Rightarrow> pydict \<Rightarrow> bool" where
  "entry_expired fromisoformat now max_age_days v =
     (case (case dget v ''timestamp'' (VFloat now) of VStr t \<Rightarrow> fromisoformat t | t \<Rightarrow> need_num t) of
        Inl e \<Rightarrow> False
      | Inr t \<Rightarrow> now - t > real_of_int (max_age_days * 24 * 3600))"

definition cleanup_old_cache_entries ::
  "(string \<Rightarrow> real res) \<Rightarrow> real \<Rightarrow> int \<Rightarrow> optimizer \<Rightarrow> nat \<times> optimizer" where
  "cleanup_old_cache_entries fromisoformat now max_age_days s =
     (if distance_cache s = [] then (0, s)
      else (length (filter (\<lambda>(k, v). entry_expired fromisoformat now max_age_days v) (distance_cache s)),
            s\<lparr>distance_cache := filter (\<lambda>(k, v). \<not> entry_expired fromisoformat now max_age_days v) (distance_cache s)\<rparr>))"

subsection \<open>Batches\<close>

text \<open>
  The answers of the tasks of a batch are parameters, so this covers every schedule of the
  concurrent tasks: \<open>gather\<close> keeps the order of its arguments, and an exception becomes the
  value of its task.
\<close>

definition throttled_places_search :: "'a list res \<Rightarrow> 'a list" where
  "throttled_places_search r = (case r of Inl e \<Rightarrow> [] | Inr ps \<Rightarrow> ps)"

fun batch_loop :: "('l \<Rightarrow> 'a list res) \<Rightarrow> 'l list list \<Rightarrow> 'a list list" where
  "batch_loop search [] = []"
| "batch_loop search (batch # batches) =
     map (\<lambda>l. throttled_places_search (search l)) batch @ batch_loop search batches"

definition batch_places_search :: "nat \<Rightarrow> ('l \<Rightarrow> 'a list res) \<Rightarrow> 'l list \<Rightarrow> 'a list list" where
  "batch_places_search batch_size search locations =
     (if locations = [] then [] else batch_loop search (chunks batch_size locations))"

type_synonym route_pair = "coord \<times> coord \<times> string"

definition fallback_route :: "route_pair \<Rightarrow> pydict res" where
  "fallback_route pair = (case pair of (origin, destination, mode) \<Rightarrow> emergency_routing_fallback origin destination mode)"

definition parallel_routing_calculations :: "(route_pair \<Rightarrow> pydict res) \<Rightarrow> route_pair list \<Rightarrow> pydict list res" where
  "parallel_routing_calculations route pairs =
     (if pairs = [] then Inr []
      else or_else (rmap_list (\<lambda>p. case route p of Inl e \<Rightarrow> fallback_route p | Inr r \<Rightarrow> Inr r) pairs)
             (rmap_list fallback_route pairs))"

subsection \<open>Lazy suggestions\<close>

definition placeholder_suggestions :: "coord \<Rightarrow> pydict list" where
  "placeholder_suggestions loc =
     [[(''name'', VStr ''Explorar la zona local''), (''lat'', VFloat (fst loc + 1/1000)),
       (''lon'', VFloat (snd loc + 1/1000)), (''type'', VStr ''point_of_interest''), (''rating'', VFloat 4),
       (''placeholder'', VBool True)],
      [(''name'', VStr ''Encontrar restaurante cercano''), (''lat'', VFloat (fst loc - 1/1000)),
       (''lon'', VFloat (snd loc - 1/1000)), (''type'', VStr ''restaurant''), (''rating'', VFloat 4),
       (''placeholder'', VBool True)]]"

datatype suggestions =
    Immediate "pydict list" int \<comment> \<open>top three, hours\<close>
  | Deferred string placeholder
  | Loaded "pydict list" int string \<comment> \<open>suggestions, day, placeholder id\<close>

definition placeholder_id :: "int \<Rightarrow> string" where
  "placeholder_id day = ''day_'' @ show_int day @ ''_placeholder''"

definition immediate_kwargs :: place_kwargs where
  "immediate_kwargs = \<lparr>pk_type = None, pk_types = Some [''tourist_attraction'', ''restaurant'', ''point_of_interest'']\<rparr>"

definition deferred_kwargs :: place_kwargs where
  "deferred_kwargs = \<lparr>pk_type = None, pk_types = Some [''tourist_attraction'', ''restaurant'', ''museum'', ''park'']\<rparr>"

definition generate_suggestions_lazy ::
  "(nat \<Rightarrow> pydict list outcome) \<Rightarrow> int \<Rightarrow> coord \<Rightarrow> int \<Rightarrow> real \<Rightarrow> optimizer \<Rightarrow> suggestions \<times> optimizer" where
  "generate_suggestions_lazy svc day_number location duration_minutes now s =
     (if day_number \<le> 3 then
        (let (ps, now', s') = places_service_robust svc (fst location) (snd location) immediate_kwargs now s
         in (Immediate (take 3 ps) (duration_minutes div 60), s'))
      else
        (let pid = placeholder_id day_number;
             ph = \<lparr>ph_day_number = day_number, ph_location = location, ph_duration_minutes = duration_minutes,
                   ph_status = ''pending'', ph_created_at = now, ph_loaded_at = None\<rparr>
         in (Deferred pid ph, s\<lparr>lazy_placeholders := dset pid ph (lazy_placeholders s)\<rparr>)))"

definition load_lazy_suggestions ::
  "(nat \<Rightarrow> pydict list outcome) \<Rightarrow> string \<Rightarrow> real \<Rightarrow> optimizer \<Rightarrow> suggestions option \<times> optimizer" where
  "load_lazy_suggestions svc pid now s =
     (case map_of (lazy_placeholders s) pid of
        None \<Rightarrow> (None, s)
      | Some ph \<Rightarrow>
          (let (ps, now', s') = places_service_robust svc (fst (ph_location ph)) (snd (ph_location ph)) deferred_kwargs now s
           in (Some (Loaded ps (ph_day_number ph) pid),
               s'\<lparr>lazy_placeholders := dset pid (ph\<lparr>ph_status := ''loaded'', ph_loaded_at := Some now'\<rparr>) (lazy_placeholders s')\<rparr>)))"

subsection \<open>Lemmas\<close>

fun backend_answer :: "routing_backend \<Rightarrow> nat \<Rightarrow> pydict \<Rightarrow> bool" where
  "backend_answer (HybridBackend f) i v \<longleftrightarrow>
     (\<exists>x. snd (f i) = Inr (Some x) \<and> rr_success x \<and> v = routing_result_dict x)"
| "backend_answer (FreeBackend f) i v \<longleftrightarrow> snd (f i) = Inr v"

lemma call_Inr: "call now out b = (Inr v, b') \<Longrightarrow> snd out = Inr v"
  by (cases out) (auto simp: call_def split: sum.splits bool.splits prod.splits if_splits)

lemma routing_attempt_answer:
  "routing_attempt backend i now b = (Inr v, now', b') \<Longrightarrow> backend_answer backend i v"
proof (cases backend)
  case (HybridBackend f)
  assume "routing_attempt backend i now b = (Inr v, now', b')"
  with HybridBackend obtain r x where "call now (f i) b = (Inr r, b')" "successful r = Some x" "v = routing_result_dict x"
    by (auto simp: rbind_eq_Inr_iff split: prod.splits option.splits)
  then show ?thesis
    using HybridBackend call_Inr [of now "f i" b r b'] by (auto simp: successful_def split: option.splits if_splits)
next
  case (FreeBackend f)
  assume "routing_attempt backend i now b = (Inr v, now', b')"
  with FreeBackend call_Inr [of now "f i" b v b'] show ?thesis by (auto split: prod.splits)
qed

lemma retry_loop_answer:
  assumes "retry_loop step fin left i now b = (Inr v, now', b')"
  shows "\<exists>j t bt t' bt'. i \<le> j \<and> j \<le> i + left \<and> step j t bt = (Inr v, t', bt')"
  using assms
proof (induction left arbitrary: i now b)
  case 0
  then show ?case
    by (subst (asm) retry_loop.simps) (auto split: prod.splits sum.splits if_splits intro!: exI [of _ i])
next
  case (Suc left)
  obtain r t1 b1 where s: "step i now b = (r, t1, b1)" by (cases "step i now b") auto
  show ?case
  proof (cases r)
    case (Inr w)
    with Suc.prems s have "w = v" by (subst (asm) retry_loop.simps) simp
    with s Inr show ?thesis by (metis le_add1 order_refl)
  next
    case (Inl e)
    with Suc.prems s have "retry_loop step fin left (Suc i) (t1 + 2 ^ i) b1 = (Inr v, now', b')"
      by (subst (asm) retry_loop.simps) (simp split: if_splits)
    from Suc.IH [OF this] show ?thesis
      by (metis Suc_leD add_Suc add_Suc_right)
  qed
qed

lemma routing_service_robust_cases:
  assumes "routing_service_robust backend p q mode now s = (r, now', s')"
  shows "((\<exists>i v. i \<le> MAX_RETRIES \<and> r = Inr v \<and> backend_answer backend i v) \<or> r = emergency_routing_fallback p q mode) \<and>
    distance_cache s' = distance_cache s \<and> cache_hits s' = cache_hits s \<and> cache_misses s' = cache_misses s"
proof -
  obtain r0 t b where l: "retry_loop (routing_attempt backend) (\<lambda>e. e = CircuitOpen) MAX_RETRIES 0 now (routing_breaker s) = (r0, t, b)"
    by (cases "retry_loop (routing_attempt backend) (\<lambda>e. e = CircuitOpen) MAX_RETRIES 0 now (routing_breaker s)") auto
  show ?thesis
  proof (cases r0)
    case (Inl e)
    with l assms show ?thesis by (auto simp: routing_service_robust_def)
  next
    case (Inr v)
    from retry_loop_answer [OF l [unfolded Inr]] obtain j where "j \<le> MAX_RETRIES" "backend_answer backend j v"
      using routing_attempt_answer by fastforce
    with Inr l assms show ?thesis by (auto simp: routing_service_robust_def)
  qed
qed

text \<open>A failing attempt on a CLOSED breaker below its threshold.\<close>

definition attempt_fails :: "routing_backend \<Rightarrow> nat \<Rightarrow> bool" where
  "attempt_fails backend i =
     (case backend of
        HybridBackend f \<Rightarrow> (\<exists>e. snd (wait_for 15 (f i)) = Inl e \<and> e \<noteq> CircuitOpen)
      | FreeBackend f \<Rightarrow> (\<exists>e. snd (wait_for 15 (f i)) = Inl e \<and> e \<noteq> CircuitOpen))"

lemma attempt_failure:
  assumes "attempt_fails backend i" "state b \<noteq> OPEN" "call_timeout b = 15"
  shows "\<exists>e t. routing_attempt backend i now b = (Inl e, t, record_failure t b) \<and> e \<noteq> CircuitOpen"
proof (cases backend)
  case (HybridBackend f)
  then obtain d e where "wait_for 15 (f i) = (d, Inl e)" "e \<noteq> CircuitOpen"
    using assms(1) by (cases "wait_for 15 (f i)") (auto simp: attempt_fails_def)
  with assms(2,3) HybridBackend show ?thesis by (auto simp: call_def is_open_def call_elapsed_def)
next
  case (FreeBackend f)
  then obtain d e where "wait_for 15 (f i) = (d, Inl e)" "e \<noteq> CircuitOpen"
    using assms(1) by (cases "wait_for 15 (f i)") (auto simp: attempt_fails_def)
  with assms(2,3) FreeBackend show ?thesis by (auto simp: call_def is_open_def call_elapsed_def)
qed

lemma attempt_rejected:
  assumes "state b = OPEN" "last_failure_time b = Some t" "now - t \<le> recovery_timeout b"
  shows "routing_attempt backend i now b = (Inl CircuitOpen, now, b)"
  using assms by (cases backend) (auto simp: call_def is_open_def call_elapsed_def)

lemma retry_step:
  assumes "step i now b = (Inl e, t, b')" "\<not> fin e"
  shows "retry_loop step fin (Suc left) i now b = retry_loop step fin left (Suc i) (t + 2 ^ i) b'"
  using assms by (subst retry_loop.simps) simp

lemma retry_stop:
  assumes "step i now b = (Inl e, t, b')" "fin e"
  shows "retry_loop step fin left i now b = (Inl e, t, b')"
  using assms by (subst retry_loop.simps) simp

lemma routing_outage_loop:
  assumes "attempt_fails backend 0" "attempt_fails backend 1" "attempt_fails backend 2"
  shows "\<exists>t. retry_loop (routing_attempt backend) (\<lambda>e. e = CircuitOpen) MAX_RETRIES 0 now (new_breaker 3 15 60) =
    (Inl CircuitOpen, t + 4, \<lparr>failure_threshold = 3, call_timeout = 15, recovery_timeout = 60, failure_count = 3,
      last_failure_time = Some t, state = OPEN\<rparr>)"
proof -
  let ?b = "\<lambda>n l st. \<lparr>failure_threshold = 3, call_timeout = 15, recovery_timeout = 60, failure_count = n,
      last_failure_time = l, state = st\<rparr>"
  let ?loop = "retry_loop (routing_attempt backend) (\<lambda>e. e = CircuitOpen)"
  have nb: "new_breaker 3 15 60 = ?b 0 None CLOSED" by (simp add: new_breaker_def)
  obtain e0 t0 where a0: "routing_attempt backend 0 now (?b 0 None CLOSED) = (Inl e0, t0, ?b 1 (Some t0) CLOSED)" "e0 \<noteq> CircuitOpen"
    using attempt_failure [OF assms(1), of "?b 0 None CLOSED" now] by (auto simp: record_failure_def Let_def)
  obtain e1 t1 where a1: "routing_attempt backend 1 (t0 + 1) (?b 1 (Some t0) CLOSED) = (Inl e1, t1, ?b 2 (Some t1) CLOSED)" "e1 \<noteq> CircuitOpen"
    using attempt_failure [OF assms(2), of "?b 1 (Some t0) CLOSED" "t0 + 1"] by (auto simp: record_failure_def Let_def)
  obtain e2 t2 where a2: "routing_attempt backend 2 (t1 + 2) (?b 2 (Some t1) CLOSED) = (Inl e2, t2, ?b 3 (Some t2) OPEN)" "e2 \<noteq> CircuitOpen"
    using attempt_failure [OF assms(3), of "?b 2 (Some t1) CLOSED" "t1 + 2"] by (auto simp: record_failure_def Let_def)
  have a3: "routing_attempt backend 3 (t2 + 4) (?b 3 (Some t2) OPEN) = (Inl CircuitOpen, t2 + 4, ?b 3 (Some t2) OPEN)"
    by (rule attempt_rejected [where t = t2]) simp_all
  have "?loop 3 0 now (?b 0 None CLOSED) = ?loop 2 1 (t0 + 1) (?b 1 (Some t0) CLOSED)"
    using retry_step [where step = "routing_attempt backend" and fin = "\<lambda>e. e = CircuitOpen" and left = 2, OF a0(1)] a0(2) by (simp add: numeral_3_eq_3 numeral_2_eq_2)
  also have "\<dots> = ?loop 1 2 (t1 + 2) (?b 2 (Some t1) CLOSED)"
    using retry_step [where step = "routing_attempt backend" and fin = "\<lambda>e. e = CircuitOpen" and left = 1, OF a1(1)] a1(2) by (simp add: numeral_2_eq_2)
  also have "\<dots> = ?loop 0 3 (t2 + 4) (?b 3 (Some t2) OPEN)"
    using retry_step [where step = "routing_attempt backend" and fin = "\<lambda>e. e = CircuitOpen" and left = 0, OF a2(1)] a2(2) by (simp add: numeral_3_eq_3 numeral_2_eq_2)
  also have "\<dots> = (Inl CircuitOpen, t2 + 4, ?b 3 (Some t2) OPEN)"
    by (rule retry_stop [where step = "routing_attempt backend" and fin = "\<lambda>e. e = CircuitOpen", OF a3]) simp
  finally show ?thesis unfolding nb MAX_RETRIES_def by (auto simp: numeral_3_eq_3)
qed

lemma drop_last_key:
  assumes "is_dict d" "d = d0 @ [(k, v)]" "n < length d"
  shows "map_of (drop n d) k = Some v"
proof -
  have "drop n d = drop n d0 @ [(k, v)]" using assms(2,3) by simp
  moreover have "k \<notin> fst ` set (drop n d0)"
    using assms(1,2) set_drop_subset [of n d0] by (auto simp: is_dict_def)
  ultimately show ?thesis by (simp add: map_add_Some_iff map_of_eq_None_iff)
qed

lemma evict_last:
  assumes "is_dict d" "d = d0 @ [(k, v)]"
  shows "map_of (evict d) k = Some v"
proof (cases "length d > 1000")
  case True
  then show ?thesis using drop_last_key [OF assms, of 200] by (simp add: evict_def)
next
  case False
  with assms show ?thesis using drop_last_key [OF assms, of 0] by (simp add: evict_def)
qed

lemma dset_new: "map_of d k = None \<Longrightarrow> dset k v d = d @ [(k, v)]"
  by (induction d) (auto split: if_splits)

lemma dset_overwrite_last: "map_of d k = None \<Longrightarrow> dset k v (d @ [(k, w)]) = d @ [(k, v)]"
  by (induction d) (auto split: if_splits)

lemma length_evict: "length d \<le> 1001 \<Longrightarrow> length (evict d) \<le> 1000"
  by (auto simp: evict_def)

lemma length_evict_max: "length d \<le> n + 1 \<Longrightarrow> length (evict d) \<le> max 1000 n"
  by (auto simp: evict_def)

lemma is_dict_evict: "is_dict d \<Longrightarrow> is_dict (evict d)"
  by (simp add: evict_def is_dict_drop)

lemma multimodal_cache:
  assumes "multimodal_attempt key mode a s = (ans, s1)"
  shows "(distance_cache s1 = distance_cache s \<or> (\<exists>v. distance_cache s1 = dset key v (distance_cache s))) \<and>
    (ans = None \<longrightarrow> cache_misses s1 = cache_misses s) \<and>
    (\<forall>r. ans = Some r \<longrightarrow> cache_misses s1 = cache_misses s + 1 \<and>
       (positive_duration r = Inr True \<longrightarrow> map_of (distance_cache s1) key = Some r)) \<and>
    cache_hits s1 = cache_hits s \<and> routing_breaker s1 = routing_breaker s"
  using assms
  by (auto simp: multimodal_attempt_def Let_def split: sum.splits option.splits bool.splits if_splits)

text \<open>A miss answered by the robust service.\<close>

lemma cached_miss_cases:
  assumes "routing_service_cached backend router p q mode now s = (Inr v, s')"
    and "map_of (distance_cache s) (get_cache_key (fst p) (snd p) (fst q) (snd q) mode) = None"
  obtains (router) "router \<noteq> None"
      "positive_duration v = Inr True \<longrightarrow> map_of (distance_cache s') (get_cache_key (fst p) (snd p) (fst q) (snd q) mode) = Some v"
      "cache_misses s' = cache_misses s + 1" "cache_hits s' = cache_hits s"
  | (robust) r c pos where "v = dset ''cache_hit'' (VBool False) r" "positive_duration r = Inr pos"
      "c = distance_cache s \<or> router \<noteq> None \<and> (\<exists>w. c = dset (get_cache_key (fst p) (snd p) (fst q) (snd q) mode) w (distance_cache s))"
      "distance_cache s' = (if pos then evict (dset (get_cache_key (fst p) (snd p) (fst q) (snd q) mode) r c) else c)"
      "cache_misses s' = cache_misses s + 1" "cache_hits s' = cache_hits s"
proof -
  define key where "key = get_cache_key (fst p) (snd p) (fst q) (snd q) mode"
  obtain ans s1 where m: "(case router of None \<Rightarrow> (None, s) | Some a \<Rightarrow> multimodal_attempt key mode a s) = (ans, s1)"
    by fastforce
  have s1: "(distance_cache s1 = distance_cache s \<or> router \<noteq> None \<and> (\<exists>w. distance_cache s1 = dset key w (distance_cache s))) \<and>
    (ans = None \<longrightarrow> cache_misses s1 = cache_misses s) \<and> cache_hits s1 = cache_hits s \<and>
    (\<forall>r. ans = Some r \<longrightarrow> router \<noteq> None \<and> cache_misses s1 = cache_misses s + 1 \<and>
       (positive_duration r = Inr True \<longrightarrow> map_of (distance_cache s1) key = Some r))"
  proof (cases router)
    case None
    with m show ?thesis by auto
  next
    case (Some a)
    with m have "multimodal_attempt key mode a s = (ans, s1)" by simp
    from multimodal_cache [OF this] Some show ?thesis by blast
  qed
  show thesis
  proof (cases ans)
    case (Some r)
    with assms m have "v = r" "s' = s1"
      by (simp_all add: routing_service_cached_def key_def [symmetric] Let_def)
    with Some s1 router show thesis by (simp add: key_def)
  next
    case None
    define s2 where "s2 = s1\<lparr>cache_misses := cache_misses s1 + 1\<rparr>"
    obtain rr t s3 where rb: "routing_service_robust backend p q mode now s2 = (rr, t, s3)"
      by (cases "routing_service_robust backend p q mode now s2") auto
    note s3 = routing_service_robust_cases [OF rb]
    from assms m None rb obtain r pos where r: "rr = Inr r" "positive_duration r = Inr pos"
      "v = dset ''cache_hit'' (VBool False) r"
      "s' = (if pos then s3\<lparr>distance_cache := evict (dset key r (distance_cache s3))\<rparr> else s3)"
      by (auto simp: routing_service_cached_def key_def [symmetric] Let_def s2_def split: sum.splits prod.splits)
    show thesis
      by (rule robust [of r pos "distance_cache s1"])
        (use r s1 s3 None in \<open>auto simp: s2_def key_def\<close>)
  qed
qed

lemma positive_duration_cache_hit:
  "r \<noteq> [] \<Longrightarrow> positive_duration (dset ''cache_hit'' (VBool b) r) = positive_duration r"
  by (simp add: positive_duration_def dget_dset)

lemma positive_duration_nonempty: "positive_duration (dset ''cache_hit'' (VBool b) r) = Inr True \<Longrightarrow> r \<noteq> []"
  by (auto simp: positive_duration_def)

lemma cached_entry_present:
  assumes "routing_service_cached backend router p q mode now s = (Inr v, s')"
    and "positive_duration v = Inr True" "is_dict (distance_cache s)"
  shows "\<exists>w. map_of (distance_cache s') (get_cache_key (fst p) (snd p) (fst q) (snd q) mode) = Some w \<and>
    dset ''cache_hit'' (VBool True) w = dset ''cache_hit'' (VBool True) v"
proof (cases "map_of (distance_cache s) (get_cache_key (fst p) (snd p) (fst q) (snd q) mode)")
  case (Some w)
  with assms(1) have "v = dset ''cache_hit'' (VBool True) w" "s' = s\<lparr>cache_hits := cache_hits s + 1\<rparr>"
    by (simp_all add: routing_service_cached_def Let_def)
  with Some show ?thesis by simp
next
  case None
  define k where "k = get_cache_key (fst p) (snd p) (fst q) (snd q) mode"
  from assms(1) None show ?thesis
  proof (cases rule: cached_miss_cases)
    case router
    with assms(2) show ?thesis by auto
  next
    case (robust r c pos)
    have "r \<noteq> []" using positive_duration_nonempty assms(2) robust(1) by blast
    with robust(1,2) assms(2) have pos by (simp add: positive_duration_cache_hit)
    moreover have "\<exists>d0. dset k r c = d0 @ [(k, r)]"
      using robust(3) None dset_new dset_overwrite_last by (metis k_def)
    moreover have "is_dict (dset k r c)" using robust(3) assms(3) by auto
    ultimately have "map_of (distance_cache s') k = Some r"
      using evict_last robust(4) by (metis k_def)
    with robust(1) show ?thesis by (simp add: k_def)
  qed
qed

lemma batch_loop_map: "batch_loop search bs = map (\<lambda>l. throttled_places_search (search l)) (concat bs)"
  by (induction bs) auto

lemma rmap_list_ok_iff: "(\<exists>ys. rmap_list f xs = Inr ys) \<longleftrightarrow> (\<forall>x \<in> set xs. \<exists>y. f x = Inr y)"
  by (induction xs) (auto simp: rbind_eq_Inr_iff)

lemma places_service_robust_state:
  "places_service_robust svc lat lon kw now s = (ps, t, s') \<Longrightarrow> lazy_placeholders s' = lazy_placeholders s"
  by (auto simp: places_service_robust_def split: prod.splits sum.splits)

lemma show_int_inj: "show_int a = show_int b \<longleftrightarrow> a = b"
proof -
  have "show_nat n \<noteq> ''-'' @ t" for n t
  proof
    assume "show_nat n = ''-'' @ t"
    then have "CHR ''-'' \<in> set (show_nat n)" by simp
    with show_nat_digits [of n] digit_not_special show False by blast
  qed
  then show ?thesis by (auto simp: show_int_def show_nat_inj dest: sym)
qed

lemma placeholder_id_inj: "placeholder_id a = placeholder_id b \<longleftrightarrow> a = b"
  by (simp add: placeholder_id_def show_int_inj)

subsection \<open>Properties\<close>

text \<open>
  C15: the robust routing wrapper always returns within its four attempts: its answer is one that the
  backend gave at one of them or the emergency estimate, so it can only raise \<open>ValueError\<close>, only on
  coordinates out of range, and an emergency estimate lasts at least five minutes.
\<close>

theorem routing_service_robust_total:
  "case fst (routing_service_robust backend p q mode now s) of
     Inl e \<Rightarrow> e = ValueError \<and> \<not> (in_range (fst p) (snd p) \<and> in_range (fst q) (snd q))
   | Inr v \<Rightarrow> (\<exists>i. i \<le> 3 \<and> backend_answer backend i v) \<or>
       (emergency_routing_fallback p q mode = Inr v \<and>
        (\<exists>m. dget v ''duration_minutes'' VNone = VInt m \<and> 5 \<le> m))"
proof -
  obtain r t s' where r: "routing_service_robust backend p q mode now s = (r, t, s')"
    by (cases "routing_service_robust backend p q mode now s") auto
  note c = routing_service_robust_cases [OF r]
  have e: "case emergency_routing_fallback p q mode of
      Inl e \<Rightarrow> e = ValueError \<and> \<not> (in_range (fst p) (snd p) \<and> in_range (fst q) (snd q))
    | Inr v \<Rightarrow> (\<exists>m. dget v ''duration_minutes'' VNone = VInt m \<and> 5 \<le> m)"
    using haversine_km_cases [of "fst p" "snd p" "fst q" "snd q"]
    by (auto simp: emergency_routing_fallback_def coord_km_def Let_def)
  show ?thesis
  proof (cases r)
    case (Inl x)
    then have "emergency_routing_fallback p q mode = Inl x" using c by auto
    with e r Inl show ?thesis by simp
  next
    case (Inr v)
    with c e r show ?thesis by (auto simp: MAX_RETRIES_def split: sum.splits)
  qed
qed

text \<open>
  C18: in a routing outage (each of the first three attempts raises or exceeds its time limit) an optimiser whose breaker is fresh
  answers the emergency estimate, its breaker is OPEN after exactly three recorded failures, and the fourth attempt
  never reaches the service, whatever it would have answered.
\<close>

theorem routing_outage_opens_breaker:
  assumes "attempt_fails backend 0" "attempt_fails backend 1" "attempt_fails backend 2"
    and "routing_breaker s = new_breaker 3 15 60"
  shows "\<exists>now' s'. routing_service_robust backend p q mode now s = (emergency_routing_fallback p q mode, now', s') \<and>
    state (routing_breaker s') = OPEN \<and> failure_count (routing_breaker s') = 3"
  using routing_outage_loop [OF assms(1-3), of now] assms(4) by (auto simp: routing_service_robust_def)

theorem routing_outage_opens_breaker_witness:
  "\<exists>now' s'. routing_service_robust
      (FreeBackend (\<lambda>i. if i = 3 then (1, Inr [(''duration_minutes'', VInt 1)]) else if i = 2 then (99, Inr []) else (1, Inl ConnectionError)))
      (0, 0) (0, 0) ''walk'' 0 new_optimizer = (emergency_routing_fallback (0, 0) (0, 0) ''walk'', now', s') \<and>
    state (routing_breaker s') = OPEN \<and> failure_count (routing_breaker s') = 3"
  by (rule routing_outage_opens_breaker) (simp_all add: attempt_fails_def new_optimizer_def)

text \<open>
  C16: after a successful cached routing request with a positive duration, the same request, in either
  direction, is a hit whatever the services would now answer: it returns the same route marked
  \<open>cache_hit\<close> and changes nothing but the hit counter.
\<close>

theorem cached_route_is_remembered:
  assumes "routing_service_cached backend router p q mode now s = (Inr v, s')"
    and "positive_duration v = Inr True" "is_dict (distance_cache s)"
  shows "routing_service_cached backend' router' q p mode now' s' =
    (Inr (dset ''cache_hit'' (VBool True) v), s'\<lparr>cache_hits := cache_hits s' + 1\<rparr>)"
proof -
  obtain w where w: "map_of (distance_cache s') (get_cache_key (fst p) (snd p) (fst q) (snd q) mode) = Some w"
    "dset ''cache_hit'' (VBool True) w = dset ''cache_hit'' (VBool True) v"
    using cached_entry_present [OF assms] by blast
  have "get_cache_key (fst q) (snd q) (fst p) (snd p) mode = get_cache_key (fst p) (snd p) (fst q) (snd q) mode"
    by (rule get_cache_key_sym)
  with w show ?thesis by (simp add: routing_service_cached_def Let_def)
qed

theorem cached_route_is_remembered_witness:
  "fst (routing_service_cached (FreeBackend (\<lambda>i. (1, Inl TimeoutError))) None (2, 2) (1, 1) ''walk'' 50
      (snd (routing_service_cached (FreeBackend (\<lambda>i. (1, Inr [(''duration_minutes'', VInt 9)]))) None (1, 1) (2, 2) ''walk'' 0 new_optimizer)))
   = Inr [(''duration_minutes'', VInt 9), (''cache_hit'', VBool True)]"
proof -
  let ?b = "FreeBackend (\<lambda>i. (1, Inr [(''duration_minutes'', VInt 9)]))"
  have r: "routing_service_cached ?b None (1, 1) (2, 2) ''walk'' 0 new_optimizer =
      (Inr [(''duration_minutes'', VInt 9), (''cache_hit'', VBool False)],
       snd (routing_service_cached ?b None (1, 1) (2, 2) ''walk'' 0 new_optimizer))"
    by (simp add: routing_service_cached_def routing_service_robust_def retry_loop.simps new_optimizer_def call_def
        is_open_def new_breaker_def positive_duration_def Let_def)
  show ?thesis
    using cached_route_is_remembered [OF r, of "FreeBackend (\<lambda>i. (1, Inl TimeoutError))" None 50]
    by (simp add: positive_duration_def new_optimizer_def)
qed

text \<open>
  C17: a request that \<open>routing_service_cached\<close> answers without a multi-modal router keeps the keys of the distance cache distinct and
  counts as exactly one hit or one miss; it never leaves more than a thousand entries, unless there were more before it (the
  persistent service and the multi-modal router store without evicting), and then it adds none.
\<close>

theorem distance_cache_bounded:
  assumes "routing_service_cached backend None p q mode now s = (Inr v, s')" and "is_dict (distance_cache s)"
  shows "is_dict (distance_cache s') \<and> length (distance_cache s') \<le> max 1000 (length (distance_cache s)) \<and>
    cache_hits s' + cache_misses s' = cache_hits s + cache_misses s + 1"
proof (cases "map_of (distance_cache s) (get_cache_key (fst p) (snd p) (fst q) (snd q) mode)")
  case (Some w)
  with assms show ?thesis by (auto simp: routing_service_cached_def Let_def)
next
  case None
  from assms(1) None show ?thesis
  proof (cases rule: cached_miss_cases)
    case (robust r c pos)
    have "length (dset (get_cache_key (fst p) (snd p) (fst q) (snd q) mode) r (distance_cache s)) \<le> length (distance_cache s) + 1"
      by (simp add: length_dset)
    from length_evict_max [OF this] robust assms(2) show ?thesis by (auto simp: is_dict_evict)
  qed simp
qed

theorem distance_cache_bounded_witness:
  "length (distance_cache (snd (routing_service_cached (FreeBackend (\<lambda>i. (1, Inr [(''duration_minutes'', VInt 9)])))
     None (1, 1) (2, 2) ''walk'' 0 new_optimizer))) \<le> 1000"
proof -
  let ?b = "FreeBackend (\<lambda>i. (1, Inr [(''duration_minutes'', VInt 9)]))"
  have r: "routing_service_cached ?b None (1, 1) (2, 2) ''walk'' 0 new_optimizer =
      (Inr [(''duration_minutes'', VInt 9), (''cache_hit'', VBool False)],
       snd (routing_service_cached ?b None (1, 1) (2, 2) ''walk'' 0 new_optimizer))"
    by (simp add: routing_service_cached_def routing_service_robust_def retry_loop.simps new_optimizer_def call_def
        is_open_def new_breaker_def positive_duration_def Let_def)
  show ?thesis using distance_cache_bounded [OF r] by (simp add: new_optimizer_def)
qed

text \<open>
  the parallel routing computation succeeds exactly when every pair is answered by its task or has
  an emergency estimate; otherwise one pair with bad coordinates makes the whole batch raise, the
  routes already found included.
\<close>

theorem parallel_routing_all_or_nothing:
  "(\<exists>rs. parallel_routing_calculations route pairs = Inr rs) \<longleftrightarrow>
   list_all (\<lambda>p. (\<exists>r. route p = Inr r) \<or> (\<exists>r. fallback_route p = Inr r)) pairs"
proof -
  let ?f = "\<lambda>p. case route p of Inl e \<Rightarrow> fallback_route p | Inr r \<Rightarrow> Inr r"
  have f: "(\<exists>y. ?f p = Inr y) \<longleftrightarrow> (\<exists>r. route p = Inr r) \<or> (\<exists>r. fallback_route p = Inr r)" for p
    by (cases "route p") auto
  have "(\<exists>rs. or_else (rmap_list ?f pairs) (rmap_list fallback_route pairs) = Inr rs) \<longleftrightarrow>
      (\<exists>rs. rmap_list ?f pairs = Inr rs) \<or> (\<exists>rs. rmap_list fallback_route pairs = Inr rs)"
    by (auto simp: or_else_def split: sum.splits)
  then show ?thesis
    by (auto simp: parallel_routing_calculations_def rmap_list_ok_iff f list_all_iff)
qed

text \<open>
  the batched places search answers one list per location, in order, whatever the batch size: the
  result of its task, empty for a task that failed.
\<close>

theorem batch_places_search_pointwise:
  assumes "0 < batch_size"
  shows "batch_places_search batch_size search ls = map (\<lambda>l. throttled_places_search (search l)) ls"
  using assms by (auto simp: batch_places_search_def batch_loop_map chunks_concat)

theorem batch_places_search_pointwise_witness:
  "batch_places_search 2 (\<lambda>l::nat. if l = 2 then Inl TimeoutError else Inr [l]) [1, 2, 3] = [[1], [], [3]]"
  using batch_places_search_pointwise [of 2 "\<lambda>l::nat. if l = 2 then Inl TimeoutError else Inr [l]" "[1, 2, 3]"]
  by (simp add: throttled_places_search_def)

text \<open>
  suggestions deferred for two different days beyond the third are kept apart: whatever the places
  service does, loading the placeholder of the first afterwards yields suggestions for that day and
  marks only that placeholder as loaded.
\<close>

theorem lazy_suggestions_roundtrip:
  assumes "3 < a" "3 < b" "a \<noteq> b"
    and "generate_suggestions_lazy svc a la da ta s = (ra, s1)"
    and "generate_suggestions_lazy svc b lb db tb s1 = (rb, s2)"
  shows "\<exists>ps t s3. load_lazy_suggestions svc' (placeholder_id a) now s2 = (Some (Loaded ps a (placeholder_id a)), s3) \<and>
    map_option ph_status (map_of (lazy_placeholders s3) (placeholder_id a)) = Some ''loaded'' \<and>
    map_of (lazy_placeholders s3) (placeholder_id b) = map_of (lazy_placeholders s2) (placeholder_id b) \<and>
    map_option ph_status (map_of (lazy_placeholders s3) (placeholder_id b)) = Some ''pending''"
proof -
  have n: "placeholder_id a \<noteq> placeholder_id b" using assms(3) by (simp add: placeholder_id_inj)
  from assms n obtain ph ph' where l: "map_of (lazy_placeholders s2) (placeholder_id a) = Some ph"
      "ph_day_number ph = a" "map_of (lazy_placeholders s2) (placeholder_id b) = Some ph'" "ph_status ph' = ''pending''"
    by (auto simp: generate_suggestions_lazy_def Let_def)
  obtain ps t s' where r: "places_service_robust svc' (fst (ph_location ph)) (snd (ph_location ph)) deferred_kwargs now s2 = (ps, t, s')"
    by (cases "places_service_robust svc' (fst (ph_location ph)) (snd (ph_location ph)) deferred_kwargs now s2") auto
  from places_service_robust_state [OF r] l r n show ?thesis by (simp add: load_lazy_suggestions_def)
qed

theorem lazy_suggestions_roundtrip_witness:
  "\<exists>ps s3. load_lazy_suggestions (\<lambda>i. (1, Inl QuotaExceeded)) (placeholder_id 4) 9
     (snd (generate_suggestions_lazy (\<lambda>i. (1, Inr [])) 5 (2, 2) 90 1 (snd (generate_suggestions_lazy (\<lambda>i. (1, Inr [])) 4 (1, 1) 60 0 new_optimizer))))
     = (Some (Loaded ps 4 (placeholder_id 4)), s3)"
proof -
  let ?svc = "\<lambda>i. (1, Inr [])" let ?s1 = "snd (generate_suggestions_lazy ?svc 4 (1, 1) 60 0 new_optimizer)"
  let ?s2 = "snd (generate_suggestions_lazy ?svc 5 (2, 2) 90 1 ?s1)"
  have "generate_suggestions_lazy ?svc 4 (1, 1) 60 0 new_optimizer = (fst (generate_suggestions_lazy ?svc 4 (1, 1) 60 0 new_optimizer), ?s1)"
    "generate_suggestions_lazy ?svc 5 (2, 2) 90 1 ?s1 = (fst (generate_suggestions_lazy ?svc 5 (2, 2) 90 1 ?s1), ?s2)"
    by simp_all
  from lazy_suggestions_roundtrip [OF _ _ _ this, of "\<lambda>i. (1, Inl QuotaExceeded)" 9] show ?thesis by auto
qed

end
