(* ===== verification/Clusters.thy ===== *)
theory Clusters
  imports Geo
begin

section \<open>Clusters of places and their home bases\<close>

text \<open>
  Clustering and home-base assignment of \<open>HybridOptimizerV31\<close>
  (src/utils/hybrid\_optimizer\_v31.py, sections 1 and 2).  Places are dictionaries.  The DBSCAN
  library, the hotel recommender and the answers of the robust places services are parameters;
  a cluster that the code mutates is returned updated.  Log lines are left out, except where
  reading a key for the message can raise.
\<close>

datatype label = LInt int | LStr string

fun show_label :: "label \<Rightarrow> string" where
  "show_label (LInt i) = show_int i"
| "show_label (LStr s) = s"

record cluster =
  cl_label :: label
  cl_centroid :: "pyval \<times> pyval"
  cl_places :: "pydict list"
  cl_home_base :: "pydict option"
  cl_home_base_source :: string
  cl_suggested :: "pydict list"
  cl_additional :: "pydict list"

definition mk_cluster :: "label \<Rightarrow> pyval \<times> pyval \<Rightarrow> pydict list \<Rightarrow> pydict option \<Rightarrow> cluster" where
  "mk_cluster l c ps base =
     \<lparr>cl_label = l, cl_centroid = c, cl_places = ps, cl_home_base = base,
      cl_home_base_source = ''none'', cl_suggested = [], cl_additional = []\<rparr>"

text \<open>\<open>p['lat'], p['lon']\<close> used as numbers, and the distance between two points given by values.\<close>

definition pnum :: "pydict \<Rightarrow> string \<Rightarrow> real res" where
  "pnum p k = rbind (dindex p k) need_num"

definition vdist :: "pyval \<times> pyval \<Rightarrow> pyval \<times> pyval \<Rightarrow> real res" where
  "vdist p q =
     rbind (need_num (fst p)) (\<lambda>a. rbind (need_num (snd p)) (\<lambda>b.
     rbind (need_num (fst q)) (\<lambda>c. rbind (need_num (snd q)) (\<lambda>d. haversine_km a b c d))))"

definition ploc :: "pydict \<Rightarrow> (pyval \<times> pyval) res" where
  "ploc p = rbind (dindex p ''lat'') (\<lambda>a. rbind (dindex p ''lon'') (\<lambda>b. Inr (a, b)))"

definition pdist :: "pydict \<Rightarrow> pydict \<Rightarrow> real res" where
  "pdist p q = rbind (ploc p) (\<lambda>a. rbind (ploc q) (vdist a))"

definition is_str :: "pyval \<Rightarrow> string \<Rightarrow> bool" where
  "is_str v s \<longleftrightarrow> v = VStr s"

text \<open>The first element with the least key (\<open>min\<close>, and the loops that start from infinity).\<close>

fun min_loop :: "('a \<Rightarrow> real res) \<Rightarrow> (real \<times> 'a) option \<Rightarrow> 'a list \<Rightarrow> (real \<times> 'a) option res" where
  "min_loop f best [] = Inr best"
| "min_loop f best (x # xs) =
     rbind (f x) (\<lambda>d. min_loop f (case best of None \<Rightarrow> Some (d, x)
                              | Some (m, y) \<Rightarrow> if d < m then Some (d, x) else Some (m, y)) xs)"

text \<open>\<open>max(xs, key=\<dots>)\<close> on dictionary values: the first element with the greatest key.\<close>

fun max_loop :: "('a \<Rightarrow> pyval) \<Rightarrow> 'a \<Rightarrow> 'a list \<Rightarrow> 'a res" where
  "max_loop key best [] = Inr best"
| "max_loop key best (x # xs) =
     rbind (lt_num (key best) (key x)) (\<lambda>b. max_loop key (if b then x else best) xs)"

fun py_max_by :: "('a \<Rightarrow> pyval) \<Rightarrow> 'a list \<Rightarrow> 'a res" where
  "py_max_by key [] = Inl ValueError"
| "py_max_by key (x # xs) = max_loop key x xs"

text \<open>A comprehension with a condition that may raise.\<close>

fun rfilter :: "('a \<Rightarrow> bool res) \<Rightarrow> 'a list \<Rightarrow> 'a list res" where
  "rfilter f [] = Inr []"
| "rfilter f (x # xs) = rbind (f x) (\<lambda>b. rbind (rfilter f xs) (\<lambda>ys. Inr (if b then x # ys else ys)))"

fun rexists :: "('a \<Rightarrow> bool res) \<Rightarrow> 'a list \<Rightarrow> bool res" where
  "rexists f [] = Inr False"
| "rexists f (x # xs) = rbind (f x) (\<lambda>b. if b then Inr True else rexists f xs)"

subsection \<open>Clustering\<close>

definition calculate_centroid :: "pydict list \<Rightarrow> (pyval \<times> pyval) res" where
  "calculate_centroid places =
     rbind (rmap_list (\<lambda>p. pnum p ''lat'') places) (\<lambda>lats.
     rbind (rmap_list (\<lambda>p. pnum p ''lon'') places) (\<lambda>lons.
     if places = [] then Inl ZeroDivisionError
     else Inr (VFloat (sum_list lats / real (length lats)), VFloat (sum_list lons / real (length lons)))))"

definition choose_eps_km :: "settings \<Rightarrow> coord list \<Rightarrow> real" where
  "choose_eps_km st cs =
     (if length cs < 5 then CLUSTER_EPS_KM_RURAL st
      else
        let lats = map fst cs; lons = map snd cs;
            lat_range = Max (set lats) - Min (set lats); lon_range = Max (set lons) - Min (set lons);
            total_span = sqrt (lat_range\<^sup>2 + lon_range\<^sup>2)
        in if total_span > 1/2 then CLUSTER_EPS_KM_RURAL st else CLUSTER_EPS_KM_URBAN st)"

text \<open>The dictionary of clusters: one per label, a noise point under a label of its own.\<close>

definition poi_label :: "nat \<Rightarrow> int \<Rightarrow> label" where
  "poi_label i l = (if l = - 1 then LStr (''noise_'' @ show_nat i) else LInt l)"

definition add_to :: "'k \<Rightarrow> 'v \<Rightarrow> ('k, 'v list) dict \<Rightarrow> ('k, 'v list) dict" where
  "add_to k v d = dset k ((case map_of d k of None \<Rightarrow> [] | Some vs \<Rightarrow> vs) @ [v]) d"

fun group_pois :: "nat \<Rightarrow> int list \<Rightarrow> pydict list \<Rightarrow> (label, pydict list) dict \<Rightarrow> (label, pydict list) dict res" where
  "group_pois i [] pois d = Inr d"
| "group_pois i (l # ls) [] d = Inl IndexError"
| "group_pois i (l # ls) (p # ps) d = group_pois (Suc i) ls ps (add_to (poi_label i l) p d)"

definition not_accommodation :: "pydict \<Rightarrow> bool res" where
  "not_accommodation p = rbind (vlower (dget p ''type'' (VStr []))) (\<lambda>t. Inr (t \<noteq> ''accommodation''))"

definition make_clusters :: "(label, pydict list) dict \<Rightarrow> cluster list res" where
  "make_clusters d =
     rmap_list (\<lambda>(l, ps). rbind (calculate_centroid ps) (\<lambda>c. Inr (mk_cluster l c ps None))) d"

text \<open>\<open>dbscan eps min_samples points\<close> is the list of labels the library assigns, in order.\<close>

definition cluster_pois ::
  "settings \<Rightarrow> (real \<Rightarrow> int \<Rightarrow> coord list \<Rightarrow> int list) \<Rightarrow> pydict list \<Rightarrow> cluster list res" where
  "cluster_pois st dbscan places =
     rbind (rfilter not_accommodation places) (\<lambda>pois.
     if pois = [] then Inr []
     else
       rbind (rmap_list (\<lambda>p. rbind (pnum p ''lat'') (\<lambda>a. rbind (pnum p ''lon'') (\<lambda>b. Inr (a, b)))) pois) (\<lambda>coords.
       let labels = dbscan (choose_eps_km st coords / 6371) (CLUSTER_MIN_SAMPLES st)
                      (map (\<lambda>(a, b). (radians a, radians b)) coords)
       in rbind (group_pois 0 labels pois []) (\<lambda>d.
          rbind (make_clusters d) (\<lambda>cs.
          if cs \<noteq> [] then Inr cs
          else rbind (calculate_centroid pois) (\<lambda>c. Inr [mk_cluster (LStr ''emergency_single'') c pois None])))))"

subsection \<open>Choosing a base without a hotel\<close>

definition has_base :: "cluster \<Rightarrow> bool" where
  "has_base c \<longleftrightarrow> (case cl_home_base c of None \<Rightarrow> False | Some b \<Rightarrow> b \<noteq> [])"

definition type_in :: "string list \<Rightarrow> pydict \<Rightarrow> bool res" where
  "type_in ts p = rbind (vlower (dget p ''type'' (VStr []))) (\<lambda>t. Inr (t \<in> set ts))"

definition base_of_place :: "pydict \<Rightarrow> string \<Rightarrow> string \<Rightarrow> pydict res" where
  "base_of_place p name kind =
     rbind (dindex p ''lat'') (\<lambda>lat. rbind (dindex p ''lon'') (\<lambda>lon.
     Inr [(''name'', dget p ''name'' (VStr name)), (''lat'', lat), (''lon'', lon),
          (''address'', dget p ''address'' (VStr [])), (''rating'', dget p ''rating'' (VInt 0)),
          (''type'', VStr kind)]))"

text \<open>\<open>show\<close> renders a value inside an f-string.\<close>

definition select_home_base_enhanced :: "(pyval \<Rightarrow> string) \<Rightarrow> cluster \<Rightarrow> pydict res" where
  "select_home_base_enhanced show c =
     (if cl_places c = [] then
        Inr [(''name'', VStr (''Punto base Cluster '' @ show_label (cl_label c))),
             (''lat'', fst (cl_centroid c)), (''lon'', snd (cl_centroid c)),
             (''address'', VStr ([CHR ''U'', CHR ''b'', CHR ''i'', CHR ''c'', CHR ''a'', CHR ''c'', CHR ''i'', char_of (195::nat), char_of (179::nat)] @ ''n central estimada'')),
             (''rating'', VFloat 0), (''type'', VStr ''virtual_base'')]
      else
        rbind (rfilter (type_in [''lodging'', ''hotel'']) (cl_places c)) (\<lambda>hotels.
        if hotels \<noteq> [] then
          rbind (py_max_by (\<lambda>h. dget h ''rating'' (VInt 0)) hotels) (\<lambda>h. base_of_place h ''Hotel'' ''hotel_from_cluster'')
        else
        rbind (rfilter (type_in [''shopping_mall'', ''transit_station'', ''bus_station'', ''train_station'']) (cl_places c)) (\<lambda>hubs.
        if hubs \<noteq> [] then
          rbind (py_max_by (\<lambda>h. dget h ''rating'' (VInt 0)) hubs) (\<lambda>h. base_of_place h ''Hub de transporte'' ''transport_hub'')
        else
        rbind (rmap_list (\<lambda>p. pnum p ''lat'') (cl_places c)) (\<lambda>lats.
        rbind (rmap_list (\<lambda>p. pnum p ''lon'') (cl_places c)) (\<lambda>lons.
        let avg_lat = sum_list lats / real (length lats); avg_lon = sum_list lons / real (length lons)
        in rbind (min_loop (\<lambda>p. rbind (pnum p ''lat'') (\<lambda>a. rbind (pnum p ''lon'') (\<lambda>b.
                       Inr (sqrt ((a - avg_lat)\<^sup>2 + (b - avg_lon)\<^sup>2))))) None (cl_places c)) (\<lambda>best.
           case best of
             None \<Rightarrow> Inl ValueError
           | Some (_, p) \<Rightarrow>
               Inr [(''name'', VStr (''Centro de '' @ show (dget p ''name'' (VStr ([char_of (195::nat), char_of (161::nat)] @ ''rea''))))),
                    (''lat'', VFloat avg_lat), (''lon'', VFloat avg_lon),
                    (''address'', VStr (''Cerca de '' @ show (dget p ''name'' (VStr (''lugares de inter'' @ [char_of (195::nat), char_of (169::nat)] @ ''s''))))),
                    (''rating'', VFloat 0), (''type'', VStr ''smart_centroid''),
                    (''reference_place'', dget p ''name'' (VStr []))]))))))"

definition set_fallback_base :: "(pyval \<Rightarrow> string) \<Rightarrow> cluster \<Rightarrow> cluster res" where
  "set_fallback_base show c =
     rbind (select_home_base_enhanced show c) (\<lambda>b.
     Inr (c\<lparr>cl_home_base := Some b, cl_home_base_source := ''enhanced_fallback''\<rparr>))"

subsection \<open>Remote clusters\<close>

text \<open>
  \<open>get_distance_km\<close> of the routing service; \<open>None\<close> is a service without that method, as the
  hybrid one, where the call raises \<open>AttributeError\<close>.  A distance may be missing.
\<close>

type_synonym distance_service = "(pyval \<times> pyval \<Rightarrow> pyval \<times> pyval \<Rightarrow> real option res) option"

definition service_distance :: "distance_service \<Rightarrow> pyval \<times> pyval \<Rightarrow> pyval \<times> pyval \<Rightarrow> real option res" where
  "service_distance svc p q = (case svc of None \<Rightarrow> Inl AttributeError | Some f \<Rightarrow> f p q)"

text \<open>\<open>context\<close> is the attribute \<open>_all_clusters_for_remote_detection\<close>, if it has been set.\<close>

fun remote_loop :: "distance_service \<Rightarrow> cluster \<Rightarrow> cluster list \<Rightarrow> bool res" where
  "remote_loop svc target [] = Inr True"
| "remote_loop svc target (c # cs) =
     (if cl_label c = cl_label target then remote_loop svc target cs
      else rbind (service_distance svc (cl_centroid target) (cl_centroid c)) (\<lambda>d.
           case d of
             Some km \<Rightarrow> if km \<noteq> 0 \<and> km < 50 then Inr False else remote_loop svc target cs
           | None \<Rightarrow> remote_loop svc target cs))"

definition is_remote_cluster :: "distance_service \<Rightarrow> cluster list option \<Rightarrow> cluster \<Rightarrow> bool" where
  "is_remote_cluster svc ctxt target =
     (case ctxt of
        None \<Rightarrow> True
      | Some cs \<Rightarrow> (case remote_loop svc target cs of Inl e \<Rightarrow> False | Inr r \<Rightarrow> r))"

subsection \<open>Hotels and local attractions from the services\<close>

record hotel =
  ho_name :: pyval
  ho_lat :: pyval
  ho_lon :: pyval
  ho_address :: pyval
  ho_rating :: pyval
  ho_distance_to_centroid_km :: pyval
  ho_convenience_score :: pyval

text \<open>What the services answer while bases are assigned.\<close>

record base_services =
  bs_distance :: distance_service
  bs_recommend :: "pydict list \<Rightarrow> nat \<Rightarrow> hotel list res"
  bs_places :: "pyval \<times> pyval \<Rightarrow> string \<Rightarrow> pydict list res"
  bs_lodging :: "pyval \<times> pyval \<Rightarrow> pydict list res"
  bs_show :: "pyval \<Rightarrow> string"

definition search_types :: "string list" where
  "search_types = [''tourist_attraction'', ''restaurant'', ''museum'', ''park'']"

definition attraction :: "base_services \<Rightarrow> cluster \<Rightarrow> string \<Rightarrow> pydict \<Rightarrow> pydict" where
  "attraction svc c place_type p =
     [(''name'', dget p ''name'' (VStr [])), (''lat'', dget p ''lat'' (fst (cl_centroid c))),
      (''lon'', dget p ''lon'' (snd (cl_centroid c))), (''place_type'', VStr place_type),
      (''rating'', dget p ''rating'' (VFloat 4)), (''suggestion_type'', VStr ''local_discovery''),
      (''reason'', VStr (''Atracci'' @ [char_of (195::nat), char_of (179::nat)] @ ''n adicional cerca de '' @ bs_show svc (dget p ''name'' (VStr [])))),
      (''address'', dget p ''address'' (VStr (''Direcci'' @ [char_of (195::nat), char_of (179::nat)] @ ''n no disponible'')))]"

text \<open>The top two places of a type that are not already in the cluster.\<close>

definition new_attractions :: "base_services \<Rightarrow> cluster \<Rightarrow> string \<Rightarrow> pydict list res" where
  "new_attractions svc c place_type =
     rbind (bs_places svc (cl_centroid c) place_type) (\<lambda>found.
     rbind (rfilter (\<lambda>p. rbind (rexists (\<lambda>existing. rbind (dindex existing ''name'') (\<lambda>n. Inr (n = dget p ''name'' (VStr []))))
                                  (cl_places c)) (\<lambda>dup. Inr (\<not> dup))) (take 2 found)) (\<lambda>fresh.
     Inr (map (attraction svc c place_type) fresh)))"

definition enrich_remote_cluster :: "base_services \<Rightarrow> cluster list option \<Rightarrow> cluster \<Rightarrow> cluster" where
  "enrich_remote_cluster svc ctxt c =
     (if \<not> is_remote_cluster (bs_distance svc) ctxt c then c
      else (case rmap_list (new_attractions svc c) search_types of
              Inl e \<Rightarrow> c
            | Inr found \<Rightarrow> if concat found \<noteq> [] then c\<lparr>cl_additional := concat found\<rparr> else c))"

definition find_hotel_for_remote_cluster :: "base_services \<Rightarrow> cluster \<Rightarrow> cluster res" where
  "find_hotel_for_remote_cluster svc c =
     (case rbind (bs_lodging svc (cl_centroid c)) (\<lambda>hotels.
           if hotels = [] then Inr None
           else rbind (py_max_by (\<lambda>h. dget h ''rating'' (VInt 0)) hotels) (\<lambda>h. Inr (Some h))) of
        Inr (Some h) \<Rightarrow>
          Inr (c\<lparr>cl_home_base := Some
                 [(''name'', dget h ''name'' (VStr ''Hotel local'')), (''lat'', dget h ''lat'' (fst (cl_centroid c))),
                  (''lon'', dget h ''lon'' (snd (cl_centroid c))),
                  (''address'', dget h ''address'' (VStr (''Direcci'' @ [char_of (195::nat), char_of (179::nat)] @ ''n no disponible''))),
                  (''rating'', dget h ''rating'' (VFloat 4)), (''type'', VStr ''accommodation''),
                  (''place_id'', dget h ''place_id'' (VStr [])), (''price_level'', dget h ''price_level'' (VInt 2))],
                cl_home_base_source := ''google_places_hotel''\<rparr>)
      | _ \<Rightarrow> set_fallback_base (bs_show svc) c)"

definition recommended_base :: "hotel \<Rightarrow> pydict" where
  "recommended_base h =
     [(''name'', ho_name h), (''lat'', ho_lat h), (''lon'', ho_lon h), (''address'', ho_address h),
      (''rating'', ho_rating h), (''type'', VStr ''accommodation'')]"

text \<open>The body of the recommendation loop; the handler falls back and enriches as well.\<close>

definition recommend_hotel :: "base_services \<Rightarrow> cluster list option \<Rightarrow> cluster \<Rightarrow> cluster res" where
  "recommend_hotel svc ctxt c =
     (case bs_recommend svc (cl_places c) 1 of
        Inr (best # _) \<Rightarrow>
          Inr (enrich_remote_cluster svc ctxt
                 (c\<lparr>cl_home_base := Some (recommended_base best), cl_home_base_source := ''recommended''\<rparr>))
      | Inr [] \<Rightarrow>
          rbind (if is_remote_cluster (bs_distance svc) ctxt c then find_hotel_for_remote_cluster svc c
                 else set_fallback_base (bs_show svc) c)
            (\<lambda>c'. Inr (enrich_remote_cluster svc ctxt c'))
      | Inl e \<Rightarrow> rbind (set_fallback_base (bs_show svc) c) (\<lambda>c'. Inr (enrich_remote_cluster svc ctxt c')))"

definition generate_accommodation_suggestions :: "base_services \<Rightarrow> cluster \<Rightarrow> cluster" where
  "generate_accommodation_suggestions svc c =
     (case bs_recommend svc (cl_places c) 3 of
        Inl e \<Rightarrow> c\<lparr>cl_suggested := []\<rparr>
      | Inr hotels \<Rightarrow>
          c\<lparr>cl_suggested := map (\<lambda>h.
              [(''name'', ho_name h), (''lat'', ho_lat h), (''lon'', ho_lon h), (''rating'', ho_rating h),
               (''distance_to_centroid_km'', ho_distance_to_centroid_km h),
               (''convenience_score'', ho_convenience_score h)]) hotels\<rparr>)"

subsection \<open>Assigning the bases\<close>

definition is_accommodation :: "pydict \<Rightarrow> bool" where
  "is_accommodation p \<longleftrightarrow>
     is_str (dget p ''place_type'' VNone) ''accommodation'' \<or> is_str (dget p ''type'' VNone) ''accommodation''"

text \<open>One accommodation: the nearest cluster takes it unless it has a base already.\<close>

definition assign_accommodation :: "pydict \<Rightarrow> cluster list \<Rightarrow> cluster list res" where
  "assign_accommodation acc cs =
     rbind (min_loop (\<lambda>i. rbind (ploc acc) (\<lambda>a. vdist a (cl_centroid (cs ! i)))) None [0..<length cs]) (\<lambda>best.
     case best of
       None \<Rightarrow> Inr cs
     | Some (_, i) \<Rightarrow>
         if has_base (cs ! i) then Inr cs
         else rbind (dindex acc ''name'') (\<lambda>_.
           Inr (cs[i := (cs ! i)\<lparr>cl_home_base := Some acc,
                  cl_home_base_source := (if truthy (dget acc ''_auto_recommended'' (VBool False))
                    then ''auto_recommended_by_system'' else ''auto_detected_in_original_places'')\<rparr>])))"

definition assign_user_hotel :: "pydict list \<Rightarrow> cluster \<Rightarrow> cluster res" where
  "assign_user_hotel hotels c =
     rbind (min_loop (\<lambda>h. rbind (ploc h) (vdist (cl_centroid c))) None hotels) (\<lambda>best.
     case best of
       None \<Rightarrow> Inr c
     | Some (_, h) \<Rightarrow> rbind (dindex h ''name'') (\<lambda>_.
         Inr (c\<lparr>cl_home_base := Some h, cl_home_base_source := ''user_provided''\<rparr>)))"

text \<open>The clusters without a base are processed in order; the others stay.\<close>

definition on_baseless :: "(cluster \<Rightarrow> cluster res) \<Rightarrow> cluster list \<Rightarrow> cluster list res" where
  "on_baseless f cs = rmap_list (\<lambda>c. if has_base c then Inr c else f c) cs"

definition assign_home_base_to_clusters ::
  "base_services \<Rightarrow> cluster list \<Rightarrow> pydict list option \<Rightarrow> pydict list option \<Rightarrow> cluster list res" where
  "assign_home_base_to_clusters svc clusters accommodations all_places =
     (let accs = (case all_places of None \<Rightarrow> [] | Some ps \<Rightarrow> filter is_accommodation ps) in
      rbind (rfold assign_accommodation accs clusters) (\<lambda>cs1.
      rbind (case accommodations of
               Some (h # hs) \<Rightarrow> on_baseless (assign_user_hotel (h # hs)) cs1
             | _ \<Rightarrow> Inr cs1) (\<lambda>cs2.
      rbind (on_baseless (recommend_hotel svc (Some cs2)) cs2) (\<lambda>cs3.
      Inr (map (generate_accommodation_suggestions svc) cs3)))))"

text \<open>\<open>_build_enhanced_base_info\<close>: the base with its provenance.\<close>

definition build_enhanced_base_info :: "cluster \<Rightarrow> pydict option \<Rightarrow> pydict option" where
  "build_enhanced_base_info c extra_info =
     (if \<not> has_base c then None
      else
        let base = the (cl_home_base c);
            no_original = (case extra_info of None \<Rightarrow> False | Some x \<Rightarrow> truthy (dget x ''no_original_accommodations'' (VBool False)));
            auto = (no_original \<or> cl_home_base_source c \<in> {''recommended'', ''auto_recommended_by_system''});
            src = (if no_original then ''auto_recommended_by_system'' else cl_home_base_source c)
        in Some (dset ''recommendation_source'' (VStr src) (dset ''auto_recommended'' (VBool auto) base)))"

subsection \<open>Lemmas\<close>

lemma rfilter_Inr: "rfilter f xs = Inr ys \<Longrightarrow> ys = filter (\<lambda>x. f x = Inr True) xs"
  by (induction xs arbitrary: ys) (auto simp: rbind_eq_Inr_iff)

lemma min_loop_mem:
  "min_loop f best xs = Inr (Some (d, x)) \<Longrightarrow> (x \<in> set xs \<and> f x = Inr d) \<or> best = Some (d, x)"
  by (induction xs arbitrary: best) (fastforce simp: rbind_eq_Inr_iff split: option.splits prod.splits if_splits)+

lemma min_loop_least:
  "min_loop f best xs = Inr r \<Longrightarrow>
   (\<forall>x \<in> set xs. \<exists>d m y. f x = Inr d \<and> r = Some (m, y) \<and> m \<le> d) \<and>
   (\<forall>m0 y0. best = Some (m0, y0) \<longrightarrow> (\<exists>m y. r = Some (m, y) \<and> m \<le> m0))"
proof (induction xs arbitrary: best)
  case (Cons x xs)
  then obtain d where d: "f x = Inr d" "min_loop f (case best of None \<Rightarrow> Some (d, x)
        | Some (m, y) \<Rightarrow> if d < m then Some (d, x) else Some (m, y)) xs = Inr r"
    by (auto simp: rbind_eq_Inr_iff)
  define b where "b = (case best of None \<Rightarrow> Some (d, x) | Some (m, y) \<Rightarrow> if d < m then Some (d, x) else Some (m, y))"
  obtain m0 y0 where b: "b = Some (m0, y0)" "m0 \<le> d" "\<forall>m1 y1. best = Some (m1, y1) \<longrightarrow> m0 \<le> m1"
  proof (cases best)
    case None
    then show thesis using that [of d x] by (simp add: b_def)
  next
    case (Some my)
    obtain m1 y1 where "my = (m1, y1)" by (cases my)
    with Some show thesis
      using that [of d x] that [of m1 y1] by (cases "d < m1") (auto simp: b_def)
  qed
  from Cons.IH [OF d(2) [folded b_def]] b(1)
  have ih: "\<forall>x \<in> set xs. \<exists>d m y. f x = Inr d \<and> r = Some (m, y) \<and> m \<le> d" "\<exists>m y. r = Some (m, y) \<and> m \<le> m0"
    by auto
  from ih(2) obtain m y where m: "r = Some (m, y)" "m \<le> m0" by blast
  have "\<exists>d m y. f x = Inr d \<and> r = Some (m, y) \<and> m \<le> d" using d(1) m b(2) by auto
  moreover have "\<forall>m0 y0. best = Some (m0, y0) \<longrightarrow> (\<exists>m y. r = Some (m, y) \<and> m \<le> m0)"
    using m b(3) by force
  ultimately show ?case using ih(1) by simp
qed simp

lemma min_loop_Nil_iff: "min_loop f None xs = Inr None \<longleftrightarrow> xs = []"
  using min_loop_least [of f None xs None] by (cases xs) auto

lemma max_loop_mem: "max_loop key best xs = Inr y \<Longrightarrow> y = best \<or> y \<in> set xs"
  by (induction xs arbitrary: best) (auto simp: rbind_eq_Inr_iff split: if_splits)

text \<open>Two clusters that differ only in their bases and suggestions.\<close>

definition same_cluster :: "cluster \<Rightarrow> cluster \<Rightarrow> bool" where
  "same_cluster c c' \<longleftrightarrow> cl_label c' = cl_label c \<and> cl_centroid c' = cl_centroid c \<and> cl_places c' = cl_places c"

definition same_clusters :: "cluster list \<Rightarrow> cluster list \<Rightarrow> bool" where
  "same_clusters = list_all2 same_cluster"

lemma same_cluster_refl [simp]: "same_cluster c c"
  by (simp add: same_cluster_def)

lemma same_clusters_refl [simp]: "same_clusters cs cs"
  by (simp add: same_clusters_def list_all2_conv_all_nth)

lemma same_clusters_trans: "same_clusters a b \<Longrightarrow> same_clusters b c \<Longrightarrow> same_clusters a c"
  unfolding same_clusters_def by (erule (1) list_all2_trans [rotated]) (auto simp: same_cluster_def)

lemma same_clusters_update: "same_cluster (cs ! i) c \<Longrightarrow> same_clusters cs (cs[i := c])"
  by (cases "i < length cs") (auto simp: same_clusters_def list_all2_conv_all_nth nth_list_update)

lemma select_home_base_nonempty: "select_home_base_enhanced show c = Inr b \<Longrightarrow> b \<noteq> []"
  by (auto simp: select_home_base_enhanced_def rbind_eq_Inr_iff base_of_place_def Let_def
      split: if_splits option.splits)

lemma set_fallback_base_ok: "set_fallback_base show c = Inr c' \<Longrightarrow> has_base c' \<and> same_cluster c c'"
  using select_home_base_nonempty
  by (auto simp: set_fallback_base_def rbind_eq_Inr_iff has_base_def same_cluster_def)

lemma enrich_ok: "has_base (enrich_remote_cluster svc ctxt c) = has_base c \<and> same_cluster c (enrich_remote_cluster svc ctxt c)"
  by (auto simp: enrich_remote_cluster_def has_base_def same_cluster_def split: sum.splits)

lemma find_hotel_ok: "find_hotel_for_remote_cluster svc c = Inr c' \<Longrightarrow> has_base c' \<and> same_cluster c c'"
  using set_fallback_base_ok
  by (fastforce simp: find_hotel_for_remote_cluster_def has_base_def same_cluster_def split: sum.splits option.splits)

lemma same_cluster_trans: "same_cluster a b \<Longrightarrow> same_cluster b c \<Longrightarrow> same_cluster a c"
  by (simp add: same_cluster_def)

lemma enriched_ok:
  "has_base c1 \<and> same_cluster c c1 \<Longrightarrow> c' = enrich_remote_cluster svc ctxt c1 \<Longrightarrow> has_base c' \<and> same_cluster c c'"
  using enrich_ok [of svc ctxt c1] same_cluster_trans [of c c1 c'] by simp

lemma recommend_hotel_ok:
  assumes "recommend_hotel svc ctxt c = Inr c'" shows "has_base c' \<and> same_cluster c c'"
proof -
  obtain c1 where c1: "has_base c1 \<and> same_cluster c c1" "c' = enrich_remote_cluster svc ctxt c1"
  proof (cases "bs_recommend svc (cl_places c) 1")
    case (Inl e)
    with assms obtain c1 where "set_fallback_base (bs_show svc) c = Inr c1" "c' = enrich_remote_cluster svc ctxt c1"
      by (auto simp: recommend_hotel_def rbind_eq_Inr_iff)
    then show thesis using that set_fallback_base_ok by blast
  next
    case (Inr hs)
    show thesis
    proof (cases hs)
      case Nil
      with assms Inr have "rbind (if is_remote_cluster (bs_distance svc) ctxt c then find_hotel_for_remote_cluster svc c
                 else set_fallback_base (bs_show svc) c) (\<lambda>c'. Inr (enrich_remote_cluster svc ctxt c')) = Inr c'"
        by (simp add: recommend_hotel_def)
      then obtain c1 where "set_fallback_base (bs_show svc) c = Inr c1 \<or> find_hotel_for_remote_cluster svc c = Inr c1"
        "c' = enrich_remote_cluster svc ctxt c1"
        unfolding rbind_eq_Inr_iff by (metis Inr_inject)
      then show thesis using that set_fallback_base_ok find_hotel_ok by blast
    next
      case (Cons h t)
      with assms Inr show thesis
        by (intro that [of "c\<lparr>cl_home_base := Some (recommended_base h), cl_home_base_source := ''recommended''\<rparr>"])
          (simp_all add: recommend_hotel_def has_base_def recommended_base_def same_cluster_def)
    qed
  qed
  then show ?thesis by (rule enriched_ok)
qed

lemma dindex_nonempty: "ploc p = Inr q \<Longrightarrow> p \<noteq> []"
  by (auto simp: ploc_def dindex_def)

lemma assign_user_hotel_ok:
  assumes "assign_user_hotel hs c = Inr c'" shows "same_cluster c c'"
proof -
  obtain best where "(case best of
       None \<Rightarrow> Inr c
     | Some (m :: real, h) \<Rightarrow> rbind (dindex h ''name'') (\<lambda>_.
         Inr (c\<lparr>cl_home_base := Some h, cl_home_base_source := ''user_provided''\<rparr>))) = Inr c'"
    using assms unfolding assign_user_hotel_def rbind_eq_Inr_iff by blast
  then show ?thesis
    by (cases best) (auto simp: case_prod_beta rbind_eq_Inr_iff same_cluster_def)
qed

lemma assign_accommodation_ok:
  assumes "assign_accommodation acc cs = Inr cs'" shows "same_clusters cs cs'"
proof -
  from assms obtain best where b: "(case best of None \<Rightarrow> Inr cs
     | Some (m :: real, i) \<Rightarrow>
         if has_base (cs ! i) then Inr cs
         else rbind (dindex acc ''name'') (\<lambda>_.
           Inr (cs[i := (cs ! i)\<lparr>cl_home_base := Some acc,
                  cl_home_base_source := (if truthy (dget acc ''_auto_recommended'' (VBool False))
                    then ''auto_recommended_by_system'' else ''auto_detected_in_original_places'')\<rparr>]))) = Inr cs'"
    unfolding assign_accommodation_def rbind_eq_Inr_iff by blast
  show ?thesis
  proof (cases best)
    case None
    with b show ?thesis by simp
  next
    case (Some mi)
    have upd: "same_clusters cs (cs[snd mi := (cs ! snd mi)\<lparr>cl_home_base := Some acc, cl_home_base_source := src\<rparr>])" for src
      by (rule same_clusters_update) (simp add: same_cluster_def)
    show ?thesis
    proof (cases "has_base (cs ! snd mi)")
      case True
      with b Some show ?thesis by (simp add: case_prod_beta)
    next
      case False
      with b Some upd show ?thesis by (auto simp: case_prod_beta rbind_eq_Inr_iff)
    qed
  qed
qed

lemma on_baseless_same:
  assumes "on_baseless f cs = Inr cs'" "\<And>c c'. f c = Inr c' \<Longrightarrow> same_cluster c c'"
  shows "same_clusters cs cs'"
  using assms(1) unfolding on_baseless_def rmap_list_Inr_conv same_clusters_def
  by (rule list_all2_mono) (use assms(2) in \<open>auto split: if_splits\<close>)

lemma on_baseless_based:
  assumes "on_baseless f cs = Inr cs'" "\<And>c c'. f c = Inr c' \<Longrightarrow> has_base c'"
  shows "list_all has_base cs'"
  using assms(1) unfolding on_baseless_def rmap_list_Inr_conv
proof (induction rule: list_all2_induct)
  case (Cons c cs c' cs')
  then show ?case using assms(2) by (auto split: if_splits)
qed simp

lemma rfold_same:
  assumes "rfold f xs cs = Inr cs'" "\<And>x cs cs'. f x cs = Inr cs' \<Longrightarrow> same_clusters cs cs'"
  shows "same_clusters cs cs'"
proof (rule rfold_invariant [OF assms(1)])
  show "same_clusters cs cs" by simp
  show "same_clusters cs s'" if "same_clusters cs s" "f x s = Inr s'" for x s s'
    using same_clusters_trans [OF that(1) assms(2) [OF that(2)]] .
qed

lemma suggestions_ok:
  "same_cluster c (generate_accommodation_suggestions svc c) \<and>
   has_base (generate_accommodation_suggestions svc c) = has_base c"
  by (simp add: generate_accommodation_suggestions_def same_cluster_def has_base_def split: sum.splits)

lemma mset_add_to:
  "mset (concat (map snd (add_to k v d))) = add_mset v (mset (concat (map snd d)))"
  if "is_dict d"
  using that
proof (induction d)
  case (Cons e d)
  obtain k' vs where e: "e = (k', vs)" by (cases e)
  show ?case
  proof (cases "k' = k")
    case True
    then show ?thesis by (simp add: e add_to_def)
  next
    case False
    then have "add_to k v (e # d) = e # add_to k v d" by (simp add: e add_to_def)
    then show ?thesis using Cons by (simp add: e is_dict_def)
  qed
qed (simp add: add_to_def)

lemma add_to_values: "\<forall>vs \<in> snd ` set d. vs \<noteq> [] \<Longrightarrow> \<forall>vs \<in> snd ` set (add_to k v d). vs \<noteq> []"
  unfolding add_to_def using set_dset_subset by fastforce

lemma group_pois_ok:
  assumes "length ls = length ps" "is_dict d" "\<forall>vs \<in> snd ` set d. vs \<noteq> []"
  shows "\<exists>d'. group_pois i ls ps d = Inr d' \<and> is_dict d' \<and> (\<forall>vs \<in> snd ` set d'. vs \<noteq> []) \<and>
    mset (concat (map snd d')) = mset (concat (map snd d)) + mset ps"
  using assms
proof (induction ls arbitrary: i ps d)
  case (Cons l ls)
  then obtain p qs where ps: "ps = p # qs" "length ls = length qs" by (cases ps) auto
  have "is_dict (add_to (poi_label i l) p d)" using Cons.prems(2) by (simp add: add_to_def)
  from Cons.IH [OF ps(2) this add_to_values [OF Cons.prems(3)], of "Suc i"] obtain d' where
    "group_pois (Suc i) ls qs (add_to (poi_label i l) p d) = Inr d'" "is_dict d'" "\<forall>vs \<in> snd ` set d'. vs \<noteq> []"
    "mset (concat (map snd d')) = mset (concat (map snd (add_to (poi_label i l) p d))) + mset qs"
    by blast
  then show ?case using Cons.prems(2) by (simp add: ps mset_add_to)
qed simp

lemma make_clusters_ok:
  "make_clusters d = Inr cs \<Longrightarrow> map cl_places cs = map snd d \<and> map cl_label cs = map fst d"
  unfolding make_clusters_def
proof (induction d arbitrary: cs)
  case (Cons e d)
  then show ?case by (cases e) (auto simp: rbind_eq_Inr_iff mk_cluster_def)
qed simp

lemma remote_loop_no_service:
  "(case remote_loop None c cs of Inl e \<Rightarrow> False | Inr r \<Rightarrow> r) \<longleftrightarrow> (\<forall>x \<in> set cs. cl_label x = cl_label c)"
  by (induction cs) (auto simp: service_distance_def)

lemma sum_list_mean_bounds:
  fixes xs :: "real list"
  assumes "xs \<noteq> []" "\<And>x. x \<in> set xs \<Longrightarrow> lo \<le> x \<and> x \<le> hi"
  shows "lo \<le> sum_list xs / real (length xs) \<and> sum_list xs / real (length xs) \<le> hi"
proof -
  have "real (length xs) * lo \<le> sum_list xs \<and> sum_list xs \<le> real (length xs) * hi"
    using assms(2) by (induction xs) (auto simp: algebra_simps, (fastforce)+)
  moreover have "0 < real (length xs)" using assms(1) by simp
  ultimately show ?thesis by (simp add: field_simps)
qed

subsection \<open>Properties\<close>

lemma cluster_pois_parts:
  assumes "cluster_pois st dbscan places = Inr cs"
    and "\<And>eps m xs. length (dbscan eps m xs) = length xs"
  shows "mset (concat (map cl_places cs)) = mset (filter (\<lambda>p. not_accommodation p = Inr True) places) \<and>
    distinct (map cl_label cs) \<and> list_all (\<lambda>c. cl_places c \<noteq> []) cs"
proof -
  from assms(1) obtain pois where f: "rfilter not_accommodation places = Inr pois"
    by (auto simp: cluster_pois_def rbind_eq_Inr_iff)
  note pois = rfilter_Inr [OF f]
  show ?thesis
  proof (cases "pois = []")
    case True
    with assms(1) f pois show ?thesis by (simp add: cluster_pois_def)
  next
    case False
    with assms(1) f obtain coords labels where
      co: "rmap_list (\<lambda>p. rbind (pnum p ''lat'') (\<lambda>a. rbind (pnum p ''lon'') (\<lambda>b. Inr (a, b)))) pois = Inr coords"
      and la: "labels = dbscan (choose_eps_km st coords / 6371) (CLUSTER_MIN_SAMPLES st) (map (\<lambda>(a, b). (radians a, radians b)) coords)"
      and r: "rbind (group_pois 0 labels pois []) (\<lambda>d. rbind (make_clusters d) (\<lambda>cs.
          if cs \<noteq> [] then Inr cs
          else rbind (calculate_centroid pois) (\<lambda>c. Inr [mk_cluster (LStr ''emergency_single'') c pois None]))) = Inr cs"
      by (auto simp: cluster_pois_def rbind_eq_Inr_iff Let_def)
    have "length labels = length pois"
      using rmap_list_length [OF co] assms(2) by (simp add: la)
    then obtain d where d: "group_pois 0 labels pois [] = Inr d" "is_dict d" "\<forall>vs \<in> snd ` set d. vs \<noteq> []"
      "mset (concat (map snd d)) = mset pois"
      using group_pois_ok [of labels pois "[]" 0] by auto
    then obtain cs1 where cs1: "make_clusters d = Inr cs1" "if cs1 \<noteq> [] then cs = cs1 else map cl_places cs = [pois] \<and> length cs = 1"
      using r by (auto simp: rbind_eq_Inr_iff mk_cluster_def split: if_splits)
    note mk = make_clusters_ok [OF cs1(1)]
    have "cs1 \<noteq> []" using mk d(4) False by auto
    with cs1 have "cs = cs1" by simp
    moreover have "list_all (\<lambda>c. cl_places c \<noteq> []) cs1"
    proof -
      have "\<forall>vs \<in> set (map cl_places cs1). vs \<noteq> []" using d(3) mk by simp
      then show ?thesis by (simp add: list_all_iff)
    qed
    ultimately show ?thesis using mk d(2,4) pois by (simp add: is_dict_def)
  qed
qed

text \<open>
  C9: if the clustering library labels every point, \<open>cluster_pois\<close> distributes exactly the places that
  are not accommodations: none is lost or duplicated, no cluster is empty and the labels are distinct,
  noise points forming clusters of their own.
\<close>

theorem cluster_pois_partition:
  assumes "cluster_pois st dbscan places = Inr cs"
    and "\<And>eps m xs. length (dbscan eps m xs) = length xs"
  shows "mset (concat (map cl_places cs)) = mset (filter (\<lambda>p. not_accommodation p = Inr True) places) \<and>
    distinct (map cl_label cs) \<and> list_all (\<lambda>c. cl_places c \<noteq> []) cs"
  by (rule cluster_pois_parts [OF assms])

theorem cluster_pois_partition_witness:
  "\<exists>cs. cluster_pois default_settings (\<lambda>eps m xs. map (\<lambda>_. - 1) xs)
     [[(''lat'', VFloat 1), (''lon'', VFloat 1)], [(''lat'', VFloat 2), (''lon'', VFloat 2)]] = Inr cs \<and>
     distinct (map cl_label cs) \<and> mset (concat (map cl_places cs)) =
     {# [(''lat'', VFloat 1), (''lon'', VFloat 1)], [(''lat'', VFloat 2), (''lon'', VFloat 2)] #}"
proof -
  let ?ps = "[[(''lat'', VFloat 1), (''lon'', VFloat 1)], [(''lat'', VFloat 2), (''lon'', VFloat 2)]]"
  have n: "not_accommodation [(''lat'', VFloat x), (''lon'', VFloat y)] = Inr True" for x y
    by (simp add: not_accommodation_def lower_def)
  obtain cs where cs: "cluster_pois default_settings (\<lambda>eps m xs. map (\<lambda>_. - 1) xs) ?ps = Inr cs"
    by (simp add: cluster_pois_def n pnum_def dindex_def make_clusters_def calculate_centroid_def poi_label_def
        add_to_def show_nat.simps)
  from cluster_pois_partition [OF cs] n show ?thesis by (intro exI [of _ cs]) (simp add: cs)
qed

lemma assign_bases_ok:
  assumes "assign_home_base_to_clusters svc clusters accommodations all_places = Inr cs"
  shows "list_all has_base cs \<and> same_clusters clusters cs"
proof -
  from assms obtain cs1 cs2 cs3 where
    a: "rfold assign_accommodation (case all_places of None \<Rightarrow> [] | Some ps \<Rightarrow> filter is_accommodation ps) clusters = Inr cs1"
    and b: "(case accommodations of Some (h # hs) \<Rightarrow> on_baseless (assign_user_hotel (h # hs)) cs1 | _ \<Rightarrow> Inr cs1) = Inr cs2"
    and c: "on_baseless (recommend_hotel svc (Some cs2)) cs2 = Inr cs3"
    and d: "cs = map (generate_accommodation_suggestions svc) cs3"
    by (auto simp: assign_home_base_to_clusters_def rbind_eq_Inr_iff Let_def)
  have "same_clusters clusters cs1" by (rule rfold_same [OF a]) (rule assign_accommodation_ok)
  moreover have "same_clusters cs1 cs2"
  proof (cases "accommodations = None \<or> accommodations = Some []")
    case True
    with b show ?thesis by auto
  next
    case False
    then obtain h hs where "accommodations = Some (h # hs)" by (cases accommodations) (auto simp: neq_Nil_conv)
    with b show ?thesis using on_baseless_same [of "assign_user_hotel (h # hs)" cs1 cs2] assign_user_hotel_ok by simp
  qed
  moreover have "same_clusters cs2 cs3" "list_all has_base cs3"
    using on_baseless_same [OF c] on_baseless_based [OF c] recommend_hotel_ok by blast+
  moreover have "same_clusters cs3 cs" "list_all has_base cs = list_all has_base cs3"
    using suggestions_ok by (simp_all add: d same_clusters_def list_all2_conv_all_nth list_all_length)
  ultimately show ?thesis using same_clusters_trans by blast
qed

text \<open>
  C10: when \<open>assign_home_base_to_clusters\<close> succeeds, every cluster has a home base, and the clusters
  themselves (labels, centroids, places, order) are untouched.
\<close>

theorem every_cluster_gets_a_base:
  assumes "assign_home_base_to_clusters svc clusters accommodations all_places = Inr cs"
  shows "list_all has_base cs \<and> same_clusters clusters cs"
  by (rule assign_bases_ok [OF assms])

theorem every_cluster_gets_a_base_witness:
  "\<exists>cs. assign_home_base_to_clusters
      \<lparr>bs_distance = None, bs_recommend = \<lambda>ps n. Inl TimeoutError, bs_places = \<lambda>c t. Inr [], bs_lodging = \<lambda>c. Inr [],
       bs_show = \<lambda>v. ''x''\<rparr>
      [mk_cluster (LInt 0) (VFloat 1, VFloat 1) [] None] None None = Inr cs \<and> list_all has_base cs"
proof -
  let ?svc = "\<lparr>bs_distance = None, bs_recommend = \<lambda>ps n. Inl TimeoutError, bs_places = \<lambda>c t. Inr [], bs_lodging = \<lambda>c. Inr [],
       bs_show = \<lambda>v. ''x''\<rparr>"
  obtain cs where cs: "assign_home_base_to_clusters ?svc [mk_cluster (LInt 0) (VFloat 1, VFloat 1) [] None] None None = Inr cs"
    by (simp add: assign_home_base_to_clusters_def on_baseless_def has_base_def mk_cluster_def recommend_hotel_def
        set_fallback_base_def select_home_base_enhanced_def)
  from every_cluster_gets_a_base [OF cs] cs show ?thesis by blast
qed

text \<open>
  with the hybrid routing service, which has no \<open>get_distance_km\<close>, a cluster counts as remote only
  if every cluster carries its own label: as soon as there is another cluster, none is remote, however
  far apart they are.
\<close>

theorem hybrid_routing_never_remote:
  "is_remote_cluster None (Some cs) c = list_all (\<lambda>x. cl_label x = cl_label c) cs"
  using remote_loop_no_service [of c cs] by (simp add: is_remote_cluster_def list_all_iff)

text \<open>
  a user's hotel assigned to a cluster is one of the hotels offered and none of the others is nearer
  to the cluster's centroid.
\<close>

theorem user_hotel_is_nearest:
  assumes "assign_user_hotel hotels c = Inr c'" "hotels \<noteq> []"
  shows "\<exists>h d. cl_home_base c' = Some h \<and> h \<in> set hotels \<and> rbind (ploc h) (vdist (cl_centroid c)) = Inr d \<and>
    list_all (\<lambda>h'. \<exists>d'. rbind (ploc h') (vdist (cl_centroid c)) = Inr d' \<and> d \<le> d') hotels"
proof -
  define f where "f = (\<lambda>h. rbind (ploc h) (vdist (cl_centroid c)))"
  from assms(1) obtain best where m: "min_loop f None hotels = Inr best"
    unfolding assign_user_hotel_def rbind_eq_Inr_iff f_def by blast
  have "best \<noteq> None"
  proof
    assume "best = None"
    with m have "min_loop f None hotels = Inr None" by simp
    then have "hotels = []" unfolding min_loop_Nil_iff .
    with assms(2) show False by contradiction
  qed
  then obtain d h where b: "best = Some (d, h)" by auto
  have "cl_home_base c' = Some h"
  proof -
    have "assign_user_hotel hotels c = rbind (dindex h ''name'') (\<lambda>_.
         Inr (c\<lparr>cl_home_base := Some h, cl_home_base_source := ''user_provided''\<rparr>))"
      using m b by (simp add: assign_user_hotel_def f_def)
    with assms(1) show ?thesis by (auto simp: rbind_eq_Inr_iff)
  qed
  moreover have "h \<in> set hotels \<and> f h = Inr d" using min_loop_mem [OF m [unfolded b]] by simp
  moreover have "list_all (\<lambda>h'. \<exists>d'. f h' = Inr d' \<and> d \<le> d') hotels"
    using conjunct1 [OF min_loop_least [OF m]] unfolding b list_all_iff by blast
  ultimately show ?thesis unfolding f_def by blast
qed

theorem user_hotel_is_nearest_witness:
  "\<exists>h. cl_home_base (case assign_user_hotel [[(''name'', VStr ''A''), (''lat'', VInt 1), (''lon'', VInt 1)]]
      (mk_cluster (LInt 0) (VInt 1, VInt 1) [] None) of Inr c \<Rightarrow> c) = Some h"
proof -
  let ?hs = "[[(''name'', VStr ''A''), (''lat'', VInt 1), (''lon'', VInt 1)]]" and ?c = "mk_cluster (LInt 0) (VInt 1, VInt 1) [] None"
  obtain c' where c': "assign_user_hotel ?hs ?c = Inr c'"
    by (simp add: assign_user_hotel_def ploc_def dindex_def vdist_def mk_cluster_def haversine_km_def)
  from user_hotel_is_nearest [OF c'] c' show ?thesis by auto
qed

text \<open>
  the centroid of places in range is in range, so distances to it never raise.
\<close>

theorem centroid_in_range:
  assumes "calculate_centroid places = Inr c"
    and "list_all (\<lambda>p. \<exists>a b. pnum p ''lat'' = Inr a \<and> pnum p ''lon'' = Inr b \<and> in_range a b) places"
  shows "\<exists>a b. c = (VFloat a, VFloat b) \<and> in_range a b"
proof -
  from assms(1) obtain lats lons where l: "rmap_list (\<lambda>p. pnum p ''lat'') places = Inr lats"
    "rmap_list (\<lambda>p. pnum p ''lon'') places = Inr lons" "places \<noteq> []"
    "c = (VFloat (sum_list lats / real (length lats)), VFloat (sum_list lons / real (length lons)))"
    by (auto simp: calculate_centroid_def rbind_eq_Inr_iff split: if_splits)
  have ne: "lats \<noteq> []" "lons \<noteq> []" using rmap_list_length [OF l(1)] rmap_list_length [OF l(2)] l(3) by auto
  have "- 90 \<le> x \<and> x \<le> 90" if "x \<in> set lats" for x
    using rmap_list_mem [OF l(1) that] assms(2) by (auto simp: list_all_iff in_range_def)
  moreover have "- 180 \<le> x \<and> x \<le> 180" if "x \<in> set lons" for x
    using rmap_list_mem [OF l(2) that] assms(2) by (auto simp: list_all_iff in_range_def)
  ultimately show ?thesis
    using sum_list_mean_bounds [OF ne(1), of "- 90" 90] sum_list_mean_bounds [OF ne(2), of "- 180" 180] l(4)
    by (simp add: in_range_def)
qed

theorem centroid_in_range_witness:
  "\<exists>a b. calculate_centroid [[(''lat'', VInt 1), (''lon'', VInt 2)]] = Inr (VFloat a, VFloat b) \<and> in_range a b"
proof -
  obtain c where c: "calculate_centroid [[(''lat'', VInt 1), (''lon'', VInt 2)]] = Inr c"
    by (simp add: calculate_centroid_def pnum_def dindex_def)
  from centroid_in_range [OF c] c show ?thesis by (simp add: pnum_def dindex_def in_range_def)
qed

end
