(* ===== verification/Scheduling.thy ===== *)
theory Scheduling
  imports RobustServices Clusters
begin

section \<open>Scheduling a day\<close>

text \<open>
  How \<open>HybridOptimizerV31\<close> turns a cluster into the activities and transfers of a day
  (src/utils/hybrid\_optimizer\_v31.py): preferred time windows, durations, transport modes,
  the routing loop from the hotel through the places and back, the normalised dictionaries of
  transfers, free blocks, and the metrics over the days.  Times are minutes since midnight.
  Coordinates are read as numbers.  \<open>show\<close> renders a value inside an f-string and \<open>pyhash\<close>
  is \<open>hash\<close> of a string; both are parameters.
\<close>

record time_window =
  tw_start :: int
  tw_end :: int

definition window :: "int \<Rightarrow> int \<Rightarrow> time_window" where
  "window a b = \<lparr>tw_start = a, tw_end = b\<rparr>"

subsection \<open>Windows, durations and modes\<close>

definition get_preferred_time_window :: "settings \<Rightarrow> pyval \<Rightarrow> time_window \<Rightarrow> time_window list res" where
  "get_preferred_time_window st place_type daily =
     rbind (vlower place_type) (\<lambda>t.
     Inr (if t = ''restaurant'' then
            [window (RESTAURANT_LUNCH_START st * 60) (RESTAURANT_LUNCH_END st * 60),
             window (RESTAURANT_DINNER_START st * 60) (RESTAURANT_DINNER_END st * 60)]
          else if t = ''museum'' then
            [window (max (tw_start daily) (MUSEUM_PREFERRED_START st * 60)) (min (tw_end daily) (MUSEUM_PREFERRED_END st * 60))]
          else if t = ''shopping'' then
            [window (max (tw_start daily) (SHOPPING_PREFERRED_START st * 60)) (min (tw_end daily) (SHOPPING_PREFERRED_END st * 60))]
          else [daily]))"

fun find_best_time_slot :: "int \<Rightarrow> int \<Rightarrow> time_window list \<Rightarrow> int" where
  "find_best_time_slot earliest_start duration [] = earliest_start"
| "find_best_time_slot earliest_start duration (w # ws) =
     (if earliest_start \<ge> tw_start w \<and> earliest_start + duration \<le> tw_end w then earliest_start
      else if earliest_start < tw_start w \<and> tw_start w + duration \<le> tw_end w then tw_start w
      else find_best_time_slot earliest_start duration ws)"

definition estimate_activity_duration :: "pydict \<Rightarrow> int res" where
  "estimate_activity_duration place =
     rbind (vlower (dget place ''type'' (VStr []))) (\<lambda>t.
     Inr (case map_of [(''restaurant'', 90), (''museum'', 120), (''tourist_attraction'', 90), (''shopping'', 120),
                       (''park'', 60), (''entertainment'', 180)] t of
            None \<Rightarrow> 60 | Some d \<Rightarrow> d))"

definition decide_mode_by_distance_km :: "settings \<Rightarrow> real \<Rightarrow> string \<Rightarrow> string" where
  "decide_mode_by_distance_km st distance_km requested_mode =
     (if distance_km \<le> WALK_THRESHOLD_KM st then ''walk''
      else if distance_km \<le> DRIVE_THRESHOLD_KM st then
        (if TRANSIT_AVAILABLE st \<and> requested_mode \<in> {''walk'', ''transit''} then ''transit'' else ''drive'')
      else ''drive'')"

text \<open>The key of the sort; the sort is stable and descending.\<close>

definition time_preference_score :: "settings \<Rightarrow> int \<Rightarrow> pydict \<Rightarrow> real res" where
  "time_preference_score st current_time place =
     rbind (vlower (dget place ''type'' (VStr []))) (\<lambda>t.
     let lunch = RESTAURANT_LUNCH_START st * 60; dinner = RESTAURANT_DINNER_START st * 60
     in if t = ''restaurant'' \<and> (lunch \<le> current_time \<and> current_time \<le> lunch + 180 \<or>
           dinner \<le> current_time \<and> current_time \<le> dinner + 180)
        then Inr 1000 else need_num (dget place ''priority'' (VInt 5)))"

definition sort_places_by_time_preference :: "settings \<Rightarrow> pydict list \<Rightarrow> int \<Rightarrow> pydict list res" where
  "sort_places_by_time_preference st places current_time =
     rbind (rmap_list (\<lambda>p. rbind (time_preference_score st current_time p) (\<lambda>k. Inr (k, p))) places) (\<lambda>kps.
     Inr (map snd (sort_key (\<lambda>kp. - fst kp) kps)))"

definition classify_transport_time :: "real \<Rightarrow> real \<times> real \<times> string" where
  "classify_transport_time m =
     (if m \<le> 30 then (py_round 1 m, 0, ''walking'') else (0, py_round 1 m, ''transport''))"

subsection \<open>Normalised place dictionaries\<close>

fun vfloordiv :: "pyval \<Rightarrow> int \<Rightarrow> pyval res" where
  "vfloordiv (VInt i) n = Inr (VInt (i div n))"
| "vfloordiv (VBool b) n = Inr (VInt ((if b then 1 else 0) div n))"
| "vfloordiv (VFloat x) n = Inr (VFloat (real_of_int \<lfloor>x / real_of_int n\<rfloor>))"
| "vfloordiv _ n = Inl TypeError"

definition ge_num :: "pyval \<Rightarrow> real \<Rightarrow> bool res" where
  "ge_num v x = rbind (need_num v) (\<lambda>y. Inr (y \<ge> x))"

definition gt_num :: "pyval \<Rightarrow> real \<Rightarrow> bool res" where
  "gt_num v x = rbind (need_num v) (\<lambda>y. Inr (y > x))"

text \<open>\<open>f"{v:.0f}"\<close>; a string operand has no such format.\<close>

definition show_0f :: "pyval \<Rightarrow> string res" where
  "show_0f v = (case num_of v of
      Some x \<Rightarrow> Inr (show_int (round_half_even x))
    | None \<Rightarrow> Inl (case v of VStr s \<Rightarrow> ValueError | _ \<Rightarrow> TypeError))"

definition transfer_name :: "(pyval \<Rightarrow> string) \<Rightarrow> pydict \<Rightarrow> string res" where
  "transfer_name show place =
     (let dur = dget place ''duration_minutes'' (VInt 0); dist = dget place ''distance_km'' (VInt 0);
          from_place = dget place ''from_place'' (VStr []); to_place = dget place ''to_place'' (VStr [])
      in if truthy (dget place ''is_return_to_hotel'' (VBool False)) then Inr ''Regreso al hotel''
         else if truthy to_place then
           rbind (ge_num dur 180) (\<lambda>long.
           if long then rbind (vfloordiv dur 60) (\<lambda>h. Inr (''Viaje a '' @ show to_place @ '' ('' @ show h @ ''h)''))
           else rbind (ge_num dur 30) (\<lambda>mid.
           if mid then Inr (''Traslado a '' @ show to_place @ '' ('' @ show dur @ ''min)'')
           else rbind (gt_num dist 5) (\<lambda>far.
           if far then rbind (show_0f dist) (\<lambda>k. Inr (''Traslado a '' @ show to_place @ '' ('' @ k @ ''km)''))
           else Inr (''Traslado a '' @ show to_place))))
         else if truthy from_place then Inr (''Traslado desde '' @ show from_place)
         else
           rbind (ge_num dur 180) (\<lambda>long.
           if long then rbind (vfloordiv dur 60) (\<lambda>h. Inr (''Traslado largo ('' @ show h @ ''h)''))
           else rbind (ge_num dur 30) (\<lambda>mid.
           if mid then Inr (''Traslado ('' @ show dur @ ''min)'')
           else rbind (gt_num dist 5) (\<lambda>far.
           if far then rbind (show_0f dist) (\<lambda>k. Inr (''Traslado ('' @ k @ ''km)''))
           else rbind (gt_num dur 0) (\<lambda>pos.
           if pos then Inr (''Traslado corto ('' @ show dur @ ''min)'') else Inr ''Traslado'')))))"

definition type_names :: "(string \<times> string) list" where
  "type_names =
     [(''restaurant'', ''Restaurante''), (''tourist_attraction'', ''Atracci'' @ o_acute @ ''n tur'' @ [char_of (195::nat), char_of (173::nat)] @ ''stica''),
      (''museum'', ''Museo''), (''park'', ''Parque''), (''accommodation'', ''Alojamiento''),
      (''shopping_mall'', ''Centro comercial''), (''cafe'', ''Caf'' @ [char_of (195::nat), char_of (169::nat)]),
      (''church'', ''Iglesia''), (''hotel'', ''Hotel''), (''lodging'', ''Hotel'')]"

definition generate_smart_name :: "(pyval \<Rightarrow> string) \<Rightarrow> pydict \<Rightarrow> pyval res" where
  "generate_smart_name show place =
     (let existing = dget place ''name'' (VStr []) in
      rbind (if truthy existing then rbind (vlower existing) (\<lambda>s. Inr (\<not> contains ''sin nombre'' s)) else Inr False) (\<lambda>named.
      if named then Inr existing
      else if dget place ''type'' (VStr []) = VStr ''transfer'' \<or> dget place ''category'' (VStr []) = VStr ''transfer''
      then rbind (transfer_name show place) (\<lambda>s. Inr (VStr s))
      else (case dget place ''type'' (VStr []) of
              VStr t \<Rightarrow> Inr (VStr (case map_of type_names t of Some n \<Rightarrow> n
                                  | None \<Rightarrow> ''Lugar de inter'' @ [char_of (195::nat), char_of (169::nat)] @ ''s''))
            | VList _ \<Rightarrow> Inl TypeError
            | VDict _ \<Rightarrow> Inl TypeError
            | _ \<Rightarrow> Inr (VStr (''Lugar de inter'' @ [char_of (195::nat), char_of (169::nat)] @ ''s'')))))"

text \<open>\<open>max(lo, min(hi, v))\<close>: a value that is returned keeps its own type.\<close>

definition clamp :: "pyval \<Rightarrow> pyval \<Rightarrow> pyval \<Rightarrow> pyval res" where
  "clamp lo hi v =
     rbind (lt_num v hi) (\<lambda>b. let m = (if b then v else hi) in
     rbind (lt_num lo m) (\<lambda>b'. Inr (if b' then m else lo)))"

text \<open>The default image: the URL of the first photo, read whether or not it is used.\<close>

definition photo_url :: "pydict \<Rightarrow> pyval res" where
  "photo_url place =
     (if truthy (dget place ''photos'' VNone)
      then rbind (vfirst (dget place ''photos'' VNone)) (\<lambda>ph. vget ph ''url'' (VStr []))
      else Inr (VStr []))"

definition is_list :: "pyval \<Rightarrow> bool" where
  "is_list v = (case v of VList _ \<Rightarrow> True | _ \<Rightarrow> False)"

definition is_dict_val :: "pyval \<Rightarrow> bool" where
  "is_dict_val v = (case v of VDict _ \<Rightarrow> True | _ \<Rightarrow> False)"

definition normalize_place_fields :: "(pyval \<Rightarrow> string) \<Rightarrow> (pyval \<Rightarrow> int) \<Rightarrow> pydict \<Rightarrow> pydict res" where
  "normalize_place_fields show pyhash place =
     (let nm = dget place ''name'' (VStr ''unnamed'') in
      if \<not> hashable nm then Inl TypeError else
      rbind (generate_smart_name show place) (\<lambda>name.
      rbind (clamp (VFloat 0) (VFloat 5) (dget place ''rating'' (VFloat 0))) (\<lambda>rating.
      rbind (clamp (VInt 0) (VInt 4) (dget place ''price_level'' (VInt 0))) (\<lambda>price_level.
      rbind (clamp (VInt 1) (VInt 10) (dget place ''priority'' (VInt 5))) (\<lambda>priority.
      rbind (photo_url place) (\<lambda>url.
      let photos = dget place ''photos'' (VList []); hours = dget place ''opening_hours'' (VDict [])
      in Inr
        [(''place_id'', dget place ''place_id'' (VStr (''unknown_'' @ show_int (pyhash nm)))),
         (''name'', name),
         (''lat'', dget place ''lat'' (VFloat 0)), (''lon'', dget place ''lon'' (VFloat 0)),
         (''category'', dget place ''category'' (dget place ''type'' (VStr ''general''))),
         (''type'', dget place ''type'' (dget place ''category'' (VStr ''point_of_interest''))),
         (''rating'', rating), (''price_level'', price_level),
         (''address'', dget place ''address'' (VStr no_address)),
         (''description'', dget place ''description'' (VStr (''Visita a '' @ show (dget place ''name'' (VStr ''lugar''))))),
         (''photos'', if is_list photos then photos else VList []),
         (''opening_hours'', if is_dict_val hours then hours else VDict []),
         (''website'', dget place ''website'' (VStr [])), (''phone'', dget place ''phone'' (VStr [])),
         (''priority'', priority),
         (''image'', dget place ''image'' url)]))))))"

subsection \<open>Transfers\<close>

record transfer_item =
  ti_from_place :: pyval
  ti_to_place :: pyval
  ti_distance_km :: pyval
  ti_duration_minutes :: int
  ti_recommended_mode :: string
  ti_is_intercity :: bool
  ti_overnight :: bool
  ti_is_return_to_hotel :: bool
  ti_from :: coord
  ti_to :: coord

definition transfer_fields :: "(pyval \<Rightarrow> string) \<Rightarrow> (pyval \<Rightarrow> int) \<Rightarrow> transfer_item \<Rightarrow> pydict" where
  "transfer_fields show pyhash t =
     [(''place_id'', VStr (''transfer_'' @ show_int (pyhash (VStr (show (ti_from_place t) @ show (ti_to_place t)))))),
      (''type'', VStr ''transfer''), (''category'', VStr ''transfer''),
      (''from_place'', ti_from_place t), (''to_place'', ti_to_place t),
      (''distance_km'', ti_distance_km t), (''duration_minutes'', VInt (ti_duration_minutes t)),
      (''recommended_mode'', VStr (ti_recommended_mode t)), (''is_intercity'', VBool (ti_is_intercity t)),
      (''is_return_to_hotel'', VBool (ti_is_return_to_hotel t)),
      (''rating'', VFloat (45/10)), (''priority'', VInt 5),
      (''lat'', VFloat (fst (ti_to t))), (''lon'', VFloat (snd (ti_to t))),
      (''from_lat'', VFloat (fst (ti_from t))), (''from_lon'', VFloat (snd (ti_from t)))]"

definition transfer_item_to_dict :: "(pyval \<Rightarrow> string) \<Rightarrow> (pyval \<Rightarrow> int) \<Rightarrow> transfer_item \<Rightarrow> pydict res" where
  "transfer_item_to_dict show pyhash t = normalize_place_fields show pyhash (transfer_fields show pyhash t)"

record intercity_activity =
  ia_name :: string
  ia_place_type :: string
  ia_duration_minutes :: int
  ia_start_time :: int
  ia_end_time :: int
  ia_description :: string
  ia_address :: string
  ia_transport_mode :: string

definition create_intercity_activity :: "(pyval \<Rightarrow> string) \<Rightarrow> transfer_item \<Rightarrow> int \<Rightarrow> intercity_activity option" where
  "create_intercity_activity show t current_time =
     (if ti_duration_minutes t < 180 then None
      else
        let (activity_type, suggestion) =
              (if ti_duration_minutes t \<ge> 480 then (''overnight_journey'', ''Viaje nocturno - considera descanso'')
               else if ti_duration_minutes t \<ge> 360 then
                 (''scenic_journey'', ''Viaje panor'' @ [char_of (195::nat), char_of (161::nat)] @ ''mico - disfruta el paisaje'')
               else (''comfortable_journey'', ''Tiempo para relajarse o trabajar''))
        in Some \<lparr>ia_name = ''Viaje '' @ show (ti_from_place t) @ [CHR '' '', char_of (226::nat), char_of (134::nat), char_of (146::nat), CHR '' ''] @ show (ti_to_place t),
             ia_place_type = activity_type, ia_duration_minutes = ti_duration_minutes t,
             ia_start_time = current_time, ia_end_time = current_time + ti_duration_minutes t,
             ia_description = suggestion,
             ia_address = ''Ruta '' @ show (ti_from_place t) @ '' - '' @ show (ti_to_place t),
             ia_transport_mode = ti_recommended_mode t\<rparr>)"

subsection \<open>The routing loop of a day\<close>

record activity =
  ac_name :: pyval
  ac_loc :: coord
  ac_place_type :: pyval
  ac_duration_minutes :: int
  ac_start_time :: int
  ac_end_time :: int
  ac_priority :: pyval
  ac_rating :: pyval
  ac_image :: pyval
  ac_address :: pyval
  ac_quality_flag :: pyval

datatype timeline_item = Transfer pydict | Visit activity

text \<open>
  \<open>routing_service_robust\<close> as the loop sees it: a stateful operation from two points and a mode
  to an answer dictionary.
\<close>

type_synonym 's router = "coord \<Rightarrow> coord \<Rightarrow> string \<Rightarrow> 's \<Rightarrow> pydict res \<times> 's"

record 's day_state =
  ds_activities :: "activity list"
  ds_timeline :: "timeline_item list"
  ds_time :: int
  ds_loc :: coord
  ds_svc :: 's

record planner =
  pl_settings :: settings
  pl_show :: "pyval \<Rightarrow> string"
  pl_hash :: "pyval \<Rightarrow> int"

definition pcoord :: "pydict \<Rightarrow> coord res" where
  "pcoord p = rbind (pnum p ''lat'') (\<lambda>a. rbind (pnum p ''lon'') (\<lambda>b. Inr (a, b)))"

text \<open>A transfer to \<open>loc\<close> at the end of the timeline; \<open>int()\<close> truncates the duration.\<close>

definition make_transfer ::
  "planner \<Rightarrow> pydict \<Rightarrow> pyval \<Rightarrow> pyval res \<Rightarrow> bool \<Rightarrow> string \<Rightarrow> coord \<Rightarrow> coord \<Rightarrow> (pydict \<times> int) res" where
  "make_transfer pl eta_info from_place to_name back mode from loc =
     rbind (dindex eta_info ''distance_km'') (\<lambda>vd. rbind (need_num vd) (\<lambda>d. rbind to_name (\<lambda>to_place.
     rbind (rbind (dindex eta_info ''duration_minutes'') py_int) (\<lambda>minutes.
     rbind (transfer_item_to_dict (pl_show pl) (pl_hash pl)
        \<lparr>ti_from_place = from_place, ti_to_place = to_place, ti_distance_km = vd,
         ti_duration_minutes = minutes,
         ti_recommended_mode = decide_mode_by_distance_km (pl_settings pl) d mode,
         ti_is_intercity = False, ti_overnight = False, ti_is_return_to_hotel = back, ti_from = from, ti_to = loc\<rparr>) (\<lambda>t.
     Inr (t, minutes))))))"

definition transfer_if_needed ::
  "planner \<Rightarrow> 's router \<Rightarrow> string \<Rightarrow> pydict \<Rightarrow> coord \<Rightarrow> 's day_state \<Rightarrow> 's day_state res" where
  "transfer_if_needed pl route mode place loc s =
     (if ds_loc s = loc then Inr s
      else
        let (r, svc') = route (ds_loc s) loc mode (ds_svc s) in
        rbind r (\<lambda>eta_info.
        rbind (make_transfer pl eta_info (VStr []) (dindex place ''name'') False mode (ds_loc s) loc) (\<lambda>(t, minutes).
        Inr (s\<lparr>ds_timeline := ds_timeline s @ [Transfer t], ds_time := ds_time s + minutes, ds_svc := svc'\<rparr>))))"

definition make_activity :: "pydict \<Rightarrow> coord \<Rightarrow> int \<Rightarrow> int \<Rightarrow> activity res" where
  "make_activity place loc start duration =
     rbind (dindex place ''name'') (\<lambda>name.
     Inr \<lparr>ac_name = name, ac_loc = loc, ac_place_type = dget place ''type'' (VStr ''point_of_interest''),
        ac_duration_minutes = duration, ac_start_time = start, ac_end_time = start + duration,
        ac_priority = dget place ''priority'' (VInt 5), ac_rating = dget place ''rating'' (VFloat (45/10)),
        ac_image = dget place ''image'' (VStr []), ac_address = dget place ''address'' (VStr []),
        ac_quality_flag = dget place ''quality_flag'' VNone\<rparr>)"

text \<open>
  One place: the state after it and whether the loop goes on.  A place that does not fit ends the
  loop after its transfer has been added.
\<close>

definition visit_place ::
  "planner \<Rightarrow> 's router \<Rightarrow> string \<Rightarrow> time_window \<Rightarrow> pydict \<Rightarrow> 's day_state \<Rightarrow> ('s day_state \<times> bool) res" where
  "visit_place pl route mode daily place s =
     rbind (pcoord place) (\<lambda>loc.
     rbind (transfer_if_needed pl route mode place loc s) (\<lambda>s1.
     rbind (estimate_activity_duration place) (\<lambda>duration.
     rbind (get_preferred_time_window (pl_settings pl) (dget place ''type'' (VStr [])) daily) (\<lambda>windows.
     let best = find_best_time_slot (ds_time s1) duration windows;
         start = (if best + duration > tw_end daily
                  then (if ds_time s1 + duration \<le> tw_end daily then Some (ds_time s1) else None)
                  else Some best)
     in case start of
          None \<Rightarrow> rbind (dindex place ''name'') (\<lambda>_. Inr (s1, False))
        | Some t \<Rightarrow>
            rbind (make_activity place loc t duration) (\<lambda>a.
            Inr (s1\<lparr>ds_activities := ds_activities s1 @ [a], ds_timeline := ds_timeline s1 @ [Visit a],
                    ds_time := ac_end_time a, ds_loc := loc\<rparr>, True))))))"

fun visit_places ::
  "planner \<Rightarrow> 's router \<Rightarrow> string \<Rightarrow> time_window \<Rightarrow> pydict list \<Rightarrow> 's day_state \<Rightarrow> 's day_state res" where
  "visit_places pl route mode daily [] s = Inr s"
| "visit_places pl route mode daily (p # ps) s =
     rbind (visit_place pl route mode daily p s) (\<lambda>(s', go_on).
     if go_on then visit_places pl route mode daily ps s' else Inr s')"

text \<open>The way back to the hotel; an exception only drops this transfer.\<close>

definition return_to_hotel ::
  "planner \<Rightarrow> 's router \<Rightarrow> string \<Rightarrow> pydict \<Rightarrow> coord \<Rightarrow> 's day_state \<Rightarrow> 's day_state" where
  "return_to_hotel pl route mode base hotel s =
     (if ds_loc s \<noteq> hotel \<and> ds_activities s \<noteq> [] then
        (let (r, svc') = route (ds_loc s) hotel mode (ds_svc s) in
         case rbind r (\<lambda>eta_info.
              make_transfer pl eta_info (VStr ([char_of (195::nat), char_of (186::nat)] @ ''ltima actividad'')) (dindex base ''name'') True mode (ds_loc s) hotel) of
           Inl e \<Rightarrow> s\<lparr>ds_svc := svc'\<rparr>
         | Inr (t, minutes) \<Rightarrow> s\<lparr>ds_timeline := ds_timeline s @ [Transfer t], ds_svc := svc'\<rparr>)
      else s)"

definition not_lodging :: "pydict \<Rightarrow> bool" where
  "not_lodging p \<longleftrightarrow> \<not> is_str (dget p ''place_type'' VNone) ''accommodation'' \<and> \<not> is_str (dget p ''type'' VNone) ''accommodation''"

definition route_cluster_with_time_windows ::
  "planner \<Rightarrow> 's router \<Rightarrow> cluster \<Rightarrow> int \<Rightarrow> time_window \<Rightarrow> string \<Rightarrow> 's \<Rightarrow> (activity list \<times> timeline_item list \<times> 's) res" where
  "route_cluster_with_time_windows pl route c start_time daily mode svc =
     (if cl_places c = [] then Inr ([], [], svc)
      else
        rbind (sort_places_by_time_preference (pl_settings pl) (cl_places c) start_time) (\<lambda>sorted_places.
        rbind (if has_base c
               then rbind (pcoord (the (cl_home_base c))) (\<lambda>h. rbind (dindex (the (cl_home_base c)) ''name'') (\<lambda>_. Inr h))
               else pcoord (hd (cl_places c))) (\<lambda>from.
        rbind (visit_places pl route mode daily (filter not_lodging sorted_places)
                 \<lparr>ds_activities = [], ds_timeline = [], ds_time = start_time, ds_loc = from, ds_svc = svc\<rparr>) (\<lambda>s.
        let s' = (if has_base c then return_to_hotel pl route mode (the (cl_home_base c)) from s else s)
        in Inr (ds_activities s', ds_timeline s', ds_svc s')))))"

subsection \<open>Free time\<close>

record free_block =
  fb_start_time :: int
  fb_end_time :: int
  fb_duration_minutes :: int
  fb_suggestions :: "pydict list"
  fb_note :: string

definition select_types_by_duration :: "int \<Rightarrow> string list" where
  "select_types_by_duration m =
     (if m \<ge> 240 then [''tourist_attraction'', ''restaurant'', ''museum'']
      else if m \<ge> 120 then [''restaurant'', ''tourist_attraction'', ''cafe'']
      else [''restaurant'', ''cafe'', ''bar''])"

definition variety_types :: "string list" where
  "variety_types = [''cafe'', ''restaurant'', ''museum'', ''park'', ''point_of_interest'', ''art_gallery'']"

definition select_types_by_duration_and_day :: "int \<Rightarrow> int \<Rightarrow> string list" where
  "select_types_by_duration_and_day m day_number =
     (let i = nat ((day_number - 1) mod 6);
          base = [''tourist_attraction'', variety_types ! i, variety_types ! ((i + 1) mod 6)]
      in if m \<ge> 480 then base
         else if m \<ge> 240 then take 2 base
         else [''tourist_attraction'', ''cafe''])"

definition generate_free_blocks :: "int \<Rightarrow> int \<Rightarrow> free_block list" where
  "generate_free_blocks start_time end_time =
     (if start_time \<ge> end_time then []
      else
        let d = end_time - start_time
        in [\<lparr>fb_start_time = start_time, fb_end_time = end_time, fb_duration_minutes = d, fb_suggestions = [],
             fb_note = ''Tiempo libre: '' @ show_int (d div 60) @ ''h '' @ show_int (d mod 60) @ ''m''\<rparr>])"

definition no_quality_note :: string where
  "no_quality_note = ''No hay lugares cercanos que cumplan nuestros est'' @ [char_of (195::nat), char_of (161::nat)] @
     ''ndares de calidad (4.5'' @ [char_of (226::nat), char_of (173::nat), char_of (144::nat)] @ '', 20+ rese'' @
     [char_of (195::nat), char_of (177::nat)] @ ''as)''"

text \<open>
  \<open>found types\<close> is what the search for these types and the enrichment of its answers yield.
\<close>

definition generate_free_blocks_enhanced ::
  "(string list \<Rightarrow> pydict list res) \<Rightarrow> int \<Rightarrow> int \<Rightarrow> coord option \<Rightarrow> int \<Rightarrow> free_block list" where
  "generate_free_blocks_enhanced found current_time day_end location day_number =
     (if current_time < day_end then
        (let d = day_end - current_time;
             (sugg, note) =
               (if location \<noteq> None \<and> d \<ge> 60 then
                  (case found (select_types_by_duration_and_day d day_number) of
                     Inl e \<Rightarrow> ([], ''Servicio de sugerencias temporalmente no disponible'')
                   | Inr ps \<Rightarrow>
                       (let real_count = length (filter (\<lambda>p. \<not> truthy (dget p ''synthetic'' (VBool True))) ps)
                        in if ps \<noteq> [] \<and> real_count > 0
                           then (ps, ''Sugerencias para '' @ show_int (d div 60) @ ''h de tiempo libre ('' @
                                     show_nat real_count @ '' lugares reales de alta calidad)'')
                           else ([], no_quality_note)))
                else ([], []))
         in [\<lparr>fb_start_time = current_time, fb_end_time = day_end, fb_duration_minutes = d,
              fb_suggestions = sugg, fb_note = note\<rparr>])
      else [])"

subsection \<open>Reasons and metrics\<close>

definition distance_desc :: "(pyval \<Rightarrow> string) \<Rightarrow> pyval \<Rightarrow> string res" where
  "distance_desc show eta =
     rbind (need_num eta) (\<lambda>x.
     Inr (if x \<le> 5 then ''muy cerca'' else if x \<le> 15 then ''cerca'' else show eta @ ''min caminando''))"

definition star :: string where
  "star = [char_of (226::nat), char_of (173::nat), char_of (144::nat)]"

definition rating_desc :: "(pyval \<Rightarrow> string) \<Rightarrow> pyval \<Rightarrow> string res" where
  "rating_desc show rating =
     rbind (need_num rating) (\<lambda>r.
     Inr (if r \<ge> 45/10 then ''excelente rating ('' @ show rating @ star @ '')''
          else if r \<ge> 4 then ''buen rating ('' @ show rating @ star @ '')''
          else ''rating '' @ show rating @ star))"

definition generate_suggestion_reason :: "(pyval \<Rightarrow> string) \<Rightarrow> pydict \<Rightarrow> pyval \<Rightarrow> string res" where
  "generate_suggestion_reason show sg eta =
     rbind (distance_desc show eta) (\<lambda>d.
     rbind (rating_desc show (dget sg ''rating'' (VFloat (45/10)))) (\<lambda>r. Inr (r @ '', '' @ d)))"

definition generate_suggestion_reason_enhanced :: "(pyval \<Rightarrow> string) \<Rightarrow> pydict \<Rightarrow> pyval \<Rightarrow> string res" where
  "generate_suggestion_reason_enhanced show sg eta =
     rbind (distance_desc show eta) (\<lambda>d.
     rbind (rating_desc show (dget sg ''rating'' (VFloat 4))) (\<lambda>r.
     Inr ((if dget sg ''source'' (VStr ''synthetic'') = VStr ''google_places'' then ''Google Places: '' else []) @
          r @ '', '' @ d)))"

text \<open>\<open>sum(day.get('travel_summary', {}).get(k, 0) for day in days)\<close>\<close>

definition sum_summary :: "pydict list \<Rightarrow> string \<Rightarrow> real res" where
  "sum_summary days k =
     rbind (rmap_list (\<lambda>d. rbind (vget (dget d ''travel_summary'' (VDict [])) k (VInt 0)) need_num) days) (\<lambda>xs.
     Inr (sum_list xs))"

definition efficiency_score :: "real \<Rightarrow> real \<Rightarrow> real" where
  "efficiency_score travel_minutes intercity_minutes =
     (let travel_penalty = min (4/10) (travel_minutes / 480 * (2/10));
          intercity_penalty = min (2/10) (intercity_minutes / 240 * (1/10))
      in max (1/10) (95/100 - travel_penalty - intercity_penalty))"

record metrics =
  me_efficiency_score :: real
  me_total_distance_km :: real
  me_total_travel_time_minutes :: real
  me_walking_time_minutes :: real
  me_transport_time_minutes :: real
  me_long_transfers_detected :: real
  me_intercity_transfers :: "pydict list"
  me_total_intercity_time_hours :: real
  me_total_intercity_distance_km :: real

text \<open>Hours and minutes of a duration, as an f-string prints them.\<close>

fun format_duration :: "pyval \<Rightarrow> string res" where
  "format_duration (VInt m) =
     Inr (if m \<ge> 60 then
            (if m mod 60 > 0 then show_int (m div 60) @ ''h'' @ show_int (m mod 60) @ ''min'' else show_int (m div 60) @ ''h'')
          else show_int m @ ''min'')"
| "format_duration (VFloat x) =
     (let hours = real_of_int \<lfloor>x / 60\<rfloor>; mins = x - 60 * hours
      in Inr (if x \<ge> 60 then
                (if mins > 0 then show_float hours @ ''h'' @ show_float mins @ ''min'' else show_float hours @ ''h'')
              else show_float x @ ''min''))"
| "format_duration (VBool b) = Inr ((if b then ''True'' else ''False'') @ ''min'')"
| "format_duration _ = Inl TypeError"

text \<open>The entry of an intercity transfer.\<close>

definition intercity_entry :: "pydict \<Rightarrow> pydict res" where
  "intercity_entry t =
     (let v = dget t ''duration_minutes'' (VInt 60) in
      rbind (format_duration v) (\<lambda>shown.
      rbind (dindex t ''from'') (\<lambda>f. rbind (dindex t ''to'') (\<lambda>to.
      rbind (dindex t ''distance_km'') (\<lambda>d. rbind (need_num v) (\<lambda>m. rbind (dindex t ''mode'') (\<lambda>mode.
      Inr [(''from'', f), (''to'', to),
           (''from_lat'', dget t ''from_lat'' (VFloat 0)), (''from_lon'', dget t ''from_lon'' (VFloat 0)),
           (''to_lat'', dget t ''to_lat'' (VFloat 0)), (''to_lon'', dget t ''to_lon'' (VFloat 0)),
           (''distance_km'', d), (''duration'', VStr shown), (''duration_minutes'', v),
           (''estimated_time_hours'', VFloat (m / 60)), (''mode'', mode),
           (''overnight'', dget t ''overnight'' (VBool False))])))))))"

definition day_intercity :: "pydict \<Rightarrow> pydict list res" where
  "day_intercity day =
     rbind (viter (dget day ''transfers'' (VList []))) (\<lambda>ts.
     rbind (rfilter (\<lambda>t. rbind (vget t ''type'' VNone) (\<lambda>v. Inr (v = VStr ''intercity_transfer''))) ts) (\<lambda>ics.
     rmap_list (\<lambda>t. case t of VDict d \<Rightarrow> intercity_entry d | _ \<Rightarrow> Inl AttributeError) ics))"

definition calculate_enhanced_metrics :: "pydict list \<Rightarrow> metrics res" where
  "calculate_enhanced_metrics days =
     rbind (sum_summary days ''walking_time_minutes'') (\<lambda>walking.
     rbind (sum_summary days ''transport_time_minutes'') (\<lambda>transport.
     rbind (sum_summary days ''total_distance_km'') (\<lambda>distance.
     rbind (rmap_list (\<lambda>d. vlen (dget d ''activities'' (VList []))) days) (\<lambda>_.
     rbind (sum_summary days ''intercity_transfers_count'') (\<lambda>n_intercity.
     rbind (sum_summary days ''intercity_total_minutes'') (\<lambda>intercity.
     rbind (rmap_list day_intercity days) (\<lambda>transfers.
     rbind (rmap_list (\<lambda>t. pnum t ''distance_km'') (concat transfers)) (\<lambda>ds.
     Inr \<lparr>me_efficiency_score = efficiency_score (walking + transport) intercity,
        me_total_distance_km = distance, me_total_travel_time_minutes = walking + transport,
        me_walking_time_minutes = walking, me_transport_time_minutes = transport,
        me_long_transfers_detected = n_intercity, me_intercity_transfers = concat transfers,
        me_total_intercity_time_hours = intercity / 60,
        me_total_intercity_distance_km = sum_list ds\<rparr>))))))))"

subsection \<open>Routers with non-negative durations\<close>

text \<open>A transfer with a numeric distance is always rendered.\<close>

lemma transfer_name_total:
  assumes "dget p ''duration_minutes'' (VInt 0) = VInt k" "num_of (dget p ''distance_km'' (VInt 0)) = Some d"
  shows "\<exists>n. transfer_name sh p = Inr n"
  using assms
  by (cases "dget p ''distance_km'' (VInt 0)")
    (auto simp: transfer_name_def Let_def ge_num_def gt_num_def show_0f_def split: if_splits)

lemma transfer_item_to_dict_total:
  assumes "num_of (ti_distance_km t) = Some d"
  shows "\<exists>r. transfer_item_to_dict sh pyhash t = Inr r"
proof -
  let ?p = "transfer_fields sh pyhash t"
  obtain n where "transfer_name sh ?p = Inr n"
    using transfer_name_total [of ?p "ti_duration_minutes t" d sh] assms by (auto simp: dget_def transfer_fields_def)
  then have n: "generate_smart_name sh ?p = Inr (VStr n)"
    by (simp add: generate_smart_name_def dget_def transfer_fields_def)
  have p: "dget ?p ''name'' v = v" "dget ?p ''rating'' v = VFloat (45/10)" "dget ?p ''price_level'' v = v"
    "dget ?p ''priority'' v = VInt 5" "dget ?p ''photos'' v = v" for v
    by (simp_all add: dget_def transfer_fields_def)
  show ?thesis
    by (simp add: transfer_item_to_dict_def normalize_place_fields_def n p clamp_def lt_num_def photo_url_def Let_def)
qed

lemma make_transfer_total:
  assumes "dindex eta ''distance_km'' = Inr vd" "num_of vd = Some d" "to_name = Inr w"
    and "dindex eta ''duration_minutes'' = Inr v" "py_int v = Inr m"
  shows "\<exists>t. make_transfer pl eta from_place to_name back mode p q = Inr (t, m)"
proof -
  obtain t where "transfer_item_to_dict (pl_show pl) (pl_hash pl)
      \<lparr>ti_from_place = from_place, ti_to_place = w, ti_distance_km = vd, ti_duration_minutes = m,
       ti_recommended_mode = decide_mode_by_distance_km (pl_settings pl) d mode,
       ti_is_intercity = False, ti_overnight = False, ti_is_return_to_hotel = back, ti_from = p, ti_to = q\<rparr> = Inr t"
    using transfer_item_to_dict_total [of _ d] assms(2) by fastforce
  with assms show ?thesis by (simp add: make_transfer_def need_num_def)
qed



definition nonneg_duration :: "pydict \<Rightarrow> bool" where
  "nonneg_duration r \<longleftrightarrow> (\<forall>v n. dindex r ''duration_minutes'' = Inr v \<longrightarrow> py_int v = Inr n \<longrightarrow> 0 \<le> n)"

text \<open>
  What the scheduler relies on: in a good state an answer has a non-negative duration, and the
  state stays good.
\<close>

locale eta_provider =
  fixes route :: "'s router"
    and good :: "'s \<Rightarrow> bool"
  assumes answer_nonneg: "good s \<Longrightarrow> fst (route p q mode s) = Inr r \<Longrightarrow> nonneg_duration r"
    and stays_good: "good s \<Longrightarrow> good (snd (route p q mode s))"

text \<open>The activities of a day, each within the window and after the one before.\<close>

fun well_timed :: "int \<Rightarrow> int \<Rightarrow> activity list \<Rightarrow> bool" where
  "well_timed lo until [] \<longleftrightarrow> True"
| "well_timed lo until (a # xs) \<longleftrightarrow>
     lo \<le> ac_start_time a \<and> ac_end_time a = ac_start_time a + ac_duration_minutes a \<and>
     60 \<le> ac_duration_minutes a \<and> ac_end_time a \<le> until \<and> well_timed (ac_end_time a) until xs"

definition last_end :: "int \<Rightarrow> activity list \<Rightarrow> int" where
  "last_end lo xs = (if xs = [] then lo else ac_end_time (last xs))"

lemma well_timed_append:
  "well_timed lo until (xs @ [a]) \<longleftrightarrow> well_timed lo until xs \<and> well_timed (last_end lo xs) until [a]"
  by (induction xs arbitrary: lo) (auto simp: last_end_def)

lemma last_end_snoc [simp]: "last_end lo (xs @ [a]) = ac_end_time a"
  by (simp add: last_end_def)

lemma find_best_time_slot_ge: "earliest \<le> find_best_time_slot earliest d ws"
  by (induction ws) auto

lemma estimate_duration_ge: "estimate_activity_duration p = Inr d \<Longrightarrow> 60 \<le> d"
  by (auto simp: estimate_activity_duration_def rbind_eq_Inr_iff split: option.splits if_splits)

text \<open>The visits of a timeline, in order.\<close>

fun visits :: "timeline_item list \<Rightarrow> activity list" where
  "visits [] = []"
| "visits (Transfer d # items) = visits items"
| "visits (Visit a # items) = a # visits items"

lemma visits_append [simp]: "visits (xs @ ys) = visits xs @ visits ys"
  by (induction xs rule: visits.induct) auto

text \<open>The place an activity was made from.\<close>

definition activity_of :: "pydict \<Rightarrow> activity \<Rightarrow> bool" where
  "activity_of p a \<longleftrightarrow> dindex p ''name'' = Inr (ac_name a) \<and> pcoord p = Inr (ac_loc a) \<and>
     estimate_activity_duration p = Inr (ac_duration_minutes a)"

text \<open>The timeline holds the visits in order, and a place that does not fit leaves only a transfer.\<close>

lemma transfer_if_needed_shape:
  assumes "transfer_if_needed pl route mode place loc s = Inr s'"
  shows "ds_loc s' = ds_loc s \<and> ds_activities s' = ds_activities s \<and>
    (if ds_loc s = loc then s' = s else \<exists>t. ds_timeline s' = ds_timeline s @ [Transfer t])"
  using assms by (auto simp: transfer_if_needed_def rbind_eq_Inr_iff split: if_splits prod.splits)

lemma visit_place_shape:
  assumes "visit_place pl route mode daily p s = Inr (s', go_on)"
  obtains s1 loc where "pcoord p = Inr loc" "transfer_if_needed pl route mode p loc s = Inr s1"
    "(\<not> go_on \<and> s' = s1) \<or>
     (\<exists>a. go_on \<and> ds_activities s' = ds_activities s1 @ [a] \<and> ds_timeline s' = ds_timeline s1 @ [Visit a])"
  using assms unfolding visit_place_def
  by (auto simp: rbind_eq_Inr_iff Let_def split: option.splits if_splits)

lemma visit_place_visits:
  assumes "visit_place pl route mode daily p s = Inr (s', go_on)" "visits (ds_timeline s) = ds_activities s"
  shows "visits (ds_timeline s') = ds_activities s'"
proof -
  from assms(1) obtain s1 loc where s1: "transfer_if_needed pl route mode p loc s = Inr s1"
    "(\<not> go_on \<and> s' = s1) \<or>
     (\<exists>a. go_on \<and> ds_activities s' = ds_activities s1 @ [a] \<and> ds_timeline s' = ds_timeline s1 @ [Visit a])"
    by (rule visit_place_shape)
  have "visits (ds_timeline s1) = ds_activities s1"
    using transfer_if_needed_shape [OF s1(1)] assms(2) by (auto split: if_splits)
  with s1(2) show ?thesis by auto
qed

lemma visit_places_visits:
  "visit_places pl route mode daily ps s = Inr s' \<Longrightarrow> visits (ds_timeline s) = ds_activities s \<Longrightarrow>
   visits (ds_timeline s') = ds_activities s'"
proof (induction ps arbitrary: s)
  case Nil
  then show ?case by simp
next
  case (Cons p ps)
  from Cons.prems(1) obtain s1 go_on where v: "visit_place pl route mode daily p s = Inr (s1, go_on)"
    "(if go_on then visit_places pl route mode daily ps s1 else Inr s1) = Inr s'"
    by (auto simp: rbind_eq_Inr_iff)
  note one = visit_place_visits [OF v(1) Cons.prems(2)]
  show ?case using v(2) Cons.IH [OF _ one] one by (simp split: if_splits)
qed

lemma return_to_hotel_visits:
  "ds_activities (return_to_hotel pl route mode base h s) = ds_activities s \<and>
   visits (ds_timeline (return_to_hotel pl route mode base h s)) = visits (ds_timeline s)"
  by (auto simp: return_to_hotel_def split: prod.splits sum.splits)

lemma cluster_timeline_visits:
  assumes "route_cluster_with_time_windows pl route c start_time daily mode svc = Inr (acts, items, svc')"
  shows "visits items = acts"
proof (cases "cl_places c = []")
  case True
  with assms show ?thesis by (simp add: route_cluster_with_time_windows_def)
next
  case False
  with assms obtain ps h s where
    v: "visit_places pl route mode daily (filter not_lodging ps)
          \<lparr>ds_activities = [], ds_timeline = [], ds_time = start_time, ds_loc = h, ds_svc = svc\<rparr> = Inr s"
    and r: "acts = ds_activities (if has_base c then return_to_hotel pl route mode (the (cl_home_base c)) h s else s)"
      "items = ds_timeline (if has_base c then return_to_hotel pl route mode (the (cl_home_base c)) h s else s)"
    unfolding route_cluster_with_time_windows_def by (auto simp: rbind_eq_Inr_iff Let_def)
  from visit_places_visits [OF v] r show ?thesis by (simp add: return_to_hotel_visits)
qed

context eta_provider
begin

lemma transfer_advances:
  assumes "transfer_if_needed pl route mode place loc s = Inr s'" "good (ds_svc s)"
  shows "ds_time s \<le> ds_time s' \<and> ds_activities s' = ds_activities s \<and>
    visits (ds_timeline s') = visits (ds_timeline s) \<and> good (ds_svc s')"
proof (cases "ds_loc s = loc")
  case True
  with assms show ?thesis by (simp add: transfer_if_needed_def)
next
  case False
  obtain r svc' where rt: "route (ds_loc s) loc mode (ds_svc s) = (r, svc')" by fastforce
  with False assms(1) obtain eta t minutes where e: "r = Inr eta"
    "make_transfer pl eta (VStr []) (dindex place ''name'') False mode (ds_loc s) loc = Inr (t, minutes)"
    "s' = s\<lparr>ds_timeline := ds_timeline s @ [Transfer t], ds_time := ds_time s + minutes, ds_svc := svc'\<rparr>"
    by (auto simp: transfer_if_needed_def rbind_eq_Inr_iff)
  have "nonneg_duration eta" using answer_nonneg [OF assms(2), of "ds_loc s" loc mode eta] rt e(1) by simp
  moreover from e(2) obtain v where "dindex eta ''duration_minutes'' = Inr v" "py_int v = Inr minutes"
    by (auto simp: make_transfer_def rbind_eq_Inr_iff)
  ultimately have "0 \<le> minutes" by (simp add: nonneg_duration_def)
  moreover have "good svc'" using stays_good [OF assms(2), of "ds_loc s" loc mode] rt by simp
  ultimately show ?thesis using e(3) by simp
qed

lemma visit_place_timed:
  assumes "visit_place pl route mode daily p s = Inr (s', go_on)" "good (ds_svc s)"
    and "well_timed lo (tw_end daily) (ds_activities s)" "last_end lo (ds_activities s) \<le> ds_time s"
  shows "good (ds_svc s') \<and>
    (if go_on then \<exists>a. ds_activities s' = ds_activities s @ [a] \<and> activity_of p a \<and>
        well_timed lo (tw_end daily) (ds_activities s') \<and> last_end lo (ds_activities s') \<le> ds_time s'
     else ds_activities s' = ds_activities s)"
proof -
  from assms(1) obtain loc s1 duration windows where
    loc: "pcoord p = Inr loc" and t: "transfer_if_needed pl route mode p loc s = Inr s1"
    and d: "estimate_activity_duration p = Inr duration"
    and r: "(let best = find_best_time_slot (ds_time s1) duration windows;
         start = (if best + duration > tw_end daily
                  then (if ds_time s1 + duration \<le> tw_end daily then Some (ds_time s1) else None)
                  else Some best)
     in case start of
          None \<Rightarrow> rbind (dindex p ''name'') (\<lambda>_. Inr (s1, False))
        | Some t \<Rightarrow>
            rbind (make_activity p loc t duration) (\<lambda>a.
            Inr (s1\<lparr>ds_activities := ds_activities s1 @ [a], ds_timeline := ds_timeline s1 @ [Visit a],
                    ds_time := ac_end_time a, ds_loc := loc\<rparr>, True))) = Inr (s', go_on)"
    unfolding visit_place_def rbind_eq_Inr_iff by blast
  note adv = transfer_advances [OF t assms(2)]
  define start where "start = (let best = find_best_time_slot (ds_time s1) duration windows in
       if best + duration > tw_end daily
       then (if ds_time s1 + duration \<le> tw_end daily then Some (ds_time s1) else None) else Some best)"
  show ?thesis
  proof (cases start)
    case None
    with r have "s' = s1" "\<not> go_on" by (auto simp: start_def Let_def rbind_eq_Inr_iff)
    with adv show ?thesis by simp
  next
    case (Some t0)
    with r obtain a where a: "make_activity p loc t0 duration = Inr a" "go_on"
      "s' = s1\<lparr>ds_activities := ds_activities s1 @ [a], ds_timeline := ds_timeline s1 @ [Visit a],
                    ds_time := ac_end_time a, ds_loc := loc\<rparr>"
      unfolding start_def Let_def by (auto simp: rbind_eq_Inr_iff)
    have t0: "ds_time s1 \<le> t0" "t0 + duration \<le> tw_end daily"
      using Some find_best_time_slot_ge [of "ds_time s1" duration windows]
      by (auto simp: start_def Let_def split: if_splits)
    have "activity_of p a" "ac_start_time a = t0" "ac_duration_minutes a = duration" "ac_end_time a = t0 + duration"
      using a(1) loc d by (auto simp: make_activity_def activity_of_def rbind_eq_Inr_iff)
    then show ?thesis
      using a(2,3) adv t0 assms(3,4) estimate_duration_ge [OF d] by (simp add: well_timed_append)
  qed
qed

lemma visit_places_timed:
  assumes "visit_places pl route mode daily ps s = Inr s'" "good (ds_svc s)"
    and "well_timed lo (tw_end daily) (ds_activities s)" "last_end lo (ds_activities s) \<le> ds_time s"
  shows "good (ds_svc s') \<and> well_timed lo (tw_end daily) (ds_activities s') \<and>
    (\<exists>n xs. ds_activities s' = ds_activities s @ xs \<and> list_all2 activity_of (take n ps) xs)"
  using assms
proof (induction ps arbitrary: s)
  case Nil
  then show ?case by auto
next
  case (Cons p ps)
  then obtain s1 go_on where v: "visit_place pl route mode daily p s = Inr (s1, go_on)"
    "(if go_on then visit_places pl route mode daily ps s1 else Inr s1) = Inr s'"
    by (auto simp: rbind_eq_Inr_iff)
  note one = visit_place_timed [OF v(1) Cons.prems(2-4)]
  show ?case
  proof (cases go_on)
    case False
    with v(2) one Cons.prems(3) show ?thesis
      by (intro conjI exI [of _ "0::nat"] exI [of _ "[]"]) auto
  next
    case True
    with one obtain a where a: "ds_activities s1 = ds_activities s @ [a]" "activity_of p a"
      "well_timed lo (tw_end daily) (ds_activities s1)" "last_end lo (ds_activities s1) \<le> ds_time s1" "good (ds_svc s1)"
      by auto
    from Cons.IH [OF _ a(5) a(3,4)] v(2) True obtain n xs where
      n: "good (ds_svc s')" "well_timed lo (tw_end daily) (ds_activities s')"
      "ds_activities s' = ds_activities s1 @ xs" "list_all2 activity_of (take n ps) xs"
      by auto
    have "list_all2 activity_of (take (Suc n) (p # ps)) (a # xs)" using a(2) n(4) by simp
    moreover have "ds_activities s' = ds_activities s @ (a # xs)" using a(1) n(3) by simp
    ultimately show ?thesis using n(1,2) by blast
  qed
qed

lemma return_keeps_good: "good (ds_svc s) \<Longrightarrow> good (ds_svc (return_to_hotel pl route mode base h s))"
  using stays_good [of "ds_svc s" "ds_loc s" h mode]
  by (auto simp: return_to_hotel_def split: prod.splits sum.splits)

lemma day_is_well_timed:
  assumes "route_cluster_with_time_windows pl route c start_time daily mode svc = Inr (acts, items, svc')" "good svc"
  shows "good svc' \<and> well_timed start_time (tw_end daily) acts \<and>
    (\<exists>ps n. sort_places_by_time_preference (pl_settings pl) (cl_places c) start_time = Inr ps \<and>
       list_all2 activity_of (take n (filter not_lodging ps)) acts)"
proof (cases "cl_places c = []")
  case True
  with assms show ?thesis
    by (simp add: route_cluster_with_time_windows_def sort_places_by_time_preference_def)
next
  case False
  with assms(1) obtain ps h s where ps: "sort_places_by_time_preference (pl_settings pl) (cl_places c) start_time = Inr ps"
    and v: "visit_places pl route mode daily (filter not_lodging ps)
                 \<lparr>ds_activities = [], ds_timeline = [], ds_time = start_time, ds_loc = h, ds_svc = svc\<rparr> = Inr s"
    and r: "acts = ds_activities (if has_base c then return_to_hotel pl route mode (the (cl_home_base c)) h s else s)"
      "svc' = ds_svc (if has_base c then return_to_hotel pl route mode (the (cl_home_base c)) h s else s)"
    unfolding route_cluster_with_time_windows_def by (auto simp: rbind_eq_Inr_iff Let_def)
  have a: "acts = ds_activities s" unfolding r(1) by (simp add: return_to_hotel_visits)
  from visit_places_timed [OF v, of start_time] assms(2)
  have t: "good (ds_svc s)" "well_timed start_time (tw_end daily) acts"
    "\<exists>n. list_all2 activity_of (take n (filter not_lodging ps)) acts"
    by (auto simp: last_end_def a)
  have "good svc'" unfolding r(2) using return_keeps_good [OF t(1)] t(1) by simp
  with t ps show ?thesis by auto
qed

end

text \<open>
  The robust routing service as a router: the state is the optimiser with the clock and the number
  of calls so far, and \<open>backends\<close> holds what the network answers to each call.
\<close>

type_synonym router_state = "optimizer \<times> real \<times> nat"

definition robust_router :: "(nat \<Rightarrow> routing_backend) \<Rightarrow> router_state router" where
  "robust_router backends p q mode s =
     (case s of (o1, now, i) \<Rightarrow>
        (case routing_service_robust (backends i) p q mode now o1 of (r, now', o2) \<Rightarrow> (r, (o2, now', Suc i))))"

definition nonneg_backends :: "(nat \<Rightarrow> routing_backend) \<Rightarrow> bool" where
  "nonneg_backends backends \<longleftrightarrow> (\<forall>i j v. backend_answer (backends i) j v \<longrightarrow> nonneg_duration v)"

lemma emergency_nonneg: "emergency_routing_fallback p q mode = Inr r \<Longrightarrow> nonneg_duration r"
  by (auto simp: emergency_routing_fallback_def rbind_eq_Inr_iff Let_def nonneg_duration_def dindex_def)

interpretation robust: eta_provider "robust_router backends" "\<lambda>s. nonneg_backends backends"
proof unfold_locales
  fix s p q mode r
  assume g: "nonneg_backends backends" and f: "fst (robust_router backends p q mode s) = Inr r"
  obtain o1 now i where s: "s = (o1, now, i)" by (cases s) auto
  obtain t o2 where rs: "routing_service_robust (backends i) p q mode now o1 = (Inr r, t, o2)"
    using f by (cases "routing_service_robust (backends i) p q mode now o1") (auto simp: robust_router_def s)
  from routing_service_robust_cases [OF rs]
  consider j v where "Inr r = (Inr v :: pydict res)" "backend_answer (backends i) j v"
    | "emergency_routing_fallback p q mode = Inr r" by auto
  then show "nonneg_duration r"
  proof cases
    case 1
    then show ?thesis using g by (simp add: nonneg_backends_def)
  next
    case 2
    then show ?thesis by (rule emergency_nonneg)
  qed
qed simp

subsection \<open>A small day\<close>

text \<open>
  A network that answers every request with two kilometres and half an hour, a museum and a park
  away from the hotel, and a day from nine to twelve: used in the examples below.
\<close>

definition demo_net :: "nat \<Rightarrow> routing_backend" where
  "demo_net = (\<lambda>i. FreeBackend (\<lambda>j. (1, Inr [(''distance_km'', VInt 2), (''duration_minutes'', VInt 30)])))"

definition demo_planner :: planner where
  "demo_planner = \<lparr>pl_settings = default_settings, pl_show = \<lambda>v. ''x'', pl_hash = \<lambda>v. 7\<rparr>"

definition demo_base :: pydict where
  "demo_base = [(''name'', VStr ''Base''), (''lat'', VInt 0), (''lon'', VInt 0)]"

definition demo_museum :: pydict where
  "demo_museum = [(''name'', VStr ''Museum''), (''type'', VStr ''museum''), (''lat'', VInt 1), (''lon'', VInt 0)]"

definition demo_park :: pydict where
  "demo_park = [(''name'', VStr ''Park''), (''type'', VStr ''park''), (''lat'', VInt 0), (''lon'', VInt 1), (''priority'', VInt 2)]"

definition demo_cluster :: cluster where
  "demo_cluster = mk_cluster (LInt 0) (VInt 0, VInt 0) [demo_park, demo_museum] (Some demo_base)"

definition demo_entry :: "pyval \<Rightarrow> string \<Rightarrow> bool \<Rightarrow> string \<Rightarrow> coord \<Rightarrow> coord \<Rightarrow> pydict" where
  "demo_entry w n b m p q =
     (case make_transfer demo_planner [(''distance_km'', VInt 2), (''duration_minutes'', VInt 30)] w (Inr (VStr n)) b m p q of
        Inr (t, i) \<Rightarrow> t | Inl e \<Rightarrow> [])"

lemma demo_nonneg: "nonneg_backends demo_net"
  by (simp add: nonneg_backends_def demo_net_def nonneg_duration_def dindex_def)

lemma demo_make:
  "make_transfer demo_planner [(''distance_km'', VInt 2), (''duration_minutes'', VInt 30)] w (Inr (VStr n)) b m p q =
     Inr (demo_entry w n b m p q, 30)"
  using make_transfer_total [of "[(''distance_km'', VInt 2), (''duration_minutes'', VInt 30)]" "VInt 2" 2 "Inr (VStr n)" "VStr n" "VInt 30" 30 demo_planner w b m p q]
  by (auto simp: demo_entry_def dindex_def)

lemma demo_route:
  "robust_router demo_net p q mode (new_optimizer, now, i) =
     (Inr [(''distance_km'', VInt 2), (''duration_minutes'', VInt 30)], (new_optimizer, now + 1, Suc i))"
  by (simp add: robust_router_def demo_net_def routing_service_robust_def retry_loop.simps call_def new_optimizer_def
      new_breaker_def is_open_def call_elapsed_def record_success_def)

lemma demo_sort: "sort_places_by_time_preference default_settings [demo_park, demo_museum] 540 = Inr [demo_museum, demo_park]"
  by (simp add: sort_places_by_time_preference_def time_preference_score_def demo_park_def demo_museum_def lower_def
      default_settings_def sort_key_def dget_def)

definition demo_start :: "router_state day_state" where
  "demo_start = \<lparr>ds_activities = [], ds_timeline = [], ds_time = 540, ds_loc = (0, 0), ds_svc = (new_optimizer, 0, 0)\<rparr>"

definition demo_visit :: activity where
  "demo_visit = \<lparr>ac_name = VStr ''Museum'', ac_loc = (1, 0), ac_place_type = VStr ''museum'', ac_duration_minutes = 120,
     ac_start_time = 600, ac_end_time = 720, ac_priority = VInt 5, ac_rating = VFloat (45/10), ac_image = VStr [],
     ac_address = VStr [], ac_quality_flag = VNone\<rparr>"

definition demo_mid :: "router_state day_state" where
  "demo_mid = \<lparr>ds_activities = [demo_visit],
     ds_timeline = [Transfer (demo_entry (VStr []) ''Museum'' False ''walk'' (0, 0) (1, 0)), Visit demo_visit],
     ds_time = 720, ds_loc = (1, 0), ds_svc = (new_optimizer, 1, 1)\<rparr>"

definition demo_end :: "router_state day_state" where
  "demo_end = demo_mid\<lparr>ds_timeline := ds_timeline demo_mid @ [Transfer (demo_entry (VStr []) ''Park'' False ''walk'' (1, 0) (0, 1))],
     ds_time := 750, ds_svc := (new_optimizer, 2, 2)\<rparr>"

lemmas visit_simps = visit_place_def pcoord_def pnum_def dindex_def transfer_if_needed_def
  estimate_activity_duration_def lower_def lower_char_def get_preferred_time_window_def window_def make_activity_def dget_def

lemma demo_museum_visit:
  "visit_place demo_planner (robust_router demo_net) ''walk'' (window 540 720) demo_museum demo_start = Inr (demo_mid, True)"
  by (simp add: visit_simps demo_museum_def demo_start_def demo_route demo_make)
    (simp add: demo_planner_def default_settings_def demo_mid_def demo_visit_def)

lemma demo_park_unfit:
  "visit_place demo_planner (robust_router demo_net) ''walk'' (window 540 720) demo_park demo_mid = Inr (demo_end, False)"
  by (simp add: visit_simps demo_park_def demo_mid_def demo_route demo_make)
    (simp add: demo_planner_def default_settings_def demo_mid_def demo_end_def)

lemma demo_day:
  "\<exists>items svc. route_cluster_with_time_windows demo_planner (robust_router demo_net) demo_cluster 540 (window 540 720) ''walk''
     (new_optimizer, 0, 0) = Inr ([demo_visit], items @ [Transfer (demo_entry (VStr ([char_of (195::nat), char_of (186::nat)] @ ''ltima actividad'')) ''Base'' True ''walk'' (1, 0) (0, 0))], svc)"
proof -
  have k: "filter not_lodging [demo_museum, demo_park] = [demo_museum, demo_park]"
    by (simp add: not_lodging_def is_str_def demo_museum_def demo_park_def dget_def)
  have v: "visit_places demo_planner (robust_router demo_net) ''walk'' (window 540 720) [demo_museum, demo_park]
      \<lparr>ds_activities = [], ds_timeline = [], ds_time = 540, ds_loc = (0, 0), ds_svc = (new_optimizer, 0, 0)\<rparr> = Inr demo_end"
    using demo_museum_visit demo_park_unfit by (simp add: demo_start_def)
  have b: "pcoord demo_base = Inr (0, 0)" "dindex demo_base ''name'' = Inr (VStr ''Base'')"
    by (simp_all add: demo_base_def pcoord_def pnum_def dindex_def)
  have s: "sort_places_by_time_preference (pl_settings demo_planner) (cl_places demo_cluster) 540 = Inr [demo_museum, demo_park]"
    by (simp add: demo_planner_def demo_cluster_def mk_cluster_def demo_sort)
  have h: "has_base demo_cluster" "the (cl_home_base demo_cluster) = demo_base" "cl_places demo_cluster \<noteq> []"
    by (simp_all add: demo_cluster_def mk_cluster_def has_base_def demo_base_def)
  have e: "ds_activities demo_end = [demo_visit]" "ds_loc demo_end = (1, 0)" "ds_svc demo_end = (new_optimizer, 2, 2)"
    by (simp_all add: demo_end_def demo_mid_def)
  show ?thesis
    by (simp add: route_cluster_with_time_windows_def s h k b v return_to_hotel_def e demo_route demo_make Let_def del: filter.simps visit_places.simps)
qed

subsection \<open>Properties\<close>

text \<open>
  C4: the schedule of one cluster is feasible, whatever the network answers with non-negative durations:
  the activities of one call of \<open>_route_cluster_with_time_windows\<close> follow one another inside the window, each for
  at least an hour, they are the visits of its timeline in order, and they are made from a prefix of the places of the
  cluster that are not lodgings, in the order of preference. (A day of several clusters starts the clock of each anew.)
\<close>

theorem day_schedule_feasible:
  assumes "nonneg_backends backends"
    and "route_cluster_with_time_windows pl (robust_router backends) c start_time daily mode svc = Inr (acts, items, svc')"
  shows "well_timed start_time (tw_end daily) acts \<and> visits items = acts \<and>
    (\<exists>ps n. sort_places_by_time_preference (pl_settings pl) (cl_places c) start_time = Inr ps \<and>
       list_all2 activity_of (take n (filter not_lodging ps)) acts)"
  using robust.day_is_well_timed [OF assms(2,1)] cluster_timeline_visits [OF assms(2)] by blast

theorem day_schedule_feasible_witness:
  "\<exists>items svc. route_cluster_with_time_windows demo_planner (robust_router demo_net) demo_cluster 540 (window 540 720)
      ''walk'' (new_optimizer, 0, 0) = Inr ([demo_visit], items, svc) \<and>
    well_timed 540 720 [demo_visit] \<and> visits items = [demo_visit]"
proof -
  obtain items svc where r: "route_cluster_with_time_windows demo_planner (robust_router demo_net) demo_cluster 540 (window 540 720)
      ''walk'' (new_optimizer, 0, 0) = Inr ([demo_visit], items, svc)"
    using demo_day by blast
  show ?thesis using day_schedule_feasible [OF demo_nonneg r] r by (intro exI [of _ items] exI [of _ svc]) (simp add: window_def)
qed

text \<open>
  a place that does not fit into the day ends the loop, but the transfer to it stays: the timeline
  gains a transfer to a place that is never visited, the clock has moved and the traveller has not.
\<close>

theorem unfit_place_leaves_transfer:
  assumes "visit_place pl route mode daily p s = Inr (s', False)"
    and "pcoord p = Inr loc" "ds_loc s \<noteq> loc"
  shows "visit_places pl route mode daily (p # ps) s = Inr s' \<and>
    (\<exists>t. ds_timeline s' = ds_timeline s @ [Transfer t]) \<and>
    ds_activities s' = ds_activities s \<and> ds_loc s' = ds_loc s"
proof -
  from assms(1) obtain s1 loc' where "pcoord p = Inr loc'" "transfer_if_needed pl route mode p loc' s = Inr s1" "s' = s1"
    by (rule visit_place_shape) auto
  with transfer_if_needed_shape [of pl route mode p loc' s s1] assms show ?thesis by auto
qed

theorem unfit_place_leaves_transfer_witness:
  "visit_places demo_planner (robust_router demo_net) ''walk'' (window 540 720) [demo_park] demo_mid = Inr demo_end \<and>
    (\<exists>t. ds_timeline demo_end = ds_timeline demo_mid @ [Transfer t]) \<and>
    ds_activities demo_end = ds_activities demo_mid \<and> ds_loc demo_end = ds_loc demo_mid"
  by (rule unfit_place_leaves_transfer [OF demo_park_unfit, of "(0, 1)"])
    (simp_all add: demo_park_def demo_mid_def pcoord_def pnum_def dindex_def)

text \<open>
  the slot search returns the earliest start inside the first preferred window that still has
  room for the activity, and the earliest start when none has.
\<close>

theorem find_best_time_slot_spec:
  "find_best_time_slot earliest d ws =
     (case find (\<lambda>w. max earliest (tw_start w) + d \<le> tw_end w) ws of
        None \<Rightarrow> earliest
      | Some w \<Rightarrow> max earliest (tw_start w))"
  by (induction ws) (auto simp: max_def)

text \<open>
  the efficiency score is at least 0.35 for every trip, so its floor of 0.1 is unreachable; it
  is least exactly when travel takes sixteen hours and intercity travel eight, and it never grows
  with either.
\<close>

theorem efficiency_score_range:
  "35/100 \<le> efficiency_score t i \<and> (efficiency_score t i = 35/100 \<longleftrightarrow> 960 \<le> t \<and> 480 \<le> i) \<and>
   efficiency_score (max t t') (max i i') \<le> efficiency_score t i"
proof -
  have "efficiency_score t i = 95/100 - min (4/10) (t / 480 * (2/10)) - min (2/10) (i / 240 * (1/10))" for t i
    by (auto simp: efficiency_score_def Let_def max_def min_def)
  note eq = this
  have a: "min (4/10) (t / 480 * (2/10)) = 4/10 \<longleftrightarrow> 960 \<le> t" by (auto simp: min_def)
  have b: "min (2/10) (i / 240 * (1/10)) = 2/10 \<longleftrightarrow> 480 \<le> i" by (auto simp: min_def)
  have c: "min (4/10) (t / 480 * (2/10)) \<le> min (4/10) (max t t' / 480 * (2/10))" by (intro min.mono) auto
  have d: "min (2/10) (i / 240 * (1/10)) \<le> min (2/10) (max i i' / 240 * (1/10))" by (intro min.mono) auto
  have e: "min (4/10) (t / 480 * (2/10)) \<le> 4/10" "min (2/10) (i / 240 * (1/10)) \<le> 2/10" by simp_all
  have "efficiency_score t i = 35/100 \<longleftrightarrow> min (4/10) (t / 480 * (2/10)) = 4/10 \<and> min (2/10) (i / 240 * (1/10)) = 2/10"
    using e unfolding eq by linarith
  moreover have "efficiency_score (max t t') (max i i') \<le> efficiency_score t i" using c d unfolding eq by linarith
  moreover have "35/100 \<le> efficiency_score t i" using e unfolding eq by linarith
  ultimately show ?thesis unfolding a b by blast
qed

definition clamped :: "pydict \<Rightarrow> string \<Rightarrow> real \<Rightarrow> real \<Rightarrow> bool" where
  "clamped d k lo hi \<longleftrightarrow> (\<exists>x. num_of (dget d k VNone) = Some x \<and> lo \<le> x \<and> x \<le> hi)"

lemma clamp_range:
  assumes "clamp lo hi v = Inr w" "num_of lo = Some a" "num_of hi = Some b" "a \<le> b"
  shows "clamp lo hi w = Inr w \<and> (\<exists>x. num_of w = Some x \<and> a \<le> x \<and> x \<le> b)"
  using assms by (cases "num_of v") (auto simp: clamp_def lt_num_def need_num_def rbind_eq_Inr_iff split: if_splits)

lemma generate_smart_name_str:
  assumes "generate_smart_name sh p = Inr v" obtains s where "v = VStr s"
proof (cases "truthy (dget p ''name'' (VStr []))")
  case True
  then show thesis using assms that
    by (cases "dget p ''name'' (VStr [])")
      (auto simp: generate_smart_name_def Let_def rbind_eq_Inr_iff intro: sym split: if_splits pyval.splits)
next
  case False
  then show thesis using assms that
    by (auto simp: generate_smart_name_def Let_def rbind_eq_Inr_iff split: if_splits pyval.splits)
qed

text \<open>
  C38: when normalising a place gives it a name that is a non-empty string without \<open>sin nombre\<close>, its rating lies in 0..5, its
  price level in 0..4 and its priority in 1..10, and normalising the result again changes nothing. (Another name is made up again.)
\<close>

theorem normalize_place_idempotent:
  assumes "normalize_place_fields sh h p = Inr q"
    and "dget q ''name'' VNone = VStr n" "n \<noteq> []" "\<not> contains ''sin nombre'' (lower n)"
  shows "normalize_place_fields sh h q = Inr q \<and>
    clamped q ''rating'' 0 5 \<and> clamped q ''price_level'' 0 4 \<and> clamped q ''priority'' 1 10"
proof -
  from assms(1) obtain nm r pl pr url where
    nm: "generate_smart_name sh p = Inr nm" and
    url: "photo_url p = Inr url" and
    r: "clamp (VFloat 0) (VFloat 5) (dget p ''rating'' (VFloat 0)) = Inr r" and
    pl: "clamp (VInt 0) (VInt 4) (dget p ''price_level'' (VInt 0)) = Inr pl" and
    pr: "clamp (VInt 1) (VInt 10) (dget p ''priority'' (VInt 5)) = Inr pr" and
    q: "q = [(''place_id'', dget p ''place_id'' (VStr (''unknown_'' @ show_int (h (dget p ''name'' (VStr ''unnamed'')))))),
         (''name'', nm),
         (''lat'', dget p ''lat'' (VFloat 0)), (''lon'', dget p ''lon'' (VFloat 0)),
         (''category'', dget p ''category'' (dget p ''type'' (VStr ''general''))),
         (''type'', dget p ''type'' (dget p ''category'' (VStr ''point_of_interest''))),
         (''rating'', r), (''price_level'', pl),
         (''address'', dget p ''address'' (VStr no_address)),
         (''description'', dget p ''description'' (VStr (''Visita a '' @ sh (dget p ''name'' (VStr ''lugar''))))),
         (''photos'', if is_list (dget p ''photos'' (VList [])) then dget p ''photos'' (VList []) else VList []),
         (''opening_hours'', if is_dict_val (dget p ''opening_hours'' (VDict [])) then dget p ''opening_hours'' (VDict []) else VDict []),
         (''website'', dget p ''website'' (VStr [])), (''phone'', dget p ''phone'' (VStr [])),
         (''priority'', pr),
         (''image'', dget p ''image'' url)]"
    unfolding normalize_place_fields_def by (auto simp: Let_def rbind_eq_Inr_iff split: if_splits)
  have rr: "clamp (VFloat 0) (VFloat 5) r = Inr r \<and> (\<exists>x. num_of r = Some x \<and> 0 \<le> x \<and> x \<le> 5)"
    using clamp_range [OF r] by simp
  have pp: "clamp (VInt 0) (VInt 4) pl = Inr pl \<and> (\<exists>x. num_of pl = Some x \<and> 0 \<le> x \<and> x \<le> 4)"
    using clamp_range [OF pl] by simp
  have qq: "clamp (VInt 1) (VInt 10) pr = Inr pr \<and> (\<exists>x. num_of pr = Some x \<and> 1 \<le> x \<and> x \<le> 10)"
    using clamp_range [OF pr] by simp
  have n: "nm = VStr n" using assms(2) unfolding q by (simp add: dget_Cons)
  have g: "generate_smart_name sh q = Inr (VStr n)"
    using assms(3,4) unfolding generate_smart_name_def q n by (simp add: dget_Cons Let_def)
  have u: "\<exists>v. photo_url q = Inr v" using url unfolding q by (auto simp: photo_url_def dget_Cons dget_def split: pyval.splits option.splits)
  then obtain v where v: "photo_url q = Inr v" by blast
  have fields: "dget q ''rating'' x = r" "dget q ''price_level'' x = pl" "dget q ''priority'' x = pr" "dget q ''name'' x = VStr n" for x
    unfolding q n by (simp_all add: dget_Cons)
  have "normalize_place_fields sh h q = Inr q"
    unfolding normalize_place_fields_def Let_def fields g v
    using rr pp qq by (simp add: q dget_Cons n is_list_def is_dict_val_def split: pyval.splits)
  then show ?thesis using rr pp qq by (simp add: clamped_def fields)
qed

theorem normalize_place_idempotent_witness:
  "\<exists>q. normalize_place_fields (\<lambda>v. ''x'') (\<lambda>v. 7) [(''name'', VStr ''Museum''), (''rating'', VInt 9)] = Inr q \<and>
    normalize_place_fields (\<lambda>v. ''x'') (\<lambda>v. 7) q = Inr q \<and> clamped q ''rating'' 0 5"
proof -
  have c: "\<not> contains ''sin nombre'' (lower ''Museum'')"
    by (simp add: lower_def lower_char_def)
  then obtain q where q: "normalize_place_fields (\<lambda>v. ''x'') (\<lambda>v. 7) [(''name'', VStr ''Museum''), (''rating'', VInt 9)] = Inr q"
    "dget q ''name'' VNone = VStr ''Museum''"
    by (simp add: normalize_place_fields_def generate_smart_name_def Let_def clamp_def lt_num_def photo_url_def)
  from normalize_place_idempotent [OF q _ c] q(1) show ?thesis by blast
qed

text \<open>
  the dictionary of a transfer keeps none of its duration, distance, mode, end points or the mark
  of the way back: only its name and its destination can be read from the timeline.
\<close>

theorem transfer_dict_forgets_journey:
  assumes "transfer_item_to_dict sh h t = Inr d"
    and "k \<in> {''duration_minutes'', ''distance_km'', ''recommended_mode'', ''from_place'', ''to_place'',
      ''is_intercity'', ''is_return_to_hotel'', ''from_lat'', ''from_lon''}"
  shows "map_of d k = None"
  using assms unfolding transfer_item_to_dict_def normalize_place_fields_def
  by (auto simp: Let_def rbind_eq_Inr_iff split: if_splits)

theorem transfer_dict_forgets_journey_witness:
  "\<exists>d. transfer_item_to_dict (\<lambda>v. ''x'') (\<lambda>v. 7)
      \<lparr>ti_from_place = VStr ''A'', ti_to_place = VStr ''B'', ti_distance_km = VInt 400, ti_duration_minutes = 300,
       ti_recommended_mode = ''drive'', ti_is_intercity = True, ti_overnight = False, ti_is_return_to_hotel = False,
       ti_from = (0, 0), ti_to = (1, 1)\<rparr> = Inr d \<and> map_of d ''duration_minutes'' = None"
proof -
  let ?t = "\<lparr>ti_from_place = VStr ''A'', ti_to_place = VStr ''B'', ti_distance_km = VInt 400, ti_duration_minutes = 300,
       ti_recommended_mode = ''drive'', ti_is_intercity = True, ti_overnight = False, ti_is_return_to_hotel = False,
       ti_from = (0, 0), ti_to = (1, 1)\<rparr>"
  obtain d where d: "transfer_item_to_dict (\<lambda>v. ''x'') (\<lambda>v. 7) ?t = Inr d"
    using transfer_item_to_dict_total [of ?t 400] by auto
  from transfer_dict_forgets_journey [OF d, of "''duration_minutes''"] d show ?thesis by blast
qed

end
