(* ===== verification/DayRouting.thy ===== *)
theory DayRouting
  imports Scheduling
begin

section \<open>Routing a whole day\<close>

text \<open>
  \<open>route_day_enhanced\<close>, \<open>_build_enhanced_transfer\<close>, the transfers injected between days and
  the actionable recommendations of \<open>HybridOptimizerV31\<close> (src/utils/hybrid\_optimizer\_v31.py).
  The names of places found by the hotel database and Google Places are parameters; the two
  routing operations are stateful parameters as in the theory Scheduling.
\<close>

definition show_3f :: "real \<Rightarrow> string" where
  "show_3f x =
     (let m = nat \<bar>round_half_even (x * 1000)\<bar>; frac = show_nat (m mod 1000)
      in (if x < 0 then ''-'' else []) @ show_nat (m div 1000) @ ''.'' @ replicate (3 - length frac) (CHR ''0'') @ frac)"

definition show_clock :: "int \<Rightarrow> string" where
  "show_clock t = pad2 (nat (t div 60)) @ '':'' @ pad2 (nat (t mod 60))"

subsection \<open>A transfer between clusters\<close>

record 's travel =
  tr_cached :: "'s router"
  tr_robust :: "'s router"
  tr_from_name :: "coord \<Rightarrow> pyval" \<comment> \<open>what the name lookups of the origin end with\<close>
  tr_to_name :: "coord \<Rightarrow> pyval" \<comment> \<open>the same for a destination without a base\<close>

definition target_name :: "'s travel \<Rightarrow> cluster \<Rightarrow> coord \<Rightarrow> pyval" where
  "target_name tr c destination =
     (if has_base c then
        (case dindex (the (cl_home_base c)) ''name'' of
           Inr v \<Rightarrow> v
         | Inl e \<Rightarrow> VStr (''Destino ('' @ show_3f (fst destination) @ '', '' @ show_3f (snd destination) @ '')''))
      else tr_to_name tr destination)"

definition build_enhanced_transfer ::
  "settings \<Rightarrow> 's travel \<Rightarrow> coord \<Rightarrow> coord \<Rightarrow> string \<Rightarrow> cluster \<Rightarrow> 's \<Rightarrow> transfer_item res \<times> 's" where
  "build_enhanced_transfer st tr origin destination mode c svc =
     (let (r1, svc1) = tr_cached tr origin destination mode svc in
      case rbind r1 (\<lambda>eta. gt_num (dget eta ''distance_km'' (VInt 0)) 30) of
        Inl e \<Rightarrow> (Inl e, svc1)
      | Inr far \<Rightarrow>
          (let (r2, svc2) = (if far \<and> mode \<in> set walk_modes then tr_robust tr origin destination ''drive'' svc1 else (r1, svc1))
           in (rbind r2 (\<lambda>eta.
               rbind (dindex eta ''distance_km'') (\<lambda>vd. rbind (need_num vd) (\<lambda>d.
               let mode1 = decide_mode_by_distance_km st d mode;
                   mode2 = (if d > 30 \<and> mode1 \<in> set walk_modes then ''drive'' else mode1)
               in rbind (rbind (dindex eta ''duration_minutes'') py_int) (\<lambda>minutes.
                  Inr \<lparr>ti_from_place = tr_from_name tr origin, ti_to_place = target_name tr c destination,
                     ti_distance_km = vd, ti_duration_minutes = minutes, ti_recommended_mode = mode2,
                     ti_is_intercity = (d > 30), ti_overnight = False, ti_is_return_to_hotel = False,
                     ti_from = origin, ti_to = destination\<rparr>)))), svc2)))"

subsection \<open>Recommendations\<close>

datatype block_arg = BlockObject free_block | BlockDict pydict

text \<open>\<open>block.duration_minutes if hasattr(block, 'duration_minutes') else 0\<close>\<close>

fun block_minutes :: "block_arg \<Rightarrow> int" where
  "block_minutes (BlockObject b) = fb_duration_minutes b"
| "block_minutes (BlockDict d) = 0"

text \<open>What is scheduled on a day: the check-in, intercity journeys and visits.\<close>

record hotel_activity =
  ha_name :: string
  ha_loc :: coord
  ha_start_time :: int
  ha_end_time :: int
  ha_rating :: pyval
  ha_address :: pyval

datatype scheduled = CheckIn hotel_activity | Journey intercity_activity | Visited activity

fun sched_minutes :: "scheduled \<Rightarrow> int" where
  "sched_minutes (CheckIn h) = 30"
| "sched_minutes (Journey j) = ia_duration_minutes j"
| "sched_minutes (Visited a) = ac_duration_minutes a"

fun sched_place_type :: "scheduled \<Rightarrow> pyval" where
  "sched_place_type (CheckIn h) = VStr ''hotel''"
| "sched_place_type (Journey j) = VStr (ia_place_type j)"
| "sched_place_type (Visited a) = ac_place_type a"

definition is_restaurant :: "scheduled \<Rightarrow> bool res" where
  "is_restaurant a = rbind (vlower (sched_place_type a)) (\<lambda>t. Inr (contains ''restaurant'' t))"

definition recommendation :: "string \<Rightarrow> string \<Rightarrow> string \<Rightarrow> string \<Rightarrow> string \<Rightarrow> pydict \<Rightarrow> pydict" where
  "recommendation type priority title description action data =
     [(''type'', VStr type), (''priority'', VStr priority), (''title'', VStr title),
      (''description'', VStr description), (''action'', VStr action), (''actionable_data'', VDict data)]"

definition free_time_recommendation :: "block_arg list \<Rightarrow> pydict list" where
  "free_time_recommendation blocks =
     (let total_free_minutes = sum_list (map block_minutes blocks) in
      if total_free_minutes > 180 then
        [recommendation ''time_optimization'' ''high'' ''Mucho tiempo libre disponible''
           (''Tienes '' @ show_int total_free_minutes @ '' minutos libres. Considera agregar m'' @ [char_of (195::nat), char_of (161::nat)] @ ''s actividades.'') ''add_activities''
           [(''suggested_types'', VList [VStr ''museum'', VStr ''shopping'', VStr ''sightseeing'']),
            (''available_blocks'', VInt (int (length blocks))),
            (''longest_block_minutes'', VInt (if blocks = [] then 0 else Max (set (map block_minutes blocks))))]]
      else [])"

definition long_transfer_recommendation :: "pydict list \<Rightarrow> pydict list res" where
  "long_transfer_recommendation transfers =
     rbind (rfilter (\<lambda>t. gt_num (dget t ''duration_minutes'' (VInt 0)) 120) transfers) (\<lambda>long.
     Inr (if long = [] then []
          else [recommendation ''transport_optimization'' ''medium''
                  (show_nat (length long) @ '' transfers largos detectados'')
                  ''Considera optimizar rutas o cambiar modo de transporte.'' ''optimize_transport''
                  [(''long_transfers'', VList (map (\<lambda>t. VDict
                     [(''from'', dget t ''from'' (VStr [])), (''to'', dget t ''to'' (VStr [])),
                      (''duration'', dget t ''duration_minutes'' (VInt 0)), (''mode'', dget t ''mode'' (VStr []))]) long))]]))"

definition meal_recommendation :: "scheduled list \<Rightarrow> pydict list res" where
  "meal_recommendation activities =
     rbind (rfilter is_restaurant activities) (\<lambda>rs.
     Inr (if length rs = 0 then
            [recommendation ''meal_planning'' ''high'' ''Sin comidas programadas''
               ''Considera agregar restaurantes para almuerzo y cena.'' ''add_restaurants''
               [(''lunch_time'', VStr ''12:00-15:00''), (''dinner_time'', VStr ''19:00-22:00''),
                (''suggested_cuisines'', VList [VStr ''local'', VStr ''traditional'', VStr ''popular''])]]
          else if length rs = 1 then
            [recommendation ''meal_planning'' ''medium'' ''Solo una comida programada''
               (''Considera agregar otra opci'' @ o_acute @ ''n de comida.'') ''add_meal'' [(''missing_meal_type'', VStr ''lunch'')]]
          else []))"

definition long_day_recommendation :: "time_window \<Rightarrow> pydict list" where
  "long_day_recommendation daily =
     (let h = tw_end daily div 60 - tw_start daily div 60 in
      if h > 14 then
        [recommendation ''schedule_optimization'' ''medium'' (''D'' @ [char_of (195::nat), char_of (173::nat)] @ ''a muy intenso'')
           (''D'' @ [char_of (195::nat), char_of (173::nat)] @ ''a de '' @ show_int h @ '' horas. Considera agregar descansos.'') ''add_breaks''
           [(''day_length_hours'', VInt h), (''suggested_break_times'', VList [VStr ''14:00-15:00'', VStr ''17:00-18:00''])]]
      else [])"

definition generate_actionable_recommendations ::
  "scheduled list \<Rightarrow> pydict list \<Rightarrow> block_arg list \<Rightarrow> time_window \<Rightarrow> pydict list res" where
  "generate_actionable_recommendations activities transfers blocks daily =
     rbind (long_transfer_recommendation transfers) (\<lambda>lt.
     rbind (meal_recommendation activities) (\<lambda>me.
     Inr (free_time_recommendation blocks @ lt @ me @ long_day_recommendation daily)))"

subsection \<open>The day\<close>

datatype day_item = Moved pydict | Done scheduled

record 's day =
  dy_timeline :: "day_item list"
  dy_transfers :: "pydict list"
  dy_scheduled :: "scheduled list"
  dy_time :: int
  dy_loc :: "coord option"
  dy_walking_time :: int
  dy_transport_time :: int
  dy_intercity_count :: int
  dy_intercity_minutes :: int
  dy_distance :: real
  dy_svc :: 's

definition base_coord :: "cluster \<Rightarrow> coord res" where
  "base_coord c = pcoord (the (cl_home_base c))"

definition start_location :: "coord option \<Rightarrow> cluster list \<Rightarrow> coord option res" where
  "start_location previous clusters =
     (case (previous, clusters) of
        (None, c # _) \<Rightarrow>
          (if has_base c then rbind (base_coord c) (\<lambda>l. Inr (Some l))
           else (case cl_places c of [] \<Rightarrow> Inr None | p # _ \<Rightarrow> rbind (pcoord p) (\<lambda>l. Inr (Some l))))
      | _ \<Rightarrow> Inr previous)"

definition check_in :: "(pyval \<Rightarrow> string) \<Rightarrow> cluster \<Rightarrow> coord \<Rightarrow> int \<Rightarrow> hotel_activity" where
  "check_in show c loc t =
     (let base = (if has_base c then the (cl_home_base c) else []);
          name = dget base ''name'' (VStr ''hotel'')
      in \<lparr>ha_name = ''Check-in al '' @ show name, ha_loc = loc, ha_start_time = t, ha_end_time = t + 30,
          ha_rating = dget base ''rating'' (VFloat (45/10)),
          ha_address = dget base ''address'' (VStr ''Hotel base del viaje'')\<rparr>)"

definition transfer_entry :: "transfer_item \<Rightarrow> (pyval \<Rightarrow> string) \<Rightarrow> int \<Rightarrow> pydict" where
  "transfer_entry t show now =
     [(''type'', VStr ''intercity_transfer''), (''from'', ti_from_place t), (''to'', ti_to_place t),
      (''from_lat'', VFloat (fst (ti_from t))), (''from_lon'', VFloat (snd (ti_from t))),
      (''to_lat'', VFloat (fst (ti_to t))), (''to_lon'', VFloat (snd (ti_to t))),
      (''distance_km'', ti_distance_km t), (''duration_minutes'', VInt (ti_duration_minutes t)),
      (''mode'', VStr (ti_recommended_mode t)), (''time'', VStr (show_clock now)),
      (''overnight'', VBool (ti_overnight t)),
      (''description'', VStr (''Viaje de '' @ show (ti_from_place t) @ '' a '' @ show (ti_to_place t)))]"

text \<open>
  The move to the base of a cluster: the day after it, or \<open>None\<close> when the transfer does not fit
  (it is marked overnight, recorded nowhere, and the loop over the clusters ends).
\<close>

definition move_to_base ::
  "planner \<Rightarrow> 's travel \<Rightarrow> string \<Rightarrow> time_window \<Rightarrow> cluster \<Rightarrow> 's day \<Rightarrow> ('s day option \<times> 's) res" where
  "move_to_base pl tr mode daily c dy =
     (case dy_loc dy of
        None \<Rightarrow> Inr (Some dy, dy_svc dy)
      | Some cur \<Rightarrow>
          if \<not> has_base c then Inr (Some dy, dy_svc dy)
          else
            rbind (base_coord c) (\<lambda>hotel.
            rbind (coord_km cur hotel) (\<lambda>km.
            if km > 1/10 then
              (let (r, svc') = build_enhanced_transfer (pl_settings pl) tr cur hotel mode c (dy_svc dy) in
               rbind r (\<lambda>t.
               if dy_time dy + ti_duration_minutes t > tw_end daily then Inr (None, svc')
               else if ti_duration_minutes t > 0 then
                 rbind (transfer_item_to_dict (pl_show pl) (pl_hash pl) t) (\<lambda>td.
                 rbind (need_num (ti_distance_km t)) (\<lambda>d.
                 let journey = (case create_intercity_activity (pl_show pl) t (dy_time dy) of
                                  None \<Rightarrow> [] | Some j \<Rightarrow> [Journey j])
                 in Inr (Some (dy\<lparr>
                      dy_timeline := dy_timeline dy @ Moved td # map Done journey,
                      dy_scheduled := dy_scheduled dy @ journey,
                      dy_transfers := dy_transfers dy @ [transfer_entry t (pl_show pl) (dy_time dy)],
                      dy_intercity_count := dy_intercity_count dy + 1,
                      dy_intercity_minutes := dy_intercity_minutes dy + ti_duration_minutes t,
                      dy_transport_time := dy_transport_time dy + ti_duration_minutes t,
                      dy_distance := dy_distance dy + d,
                      dy_time := dy_time dy + ti_duration_minutes t,
                      dy_loc := Some hotel, dy_svc := svc'\<rparr>), svc')))
               else Inr (Some (dy\<lparr>dy_loc := Some hotel, dy_svc := svc'\<rparr>), svc')))
            else Inr (Some (dy\<lparr>dy_loc := Some hotel\<rparr>), dy_svc dy))))"

fun lift_item :: "timeline_item \<Rightarrow> day_item" where
  "lift_item (Transfer d) = Moved d"
| "lift_item (Visit a) = Done (Visited a)"

text \<open>
  After a cluster: the clock and the place move on only if the last item of its timeline has these
  attributes, which the dictionary of a transfer does not; and only \<open>TransferItem\<close> objects would
  count towards walking, transport and distance, but the timeline holds dictionaries.
\<close>

definition after_cluster :: "activity list \<Rightarrow> timeline_item list \<Rightarrow> 's \<Rightarrow> 's day \<Rightarrow> 's day" where
  "after_cluster acts items svc dy =
     (let dy1 = dy\<lparr>dy_scheduled := dy_scheduled dy @ map Visited acts,
                   dy_timeline := dy_timeline dy @ map lift_item items, dy_svc := svc\<rparr>
      in if items = [] then dy1
         else (case last items of
                 Visit a \<Rightarrow> dy1\<lparr>dy_time := ac_end_time a, dy_loc := Some (ac_loc a)\<rparr>
               | Transfer d \<Rightarrow> dy1))"

fun route_clusters ::
  "planner \<Rightarrow> 's travel \<Rightarrow> string \<Rightarrow> time_window \<Rightarrow> cluster list \<Rightarrow> 's day \<Rightarrow> 's day res" where
  "route_clusters pl tr mode daily [] dy = Inr dy"
| "route_clusters pl tr mode daily (c # cs) dy =
     rbind (move_to_base pl tr mode daily c dy) (\<lambda>(moved, svc').
     case moved of
       None \<Rightarrow> Inr (dy\<lparr>dy_svc := svc'\<rparr>)
     | Some dy1 \<Rightarrow>
         rbind (route_cluster_with_time_windows pl (tr_robust tr) c (dy_time dy1) daily mode (dy_svc dy1)) (\<lambda>(acts, items, svc2).
         route_clusters pl tr mode daily cs (after_cluster acts items svc2 dy1)))"

definition suggestions_origin :: "coord option \<Rightarrow> cluster list \<Rightarrow> coord option res" where
  "suggestions_origin loc clusters =
     (case (loc, clusters) of
        (Some cur, c # _) \<Rightarrow>
          (if has_base c then
             rbind (base_coord c) (\<lambda>b. rbind (coord_km cur b) (\<lambda>km. Inr (if km > 100 then Some b else Some cur)))
           else Inr loc)
      | _ \<Rightarrow> Inr loc)"

definition block_dict :: "free_block \<Rightarrow> pydict" where
  "block_dict b =
     [(''start_time'', VInt (fb_start_time b)), (''end_time'', VInt (fb_end_time b)),
      (''duration_minutes'', VInt (fb_duration_minutes b)),
      (''suggestions'', VList (map VDict (fb_suggestions b))), (''note'', VStr (fb_note b))]"

record 's day_result =
  dr_day :: "'s day"
  dr_free_blocks :: "pydict list"
  dr_recommendations :: "pydict list"
  dr_base :: "pydict option"
  dr_total_travel_minutes :: int
  dr_free_minutes :: int

definition start_day :: "(pyval \<Rightarrow> string) \<Rightarrow> time_window \<Rightarrow> coord option \<Rightarrow> int \<Rightarrow> cluster list \<Rightarrow> 's \<Rightarrow> 's day" where
  "start_day show daily loc day_number clusters svc =
     (let dy = \<lparr>dy_timeline = [], dy_transfers = [], dy_scheduled = [], dy_time = tw_start daily, dy_loc = loc,
                dy_walking_time = 0, dy_transport_time = 0, dy_intercity_count = 0, dy_intercity_minutes = 0,
                dy_distance = 0, dy_svc = svc\<rparr>
      in case (loc, clusters) of
           (Some l, c # _) \<Rightarrow>
             (if day_number = 1 then
                (let h = CheckIn (check_in show c l (dy_time dy))
                 in dy\<lparr>dy_timeline := [Done h], dy_scheduled := [h], dy_time := dy_time dy + 30\<rparr>)
              else dy)
         | _ \<Rightarrow> dy)"

definition route_day_enhanced ::
  "planner \<Rightarrow> 's travel \<Rightarrow> (string list \<Rightarrow> pydict list res) \<Rightarrow> cluster list \<Rightarrow> time_window \<Rightarrow> string \<Rightarrow>
   coord option \<Rightarrow> int \<Rightarrow> pydict option \<Rightarrow> 's \<Rightarrow> 's day_result res" where
  "route_day_enhanced pl tr found clusters daily mode previous day_number extra_info svc =
     rbind (start_location previous clusters) (\<lambda>loc.
     rbind (route_clusters pl tr mode daily clusters (start_day (pl_show pl) daily loc day_number clusters svc)) (\<lambda>dy.
     rbind (suggestions_origin (dy_loc dy) clusters) (\<lambda>origin.
     let blocks = map block_dict (generate_free_blocks_enhanced found (dy_time dy) (tw_end daily) origin day_number)
     in rbind (generate_actionable_recommendations (dy_scheduled dy) (dy_transfers dy) (map BlockDict blocks) daily) (\<lambda>recs.
        let travel = dy_walking_time dy + dy_transport_time dy;
            activity_minutes = sum_list (map sched_minutes (dy_scheduled dy))
        in Inr \<lparr>dr_day = dy, dr_free_blocks = blocks, dr_recommendations = recs,
             dr_base = (case clusters of [] \<Rightarrow> None | c # _ \<Rightarrow> build_enhanced_base_info c extra_info),
             dr_total_travel_minutes = travel,
             dr_free_minutes = max 0 ((tw_end daily - tw_start daily) - activity_minutes - travel)\<rparr>))))"

subsection \<open>What a day keeps\<close>

text \<open>The totals of a day are those of its intercity transfers.\<close>

definition entry_minutes :: "pydict \<Rightarrow> int" where
  "entry_minutes e = (case dget e ''duration_minutes'' VNone of VInt i \<Rightarrow> i | _ \<Rightarrow> 0)"

definition totals_ok :: "'s day \<Rightarrow> bool" where
  "totals_ok dy \<longleftrightarrow> dy_walking_time dy = 0 \<and> dy_transport_time dy = dy_intercity_minutes dy \<and>
     dy_intercity_count dy = int (length (dy_transfers dy)) \<and>
     dy_intercity_minutes dy = sum_list (map entry_minutes (dy_transfers dy))"

lemma entry_minutes_transfer [simp]: "entry_minutes (transfer_entry t sh now) = ti_duration_minutes t"
  by (simp add: entry_minutes_def transfer_entry_def)

lemma move_to_base_cases:
  assumes "move_to_base pl tr mode daily c dy = Inr (Some dy1, svc')"
  obtains (stay) loc :: "coord option" and svc2 where "dy1 = dy\<lparr>dy_loc := loc, dy_svc := svc2\<rparr>" "svc2 = dy_svc dy \<or>
        (\<exists>cur hotel. svc2 = snd (build_enhanced_transfer (pl_settings pl) tr cur hotel mode c (dy_svc dy)))"
  | (travel) cur hotel :: coord and t td and d :: real and journey svc2 where
      "build_enhanced_transfer (pl_settings pl) tr cur hotel mode c (dy_svc dy) = (Inr t, svc2)"
      "0 < ti_duration_minutes t" "dy_time dy + ti_duration_minutes t \<le> tw_end daily"
      "journey = (case create_intercity_activity (pl_show pl) t (dy_time dy) of None \<Rightarrow> [] | Some j \<Rightarrow> [Journey j])"
      "dy1 = dy\<lparr>dy_timeline := dy_timeline dy @ Moved td # map Done journey,
                dy_scheduled := dy_scheduled dy @ journey,
                dy_transfers := dy_transfers dy @ [transfer_entry t (pl_show pl) (dy_time dy)],
                dy_intercity_count := dy_intercity_count dy + 1,
                dy_intercity_minutes := dy_intercity_minutes dy + ti_duration_minutes t,
                dy_transport_time := dy_transport_time dy + ti_duration_minutes t,
                dy_distance := dy_distance dy + d,
                dy_time := dy_time dy + ti_duration_minutes t,
                dy_loc := Some hotel, dy_svc := svc2\<rparr>"
proof (cases "dy_loc dy = None \<or> \<not> has_base c")
  case True
  then have "dy1 = dy\<lparr>dy_loc := dy_loc dy, dy_svc := dy_svc dy\<rparr>"
    using assms by (auto simp: move_to_base_def split: option.splits if_splits)
  then show thesis using stay [of "dy_svc dy" "dy_loc dy"] by simp
next
  case False
  then obtain cur where cur: "dy_loc dy = Some cur" "has_base c" by auto
  with assms obtain hotel km where h: "base_coord c = Inr hotel" "coord_km cur hotel = Inr km"
    by (auto simp: move_to_base_def rbind_eq_Inr_iff)
  obtain r svc2 where b: "build_enhanced_transfer (pl_settings pl) tr cur hotel mode c (dy_svc dy) = (r, svc2)" by fastforce
  show thesis
  proof (cases "km > 1/10")
    case False
    with assms cur h have "dy1 = dy\<lparr>dy_loc := Some hotel, dy_svc := dy_svc dy\<rparr>"
      by (auto simp: move_to_base_def)
    then show thesis using stay [of "dy_svc dy" "Some hotel"] by simp
  next
    case True
    with assms cur h b obtain t where t: "r = Inr t" by (auto simp: move_to_base_def rbind_eq_Inr_iff)
    with assms cur h b True have f: "dy_time dy + ti_duration_minutes t \<le> tw_end daily"
      by (auto simp: move_to_base_def split: if_splits)
    show thesis
    proof (cases "0 < ti_duration_minutes t")
      case False
      with assms cur h b True t f have "dy1 = dy\<lparr>dy_loc := Some hotel, dy_svc := svc2\<rparr>"
        by (auto simp: move_to_base_def)
      then show thesis using stay [of svc2 "Some hotel"] b by (metis snd_conv)
    next
      case pos: True
      with assms cur h b True t f show thesis
        by (auto simp: move_to_base_def rbind_eq_Inr_iff Let_def intro: travel [OF b [unfolded t]])
    qed
  qed
qed

lemma after_cluster_fields [simp]:
  "dy_walking_time (after_cluster acts items svc dy) = dy_walking_time dy"
  "dy_transport_time (after_cluster acts items svc dy) = dy_transport_time dy"
  "dy_intercity_count (after_cluster acts items svc dy) = dy_intercity_count dy"
  "dy_intercity_minutes (after_cluster acts items svc dy) = dy_intercity_minutes dy"
  "dy_transfers (after_cluster acts items svc dy) = dy_transfers dy"
  "dy_distance (after_cluster acts items svc dy) = dy_distance dy"
  "dy_scheduled (after_cluster acts items svc dy) = dy_scheduled dy @ map Visited acts"
  "dy_svc (after_cluster acts items svc dy) = svc"
  by (simp_all add: after_cluster_def Let_def split: timeline_item.splits)

lemma move_totals:
  assumes "move_to_base pl tr mode daily c dy = Inr (Some dy1, svc')" "totals_ok dy"
  shows "totals_ok dy1"
  using assms(1)
proof (cases rule: move_to_base_cases)
  case stay
  with assms(2) show ?thesis by (simp add: totals_ok_def)
next
  case travel
  with assms(2) show ?thesis by (simp add: totals_ok_def)
qed

lemma route_clusters_totals:
  "route_clusters pl tr mode daily cs dy = Inr dy' \<Longrightarrow> totals_ok dy \<Longrightarrow> totals_ok dy'"
proof (induction cs arbitrary: dy)
  case Nil
  then show ?case by simp
next
  case (Cons c cs)
  from Cons.prems(1) obtain moved svc' where m: "move_to_base pl tr mode daily c dy = Inr (moved, svc')"
    by (auto simp: rbind_eq_Inr_iff)
  show ?case
  proof (cases moved)
    case None
    with m Cons.prems show ?thesis by (auto simp: totals_ok_def)
  next
    case (Some dy1)
    with m Cons.prems(1) obtain acts items svc2 where
      "route_clusters pl tr mode daily cs (after_cluster acts items svc2 dy1) = Inr dy'"
      by (auto simp: rbind_eq_Inr_iff)
    moreover have "totals_ok (after_cluster acts items svc2 dy1)"
      using move_totals [OF m [unfolded Some] Cons.prems(2)] by (simp add: totals_ok_def)
    ultimately show ?thesis by (rule Cons.IH)
  qed
qed

lemma start_day_fields [simp]:
  "dy_svc (start_day sh daily loc n cs svc) = svc" "totals_ok (start_day sh daily loc n cs svc)"
  "tw_start daily \<le> dy_time (start_day sh daily loc n cs svc)"
  by (simp_all add: start_day_def totals_ok_def Let_def split: option.splits list.splits)

text \<open>When everything of a day happens.\<close>

fun sched_start :: "scheduled \<Rightarrow> int" where
  "sched_start (CheckIn h) = ha_start_time h"
| "sched_start (Journey j) = ia_start_time j"
| "sched_start (Visited a) = ac_start_time a"

fun sched_end :: "scheduled \<Rightarrow> int" where
  "sched_end (CheckIn h) = ha_end_time h"
| "sched_end (Journey j) = ia_end_time j"
| "sched_end (Visited a) = ac_end_time a"

fun in_day :: "time_window \<Rightarrow> scheduled \<Rightarrow> bool" where
  "in_day daily (CheckIn h) \<longleftrightarrow> ha_start_time h = tw_start daily \<and> ha_end_time h = tw_start daily + 30"
| "in_day daily (Journey j) \<longleftrightarrow> tw_start daily \<le> ia_start_time j \<and> ia_start_time j < ia_end_time j \<and> ia_end_time j \<le> tw_end daily"
| "in_day daily (Visited a) \<longleftrightarrow> tw_start daily \<le> ac_start_time a \<and> ac_start_time a < ac_end_time a \<and> ac_end_time a \<le> tw_end daily"

lemma in_day_times:
  "in_day daily x \<Longrightarrow> tw_start daily + 30 \<le> tw_end daily \<Longrightarrow>
   tw_start daily \<le> sched_start x \<and> sched_start x < sched_end x \<and> sched_end x \<le> tw_end daily"
  by (cases x) auto

lemma start_day_in_day: "list_all (in_day daily) (dy_scheduled (start_day sh daily loc n cs svc))"
  by (simp add: start_day_def check_in_def Let_def split: option.splits list.splits)

lemma well_timed_in_day:
  "well_timed lo (tw_end daily) xs \<Longrightarrow> tw_start daily \<le> lo \<Longrightarrow> list_all (in_day daily) (map Visited xs)"
proof (induction xs arbitrary: lo)
  case (Cons a xs)
  have "well_timed (ac_end_time a) (tw_end daily) xs" using Cons.prems(1) unfolding well_timed.simps by blast
  moreover have "tw_start daily \<le> ac_end_time a" using Cons.prems by simp
  ultimately have "list_all (in_day daily) (map Visited xs)" by (rule Cons.IH)
  with Cons.prems show ?case by simp
qed simp

lemma last_visit_in: "visits items = acts \<Longrightarrow> items \<noteq> [] \<Longrightarrow> last items = Visit a \<Longrightarrow> a \<in> set acts"
  by (induction items arbitrary: acts rule: visits.induct) (auto split: if_splits)

lemma journey_times:
  "create_intercity_activity sh t now = Some j \<Longrightarrow>
   ia_start_time j = now \<and> ia_end_time j = now + ti_duration_minutes t \<and> 180 \<le> ti_duration_minutes t"
  by (auto simp: create_intercity_activity_def Let_def split: if_splits)

locale day_router = eta_provider route good
  for route :: "'s router" and good :: "'s \<Rightarrow> bool" +
  fixes tr :: "'s travel"
  assumes robust_is: "tr_robust tr = route"
    and cached_good: "good s \<Longrightarrow> good (snd (tr_cached tr p q mode s))"

context day_router
begin

definition day_ok :: "time_window \<Rightarrow> 's day \<Rightarrow> bool" where
  "day_ok daily dy \<longleftrightarrow> good (dy_svc dy) \<and> tw_start daily \<le> dy_time dy \<and> list_all (in_day daily) (dy_scheduled dy)"

lemma transfer_good: "good s \<Longrightarrow> good (snd (build_enhanced_transfer st tr p q mode c s))"
  using cached_good [of s p q mode] stays_good [of "snd (tr_cached tr p q mode s)" p q "''drive''"]
  by (auto simp: build_enhanced_transfer_def robust_is split: prod.splits sum.splits)

lemma move_ok:
  assumes "move_to_base pl tr mode daily c dy = Inr (Some dy1, svc')" "day_ok daily dy"
  shows "day_ok daily dy1"
  using assms(1)
proof (cases rule: move_to_base_cases)
  case (stay loc svc2)
  with assms(2) transfer_good show ?thesis by (auto simp: day_ok_def)
next
  case (travel cur hotel t td d journey svc2)
  have "good svc2" using transfer_good [of "dy_svc dy" "pl_settings pl" cur hotel mode c] travel(1) assms(2) by (simp add: day_ok_def)
  moreover have "list_all (in_day daily) journey"
    using travel(2-4) assms(2) journey_times [of "pl_show pl" t "dy_time dy"] by (auto simp: day_ok_def split: option.splits)
  ultimately show ?thesis using travel(2,5) assms(2) by (simp add: day_ok_def)
qed

lemma cluster_ok:
  assumes "route_cluster_with_time_windows pl (tr_robust tr) c (dy_time dy) daily mode (dy_svc dy) = Inr (acts, items, svc2)"
    and "day_ok daily dy"
  shows "day_ok daily (after_cluster acts items svc2 dy)"
proof -
  have g: "good svc2" "well_timed (dy_time dy) (tw_end daily) acts"
    using day_is_well_timed [of pl c "dy_time dy" daily mode "dy_svc dy" acts items svc2] assms by (auto simp: robust_is day_ok_def)
  have v: "list_all (in_day daily) (map Visited acts)"
    using well_timed_in_day [OF g(2)] assms(2) by (simp add: day_ok_def)
  have "tw_start daily \<le> dy_time (after_cluster acts items svc2 dy)"
  proof (cases "items \<noteq> [] \<and> (\<exists>a. last items = Visit a)")
    case True
    then obtain a where a: "items \<noteq> []" "last items = Visit a" by blast
    with last_visit_in [OF cluster_timeline_visits [OF assms(1)] a] v show ?thesis
      by (auto simp: after_cluster_def Let_def list_all_iff)
  next
    case False
    then show ?thesis using assms(2) by (auto simp: after_cluster_def day_ok_def Let_def split: timeline_item.splits)
  qed
  with g v assms(2) show ?thesis by (simp add: day_ok_def)
qed

lemma route_clusters_ok:
  "route_clusters pl tr mode daily cs dy = Inr dy' \<Longrightarrow> day_ok daily dy \<Longrightarrow> list_all (in_day daily) (dy_scheduled dy')"
proof (induction cs arbitrary: dy)
  case Nil
  then show ?case by (simp add: day_ok_def)
next
  case (Cons c cs)
  from Cons.prems(1) obtain moved svc' where m: "move_to_base pl tr mode daily c dy = Inr (moved, svc')"
    by (auto simp: rbind_eq_Inr_iff)
  show ?case
  proof (cases moved)
    case None
    with m Cons.prems show ?thesis by (auto simp: day_ok_def)
  next
    case (Some dy1)
    with m Cons.prems(1) obtain acts items svc2 where r:
      "route_cluster_with_time_windows pl (tr_robust tr) c (dy_time dy1) daily mode (dy_svc dy1) = Inr (acts, items, svc2)"
      "route_clusters pl tr mode daily cs (after_cluster acts items svc2 dy1) = Inr dy'"
      by (auto simp: rbind_eq_Inr_iff)
    show ?thesis
      using Cons.IH [OF r(2) cluster_ok [OF r(1) move_ok [OF m [unfolded Some] Cons.prems(2)]]] .
  qed
qed

lemma route_day_in_day:
  assumes "route_day_enhanced pl tr found cs daily mode previous n info svc = Inr r" "good svc"
  shows "list_all (in_day daily) (dy_scheduled (dr_day r))"
proof -
  from assms(1) obtain loc dy where
    "route_clusters pl tr mode daily cs (start_day (pl_show pl) daily loc n cs svc) = Inr dy" "dr_day r = dy"
    by (auto simp: route_day_enhanced_def rbind_eq_Inr_iff Let_def)
  with route_clusters_ok [of pl mode daily cs "start_day (pl_show pl) daily loc n cs svc" dy] assms(2)
    start_day_in_day [of daily "pl_show pl" loc n cs svc]
  show ?thesis by (simp add: day_ok_def)
qed

end

text \<open>The routing services of the optimiser as the services of a day.\<close>

definition cached_router :: "(nat \<Rightarrow> routing_backend) \<Rightarrow> (nat \<Rightarrow> pydict option res option) \<Rightarrow> router_state router" where
  "cached_router backends multimodal p q mode s =
     (case s of (o1, now, i) \<Rightarrow>
        (case routing_service_cached (backends i) (multimodal i) p q mode now o1 of (r, o2) \<Rightarrow> (r, (o2, now, Suc i))))"

definition optimizer_travel ::
  "(nat \<Rightarrow> routing_backend) \<Rightarrow> (nat \<Rightarrow> pydict option res option) \<Rightarrow> (coord \<Rightarrow> pyval) \<Rightarrow> (coord \<Rightarrow> pyval) \<Rightarrow> router_state travel" where
  "optimizer_travel backends multimodal from_name to_name =
     \<lparr>tr_cached = cached_router backends multimodal, tr_robust = robust_router backends,
      tr_from_name = from_name, tr_to_name = to_name\<rparr>"

interpretation services: day_router "robust_router backends" "\<lambda>s. nonneg_backends backends"
    "optimizer_travel backends multimodal from_name to_name"
  by unfold_locales (simp_all add: optimizer_travel_def)

subsection \<open>The small day, whole\<close>

definition demo_travel :: "router_state travel" where
  "demo_travel = optimizer_travel demo_net (\<lambda>i. None) (\<lambda>p. VStr ''A'') (\<lambda>p. VStr ''B'')"

definition demo_dawn :: "router_state day" where
  "demo_dawn = start_day (pl_show demo_planner) (window 540 720) (Some (0, 0)) 2 [demo_cluster] (new_optimizer, 0, 0)"

lemma demo_move:
  "move_to_base demo_planner demo_travel ''walk'' (window 540 720) demo_cluster demo_dawn = Inr (Some demo_dawn, dy_svc demo_dawn)"
  by (simp add: move_to_base_def demo_dawn_def start_day_def demo_cluster_def mk_cluster_def has_base_def base_coord_def
      demo_base_def pcoord_def pnum_def dindex_def coord_km_def haversine_km_def haversine_a_def Let_def)

lemma demo_dawn_fields: "dy_time demo_dawn = 540" "dy_svc demo_dawn = (new_optimizer, 0, 0)" "dy_loc demo_dawn = Some (0, 0)"
  "dy_scheduled demo_dawn = []" "dy_transfers demo_dawn = []"
  by (simp_all add: demo_dawn_def start_day_def window_def)

lemma demo_dusk:
  "\<exists>dy2. route_clusters demo_planner demo_travel ''walk'' (window 540 720) [demo_cluster] demo_dawn = Inr dy2 \<and>
     dy_time dy2 = 540 \<and> dy_loc dy2 = Some (0, 0) \<and> dy_scheduled dy2 = [Visited demo_visit] \<and> dy_transfers dy2 = []"
proof -
  obtain items svc d where r: "route_cluster_with_time_windows demo_planner (tr_robust demo_travel) demo_cluster 540
      (window 540 720) ''walk'' (new_optimizer, 0, 0) = Inr ([demo_visit], items @ [Transfer d], svc)"
    using demo_day by (auto simp: demo_travel_def optimizer_travel_def)
  show ?thesis
    by (simp add: demo_move r after_cluster_def Let_def demo_dawn_fields)
qed

lemma demo_whole_day:
  "\<exists>r. route_day_enhanced demo_planner demo_travel (\<lambda>ts. Inr []) [demo_cluster] (window 540 720) ''walk'' (Some (0, 0)) 2 None
     (new_optimizer, 0, 0) = Inr r \<and> dy_scheduled (dr_day r) = [Visited demo_visit]"
proof -
  obtain dy2 where d: "route_clusters demo_planner demo_travel ''walk'' (window 540 720) [demo_cluster] demo_dawn = Inr dy2"
     "dy_time dy2 = 540" "dy_loc dy2 = Some (0, 0)" "dy_scheduled dy2 = [Visited demo_visit]" "dy_transfers dy2 = []"
    using demo_dusk by blast
  have o: "suggestions_origin (Some (0, 0)) [demo_cluster] = Inr (Some (0, 0))"
    by (simp add: suggestions_origin_def demo_cluster_def mk_cluster_def has_base_def base_coord_def
      demo_base_def pcoord_def pnum_def dindex_def coord_km_def haversine_km_def haversine_a_def)
  obtain b where b: "is_restaurant (Visited demo_visit) = Inr b" by (simp add: is_restaurant_def demo_visit_def)
  show ?thesis
    using d(1) by (simp add: route_day_enhanced_def start_location_def demo_dawn_def [symmetric] d(2-) o Let_def b
        generate_actionable_recommendations_def long_transfer_recommendation_def meal_recommendation_def del: route_clusters.simps)
qed
subsection \<open>Properties of a day\<close>

text \<open>
  C5: what a day schedules lies in its window, with the optimiser's own routing services over any network whose
  durations are non-negative: visits and intercity journeys start after its beginning and end before its end, and the
  check-in takes its first half hour, which only a window shorter than that does not contain.
\<close>

theorem day_stays_in_window:
  assumes "nonneg_backends backends"
    and "route_day_enhanced pl (optimizer_travel backends multimodal from_name to_name) found cs daily mode previous n info svc = Inr r"
  shows "list_all (in_day daily) (dy_scheduled (dr_day r)) \<and>
    (tw_start daily + 30 \<le> tw_end daily \<longrightarrow>
       list_all (\<lambda>x. tw_start daily \<le> sched_start x \<and> sched_start x < sched_end x \<and> sched_end x \<le> tw_end daily) (dy_scheduled (dr_day r)))"
proof -
  have d: "list_all (in_day daily) (dy_scheduled (dr_day r))" by (rule services.route_day_in_day [OF assms(2,1)])
  then show ?thesis using in_day_times by (auto simp: list_all_iff)
qed

theorem day_stays_in_window_witness:
  "\<exists>r. route_day_enhanced demo_planner demo_travel (\<lambda>ts. Inr []) [demo_cluster] (window 540 720) ''walk'' (Some (0, 0)) 2 None
     (new_optimizer, 0, 0) = Inr r \<and> dy_scheduled (dr_day r) = [Visited demo_visit] \<and>
     540 \<le> sched_start (Visited demo_visit) \<and> sched_end (Visited demo_visit) \<le> 720"
proof -
  obtain r where r: "route_day_enhanced demo_planner demo_travel (\<lambda>ts. Inr []) [demo_cluster] (window 540 720) ''walk'' (Some (0, 0)) 2 None
     (new_optimizer, 0, 0) = Inr r" "dy_scheduled (dr_day r) = [Visited demo_visit]"
    using demo_whole_day by blast
  have "tw_start (window 540 720) + 30 \<le> tw_end (window 540 720)" by (simp add: window_def)
  with day_stays_in_window [OF demo_nonneg r(1) [unfolded demo_travel_def]] r(2)
  have "540 \<le> sched_start (Visited demo_visit) \<and> sched_end (Visited demo_visit) \<le> 720"
    by (simp add: window_def)
  with r show ?thesis by blast
qed

text \<open>
  the travel totals of a day count only its transfers between bases: no walking time, and the
  transport time is the sum of the intercity transfers, so the transfers between the visits are
  counted nowhere.
\<close>

theorem day_totals_only_intercity:
  assumes "route_day_enhanced pl tr found cs daily mode previous n info svc = Inr r"
  shows "dy_walking_time (dr_day r) = 0 \<and> dy_transport_time (dr_day r) = dy_intercity_minutes (dr_day r) \<and>
    dy_intercity_count (dr_day r) = int (length (dy_transfers (dr_day r))) \<and>
    dr_total_travel_minutes r = sum_list (map entry_minutes (dy_transfers (dr_day r)))"
proof -
  from assms obtain loc dy where
    "route_clusters pl tr mode daily cs (start_day (pl_show pl) daily loc n cs svc) = Inr dy" "dr_day r = dy"
    "dr_total_travel_minutes r = dy_walking_time dy + dy_transport_time dy"
    by (auto simp: route_day_enhanced_def rbind_eq_Inr_iff Let_def)
  moreover from this(1) have "totals_ok dy" by (rule route_clusters_totals) simp
  ultimately show ?thesis by (simp add: totals_ok_def)
qed

theorem day_totals_only_intercity_witness:
  "\<exists>r. route_day_enhanced demo_planner demo_travel (\<lambda>ts. Inr []) [demo_cluster] (window 540 720) ''walk'' (Some (0, 0)) 2 None
     (new_optimizer, 0, 0) = Inr r \<and> dy_scheduled (dr_day r) = [Visited demo_visit] \<and> dy_walking_time (dr_day r) = 0"
proof -
  obtain r where r: "route_day_enhanced demo_planner demo_travel (\<lambda>ts. Inr []) [demo_cluster] (window 540 720) ''walk'' (Some (0, 0)) 2 None
     (new_optimizer, 0, 0) = Inr r" "dy_scheduled (dr_day r) = [Visited demo_visit]"
    using demo_whole_day by blast
  from day_totals_only_intercity [OF r(1)] r show ?thesis by blast
qed

text \<open>
  after a cluster whose timeline ends with the way back to the hotel the clock of the day stands
  where the cluster began: the next cluster starts at the same time and place, over the visits that
  have just been scheduled.
\<close>

theorem clock_stands_after_return:
  assumes "move_to_base pl tr mode daily c dy = Inr (Some dy1, svc')"
    and "route_cluster_with_time_windows pl (tr_robust tr) c (dy_time dy1) daily mode (dy_svc dy1) = Inr (acts, items @ [Transfer d], svc2)"
  shows "\<exists>dy2. route_clusters pl tr mode daily (c # cs) dy = route_clusters pl tr mode daily cs dy2 \<and>
    dy_time dy2 = dy_time dy1 \<and> dy_loc dy2 = dy_loc dy1 \<and> dy_scheduled dy2 = dy_scheduled dy1 @ map Visited acts"
  using assms by (intro exI [of _ "after_cluster acts (items @ [Transfer d]) svc2 dy1"]) (simp add: after_cluster_def Let_def)

theorem clock_stands_after_return_witness:
  "\<exists>dy2. route_clusters demo_planner demo_travel ''walk'' (window 540 720) [demo_cluster, demo_cluster] demo_dawn =
      route_clusters demo_planner demo_travel ''walk'' (window 540 720) [demo_cluster] dy2 \<and>
    dy_time dy2 = 540 \<and> dy_scheduled dy2 = [Visited demo_visit] \<and> ac_end_time demo_visit = 720"
proof -
  obtain items svc d where r: "route_cluster_with_time_windows demo_planner (tr_robust demo_travel) demo_cluster (dy_time demo_dawn)
      (window 540 720) ''walk'' (dy_svc demo_dawn) = Inr ([demo_visit], items @ [Transfer d], svc)"
    using demo_day by (auto simp: demo_travel_def optimizer_travel_def demo_dawn_fields)
  have "ac_end_time demo_visit = 720" by (simp add: demo_visit_def)
  with clock_stands_after_return [OF demo_move r, of "[demo_cluster]"] show ?thesis
    by (simp add: demo_dawn_fields del: route_clusters.simps) blast
qed

lemma recommendation_type [simp]: "dget (recommendation t p title desc act data) ''type'' v = VStr t"
  by (simp add: recommendation_def)

lemma other_recommendations:
  "long_transfer_recommendation transfers = Inr lt \<Longrightarrow> x \<in> set lt \<Longrightarrow> dget x ''type'' VNone \<noteq> VStr ''time_optimization''"
  "meal_recommendation acts = Inr me \<Longrightarrow> x \<in> set me \<Longrightarrow> dget x ''type'' VNone \<noteq> VStr ''time_optimization''"
  "x \<in> set (long_day_recommendation daily) \<Longrightarrow> dget x ''type'' VNone \<noteq> VStr ''time_optimization''"
  by (auto simp: long_transfer_recommendation_def meal_recommendation_def long_day_recommendation_def
      rbind_eq_Inr_iff Let_def split: if_splits)

lemma recommends_free_time_iff:
  assumes "generate_actionable_recommendations acts transfers blocks daily = Inr recs"
  shows "VStr ''time_optimization'' \<in> (\<lambda>rec. dget rec ''type'' VNone) ` set recs \<longleftrightarrow> 180 < sum_list (map block_minutes blocks)"
proof -
  from assms obtain lt me where p: "long_transfer_recommendation transfers = Inr lt" "meal_recommendation acts = Inr me"
    "recs = free_time_recommendation blocks @ lt @ me @ long_day_recommendation daily"
    by (auto simp: generate_actionable_recommendations_def rbind_eq_Inr_iff)
  have "VStr ''time_optimization'' \<notin> (\<lambda>rec. dget rec ''type'' VNone) ` set (lt @ me @ long_day_recommendation daily)"
    using other_recommendations(1) [OF p(1)] other_recommendations(2) [OF p(2)] other_recommendations(3) by force
  moreover have "VStr ''time_optimization'' \<in> (\<lambda>rec. dget rec ''type'' VNone) ` set (free_time_recommendation blocks) \<longleftrightarrow>
      180 < sum_list (map block_minutes blocks)"
    by (cases "180 < sum_list (map block_minutes blocks)")
      (simp_all only: free_time_recommendation_def Let_def if_True if_False list.set image_insert image_empty
        recommendation_type insertI1 empty_iff simp_thms)
  ultimately show ?thesis unfolding p(3) set_append image_Un by blast
qed

text \<open>
  the recommendation to fill free time is never made in a day's plan, because the blocks reach it
  as dictionaries; on the block objects it was written for it is made for more than three hours.
\<close>

theorem free_time_never_recommended:
  assumes "generate_actionable_recommendations acts transfers (map BlockDict blocks) daily = Inr recs"
    and "generate_actionable_recommendations acts transfers (map BlockObject objs) daily = Inr recs'"
  shows "VStr ''time_optimization'' \<notin> (\<lambda>rec. dget rec ''type'' VNone) ` set recs \<and>
   (VStr ''time_optimization'' \<in> (\<lambda>rec. dget rec ''type'' VNone) ` set recs' \<longleftrightarrow> 180 < sum_list (map fb_duration_minutes objs))"
proof -
  have "sum_list (map block_minutes (map BlockDict blocks)) = 0" by (induction blocks) simp_all
  moreover have "sum_list (map block_minutes (map BlockObject objs)) = sum_list (map fb_duration_minutes objs)"
    by (induction objs) simp_all
  ultimately show ?thesis
    unfolding recommends_free_time_iff [OF assms(1)] recommends_free_time_iff [OF assms(2)] by simp
qed

theorem free_time_never_recommended_witness:
  "\<exists>recs recs'.
    generate_actionable_recommendations [] [] (map BlockDict [[(''duration_minutes'', VInt 300)]]) (window 540 900) = Inr recs \<and>
    generate_actionable_recommendations [] [] (map BlockObject
      [\<lparr>fb_start_time = 600, fb_end_time = 900, fb_duration_minutes = 300, fb_suggestions = [], fb_note = []\<rparr>]) (window 540 900) = Inr recs' \<and>
    VStr ''time_optimization'' \<notin> (\<lambda>rec. dget rec ''type'' VNone) ` set recs \<and>
    VStr ''time_optimization'' \<in> (\<lambda>rec. dget rec ''type'' VNone) ` set recs'"
proof -
  have total: "\<exists>recs. generate_actionable_recommendations [] [] blocks daily = Inr recs" for blocks daily
    by (simp add: generate_actionable_recommendations_def long_transfer_recommendation_def meal_recommendation_def)
  obtain recs where a: "generate_actionable_recommendations [] [] (map BlockDict [[(''duration_minutes'', VInt 300)]]) (window 540 900) = Inr recs"
    using total by blast
  let ?b = "[\<lparr>fb_start_time = 600, fb_end_time = 900, fb_duration_minutes = 300, fb_suggestions = [], fb_note = []\<rparr>]"
  obtain recs' where b: "generate_actionable_recommendations [] [] (map BlockObject ?b) (window 540 900) = Inr recs'"
    using total by blast
  have "180 < sum_list (map fb_duration_minutes ?b)" by simp
  then show ?thesis using free_time_never_recommended [OF a b] a b by blast
qed

end
