(* ===== verification/BetweenDays.thy ===== *)
theory BetweenDays
  imports DayRouting
begin

section \<open>Transfers between days and the names of places\<close>

text \<open>
  \<open>_inject_intercity_transfers_between_days\<close>, \<open>_get_known_hotel_name\<close> and
  \<open>_get_nearest_named_place\<close> of \<open>HybridOptimizerV31\<close>
  (src/utils/hybrid\_optimizer\_v31.py).  A day is its dictionary; the pass updates the
  dictionaries of the following days in place, which is the list it returns here.
\<close>

subsection \<open>Names\<close>

definition point_label :: "string \<Rightarrow> coord \<Rightarrow> string" where
  "point_label prefix loc = prefix @ '' ('' @ show_3f (fst loc) @ '', '' @ show_3f (snd loc) @ '')''"

definition lat_lon_label :: "coord \<Rightarrow> string" where
  "lat_lon_label loc = ''Lat '' @ show_3f (fst loc) @ '', Lon '' @ show_3f (snd loc)"

fun known_hotel :: "pydict list \<Rightarrow> coord \<Rightarrow> pyval option res" where
  "known_hotel [] loc = Inr None"
| "known_hotel (h # hs) loc =
     rbind (need_num (dget h ''lat'' (VInt 0))) (\<lambda>a. rbind (need_num (dget h ''lon'' (VInt 0))) (\<lambda>b.
     if sqrt ((fst loc - a)\<^sup>2 + (snd loc - b)\<^sup>2) < 1/100
     then rbind (dindex h ''name'') (\<lambda>n. Inr (Some n)) else known_hotel hs loc))"

text \<open>\<open>hotels\<close> is the hotel database, city after city.\<close>

definition get_known_hotel_name :: "pydict list \<Rightarrow> coord \<Rightarrow> pyval" where
  "get_known_hotel_name hotels loc =
     (case known_hotel hotels loc of Inr (Some n) \<Rightarrow> n | _ \<Rightarrow> VStr [])"

definition get_nearest_named_place :: "(coord \<Rightarrow> pydict list res) \<Rightarrow> coord \<Rightarrow> pyval" where
  "get_nearest_named_place search loc =
     (case search loc of
        Inr (p # ps) \<Rightarrow> dget p ''name'' (VStr (lat_lon_label loc))
      | _ \<Rightarrow> VStr (lat_lon_label loc))"

definition unnamed_place :: "string \<Rightarrow> bool" where
  "unnamed_place s \<longleftrightarrow> take 4 s = ''Lat '' \<or> contains (''Lugar de inter'' @ [char_of (195::nat), char_of (169::nat)] @ ''s'') s \<or> s = []"

text \<open>The origin: a known hotel, else a place nearby, else a hotel nearby; any exception ends in a label.\<close>

definition origin_name :: "pydict list \<Rightarrow> (coord \<Rightarrow> pydict list res) \<Rightarrow> (coord \<Rightarrow> pydict list res) \<Rightarrow> coord \<Rightarrow> pyval" where
  "origin_name hotels search search_hotels loc =
     (let known = get_known_hotel_name hotels loc; other = VStr (point_label (''Ubicaci'' @ o_acute @ ''n'') loc)
      in if truthy known then known
         else (case get_nearest_named_place search loc of
                 VStr s \<Rightarrow>
                   (if unnamed_place s then
                      (case search_hotels loc of
                         Inr (h # hs) \<Rightarrow> dget h ''name'' (VStr s)
                       | _ \<Rightarrow> other)
                    else VStr s)
               | _ \<Rightarrow> other))"

definition destination_name :: "pydict list \<Rightarrow> (coord \<Rightarrow> pydict list res) \<Rightarrow> coord \<Rightarrow> pyval" where
  "destination_name hotels search loc =
     (let known = get_known_hotel_name hotels loc
      in if truthy known then known else get_nearest_named_place search loc)"

subsection \<open>Transfers between days\<close>

text \<open>\<open>a + b\<close> for numbers.\<close>

definition vint :: "pyval \<Rightarrow> int option" where
  "vint v = (case v of VInt i \<Rightarrow> Some i | VBool b \<Rightarrow> Some (if b then 1 else 0) | _ \<Rightarrow> None)"

definition vadd :: "pyval \<Rightarrow> pyval \<Rightarrow> pyval res" where
  "vadd a b =
     (case (vint a, vint b) of
        (Some i, Some j) \<Rightarrow> Inr (VInt (i + j))
      | _ \<Rightarrow> rbind (need_num a) (\<lambda>x. rbind (need_num b) (\<lambda>y. Inr (VFloat (x + y)))))"

fun similar_transfer :: "pyval list \<Rightarrow> pyval \<Rightarrow> bool res" where
  "similar_transfer [] d = Inr False"
| "similar_transfer (t # ts) d =
     rbind (vget t ''type'' VNone) (\<lambda>ty.
     if ty = VStr ''intercity_transfer'' then
       rbind (vget t ''distance_km'' (VInt 0)) (\<lambda>v. rbind (need_num v) (\<lambda>x. rbind (need_num d) (\<lambda>y.
       if \<bar>x - y\<bar> < 1 then Inr True else similar_transfer ts d)))
     else similar_transfer ts d)"

definition add_key :: "pydict \<Rightarrow> string \<Rightarrow> pyval \<Rightarrow> pydict res" where
  "add_key d k v = rbind (vadd (dget d k (VInt 0)) v) (\<lambda>w. Inr (dset k w d))"

text \<open>
  \<open>travel_summary\<close> is the dictionary of the day, or a fresh one that is dropped when the day has none.
\<close>

definition add_to_summary :: "pydict \<Rightarrow> int \<Rightarrow> pyval \<Rightarrow> pydict res" where
  "add_to_summary day minutes distance =
     (case dget day ''travel_summary'' (VDict []) of
        VDict ts \<Rightarrow>
          rbind (add_key ts ''intercity_transfers_count'' (VInt 1)) (\<lambda>ts1.
          rbind (add_key ts1 ''intercity_total_minutes'' (VInt minutes)) (\<lambda>ts2.
          rbind (add_key ts2 ''transport_time_minutes'' (VInt minutes)) (\<lambda>ts3.
          rbind (add_key ts3 ''total_distance_km'' distance) (\<lambda>ts4.
          Inr (if has_key day ''travel_summary'' then dset ''travel_summary'' (VDict ts4) day else day)))))
      | _ \<Rightarrow> Inl AttributeError)"

definition flight_minutes :: "settings \<Rightarrow> real \<Rightarrow> int" where
  "flight_minutes st km = py_trunc (km / AIR_SPEED_KMPH st * 60 + real_of_int (AIR_BUFFERS_MIN st))"

text \<open>The mode, the distance and the minutes of the transfer.\<close>

definition choose_flight :: "settings \<Rightarrow> real \<Rightarrow> pydict \<Rightarrow> (string \<times> pyval \<times> int) res" where
  "choose_flight st km eta =
     (if truthy (dget eta ''fallback_used'' VNone) \<and> km > 1000 \<or> km > FLIGHT_THRESHOLD_KM st then
        (if AIR_SPEED_KMPH st = 0 then Inl ZeroDivisionError
         else Inr (''flight'', VFloat km, flight_minutes st km))
      else
        rbind (dindex eta ''distance_km'') (\<lambda>d.
        rbind (rbind (dindex eta ''duration_minutes'') py_int) (\<lambda>m. Inr (''drive'', d, m))))"

definition with_transfers :: "pydict \<Rightarrow> pydict" where
  "with_transfers day = (if has_key day ''transfers'' then day else dset ''transfers'' (VList []) day)"

text \<open>The coordinates of two bases and their distance.\<close>

definition base_points :: "pyval \<Rightarrow> pyval \<Rightarrow> (pyval list \<times> coord \<times> coord \<times> real) res" where
  "base_points cb nb =
     rbind (vindex cb ''lat'') (\<lambda>vla. rbind (vindex cb ''lon'') (\<lambda>vlo.
     rbind (vindex nb ''lat'') (\<lambda>vna. rbind (vindex nb ''lon'') (\<lambda>vno.
     rbind (need_num vla) (\<lambda>la. rbind (need_num vlo) (\<lambda>lo.
     rbind (need_num vna) (\<lambda>na. rbind (need_num vno) (\<lambda>no.
     rbind (haversine_km la lo na no) (\<lambda>km. Inr ([vla, vlo, vna, vno], (la, lo), (na, no), km))))))))))"

text \<open>The transfer at the head of the list of the day, unless one of a similar distance is there.\<close>

definition insert_transfer :: "pydict \<Rightarrow> pyval \<Rightarrow> int \<Rightarrow> pydict \<Rightarrow> pydict res" where
  "insert_transfer transfer d minutes next_day =
     (let day = with_transfers next_day in
      rbind (viter (dget day ''transfers'' VNone)) (\<lambda>ts. rbind (similar_transfer ts d) (\<lambda>same.
      if same then Inr day
      else (case dget day ''transfers'' VNone of
              VList xs \<Rightarrow> add_to_summary (dset ''transfers'' (VList (VDict transfer # xs)) day) minutes d
            | _ \<Rightarrow> Inl AttributeError))))"

definition inject_pair :: "settings \<Rightarrow> 's router \<Rightarrow> pydict \<Rightarrow> pydict \<Rightarrow> 's \<Rightarrow> (pydict \<times> 's) res" where
  "inject_pair st route curr_day next_day s =
     (let cb = dget curr_day ''base'' VNone; nb = dget next_day ''base'' VNone in
      if \<not> truthy cb \<or> \<not> truthy nb then Inr (next_day, s)
      else
        rbind (base_points cb nb) (\<lambda>(vs, p, q, km).
        if km > 30 then
          rbind (vindex cb ''name'') (\<lambda>from_name. rbind (vindex nb ''name'') (\<lambda>to_name.
          let (r, s') = route p q ''drive'' s in
          rbind r (\<lambda>eta. rbind (choose_flight st km eta) (\<lambda>(mode, d, minutes).
          rbind (insert_transfer
                [(''type'', VStr ''intercity_transfer''), (''from'', from_name), (''to'', to_name),
                 (''from_lat'', vs ! 0), (''from_lon'', vs ! 1), (''to_lat'', vs ! 2), (''to_lon'', vs ! 3),
                 (''distance_km'', d), (''duration_minutes'', VInt minutes), (''mode'', VStr mode),
                 (''time'', VStr ''09:00''), (''overnight'', VBool False), (''has_activity'', VBool False),
                 (''is_between_days'', VBool True)] d minutes next_day) (\<lambda>day. Inr (day, s'))))))
        else Inr (next_day, s)))"

fun inject_intercity_transfers_between_days :: "settings \<Rightarrow> 's router \<Rightarrow> pydict list \<Rightarrow> 's \<Rightarrow> (pydict list \<times> 's) res" where
  "inject_intercity_transfers_between_days st route (d # e # ds) s =
     rbind (inject_pair st route d e s) (\<lambda>(e', s').
     rbind (inject_intercity_transfers_between_days st route (e' # ds) s') (\<lambda>(es, s''). Inr (d # es, s'')))"
| "inject_intercity_transfers_between_days st route ds s = Inr (ds, s)"

subsection \<open>Lemmas\<close>

lemma vadd_need_num: "vadd a b = Inr v \<Longrightarrow> \<exists>y. need_num b = Inr y"
  by (cases b) (auto simp: vadd_def vint_def rbind_eq_Inr_iff split: option.splits pyval.splits)

lemma add_to_summary_keeps:
  assumes "add_to_summary day m d = Inr day'"
  shows "(\<exists>y. need_num d = Inr y) \<and> (k \<noteq> ''travel_summary'' \<longrightarrow> map_of day' k = map_of day k)"
  using assms vadd_need_num
  by (auto simp: add_to_summary_def add_key_def rbind_eq_Inr_iff split: pyval.splits if_splits)

lemma with_transfers_simps [simp]:
  "with_transfers (with_transfers d) = with_transfers d"
  "has_key d ''transfers'' \<Longrightarrow> with_transfers d = d"
  "k \<noteq> ''transfers'' \<Longrightarrow> map_of (with_transfers d) k = map_of d k"
  by (auto simp: with_transfers_def has_key_def)

lemma with_transfers_has_key: "has_key (with_transfers d) ''transfers''"
  by (simp add: with_transfers_def has_key_def)

lemma insert_transfer_keeps:
  assumes "insert_transfer t d m e = Inr e'" "k \<noteq> ''transfers''" "k \<noteq> ''travel_summary''"
  shows "map_of e' k = map_of e k"
  using assms(1) unfolding insert_transfer_def Let_def
  by (auto simp: rbind_eq_Inr_iff assms(2,3) split: if_splits pyval.splits dest!: add_to_summary_keeps [where k = k])

lemma insert_transfer_again:
  assumes "insert_transfer t d m e = Inr e'"
    and "map_of t ''type'' = Some (VStr ''intercity_transfer'')" "map_of t ''distance_km'' = Some d"
  shows "insert_transfer t' d m' e' = Inr e'"
proof -
  let ?day = "with_transfers e"
  from assms(1) obtain ts same where i: "viter (dget ?day ''transfers'' VNone) = Inr ts" "similar_transfer ts d = Inr same"
    "(if same then Inr ?day
      else (case dget ?day ''transfers'' VNone of
              VList xs \<Rightarrow> add_to_summary (dset ''transfers'' (VList (VDict t # xs)) ?day) m d
            | _ \<Rightarrow> Inl AttributeError)) = Inr e'"
    unfolding insert_transfer_def Let_def rbind_eq_Inr_iff by blast
  show ?thesis
  proof (cases same)
    case True
    with i show ?thesis by (auto simp: insert_transfer_def)
  next
    case False
    with i(3) obtain xs where a: "add_to_summary (dset ''transfers'' (VList (VDict t # xs)) ?day) m d = Inr e'"
      by (auto split: pyval.splits)
    then have k: "map_of e' ''transfers'' = Some (VList (VDict t # xs))"
      using add_to_summary_keeps [OF a, of "''transfers''"] by simp
    obtain y where y: "need_num d = Inr y" using add_to_summary_keeps [OF a] by blast
    have "similar_transfer (VDict t # xs) d = Inr True"
      using y assms(2,3) by (simp add: dget_def)
    with k show ?thesis by (simp add: insert_transfer_def has_key_def dget_def)
  qed
qed

definition pure_router :: "(coord \<Rightarrow> coord \<Rightarrow> string \<Rightarrow> pydict res) \<Rightarrow> unit router" where
  "pure_router f p q mode s = (f p q mode, s)"

lemma inject_pair_keeps:
  assumes "inject_pair st route d e s = Inr (e', s')" "k \<noteq> ''transfers''" "k \<noteq> ''travel_summary''"
  shows "map_of e' k = map_of e k"
proof (cases "e' = e")
  case False
  with assms obtain t d' m where "insert_transfer t d' m e = Inr e'"
    unfolding inject_pair_def by (auto simp: Let_def rbind_eq_Inr_iff prod.case_eq_if split: if_splits)
  then show ?thesis using assms(2,3) by (rule insert_transfer_keeps)
qed simp

lemma inject_pair_keeps_base:
  "inject_pair st route d e s = Inr (e', s') \<Longrightarrow> dget e' ''base'' v = dget e ''base'' v"
  using inject_pair_keeps [of st route d e s e' s' "''base''"] by (simp add: dget_def)

lemma inject_pair_cong:
  "dget d ''base'' VNone = dget d' ''base'' VNone \<Longrightarrow> inject_pair st route d e s = inject_pair st route d' e s"
  by (simp add: inject_pair_def)

lemma inject_pair_again:
  assumes "inject_pair st (pure_router f) d e s = Inr (e', s')"
  shows "inject_pair st (pure_router f) d e' s = Inr (e', s)"
proof (cases "e' = e")
  case True
  with assms show ?thesis by simp
next
  case False
  note base = inject_pair_keeps_base [OF assms, of VNone]
  from False assms obtain vs p q km fn tn eta mode dist m t where i:
    "truthy (dget d ''base'' VNone)" "truthy (dget e ''base'' VNone)"
    "base_points (dget d ''base'' VNone) (dget e ''base'' VNone) = Inr (vs, p, q, km)" "km > 30"
    "vindex (dget d ''base'' VNone) ''name'' = Inr fn" "vindex (dget e ''base'' VNone) ''name'' = Inr tn"
    "f p q ''drive'' = Inr eta" "choose_flight st km eta = Inr (mode, dist, m)"
    "t = [(''type'', VStr ''intercity_transfer''), (''from'', fn), (''to'', tn),
          (''from_lat'', vs ! 0), (''from_lon'', vs ! 1), (''to_lat'', vs ! 2), (''to_lon'', vs ! 3),
          (''distance_km'', dist), (''duration_minutes'', VInt m), (''mode'', VStr mode),
          (''time'', VStr ''09:00''), (''overnight'', VBool False), (''has_activity'', VBool False),
          (''is_between_days'', VBool True)]"
    "insert_transfer t dist m e = Inr e'"
    unfolding inject_pair_def pure_router_def by (auto simp: Let_def rbind_eq_Inr_iff split: if_splits)
  have "insert_transfer t dist m e' = Inr e'"
    by (rule insert_transfer_again [OF i(10)]) (simp_all add: i(9))
  with i show ?thesis by (simp add: inject_pair_def pure_router_def base Let_def)
qed

lemma inject_head:
  assumes "inject_intercity_transfers_between_days st route (d # ds) s = Inr (r, s')"
  obtains r' where "r = d # r'"
  using assms by (cases ds) (auto simp: rbind_eq_Inr_iff)

lemma inject_keeps:
  "inject_intercity_transfers_between_days st route ds s = Inr (r, s') \<Longrightarrow> k \<noteq> ''transfers'' \<Longrightarrow> k \<noteq> ''travel_summary'' \<Longrightarrow>
   map (\<lambda>d. map_of d k) r = map (\<lambda>d. map_of d k) ds"
proof (induction st route ds s arbitrary: r s' rule: inject_intercity_transfers_between_days.induct)
  case (1 st route d e ds s)
  from "1.prems"(1) obtain e' s1 es s2 where i: "inject_pair st route d e s = Inr (e', s1)"
    "inject_intercity_transfers_between_days st route (e' # ds) s1 = Inr (es, s2)" "r = d # es"
    by (auto simp: rbind_eq_Inr_iff)
  from "1.IH" [OF i(1) refl i(2) "1.prems"(2,3)] inject_pair_keeps [OF i(1) "1.prems"(2,3)] i(3) show ?case by simp
qed simp_all

lemma inject_length:
  assumes "inject_intercity_transfers_between_days st route ds s = Inr (r, s')"
  shows "length r = length ds"
  using arg_cong [OF inject_keeps [OF assms, of "[]"], of length] by simp

text \<open>
  C31: running the pass over the days twice is running it once, for a routing service without state that answers
  the same request in the same way: the second pass finds every transfer it would add. (The robust service keeps a
  breaker, and may answer the second pass with another estimate.)
\<close>

theorem injection_idempotent:
  assumes "inject_intercity_transfers_between_days st (pure_router f) ds () = Inr (r, s)"
  shows "inject_intercity_transfers_between_days st (pure_router f) r () = Inr (r, ()) \<and> length r = length ds"
proof -
  have "inject_intercity_transfers_between_days st (pure_router f) ds s0 = Inr (r, s1) \<Longrightarrow>
    inject_intercity_transfers_between_days st (pure_router f) r s0 = Inr (r, s0)" for s0 s1
  proof (induction st "pure_router f" ds s0 arbitrary: r s1 rule: inject_intercity_transfers_between_days.induct)
    case (1 st d e ds s)
    from "1.prems" obtain e' s2 es s3 where i: "inject_pair st (pure_router f) d e s = Inr (e', s2)"
      "inject_intercity_transfers_between_days st (pure_router f) (e' # ds) s2 = Inr (es, s3)" "r = d # es"
      by (auto simp: rbind_eq_Inr_iff)
    obtain es' where es: "es = e' # es'" using inject_head [OF i(2)] .
    have "inject_intercity_transfers_between_days st (pure_router f) es s2 = Inr (es, s2)"
      using "1.hyps" [OF i(1) refl i(2)] .
    with inject_pair_again [OF i(1)] i(3) es show ?case by simp
  qed simp_all
  then show ?thesis using assms inject_length [OF assms] by simp
qed

definition demo_days :: "pydict list" where
  "demo_days =
     [[(''base'', VDict [(''name'', VStr ''Equator''), (''lat'', VInt 0), (''lon'', VInt 0)])],
      [(''base'', VDict [(''name'', VStr ''Pole''), (''lat'', VInt 90), (''lon'', VInt 0)])]]"

theorem injection_idempotent_witness:
  "\<exists>r t. inject_intercity_transfers_between_days default_settings (pure_router (\<lambda>p q m. Inr [])) demo_days () = Inr (r, ()) \<and>
    dget (r ! 1) ''transfers'' VNone = VList [t] \<and>
    inject_intercity_transfers_between_days default_settings (pure_router (\<lambda>p q m. Inr [])) r () = Inr (r, ())"
proof -
  have km: "1000 < EARTH_RADIUS_KM * pi / 2" using pi_ge_two by (simp add: EARTH_RADIUS_KM_def)
  then have far: "30 < EARTH_RADIUS_KM * pi / 2" by simp
  obtain r t where r: "inject_intercity_transfers_between_days default_settings (pure_router (\<lambda>p q m. Inr [])) demo_days () = Inr (r, ())"
    "dget (r ! 1) ''transfers'' VNone = VList [t]"
    using km far by (simp add: demo_days_def inject_pair_def base_points_def pole_distance dindex_def pure_router_def choose_flight_def
      default_settings_def insert_transfer_def with_transfers_def has_key_def add_to_summary_def add_key_def vadd_def vint_def dget_dset)
  from injection_idempotent [OF r(1)] r show ?thesis by blast
qed

end
