(* ===== verification/Suggestions.thy ===== *)
theory Suggestions
  imports BetweenDays "HOL-Library.Sublist"
begin

section \<open>Suggestions for free time and free trips\<close>

text \<open>
  \<open>_enrich_suggestions\<close>, \<open>_enrich_suggestions_real\<close> and
  \<open>_generate_free_days_with_suggestions\<close> of \<open>HybridOptimizerV31\<close>
  (src/utils/hybrid\_optimizer\_v31.py).  The searches are parameters; routing is the stateful
  operation of the theory Scheduling.  \<open>show\<close> renders a value inside an f-string.
\<close>

subsection \<open>Enrichment\<close>

text \<open>
  One suggestion with the time on foot; \<open>None\<close> is one that is further than fifty kilometres.  The
  second component of the result is the routing state.
\<close>

definition enrich_one ::
  "(pyval \<Rightarrow> string) \<Rightarrow> 's router \<Rightarrow> coord \<Rightarrow> pydict \<Rightarrow> 's \<Rightarrow> pydict option res \<times> 's" where
  "enrich_one show route loc sg s =
     (case rbind (pcoord sg) (\<lambda>p. rbind (coord_km loc p) (\<lambda>km.
             if km > 50 then rbind (dindex sg ''name'') (\<lambda>_. Inr None) else Inr (Some p))) of
        Inl e \<Rightarrow> (Inl e, s)
      | Inr None \<Rightarrow> (Inr None, s)
      | Inr (Some p) \<Rightarrow>
          (let (r, s') = route loc p ''walk'' s in
           (rbind r (\<lambda>eta. rbind (dindex eta ''duration_minutes'') (\<lambda>minutes.
            rbind (generate_suggestion_reason show sg minutes) (\<lambda>reason.
            rbind (dindex sg ''name'') (\<lambda>name. rbind (dindex sg ''lat'') (\<lambda>lat. rbind (dindex sg ''lon'') (\<lambda>lon.
            rbind (dindex sg ''type'') (\<lambda>type. rbind (py_int minutes) (\<lambda>m.
            Inr (Some [(''name'', name), (''lat'', lat), (''lon'', lon), (''type'', type),
                 (''rating'', dget sg ''rating'' (VFloat (45/10))), (''eta_minutes'', VInt m), (''reason'', VStr reason),
                 (''synthetic'', dget sg ''synthetic'' (VBool False))]))))))))), s')))"

text \<open>An exception skips the suggestion, but the log line that reports it reads its name.\<close>

fun enrich_suggestions ::
  "(pyval \<Rightarrow> string) \<Rightarrow> 's router \<Rightarrow> coord \<Rightarrow> pydict list \<Rightarrow> 's \<Rightarrow> pydict list res \<times> 's" where
  "enrich_suggestions show route loc [] s = (Inr [], s)"
| "enrich_suggestions show route loc (sg # sgs) s =
     (let (r, s1) = enrich_one show route loc sg s in
      case (case r of Inl e \<Rightarrow> rbind (dindex sg ''name'') (\<lambda>_. Inr None) | Inr o1 \<Rightarrow> Inr o1) of
        Inl e \<Rightarrow> (Inl e, s1)
      | Inr o1 \<Rightarrow>
          (let (rs, s2) = enrich_suggestions show route loc sgs s1
           in (rbind rs (\<lambda>xs. Inr ((case o1 of None \<Rightarrow> [] | Some x \<Rightarrow> [x]) @ xs)), s2)))"

text \<open>The variant for answers of Google Places, which are taken as they are.\<close>

definition real_suggestion :: "(pyval \<Rightarrow> string) \<Rightarrow> pydict \<Rightarrow> pydict res" where
  "real_suggestion show sg =
     rbind (dindex sg ''name'') (\<lambda>name. rbind (dindex sg ''lat'') (\<lambda>lat. rbind (dindex sg ''lon'') (\<lambda>lon.
     rbind (dindex sg ''type'') (\<lambda>type.
     Inr [(''name'', name), (''lat'', lat), (''lon'', lon), (''type'', type),
          (''rating'', dget sg ''rating'' (VFloat 4)), (''eta_minutes'', dget sg ''eta_minutes'' (VInt 0)),
          (''reason'', dget sg ''reason'' (VStr (''Google Places: '' @ show (dget sg ''rating'' (VFloat 4)) @ star))),
          (''synthetic'', VBool False), (''source'', VStr ''google_places''),
          (''place_id'', dget sg ''place_id'' (VStr [])), (''vicinity'', dget sg ''vicinity'' (VStr [])),
          (''user_ratings_total'', dget sg ''user_ratings_total'' (VInt 0)),
          (''distance_km'', dget sg ''distance_km'' (VInt 0)), (''price_level'', dget sg ''price_level'' VNone)]))))"

definition enrich_one_real ::
  "(pyval \<Rightarrow> string) \<Rightarrow> 's router \<Rightarrow> coord \<Rightarrow> pydict \<Rightarrow> 's \<Rightarrow> pydict option res \<times> 's" where
  "enrich_one_real show route loc sg s =
     (case gt_num (dget sg ''distance_km'' (VInt 0)) 5 of
        Inl e \<Rightarrow> (Inl e, s)
      | Inr True \<Rightarrow> (rbind (dindex sg ''name'') (\<lambda>_. Inr None), s)
      | Inr False \<Rightarrow>
          if \<not> truthy (dget sg ''synthetic'' (VBool True)) then (rbind (real_suggestion show sg) (\<lambda>x. Inr (Some x)), s)
          else
            (case pcoord sg of
               Inl e \<Rightarrow> (Inl e, s)
             | Inr p \<Rightarrow>
                 (let (r, s') = route loc p ''walk'' s in
                  (rbind r (\<lambda>eta. rbind (dindex eta ''duration_minutes'') (\<lambda>minutes.
                   rbind (generate_suggestion_reason_enhanced show sg minutes) (\<lambda>reason.
                   rbind (dindex sg ''name'') (\<lambda>name. rbind (dindex sg ''lat'') (\<lambda>lat. rbind (dindex sg ''lon'') (\<lambda>lon.
                   rbind (dindex sg ''type'') (\<lambda>type. rbind (py_int minutes) (\<lambda>m.
                   Inr (Some [(''name'', name), (''lat'', lat), (''lon'', lon), (''type'', type),
                        (''rating'', dget sg ''rating'' (VFloat 4)), (''eta_minutes'', VInt m),
                        (''reason'', VStr reason), (''synthetic'', VBool True)]))))))))), s'))))"

fun enrich_all_real ::
  "(pyval \<Rightarrow> string) \<Rightarrow> 's router \<Rightarrow> coord \<Rightarrow> pydict list \<Rightarrow> 's \<Rightarrow> pydict list \<times> 's" where
  "enrich_all_real show route loc [] s = ([], s)"
| "enrich_all_real show route loc (sg # sgs) s =
     (let (r, s1) = enrich_one_real show route loc sg s;
          (xs, s2) = enrich_all_real show route loc sgs s1
      in ((case r of Inr (Some x) \<Rightarrow> [x] | _ \<Rightarrow> []) @ xs, s2))"

text \<open>The first suggestion of each identifier; those without one are all kept.\<close>

fun dedup_by_place_id :: "pyval list \<Rightarrow> pydict list \<Rightarrow> pydict list res" where
  "dedup_by_place_id seen [] = Inr []"
| "dedup_by_place_id seen (x # xs) =
     (let pid = dget x ''place_id'' (VStr []) in
      if \<not> truthy pid then rbind (dedup_by_place_id seen xs) (\<lambda>ys. Inr (x # ys))
      else if \<not> hashable pid then Inl TypeError
      else if pid \<in> set seen then dedup_by_place_id seen xs
      else rbind (dedup_by_place_id (pid # seen) xs) (\<lambda>ys. Inr (x # ys)))"

definition enrich_suggestions_real ::
  "(pyval \<Rightarrow> string) \<Rightarrow> 's router \<Rightarrow> coord \<Rightarrow> pydict list \<Rightarrow> 's \<Rightarrow> pydict list res \<times> 's" where
  "enrich_suggestions_real show route loc sgs s =
     (let (enriched, s') = enrich_all_real show route loc sgs s
      in (rbind (dedup_by_place_id [] enriched) (\<lambda>xs. Inr (take 3 xs)), s'))"

subsection \<open>Free trips\<close>

definition SANTIAGO :: coord where
  "SANTIAGO = (- (334489/10000), - (706693/10000))"

definition tourist_destinations :: "(coord \<times> string list) list" where
  "tourist_destinations =
     [((- (2291/100), - (6820/100)), [''tourist_attraction'', ''cafe'', ''point_of_interest'']),
      ((- (3305/100), - (7162/100)), [''art_gallery'', ''museum'', ''tourist_attraction'']),
      ((- (3345/100), - (7067/100)), [''restaurant'', ''museum'', ''park'']),
      ((- (2365/100), - (7040/100)), [''tourist_attraction'', ''restaurant'', ''cafe'']),
      ((- (2249/100), - (6890/100)), [''restaurant'', ''shopping_mall'', ''cafe''])]"

definition near_destination :: "coord \<Rightarrow> coord \<times> string list \<Rightarrow> bool" where
  "near_destination loc d \<longleftrightarrow> sqrt ((fst loc - fst (fst d))\<^sup>2 + (snd loc - snd (fst d))\<^sup>2) < 1/2"

definition general_types :: "string list" where
  "general_types = [''tourist_attraction'', ''restaurant'', ''cafe'', ''museum'', ''park'']"

definition suggested_types :: "coord \<Rightarrow> string list" where
  "suggested_types loc = (case find (near_destination loc) tourist_destinations of None \<Rightarrow> general_types | Some d \<Rightarrow> snd d)"

text \<open>\<open>search_real types day\<close> and \<open>nearby types\<close> are the two searches around Santiago.\<close>

definition free_day_suggestions ::
  "(string list \<Rightarrow> int \<Rightarrow> pydict list res) \<Rightarrow> (string list \<Rightarrow> pydict list res) \<Rightarrow> int \<Rightarrow> pydict list" where
  "free_day_suggestions search_real nearby day_number =
     (case rbind (search_real (suggested_types SANTIAGO) day_number) (\<lambda>xs.
             if xs \<noteq> [] then Inr xs else nearby [''restaurant'', ''tourist_attraction'', ''museum'']) of
        Inl e \<Rightarrow> [] | Inr xs \<Rightarrow> xs)"

definition free_day :: "string \<Rightarrow> int \<Rightarrow> int \<Rightarrow> int \<Rightarrow> pydict list \<Rightarrow> pydict" where
  "free_day date day_number start_hour end_hour sgs =
     [(''day'', VInt day_number), (''date'', VStr date), (''activities'', VList []), (''transfers'', VList []),
      (''free_blocks'', VList [VDict
         [(''start_time'', VInt (start_hour * 60)), (''end_time'', VInt (end_hour * 60)),
          (''duration_minutes'', VInt ((end_hour - start_hour) * 60)),
          (''suggestions'', VList (map VDict sgs)),
          (''note'', VStr (''D'' @ [char_of (195::nat), char_of (173::nat)] @ ''a libre completo con '' @ show_nat (length sgs) @
             '' sugerencias de lugares para explorar''))]]),
      (''base'', VNone),
      (''travel_summary'', VDict
         [(''total_travel_time_s'', VInt 0), (''walking_time_minutes'', VInt 0), (''transport_time_minutes'', VInt 0),
          (''intercity_transfers_count'', VInt 0)])]"

text \<open>\<open>isodate\<close> prints the date of an ordinal; the days are keyed by it.\<close>

definition generate_free_days_with_suggestions ::
  "(string list \<Rightarrow> int \<Rightarrow> pydict list res) \<Rightarrow> (string list \<Rightarrow> pydict list res) \<Rightarrow> (int \<Rightarrow> string) \<Rightarrow>
   int \<Rightarrow> int \<Rightarrow> int \<Rightarrow> int \<Rightarrow> pydict" where
  "generate_free_days_with_suggestions search_real nearby isodate start_date end_date start_hour end_hour =
     (let n = end_date - start_date + 1;
          days = fold (\<lambda>i d. dset (isodate (start_date + i))
                   (VDict (free_day (isodate (start_date + i)) (i + 1) start_hour end_hour (free_day_suggestions search_real nearby (i + 1)))) d)
                 [0..n - 1] []
      in [(''days'', VDict days),
          (''optimization_metrics'', VDict
             [(''efficiency_score'', VFloat 1), (''optimization_mode'', VStr ''free_days_with_suggestions''),
              (''fallback_active'', VBool False), (''total_clusters'', VInt 0), (''total_activities'', VInt 0),
              (''total_distance_km'', VInt 0), (''total_travel_time_minutes'', VInt 0),
              (''processing_time_seconds'', VFloat (1/10)), (''free_days_generated'', VInt n)])])"


subsection \<open>Properties\<close>

definition place_ids :: "pydict list \<Rightarrow> pyval list" where
  "place_ids xs = filter truthy (map (\<lambda>x. dget x ''place_id'' (VStr [])) xs)"

lemma dedup_keeps:
  "dedup_by_place_id seen xs = Inr ys \<Longrightarrow>
   subseq ys xs \<and> distinct (place_ids ys) \<and> set (place_ids ys) \<inter> set seen = {} \<and>
   set (place_ids ys) \<union> set seen = set (place_ids xs) \<union> set seen"
proof (induction seen xs arbitrary: ys rule: dedup_by_place_id.induct)
  case (1 seen)
  then show ?case by (simp add: place_ids_def)
next
  case (2 seen x xs)
  let ?p = "dget x ''place_id'' (VStr [])"
  consider (no) "\<not> truthy ?p" | (dup) "truthy ?p" "?p \<in> set seen" | (new) "truthy ?p" "?p \<notin> set seen" by blast
  then show ?case
  proof cases
    case no
    with "2.prems" obtain zs where "dedup_by_place_id seen xs = Inr zs" "ys = x # zs"
      by (auto simp: Let_def rbind_eq_Inr_iff)
    with "2.IH"(1) [OF refl no] no show ?thesis by (simp add: place_ids_def)
  next
    case dup
    with "2.prems" have h: "hashable ?p" and d: "dedup_by_place_id seen xs = Inr ys"
      by (auto simp: Let_def split: if_splits)
    from "2.IH"(2) [OF refl _ _ dup(2) d] dup h show ?thesis
      by (auto simp: place_ids_def intro: list_emb_Cons)
  next
    case new
    with "2.prems" have h: "hashable ?p" by (auto simp: Let_def split: if_splits)
    with new "2.prems" obtain zs where d: "dedup_by_place_id (?p # seen) xs = Inr zs" "ys = x # zs"
      by (auto simp: Let_def rbind_eq_Inr_iff)
    from "2.IH"(3) [OF refl _ _ new(2) d(1)] new h d(2) show ?thesis by (auto simp: place_ids_def)
  qed
qed

text \<open>
  the suggestions for a free block are at most three of the enriched ones in their order, no two
  with the same identifier.
\<close>

theorem real_suggestions_distinct:
  assumes "enrich_suggestions_real sh route loc sgs s = (Inr xs, s')"
  shows "length xs \<le> 3 \<and> distinct (place_ids xs) \<and> subseq xs (fst (enrich_all_real sh route loc sgs s))"
proof -
  obtain ys where d: "dedup_by_place_id [] (fst (enrich_all_real sh route loc sgs s)) = Inr ys" "xs = take 3 ys"
    using assms by (auto simp: enrich_suggestions_real_def rbind_eq_Inr_iff split: prod.splits)
  have t: "place_ids ys = place_ids (take 3 ys) @ place_ids (drop 3 ys)"
    unfolding place_ids_def by (metis append_take_drop_id filter_append map_append)
  from dedup_keeps [OF d(1)] have "subseq ys (fst (enrich_all_real sh route loc sgs s))" "distinct (place_ids ys)" by simp_all
  then show ?thesis
    using t d(2) by (auto intro: subseq_order.order_trans [OF prefix_imp_subseq [OF take_is_prefix]])
qed

definition demo_suggestion :: pydict where
  "demo_suggestion = [(''name'', VStr ''Cafe''), (''lat'', VInt 0), (''lon'', VInt 0), (''type'', VStr ''cafe''),
     (''synthetic'', VBool False), (''place_id'', VStr ''p1'')]"

theorem real_suggestions_distinct_witness:
  "\<exists>x. enrich_suggestions_real (\<lambda>v. ''x'') (robust_router demo_net) (0, 0) [demo_suggestion, demo_suggestion] (new_optimizer, 0, 0) =
      (Inr [x], (new_optimizer, 0, 0)) \<and> distinct (place_ids [x])"
proof -
  obtain x where x: "enrich_suggestions_real (\<lambda>v. ''x'') (robust_router demo_net) (0, 0) [demo_suggestion, demo_suggestion] (new_optimizer, 0, 0) =
      (Inr [x], (new_optimizer, 0, 0))"
    by (simp add: enrich_suggestions_real_def enrich_one_real_def demo_suggestion_def gt_num_def real_suggestion_def dindex_def Let_def)
  from real_suggestions_distinct [OF x] x show ?thesis by blast
qed

lemma santiago_types: "suggested_types SANTIAGO = [''restaurant'', ''museum'', ''park'']"
proof -
  have a: "\<not> near_destination SANTIAGO ((- (2291/100), - (6820/100)), t)" for t
    unfolding near_destination_def SANTIAGO_def not_less
    by (rule order_trans [OF _ real_sqrt_ge_abs1]) simp
  have b: "\<not> near_destination SANTIAGO ((- (3305/100), - (7162/100)), t)" for t
    unfolding near_destination_def SANTIAGO_def not_less
    by (rule order_trans [OF _ real_sqrt_ge_abs2]) simp
  have c: "near_destination SANTIAGO ((- (3345/100), - (7067/100)), t)" for t
    unfolding near_destination_def SANTIAGO_def by (rule real_less_lsqrt) (simp_all add: power2_eq_square)
  show ?thesis
    unfolding suggested_types_def tourist_destinations_def by (simp only: find.simps a b c if_True if_False option.case snd_conv)
qed

lemma fold_dset_keys:
  assumes "distinct (map f is)" "\<And>i. i \<in> set is \<Longrightarrow> f i \<notin> set (keys d)"
  shows "fold (\<lambda>i. dset (f i) (g i)) is d = d @ map (\<lambda>i. (f i, g i)) is"
  using assms
proof (induction "is" arbitrary: d)
  case (Cons i xs)
  have "dset (f i) (g i) d = d @ [(f i, g i)]" using Cons.prems(2) [of i] by (simp add: dset_fresh)
  moreover have "fold (\<lambda>i. dset (f i) (g i)) xs (d @ [(f i, g i)]) = (d @ [(f i, g i)]) @ map (\<lambda>i. (f i, g i)) xs"
  proof (rule Cons.IH)
    show "distinct (map f xs)" using Cons.prems(1) by simp
    show "f j \<notin> set (keys (d @ [(f i, g i)]))" if "j \<in> set xs" for j
    proof -
      have "f i \<noteq> f j" using Cons.prems(1) that by (metis distinct.simps(2) imageI list.set_map list.simps(9))
      with Cons.prems(2) [of j] that show ?thesis by simp
    qed
  qed
  ultimately show ?case by simp
qed simp

text \<open>
  the detection of the destination of a free trip has no effect: it always looks at the centre of
  Santiago, so the plan depends on the search for Santiago's types only, and it has one day for each
  date of the trip.
\<close>

theorem free_trip_ignores_destination:
  assumes "inj_on isodate {a..b}"
    and "\<And>n. search_real [''restaurant'', ''museum'', ''park''] n = search_real' [''restaurant'', ''museum'', ''park''] n"
  shows "generate_free_days_with_suggestions search_real nearby isodate a b h1 h2 =
      generate_free_days_with_suggestions search_real' nearby isodate a b h1 h2 \<and>
    (\<exists>days. dget (generate_free_days_with_suggestions search_real nearby isodate a b h1 h2) ''days'' VNone = VDict days \<and>
       keys days = map isodate [a..b])"
proof
  show "generate_free_days_with_suggestions search_real nearby isodate a b h1 h2 =
      generate_free_days_with_suggestions search_real' nearby isodate a b h1 h2"
    by (simp add: generate_free_days_with_suggestions_def free_day_suggestions_def santiago_types assms(2))
  have m: "map (\<lambda>i. isodate (a + i)) [0..b - a] = map isodate [a..b]"
    by (rule nth_equalityI) (auto simp: nth_upto)
  have "distinct (map isodate [a..b])" using assms(1) by (simp add: distinct_map)
  then have "keys (fold (\<lambda>i. dset (isodate (a + i)) (g i)) [0..b - a] []) = map isodate [a..b]" for g :: "int \<Rightarrow> pyval"
    by (subst fold_dset_keys) (simp_all add: m comp_def)
  then show "\<exists>days. dget (generate_free_days_with_suggestions search_real nearby isodate a b h1 h2) ''days'' VNone = VDict days \<and>
       keys days = map isodate [a..b]"
    by (simp add: generate_free_days_with_suggestions_def Let_def)
qed

theorem free_trip_ignores_destination_witness:
  "generate_free_days_with_suggestions (\<lambda>ts n. Inr []) (\<lambda>ts. Inl TimeoutError) (\<lambda>i. replicate (nat i) CHR ''x'') 1 2 9 18 =
   generate_free_days_with_suggestions (\<lambda>ts n. if ts = [''restaurant'', ''museum'', ''park''] then Inr [] else Inl TimeoutError)
     (\<lambda>ts. Inl TimeoutError) (\<lambda>i. replicate (nat i) CHR ''x'') 1 2 9 18"
  by (rule conjunct1 [OF free_trip_ignores_destination]) (auto simp: inj_on_def dest: arg_cong [where f = length])

end
