(* ===== verification/DayDistribution.thy ===== *)
theory DayDistribution
  imports Clusters
begin

section \<open>Distribution of clusters over the days of a trip\<close>

text \<open>
  \<open>allocate_clusters_to_days\<close>, its three modes, the route analysis they consult and the
  packing strategies of \<open>HybridOptimizerV31\<close> (src/utils/hybrid\_optimizer\_v31.py).  A day is
  keyed by its ordinal instead of its ISO rendering; the day dictionary keeps the order of the
  days.
\<close>

type_synonym days = "(int, cluster list) dict"

definition append_day :: "int \<Rightarrow> cluster \<Rightarrow> days \<Rightarrow> days" where
  "append_day k c d = add_to k c d"

text \<open>\<open>min(day_assignments.keys(), key=\<dots>)\<close>: the first day with the fewest clusters.\<close>

fun least_loaded :: "(int \<times> nat) option \<Rightarrow> days \<Rightarrow> int res" where
  "least_loaded None [] = Inl ValueError"
| "least_loaded (Some (k, n)) [] = Inr k"
| "least_loaded best ((k, cs) # d) =
     least_loaded (case best of None \<Rightarrow> Some (k, length cs)
                   | Some (k', n) \<Rightarrow> if length cs < n then Some (k, length cs) else Some (k', n)) d"

definition min_day :: "days \<Rightarrow> int res" where
  "min_day d = least_loaded None d"

definition to_min_day :: "cluster \<Rightarrow> days \<Rightarrow> days res" where
  "to_min_day c d = rbind (min_day d) (\<lambda>k. Inr (append_day k c d))"

subsection \<open>Route analysis\<close>

definition max_intra_cluster_distance :: "pydict list \<Rightarrow> real res" where
  "max_intra_cluster_distance places = (if length places \<le> 1 then Inr 0 else pairs_max pdist places 0)"

fun label_le :: "label \<Rightarrow> label \<Rightarrow> bool res" where
  "label_le (LInt i) (LInt j) = Inr (i \<le> j)"
| "label_le (LStr s) (LStr t) = Inr (s = t \<or> (s, t) \<in> lexord {(a, b). (of_char a :: nat) < of_char b})"
| "label_le _ _ = Inl TypeError"

definition label_pair :: "label \<Rightarrow> label \<Rightarrow> (label \<times> label) res" where
  "label_pair a b = rbind (label_le a b) (\<lambda>le. Inr (if le then (a, b) else (b, a)))"

fun inter_cluster_distances :: "cluster list \<Rightarrow> (label \<times> label, real) dict \<Rightarrow> (label \<times> label, real) dict res" where
  "inter_cluster_distances [] d = Inr d"
| "inter_cluster_distances (a # cs) d =
     rbind (rfold (\<lambda>b d. rbind (vdist (cl_centroid a) (cl_centroid b)) (\<lambda>km.
                        rbind (label_pair (cl_label a) (cl_label b)) (\<lambda>k. Inr (dset k km d)))) cs d)
       (inter_cluster_distances cs)"

fun place_pairs :: "pydict list \<Rightarrow> real list res" where
  "place_pairs [] = Inr []"
| "place_pairs (p # ps) =
     rbind (rmap_list (pdist p) ps) (\<lambda>ds. rbind (place_pairs ps) (\<lambda>rest. Inr (ds @ rest)))"

definition grouping_suggestion :: "nat \<Rightarrow> real \<Rightarrow> real \<Rightarrow> string" where
  "grouping_suggestion n avg mx =
     (if n \<le> 2 then ''group_same_day''
      else if avg \<le> 2 then ''group_same_day''
      else if avg \<le> 5 \<and> mx \<le> 8 then ''group_pairs''
      else if mx > 15 then ''distribute_far''
      else ''distribute'')"

text \<open>
  The analysis of the possible legs; for no places the dictionary has only the total and the
  suggestion, which reading any other entry turns into a \<open>KeyError\<close>.
\<close>

record route_analysis =
  ra_total_distance :: real
  ra_place_to_place :: "real list"
  ra_avg :: real
  ra_max :: real
  ra_min :: real
  ra_suggestion :: string
  ra_hotel_routes :: nat
  ra_place_routes :: nat

definition evaluate_route_sequences :: "pydict list \<Rightarrow> pydict option \<Rightarrow> route_analysis option res" where
  "evaluate_route_sequences places hotel =
     (if places = [] then Inr None
      else
        let hotels = (case hotel of None \<Rightarrow> [] | Some h \<Rightarrow> if h = [] then [] else [h]) in
        rbind (rmap_list (\<lambda>h. rmap_list (pdist h) places) hotels) (\<lambda>there.
        rbind (place_pairs places) (\<lambda>between.
        rbind (rmap_list (\<lambda>h. rmap_list (\<lambda>p. pdist p h) places) hotels) (\<lambda>back.
        let avg = (if between = [] then 0 else sum_list between / real (length between));
            mx = (if between = [] then 0 else Max (set between));
            mn = (if between = [] then 0 else Min (set between))
        in Inr (Some \<lparr>ra_total_distance = sum_list (concat there), ra_place_to_place = between,
             ra_avg = avg, ra_max = mx, ra_min = mn,
             ra_suggestion = grouping_suggestion (length places) avg mx,
             ra_hotel_routes = length (concat there) + length (concat back),
             ra_place_routes = length between\<rparr>)))))"

definition get_intercity_threshold :: "settings \<Rightarrow> cluster list \<Rightarrow> real" where
  "get_intercity_threshold st cs =
     (if length cs > 3 then INTERCITY_THRESHOLD_KM_RURAL st else INTERCITY_THRESHOLD_KM_URBAN st)"

subsection \<open>The three modes\<close>

text \<open>\<open>place['name'][:20]\<close> as an f-string shows it: a string is cut, a list too and shown with its items, nothing else has slices.\<close>

definition short_name :: "pydict \<Rightarrow> string res" where
  "short_name p =
     rbind (dindex p ''name'') (\<lambda>v.
     case v of VStr s \<Rightarrow> Inr (take 20 s) | VList vs \<Rightarrow> Inr (py_repr (VList (take 20 vs))) | _ \<Rightarrow> Inl TypeError)"

definition relaxed_place :: "int list \<Rightarrow> pydict option \<Rightarrow> pydict \<Rightarrow> nat \<times> days \<Rightarrow> (nat \<times> days) res" where
  "relaxed_place day_keys base p = (\<lambda>(day_idx, d).
     rbind (short_name p) (\<lambda>n. rbind (ploc p) (\<lambda>c.
     let mini = mk_cluster (LStr (''relaxed_'' @ n)) c [p] base
     in if day_idx < length day_keys then Inr (Suc day_idx, append_day (day_keys ! day_idx) mini d)
        else rbind (to_min_day mini d) (\<lambda>d'. Inr (day_idx, d')))))"

definition distribute_relaxed_mode :: "cluster list \<Rightarrow> days \<Rightarrow> days res" where
  "distribute_relaxed_mode clusters d =
     rbind (rfold (\<lambda>c s. rfold (relaxed_place (keys d) (cl_home_base c)) (cl_places c) s) clusters (0, d)) (\<lambda>(_, d').
     Inr d')"

text \<open>Splitting a cluster over the days in rotation: the i-th place on day \<open>i % len(day_keys)\<close>.\<close>

fun rotate_places :: "int list \<Rightarrow> cluster \<Rightarrow> string \<Rightarrow> nat \<Rightarrow> pydict list \<Rightarrow> days \<Rightarrow> days res" where
  "rotate_places day_keys c tag i [] d = Inr d"
| "rotate_places day_keys c tag i (p # ps) d =
     rbind (ploc p) (\<lambda>loc.
     if day_keys = [] then Inl ZeroDivisionError
     else rotate_places day_keys c tag (Suc i) ps
            (append_day (day_keys ! (i mod length day_keys))
               (mk_cluster (LStr (show_label (cl_label c) @ tag @ show_nat i)) loc [p] (cl_home_base c)) d))"

fun pair_places :: "cluster \<Rightarrow> nat \<Rightarrow> pydict list list \<Rightarrow> days \<Rightarrow> days res" where
  "pair_places c i [] d = Inr d"
| "pair_places c i (ps # rest) d =
     rbind (to_min_day (mk_cluster (LStr (show_label (cl_label c) @ ''_pair_'' @ show_nat i)) (cl_centroid c) ps (cl_home_base c)) d)
       (pair_places c (Suc i) rest)"

fun pairs_of :: "'a list \<Rightarrow> 'a list list" where
  "pairs_of (x # y # xs) = [x, y] # pairs_of xs"
| "pairs_of [x] = [[x]]"
| "pairs_of [] = []"

text \<open>The sort key of far places: the sum of the distances to the places that differ from it.\<close>

definition remoteness :: "pydict list \<Rightarrow> pydict \<Rightarrow> real res" where
  "remoteness ps p = rbind (rmap_list (pdist p) (filter (\<lambda>q. q \<noteq> p) ps)) (\<lambda>ds. Inr (sum_list ds))"

definition sort_by_remoteness :: "pydict list \<Rightarrow> pydict list res" where
  "sort_by_remoteness ps =
     rbind (rmap_list (\<lambda>p. rbind (remoteness ps p) (\<lambda>k. Inr (k, p))) ps) (\<lambda>kps. Inr (map snd (sort_key fst kps)))"

definition place_by_suggestion :: "string \<Rightarrow> cluster \<Rightarrow> days \<Rightarrow> days res" where
  "place_by_suggestion suggestion c d =
     (if suggestion = ''group_same_day'' then to_min_day c d
      else if suggestion = ''group_pairs'' then pair_places c 0 (pairs_of (cl_places c)) d
      else if suggestion = ''distribute_far'' then
        rbind (sort_by_remoteness (cl_places c)) (\<lambda>ps. rotate_places (keys d) c ''_single_'' 0 ps d)
      else if suggestion = ''distribute'' then rotate_places (keys d) c ''_single_'' 0 (cl_places c) d
      else rotate_places (keys d) c ''_fallback_'' 0 (cl_places c) d)"

definition balanced_cluster :: "cluster \<Rightarrow> days \<Rightarrow> days res" where
  "balanced_cluster c d =
     (if length (cl_places c) = 1 then to_min_day c d
      else
        rbind (evaluate_route_sequences (cl_places c) (cl_home_base c)) (\<lambda>ra.
        case ra of
          None \<Rightarrow> Inl KeyError
        | Some a \<Rightarrow> place_by_suggestion (ra_suggestion a) c d))"

definition distribute_balanced_mode :: "cluster list \<Rightarrow> days \<Rightarrow> days res" where
  "distribute_balanced_mode clusters d = rfold balanced_cluster clusters d"

definition distribute_intensive_mode :: "cluster list \<Rightarrow> days \<Rightarrow> days res" where
  "distribute_intensive_mode clusters d = rfold to_min_day clusters d"

definition empty_days :: "int \<Rightarrow> int \<Rightarrow> days" where
  "empty_days start_date end_date = map (\<lambda>i. (i, [])) [start_date..end_date]"

definition n_places :: "cluster list \<Rightarrow> nat" where
  "n_places cs = sum_list (map (\<lambda>c. length (cl_places c)) cs)"

definition allocate_clusters_to_days :: "cluster list \<Rightarrow> int \<Rightarrow> int \<Rightarrow> days res" where
  "allocate_clusters_to_days clusters start_date end_date =
     (let num_days = end_date - start_date + 1;
          d = empty_days start_date end_date;
          ratio = real_of_int num_days / real (max (n_places clusters) 1)
      in if ratio \<ge> 15/10 then distribute_relaxed_mode clusters d
         else if ratio \<ge> 8/10 then distribute_balanced_mode clusters d
         else distribute_intensive_mode clusters d)"

subsection \<open>Packing strategies\<close>

definition cleared :: "days \<Rightarrow> days" where
  "cleared d = map (\<lambda>(k, cs). (k, [])) d"

definition all_clusters :: "days \<Rightarrow> cluster list" where
  "all_clusters d = concat (map snd d)"

text \<open>Greedy filling; once the last day is full the remaining clusters are not placed anywhere.\<close>

fun compact_loop :: "int \<Rightarrow> int list \<Rightarrow> cluster list \<Rightarrow> nat \<Rightarrow> days \<Rightarrow> days" where
  "compact_loop max_per_day day_keys [] idx d = d"
| "compact_loop max_per_day day_keys (c # cs) idx d =
     (if idx < length day_keys then
        (let date = day_keys ! idx; d' = append_day date c d;
             n = length (case map_of d' date of None \<Rightarrow> [] | Some xs \<Rightarrow> xs)
         in compact_loop max_per_day day_keys cs (if int n \<ge> max_per_day then Suc idx else idx) d')
      else compact_loop max_per_day day_keys cs idx d)"

definition pack_compact :: "settings \<Rightarrow> days \<Rightarrow> days" where
  "pack_compact st d = compact_loop (MAX_ACTIVITIES_PER_DAY st) (keys d) (all_clusters d) 0 (cleared d)"

fun round_robin :: "int list \<Rightarrow> nat \<Rightarrow> cluster list \<Rightarrow> days \<Rightarrow> days res" where
  "round_robin day_keys i [] d = Inr d"
| "round_robin day_keys i (c # cs) d =
     (if day_keys = [] then Inl ZeroDivisionError
      else round_robin day_keys (Suc i) cs (append_day (day_keys ! (i mod length day_keys)) c d))"

definition pack_balanced :: "days \<Rightarrow> days res" where
  "pack_balanced d = round_robin (keys d) 0 (all_clusters d) (cleared d)"

definition pack_activities_by_strategy :: "settings \<Rightarrow> days \<Rightarrow> string \<Rightarrow> days res" where
  "pack_activities_by_strategy st d strategy =
     (if strategy = ''compact'' then Inr (pack_compact st d)
      else if strategy = ''cluster_first'' then Inr d
      else pack_balanced d)"

subsection \<open>Lemmas\<close>

abbreviation placed :: "days \<Rightarrow> pydict multiset" where
  "placed d \<equiv> mset (concat (map cl_places (all_clusters d)))"

abbreviation places_of :: "cluster list \<Rightarrow> pydict multiset" where
  "places_of cs \<equiv> mset (concat (map cl_places cs))"

lemma keys_append_day: "k \<in> set (keys d) \<Longrightarrow> keys (append_day k c d) = keys d"
  by (simp add: append_day_def add_to_def keys_dset)

lemma is_dict_append_day: "is_dict d \<Longrightarrow> is_dict (append_day k c d)"
  by (simp add: append_day_def add_to_def)

lemma mset_all_append_day:
  assumes "is_dict d" shows "mset (all_clusters (append_day k c d)) = add_mset c (mset (all_clusters d))"
  using assms
proof (induction d)
  case (Cons e d)
  obtain k' vs where e: "e = (k', vs)" by (cases e)
  show ?case
  proof (cases "k' = k")
    case True
    then show ?thesis by (simp add: e append_day_def add_to_def all_clusters_def)
  next
    case False
    then have "append_day k c (e # d) = e # append_day k c d" by (simp add: e append_day_def add_to_def)
    then show ?thesis using Cons by (simp add: e is_dict_def all_clusters_def)
  qed
qed (simp add: append_day_def add_to_def all_clusters_def)

lemma places_of_mset: "mset cs = mset cs' \<Longrightarrow> places_of cs = places_of cs'"
proof -
  have "places_of xs = sum_mset (image_mset (\<lambda>c. mset (cl_places c)) (mset xs))" for xs
    by (induction xs) auto
  then show "mset cs = mset cs' \<Longrightarrow> places_of cs = places_of cs'" by metis
qed

lemma placed_append_day:
  assumes "is_dict d" shows "placed (append_day k c d) = placed d + mset (cl_places c)"
proof -
  have "placed (append_day k c d) = places_of (c # all_clusters d)"
    by (rule places_of_mset) (simp add: mset_all_append_day [OF assms])
  then show ?thesis by simp
qed

lemma least_loaded_mem: "least_loaded best d = Inr k \<Longrightarrow> k \<in> set (keys d) \<or> (\<exists>n. best = Some (k, n))"
proof (induction best d rule: least_loaded.induct)
  case (3 best k' cs d)
  then show ?case by (auto split: option.splits prod.splits if_splits)
qed auto

lemma least_loaded_total: "best \<noteq> None \<or> d \<noteq> [] \<Longrightarrow> \<exists>k. least_loaded best d = Inr k"
  by (induction best d rule: least_loaded.induct) (auto split: option.splits prod.splits)

lemma min_day_mem: "min_day d = Inr k \<Longrightarrow> k \<in> set (keys d)"
  using least_loaded_mem [of None d k] by (simp add: min_day_def)

text \<open>What one placement preserves: the keys, and the places placed so far grow by its own.\<close>

definition places_onto :: "days \<Rightarrow> pydict multiset \<Rightarrow> days \<Rightarrow> bool" where
  "places_onto d m d' \<longleftrightarrow> is_dict d' \<and> keys d' = keys d \<and> placed d' = placed d + m"

lemma places_onto_refl: "is_dict d \<Longrightarrow> places_onto d {#} d"
  by (simp add: places_onto_def)

lemma places_onto_trans: "places_onto d m d' \<Longrightarrow> places_onto d' m' d'' \<Longrightarrow> places_onto d (m + m') d''"
  by (simp add: places_onto_def)

lemma append_day_onto: "is_dict d \<Longrightarrow> k \<in> set (keys d) \<Longrightarrow> places_onto d (mset (cl_places c)) (append_day k c d)"
  by (simp add: places_onto_def keys_append_day is_dict_append_day placed_append_day)

lemma to_min_day_onto: "to_min_day c d = Inr d' \<Longrightarrow> is_dict d \<Longrightarrow> places_onto d (mset (cl_places c)) d'"
  using append_day_onto min_day_mem by (auto simp: to_min_day_def rbind_eq_Inr_iff)

lemma mk_cluster_places [simp]: "cl_places (mk_cluster l c ps b) = ps"
  by (simp add: mk_cluster_def)

lemma rotate_places_onto:
  "rotate_places ks c tag i ps d = Inr d' \<Longrightarrow> is_dict d \<Longrightarrow> ks = keys d \<Longrightarrow> places_onto d (mset ps) d'"
proof (induction ps arbitrary: i d)
  case Nil
  then show ?case by (simp add: places_onto_refl)
next
  case (Cons p ps)
  then obtain loc where ne: "ks \<noteq> []" and
    r: "rotate_places ks c tag (Suc i) ps (append_day (ks ! (i mod length ks))
               (mk_cluster (LStr (show_label (cl_label c) @ tag @ show_nat i)) loc [p] (cl_home_base c)) d) = Inr d'"
    by (auto simp: rbind_eq_Inr_iff split: if_splits)
  have "ks ! (i mod length ks) \<in> set (keys d)" using ne Cons.prems(3) by (metis length_greater_0_conv mod_less_divisor nth_mem)
  note on = append_day_onto [OF Cons.prems(2) this, of "mk_cluster (LStr (show_label (cl_label c) @ tag @ show_nat i)) loc [p] (cl_home_base c)"]
  have "places_onto (append_day (ks ! (i mod length ks)) (mk_cluster (LStr (show_label (cl_label c) @ tag @ show_nat i)) loc [p] (cl_home_base c)) d) (mset ps) d'"
    using Cons.IH [OF r] on Cons.prems(3) by (simp add: places_onto_def)
  from places_onto_trans [OF on this] show ?case by simp
qed

lemma pair_places_onto:
  "pair_places c i pss d = Inr d' \<Longrightarrow> is_dict d \<Longrightarrow> places_onto d (mset (concat pss)) d'"
proof (induction pss arbitrary: i d)
  case Nil
  then show ?case by (simp add: places_onto_refl)
next
  case (Cons ps pss)
  then obtain d1 where d1: "to_min_day (mk_cluster (LStr (show_label (cl_label c) @ ''_pair_'' @ show_nat i)) (cl_centroid c) ps (cl_home_base c)) d = Inr d1"
    "pair_places c (Suc i) pss d1 = Inr d'"
    by (auto simp: rbind_eq_Inr_iff)
  note on = to_min_day_onto [OF d1(1) Cons.prems(2)]
  then have "is_dict d1" by (simp add: places_onto_def)
  from places_onto_trans [OF on Cons.IH [OF d1(2) this]] show ?case by simp
qed

lemma concat_pairs_of: "concat (pairs_of xs) = xs"
  by (induction xs rule: pairs_of.induct) auto

lemma sort_by_remoteness_mset: "sort_by_remoteness ps = Inr qs \<Longrightarrow> mset qs = mset ps"
proof -
  assume "sort_by_remoteness ps = Inr qs"
  then obtain kps where k: "rmap_list (\<lambda>p. rbind (remoteness ps p) (\<lambda>k. Inr (k, p))) ps = Inr kps" "qs = map snd (sort_key fst kps)"
    by (auto simp: sort_by_remoteness_def rbind_eq_Inr_iff)
  have "map snd kps = xs" if "rmap_list (\<lambda>p. rbind (remoteness ps p) (\<lambda>k. Inr (k, p))) xs = Inr kps" for xs kps
    using that by (induction xs arbitrary: kps) (auto simp: rbind_eq_Inr_iff)
  from this [OF k(1)] show ?thesis by (metis k(2) mset_map mset_sort)
qed

lemma place_by_suggestion_onto:
  assumes "place_by_suggestion sg c d = Inr d'" "is_dict d"
  shows "places_onto d (mset (cl_places c)) d'"
proof -
  consider "to_min_day c d = Inr d'" | "pair_places c 0 (pairs_of (cl_places c)) d = Inr d'"
    | ps where "sort_by_remoteness (cl_places c) = Inr ps" "rotate_places (keys d) c ''_single_'' 0 ps d = Inr d'"
    | tag where "rotate_places (keys d) c tag 0 (cl_places c) d = Inr d'"
    using assms(1) by (auto simp: place_by_suggestion_def rbind_eq_Inr_iff split: if_splits)
  then show ?thesis
  proof cases
    case 1
    then show ?thesis using to_min_day_onto assms(2) by blast
  next
    case 2
    from pair_places_onto [OF this assms(2)] show ?thesis by (simp add: concat_pairs_of)
  next
    case (3 ps)
    from rotate_places_onto [OF 3(2) assms(2)] sort_by_remoteness_mset [OF 3(1)] show ?thesis by simp
  next
    case (4 tag)
    from rotate_places_onto [OF 4 assms(2)] show ?thesis by simp
  qed
qed

lemma balanced_cluster_onto:
  assumes "balanced_cluster c d = Inr d'" "is_dict d"
  shows "places_onto d (mset (cl_places c)) d'"
proof (cases "length (cl_places c) = 1")
  case True
  with assms to_min_day_onto show ?thesis by (simp add: balanced_cluster_def)
next
  case False
  with assms(1) obtain ra :: "route_analysis option" where "(case ra of None \<Rightarrow> Inl KeyError
      | Some a \<Rightarrow> place_by_suggestion (ra_suggestion a) c d) = Inr d'"
    by (auto simp: balanced_cluster_def rbind_eq_Inr_iff)
  then show ?thesis
    using place_by_suggestion_onto [OF _ assms(2)] by (cases ra) auto
qed

lemma rfold_onto:
  assumes "\<And>c d d'. f c d = Inr d' \<Longrightarrow> is_dict d \<Longrightarrow> places_onto d (mset (cl_places c)) d'"
  shows "rfold f cs d = Inr d' \<Longrightarrow> is_dict d \<Longrightarrow> places_onto d (places_of cs) d'"
proof (induction cs arbitrary: d)
  case Nil
  then show ?case by (simp add: places_onto_refl)
next
  case (Cons c cs)
  then obtain d1 where d1: "f c d = Inr d1" "rfold f cs d1 = Inr d'" by (auto simp: rbind_eq_Inr_iff)
  note on = assms [OF d1(1) Cons.prems(2)]
  then have "is_dict d1" by (simp add: places_onto_def)
  from places_onto_trans [OF on Cons.IH [OF d1(2) this]] show ?case by simp
qed

definition load :: "days \<Rightarrow> int \<Rightarrow> nat" where
  "load d k = (case map_of d k of None \<Rightarrow> 0 | Some cs \<Rightarrow> length cs)"

lemma load_append_day: "load (append_day k c d) k' = (if k' = k then Suc (load d k) else load d k')"
  by (simp add: load_def append_day_def add_to_def split: option.splits)

lemma load_mem: "is_dict d \<Longrightarrow> (k, cs) \<in> set d \<Longrightarrow> load d k = length cs"
  by (simp add: load_def is_dict_def)

lemma load_cleared [simp]: "load (cleared d) k = 0"
proof -
  have "map_of (cleared d) k = map_option (\<lambda>_. []) (map_of d k)"
    unfolding cleared_def by (induction d) auto
  then show ?thesis by (cases "map_of d k") (simp_all add: load_def)
qed

lemma keys_cleared [simp]: "keys (cleared d) = keys d"
  by (induction d) (auto simp: cleared_def)

lemma all_clusters_cleared [simp]: "all_clusters (cleared d) = []"
  by (induction d) (auto simp: cleared_def all_clusters_def)

lemma is_dict_cleared [simp]: "is_dict (cleared d) = is_dict d"
  by (simp add: is_dict_def)

lemma length_all_append_day: "is_dict d \<Longrightarrow> length (all_clusters (append_day k c d)) = Suc (length (all_clusters d))"
  using mset_all_append_day [of d k c] by (metis size_add_mset size_mset)

lemma least_loaded_least:
  "least_loaded best d = Inr k \<Longrightarrow> is_dict d \<Longrightarrow> (\<forall>k' n. best = Some (k', n) \<longrightarrow> k' \<notin> set (keys d)) \<Longrightarrow>
   (\<exists>n. (best = Some (k, n) \<or> k \<in> set (keys d) \<and> n = load d k) \<and>
     (\<forall>k' \<in> set (keys d). n \<le> load d k') \<and> (\<forall>k' n'. best = Some (k', n') \<longrightarrow> n \<le> n'))"
proof (induction best d rule: least_loaded.induct)
  case (3 best k1 cs d)
  define b where "b = (case best of None \<Rightarrow> Some (k1, length cs)
       | Some (k', n) \<Rightarrow> if length cs < n then Some (k1, length cs) else Some (k', n))"
  have d: "is_dict d" "k1 \<notin> set (keys d)" using "3.prems"(2) by (auto simp: is_dict_def)
  have ld: "load ((k1, cs) # d) k' = load d k'" if "k' \<in> set (keys d)" for k'
    using d(2) that by (auto simp: load_def)
  have lk: "load ((k1, cs) # d) k1 = length cs" by (simp add: load_def)
  obtain kb nb where b: "b = Some (kb, nb)" "nb \<le> length cs" "\<forall>k' n'. best = Some (k', n') \<longrightarrow> nb \<le> n'"
    "(kb = k1 \<and> nb = length cs) \<or> best = Some (kb, nb)"
  proof (cases best)
    case None
    then show thesis using that [of k1 "length cs"] by (simp add: b_def)
  next
    case (Some kn)
    obtain k0 n0 where "kn = (k0, n0)" by (cases kn)
    with Some show thesis
      using that [of k1 "length cs"] that [of k0 n0] by (cases "length cs < n0") (auto simp: b_def)
  qed
  have "\<forall>k' n. b = Some (k', n) \<longrightarrow> k' \<notin> set (keys d)"
    using b(1,4) d(2) "3.prems"(3) by auto
  from "3.IH" [folded b_def, OF _ d(1) this] "3.prems"(1) obtain n where n:
    "b = Some (k, n) \<or> k \<in> set (keys d) \<and> n = load d k" "\<forall>k' \<in> set (keys d). n \<le> load d k'" "n \<le> nb"
    using b(1) by (auto simp: b_def)
  have 1: "best = Some (k, n) \<or> k \<in> set (keys ((k1, cs) # d)) \<and> n = load ((k1, cs) # d) k"
  proof (cases "b = Some (k, n)")
    case True
    with b(1,4) lk show ?thesis by auto
  next
    case False
    with n(1) have "k \<in> set (keys d)" "n = load d k" by simp_all
    with ld [of k] show ?thesis by simp
  qed
  have 2: "\<forall>k' \<in> set (keys ((k1, cs) # d)). n \<le> load ((k1, cs) # d) k'"
  proof
    fix k' assume "k' \<in> set (keys ((k1, cs) # d))"
    then consider "k' = k1" | "k' \<in> set (keys d)" by auto
    then show "n \<le> load ((k1, cs) # d) k'"
      by cases (use lk n(3) b(2) in simp, use ld [of k'] n(2) in auto)
  qed
  have 3: "\<forall>k' n'. best = Some (k', n') \<longrightarrow> n \<le> n'"
    using n(3) b(3) le_trans by blast
  from 1 2 3 show ?case by blast
qed auto

lemma min_day_least: "min_day d = Inr k \<Longrightarrow> is_dict d \<Longrightarrow> k \<in> set (keys d) \<and> (\<forall>k' \<in> set (keys d). load d k \<le> load d k')"
  using least_loaded_least [of None d k] by (auto simp: min_day_def)

text \<open>No day has two clusters more than another.\<close>

definition even_loads :: "days \<Rightarrow> bool" where
  "even_loads d \<longleftrightarrow> (\<forall>k \<in> set (keys d). \<forall>k' \<in> set (keys d). load d k \<le> Suc (load d k'))"

lemma to_min_day_even:
  assumes "to_min_day c d = Inr d'" "is_dict d" "even_loads d"
  shows "even_loads d'"
proof -
  obtain k where k: "min_day d = Inr k" "d' = append_day k c d"
    using assms(1) by (auto simp: to_min_day_def rbind_eq_Inr_iff)
  note least = min_day_least [OF k(1) assms(2)]
  then have "keys d' = keys d" using k(2) keys_append_day by blast
  then show ?thesis
    using least assms(3) by (auto simp: even_loads_def k(2) load_append_day le_Suc_eq)
qed

lemma rfold_to_min_day_even:
  "rfold to_min_day cs d = Inr d' \<Longrightarrow> is_dict d \<Longrightarrow> even_loads d \<Longrightarrow> even_loads d'"
proof (induction cs arbitrary: d)
  case (Cons c cs)
  then obtain d1 where "to_min_day c d = Inr d1" "rfold to_min_day cs d1 = Inr d'" by (auto simp: rbind_eq_Inr_iff)
  with Cons to_min_day_even to_min_day_onto show ?case unfolding places_onto_def by blast
qed simp

lemma keys_empty_days: "keys (empty_days a b) = [a..b]"
  by (simp add: empty_days_def comp_def)

lemma empty_days_ok: "is_dict (empty_days a b)" "placed (empty_days a b) = {#}" "load (empty_days a b) k = 0"
proof -
  show "is_dict (empty_days a b)" by (simp add: is_dict_def keys_empty_days)
  show "placed (empty_days a b) = {#}" by (simp add: empty_days_def all_clusters_def comp_def)
  have "map_of (map (\<lambda>i. (i, [] :: cluster list)) xs) k = (if k \<in> set xs then Some [] else None)" for xs
    by (induction xs) auto
  from this [of "[a..b]"] show "load (empty_days a b) k = 0" by (simp add: load_def empty_days_def)
qed

subsubsection \<open>The relaxed mode\<close>

lemma relaxed_place_onto:
  assumes "relaxed_place ks b p (i, d) = Inr (i', d')" "is_dict d" "keys d = ks"
  shows "places_onto d {#p#} d'"
proof -
  from assms(1) obtain n loc where r: "(let mini = mk_cluster (LStr (''relaxed_'' @ n)) loc [p] b
     in if i < length ks then Inr (Suc i, append_day (ks ! i) mini d)
        else rbind (to_min_day mini d) (\<lambda>d'. Inr (i, d'))) = Inr (i', d')"
    by (auto simp: relaxed_place_def rbind_eq_Inr_iff)
  show ?thesis
  proof (cases "i < length ks")
    case True
    then have "ks ! i \<in> set (keys d)" using assms(3) by simp
    from append_day_onto [OF assms(2) this, of "mk_cluster (LStr (''relaxed_'' @ n)) loc [p] b"] True r
    show ?thesis by (auto simp: Let_def)
  next
    case False
    with r have "to_min_day (mk_cluster (LStr (''relaxed_'' @ n)) loc [p] b) d = Inr d'"
      by (auto simp: Let_def rbind_eq_Inr_iff)
    from to_min_day_onto [OF this assms(2)] show ?thesis by simp
  qed
qed

lemma relaxed_places_onto:
  "rfold (relaxed_place ks b) ps (i, d) = Inr (i', d') \<Longrightarrow> is_dict d \<Longrightarrow> keys d = ks \<Longrightarrow> places_onto d (mset ps) d'"
proof (induction ps arbitrary: i d)
  case Nil
  then show ?case by (simp add: places_onto_refl)
next
  case (Cons p ps)
  then obtain i1 d1 where d1: "relaxed_place ks b p (i, d) = Inr (i1, d1)" "rfold (relaxed_place ks b) ps (i1, d1) = Inr (i', d')"
    by (auto simp: rbind_eq_Inr_iff)
  note on = relaxed_place_onto [OF d1(1) Cons.prems(2,3)]
  then have "is_dict d1" "keys d1 = ks" using Cons.prems(3) by (simp_all add: places_onto_def)
  from places_onto_trans [OF on Cons.IH [OF d1(2) this]] show ?case by simp
qed

lemma relaxed_clusters_onto:
  "rfold (\<lambda>c s. rfold (relaxed_place ks (cl_home_base c)) (cl_places c) s) cs (i, d) = Inr (i', d') \<Longrightarrow>
   is_dict d \<Longrightarrow> keys d = ks \<Longrightarrow> places_onto d (places_of cs) d'"
proof (induction cs arbitrary: i d)
  case Nil
  then show ?case by (simp add: places_onto_refl)
next
  case (Cons c cs)
  then obtain i1 d1 where d1: "rfold (relaxed_place ks (cl_home_base c)) (cl_places c) (i, d) = Inr (i1, d1)"
    "rfold (\<lambda>c s. rfold (relaxed_place ks (cl_home_base c)) (cl_places c) s) cs (i1, d1) = Inr (i', d')"
    by (auto simp: rbind_eq_Inr_iff)
  note on = relaxed_places_onto [OF d1(1) Cons.prems(2,3)]
  then have "is_dict d1" "keys d1 = ks" using Cons.prems(3) by (simp_all add: places_onto_def)
  from places_onto_trans [OF on Cons.IH [OF d1(2) this]] show ?case by simp
qed

text \<open>While days are left, the days from the current index on are empty and the others hold one place.\<close>

definition one_each :: "int list \<Rightarrow> nat \<Rightarrow> days \<Rightarrow> bool" where
  "one_each ks i d \<longleftrightarrow> is_dict d \<and> keys d = ks \<and> (\<forall>j < length ks. load d (ks ! j) = (if j < i then 1 else 0))"

lemma relaxed_place_one_each:
  assumes "relaxed_place ks b p (i, d) = Inr (i', d')" "one_each ks i d" "i < length ks"
  shows "i' = Suc i \<and> one_each ks i' d'"
proof -
  from assms(1,3) obtain n loc where r: "i' = Suc i" "d' = append_day (ks ! i) (mk_cluster (LStr (''relaxed_'' @ n)) loc [p] b) d"
    by (auto simp: relaxed_place_def rbind_eq_Inr_iff Let_def)
  have d: "distinct ks" using assms(2) by (auto simp: one_each_def is_dict_def)
  have "ks ! i \<in> set (keys d)" using assms(2,3) by (simp add: one_each_def)
  from keys_append_day [OF this] have "keys d' = ks" using assms(2) by (simp add: r(2) one_each_def)
  moreover have "is_dict d'" using assms(2) by (simp add: r(2) is_dict_append_day one_each_def)
  moreover have "load d' (ks ! j) = (if j < Suc i then 1 else 0)" if "j < length ks" for j
    using that assms(2,3) d by (auto simp: r(2) load_append_day one_each_def nth_eq_iff_index_eq)
  ultimately show ?thesis by (simp add: r(1) one_each_def)
qed

lemma relaxed_places_one_each:
  "rfold (relaxed_place ks b) ps (i, d) = Inr (i', d') \<Longrightarrow> one_each ks i d \<Longrightarrow> i + length ps \<le> length ks \<Longrightarrow>
   i' = i + length ps \<and> one_each ks i' d'"
proof (induction ps arbitrary: i d)
  case (Cons p ps)
  then obtain i1 d1 where d1: "relaxed_place ks b p (i, d) = Inr (i1, d1)" "rfold (relaxed_place ks b) ps (i1, d1) = Inr (i', d')"
    by (auto simp: rbind_eq_Inr_iff)
  have "i < length ks" using Cons.prems(3) by simp
  from relaxed_place_one_each [OF d1(1) Cons.prems(2) this] have i1: "i1 = Suc i" "one_each ks (Suc i) d1" by auto
  from Cons.IH [OF d1(2) [unfolded i1(1)] i1(2)] Cons.prems(3) show ?case by auto
qed simp

lemma relaxed_clusters_one_each:
  "rfold (\<lambda>c s. rfold (relaxed_place ks (cl_home_base c)) (cl_places c) s) cs (i, d) = Inr (i', d') \<Longrightarrow>
   one_each ks i d \<Longrightarrow> i + n_places cs \<le> length ks \<Longrightarrow> one_each ks i' d'"
proof (induction cs arbitrary: i d)
  case (Cons c cs)
  then obtain i1 d1 where d1: "rfold (relaxed_place ks (cl_home_base c)) (cl_places c) (i, d) = Inr (i1, d1)"
    "rfold (\<lambda>c s. rfold (relaxed_place ks (cl_home_base c)) (cl_places c) s) cs (i1, d1) = Inr (i', d')"
    by (auto simp: rbind_eq_Inr_iff)
  have "i + length (cl_places c) \<le> length ks" using Cons.prems(3) by (simp add: n_places_def)
  from relaxed_places_one_each [OF d1(1) Cons.prems(2) this]
  have i1: "i1 = i + length (cl_places c)" "one_each ks (i + length (cl_places c)) d1" by auto
  from Cons.IH [OF d1(2) [unfolded i1(1)] i1(2)] Cons.prems(3) show ?case by (simp add: n_places_def)
qed simp

subsubsection \<open>Packing\<close>

lemma round_robin_counts:
  assumes "round_robin ks i cs d = Inr d'" "is_dict d" "ks = keys d"
    and "\<forall>j < length ks. load d (ks ! j) = i div length ks + (if j < i mod length ks then 1 else 0)"
  shows "is_dict d' \<and> keys d' = ks \<and> mset (all_clusters d') = mset (all_clusters d) + mset cs \<and>
    (\<forall>j < length ks. load d' (ks ! j) =
       (i + length cs) div length ks + (if j < (i + length cs) mod length ks then 1 else 0))"
  using assms
proof (induction cs arbitrary: i d)
  case Nil
  then show ?case by simp
next
  case (Cons c cs)
  let ?n = "length ks" and ?k = "ks ! (i mod length ks)"
  from Cons.prems(1) have ne: "ks \<noteq> []" and r: "round_robin ks (Suc i) cs (append_day ?k c d) = Inr d'"
    by (auto split: if_splits)
  from ne have n: "0 < ?n" by simp
  then have im: "i mod ?n < ?n" by simp
  then have mem: "?k \<in> set (keys d)" using Cons.prems(3) by (metis nth_mem)
  have dist: "distinct ks" using Cons.prems(2,3) by (simp add: is_dict_def)
  have "load (append_day ?k c d) (ks ! j) = Suc i div ?n + (if j < Suc i mod ?n then 1 else 0)" if "j < ?n" for j
  proof -
    have "load (append_day ?k c d) (ks ! j) = (if j = i mod ?n then Suc (load d (ks ! j)) else load d (ks ! j))"
      using dist that im by (auto simp: load_append_day nth_eq_iff_index_eq)
    with Cons.prems(4) that im show ?thesis by (auto simp: div_Suc mod_Suc)
  qed
  from Cons.IH [OF r is_dict_append_day [OF Cons.prems(2)] _ ] this keys_append_day [OF mem] Cons.prems(3)
    mset_all_append_day [OF Cons.prems(2), of ?k c]
  show ?case by simp
qed

lemma pack_balanced_counts:
  assumes "pack_balanced d = Inr d'" "is_dict d"
  shows "is_dict d' \<and> keys d' = keys d \<and> mset (all_clusters d') = mset (all_clusters d) \<and> even_loads d'"
proof -
  let ?n = "length (keys d)" and ?t = "length (all_clusters d)"
  have "\<forall>j < ?n. load (cleared d) (keys d ! j) = 0 div ?n + (if j < 0 mod ?n then 1 else 0)" by simp
  from round_robin_counts [OF assms(1) [unfolded pack_balanced_def] _ _ this] assms(2)
  have r: "is_dict d'" "keys d' = keys d" "mset (all_clusters d') = mset (all_clusters d)"
    "\<forall>j < ?n. load d' (keys d ! j) = ?t div ?n + (if j < ?t mod ?n then 1 else 0)" by simp_all
  have "load d' k \<le> Suc (?t div ?n) \<and> ?t div ?n \<le> load d' k" if "k \<in> set (keys d)" for k
  proof -
    from that obtain j where "j < ?n" "keys d ! j = k" by (metis in_set_conv_nth)
    with r(4) have "load d' k = ?t div ?n + (if j < ?t mod ?n then 1 else 0)" by blast
    then show ?thesis by simp
  qed
  then have "even_loads d'" unfolding even_loads_def r(2) by (meson Suc_le_mono le_trans)
  with r show ?thesis by simp
qed

lemma compact_loop_full:
  "length ks \<le> i \<Longrightarrow> compact_loop m ks cs i d = d"
  by (induction cs) auto

lemma compact_loop_counts:
  assumes "is_dict d" "keys d = ks" "0 < m" "i < length ks"
    and "load d (ks ! i) < nat m" "\<forall>j. i < j \<and> j < length ks \<longrightarrow> load d (ks ! j) = 0"
  shows "length (all_clusters (compact_loop m ks cs i d)) =
    length (all_clusters d) + min (length cs) ((length ks - i) * nat m - load d (ks ! i))"
  using assms
proof (induction cs arbitrary: i d)
  case (Cons c cs)
  let ?k = "ks ! i" let ?d = "append_day ?k c d" let ?l = "load d ?k"
  have d: "distinct ks" using Cons.prems(1,2) by (auto simp: is_dict_def)
  have mem: "?k \<in> set (keys d)" using Cons.prems(2,4) by simp
  have d': "is_dict ?d" "keys ?d = ks" "length (all_clusters ?d) = Suc (length (all_clusters d))"
    using Cons.prems(1,2) keys_append_day [OF mem] by (simp_all add: is_dict_append_day length_all_append_day)
  have nth: "ks ! j = ?k \<longleftrightarrow> j = i" if "j < length ks" for j
    using d that Cons.prems(4) by (simp add: nth_eq_iff_index_eq)
  have cap: "(length ks - i) * nat m = nat m + (length ks - Suc i) * nat m"
    using Cons.prems(4) by (metis Suc_diff_Suc mult_Suc)
  have step: "compact_loop m ks (c # cs) i d = compact_loop m ks cs (if int (Suc ?l) \<ge> m then Suc i else i) ?d"
  proof -
    have "length (case map_of ?d ?k of None \<Rightarrow> [] | Some xs \<Rightarrow> xs) = load ?d ?k"
      by (simp add: load_def split: option.split)
    also have "\<dots> = Suc ?l" by (simp add: load_append_day)
    finally show ?thesis using Cons.prems(4) by (simp add: Let_def)
  qed
  show ?case
  proof (cases "int (Suc ?l) \<ge> m")
    case False
    have "load ?d ?k = Suc ?l" by (simp add: load_append_day)
    moreover have "\<forall>j. i < j \<and> j < length ks \<longrightarrow> load ?d (ks ! j) = 0"
      using Cons.prems(6) nth by (auto simp: load_append_day)
    moreover have "Suc ?l < nat m" using False by simp
    ultimately have "length (all_clusters (compact_loop m ks cs i ?d)) =
        length (all_clusters ?d) + min (length cs) ((length ks - i) * nat m - Suc ?l)"
      using Cons.IH [OF d'(1,2) Cons.prems(3,4)] by simp
    moreover have "min (length (c # cs)) ((length ks - i) * nat m - ?l) = Suc (min (length cs) ((length ks - i) * nat m - Suc ?l))"
    proof -
      have "?l < (length ks - i) * nat m" using cap Cons.prems(5) by linarith
      from Suc_diff_Suc [OF this] show ?thesis by (metis length_Cons min_Suc_Suc)
    qed
    ultimately show ?thesis using step False d'(3) by simp
  next
    case True
    then have l: "Suc ?l = nat m" using Cons.prems(5) by simp
    show ?thesis
    proof (cases "Suc i < length ks")
      case False
      then have z: "length ks - Suc i = 0" by simp
      have "compact_loop m ks (c # cs) i d = ?d"
        using step True False compact_loop_full [of ks "Suc i"] by simp
      moreover have "(length ks - i) * nat m - ?l = 1" using cap l unfolding z by linarith
      ultimately show ?thesis using d'(3) by simp
    next
      case less: True
      have z: "load ?d (ks ! Suc i) = 0" "\<forall>j. Suc i < j \<and> j < length ks \<longrightarrow> load ?d (ks ! j) = 0"
        using Cons.prems(6) less nth by (auto simp: load_append_day)
      then have "length (all_clusters (compact_loop m ks cs (Suc i) ?d)) =
          length (all_clusters ?d) + min (length cs) ((length ks - Suc i) * nat m)"
        using Cons.IH [OF d'(1,2) Cons.prems(3) less] Cons.prems(3) by simp
      then have "length (all_clusters (compact_loop m ks (c # cs) i d)) =
          Suc (length (all_clusters d)) + min (length cs) ((length ks - Suc i) * nat m)"
        using step True d'(3) by (simp only: if_True)
      moreover have "(length ks - i) * nat m - ?l = Suc ((length ks - Suc i) * nat m)" using cap l by linarith
      ultimately show ?thesis by (simp only: length_Cons min_Suc_Suc)
    qed
  qed
qed simp

subsection \<open>Properties\<close>

lemma allocation_conserves:
  assumes "allocate_clusters_to_days cs a b = Inr d"
  shows "keys d = [a..b] \<and> placed d = places_of cs"
proof -
  let ?e = "empty_days a b"
  consider i where "rfold (\<lambda>c s. rfold (relaxed_place (keys ?e) (cl_home_base c)) (cl_places c) s) cs (0, ?e) = Inr (i, d)"
    | "rfold balanced_cluster cs ?e = Inr d" | "rfold to_min_day cs ?e = Inr d"
    using assms by (auto simp: allocate_clusters_to_days_def Let_def distribute_relaxed_mode_def
        distribute_balanced_mode_def distribute_intensive_mode_def rbind_eq_Inr_iff split: if_splits)
  then have "places_onto ?e (places_of cs) d"
  proof cases
    case 1
    from relaxed_clusters_onto [OF 1 empty_days_ok(1)] show ?thesis by simp
  next
    case 2
    show ?thesis by (rule rfold_onto [OF balanced_cluster_onto 2 empty_days_ok(1)])
  next
    case 3
    show ?thesis by (rule rfold_onto [OF to_min_day_onto 3 empty_days_ok(1)])
  qed
  then show ?thesis by (simp add: places_onto_def empty_days_ok(2) keys_empty_days)
qed

text \<open>
  C8: whatever mode it chooses, a successful \<open>allocate_clusters_to_days\<close> assigns every place of every
  cluster to exactly one day of the trip: the days are exactly those from the first to the last, and no
  place is lost or duplicated, also when clusters are split.
\<close>

theorem allocation_conserves_places:
  assumes "allocate_clusters_to_days cs a b = Inr d"
  shows "keys d = [a..b] \<and> placed d = places_of cs"
  by (rule allocation_conserves [OF assms])

theorem allocation_conserves_places_witness:
  "\<exists>d. allocate_clusters_to_days [mk_cluster (LInt 0) (VInt 1, VInt 1) [[(''name'', VStr ''A'')], [(''name'', VStr ''B'')]] None] 7 7 = Inr d \<and>
     placed d = {# [(''name'', VStr ''A'')], [(''name'', VStr ''B'')] #}"
proof -
  let ?cs = "[mk_cluster (LInt 0) (VInt 1, VInt 1) [[(''name'', VStr ''A'')], [(''name'', VStr ''B'')]] None]"
  obtain d where d: "allocate_clusters_to_days ?cs 7 7 = Inr d"
    by (simp add: allocate_clusters_to_days_def n_places_def distribute_intensive_mode_def to_min_day_def
        min_day_def empty_days_def)
  from allocation_conserves_places [OF d] d show ?thesis by simp
qed

text \<open>
  in a relaxed trip (at least one and a half days per place) no day gets more than one place.
\<close>

theorem relaxed_trip_one_place_a_day:
  assumes "allocate_clusters_to_days cs a b = Inr d"
    and "real_of_int (b - a + 1) \<ge> 15/10 * real (max (n_places cs) 1)"
  shows "list_all (\<lambda>(k, xs). length xs \<le> 1) d"
proof -
  let ?e = "empty_days a b"
  have "real_of_int (b - a + 1) / real (max (n_places cs) 1) \<ge> 15/10"
    using assms(2) by (simp add: field_simps)
  with assms(1) obtain i where
    r: "rfold (\<lambda>c s. rfold (relaxed_place (keys ?e) (cl_home_base c)) (cl_places c) s) cs (0, ?e) = Inr (i, d)"
    by (auto simp: allocate_clusters_to_days_def Let_def distribute_relaxed_mode_def rbind_eq_Inr_iff)
  have "real (n_places cs) \<le> real_of_int (b - a + 1)" using assms(2) by (simp add: max_def split: if_splits)
  then have "n_places cs \<le> length (keys ?e)" by (simp add: keys_empty_days)
  moreover have "one_each (keys ?e) 0 ?e" using empty_days_ok by (simp add: one_each_def)
  ultimately have o: "one_each (keys ?e) i d" using relaxed_clusters_one_each [OF r] by simp
  have "length xs \<le> 1" if "(k, xs) \<in> set d" for k xs
  proof -
    have "keys d = keys ?e" using o by (simp add: one_each_def)
    moreover have "k \<in> set (keys d)" using that by (metis fst_conv image_eqI list.set_map)
    ultimately have "k \<in> set (keys ?e)" by simp
    then obtain j where "j < length (keys ?e)" "keys ?e ! j = k" by (metis in_set_conv_nth)
    with o have "load d k = (if j < i then 1 else 0)" unfolding one_each_def by blast
    then have "load d k \<le> 1" by simp
    with load_mem [OF _ that] o show ?thesis by (simp add: one_each_def)
  qed
  then show ?thesis by (auto simp: list_all_iff)
qed

theorem relaxed_trip_one_place_a_day_witness:
  "\<exists>d. allocate_clusters_to_days [mk_cluster (LInt 0) (VInt 1, VInt 1) [[(''name'', VStr ''A''), (''lat'', VInt 1), (''lon'', VInt 1)]] None] 1 2 = Inr d \<and>
     list_all (\<lambda>(k, xs). length xs \<le> 1) d"
proof -
  let ?cs = "[mk_cluster (LInt 0) (VInt 1, VInt 1) [[(''name'', VStr ''A''), (''lat'', VInt 1), (''lon'', VInt 1)]] None]"
  have days: "[1..2] = [1, 2::int]" by (simp add: upto.simps)
  obtain d where d: "allocate_clusters_to_days ?cs 1 2 = Inr d"
    by (simp add: allocate_clusters_to_days_def n_places_def distribute_relaxed_mode_def relaxed_place_def
        short_name_def ploc_def dindex_def empty_days_def days mk_cluster_def Let_def)
  from relaxed_trip_one_place_a_day [OF d] d show ?thesis by (simp add: n_places_def)
qed

text \<open>
  the intensive mode keeps the days even: no day has two clusters more than another.
\<close>

theorem intensive_mode_even:
  assumes "distribute_intensive_mode cs (empty_days a b) = Inr d"
  shows "even_loads d"
proof -
  have "even_loads (empty_days a b)" using empty_days_ok by (simp add: even_loads_def)
  with rfold_to_min_day_even [OF _ empty_days_ok(1)] assms show ?thesis
    by (simp add: distribute_intensive_mode_def)
qed

theorem intensive_mode_even_witness:
  "\<exists>d. distribute_intensive_mode [mk_cluster (LInt 0) (VInt 1, VInt 1) [] None, mk_cluster (LInt 1) (VInt 1, VInt 1) [] None] (empty_days 4 4) = Inr d \<and> even_loads d"
proof -
  obtain d where d: "distribute_intensive_mode [mk_cluster (LInt 0) (VInt 1, VInt 1) [] None, mk_cluster (LInt 1) (VInt 1, VInt 1) [] None] (empty_days 4 4) = Inr d"
    by (simp add: distribute_intensive_mode_def to_min_day_def min_day_def empty_days_def append_day_def add_to_def)
  from intensive_mode_even [OF d] d show ?thesis by blast
qed

text \<open>
  the compact packing keeps at most \<open>MAX_ACTIVITIES_PER_DAY\<close> clusters per day of the trip and silently
  drops the rest: the number of clusters afterwards is the lesser of what there was and the capacity.
\<close>

theorem pack_compact_drops_overflow:
  assumes "is_dict d" "d \<noteq> []" "0 < MAX_ACTIVITIES_PER_DAY st"
  shows "length (all_clusters (pack_compact st d)) =
    min (length (all_clusters d)) (length d * nat (MAX_ACTIVITIES_PER_DAY st))"
  using compact_loop_counts [of "cleared d" "keys d" "MAX_ACTIVITIES_PER_DAY st" 0 "all_clusters d"] assms
  by (simp add: pack_compact_def)

theorem pack_compact_drops_overflow_witness:
  "length (all_clusters (pack_compact (default_settings\<lparr>MAX_ACTIVITIES_PER_DAY := 1\<rparr>)
     [(1, [mk_cluster (LInt 0) (VInt 1, VInt 1) [] None, mk_cluster (LInt 1) (VInt 1, VInt 1) [] None])])) = 1"
  by (subst pack_compact_drops_overflow) (simp_all add: is_dict_def all_clusters_def)

text \<open>
  the balanced packing loses no cluster and leaves no day with two clusters more than another.
\<close>

theorem pack_balanced_even:
  assumes "pack_balanced d = Inr d'" "is_dict d"
  shows "keys d' = keys d \<and> mset (all_clusters d') = mset (all_clusters d) \<and> even_loads d'"
  using pack_balanced_counts [OF assms] by simp

theorem pack_balanced_even_witness:
  "\<exists>d'. pack_balanced [(1, [mk_cluster (LInt 0) (VInt 1, VInt 1) [] None, mk_cluster (LInt 1) (VInt 1, VInt 1) [] None]), (2, [])] = Inr d' \<and> even_loads d'"
proof -
  let ?d = "[(1, [mk_cluster (LInt 0) (VInt 1, VInt 1) [] None, mk_cluster (LInt 1) (VInt 1, VInt 1) [] None]), (2::int, [])]"
  obtain d' where d': "pack_balanced ?d = Inr d'"
    by (simp add: pack_balanced_def all_clusters_def cleared_def)
  from pack_balanced_even [OF d'] d' show ?thesis by (simp add: is_dict_def)
qed

end
