(* ===== verification/Pipeline.thy ===== *)
theory Pipeline
  imports Suggestions Coordinates DayDistribution
begin

section \<open>The whole trip\<close>

text \<open>
  \<open>_optimize_classic_method\<close>, the composition of every component of the hybrid optimiser, and the
  functions that choose between it, City2Graph and OR-Tools: \<open>optimize_itinerary_hybrid_v31\<close>,
  \<open>_optimize_with_city2graph\<close>, \<open>_execute_city2graph_core_logic\<close>,
  \<open>_optimize_with_ortools\<close> and \<open>optimize_itinerary_hybrid\<close>
  (src/utils/hybrid\_optimizer\_v31.py).  Dates are ordinals and \<open>te_isodate\<close> prints them; the hours of a
  day are whole numbers; the answers of the network, of the semantic analysis and of DBSCAN are
  parameters.  An object of the timeline is the dictionary of its fields.
\<close>

record 's trip_env =
  te_planner :: planner
  te_dbscan :: "real \<Rightarrow> int \<Rightarrow> coord list \<Rightarrow> int list"
  te_bases :: base_services
  te_travel :: "'s travel"
  te_found :: "int \<Rightarrow> string list \<Rightarrow> pydict list res" \<comment> \<open>day number, types\<close>
  te_search_real :: "string list \<Rightarrow> int \<Rightarrow> pydict list res"
  te_search :: "string list \<Rightarrow> pydict list res"
  te_isodate :: "int \<Rightarrow> string"
  te_semantic :: "(pydict list \<Rightarrow> pydict res) option"
  te_stats :: "'s \<Rightarrow> pydict"

record trip_request =
  tr_places :: "pydict list"
  tr_start_date :: int
  tr_end_date :: int
  tr_start_hour :: int
  tr_end_hour :: int
  tr_mode :: string
  tr_accommodations :: "pydict list option"
  tr_strategy :: string
  tr_extra_info :: "pydict option"
  tr_custom :: "int \<Rightarrow> (int \<times> int) option" \<comment> \<open>the custom schedules of the extra information\<close>

subsection \<open>Clusters and their days\<close>

text \<open>Clustering, bases, allocation and packing of the validated places.\<close>

definition plan_clusters :: "'s trip_env \<Rightarrow> trip_request \<Rightarrow> pydict list \<Rightarrow> cluster list res" where
  "plan_clusters env rq places =
     rbind (cluster_pois (pl_settings (te_planner env)) (te_dbscan env) places) (\<lambda>cs.
     if cs = [] then Inr []
     else assign_home_base_to_clusters (te_bases env) cs (tr_accommodations rq) (Some places))"

definition plan_days :: "'s trip_env \<Rightarrow> trip_request \<Rightarrow> cluster list \<Rightarrow> days res" where
  "plan_days env rq cs =
     rbind (allocate_clusters_to_days cs (tr_start_date rq) (tr_end_date rq)) (\<lambda>d.
     pack_activities_by_strategy (pl_settings (te_planner env)) d (tr_strategy rq))"

subsection \<open>The days as dictionaries\<close>

fun scheduled_fields :: "scheduled \<Rightarrow> pydict" where
  "scheduled_fields (CheckIn h) =
     [(''type'', VStr ''accommodation''), (''name'', VStr (ha_name h)), (''lat'', VFloat (fst (ha_loc h))),
      (''lon'', VFloat (snd (ha_loc h))), (''place_type'', VStr ''hotel''), (''duration_minutes'', VInt 30),
      (''start_time'', VInt (ha_start_time h)), (''end_time'', VInt (ha_end_time h)), (''rating'', ha_rating h),
      (''address'', ha_address h)]"
| "scheduled_fields (Journey j) =
     [(''type'', VStr ''intercity_activity''), (''name'', VStr (ia_name j)), (''lat'', VFloat 0), (''lon'', VFloat 0),
      (''place_type'', VStr (ia_place_type j)), (''duration_minutes'', VInt (ia_duration_minutes j)),
      (''start_time'', VInt (ia_start_time j)), (''end_time'', VInt (ia_end_time j)),
      (''description'', VStr (ia_description j)), (''rating'', VInt 0), (''address'', VStr (ia_address j)),
      (''transport_mode'', VStr (ia_transport_mode j)), (''is_intercity_activity'', VBool True)]"
| "scheduled_fields (Visited a) =
     [(''type'', VStr ''activity''), (''name'', ac_name a), (''lat'', VFloat (fst (ac_loc a))),
      (''lon'', VFloat (snd (ac_loc a))), (''place_type'', ac_place_type a),
      (''duration_minutes'', VInt (ac_duration_minutes a)), (''start_time'', VInt (ac_start_time a)),
      (''end_time'', VInt (ac_end_time a)), (''priority'', ac_priority a), (''rating'', ac_rating a),
      (''image'', ac_image a), (''address'', ac_address a), (''quality_flag'', ac_quality_flag a)]"

fun item_fields :: "day_item \<Rightarrow> pydict" where
  "item_fields (Moved d) = d"
| "item_fields (Done a) = scheduled_fields a"

definition dicts :: "pydict list \<Rightarrow> pyval" where
  "dicts ds = VList (map VDict ds)"

definition schedule_info :: "int \<Rightarrow> int \<Rightarrow> bool \<Rightarrow> pyval" where
  "schedule_info h1 h2 custom = VDict
     [(''start_hour'', VInt h1), (''end_hour'', VInt h2), (''available_hours'', VInt (h2 - h1)),
      (''custom_schedule'', VBool custom)]"

definition location_value :: "coord option \<Rightarrow> pyval" where
  "location_value l = (case l of None \<Rightarrow> VNone | Some p \<Rightarrow> VList [VFloat (fst p), VFloat (snd p)])"

definition base_value :: "pydict option \<Rightarrow> pyval" where
  "base_value b = (case b of None \<Rightarrow> VNone | Some d \<Rightarrow> VDict d)"

definition day_dict :: "string \<Rightarrow> 's day_result \<Rightarrow> pydict" where
  "day_dict date r =
     (let dy = dr_day r; items = dicts (map item_fields (dy_timeline dy)) in
      [(''date'', VStr date), (''activities'', items), (''timeline'', items),
       (''pure_activities'', dicts (map scheduled_fields (dy_scheduled dy))),
       (''transfers'', dicts (dy_transfers dy)), (''free_blocks'', dicts (dr_free_blocks r)),
       (''actionable_recommendations'', dicts (dr_recommendations r)), (''base'', base_value (dr_base r)),
       (''travel_summary'', VDict
          [(''total_travel_time_s'', VInt (dr_total_travel_minutes r * 60)), (''total_distance_km'', VFloat (dy_distance dy)),
           (''walking_time_minutes'', VInt (dy_walking_time dy)), (''transport_time_minutes'', VInt (dy_transport_time dy)),
           (''intercity_transfers_count'', VInt (dy_intercity_count dy)),
           (''intercity_total_minutes'', VInt (dy_intercity_minutes dy))]),
       (''free_minutes'', VInt (dr_free_minutes r)), (''end_location'', location_value (dy_loc dy))])"

definition empty_day_dict :: "string \<Rightarrow> free_block list \<Rightarrow> pydict option \<Rightarrow> time_window \<Rightarrow> pydict" where
  "empty_day_dict date blocks base daily =
     [(''date'', VStr date), (''activities'', VList []), (''timeline'', VList []), (''transfers'', VList []),
      (''free_blocks'', dicts (map block_dict blocks)), (''base'', base_value base),
      (''travel_summary'', VDict
         [(''total_travel_time_s'', VInt 0), (''total_distance_km'', VInt 0), (''walking_time_minutes'', VInt 0),
          (''transport_time_minutes'', VInt 0), (''intercity_transfers_count'', VInt 0),
          (''intercity_total_minutes'', VInt 0)]),
      (''free_minutes'', VInt (tw_end daily - tw_start daily))]"

subsection \<open>Day after day\<close>

record 's trip_state =
  ts_days :: "pydict list"
  ts_end_location :: "coord option"
  ts_base :: "pydict option"
  ts_svc :: 's

fun first_day_hotel :: "cluster list list \<Rightarrow> coord option res" where
  "first_day_hotel [] = Inr None"
| "first_day_hotel ((c # cs) # rest) =
     (if has_base c then rbind (base_coord c) (\<lambda>p. Inr (Some p)) else first_day_hotel rest)"
| "first_day_hotel ([] # rest) = first_day_hotel rest"

text \<open>
  The free blocks of a day without clusters: without an end of the day before, the dictionary of the
  last base stands for the location, and subscripting it by 0 is a \<open>KeyError\<close>.
\<close>

definition empty_day_blocks :: "'s trip_env \<Rightarrow> int \<Rightarrow> time_window \<Rightarrow> 's trip_state \<Rightarrow> free_block list" where
  "empty_day_blocks env n daily s =
     (case (ts_end_location s, ts_base s) of
        (Some p, _) \<Rightarrow> generate_free_blocks_enhanced (te_found env n) (tw_start daily) (tw_end daily) (Some p) n
      | (None, Some b) \<Rightarrow> generate_free_blocks_enhanced (\<lambda>_. Inl KeyError) (tw_start daily) (tw_end daily) (Some (0, 0)) n
      | (None, None) \<Rightarrow> generate_free_blocks_enhanced (te_found env n) (tw_start daily) (tw_end daily) None n)"

definition trip_day ::
  "'s trip_env \<Rightarrow> trip_request \<Rightarrow> coord option \<Rightarrow> int \<times> int \<times> cluster list \<Rightarrow> 's trip_state \<Rightarrow> 's trip_state res" where
  "trip_day env rq first_hotel day s =
     (case day of (n, date, clusters) \<Rightarrow>
      let (h1, h2) = (case tr_custom rq date of Some h \<Rightarrow> h | None \<Rightarrow> (tr_start_hour rq, tr_end_hour rq));
          daily = window (h1 * 60) (h2 * 60);
          info = schedule_info h1 h2 (tr_custom rq date \<noteq> None)
      in if clusters = [] then
           Inr (s\<lparr>ts_days := ts_days s @
             [empty_day_dict (te_isodate env date) (empty_day_blocks env n daily s) (ts_base s) daily @ [(''schedule_info'', info)]]\<rparr>)
         else
           rbind (route_day_enhanced (te_planner env) (te_travel env) (te_found env n) clusters daily (tr_mode rq)
                    (case ts_end_location s of None \<Rightarrow> first_hotel | Some p \<Rightarrow> Some p) n (tr_extra_info rq) (ts_svc s)) (\<lambda>r.
           Inr \<lparr>ts_days = ts_days s @ [day_dict (te_isodate env date) r @ [(''schedule_info'', info)]],
              ts_end_location = dy_loc (dr_day r),
              ts_base = (case dr_base r of None \<Rightarrow> ts_base s | Some b \<Rightarrow> if b = [] then ts_base s else Some b),
              ts_svc = dy_svc (dr_day r)\<rparr>))"

definition clusters_on :: "days \<Rightarrow> int \<Rightarrow> cluster list" where
  "clusters_on d date = (case map_of d date of None \<Rightarrow> [] | Some cs \<Rightarrow> cs)"

definition numbered_days :: "days \<Rightarrow> (int \<times> int \<times> cluster list) list" where
  "numbered_days d =
     (let dates = sort (keys d)
      in map (\<lambda>(i, date). (int i + 1, date, clusters_on d date)) (enumerate 0 dates))"

definition route_trip :: "'s trip_env \<Rightarrow> trip_request \<Rightarrow> days \<Rightarrow> 's \<Rightarrow> 's trip_state res" where
  "route_trip env rq d svc =
     rbind (first_day_hotel (map (clusters_on d) (sort (keys d)))) (\<lambda>hotel.
     rfold (trip_day env rq hotel) (numbered_days d)
       \<lparr>ts_days = [], ts_end_location = None, ts_base = None, ts_svc = svc\<rparr>)"

subsection \<open>The answer\<close>

definition metrics_dict :: "metrics \<Rightarrow> pydict" where
  "metrics_dict m =
     [(''efficiency_score'', VFloat (me_efficiency_score m)), (''optimization_mode'', VStr ''geographic_v31''),
      (''fallback_active'', VBool False), (''total_distance_km'', VFloat (me_total_distance_km m)),
      (''total_travel_time_minutes'', VFloat (me_total_travel_time_minutes m)),
      (''walking_time_minutes'', VFloat (me_walking_time_minutes m)),
      (''transport_time_minutes'', VFloat (me_transport_time_minutes m)),
      (''long_transfers_detected'', VFloat (me_long_transfers_detected m)),
      (''intercity_transfers'', dicts (me_intercity_transfers m)),
      (''total_intercity_time_hours'', VFloat (me_total_intercity_time_hours m)),
      (''total_intercity_distance_km'', VFloat (me_total_intercity_distance_km m))]"

text \<open>The semantic clustering and whether its strategy is the semantic one; exceptions drop it.\<close>

definition semantic_result :: "'s trip_env \<Rightarrow> pydict list \<Rightarrow> (pydict \<times> bool) option" where
  "semantic_result env places =
     (case te_semantic env of
        None \<Rightarrow> None
      | Some f \<Rightarrow>
          (case rbind (f places) (\<lambda>sc. rbind (dindex sc ''strategy'') (\<lambda>st.
                  if st = VStr ''semantic''
                  then rbind (vlen (dget sc ''recommendations'' (VList []))) (\<lambda>_. Inr (sc, True))
                  else Inr (sc, False))) of
             Inl e \<Rightarrow> None | Inr r \<Rightarrow> Some r))"

definition semantic_analysis :: "(pydict \<times> bool) option \<Rightarrow> pydict res" where
  "semantic_analysis sem =
     (case sem of
        Some (sc, True) \<Rightarrow>
          rbind (vlen (dget sc ''recommendations'' (VList []))) (\<lambda>n.
          Inr [(''strategy_used'', dget sc ''strategy'' VNone), (''districts_identified'', VInt (int n)),
               (''semantic_available'', VBool True), (''insights'', dget sc ''optimization_insights'' (VList [])),
               (''clustering_confidence'', VStr ''high'')])
      | _ \<Rightarrow>
          Inr [(''strategy_used'', VStr ''geographic_only''), (''districts_identified'', VInt 0),
               (''semantic_available'', VBool False),
               (''insights'', VList [VStr (''An'' @ [char_of (195::nat), char_of (161::nat)] @ ''lisis sem'' @ [char_of (195::nat), char_of (161::nat)] @
                  ''ntico no disponible - usando clustering geogr'' @ [char_of (195::nat), char_of (161::nat)] @ ''fico b'' @
                  [char_of (195::nat), char_of (161::nat)] @ ''sico'')]),
               (''clustering_confidence'', VStr ''basic'')])"

definition label_value :: "label \<Rightarrow> pyval" where
  "label_value l = (case l of LInt i \<Rightarrow> VInt i | LStr s \<Rightarrow> VStr s)"

definition intercity_suggestion :: "(pyval \<Rightarrow> string) \<Rightarrow> cluster \<Rightarrow> pydict" where
  "intercity_suggestion show c =
     [(''cluster_id'', label_value (cl_label c)),
      (''hotel_name'', if has_base c then dget (the (cl_home_base c)) ''name'' (VStr ''N/A'') else VStr ''N/A''),
      (''local_attractions'', dicts (cl_additional c)),
      (''message'', VStr (''Ya que visitar'' @ [char_of (195::nat), char_of (161::nat)] @ ''s '' @
         (if has_base c then show (dget (the (cl_home_base c)) ''name'' (VStr (''esta '' @ [char_of (195::nat), char_of (161::nat)] @ ''rea'')))
          else ''esta '' @ [char_of (195::nat), char_of (161::nat)] @ ''rea'') @
         '', te sugerimos estas actividades adicionales en la zona:''))]"

definition count_if :: "('a \<Rightarrow> bool) \<Rightarrow> 'a list \<Rightarrow> pyval" where
  "count_if P xs = VInt (int (length (filter P xs)))"

definition clusters_info :: "cluster list \<Rightarrow> string \<Rightarrow> pydict" where
  "clusters_info cs strategy =
     [(''total_clusters'', VInt (int (length cs))),
      (''hotels_assigned'', count_if (\<lambda>c. cl_home_base_source c \<noteq> ''none'') cs),
      (''recommended_hotels'', count_if (\<lambda>c. cl_home_base_source c \<in> {''recommended'', ''auto_recommended_by_system''}) cs),
      (''packing_strategy_used'', VStr strategy)]"

definition free_trip :: "'s trip_env \<Rightarrow> trip_request \<Rightarrow> pydict" where
  "free_trip env rq =
     generate_free_days_with_suggestions (te_search_real env) (te_search env) (te_isodate env)
       (tr_start_date rq) (tr_end_date rq) (tr_start_hour rq) (tr_end_hour rq)"

text \<open>What recording the execution does afterwards is caught and does not show in the answer.\<close>

definition optimize_classic_method :: "'s trip_env \<Rightarrow> trip_request \<Rightarrow> 's \<Rightarrow> pydict res" where
  "optimize_classic_method env rq svc =
     (let places = fst (validate_coordinates (tr_places rq)); st = pl_settings (te_planner env) in
      if places = [] then Inr (free_trip env rq)
      else
        let sem = semantic_result env places in
        rbind (plan_clusters env rq places) (\<lambda>cs.
        if cs = [] then Inr (free_trip env rq)
        else
          rbind (plan_days env rq cs) (\<lambda>d.
          rbind (route_trip env rq d svc) (\<lambda>s.
          rbind (inject_intercity_transfers_between_days st (tr_robust (te_travel env)) (ts_days s) (ts_svc s)) (\<lambda>(days, svc').
          rbind (calculate_enhanced_metrics days) (\<lambda>m.
          rbind (semantic_analysis sem) (\<lambda>sa.
          Inr [(''days'', dicts days),
               (''optimization_metrics'', VDict (metrics_dict m @
                  [(''semantic_analysis'', VDict sa), (''cache_performance'', VDict (te_stats env svc'))])),
               (''clusters_info'', VDict (clusters_info cs (tr_strategy rq))),
               (''additional_recommendations'', VDict
                  [(''intercity_suggestions'', dicts (map (intercity_suggestion (pl_show (te_planner env)))
                      (filter (\<lambda>c. cl_additional c \<noteq> []) cs)))])])))))))"

subsection \<open>City2Graph\<close>

text \<open>Writing the analysis into the metrics of a result.\<close>

definition mark_analysis :: "pydict \<Rightarrow> pydict \<Rightarrow> pydict res" where
  "mark_analysis result analysis =
     (if has_key result ''optimization_metrics'' then
        (case dget result ''optimization_metrics'' VNone of
           VDict m \<Rightarrow> Inr (dset ''optimization_metrics'' (VDict (dset ''city2graph_analysis'' (VDict analysis) m)) result)
         | _ \<Rightarrow> Inl TypeError)
      else Inr result)"

fun core_coords :: "pydict list \<Rightarrow> nat res" where
  "core_coords [] = Inr 0"
| "core_coords (p # ps) =
     (if has_key p ''lat'' \<and> has_key p ''lon'' then rbind (core_coords ps) (\<lambda>n. Inr (Suc n))
      else if has_key p ''coordinates'' then
        rbind (vindex (dget p ''coordinates'' VNone) ''latitude'') (\<lambda>_.
        rbind (vindex (dget p ''coordinates'' VNone) ''longitude'') (\<lambda>_.
        rbind (core_coords ps) (\<lambda>n. Inr (Suc n))))
      else core_coords ps)"

text \<open>
  \<open>service\<close> is the outcome of importing \<open>OptimizedCity2GraphService\<close> and creating one, which nothing else uses,
  and \<open>semantic\<close> the real semantic analysis, \<open>None\<close> when it is unavailable or raised.
\<close>

definition execute_city2graph_core_logic :: "unit res \<Rightarrow> pydict option \<Rightarrow> pydict \<Rightarrow> pydict list \<Rightarrow> pydict res \<Rightarrow> pydict res" where
  "execute_city2graph_core_logic service semantic decision places classic =
     rbind service (\<lambda>_.
     rbind (core_coords places) (\<lambda>n.
     if n = 0 then Inl (OtherError ''No hay coordenadas'')
     else
       rbind classic (\<lambda>result.
       if \<not> has_key result ''optimization_metrics'' then Inr result
       else
       rbind (case dget decision ''factors'' (VDict []) of VDict f \<Rightarrow> Inr (keys f) | _ \<Rightarrow> Inl AttributeError) (\<lambda>factors.
       rbind (mark_analysis result
         [(''method_used'', VStr ''city2graph_enhanced''), (''complexity_score'', dget decision ''complexity_score'' (VInt 0)),
          (''semantic_available'', VBool (semantic \<noteq> None)), (''enhancement_applied'', VBool True),
          (''factors_considered'', VList (map VStr factors))]) (\<lambda>result1.
       (case (semantic, dget result1 ''optimization_metrics'' VNone) of
          (Some (sr # srs), VDict m) \<Rightarrow>
            rbind (vlen (dget (sr # srs) ''recommendations'' (VList []))) (\<lambda>k.
            Inr (dset ''optimization_metrics'' (VDict (dset ''semantic_enhancement'' (VDict
                   [(''districts_analyzed'', VInt (int k)),
                    (''semantic_strategy'', dget (sr # srs) ''strategy'' (VStr ''unknown'')),
                    (''confidence'', VStr ''high'')]) m)) result1))
        | _ \<Rightarrow> Inr result1))))))"

text \<open>The status of the breaker written into the analysis of a successful run.\<close>

definition add_status :: "pydict \<Rightarrow> pydict \<Rightarrow> pydict res" where
  "add_status result status =
     (if has_key result ''optimization_metrics'' then
        rbind (vindex (dget result ''optimization_metrics'' VNone) ''city2graph_analysis'') (\<lambda>a.
        (case (a, dget result ''optimization_metrics'' VNone) of
           (VDict d, VDict m) \<Rightarrow>
             Inr (dset ''optimization_metrics'' (VDict (dset ''city2graph_analysis''
                    (VDict (dset ''circuit_breaker_status'' (VDict status) d)) m)) result)
         | _ \<Rightarrow> Inl TypeError))
      else Inr result)"

text \<open>
  \<open>classic k\<close> is what the \<open>k\<close>-th run of the classic method answers, \<open>elapsed\<close> how long the
  protected run takes and \<open>took\<close> the processing time shown; \<open>str_error\<close> is \<open>str\<close> of an exception.
  An OPEN breaker is answered by the classic method without a call, and any exception of either way
  by another run of the classic method.
\<close>

definition optimize_with_city2graph ::
  "(py_error \<Rightarrow> string) \<Rightarrow> real \<Rightarrow> real \<Rightarrow> real \<Rightarrow> unit res \<Rightarrow> pydict option \<Rightarrow> (nat \<Rightarrow> pydict res) \<Rightarrow> pydict \<Rightarrow> pydict list \<Rightarrow>
   c2g_breaker \<Rightarrow> pydict res \<times> c2g_breaker" where
  "optimize_with_city2graph str_error now elapsed took service semantic classic decision places b =
     (let (attempt, b') =
            (case vlen (dget decision ''factors'' (VDict [])) of
               Inl e \<Rightarrow> (Inl e, b)
             | Inr _ \<Rightarrow>
                 if c2g_state b = OPEN then
                   (rbind (classic 0) (\<lambda>result. mark_analysis result
                      [(''method_used'', VStr ''classic_fallback_circuit_breaker''),
                       (''circuit_breaker_status'', VDict (c2g_get_status b)),
                       (''complexity_score'', dget decision ''complexity_score'' (VInt 0)),
                       (''enhancement_applied'', VBool False), (''processing_time_s'', VFloat took)]), b)
                 else
                   (let (r, b1) = execute_with_circuit_breaker now
                          (elapsed, execute_city2graph_core_logic service semantic decision places (classic 0)) b
                    in (rbind r (\<lambda>result. add_status result (c2g_get_status b1)), b1)))
      in case attempt of
           Inr result \<Rightarrow> (Inr result, b')
         | Inl e \<Rightarrow>
             (rbind (classic 1) (\<lambda>result. mark_analysis result
                [(''method_used'', VStr ''classic_fallback''),
                 (''complexity_score'', dget decision ''complexity_score'' (VInt 0)),
                 (''enhancement_applied'', VBool False), (''fallback_triggered'', VBool True),
                 (''fallback_reason'', VStr (str_error e)), (''circuit_breaker_status'', VDict (c2g_get_status b')),
                 (''processing_time_s'', VFloat took)]), b'))"

text \<open>The breaker after one request after another.\<close>

definition serve_city2graph ::
  "(py_error \<Rightarrow> string) \<Rightarrow> (real \<times> real \<times> real \<times> unit res \<times> pydict option \<times> (nat \<Rightarrow> pydict res) \<times> pydict \<times> pydict list) list \<Rightarrow>
   c2g_breaker \<Rightarrow> c2g_breaker" where
  "serve_city2graph str_error requests b =
     fold (\<lambda>(now, elapsed, took, service, semantic, classic, decision, places) b.
       snd (optimize_with_city2graph str_error now elapsed took service semantic classic decision places b)) requests b"

subsection \<open>OR-Tools\<close>

text \<open>
  The names \<open>_optimize_with_ortools\<close> can read (its parameters, imports and locals) and reading one:
  a name that is neither among them nor a global of the module is a \<open>NameError\<close>.
\<close>

definition ortools_names :: "string list" where
  "ortools_names =
     [''request_data'', ''ortools_decision'', ''City2GraphORToolsService'', ''convert_legacy_to_ortools_format'',
      ''convert_ortools_to_legacy_format'', ''start_time'', ''ortools_service'', ''conversion_result'', ''ortools_request'',
      ''ortools_result'', ''execution_time'', ''legacy_conversion'', ''legacy_result'', ''places_optimized'',
      ''total_distance'', ''days_count'', ''city'', ''user_id'']"

definition read_date :: "(string \<Rightarrow> int option) \<Rightarrow> string \<Rightarrow> int res" where
  "read_date scope x =
     (if x \<in> set ortools_names then (case scope x of Some d \<Rightarrow> Inr d | None \<Rightarrow> Inl TypeError)
      else Inl (OtherError ''NameError''))"

definition ortools_days_count :: "(string \<Rightarrow> int option) \<Rightarrow> int res" where
  "ortools_days_count scope =
     rbind (read_date scope ''end_date'') (\<lambda>b. rbind (read_date scope ''start_date'') (\<lambda>a. Inr (b - a + 1)))"

text \<open>The metadata added to the converted result.\<close>

definition ortools_metadata :: "pydict \<Rightarrow> pydict \<Rightarrow> pydict res" where
  "ortools_metadata legacy_result extra =
     (let r = (if has_key legacy_result ''optimization_metrics'' then legacy_result
               else dset ''optimization_metrics'' (VDict []) legacy_result)
      in case dget r ''optimization_metrics'' VNone of
           VDict m \<Rightarrow> Inr (dset ''optimization_metrics'' (VDict (fold (\<lambda>(k, v). dset k v) extra m)) r)
         | _ \<Rightarrow> Inl AttributeError)"

text \<open>
  \<open>to_ortools\<close>, \<open>run\<close> and \<open>to_legacy\<close> are the answers of the conversion, the service and the conversion
  back.  Counting the days afterwards reads names the function does not have, in the handler too.
\<close>

definition optimize_with_ortools_path ::
  "(string \<Rightarrow> int option) \<Rightarrow> pydict res \<Rightarrow> (pydict \<Rightarrow> pydict res) \<Rightarrow> (pydict \<Rightarrow> pydict res) \<Rightarrow> pydict \<Rightarrow> pydict res" where
  "optimize_with_ortools_path scope to_ortools run to_legacy extra =
     (case rbind to_ortools (\<lambda>req. rbind (run req) (\<lambda>res. rbind (to_legacy res) (\<lambda>legacy.
             rbind (ortools_metadata legacy extra) (\<lambda>r. rbind (ortools_days_count scope) (\<lambda>_. Inr r))))) of
        Inr r \<Rightarrow> Inr r
      | Inl e \<Rightarrow> rbind (ortools_days_count scope) (\<lambda>_. Inl (OtherError ''OR-Tools optimization failed'')))"

subsection \<open>The choice\<close>

text \<open>
  \<open>ot_decision\<close> is whether the decision engine chose OR-Tools, or its exception, \<open>ot_path\<close> the OR-Tools
  run; \<open>decision\<close> is the City2Graph decision and \<open>c2g_path\<close> that run with its breaker.
\<close>

definition optimize_itinerary_hybrid_v31 ::
  "bool \<Rightarrow> bool \<Rightarrow> bool res \<Rightarrow> pydict res \<Rightarrow> pydict res \<Rightarrow> (pydict \<Rightarrow> c2g_breaker \<Rightarrow> pydict res \<times> c2g_breaker) \<Rightarrow>
   pydict res \<Rightarrow> c2g_breaker \<Rightarrow> pydict res \<times> c2g_breaker" where
  "optimize_itinerary_hybrid_v31 enable_ortools enable_city2graph ot_decision ot_path decision c2g_path classic b =
     (case (if ot_decision = Inr True \<and> enable_ortools then ot_path else Inl (OtherError ''not chosen'')) of
        Inr r \<Rightarrow> (Inr r, b)
      | Inl _ \<Rightarrow>
          (case rbind decision (\<lambda>d. rbind (dindex d ''use_city2graph'') (\<lambda>u. rbind (dindex d ''complexity_score'') (\<lambda>_. Inr (d, truthy u)))) of
             Inr (d, True) \<Rightarrow>
               if enable_city2graph then
                 (case c2g_path d b of
                    (Inr r, b') \<Rightarrow> (Inr r, b')
                  | (Inl _, b') \<Rightarrow> (classic, b'))
               else (classic, b)
           | _ \<Rightarrow> (classic, b)))"

text \<open>The wrapper for compatibility: the packing strategy of the settings.\<close>

definition optimize_itinerary_hybrid :: "settings \<Rightarrow> (trip_request \<Rightarrow> 'r) \<Rightarrow> trip_request \<Rightarrow> 'r" where
  "optimize_itinerary_hybrid st v31 rq = v31 (rq\<lparr>tr_strategy := DEFAULT_PACKING_STRATEGY st\<rparr>)"

subsection \<open>Lemmas\<close>

lemma same_clusters_places: "same_clusters cs cs' \<Longrightarrow> map cl_places cs' = map cl_places cs"
  unfolding same_clusters_def by (induction rule: list_all2_induct) (simp_all add: same_cluster_def)

lemma plan_clusters_places:
  assumes "plan_clusters env rq places = Inr cs" "\<And>eps m xs. length (te_dbscan env eps m xs) = length xs"
  shows "mset (concat (map cl_places cs)) = mset (filter (\<lambda>p. not_accommodation p = Inr True) places)"
proof -
  from assms(1) obtain cs0 where c: "cluster_pois (pl_settings (te_planner env)) (te_dbscan env) places = Inr cs0"
    and a: "(if cs0 = [] then Inr [] else assign_home_base_to_clusters (te_bases env) cs0 (tr_accommodations rq) (Some places)) = Inr cs"
    by (auto simp: plan_clusters_def rbind_eq_Inr_iff)
  have "map cl_places cs = map cl_places cs0"
    using a assign_bases_ok [of "te_bases env" cs0 "tr_accommodations rq" "Some places" cs] same_clusters_places
    by (auto split: if_splits)
  then show ?thesis using cluster_pois_parts [OF c assms(2)] by simp
qed

lemma plan_days_places:
  assumes "plan_days env rq cs = Inr d" "tr_strategy rq \<noteq> ''compact''"
  shows "keys d = [tr_start_date rq..tr_end_date rq] \<and> placed d = places_of cs"
proof -
  from assms(1) obtain d0 where d0: "allocate_clusters_to_days cs (tr_start_date rq) (tr_end_date rq) = Inr d0"
    and p: "pack_activities_by_strategy (pl_settings (te_planner env)) d0 (tr_strategy rq) = Inr d"
    by (auto simp: plan_days_def rbind_eq_Inr_iff)
  note a = allocation_conserves [OF d0]
  then have i: "is_dict d0" by (simp add: is_dict_def)
  have sum: "mset (concat (map cl_places xs)) = sum_mset (image_mset (\<lambda>c. mset (cl_places c)) (mset xs))" for xs
    by (induction xs) simp_all
  have m: "mset (concat (map cl_places xs)) = mset (concat (map cl_places ys))" if "mset xs = mset ys" for xs ys
    by (simp only: sum that)
  show ?thesis
  proof (cases "tr_strategy rq = ''cluster_first''")
    case True
    with p a show ?thesis by (simp add: pack_activities_by_strategy_def)
  next
    case False
    with p assms(2) have "pack_balanced d0 = Inr d" by (simp add: pack_activities_by_strategy_def)
    from pack_balanced_counts [OF this i] a m show ?thesis by metis
  qed
qed

lemma trip_day_appends:
  fixes env :: "'s trip_env"
  assumes "trip_day env rq h (n, date, cs) s = Inr s'"
  shows "\<exists>x. ts_days s' = ts_days s @ [x] \<and> map_of x ''date'' = Some (VStr (te_isodate env date))"
proof -
  obtain h1 h2 where hs: "(case tr_custom rq date of Some h \<Rightarrow> h | None \<Rightarrow> (tr_start_hour rq, tr_end_hour rq)) = (h1, h2)"
    by fastforce
  show ?thesis
  proof (cases "cs = []")
    case True
    with assms hs have "ts_days s' = ts_days s @ [empty_day_dict (te_isodate env date)
        (empty_day_blocks env n (window (h1 * 60) (h2 * 60)) s) (ts_base s) (window (h1 * 60) (h2 * 60)) @
        [(''schedule_info'', schedule_info h1 h2 (tr_custom rq date \<noteq> None))]]"
      by (auto simp: trip_day_def Let_def)
    then show ?thesis by (simp add: empty_day_dict_def)
  next
    case False
    with assms hs obtain r :: "'s day_result" where "ts_days s' = ts_days s @ [day_dict (te_isodate env date) r @
        [(''schedule_info'', schedule_info h1 h2 (tr_custom rq date \<noteq> None))]]"
      by (auto simp: trip_day_def Let_def rbind_eq_Inr_iff)
    then show ?thesis by (simp add: day_dict_def Let_def)
  qed
qed

lemma rfold_trip_dates:
  "rfold (trip_day env rq h) days s = Inr s' \<Longrightarrow>
   map (\<lambda>x. map_of x ''date'') (ts_days s') =
   map (\<lambda>x. map_of x ''date'') (ts_days s) @ map (\<lambda>(n, date, cs). Some (VStr (te_isodate env date))) days"
proof (induction days arbitrary: s)
  case Nil
  then show ?case by simp
next
  case (Cons day days)
  obtain n date cs where day: "day = (n, date, cs)" by (cases day) auto
  from Cons.prems obtain s1 where s1: "trip_day env rq h day s = Inr s1" "rfold (trip_day env rq h) days s1 = Inr s'"
    by (auto simp: rbind_eq_Inr_iff)
  from trip_day_appends [OF s1(1) [unfolded day]] Cons.IH [OF s1(2)] day show ?case by auto
qed

lemma numbered_days_dates:
  "map (\<lambda>(n, date, cs). f date) (numbered_days d) = map f (sort (keys d))"
proof -
  have "map (\<lambda>(n, date, cs). f date) (numbered_days d) = map f (map snd (enumerate 0 (sort (keys d))))"
    unfolding numbered_days_def Let_def map_map by (rule map_cong) (auto simp: comp_def)
  then show ?thesis by simp
qed

lemma mark_analysis_days: "mark_analysis r a = Inr r' \<Longrightarrow> dget r' ''days'' v = dget r ''days'' v"
  by (auto simp: mark_analysis_def dget_dset split: if_splits pyval.splits)

lemma core_days:
  assumes "execute_city2graph_core_logic service semantic decision places classic = Inr r"
  shows "\<exists>v. classic = Inr v \<and> dget r ''days'' x = dget v ''days'' x"
proof (cases "\<exists>v. classic = Inr v \<and> \<not> has_key v ''optimization_metrics''")
  case True
  then show ?thesis using assms unfolding execute_city2graph_core_logic_def by (auto simp: rbind_eq_Inr_iff split: if_splits)
next
  case False
  from assms False obtain v factors r1 where c: "classic = Inr v"
    "mark_analysis v
         [(''method_used'', VStr ''city2graph_enhanced''), (''complexity_score'', dget decision ''complexity_score'' (VInt 0)),
          (''semantic_available'', VBool (semantic \<noteq> None)), (''enhancement_applied'', VBool True),
          (''factors_considered'', VList (map VStr factors))] = Inr r1"
    "(case (semantic, dget r1 ''optimization_metrics'' VNone) of
          (Some (sr # srs), VDict m) \<Rightarrow>
            rbind (vlen (dget (sr # srs) ''recommendations'' (VList []))) (\<lambda>k.
            Inr (dset ''optimization_metrics'' (VDict (dset ''semantic_enhancement'' (VDict
                   [(''districts_analyzed'', VInt (int k)),
                    (''semantic_strategy'', dget (sr # srs) ''strategy'' (VStr ''unknown'')),
                    (''confidence'', VStr ''high'')]) m)) r1))
        | _ \<Rightarrow> Inr r1) = Inr r"
    unfolding execute_city2graph_core_logic_def by (auto simp: rbind_eq_Inr_iff split: if_splits)
  from c(3) have "dget r ''days'' x = dget r1 ''days'' x"
    by (auto simp: rbind_eq_Inr_iff dget_dset split: option.splits list.splits pyval.splits)
  with c(1) mark_analysis_days [OF c(2)] show ?thesis by auto
qed

lemma add_status_days: 
  assumes "add_status r a = Inr r'" shows "dget r' ''days'' v = dget r ''days'' v"
proof (cases "has_key r ''optimization_metrics''")
  case True
  from assms obtain x where "(case (x, dget r ''optimization_metrics'' VNone) of
           (VDict d, VDict m) \<Rightarrow>
             Inr (dset ''optimization_metrics'' (VDict (dset ''city2graph_analysis''
                    (VDict (dset ''circuit_breaker_status'' (VDict a) d)) m)) r)
         | _ \<Rightarrow> Inl TypeError) = Inr r'"
    using True unfolding add_status_def by (auto simp: rbind_eq_Inr_iff simp del: split_paired_Ex)
  then show ?thesis by (cases x; cases "dget r ''optimization_metrics'' VNone") (auto simp: dget_dset)
qed (use assms in \<open>simp add: add_status_def\<close>)

lemma c2g_call_Inr: "c2g_call now out b = (Inr v, b') \<Longrightarrow> snd out = Inr v"
  by (auto simp: c2g_call_def split: sum.splits option.splits if_splits prod.splits bool.splits)

lemma city2graph_days:
  assumes "optimize_with_city2graph str_error now elapsed took service semantic classic decision places b = (Inr r, b')"
  shows "\<exists>k \<le> 1. \<exists>v. classic k = Inr v \<and> dget r ''days'' x = dget v ''days'' x"
proof -
  have fallback: "\<exists>k \<le> 1. \<exists>v. classic k = Inr v \<and> dget r ''days'' x = dget v ''days'' x"
    if "\<exists>an. rbind (classic 1) (\<lambda>result. mark_analysis result an) = Inr r"
    using that mark_analysis_days by (fastforce simp: rbind_eq_Inr_iff)
  show ?thesis
  proof (cases "vlen (dget decision ''factors'' (VDict []))")
    case (Inl e)
    with assms show ?thesis by (intro fallback) (auto simp: optimize_with_city2graph_def)
  next
    case (Inr n)
    show ?thesis
    proof (cases "c2g_state b = OPEN")
      case True
      define m0 where "m0 = rbind (classic 0) (\<lambda>result. mark_analysis result
                      [(''method_used'', VStr ''classic_fallback_circuit_breaker''),
                       (''circuit_breaker_status'', VDict (c2g_get_status b)),
                       (''complexity_score'', dget decision ''complexity_score'' (VInt 0)),
                       (''enhancement_applied'', VBool False), (''processing_time_s'', VFloat took)])"
      show ?thesis
      proof (cases m0)
        case (Inl e)
        with assms Inr True show ?thesis unfolding m0_def by (intro fallback) (auto simp: optimize_with_city2graph_def)
      next
        case (Inr v)
        with assms \<open>vlen _ = _\<close> True have "v = r" unfolding m0_def by (simp add: optimize_with_city2graph_def)
        with Inr show ?thesis unfolding m0_def using mark_analysis_days by (fastforce simp: rbind_eq_Inr_iff)
      qed
    next
      case False
      obtain q b1 where q: "execute_with_circuit_breaker now
          (elapsed, execute_city2graph_core_logic service semantic decision places (classic 0)) b = (q, b1)" by fastforce
      show ?thesis
      proof (cases "rbind q (\<lambda>result. add_status result (c2g_get_status b1))")
        case (Inl e)
        with assms Inr False q show ?thesis by (intro fallback) (auto simp: optimize_with_city2graph_def)
      next
        case (Inr v)
        with assms \<open>vlen _ = _\<close> False q have "v = r" by (simp add: optimize_with_city2graph_def)
        with Inr obtain w where w: "q = Inr w" "add_status w (c2g_get_status b1) = Inr r"
          by (auto simp: rbind_eq_Inr_iff)
        from q w(1) have "execute_city2graph_core_logic service semantic decision places (classic 0) = Inr w"
          using c2g_call_Inr [of now "(elapsed, execute_city2graph_core_logic service semantic decision places (classic 0))" b w b1]
          by (simp add: execute_with_circuit_breaker_def)
        from core_days [OF this] add_status_days [OF w(2)] show ?thesis by (metis zero_le)
      qed
    qed
  qed
qed

lemma ortools_path_fails: "\<exists>e. optimize_with_ortools_path scope to_ortools run to_legacy extra = Inl e"
proof -
  have c: "ortools_days_count scope = Inl (OtherError ''NameError'')"
    by (simp add: ortools_days_count_def read_date_def ortools_names_def)
  show ?thesis
    unfolding optimize_with_ortools_path_def c
    by (auto simp: rbind_eq_Inr_iff split: sum.split)
qed

lemma open_breaker_kept:
  "c2g_state b = OPEN \<Longrightarrow> snd (optimize_with_city2graph str_error now elapsed took service semantic classic decision places b) = b"
  by (auto simp: optimize_with_city2graph_def split: sum.splits prod.splits)

lemma sort_upto: "sort [a..b] = [a..b :: int]"
  by (simp add: sorted_sort_id)

lemma compact_loop_keys:
  "set ks \<subseteq> set (keys d) \<Longrightarrow> keys (compact_loop m ks cs i d) = keys d"
proof (induction cs arbitrary: i d)
  case (Cons c cs)
  show ?case
  proof (cases "i < length ks")
    case True
    with Cons.prems have "ks ! i \<in> set (keys d)" using nth_mem by blast
    then have "keys (append_day (ks ! i) c d) = keys d" by (rule keys_append_day)
    moreover from this Cons.prems have "set ks \<subseteq> set (keys (append_day (ks ! i) c d))" by simp
    ultimately show ?thesis using True Cons.IH [of "append_day (ks ! i) c d"] by (simp add: Let_def)
  qed (simp add: compact_loop_full)
qed simp

lemma plan_days_keys:
  assumes "plan_days env rq cs = Inr d"
  shows "keys d = [tr_start_date rq..tr_end_date rq]"
proof (cases "tr_strategy rq = ''compact''")
  case True
  with assms obtain d0 where "allocate_clusters_to_days cs (tr_start_date rq) (tr_end_date rq) = Inr d0"
    "d = pack_compact (pl_settings (te_planner env)) d0"
    by (auto simp: plan_days_def pack_activities_by_strategy_def rbind_eq_Inr_iff)
  with allocation_conserves [of cs "tr_start_date rq" "tr_end_date rq" d0] show ?thesis
    by (simp add: pack_compact_def compact_loop_keys)
qed (use plan_days_places [OF assms] in simp)

subsection \<open>A small trip\<close>

text \<open>One museum, one date, no hotel and no time: the base is computed and nothing is visited.\<close>

definition demo_gallery :: pydict where
  "demo_gallery = [(''name'', VStr ''Gallery''), (''type'', VStr ''museum''), (''lat'', VInt 2), (''lon'', VInt 3)]"

definition demo_bases :: base_services where
  "demo_bases = \<lparr>bs_distance = None, bs_recommend = (\<lambda>ps n. Inr []), bs_places = (\<lambda>p t. Inl TimeoutError),
     bs_lodging = (\<lambda>p. Inr []), bs_show = (\<lambda>v. ''x'')\<rparr>"

definition demo_env :: "router_state trip_env" where
  "demo_env = \<lparr>te_planner = demo_planner, te_dbscan = (\<lambda>eps n xs. map (\<lambda>x. 0) xs), te_bases = demo_bases,
     te_travel = demo_travel, te_found = (\<lambda>n ts. Inr []), te_search_real = (\<lambda>ts n. Inr []),
     te_search = (\<lambda>ts. Inr []), te_isodate = (\<lambda>i. replicate (nat i) CHR ''x''), te_semantic = None, te_stats = (\<lambda>s. [])\<rparr>"

definition demo_trip :: trip_request where
  "demo_trip = \<lparr>tr_places = [demo_gallery], tr_start_date = 1, tr_end_date = 1, tr_start_hour = 9, tr_end_hour = 9,
     tr_mode = ''walk'', tr_accommodations = None, tr_strategy = ''cluster_first'', tr_extra_info = None, tr_custom = (\<lambda>d. None)\<rparr>"

lemma demo_valid: "fst (validate_coordinates [demo_gallery]) = [demo_gallery]"
  by (simp add: demo_gallery_def validate_place_def)

definition demo_centre :: pydict where
  "demo_centre = (case select_home_base_enhanced (\<lambda>v. ''x'') (mk_cluster (LInt 0) (VFloat 2, VFloat 3) [demo_gallery] None) of Inr b \<Rightarrow> b | Inl e \<Rightarrow> [])"

definition demo_based :: cluster where
  "demo_based = (mk_cluster (LInt 0) (VFloat 2, VFloat 3) [demo_gallery] (Some demo_centre))\<lparr>cl_home_base_source := ''enhanced_fallback''\<rparr>"

lemma demo_cluster_found:
  "cluster_pois default_settings (\<lambda>eps n xs. map (\<lambda>x. 0) xs) [demo_gallery] = Inr [mk_cluster (LInt 0) (VFloat 2, VFloat 3) [demo_gallery] None]"
  by (simp add: cluster_pois_def not_accommodation_def demo_gallery_def pnum_def dindex_def add_to_def poi_label_def
    make_clusters_def calculate_centroid_def lower_def lower_char_def dget_def)

lemma demo_centre: "select_home_base_enhanced (\<lambda>v. ''x'') (mk_cluster (LInt 0) (VFloat 2, VFloat 3) [demo_gallery] None) = Inr demo_centre"
  "pcoord demo_centre = Inr (2, 3)" "dindex demo_centre ''name'' = Inr (VStr ''Centro de x'')" "demo_centre \<noteq> []"
  by (simp_all add: demo_centre_def select_home_base_enhanced_def mk_cluster_def type_in_def demo_gallery_def pnum_def dindex_def dget_def lower_def lower_char_def pcoord_def)

lemma demo_assigned:
  "assign_home_base_to_clusters demo_bases [mk_cluster (LInt 0) (VFloat 2, VFloat 3) [demo_gallery] None] None (Some [demo_gallery]) = Inr [demo_based]"
  by (simp add: assign_home_base_to_clusters_def is_accommodation_def is_str_def demo_gallery_def dget_def)
    (simp add: demo_gallery_def [symmetric] on_baseless_def has_base_def recommend_hotel_def demo_bases_def is_remote_cluster_def
       find_hotel_for_remote_cluster_def set_fallback_base_def demo_centre enrich_remote_cluster_def generate_accommodation_suggestions_def
       search_types_def new_attractions_def demo_based_def mk_cluster_def demo_centre [unfolded mk_cluster_def])

lemma demo_planned:
  "plan_clusters demo_env demo_trip [demo_gallery] = Inr [demo_based]"
  "plan_days demo_env demo_trip [demo_based] = Inr [(1, [demo_based])]"
proof -
  show "plan_clusters demo_env demo_trip [demo_gallery] = Inr [demo_based]"
    unfolding plan_clusters_def demo_env_def demo_trip_def
    by (simp add: demo_planner_def demo_cluster_found demo_assigned)
  show "plan_days demo_env demo_trip [demo_based] = Inr [(1, [demo_based])]"
    by (simp add: plan_days_def demo_trip_def allocate_clusters_to_days_def empty_days_def n_places_def demo_based_def mk_cluster_def
      distribute_balanced_mode_def balanced_cluster_def pack_activities_by_strategy_def demo_env_def
      to_min_day_def min_day_def append_day_def add_to_def)
qed

definition demo_eve :: "router_state day" where
  "demo_eve = start_day (pl_show demo_planner) (window 540 540) (Some (2, 3)) 1 [demo_based] (new_optimizer, 0, 0)"

lemma demo_based: "has_base demo_based" "base_coord demo_based = Inr (2, 3)" "cl_places demo_based = [demo_gallery]" "cl_home_base demo_based = Some demo_centre"
  using demo_centre by (simp_all add: demo_based_def has_base_def mk_cluster_def base_coord_def)

lemma demo_eve: "dy_loc demo_eve = Some (2, 3)" "dy_svc demo_eve = (new_optimizer, 0, 0)" "dy_time demo_eve = 570" "dy_transfers demo_eve = []"
  "dy_scheduled demo_eve = [CheckIn (check_in (pl_show demo_planner) demo_based (2, 3) 540)]"
  by (simp_all add: demo_eve_def start_day_def window_def Let_def)

lemma demo_still: "move_to_base demo_planner demo_travel ''walk'' (window 540 540) demo_based demo_eve = Inr (Some demo_eve, dy_svc demo_eve)"
  using demo_eve(1) by (simp add: move_to_base_def demo_based demo_eve coord_km_def haversine_km_def haversine_a_def)

lemma demo_gallery_unfit:
  "visit_place demo_planner r ''walk'' (window 540 540) demo_gallery
   \<lparr>ds_activities = [], ds_timeline = [], ds_time = 570, ds_loc = (2, 3), ds_svc = s\<rparr> = Inr (\<lparr>ds_activities = [], ds_timeline = [], ds_time = 570, ds_loc = (2, 3), ds_svc = s\<rparr>, False)"
  by (simp add: visit_simps demo_gallery_def coord_km_def haversine_km_def haversine_a_def)

lemma demo_nothing:
  "route_cluster_with_time_windows demo_planner r demo_based 570 (window 540 540) ''walk'' s = Inr ([], [], s)"
proof -
  have s: "sort_places_by_time_preference (pl_settings demo_planner) [demo_gallery] 570 = Inr [demo_gallery]"
    by (simp add: sort_places_by_time_preference_def time_preference_score_def demo_gallery_def lower_def
      demo_planner_def default_settings_def sort_key_def dget_def)
  have k: "filter not_lodging [demo_gallery] = [demo_gallery]"
    by (simp add: not_lodging_def is_str_def demo_gallery_def dget_def)
  show ?thesis
    by (simp add: route_cluster_with_time_windows_def demo_based demo_centre s k demo_gallery_unfit return_to_hotel_def Let_def del: filter.simps)
qed

lemma demo_routed:
  "\<exists>r. route_day_enhanced demo_planner demo_travel (\<lambda>ts. Inr []) [demo_based] (window 540 540) ''walk'' (Some (2, 3)) 1 None
     (new_optimizer, 0, 0) = Inr r \<and> dy_loc (dr_day r) = Some (2, 3) \<and> dy_transfers (dr_day r) = [] \<and> dy_intercity_count (dr_day r) = 0
     \<and> dy_intercity_minutes (dr_day r) = 0 \<and> dy_walking_time (dr_day r) = 0 \<and> dy_transport_time (dr_day r) = 0"
proof -
  have o: "suggestions_origin (Some (2, 3)) [demo_based] = Inr (Some (2, 3))"
    by (simp add: suggestions_origin_def demo_based coord_km_def haversine_km_def haversine_a_def)
  obtain b where b: "is_restaurant (CheckIn (check_in (pl_show demo_planner) demo_based (2, 3) 540)) = Inr b" by (simp add: is_restaurant_def)
  have z: "dy_intercity_count demo_eve = 0" "dy_intercity_minutes demo_eve = 0" "dy_walking_time demo_eve = 0" "dy_transport_time demo_eve = 0"
    by (simp_all add: demo_eve_def start_day_def window_def Let_def)
  show ?thesis
    by (simp add: route_day_enhanced_def start_location_def demo_eve_def [symmetric] demo_still demo_eve demo_nothing after_cluster_def o b Let_def z
        generate_actionable_recommendations_def long_transfer_recommendation_def meal_recommendation_def)
qed

lemma demo_answer:
  "\<exists>r. optimize_classic_method demo_env demo_trip (new_optimizer, 0, 0) = Inr r \<and> has_key r ''clusters_info''"
proof -
  obtain r where r: "route_day_enhanced demo_planner demo_travel (\<lambda>ts. Inr []) [demo_based] (window 540 540) ''walk'' (Some (2, 3)) 1 None
     (new_optimizer, 0, 0) = Inr r" "dy_loc (dr_day r) = Some (2, 3)" "dy_transfers (dr_day r) = []" "dy_intercity_count (dr_day r) = 0"
     "dy_intercity_minutes (dr_day r) = 0" "dy_walking_time (dr_day r) = 0" "dy_transport_time (dr_day r) = 0"
    using demo_routed by blast
  obtain s where s: "route_trip demo_env demo_trip [(1, [demo_based])] (new_optimizer, 0, 0) = Inr s"
    "ts_days s = [day_dict ''x'' r @ [(''schedule_info'', schedule_info 9 9 False)]]"
    by (simp add: route_trip_def numbered_days_def clusters_on_def demo_based trip_day_def r(1) demo_trip_def demo_env_def enumerate_eq_zip)
  have f: "fst (validate_coordinates (tr_places demo_trip)) = [demo_gallery]"
    by (simp add: demo_trip_def demo_valid del: validate_coordinates.simps)
  obtain m where m: "calculate_enhanced_metrics (ts_days s) = Inr m"
    by (simp add: s(2) calculate_enhanced_metrics_def day_dict_def sum_summary_def Let_def day_intercity_def dicts_def r(3))
  have i: "inject_intercity_transfers_between_days st route (ts_days s) v = Inr (ts_days s, v)" for st v and route :: "router_state router"
    by (simp add: s(2))
  obtain sa where sa: "semantic_analysis (semantic_result demo_env [demo_gallery]) = Inr sa"
    by (simp add: semantic_result_def semantic_analysis_def demo_env_def)
  have "\<exists>x y z. optimize_classic_method demo_env demo_trip (new_optimizer, 0, 0) = Inr [(''days'', x), (''optimization_metrics'', y), (''clusters_info'', VDict (clusters_info [demo_based] ''cluster_first'')), z]"
    unfolding optimize_classic_method_def Let_def f sa demo_planned rbind_Inr s(1) i prod.case m
    by (simp add: demo_trip_def)
  then show ?thesis by (auto simp: has_key_def)
qed

subsection \<open>Properties\<close>

text \<open>
  C1: whichever method the decisions choose, the days of an answer are the days of a run of the
  classic method: the OR-Tools path always raises after its work, and the City2Graph path runs the
  classic method and only annotates its metrics.
\<close>

theorem every_path_is_classic:
  assumes "optimize_itinerary_hybrid_v31 enable_ortools enable_city2graph ot_decision
       (optimize_with_ortools_path scope to_ortools run to_legacy extra) decision
       (\<lambda>d. optimize_with_city2graph str_error now elapsed took service semantic classic d places) (classic 2) b = (Inr r, b')"
  shows "\<exists>k \<le> 2. \<exists>v. classic k = Inr v \<and> dget r ''days'' VNone = dget v ''days'' VNone"
proof -
  obtain e where e: "optimize_with_ortools_path scope to_ortools run to_legacy extra = Inl e"
    using ortools_path_fails by blast
  have c2g: "\<exists>k \<le> 2. \<exists>v. classic k = Inr v \<and> dget r ''days'' VNone = dget v ''days'' VNone"
    if "optimize_with_city2graph str_error now elapsed took service semantic classic d places b = (Inr r, b1)" for d b1
    using city2graph_days [OF that, of VNone] by (metis le_trans one_le_numeral)
  show ?thesis
    using assms c2g unfolding optimize_itinerary_hybrid_v31_def e
    by (auto split: sum.splits prod.splits bool.splits if_splits)
qed

theorem every_path_is_classic_witness:
  "\<exists>r b'. optimize_itinerary_hybrid_v31 True True (Inr True)
       (optimize_with_ortools_path (\<lambda>x. Some 1) (Inr []) (\<lambda>x. Inr []) (\<lambda>x. Inr []) []) (Inl TimeoutError)
       (\<lambda>d. optimize_with_city2graph (\<lambda>e. ''e'') 0 1 1 (Inr ()) None (\<lambda>k. optimize_classic_method demo_env demo_trip (new_optimizer, 0, 0)) d [])
       (optimize_classic_method demo_env demo_trip (new_optimizer, 0, 0)) (new_c2g_breaker 3 60) = (Inr r, b') \<and>
     (\<exists>v. optimize_classic_method demo_env demo_trip (new_optimizer, 0, 0) = Inr v \<and> dget r ''days'' VNone = dget v ''days'' VNone)"
proof -
  obtain v where v: "optimize_classic_method demo_env demo_trip (new_optimizer, 0, 0) = Inr v" using demo_answer by blast
  let ?c = "\<lambda>k :: nat. optimize_classic_method demo_env demo_trip (new_optimizer, 0, 0)"
  have h: "optimize_itinerary_hybrid_v31 True True (Inr True)
       (optimize_with_ortools_path (\<lambda>x. Some 1) (Inr []) (\<lambda>x. Inr []) (\<lambda>x. Inr []) []) (Inl TimeoutError)
       (\<lambda>d. optimize_with_city2graph (\<lambda>e. ''e'') 0 1 1 (Inr ()) None ?c d []) (?c 2) (new_c2g_breaker 3 60) = (Inr v, (new_c2g_breaker 3 60))"
    by (simp add: v optimize_itinerary_hybrid_v31_def optimize_with_ortools_path_def ortools_days_count_def read_date_def
      ortools_names_def ortools_metadata_def)
  from every_path_is_classic [OF h] h show ?thesis by blast
qed

text \<open>
  once the City2Graph breaker is open no request ever closes it again, whatever the time: the
  method looks at the state itself and does not make the call that would let it recover.
\<close>

theorem open_city2graph_stays_open:
  assumes "c2g_state b = OPEN"
  shows "serve_city2graph str_error requests b = b"
  using assms unfolding serve_city2graph_def
  by (induction requests) (auto simp: open_breaker_kept)

theorem open_city2graph_stays_open_witness:
  "c2g_state (serve_city2graph (\<lambda>e. ''e'') [(1000000, 1, 1, Inr (), None, \<lambda>k. Inr [], [], [])] ((new_c2g_breaker 3 60)\<lparr>c2g_state := OPEN\<rparr>)) = OPEN"
  by (subst open_city2graph_stays_open) simp_all

text \<open>
  C2: from the places to the packed days nothing is lost or doubled: except under the compact
  packing, every place that is not an accommodation is on exactly one day of the trip.
\<close>

theorem trip_conserves_places:
  assumes "plan_clusters env rq places = Inr cs" "plan_days env rq cs = Inr d" "tr_strategy rq \<noteq> ''compact''"
    and "\<And>eps m xs. length (te_dbscan env eps m xs) = length xs"
  shows "keys d = [tr_start_date rq..tr_end_date rq] \<and>
    mset (concat (map cl_places (all_clusters d))) = mset (filter (\<lambda>p. not_accommodation p = Inr True) places)"
  using plan_days_places [OF assms(2,3)] plan_clusters_places [OF assms(1,4)] by simp

theorem trip_conserves_places_witness:
  "plan_clusters demo_env demo_trip [demo_gallery] = Inr [demo_based] \<and> plan_days demo_env demo_trip [demo_based] = Inr [(1, [demo_based])] \<and>
   mset (concat (map cl_places (all_clusters [(1, [demo_based])]))) =
   mset (filter (\<lambda>p. not_accommodation p = Inr True) [demo_gallery])"
  using trip_conserves_places [OF demo_planned(1) demo_planned(2)] demo_planned by (simp add: demo_env_def demo_trip_def)

text \<open>
  C3: a trip that is answered is either the free trip or has one entry for each of its dates, in
  order, after routing, packing and the transfers between days.
\<close>

theorem one_day_per_date:
  assumes "optimize_classic_method env rq svc = Inr r"
  shows "r = free_trip env rq \<or>
    (\<exists>days. dget r ''days'' VNone = dicts days \<and>
       map (\<lambda>d. dget d ''date'' VNone) days = map (\<lambda>i. VStr (te_isodate env i)) [tr_start_date rq..tr_end_date rq])"
proof (cases "r = free_trip env rq")
  case False
  with assms obtain cs d s days svc' m sa where c:
    "plan_days env rq cs = Inr d" "route_trip env rq d svc = Inr s"
    "inject_intercity_transfers_between_days (pl_settings (te_planner env)) (tr_robust (te_travel env)) (ts_days s) (ts_svc s) = Inr (days, svc')"
    "dget r ''days'' VNone = dicts days"
    unfolding optimize_classic_method_def Let_def
    by (auto simp: rbind_eq_Inr_iff prod.case_eq_if dget_def split: if_splits)
  from c(2) obtain h where h: "rfold (trip_day env rq h) (numbered_days d)
       \<lparr>ts_days = [], ts_end_location = None, ts_base = None, ts_svc = svc\<rparr> = Inr s"
    by (auto simp: route_trip_def rbind_eq_Inr_iff)
  have "map (\<lambda>x. map_of x ''date'') days = map (\<lambda>i. Some (VStr (te_isodate env i))) [tr_start_date rq..tr_end_date rq]"
    using rfold_trip_dates [OF h] inject_keeps [OF c(3), of "''date''"] numbered_days_dates [of "\<lambda>i. Some (VStr (te_isodate env i))" d]
    by (simp add: plan_days_keys [OF c(1)] sort_upto)
  from arg_cong [OF this, of "map (\<lambda>x. case x of None \<Rightarrow> VNone | Some v \<Rightarrow> v)"]
  have "map (\<lambda>d. dget d ''date'' VNone) days = map (\<lambda>i. VStr (te_isodate env i)) [tr_start_date rq..tr_end_date rq]"
    by (simp add: comp_def dget_def)
  with c(4) show ?thesis by blast
qed simp

theorem one_day_per_date_witness:
  "\<exists>r days. optimize_classic_method demo_env demo_trip (new_optimizer, 0, 0) = Inr r \<and>
     dget r ''days'' VNone = dicts days \<and> map (\<lambda>d. dget d ''date'' VNone) days = [VStr ''x'']"
proof -
  obtain r where r: "optimize_classic_method demo_env demo_trip (new_optimizer, 0, 0) = Inr r" "has_key r ''clusters_info''"
    using demo_answer by blast
  have "\<not> has_key (free_trip demo_env demo_trip) ''clusters_info''"
    by (simp add: free_trip_def generate_free_days_with_suggestions_def has_key_def Let_def)
  with r have "r \<noteq> free_trip demo_env demo_trip" by auto
  with one_day_per_date [OF r(1)] obtain days where "dget r ''days'' VNone = dicts days"
    "map (\<lambda>d. dget d ''date'' VNone) days = map (\<lambda>i. VStr (te_isodate demo_env i)) [tr_start_date demo_trip..tr_end_date demo_trip]" by blast
  then show ?thesis using r(1) by (auto simp: demo_env_def demo_trip_def)
qed

end
