(* ===== verification/Decisions.thy ===== *)
theory Decisions
  imports Clusters ORToolsService
begin

section \<open>Which optimiser to use\<close>

text \<open>
  src/utils/ortools\_decision\_engine.py (\<open>ORToolsDecisionEngine\<close>) and \<open>should_use_city2graph\<close> with its
  helpers (src/api.py).  A place is an object or a dictionary.  The number of days between the two dates,
  the hash of a user and DBSCAN are parameters; a cache key is the tuple of its factors, which the digest
  stands for.
\<close>

subsection \<open>Printing with a fixed number of decimals\<close>

definition show_fixed :: "nat \<Rightarrow> real \<Rightarrow> string" where
  "show_fixed n x =
     (let m = nat (round_half_even (\<bar>x\<bar> * 10 ^ n)); frac = show_nat (m mod 10 ^ n)
      in (if x < 0 then ''-'' else []) @ show_nat (m div 10 ^ n) @
         (if n = 0 then [] else ''.'' @ replicate (n - length frac) (CHR ''0'') @ frac))"

definition join_with :: "string \<Rightarrow> string list \<Rightarrow> string" where
  "join_with sep ws = concat (case ws of [] \<Rightarrow> [] | w # vs \<Rightarrow> w # map (\<lambda>v. sep @ v) vs)"

subsection \<open>Places\<close>

datatype place_ref = Obj pydict | Dct pydict

text \<open>\<open>get_place_attr\<close>: an attribute that is \<open>None\<close> is passed over, a key whose value is \<open>None\<close> is not.\<close>

fun get_place_attr :: "place_ref \<Rightarrow> string list \<Rightarrow> pyval \<Rightarrow> pyval" where
  "get_place_attr p [] dflt = dflt"
| "get_place_attr (Obj d) (a # as') dflt =
     (case map_of d a of Some v \<Rightarrow> (if v \<noteq> VNone then v else get_place_attr (Obj d) as' dflt)
                       | None \<Rightarrow> get_place_attr (Obj d) as' dflt)"
| "get_place_attr (Dct d) (a # as') dflt =
     (case map_of d a of Some v \<Rightarrow> v | None \<Rightarrow> get_place_attr (Dct d) as' dflt)"

fun pget :: "place_ref \<Rightarrow> string \<Rightarrow> pyval \<Rightarrow> pyval res" where
  "pget (Dct d) k v = Inr (dget d k v)"
| "pget (Obj d) k v = Inl AttributeError"

subsection \<open>Complexity\<close>

text \<open>The coordinates of one axis under either name; zero and missing ones are left out.\<close>

fun axis_values :: "string \<Rightarrow> string \<Rightarrow> place_ref list \<Rightarrow> pyval list res" where
  "axis_values a b [] = Inr []"
| "axis_values a b (p # ps) =
     rbind (pget p a VNone) (\<lambda>u. rbind (if truthy u then Inr u else pget p b VNone) (\<lambda>v.
     rbind (if truthy v then rbind (pget p b (VInt 0)) (\<lambda>dflt. rbind (pget p a dflt) (\<lambda>w. Inr [w])) else Inr []) (\<lambda>ws.
     rbind (axis_values a b ps) (\<lambda>vs. Inr (ws @ vs)))))"

definition value_range :: "pyval list \<Rightarrow> real res" where
  "value_range vs = rbind (rmap_list need_num vs) (\<lambda>xs. Inr (Max (set xs) - Min (set xs)))"

definition ot_geographic_spread :: "place_ref list \<Rightarrow> real res" where
  "ot_geographic_spread places =
     (if length places < 2 then Inr 0
      else
        rbind (axis_values ''lat'' ''latitude'' places) (\<lambda>lats.
        rbind (axis_values ''lon'' ''longitude'' places) (\<lambda>lons.
        if lats = [] \<or> lons = [] then Inr 0
        else rbind (value_range lats) (\<lambda>r. rbind (value_range lons) (\<lambda>s.
             Inr (sqrt ((r * 111)\<^sup>2 + (s * 111 * (8/10))\<^sup>2)))))))"

definition semantic_diversity :: "place_ref list \<Rightarrow> nat res" where
  "semantic_diversity places =
     (let types = map (\<lambda>p. get_place_attr p [''type'', ''place_type''] (VStr ''unknown'')) places
      in if \<exists>t \<in> set types. case t of VList _ \<Rightarrow> True | VDict _ \<Rightarrow> True | _ \<Rightarrow> False then Inl TypeError
         else Inr (card (set types)))"

definition listed_constraints :: "pydict \<Rightarrow> string \<Rightarrow> nat res" where
  "listed_constraints request k = (if truthy (dget request k VNone) then vlen (dget request k VNone) else Inr 0)"

definition count_time_constraints :: "pydict \<Rightarrow> nat res" where
  "count_time_constraints request =
     (let hours = (if truthy (dget request ''daily_start_hour'' VNone) then 1 else 0) +
                  (if truthy (dget request ''daily_end_hour'' VNone) then 1 else 0)
      in rbind (listed_constraints request ''time_windows'') (\<lambda>w.
         rbind (listed_constraints request ''fixed_activities'') (\<lambda>f. Inr (hours + w + f))))"

definition analyze_transport_complexity :: "pydict \<Rightarrow> string" where
  "analyze_transport_complexity request =
     (let mode = dget request ''transport_mode'' (VStr ''driving'')
      in if mode = VStr ''walking'' then ''simple''
         else if mode \<in> {VStr ''driving'', VStr ''bicycling''} then ''medium''
         else if mode \<in> {VStr ''transit'', VStr ''mixed''} then ''complex''
         else ''medium'')"

definition transport_weight :: "string \<Rightarrow> real" where
  "transport_weight c = (if c = ''simple'' then 0 else if c = ''medium'' then 1/2 else if c = ''complex'' then 1 else 1/2)"

definition overall_complexity :: "int \<Rightarrow> int \<Rightarrow> real \<Rightarrow> nat \<Rightarrow> nat \<Rightarrow> string \<Rightarrow> real" where
  "overall_complexity places days spread diversity constraints transport =
     min ((if places \<ge> 10 then 3 else if places \<ge> 6 then 2 else if places \<ge> 3 then 1 else 0) +
          (if days \<ge> 5 then 2 else if days \<ge> 3 then 1 else if days \<ge> 2 then 1/2 else 0) +
          (if spread \<ge> 100 then 2 else if spread \<ge> 50 then 15/10 else if spread \<ge> 20 then 1
           else if spread \<ge> 5 then 1/2 else 0) +
          min (real diversity * (3/10)) (15/10) + min (real constraints * (2/10)) 1 + transport_weight transport) 10"

record complexity =
  co_places_count :: nat
  co_days_count :: int
  co_spread :: real
  co_diversity :: nat
  co_constraints :: nat
  co_transport :: string
  co_overall :: real

text \<open>A request: its dictionary, its places, and the difference of its dates in days when they can be read.\<close>

record ot_request =
  rq_data :: pydict
  rq_places :: "place_ref list"
  rq_days :: "int option"

definition analyze_complexity :: "ot_request \<Rightarrow> complexity res" where
  "analyze_complexity rq =
     (let n = length (rq_places rq); days = (case rq_days rq of None \<Rightarrow> 1 | Some d \<Rightarrow> d + 1)
      in rbind (ot_geographic_spread (rq_places rq)) (\<lambda>spread.
         rbind (semantic_diversity (rq_places rq)) (\<lambda>sem.
         rbind (count_time_constraints (rq_data rq)) (\<lambda>tc.
         let t = analyze_transport_complexity (rq_data rq)
         in Inr \<lparr>co_places_count = n, co_days_count = days, co_spread = spread, co_diversity = sem,
                 co_constraints = tc, co_transport = t,
                 co_overall = overall_complexity (int n) days spread sem tc t\<rparr>))))"

subsection \<open>Geographic clusters\<close>

record geo_cluster =
  gc_id :: label
  gc_count :: nat
  gc_lat :: real
  gc_lon :: real
  gc_places :: "place_ref list"

text \<open>The places whose coordinates are numbers in range, with them in radians.\<close>

definition located :: "place_ref \<Rightarrow> (place_ref \<times> coord) list" where
  "located p =
     (let lat = get_place_attr p [''lat'', ''latitude''] VNone; lon = get_place_attr p [''lon'', ''longitude''] VNone
      in if lat = VNone \<or> lon = VNone then []
         else (case rbind (py_float lat) (\<lambda>a. rbind (py_float lon) (\<lambda>b. Inr (a, b))) of
                 Inl e \<Rightarrow> []
               | Inr (a, b) \<Rightarrow> if - 90 \<le> a \<and> a \<le> 90 \<and> - 180 \<le> b \<and> b \<le> 180 then [(p, (radians a, radians b))] else []))"

definition by_label :: "int list \<Rightarrow> 'a list \<Rightarrow> (label, 'a list) dict" where
  "by_label labels xs = fold (\<lambda>(i, l, x). add_to (poi_label i l) x) (enumerate 0 (zip labels xs)) []"

text \<open>\<open>label == -1\<close> replaces the label by its own name.  The centre is converted with 3.14159 for pi.\<close>

definition geo_cluster_of :: "label \<times> (place_ref \<times> coord) list \<Rightarrow> geo_cluster" where
  "geo_cluster_of c =
     (case c of (l, ps) \<Rightarrow>
      let lats = map (fst \<circ> snd) ps; lons = map (snd \<circ> snd) ps
      in \<lparr>gc_id = l, gc_count = length ps,
          gc_lat = sum_list lats / real (length lats) * 180 / (314159 / 100000),
          gc_lon = sum_list lons / real (length lons) * 180 / (314159 / 100000),
          gc_places = map fst ps\<rparr>)"

definition detect_geographic_clusters ::
  "(real \<Rightarrow> int \<Rightarrow> coord list \<Rightarrow> int list res) \<Rightarrow> place_ref list \<Rightarrow> geo_cluster list res" where
  "detect_geographic_clusters dbscan places =
     (if length places < 2 then Inr []
      else
        let valid = concat (map located places)
        in if length valid < 2 then Inr []
           else rbind (dbscan (100 / 6371) 1 (map snd valid)) (\<lambda>labels. Inr (map geo_cluster_of (by_label labels valid))))"

subsection \<open>The city of a request\<close>

fun first_city :: "place_ref list \<Rightarrow> pyval" where
  "first_city [] = VNone"
| "first_city (p # ps) =
     (let c = get_place_attr p [''city'', ''locality''] VNone in if truthy c then c else first_city ps)"

definition mean_location :: "place_ref list \<Rightarrow> pyval res" where
  "mean_location places =
     rbind (axis_values ''lat'' ''latitude'' places) (\<lambda>lats.
     rbind (axis_values ''lon'' ''longitude'' places) (\<lambda>lons.
     if lats = [] \<or> lons = [] then Inr VNone
     else rbind (rmap_list need_num lats) (\<lambda>xs. rbind (rmap_list need_num lons) (\<lambda>ys.
          Inr (VStr (''location_'' @ show_fixed 2 (sum_list xs / real (length xs)) @ ''_'' @
                     show_fixed 2 (sum_list ys / real (length ys))))))))"

definition detect_city :: "(real \<Rightarrow> int \<Rightarrow> coord list \<Rightarrow> int list res) \<Rightarrow> place_ref list \<Rightarrow> pyval res" where
  "detect_city dbscan places =
     (if places = [] then Inr VNone
      else if truthy (first_city places) then Inr (first_city places)
      else (case detect_geographic_clusters dbscan places of
              Inr [] \<Rightarrow> Inr (VStr ''single_location'')
            | Inr [c] \<Rightarrow> Inr (VStr (''city_cluster_'' @ show_fixed 2 (gc_lat c) @ ''_'' @ show_fixed 2 (gc_lon c)))
            | Inr cs \<Rightarrow> Inr (VStr (''multi_city_'' @ show_nat (length cs) @ ''_clusters''))
            | Inl e \<Rightarrow> mean_location places))"

subsection \<open>Eligibility\<close>

definition city_list :: "string \<Rightarrow> string list" where
  "city_list s = map (\<lambda>c. lower (strip c)) (filter (\<lambda>c. strip c \<noteq> []) (split_on (CHR '','') s))"

definition check_user_eligibility :: "(pyval \<Rightarrow> nat) \<Rightarrow> ot_settings \<Rightarrow> pydict \<Rightarrow> bool" where
  "check_user_eligibility user_hash ot request \<longleftrightarrow>
     ORTOOLS_USER_PERCENTAGE ot \<ge> 100 \<or>
     (ORTOOLS_USER_PERCENTAGE ot > 0 \<and>
      int (user_hash (dget request ''user_id'' (dget request ''session_id'' (VStr ''anonymous''))) mod 100) < ORTOOLS_USER_PERCENTAGE ot)"

definition check_geo_eligibility ::
  "(real \<Rightarrow> int \<Rightarrow> coord list \<Rightarrow> int list res) \<Rightarrow> ot_settings \<Rightarrow> place_ref list \<Rightarrow> bool res" where
  "check_geo_eligibility dbscan ot places =
     (if ORTOOLS_CITIES ot = [] then Inr True
      else
        rbind (detect_city dbscan places) (\<lambda>city.
        if truthy city then
          rbind (vlower city) (\<lambda>c.
          let allowed = city_list (ORTOOLS_CITIES ot); excluded = city_list (ORTOOLS_EXCLUDE_CITIES ot)
          in Inr (c \<notin> set excluded \<and> (allowed = [] \<or> c \<in> set allowed)))
        else Inr True))"

record feature_flags =
  ff_enabled :: bool
  ff_reason :: string
  ff_user_eligible :: bool
  ff_geo_eligible :: bool

definition check_feature_flags ::
  "(real \<Rightarrow> int \<Rightarrow> coord list \<Rightarrow> int list res) \<Rightarrow> (pyval \<Rightarrow> nat) \<Rightarrow> ot_settings \<Rightarrow> ot_request \<Rightarrow> feature_flags res" where
  "check_feature_flags dbscan user_hash ot rq =
     (if \<not> ENABLE_ORTOOLS ot then
        Inr \<lparr>ff_enabled = False, ff_reason = ''ENABLE_ORTOOLS=False'', ff_user_eligible = False, ff_geo_eligible = False\<rparr>
      else
        rbind (check_geo_eligibility dbscan ot (rq_places rq)) (\<lambda>geo.
        Inr \<lparr>ff_enabled = True, ff_reason = ''feature_flags_passed'',
             ff_user_eligible = check_user_eligibility user_hash ot (rq_data rq), ff_geo_eligible = geo\<rparr>))"

record geo_analysis =
  ga_valid :: bool
  ga_appropriate :: "bool option"
  ga_reasons :: "string list"
  ga_spread :: real
  ga_city :: pyval

definition analyze_geography ::
  "(real \<Rightarrow> int \<Rightarrow> coord list \<Rightarrow> int list res) \<Rightarrow> ot_settings \<Rightarrow> place_ref list \<Rightarrow> geo_analysis res" where
  "analyze_geography dbscan ot places =
     (if places = [] then Inr \<lparr>ga_valid = False, ga_appropriate = None, ga_reasons = [], ga_spread = 0, ga_city = VNone\<rparr>
      else
        rbind (ot_geographic_spread places) (\<lambda>spread.
        rbind (detect_city dbscan places) (\<lambda>city.
        let far = spread > real_of_int (ORTOOLS_MAX_DISTANCE_KM ot); many = int (length places) > ORTOOLS_MAX_PLACES ot
        in Inr \<lparr>ga_valid = True, ga_appropriate = Some (\<not> far \<and> \<not> many),
                ga_reasons = (if far then [''spread_too_large_'' @ show_fixed 0 spread @ ''km''] else []) @
                             (if many then [''too_many_places_'' @ show_nat (length places)] else []),
                ga_spread = spread, ga_city = city\<rparr>)))"

subsection \<open>The decision\<close>

record decision_result =
  de_use_ortools :: bool
  de_confidence :: real
  de_reasons :: "string list"
  de_complexity :: real
  de_time_ms :: int
  de_success_rate :: real
  de_fallback :: string

text \<open>The reasons and the confidence of a request that passes every requirement.\<close>

definition weigh :: "ot_settings \<Rightarrow> complexity \<Rightarrow> string list \<times> real" where
  "weigh ot c =
     (let n = int (co_places_count c);
          (r1, c1) = (if n \<ge> ORTOOLS_MIN_PLACES ot then ([''sufficient_places_'' @ show_int n], 5/10 + 3/10)
                      else if n \<ge> 3 then ([''moderate_places_'' @ show_int n], 5/10 + 1/10)
                      else ([''too_few_places_'' @ show_int n], 0));
          (r2, c2) = (if co_days_count c \<ge> ORTOOLS_MIN_DAYS ot then ([''multi_day_'' @ show_int (co_days_count c)], c1 + 1/10)
                      else ([''single_day_ok''], c1 + 5/100));
          (r3, c3) = (if co_overall c \<ge> 5 then ([''high_complexity_'' @ show_fixed 1 (co_overall c)], c2 + 1/10)
                      else if co_overall c \<ge> 3 then ([''medium_complexity_'' @ show_fixed 1 (co_overall c)], c2 + 5/100)
                      else ([], c2))
      in (r1 @ r2 @ r3, c3))"

definition make_decision :: "ot_settings \<Rightarrow> complexity \<Rightarrow> bool \<Rightarrow> feature_flags \<Rightarrow> geo_analysis \<Rightarrow> decision_result" where
  "make_decision ot c healthy ff ga =
     (let (use, conf, reasons) =
        (if \<not> ff_enabled ff then (False, 0, [''feature_disabled: '' @ ff_reason ff])
         else if \<not> ff_user_eligible ff then (False, 0, [''user_not_in_rollout_percentage''])
         else if \<not> ff_geo_eligible ff then (False, 0, [''geography_not_eligible''])
         else if \<not> healthy then (False, 0, [''ortools_service_unhealthy''])
         else if ga_appropriate ga = Some False then (False, 0, ga_reasons ga)
         else
           (let (rs, conf) = weigh ot c
            in if conf \<ge> 7/10 then (True, conf, rs @ [''high_confidence_ortools''])
               else if conf \<ge> 5/10 then (True, conf, rs @ [''medium_confidence_ortools''])
               else (False, max (1/10) conf, rs @ [''low_confidence_fallback_legacy''])))
      in \<lparr>de_use_ortools = use, de_confidence = conf, de_reasons = reasons, de_complexity = co_overall c,
          de_time_ms = (if use then ORTOOLS_EXPECTED_EXEC_TIME_MS ot else 8500),
          de_success_rate = (if use then 1 else 1/10),
          de_fallback = (if use then ''ortools_with_legacy_fallback'' else ''legacy_only'')\<rparr>)"

definition decision_error :: "(py_error \<Rightarrow> string) \<Rightarrow> py_error \<Rightarrow> decision_result" where
  "decision_error str_error e =
     \<lparr>de_use_ortools = False, de_confidence = 0, de_reasons = [''decision_engine_error: '' @ str_error e],
      de_complexity = 0, de_time_ms = 8500, de_success_rate = 0, de_fallback = ''legacy_safe_fallback''\<rparr>"

subsection \<open>The engine\<close>

record decision_key =
  dk_places_count :: nat
  dk_start_date :: string
  dk_end_date :: string
  dk_transport_mode :: pyval
  dk_user_id :: pyval
  dk_enabled :: bool
  dk_percentage :: int

definition generate_cache_key :: "(pyval \<Rightarrow> string) \<Rightarrow> ot_settings \<Rightarrow> ot_request \<Rightarrow> decision_key" where
  "generate_cache_key str ot rq =
     \<lparr>dk_places_count = length (rq_places rq), dk_start_date = str (dget (rq_data rq) ''start_date'' (VStr [])),
      dk_end_date = str (dget (rq_data rq) ''end_date'' (VStr [])),
      dk_transport_mode = dget (rq_data rq) ''transport_mode'' (VStr []),
      dk_user_id = dget (rq_data rq) ''user_id'' (VStr ''anonymous''),
      dk_enabled = ENABLE_ORTOOLS ot, dk_percentage = ORTOOLS_USER_PERCENTAGE ot\<rparr>"

record tracked =
  tk_decision :: bool
  tk_confidence :: real
  tk_complexity :: real
  tk_decision_time_ms :: real

record engine =
  en_cache :: "(decision_key, decision_result \<times> real) dict"
  en_history :: "tracked list"
  en_last_health_check :: real
  en_health_status :: "bool option"

definition new_engine :: engine where
  "new_engine = \<lparr>en_cache = [], en_history = [], en_last_health_check = 0, en_health_status = None\<rparr>"

definition cache_ttl :: real where
  "cache_ttl = 600"

text \<open>\<open>health\<close> is what the service answers.\<close>

definition check_ortools_health :: "real \<Rightarrow> bool res \<Rightarrow> engine \<Rightarrow> bool \<times> engine" where
  "check_ortools_health now health en =
     (if now - en_last_health_check en < 60 then (en_health_status en = Some True, en)
      else
        let ok = (health = Inr True)
        in (ok, en\<lparr>en_health_status := Some ok, en_last_health_check := now\<rparr>))"

definition track_decision :: "decision_result \<Rightarrow> complexity \<Rightarrow> real \<Rightarrow> engine \<Rightarrow> engine" where
  "track_decision d c ms en =
     (let h = en_history en @ [\<lparr>tk_decision = de_use_ortools d, tk_confidence = de_confidence d,
                tk_complexity = co_overall c, tk_decision_time_ms = ms\<rparr>]
      in en\<lparr>en_history := (if length h > 1000 then drop (length h - 500) h else h)\<rparr>)"

record ot_world =
  ow_dbscan :: "real \<Rightarrow> int \<Rightarrow> coord list \<Rightarrow> int list res"
  ow_user_hash :: "pyval \<Rightarrow> nat"
  ow_str :: "pyval \<Rightarrow> string"
  ow_str_error :: "py_error \<Rightarrow> string"

text \<open>The work without the cache: the decision or its exception, and the engine after the health check.\<close>

definition decide_afresh ::
  "ot_world \<Rightarrow> ot_settings \<Rightarrow> real \<Rightarrow> bool res \<Rightarrow> ot_request \<Rightarrow> engine \<Rightarrow> (complexity \<times> decision_result) res \<times> engine" where
  "decide_afresh w ot now health rq en =
     (case analyze_complexity rq of
        Inl e \<Rightarrow> (Inl e, en)
      | Inr c \<Rightarrow>
          (let (healthy, en1) = check_ortools_health now health en
           in (rbind (check_feature_flags (ow_dbscan w) (ow_user_hash w) ot rq) (\<lambda>ff.
               rbind (analyze_geography (ow_dbscan w) ot (rq_places rq)) (\<lambda>ga.
               Inr (c, make_decision ot c healthy ff ga))), en1)))"

text \<open>A request begins at \<open>now\<close>; \<open>d\<close> is the time until its decision is stored.\<close>

definition should_use_ortools ::
  "ot_world \<Rightarrow> ot_settings \<Rightarrow> real \<Rightarrow> real \<Rightarrow> bool res \<Rightarrow> ot_request \<Rightarrow> engine \<Rightarrow> decision_result \<times> engine" where
  "should_use_ortools w ot now d health rq en =
     (let k = generate_cache_key (ow_str w) ot rq;
          afresh = (case decide_afresh w ot now health rq en of
             (Inl e, en1) \<Rightarrow> (decision_error (ow_str_error w) e, en1)
           | (Inr (c, r), en1) \<Rightarrow>
               (let en2 = en1\<lparr>en_cache := dset k (r, now + d) (en_cache en1)\<rparr>
                in (r, if ORTOOLS_TRACK_PERFORMANCE ot then track_decision r c (d * 1000) en2 else en2)))
      in case map_of (en_cache en) k of
           Some (r, t) \<Rightarrow> (if now - t < cache_ttl then (r, en) else afresh)
         | None \<Rightarrow> afresh)"

record decision_stats =
  stat_total :: nat
  stat_ortools_percentage :: real
  stat_legacy_percentage :: real
  stat_avg_confidence_ortools :: real
  stat_avg_complexity_ortools :: real
  stat_avg_decision_time_ms :: real
  stat_cache_hit_rate :: real

definition get_decision_stats :: "engine \<Rightarrow> decision_stats option" where
  "get_decision_stats en =
     (if en_history en = [] then None
      else
        let recent = drop (length (en_history en) - 100) (en_history en);
            ot = filter tk_decision recent; legacy = filter (\<lambda>t. \<not> tk_decision t) recent; n = length recent
        in Some \<lparr>stat_total = n, stat_ortools_percentage = real (length ot) / real n * 100,
             stat_legacy_percentage = real (length legacy) / real n * 100,
             stat_avg_confidence_ortools = sum_list (map tk_confidence ot) / real (max (length ot) 1),
             stat_avg_complexity_ortools = sum_list (map tk_complexity ot) / real (max (length ot) 1),
             stat_avg_decision_time_ms = sum_list (map tk_decision_time_ms recent) / real n,
             stat_cache_hit_rate = real (length (en_cache en)) / real (max n 1) * 100\<rparr>)"

subsection \<open>The City2Graph decision\<close>

definition c2g_semantic_types :: "string list" where
  "c2g_semantic_types =
     [''museum'', ''tourist_attraction'', ''park'', ''art_gallery'', ''church'', ''synagogue'', ''mosque'', ''cemetery'',
      ''natural_feature'', ''university'', ''library'', ''town_hall'', ''courthouse'', ''locality'', ''neighborhood'',
      ''sublocality'', ''administrative_area'', ''cultural_center'', ''historical_site'', ''monument'']"

text \<open>
  \<open>str\<close> of a type; an enumeration member stands for its value, an object without a type for the
  empty string.  A set turned into a list is given in order of first occurrence.
\<close>

definition semantic_type_of :: "(pyval \<Rightarrow> string) \<Rightarrow> place_ref \<Rightarrow> string" where
  "semantic_type_of str p =
     lower (case p of
        Obj d \<Rightarrow> (case map_of d ''type'' of None \<Rightarrow> [] | Some v \<Rightarrow> str v)
      | Dct d \<Rightarrow> (case map_of d ''type'' of None \<Rightarrow> [] | Some v \<Rightarrow> str v))"

definition count_semantic_place_types :: "(pyval \<Rightarrow> string) \<Rightarrow> place_ref list \<Rightarrow> string list" where
  "count_semantic_place_types str places =
     remdups (filter (\<lambda>t. t \<in> set c2g_semantic_types) (map (semantic_type_of str) places))"

text \<open>\<open>extract_city\<close> is the reverse geocoding of a place, used only when the clustering raises.\<close>

definition detect_multiple_cities ::
  "(real \<Rightarrow> int \<Rightarrow> coord list \<Rightarrow> int list res) \<Rightarrow> (place_ref \<Rightarrow> string option) \<Rightarrow> place_ref list \<Rightarrow> string list" where
  "detect_multiple_cities dbscan extract_city places =
     (case detect_geographic_clusters dbscan places of
        Inr [] \<Rightarrow> []
      | Inr [c] \<Rightarrow> [''cluster_'' @ show_fixed 1 (gc_lat c) @ ''_'' @ show_fixed 1 (gc_lon c)]
      | Inr cs \<Rightarrow> map (\<lambda>(i, c). ''city_'' @ show_nat (i + 1) @ ''_'' @ show_nat (gc_count c) @ ''_places'') (enumerate 0 cs)
      | Inl e \<Rightarrow> remdups (map lower (filter (\<lambda>c. c \<noteq> []) (List.map_filter extract_city places))))"

text \<open>The coordinates a place gives: its own, or those of its nested \<open>coordinates\<close>.\<close>

definition spread_point :: "place_ref \<Rightarrow> pyval \<times> pyval" where
  "spread_point p =
     (let d = (case p of Obj d \<Rightarrow> d | Dct d \<Rightarrow> d);
          (lat, lon) = (case p of
             Obj d \<Rightarrow> (dget d ''lat'' VNone, dget d ''lon'' VNone)
           | Dct d \<Rightarrow> (dget d ''lat'' (dget d ''latitude'' VNone), dget d ''lon'' (dget d ''longitude'' VNone)))
      in if lat = VNone \<or> lon = VNone then
           (case dget d ''coordinates'' VNone of
              VDict c \<Rightarrow> (dget c ''latitude'' VNone, dget c ''longitude'' VNone)
            | _ \<Rightarrow> (lat, lon))
         else (lat, lon))"

definition spread_coord :: "place_ref \<Rightarrow> coord option" where
  "spread_coord p =
     (case spread_point p of (lat, lon) \<Rightarrow>
      if lat = VNone \<or> lon = VNone then None
      else (case rbind (py_float lat) (\<lambda>a. rbind (py_float lon) (\<lambda>b. Inr (a, b))) of Inl e \<Rightarrow> None | Inr c \<Rightarrow> Some c))"

definition c2g_geographic_spread :: "place_ref list \<Rightarrow> real res" where
  "c2g_geographic_spread places =
     (if length places < 2 then Inr 0
      else pairs_max (\<lambda>p q. haversine_km (fst p) (snd p) (fst q) (snd q)) (List.map_filter spread_coord places) 0)"

record c2g_factor =
  fa_name :: string
  fa_score :: "real option"
  fa_description :: string

definition ratio_score :: "real \<Rightarrow> real \<Rightarrow> real \<Rightarrow> real res" where
  "ratio_score value threshold cap = (if threshold = 0 then Inl ZeroDivisionError else Inr (min (value / threshold) cap))"

definition listed :: "string \<Rightarrow> string list \<Rightarrow> string" where
  "listed none xs = (if xs = [] then none else join_with '', '' xs)"

definition utf8 :: "nat list \<Rightarrow> string" where
  "utf8 bs = map char_of bs"

definition complexity_factors ::
  "ot_world \<Rightarrow> (place_ref \<Rightarrow> string option) \<Rightarrow> c2g_settings \<Rightarrow> ot_request \<Rightarrow> string list \<Rightarrow> (c2g_factor list \<times> real) res" where
  "complexity_factors w extract_city st rq cities =
     (let n = length (rq_places rq); days = (case rq_days rq of None \<Rightarrow> 0 | Some d \<Rightarrow> d) + 1;
          types = count_semantic_place_types (ow_str w) (rq_places rq)
      in rbind (ratio_score (real n) (real_of_int (CITY2GRAPH_MIN_PLACES st)) 2) (\<lambda>s1.
         rbind (ratio_score (real_of_int days) (real_of_int (CITY2GRAPH_MIN_DAYS st)) 2) (\<lambda>s2.
         rbind (ratio_score (real (length types)) (real_of_int (CITY2GRAPH_SEMANTIC_TYPES_THRESHOLD st)) 1) (\<lambda>s4.
         rbind (c2g_geographic_spread (rq_places rq)) (\<lambda>spread.
         rbind (ratio_score spread (CITY2GRAPH_GEO_SPREAD_THRESHOLD_KM st) 1) (\<lambda>s5.
         let s3 = (if length cities > 1 then 2 else 0)
         in Inr
           ([\<lparr>fa_name = ''places_complexity'', fa_score = Some (s1 * 3),
               fa_description = show_nat n @ '' lugares ('' @
                 (if int n \<ge> CITY2GRAPH_MIN_PLACES st then ''complejo'' else ''simple'') @ '')''\<rparr>,
             \<lparr>fa_name = ''duration_complexity'', fa_score = Some (s2 * 3),
               fa_description = show_int days @ '' d'' @ utf8 [195, 173] @ ''as ('' @
                 (if days \<ge> CITY2GRAPH_MIN_DAYS st then ''largo'' else ''corto'') @ '')''\<rparr>,
             \<lparr>fa_name = ''multi_city'', fa_score = Some s3,
               fa_description = show_nat (length cities) @ '' ciudades detectadas: '' @ listed ''ninguna'' cities\<rparr>,
             \<lparr>fa_name = ''semantic_richness'', fa_score = Some s4,
               fa_description = show_nat (length types) @ '' tipos sem'' @ utf8 [195, 161] @ ''nticos: '' @ listed ''ninguno'' types\<rparr>,
             \<lparr>fa_name = ''geographic_spread'', fa_score = Some s5,
               fa_description = show_fixed 1 spread @ ''km dispersi'' @ utf8 [195, 179] @ ''n geogr'' @ utf8 [195, 161] @ ''fica''\<rparr>],
            s1 * 3 + s2 * 3 + s3 + s4 + s5)))))))"

definition decision_reasoning :: "c2g_settings \<Rightarrow> c2g_factor list \<Rightarrow> real \<Rightarrow> bool \<Rightarrow> string" where
  "decision_reasoning st factors score use =
     (let high = map fa_description (filter (\<lambda>f. (case fa_score f of None \<Rightarrow> 0 | Some s \<Rightarrow> s) \<ge> 1) factors);
          threshold = show_float (CITY2GRAPH_COMPLEXITY_THRESHOLD st)
      in join_with ''. ''
        ((if high = [] then [] else [''Factores de complejidad: '' @ join_with ''; '' high]) @
         [if use then ''Score '' @ show_fixed 1 score @ '' '' @ utf8 [226, 137, 165] @ '' '' @ threshold @ '' '' @ utf8 [226, 134, 146] @
            '' City2Graph recomendado para an'' @ utf8 [195, 161] @ ''lisis profundo''
          else ''Score '' @ show_fixed 1 score @ '' < '' @ threshold @ '' '' @ utf8 [226, 134, 146] @ '' Sistema cl'' @
            utf8 [195, 161] @ ''sico '' @ utf8 [195, 179] @ ''ptimo (r'' @ utf8 [195, 161] @ ''pido y confiable)'']))"

record c2g_decision =
  cd_use_city2graph :: bool
  cd_complexity_score :: real
  cd_factors :: "c2g_factor list"
  cd_reasoning :: string

definition should_use_city2graph ::
  "ot_world \<Rightarrow> (place_ref \<Rightarrow> string option) \<Rightarrow> c2g_settings \<Rightarrow> ot_request \<Rightarrow> c2g_decision res" where
  "should_use_city2graph w extract_city st rq =
     (if \<not> ENABLE_CITY2GRAPH st then
        Inr \<lparr>cd_use_city2graph = False, cd_complexity_score = 0, cd_factors = [], cd_reasoning = ''city2graph_disabled''\<rparr>
      else
        let cities = detect_multiple_cities (ow_dbscan w) extract_city (rq_places rq);
            enabled = city_list (CITY2GRAPH_CITIES st)
        in rbind (complexity_factors w extract_city st rq cities) (\<lambda>(factors, score).
           let use = (score \<ge> CITY2GRAPH_COMPLEXITY_THRESHOLD st);
               restricted = (use \<and> enabled \<noteq> [] \<and> filter (\<lambda>c. lower c \<in> set enabled) cities = []);
               factors' = factors @ (if restricted then
                  [\<lparr>fa_name = ''city_restriction'', fa_score = None,
                    fa_description = ''Ciudades detectadas no est'' @ utf8 [195, 161] @ ''n en lista habilitada''\<rparr>] else [])
           in Inr \<lparr>cd_use_city2graph = (use \<and> \<not> restricted), cd_complexity_score = py_round 2 score, cd_factors = factors',
                   cd_reasoning = decision_reasoning st factors' score (use \<and> \<not> restricted)\<rparr>))"

subsection \<open>Lemmas\<close>

lemma lower_append [simp]: "lower (s @ t) = lower s @ lower t"
  by (simp add: lower_def)

lemma weigh_cases:
  "snd (weigh ot c) \<le> 1 \<and> 0 \<le> snd (weigh ot c) \<and>
   (5/10 \<le> snd (weigh ot c) \<longleftrightarrow> min 3 (ORTOOLS_MIN_PLACES ot) \<le> int (co_places_count c))"
  by (auto simp: weigh_def Let_def)

lemma default_city_list:
  "city_list (ORTOOLS_CITIES default_ot_settings) =
     [''santiago'', ''valparaiso'', ''antofagasta'', ''la_serena'', ''concepcion'', ''temuco'', ''iquique'', ''calama'']"
  by code_simp

lemma detected_city_not_default:
  assumes "\<not> truthy (first_city places)" "places \<noteq> []" "\<And>e m xs. \<exists>ls. dbscan e m xs = Inr ls"
  shows "\<exists>s. detect_city dbscan places = Inr (VStr s) \<and> s \<noteq> [] \<and> lower s \<notin> set (city_list (ORTOOLS_CITIES default_ot_settings))"
proof -
  obtain ls where "dbscan (100 / 6371) 1 (map snd (concat (map located places))) = Inr ls" using assms(3) by blast
  then have "\<exists>cs. detect_geographic_clusters dbscan places = Inr cs" by (simp add: detect_geographic_clusters_def Let_def)
  then obtain cs where cs: "detect_geographic_clusters dbscan places = Inr cs" ..
  show ?thesis
  proof (cases cs)
    case Nil
    with cs assms show ?thesis by (simp add: detect_city_def default_city_list lower_def lower_char_def)
  next
    case (Cons c cs')
    with cs assms show ?thesis
      by (cases cs') (simp_all add: detect_city_def default_city_list lower_def lower_char_def)
  qed
qed

lemma geo_not_eligible:
  assumes "ORTOOLS_CITIES ot = ORTOOLS_CITIES default_ot_settings" "\<not> truthy (first_city places)" "places \<noteq> []" "\<And>e m xs. \<exists>ls. dbscan e m xs = Inr ls"
  shows "check_geo_eligibility dbscan ot places = Inr False"
proof -
  obtain s where s: "detect_city dbscan places = Inr (VStr s)" "s \<noteq> []" "lower s \<notin> set (city_list (ORTOOLS_CITIES default_ot_settings))"
    using detected_city_not_default [of places dbscan, OF assms(2,3)] assms(4) by blast
  have "ORTOOLS_CITIES default_ot_settings \<noteq> []" "city_list (ORTOOLS_CITIES default_ot_settings) \<noteq> []" by (simp_all add: default_city_list) (simp add: default_ot_settings_def)
  with s assms(1) show ?thesis by (simp add: check_geo_eligibility_def Let_def)
qed

lemma decide_afresh_geo:
  assumes "check_geo_eligibility (ow_dbscan w) ot (rq_places rq) = Inr False" "decide_afresh w ot now health rq en = (Inr (c, r), en')"
  shows "\<not> de_use_ortools r"
proof -
  from assms(2) obtain ff ga healthy where f: "check_feature_flags (ow_dbscan w) (ow_user_hash w) ot rq = Inr ff"
    "r = make_decision ot c healthy ff ga"
    by (auto simp: decide_afresh_def rbind_eq_Inr_iff split: sum.splits prod.splits)
  from f(1) assms(1) have "\<not> ff_enabled ff \<or> \<not> ff_geo_eligible ff"
    by (auto simp: check_feature_flags_def split: if_splits)
  with f(2) show ?thesis by (auto simp: make_decision_def)
qed

lemma track_decision_fields [simp]: "en_cache (track_decision d c ms en) = en_cache en"
  by (simp add: track_decision_def Let_def)

lemma track_decision_length: "length (en_history en) \<le> 1000 \<Longrightarrow> length (en_history (track_decision d c ms en)) \<le> 1000"
  by (simp add: track_decision_def Let_def)

lemma decide_afresh_keeps:
  "decide_afresh w ot now health rq en = (r, en') \<Longrightarrow> en_cache en' = en_cache en \<and> en_history en' = en_history en"
  by (auto simp: decide_afresh_def check_ortools_health_def Let_def split: sum.splits if_splits)

lemma cached_decision:
  "map_of (en_cache en) (generate_cache_key (ow_str w) ot rq) = Some (r, t) \<Longrightarrow> now - t < cache_ttl \<Longrightarrow>
   should_use_ortools w ot now d health rq en = (r, en)"
  by (simp add: should_use_ortools_def Let_def)

definition engine_ok :: "engine \<Rightarrow> bool" where
  "engine_ok en \<longleftrightarrow> length (en_history en) \<le> 1000 \<and> is_dict (en_cache en)"

lemma should_use_ortools_ok:
  assumes "engine_ok en" "should_use_ortools w ot now d health rq en = (r, en')"
  shows "engine_ok en'"
proof -
  obtain x en1 where x: "decide_afresh w ot now health rq en = (x, en1)" by fastforce
  from decide_afresh_keeps [OF x] assms(1) have "length (en_history en1) \<le> 1000" "is_dict (en_cache en1)"
    by (simp_all add: engine_ok_def)
  with assms x show ?thesis
    by (auto simp: should_use_ortools_def engine_ok_def Let_def track_decision_length
        split: option.splits sum.splits if_splits prod.splits)
qed

lemma capped_sum_mono:
  "a \<le> a' \<Longrightarrow> b \<le> b' \<Longrightarrow> c \<le> c' \<Longrightarrow> d \<le> d' \<Longrightarrow> e \<le> e' \<Longrightarrow>
   min (a + b + c + d + e + t) (10 :: real) \<le> min (a' + b' + c' + d' + e' + t) 10"
  by linarith

lemma overall_complexity_mono:
  assumes "places \<le> places'" "days \<le> days'" "spread \<le> spread'" "diversity \<le> diversity'" "constraints \<le> constraints'"
  shows "overall_complexity places days spread diversity constraints t \<le> overall_complexity places' days' spread' diversity' constraints' t"
proof -
  have v: "min (real diversity * (3/10)) (15/10) \<le> min (real diversity' * (3/10)) (15/10)"
    and k: "min (real constraints * (2/10)) 1 \<le> min (real constraints' * (2/10)) 1"
    using assms(4,5) by linarith+
  have p: "(if places \<ge> 10 then 3 else if places \<ge> 6 then 2 else if places \<ge> 3 then 1 else 0) \<le>
      ((if places' \<ge> 10 then 3 else if places' \<ge> 6 then 2 else if places' \<ge> 3 then 1 else 0) :: real)"
    using assms(1) by auto
  have d: "(if days \<ge> 5 then 2 else if days \<ge> 3 then 1 else if days \<ge> 2 then 1/2 else 0) \<le>
      ((if days' \<ge> 5 then 2 else if days' \<ge> 3 then 1 else if days' \<ge> 2 then 1/2 else 0) :: real)"
    using assms(2) by auto
  have s: "(if spread \<ge> 100 then 2 else if spread \<ge> 50 then 15/10 else if spread \<ge> 20 then 1
           else if spread \<ge> 5 then 1/2 else 0) \<le>
      ((if spread' \<ge> 100 then 2 else if spread' \<ge> 50 then 15/10 else if spread' \<ge> 20 then 1
           else if spread' \<ge> 5 then 1/2 else 0) :: real)"
    using assms(3) by auto
  show ?thesis unfolding overall_complexity_def
    by (rule capped_sum_mono [OF p d s v k])
qed

lemma overall_complexity_nonneg: "0 \<le> overall_complexity places days spread diversity constraints t"
  unfolding overall_complexity_def by (intro min.boundedI add_nonneg_nonneg) (auto simp: transport_weight_def)

lemma overall_complexity_le: "overall_complexity places days spread diversity constraints t \<le> 10"
  unfolding overall_complexity_def by (rule min.cobounded2)

lemma ratio_score_bounds: "ratio_score v t c = Inr s \<Longrightarrow> 0 \<le> v \<Longrightarrow> 0 < t \<Longrightarrow> 0 \<le> c \<Longrightarrow> 0 \<le> s \<and> s \<le> c"
  by (auto simp: ratio_score_def split: if_splits)

lemma c2g_spread_nonneg: "c2g_geographic_spread ps = Inr m \<Longrightarrow> 0 \<le> m"
  using pairs_max_bound by (fastforce simp: c2g_geographic_spread_def split: if_splits)

lemma factors_score:
  assumes "complexity_factors w extract_city st rq cities = Inr (fs, s)"
    and "0 < CITY2GRAPH_MIN_PLACES st" "0 < CITY2GRAPH_MIN_DAYS st" "0 < CITY2GRAPH_SEMANTIC_TYPES_THRESHOLD st"
    and "0 < CITY2GRAPH_GEO_SPREAD_THRESHOLD_KM st" "\<forall>d. rq_days rq = Some d \<longrightarrow> 0 \<le> d"
  shows "0 \<le> s \<and> s \<le> 16"
proof -
  from assms(1) obtain s1 s2 s4 m s5 where r:
    "ratio_score (real (length (rq_places rq))) (real_of_int (CITY2GRAPH_MIN_PLACES st)) 2 = Inr s1"
    "ratio_score (real_of_int ((case rq_days rq of None \<Rightarrow> 0 | Some d \<Rightarrow> d) + 1)) (real_of_int (CITY2GRAPH_MIN_DAYS st)) 2 = Inr s2"
    "ratio_score (real (length (count_semantic_place_types (ow_str w) (rq_places rq)))) (real_of_int (CITY2GRAPH_SEMANTIC_TYPES_THRESHOLD st)) 1 = Inr s4"
    "c2g_geographic_spread (rq_places rq) = Inr m" "ratio_score m (CITY2GRAPH_GEO_SPREAD_THRESHOLD_KM st) 1 = Inr s5"
    "s = s1 * 3 + s2 * 3 + (if length cities > 1 then 2 else 0) + s4 + s5"
    unfolding complexity_factors_def Let_def by (auto simp: rbind_eq_Inr_iff)
  have d: "0 \<le> real_of_int ((case rq_days rq of None \<Rightarrow> 0 | Some d \<Rightarrow> d) + 1)"
    using assms(6) by (cases "rq_days rq") auto
  have "0 \<le> s1 \<and> s1 \<le> 2" using ratio_score_bounds [OF r(1)] assms(2) by simp
  moreover have "0 \<le> s2 \<and> s2 \<le> 2" using ratio_score_bounds [OF r(2) d] assms(3) by simp
  moreover have "0 \<le> s4 \<and> s4 \<le> 1" using ratio_score_bounds [OF r(3)] assms(4) by simp
  moreover have "0 \<le> s5 \<and> s5 \<le> 1" using ratio_score_bounds [OF r(5) c2g_spread_nonneg [OF r(4)]] assms(5) by simp
  ultimately show ?thesis unfolding r(6) by auto
qed

lemma generated_city_names:
  assumes "dbscan (100 / 6371) 1 (map snd (concat (map located places))) = Inr ls" "c \<in> set (detect_multiple_cities dbscan f places)"
  shows "take 5 (lower c) = ''city_'' \<or> take 8 (lower c) = ''cluster_''"
proof -
  have "\<exists>cs. detect_geographic_clusters dbscan places = Inr cs" using assms(1) by (simp add: detect_geographic_clusters_def Let_def)
  then obtain cs where cs: "detect_geographic_clusters dbscan places = Inr cs" ..
  show ?thesis
  proof (cases cs)
    case Nil
    with cs assms(2) show ?thesis by (simp add: detect_multiple_cities_def)
  next
    case (Cons x xs)
    show ?thesis
    proof (cases xs)
      case Nil
      with Cons cs assms(2) have "c = ''cluster_'' @ (show_fixed 1 (gc_lat x) @ ''_'' @ show_fixed 1 (gc_lon x))"
        unfolding detect_multiple_cities_def by simp
      then show ?thesis by (simp add: lower_def lower_char_def)
    next
      case (Cons y ys)
      with \<open>cs = x # xs\<close> cs assms(2) have "c \<in> (\<lambda>(i, g). ''city_'' @ show_nat (i + 1) @ ''_'' @ show_nat (gc_count g) @ ''_places'') ` set (enumerate 0 cs)"
        unfolding detect_multiple_cities_def by (simp add: image_iff)
      then show ?thesis by (auto simp: lower_def lower_char_def)
    qed
  qed
qed

subsection \<open>Properties\<close>

text \<open>
  C24: the decision uses OR-Tools exactly when the flags, the health of the service and the geography
  allow it and there are enough places, and then with a confidence of at least one half.
\<close>

theorem decision_exact:
  "(de_use_ortools (make_decision ot c healthy ff ga) \<longleftrightarrow>
     ff_enabled ff \<and> ff_user_eligible ff \<and> ff_geo_eligible ff \<and> healthy \<and> ga_appropriate ga \<noteq> Some False \<and>
     min 3 (ORTOOLS_MIN_PLACES ot) \<le> int (co_places_count c)) \<and>
   (de_use_ortools (make_decision ot c healthy ff ga) \<longleftrightarrow> 1/2 \<le> de_confidence (make_decision ot c healthy ff ga)) \<and>
   0 \<le> de_confidence (make_decision ot c healthy ff ga) \<and> de_confidence (make_decision ot c healthy ff ga) \<le> 1"
proof -
  obtain rs conf where w: "weigh ot c = (rs, conf)" by fastforce
  with weigh_cases [of ot c] have "conf \<le> 1" "0 \<le> conf"
    "5/10 \<le> conf \<longleftrightarrow> min 3 (ORTOOLS_MIN_PLACES ot) \<le> int (co_places_count c)" by simp_all
  with w show ?thesis by (auto simp: make_decision_def Let_def)
qed

text \<open>
  the complexity lies between 0 and 10 and grows with the number of places, the days, the spread,
  the kinds of places and the constraints.
\<close>

theorem complexity_monotone:
  assumes "places \<le> places'" "days \<le> days'" "spread \<le> spread'" "diversity \<le> diversity'" "constraints \<le> constraints'"
  shows "0 \<le> overall_complexity places days spread diversity constraints t \<and>
    overall_complexity places days spread diversity constraints t \<le> overall_complexity places' days' spread' diversity' constraints' t \<and>
    overall_complexity places' days' spread' diversity' constraints' t \<le> 10"
  using overall_complexity_mono [OF assms] overall_complexity_nonneg overall_complexity_le by blast

theorem complexity_monotone_witness:
  "overall_complexity 3 1 0 1 0 ''medium'' \<le> overall_complexity 12 7 150 6 5 ''medium''"
  using complexity_monotone [of 3 12 1 7 0 150 1 6 0 5 "''medium''"] by simp

text \<open>
  with the default list of cities a request whose places name no city is never given to OR-Tools by
  a new engine: the name made from the detected clusters is not in the list.
\<close>

theorem unnamed_city_never_ortools:
  assumes "ORTOOLS_CITIES ot = ORTOOLS_CITIES default_ot_settings" "\<not> truthy (first_city (rq_places rq))" "rq_places rq \<noteq> []"
    and "\<And>e m xs. \<exists>ls. ow_dbscan w e m xs = Inr ls"
  shows "\<not> de_use_ortools (fst (should_use_ortools w ot now d health rq new_engine))"
proof -
  note g = geo_not_eligible [of ot "rq_places rq" "ow_dbscan w", OF assms]
  show ?thesis
    using decide_afresh_geo [OF g]
    by (auto simp: should_use_ortools_def new_engine_def decision_error_def Let_def split: sum.splits prod.splits)
qed

definition demo_world :: ot_world where
  "demo_world = \<lparr>ow_dbscan = (\<lambda>e m xs. Inr (map (\<lambda>x. 0) xs)), ow_user_hash = (\<lambda>v. 0), ow_str = (\<lambda>v. ''x''), ow_str_error = (\<lambda>e. ''e'')\<rparr>"

definition demo_flags :: ot_settings where
  "demo_flags = default_ot_settings\<lparr>ENABLE_ORTOOLS := True, ORTOOLS_USER_PERCENTAGE := 100\<rparr>"

definition demo_request :: "pydict \<Rightarrow> ot_request" where
  "demo_request p = \<lparr>rq_data = [], rq_places = replicate 4 (Dct p), rq_days = Some 1\<rparr>"

theorem unnamed_city_never_ortools_witness:
  "\<not> de_use_ortools (fst (should_use_ortools demo_world demo_flags 100 1 (Inr True)
     (demo_request [(''lat'', VFloat (-33)), (''lon'', VFloat (-70))]) new_engine))"
  by (rule unnamed_city_never_ortools) (simp_all add: demo_flags_def demo_request_def demo_world_def numeral_eq_Suc)

text \<open>
  C25: a decision is reused for ten minutes for every request with as many places, the same dates, mode
  and user, wherever the places are and whether or not the service is healthy by then.
\<close>

theorem decision_shared_by_key:
  assumes "decide_afresh w ot now health rq en = (Inr (c, r), en1)" "map_of (en_cache en) (generate_cache_key (ow_str w) ot rq) = None"
    and "generate_cache_key (ow_str w) ot rq' = generate_cache_key (ow_str w) ot rq" "now' < now + d + cache_ttl"
  shows "fst (should_use_ortools w ot now d health rq en) = r \<and>
    should_use_ortools w ot now' d' health' rq' (snd (should_use_ortools w ot now d health rq en)) =
      (r, snd (should_use_ortools w ot now d health rq en))"
proof -
  let ?k = "generate_cache_key (ow_str w) ot rq" and ?s = "should_use_ortools w ot now d health rq en"
  have "fst ?s = r" and c: "map_of (en_cache (snd ?s)) ?k = Some (r, now + d)"
    using assms(1,2) by (simp_all add: should_use_ortools_def Let_def)
  moreover have "should_use_ortools w ot now' d' health' rq' (snd ?s) = (r, snd ?s)"
    by (rule cached_decision [where t = "now + d"]) (use c assms(3,4) in \<open>simp, linarith\<close>)
  ultimately show ?thesis by simp
qed

theorem decision_shared_by_key_witness:
  "\<exists>en. de_use_ortools (fst (should_use_ortools demo_world (demo_flags\<lparr>ORTOOLS_CITIES := []\<rparr>) 100 1 (Inr True) (demo_request []) new_engine)) \<and>
    de_use_ortools (fst (should_use_ortools demo_world (demo_flags\<lparr>ORTOOLS_CITIES := []\<rparr>) 200 1 (Inl TimeoutError)
      (demo_request [(''lat'', VFloat 0), (''lon'', VFloat 200)]) en))"
proof -
  let ?st = "demo_flags\<lparr>ORTOOLS_CITIES := []\<rparr>"
  obtain c where c: "analyze_complexity (demo_request []) = Inr c" "co_places_count c = 4"
    by (simp add: analyze_complexity_def demo_request_def ot_geographic_spread_def semantic_diversity_def
      count_time_constraints_def listed_constraints_def numeral_eq_Suc Let_def)
  obtain ff where ff: "check_feature_flags (ow_dbscan demo_world) (ow_user_hash demo_world) ?st (demo_request []) = Inr ff"
    "ff_enabled ff" "ff_user_eligible ff" "ff_geo_eligible ff"
    by (simp add: check_feature_flags_def check_user_eligibility_def check_geo_eligibility_def demo_flags_def)
  obtain ga where ga: "analyze_geography (ow_dbscan demo_world) ?st (rq_places (demo_request [])) = Inr ga" "ga_appropriate ga = Some True"
    by (simp add: analyze_geography_def demo_request_def ot_geographic_spread_def detect_city_def detect_geographic_clusters_def
      located_def demo_flags_def default_ot_settings_def numeral_eq_Suc Let_def)
  have h: "check_ortools_health 100 (Inr True) new_engine = (True, new_engine\<lparr>en_health_status := Some True, en_last_health_check := 100\<rparr>)"
    by (simp add: check_ortools_health_def new_engine_def)
  let ?r = "make_decision ?st c True ff ga"
  have d: "decide_afresh demo_world ?st 100 (Inr True) (demo_request []) new_engine =
      (Inr (c, ?r), new_engine\<lparr>en_health_status := Some True, en_last_health_check := 100\<rparr>)"
    by (simp add: decide_afresh_def c ff(1) ga(1) h)
  have "de_use_ortools ?r" using decision_exact [of ?st c True ff ga] c ff ga by simp
  moreover have "fst (should_use_ortools demo_world ?st 100 1 (Inr True) (demo_request []) new_engine) = ?r \<and>
      should_use_ortools demo_world ?st 200 1 (Inl TimeoutError) (demo_request [(''lat'', VFloat 0), (''lon'', VFloat 200)])
        (snd (should_use_ortools demo_world ?st 100 1 (Inr True) (demo_request []) new_engine)) =
      (?r, snd (should_use_ortools demo_world ?st 100 1 (Inr True) (demo_request []) new_engine))"
    by (rule decision_shared_by_key [OF d]) (simp_all add: new_engine_def generate_cache_key_def demo_request_def cache_ttl_def)
  ultimately show ?thesis by (metis fst_conv)
qed

text \<open>
  whatever the sequence of requests, clocks and answers of the service, the history of decisions
  never exceeds a thousand entries and the cache has one entry per key.
\<close>

theorem engine_stays_bounded:
  "engine_ok (fold (\<lambda>(now, d, health, rq) en. snd (should_use_ortools w ot now d health rq en)) requests new_engine)"
proof -
  have "engine_ok en \<Longrightarrow> engine_ok (fold (\<lambda>(now, d, health, rq) en. snd (should_use_ortools w ot now d health rq en)) requests en)" for en
    by (induction requests arbitrary: en) (auto intro: should_use_ortools_ok prod.collapse [symmetric])
  then show ?thesis by (simp add: engine_ok_def new_engine_def)
qed

text \<open>
  the rollout only grows: a user who is eligible at one percentage is eligible at every greater
  one, nobody is at zero and everybody at a hundred.
\<close>

theorem rollout_grows:
  "(check_user_eligibility user_hash (ot\<lparr>ORTOOLS_USER_PERCENTAGE := p\<rparr>) request \<longrightarrow> p \<le> q \<longrightarrow>
     check_user_eligibility user_hash (ot\<lparr>ORTOOLS_USER_PERCENTAGE := q\<rparr>) request) \<and>
   \<not> check_user_eligibility user_hash (ot\<lparr>ORTOOLS_USER_PERCENTAGE := 0\<rparr>) request \<and>
   check_user_eligibility user_hash (ot\<lparr>ORTOOLS_USER_PERCENTAGE := 100\<rparr>) request"
  by (auto simp: check_user_eligibility_def)

text \<open>
  with positive thresholds the score of the City2Graph decision lies between 0 and 16, not 10, and
  16 is reached.
\<close>

theorem c2g_score_range:
  assumes "complexity_factors w extract_city st rq cities = Inr (fs, s)"
    and "0 < CITY2GRAPH_MIN_PLACES st" "0 < CITY2GRAPH_MIN_DAYS st" "0 < CITY2GRAPH_SEMANTIC_TYPES_THRESHOLD st"
    and "0 < CITY2GRAPH_GEO_SPREAD_THRESHOLD_KM st" "\<forall>d. rq_days rq = Some d \<longrightarrow> 0 \<le> d"
  shows "0 \<le> s \<and> s \<le> 16"
  by (rule factors_score [OF assms])

theorem c2g_score_range_witness:
  "\<exists>fs s. complexity_factors (demo_world\<lparr>ow_str := \<lambda>v. ''park''\<rparr>) (\<lambda>p. None)
     (default_c2g_settings\<lparr>CITY2GRAPH_MIN_PLACES := 1, CITY2GRAPH_MIN_DAYS := 1, CITY2GRAPH_SEMANTIC_TYPES_THRESHOLD := 1\<rparr>)
     \<lparr>rq_data = [], rq_places = [Dct [(''type'', VStr ''park''), (''lat'', VFloat 0), (''lon'', VFloat 0)],
        Dct [(''type'', VStr ''park''), (''lat'', VFloat 90), (''lon'', VFloat 0)]], rq_days = Some 1\<rparr> [''a'', ''b''] = Inr (fs, s) \<and>
     s = 16 \<and> 0 \<le> s \<and> s \<le> 16"
proof -
  let ?st = "default_c2g_settings\<lparr>CITY2GRAPH_MIN_PLACES := 1, CITY2GRAPH_MIN_DAYS := 1, CITY2GRAPH_SEMANTIC_TYPES_THRESHOLD := 1\<rparr>"
  let ?ps = "[Dct [(''type'', VStr ''park''), (''lat'', VFloat 0), (''lon'', VFloat 0)],
        Dct [(''type'', VStr ''park''), (''lat'', VFloat 90), (''lon'', VFloat 0)]]"
  let ?rq = "\<lparr>rq_data = [], rq_places = ?ps, rq_days = Some 1\<rparr>"
  let ?w = "demo_world\<lparr>ow_str := \<lambda>v. ''park''\<rparr>"
  have km: "50 \<le> EARTH_RADIUS_KM * pi / 2" using pi_ge_two by (simp add: EARTH_RADIUS_KM_def)
  have c: "List.map_filter spread_coord ?ps = [(0, 0), (90, 0)]" by (simp add: spread_coord_def spread_point_def List.map_filter_simps)
  have g: "c2g_geographic_spread ?ps = Inr (EARTH_RADIUS_KM * pi / 2)"
    using km unfolding c2g_geographic_spread_def c by (simp add: pole_distance)
  have t: "length (count_semantic_place_types (\<lambda>v. ''park'') ?ps) = 1"
    by (simp add: count_semantic_place_types_def semantic_type_of_def c2g_semantic_types_def lower_def lower_char_def)
  obtain fs s where r: "complexity_factors ?w (\<lambda>p. None) ?st ?rq [''a'', ''b''] = Inr (fs, s)" "s = 16"
    using km by (simp add: complexity_factors_def ratio_score_def g t default_c2g_settings_def Let_def min_def)
  from c2g_score_range [OF r(1)] r show ?thesis by (simp add: default_c2g_settings_def)
qed

text \<open>
  a list of enabled cities turns City2Graph off altogether, unless it names a generated cluster:
  the detected cities are always called after their number or their position.
\<close>

theorem c2g_cities_disable:
  assumes "should_use_city2graph w extract_city st rq = Inr d" "city_list (CITY2GRAPH_CITIES st) \<noteq> []"
    and "\<forall>c \<in> set (city_list (CITY2GRAPH_CITIES st)). take 5 c \<noteq> ''city_'' \<and> take 8 c \<noteq> ''cluster_''"
    and "\<And>e m xs. \<exists>ls. ow_dbscan w e m xs = Inr ls"
  shows "\<not> cd_use_city2graph d"
proof -
  let ?cities = "detect_multiple_cities (ow_dbscan w) extract_city (rq_places rq)"
  obtain ls where ls: "ow_dbscan w (100 / 6371) 1 (map snd (concat (map located (rq_places rq)))) = Inr ls" using assms(4) by blast
  have "lower c \<notin> set (city_list (CITY2GRAPH_CITIES st))" if "c \<in> set ?cities" for c
    using generated_city_names [of "ow_dbscan w", OF ls that] assms(3) by blast
  then have f: "filter (\<lambda>c. lower c \<in> set (city_list (CITY2GRAPH_CITIES st))) ?cities = []"
    by (simp add: filter_empty_conv)
  show ?thesis
  proof (cases "ENABLE_CITY2GRAPH st")
    case True
    with assms(1) obtain factors score where "d = \<lparr>cd_use_city2graph = False, cd_complexity_score = py_round 2 score, cd_factors = cd_factors d,
        cd_reasoning = cd_reasoning d\<rparr>"
      unfolding should_use_city2graph_def Let_def f by (auto simp: rbind_eq_Inr_iff assms(2))
    then show ?thesis by (metis c2g_decision.select_convs(1))
  next
    case False
    with assms(1) show ?thesis by (auto simp: should_use_city2graph_def)
  qed
qed

theorem c2g_cities_disable_witness:
  "\<exists>d. should_use_city2graph demo_world (\<lambda>p. None) (default_c2g_settings\<lparr>ENABLE_CITY2GRAPH := True,
      CITY2GRAPH_CITIES := ''santiago'', CITY2GRAPH_COMPLEXITY_THRESHOLD := 0\<rparr>) (demo_request []) = Inr d \<and> \<not> cd_use_city2graph d"
proof -
  let ?st = "default_c2g_settings\<lparr>ENABLE_CITY2GRAPH := True, CITY2GRAPH_CITIES := ''santiago'', CITY2GRAPH_COMPLEXITY_THRESHOLD := 0\<rparr>"
  have l: "city_list ''santiago'' = [''santiago'']"
    by (simp add: city_list_def strip_def is_space_def lower_def lower_char_def)
  have n: "List.map_filter spread_coord (replicate 4 (Dct [])) = []"
    by (simp add: numeral_eq_Suc spread_coord_def spread_point_def List.map_filter_simps)
  obtain d where d: "should_use_city2graph demo_world (\<lambda>p. None) ?st (demo_request []) = Inr d"
    by (simp add: should_use_city2graph_def complexity_factors_def ratio_score_def demo_request_def default_c2g_settings_def
      c2g_geographic_spread_def n Let_def)
  from c2g_cities_disable [OF d] have "\<not> cd_use_city2graph d"
    by (simp add: l demo_world_def)
  with d show ?thesis by blast
qed

end
