(* ===== verification/InterCity.thy ===== *)
theory InterCity
  imports Clusters
begin

section \<open>Cities and the routes between them\<close>

text \<open>
  src/services/intercity\_service.py (\<open>City\<close>, \<open>InterCityService\<close>) and the feasibility analysis of
  src/api.py (\<open>analyze_multi_city_feasibility\<close>).  The geodesic distance of geopy, the H3 cell of a point
  and the answers of the OSRM server are parameters.  Names are values of the place dictionaries.
\<close>

subsection \<open>Cities\<close>

record city =
  ci_name :: pyval
  ci_lat :: real
  ci_lon :: real
  ci_country :: pyval
  ci_pois :: "pydict list"

definition coordinates :: "city \<Rightarrow> coord" where
  "coordinates c = (ci_lat c, ci_lon c)"

definition distance_to :: "(coord \<Rightarrow> coord \<Rightarrow> real) \<Rightarrow> city \<Rightarrow> city \<Rightarrow> real" where
  "distance_to geodesic c d = geodesic (coordinates c) (coordinates d)"

record intercity_route =
  ir_origin :: city
  ir_destination :: city
  ir_distance_km :: real
  ir_travel_time_hours :: real

definition is_long_distance :: "intercity_route \<Rightarrow> bool" where
  "is_long_distance r \<longleftrightarrow> ir_travel_time_hours r > 8"

definition requires_overnight :: "intercity_route \<Rightarrow> bool" where
  "requires_overnight r \<longleftrightarrow> ir_travel_time_hours r > 10"

subsection \<open>Names\<close>

text \<open>\<open>Counter(xs).most_common(1)[0][0]\<close>: the first of the most frequent elements.\<close>

definition most_common :: "'a list \<Rightarrow> 'a" where
  "most_common xs = (let n = Max ((count_list xs) ` set xs) in hd (filter (\<lambda>x. count_list xs x = n) xs))"

definition count_most_common :: "pyval list \<Rightarrow> pyval res" where
  "count_most_common xs = (if \<forall>x \<in> set xs. hashable x then Inr (most_common xs) else Inl TypeError)"

definition field_of_address :: "pydict \<Rightarrow> string \<Rightarrow> pyval option" where
  "field_of_address poi k = (case map_of poi ''address'' of Some (VDict a) \<Rightarrow> map_of a k | _ \<Rightarrow> None)"

definition poi_field :: "string \<Rightarrow> pydict \<Rightarrow> pyval option" where
  "poi_field k poi = (case map_of poi k of Some v \<Rightarrow> Some v | None \<Rightarrow> field_of_address poi k)"

definition determine_city_name :: "pydict list \<Rightarrow> pyval res" where
  "determine_city_name pois =
     (let names = List.map_filter (poi_field ''city'') pois
      in if names \<noteq> [] then count_most_common names
         else (case pois of [] \<Rightarrow> Inl IndexError | p # _ \<Rightarrow> Inr (dget p ''name'' (VStr ''Unknown City''))))"

definition determine_country :: "pydict list \<Rightarrow> pyval res" where
  "determine_country pois =
     (case List.map_filter (poi_field ''country'') pois of
        c # _ \<Rightarrow> Inr c
      | [] \<Rightarrow>
          (case pois of
             [] \<Rightarrow> Inl IndexError
           | p # _ \<Rightarrow> rbind (pnum p ''lat'') (\<lambda>lat.
               Inr (VStr (if - 56 \<le> lat \<and> lat \<le> - 17 then ''Chile''
                          else if 41 \<le> lat \<and> lat \<le> 51 then ''Europe'' else ''Unknown'')))))"

subsection \<open>Clustering\<close>

text \<open>The state of the service: the cities and routes it has seen, by name.\<close>

record intercity_service =
  is_cities :: "(pyval, city) dict"
  is_routes :: "(pyval \<times> pyval, intercity_route) dict"

definition mean_coord :: "pydict list \<Rightarrow> coord res" where
  "mean_coord pois =
     rbind (rmap_list (\<lambda>p. pnum p ''lat'') pois) (\<lambda>lats. rbind (rmap_list (\<lambda>p. pnum p ''lon'') pois) (\<lambda>lons.
     if pois = [] then Inl ZeroDivisionError
     else Inr (sum_list lats / real (length lats), sum_list lons / real (length lons))))"

definition city_of_pois :: "pydict list \<Rightarrow> city res" where
  "city_of_pois pois =
     rbind (mean_coord pois) (\<lambda>(lat, lon). rbind (determine_city_name pois) (\<lambda>n. rbind (determine_country pois) (\<lambda>c.
     Inr \<lparr>ci_name = n, ci_lat = lat, ci_lon = lon, ci_country = c, ci_pois = pois\<rparr>)))"

fun group_by_cell :: "(coord \<Rightarrow> string res) \<Rightarrow> pydict list \<Rightarrow> (string, pydict list) dict \<Rightarrow> (string, pydict list) dict res" where
  "group_by_cell h3 [] d = Inr d"
| "group_by_cell h3 (p # ps) d =
     rbind (pnum p ''lat'') (\<lambda>lat. rbind (pnum p ''lon'') (\<lambda>lon. rbind (h3 (lat, lon)) (\<lambda>cell.
     group_by_cell h3 ps (add_to cell p d))))"

definition cluster_pois_by_cities ::
  "(coord \<Rightarrow> string res) \<Rightarrow> pydict list \<Rightarrow> intercity_service \<Rightarrow> (city list \<times> intercity_service) res" where
  "cluster_pois_by_cities h3 pois s =
     (if pois = [] then Inr ([], s)
      else
        rbind (rmap_list ploc pois) (\<lambda>coordinates.
        rbind (group_by_cell h3 pois []) (\<lambda>groups.
        rbind (rmap_list (\<lambda>(cell, ps). city_of_pois ps) groups) (\<lambda>cities.
        Inr (cities, s\<lparr>is_cities := fold (\<lambda>c. dset (ci_name c) c) cities (is_cities s)\<rparr>)))))"

subsection \<open>Routes\<close>

definition max_intercity_distance_km :: real where
  "max_intercity_distance_km = 2000"

text \<open>One pair: the route to append, if any, and the service.\<close>

definition route_pair ::
  "(coord \<Rightarrow> coord \<Rightarrow> real) \<Rightarrow> (coord \<Rightarrow> coord \<Rightarrow> pydict option res) \<Rightarrow> city \<Rightarrow> city \<Rightarrow> intercity_service \<Rightarrow>
   (intercity_route list \<times> intercity_service) res" where
  "route_pair geodesic osrm origin dest s =
     (case map_of (is_routes s) (ci_name origin, ci_name dest) of
        Some r \<Rightarrow> Inr ([r], s)
      | None \<Rightarrow>
          if distance_to geodesic origin dest > max_intercity_distance_km then Inr ([], s)
          else
            rbind (osrm (coordinates origin) (coordinates dest)) (\<lambda>answer.
            let data = (case answer of None \<Rightarrow> [] | Some d \<Rightarrow> d)
            in if data = [] then Inr ([], s)
               else
                 rbind (pnum data ''distance_m'') (\<lambda>m. rbind (pnum data ''duration_s'') (\<lambda>t.
                 let r = \<lparr>ir_origin = origin, ir_destination = dest, ir_distance_km = m / 1000, ir_travel_time_hours = t / 3600\<rparr>
                 in Inr ([r], s\<lparr>is_routes := dset (ci_name origin, ci_name dest) r (is_routes s)\<rparr>)))))"

fun route_pairs ::
  "(coord \<Rightarrow> coord \<Rightarrow> real) \<Rightarrow> (coord \<Rightarrow> coord \<Rightarrow> pydict option res) \<Rightarrow> (city \<times> city) list \<Rightarrow> intercity_service \<Rightarrow>
   (intercity_route list \<times> intercity_service) res" where
  "route_pairs geodesic osrm [] s = Inr ([], s)"
| "route_pairs geodesic osrm ((a, b) # ps) s =
     rbind (route_pair geodesic osrm a b s) (\<lambda>(r, s1).
     rbind (route_pairs geodesic osrm ps s1) (\<lambda>(rs, s2). Inr (r @ rs, s2)))"

definition ordered_pairs :: "'a list \<Rightarrow> ('a \<times> 'a) list" where
  "ordered_pairs xs =
     map (\<lambda>(i, j). (xs ! i, xs ! j)) (filter (\<lambda>(i, j). i \<noteq> j) (List.product [0..<length xs] [0..<length xs]))"

definition calculate_intercity_routes ::
  "(coord \<Rightarrow> coord \<Rightarrow> real) \<Rightarrow> (coord \<Rightarrow> coord \<Rightarrow> pydict option res) \<Rightarrow> city list \<Rightarrow> intercity_service \<Rightarrow>
   (intercity_route list \<times> intercity_service) res" where
  "calculate_intercity_routes geodesic osrm cities s = route_pairs geodesic osrm (ordered_pairs cities) s"

subsection \<open>The order of the cities\<close>

text \<open>The first of the nearest cities.\<close>

fun nearest :: "(city \<Rightarrow> real) \<Rightarrow> city \<Rightarrow> city list \<Rightarrow> city" where
  "nearest d best [] = best"
| "nearest d best (c # cs) = nearest d (if d c < d best then c else best) cs"

fun greedy_sequence :: "(coord \<Rightarrow> coord \<Rightarrow> real) \<Rightarrow> nat \<Rightarrow> city \<Rightarrow> city list \<Rightarrow> city list" where
  "greedy_sequence geodesic 0 current remaining = []"
| "greedy_sequence geodesic (Suc n) current remaining =
     (case remaining of
        [] \<Rightarrow> []
      | c # cs \<Rightarrow>
          (let next = nearest (distance_to geodesic current) c cs
           in next # greedy_sequence geodesic n next (remove1 next remaining)))"

definition first_named :: "pyval option \<Rightarrow> city list \<Rightarrow> city" where
  "first_named start_city cities =
     (case start_city of
        Some n \<Rightarrow> (if truthy n then (case List.find (\<lambda>c. ci_name c = n) cities of Some c \<Rightarrow> c | None \<Rightarrow> hd cities) else hd cities)
      | None \<Rightarrow> hd cities)"

text \<open>The cities that bear the name of the first one are left out of the rest.\<close>

definition find_optimal_city_sequence :: "(coord \<Rightarrow> coord \<Rightarrow> real) \<Rightarrow> city list \<Rightarrow> pyval option \<Rightarrow> city list" where
  "find_optimal_city_sequence geodesic cities start_city =
     (if length cities \<le> 1 then cities
      else
        let first = first_named start_city cities;
            rest = filter (\<lambda>c. ci_name c \<noteq> ci_name first) cities
        in first # greedy_sequence geodesic (length rest) first rest)"

subsection \<open>Complexity\<close>

record trip_analysis =
  ta_complexity :: string
  ta_total_cities :: nat
  ta_total_countries :: "nat option"
  ta_max_distance_km :: real
  ta_avg_distance_km :: real
  ta_requires_intercity :: bool
  ta_requires_accommodation :: bool
  ta_requires_international :: bool
  ta_estimated_days :: "nat option"
  ta_recommendation :: string

fun pair_distances :: "(city \<Rightarrow> city \<Rightarrow> real) \<Rightarrow> city list \<Rightarrow> real list" where
  "pair_distances d [] = []"
| "pair_distances d (c # cs) = map (d c) cs @ pair_distances d cs"

definition estimate_trip_days :: "nat \<Rightarrow> real \<Rightarrow> nat" where
  "estimate_trip_days n max_distance = (if max_distance > 500 then n + 2 else if max_distance > 200 then n + 1 else n)"

definition optimization_recommendation :: "string \<Rightarrow> string" where
  "optimization_recommendation c =
     (if c = ''simple_intercity'' then ''hybrid_with_ortools''
      else if c = ''medium_intercity'' then ''intercity_with_accommodation''
      else if c = ''complex_intercity'' then ''full_multi_city_architecture''
      else if c = ''international_complex'' then ''specialized_international_planning''
      else ''custom_solution_needed'')"

definition analyze_multi_city_complexity :: "(coord \<Rightarrow> coord \<Rightarrow> real) \<Rightarrow> city list \<Rightarrow> trip_analysis" where
  "analyze_multi_city_complexity geodesic cities =
     (if length cities \<le> 1 then
        \<lparr>ta_complexity = ''simple'', ta_total_cities = length cities, ta_total_countries = None, ta_max_distance_km = 0,
         ta_avg_distance_km = 0, ta_requires_intercity = False, ta_requires_accommodation = False,
         ta_requires_international = False, ta_estimated_days = None, ta_recommendation = ''single_city_optimization''\<rparr>
      else
        let ds = pair_distances (distance_to geodesic) cities; mx = Max (set ds); n = length cities;
            complexity = (if n = 2 \<and> mx \<le> 100 then ''simple_intercity''
                          else if n \<le> 3 \<and> mx \<le> 300 then ''medium_intercity''
                          else if n \<le> 5 \<and> mx \<le> 800 then ''complex_intercity''
                          else ''international_complex'');
            countries = card (set (map ci_country cities))
        in \<lparr>ta_complexity = complexity, ta_total_cities = n, ta_total_countries = Some countries, ta_max_distance_km = mx,
            ta_avg_distance_km = sum_list ds / real (length ds), ta_requires_intercity = True,
            ta_requires_accommodation = (mx > 300), ta_requires_international = (countries > 1),
            ta_estimated_days = Some (estimate_trip_days n mx), ta_recommendation = optimization_recommendation complexity\<rparr>)"

subsection \<open>The analysis endpoint\<close>

record feasibility =
  fe_cities :: nat
  fe_countries :: nat
  fe_max_distance_km :: real
  fe_complexity_level :: string
  fe_days :: nat
  fe_recommendation :: string
  fe_score :: real
  fe_warnings :: "string list"

definition complexity_level :: "string \<Rightarrow> string" where
  "complexity_level c =
     (if c = ''simple_intercity'' then ''simple'' else if c = ''medium_intercity'' then ''intercity''
      else if c = ''complex_intercity'' then ''international'' else if c = ''international_complex'' then ''international_complex''
      else ''complex'')"

text \<open>\<open>MultiCityAnalysisResponse\<close>: a score outside of 0 to 1 is a validation error, which the handler turns into an HTTP error.\<close>

definition valid_feasibility :: "feasibility \<Rightarrow> feasibility res" where
  "valid_feasibility f =
     (if 0 \<le> fe_score f \<and> fe_score f \<le> 1 \<and>
         fe_complexity_level f \<in> {''simple'', ''intercity'', ''international'', ''complex'', ''international_complex''}
      then Inr f else Inl (OtherError ''HTTPException 500''))"

definition analyze_multi_city_feasibility :: "(coord \<Rightarrow> coord \<Rightarrow> real) \<Rightarrow> nat \<Rightarrow> city list \<Rightarrow> feasibility res" where
  "analyze_multi_city_feasibility geodesic n_pois cities =
     (let a = analyze_multi_city_complexity geodesic cities;
          countries = (case ta_total_countries a of None \<Rightarrow> 0 | Some k \<Rightarrow> k)
      in valid_feasibility
        \<lparr>fe_cities = ta_total_cities a, fe_countries = (case ta_total_countries a of None \<Rightarrow> 1 | Some k \<Rightarrow> k),
         fe_max_distance_km = ta_max_distance_km a, fe_complexity_level = complexity_level (ta_complexity a),
         fe_days = (case ta_estimated_days a of None \<Rightarrow> 7 | Some k \<Rightarrow> k), fe_recommendation = ta_recommendation a,
         fe_score = min 1 (1 - ta_max_distance_km a / 3000),
         fe_warnings =
           (if ta_max_distance_km a > 1500 then [''Distancias muy largas entre ciudades - considerar vuelos''] else []) @
           (if countries > 3 then [''Viaje multi-pa'' @ map char_of [195, 173 :: nat] @ ''s complejo - requiere planificaci'' @ map char_of [195, 179 :: nat] @ ''n avanzada''] else []) @
           (if n_pois > 20 then [''Muchos POIs - considerar extender duraci'' @ map char_of [195, 179 :: nat] @ ''n del viaje''] else [])\<rparr>)"

subsection \<open>Lemmas\<close>

lemma nearest_mem: "nearest d best cs \<in> set (best # cs)"
  by (induction d best cs rule: nearest.induct) auto

lemma nearest_least: "c \<in> set (best # cs) \<Longrightarrow> d (nearest d best cs) \<le> d c"
proof (induction d best cs arbitrary: c rule: nearest.induct)
  case (2 d best x xs)
  have b: "d (nearest d (if d x < d best then x else best) xs) \<le> d (if d x < d best then x else best)"
    by (rule "2.IH") simp
  from "2.prems" consider "c = best" | "c = x" | "c \<in> set xs" by auto
  then show ?case
  proof cases
    case 3
    then show ?thesis using "2.IH" [of c] by simp
  qed (use b in \<open>auto split: if_splits\<close>)
qed simp

lemma greedy_mset: "length cs = n \<Longrightarrow> mset (greedy_sequence geodesic n cur cs) = mset cs"
proof (induction geodesic n cur cs rule: greedy_sequence.induct)
  case (2 geodesic n cur cs)
  then obtain x xs where cs: "cs = x # xs" by (cases cs) auto
  let ?m = "nearest (distance_to geodesic cur) x xs"
  have m: "?m \<in> set cs" using nearest_mem [of "distance_to geodesic cur" x xs] cs by simp
  have "length (remove1 ?m cs) = n" using m "2.prems" by (simp add: length_remove1)
  from "2.IH" [OF cs refl, folded cs, OF this]
  have "mset (greedy_sequence geodesic (Suc n) cur cs) = add_mset ?m (mset (remove1 ?m cs))"
    by (simp add: cs Let_def del: remove1.simps mset_remove1)
  also have "\<dots> = mset cs" using m by simp
  finally show ?case .
qed simp

definition greedy_order :: "(city \<Rightarrow> city \<Rightarrow> real) \<Rightarrow> city list \<Rightarrow> bool" where
  "greedy_order d cs \<longleftrightarrow> (\<forall>i j. i < j \<and> j < length cs \<longrightarrow> d (cs ! i) (cs ! Suc i) \<le> d (cs ! i) (cs ! j))"

lemma greedy_order_Cons: "greedy_order d (y # ys) \<Longrightarrow> \<forall>z \<in> set ys. d x y \<le> d x z \<Longrightarrow> greedy_order d (x # y # ys)"
  unfolding greedy_order_def by (auto simp: nth_Cons split: nat.splits) (metis less_imp_Suc_add not_less_eq nth_mem)+

lemma greedy_is_greedy: "length cs = n \<Longrightarrow> greedy_order (distance_to geodesic) (cur # greedy_sequence geodesic n cur cs)"
proof (induction geodesic n cur cs rule: greedy_sequence.induct)
  case (1 geodesic cur cs)
  then show ?case by (simp add: greedy_order_def)
next
  case (2 geodesic n cur cs)
  then obtain x xs where cs: "cs = x # xs" by (cases cs) auto
  let ?d = "distance_to geodesic cur" let ?m = "nearest ?d x xs"
  have m: "?m \<in> set cs" using nearest_mem [of ?d x xs] cs by simp
  have l: "length (remove1 ?m cs) = n" using m "2.prems" by (simp add: length_remove1)
  have "set (greedy_sequence geodesic n ?m (remove1 ?m cs)) \<subseteq> set cs"
    using greedy_mset [OF l, of geodesic ?m] set_remove1_subset by (metis set_mset_mset)
  then have "\<forall>z \<in> set (greedy_sequence geodesic n ?m (remove1 ?m cs)). ?d ?m \<le> ?d z"
    using nearest_least [of _ x xs ?d] cs by auto
  with "2.IH" [OF cs refl, folded cs, OF l] show ?case unfolding cs
    by (simp add: Let_def greedy_order_Cons del: remove1.simps)
qed

lemma route_pair_cases:
  assumes "route_pair geodesic osrm a b s = Inr (r, s')"
  obtains (hit) r0 where "map_of (is_routes s) (ci_name a, ci_name b) = Some r0" "r = [r0]" "s' = s"
  | (none) "map_of (is_routes s) (ci_name a, ci_name b) = None" "r = []" "s' = s"
      "\<And>s2. map_of (is_routes s2) (ci_name a, ci_name b) = None \<Longrightarrow> route_pair geodesic osrm a b s2 = Inr ([], s2)"
  | (new) r0 where "map_of (is_routes s) (ci_name a, ci_name b) = None" "r = [r0]"
      "s' = s\<lparr>is_routes := dset (ci_name a, ci_name b) r0 (is_routes s)\<rparr>"
proof (cases "map_of (is_routes s) (ci_name a, ci_name b)")
  case None
  show thesis
  proof (cases "distance_to geodesic a b > max_intercity_distance_km")
    case True
    show thesis by (rule none) (use True None assms in \<open>simp_all add: route_pair_def\<close>)
  next
    case False
    with None assms obtain answer where a: "osrm (coordinates a) (coordinates b) = Inr answer"
      by (auto simp: route_pair_def rbind_eq_Inr_iff)
    show thesis
    proof (cases "(case answer of None \<Rightarrow> [] | Some d \<Rightarrow> d) = []")
      case True
      show thesis by (rule none) (use True False None assms a in \<open>simp_all add: route_pair_def\<close>)
    next
      case 2: False
      with False None assms a obtain r0 where "r = [r0]" "s' = s\<lparr>is_routes := dset (ci_name a, ci_name b) r0 (is_routes s)\<rparr>"
        by (auto simp: route_pair_def rbind_eq_Inr_iff Let_def)
      then show thesis by (rule new [OF None])
    qed
  qed
next
  case (Some r0)
  show thesis by (rule hit [OF Some]) (use Some assms in \<open>simp_all add: route_pair_def\<close>)
qed

lemma route_pair_other:
  assumes "route_pair geodesic osrm a b s = Inr (r, s')" "k \<noteq> (ci_name a, ci_name b)"
  shows "map_of (is_routes s') k = map_of (is_routes s) k"
  using assms(1) by (rule route_pair_cases) (use assms(2) in auto)

lemma route_pairs_other:
  "route_pairs geodesic osrm ps s = Inr (rs, s') \<Longrightarrow> k \<notin> (\<lambda>(a, b). (ci_name a, ci_name b)) ` set ps \<Longrightarrow>
   map_of (is_routes s') k = map_of (is_routes s) k"
proof (induction geodesic osrm ps s arbitrary: rs s' rule: route_pairs.induct)
  case (2 geodesic osrm a b ps s)
  from "2.prems"(1) obtain r s1 rs' where i: "route_pair geodesic osrm a b s = Inr (r, s1)" "route_pairs geodesic osrm ps s1 = Inr (rs', s')"
    by (auto simp: rbind_eq_Inr_iff)
  from "2.IH" [OF i(1) refl i(2)] route_pair_other [OF i(1), of k] "2.prems"(2) show ?case by auto
qed simp

lemma route_pair_again:
  assumes "route_pair geodesic osrm a b s = Inr (r, s1)"
    and "map_of (is_routes s2) (ci_name a, ci_name b) = map_of (is_routes s1) (ci_name a, ci_name b)"
  shows "route_pair geodesic osrm a b s2 = Inr (r, s2)"
  using assms(1)
proof (rule route_pair_cases)
  fix r0
  assume "map_of (is_routes s) (ci_name a, ci_name b) = Some r0" "r = [r0]" "s1 = s"
  with assms(2) show ?thesis by (simp add: route_pair_def)
next
  fix r0
  assume "map_of (is_routes s) (ci_name a, ci_name b) = None" "r = [r0]" "s1 = s\<lparr>is_routes := dset (ci_name a, ci_name b) r0 (is_routes s)\<rparr>"
  with assms(2) show ?thesis by (simp add: route_pair_def)
qed (use assms(2) in simp)

lemma route_pairs_again:
  "route_pairs geodesic osrm ps s = Inr (rs, s') \<Longrightarrow> distinct (map (\<lambda>(a, b). (ci_name a, ci_name b)) ps) \<Longrightarrow>
   route_pairs geodesic osrm ps s' = Inr (rs, s')"
proof (induction geodesic osrm ps s arbitrary: rs s' rule: route_pairs.induct)
  case (2 geodesic osrm a b ps s)
  from "2.prems"(1) obtain r s1 rs' where i: "route_pair geodesic osrm a b s = Inr (r, s1)" "route_pairs geodesic osrm ps s1 = Inr (rs', s')"
    "rs = r @ rs'"
    by (auto simp: rbind_eq_Inr_iff)
  have "map_of (is_routes s') (ci_name a, ci_name b) = map_of (is_routes s1) (ci_name a, ci_name b)"
    by (rule route_pairs_other [OF i(2)]) (use "2.prems"(2) in auto)
  from route_pair_again [OF i(1) this] "2.IH" [OF i(1) refl i(2)] "2.prems"(2) i(3) show ?case by simp
qed simp

lemma ordered_pairs_distinct:
  assumes "distinct (map f xs)"
  shows "distinct (map (\<lambda>(a, b). (f a, f b)) (ordered_pairs xs))"
proof -
  let ?p = "filter (\<lambda>(i, j). i \<noteq> j) (List.product [0..<length xs] [0..<length xs])"
  have "map (\<lambda>(a, b). (f a, f b)) (ordered_pairs xs) = map (\<lambda>(i, j). (map f xs ! i, map f xs ! j)) ?p"
    unfolding ordered_pairs_def by auto
  moreover have "distinct ?p" by (simp add: distinct_product)
  moreover have "inj_on (\<lambda>(i, j). (map f xs ! i, map f xs ! j)) (set ?p)"
    using nth_eq_iff_index_eq [OF assms] by (auto simp: inj_on_def simp del: nth_map)
  ultimately show ?thesis by (simp add: distinct_map)
qed

lemma pair_distances_nonneg: "(\<And>p q. 0 \<le> geodesic p q) \<Longrightarrow> \<forall>x \<in> set (pair_distances (distance_to geodesic) cs). 0 \<le> x"
  by (induction cs) (auto simp: distance_to_def coordinates_def)

subsection \<open>Properties\<close>

definition demo_city :: "string \<Rightarrow> real \<Rightarrow> city" where
  "demo_city n x = \<lparr>ci_name = VStr n, ci_lat = x, ci_lon = 0, ci_country = VStr ''Chile'', ci_pois = []\<rparr>"

definition flat_distance :: "coord \<Rightarrow> coord \<Rightarrow> real" where
  "flat_distance p q = 100 * \<bar>fst p - fst q\<bar>"

lemma filter_eq_singleton: "distinct xs \<Longrightarrow> x \<in> set xs \<Longrightarrow> filter (\<lambda>y. y = x) xs = [x]"
  by (induction xs) (auto simp: filter_empty_conv)

lemma first_named_mem: "cities \<noteq> [] \<Longrightarrow> first_named start_city cities \<in> set cities"
  by (cases cities) (auto simp: first_named_def find_Some_iff split: option.splits)

lemma sequence_unfold:
  assumes "2 \<le> length cities"
  obtains rest where "rest = filter (\<lambda>c. ci_name c \<noteq> ci_name (first_named start_city cities)) cities"
    "find_optimal_city_sequence geodesic cities start_city =
      first_named start_city cities # greedy_sequence geodesic (length rest) (first_named start_city cities) rest"
  using assms by (simp add: find_optimal_city_sequence_def Let_def)

lemma sequence_permutation:
  assumes "2 \<le> length cities" "distinct (map ci_name cities)"
  shows "mset (find_optimal_city_sequence geodesic cities start_city) = mset cities"
proof -
  let ?f = "first_named start_city cities"
  obtain rest where r: "rest = filter (\<lambda>c. ci_name c \<noteq> ci_name ?f) cities"
    "find_optimal_city_sequence geodesic cities start_city = ?f # greedy_sequence geodesic (length rest) ?f rest"
    by (rule sequence_unfold [OF assms(1)])
  have f: "?f \<in> set cities" using assms(1) by (intro first_named_mem) auto
  have "filter (\<lambda>c. ci_name c = ci_name ?f) cities = filter (\<lambda>c. c = ?f) cities"
    by (rule filter_cong) (use assms(2) f in \<open>auto simp: distinct_map inj_on_def\<close>)
  also have "\<dots> = [?f]" using assms(2) f by (simp add: distinct_map filter_eq_singleton)
  finally have "mset cities = add_mset ?f (mset rest)"
    using multiset_partition [of "mset cities" "\<lambda>c. ci_name c = ci_name ?f"] r(1)
    by (metis add_mset_add_single add.commute mset_filter mset.simps)
  then show ?thesis using r(2) by (simp add: greedy_mset)
qed

text \<open>
  C37: the sequence starts with the requested city, goes on to the nearest remaining city at every step,
  and visits every other city once except those that bear the name of the first; with distinct
  names it is a permutation of the cities.
\<close>

theorem city_sequence_greedy:
  assumes "2 \<le> length cities" "seq = find_optimal_city_sequence geodesic cities start_city"
  shows "hd seq = first_named start_city cities \<and>
    mset (tl seq) = mset (filter (\<lambda>c. ci_name c \<noteq> ci_name (hd seq)) cities) \<and>
    greedy_order (distance_to geodesic) seq \<and> (distinct (map ci_name cities) \<longrightarrow> mset seq = mset cities)"
proof -
  let ?f = "first_named start_city cities"
  obtain rest where r: "rest = filter (\<lambda>c. ci_name c \<noteq> ci_name ?f) cities"
    "find_optimal_city_sequence geodesic cities start_city = ?f # greedy_sequence geodesic (length rest) ?f rest"
    by (rule sequence_unfold [OF assms(1)])
  then have "greedy_order (distance_to geodesic) seq" unfolding assms(2) by (simp add: greedy_is_greedy)
  moreover have "distinct (map ci_name cities) \<longrightarrow> mset seq = mset cities"
    unfolding assms(2) using sequence_permutation [OF assms(1)] by blast
  moreover have "hd seq = ?f" "mset (tl seq) = mset rest" using r(2) by (simp_all add: assms(2) greedy_mset)
  ultimately show ?thesis unfolding r(1) by (intro conjI) simp_all
qed

theorem city_sequence_greedy_witness:
  "mset (find_optimal_city_sequence flat_distance [demo_city ''A'' 0, demo_city ''B'' 5, demo_city ''C'' 1] (Some (VStr ''B''))) =
   mset [demo_city ''A'' 0, demo_city ''B'' 5, demo_city ''C'' 1]"
  using city_sequence_greedy [OF _ refl, of "[demo_city ''A'' 0, demo_city ''B'' 5, demo_city ''C'' 1]" flat_distance "Some (VStr ''B'')"]
  by (simp add: demo_city_def)

text \<open>
  asking for the routes again gives the same routes and leaves the service as it is, when the
  cities have distinct names and the server answers the same question in the same way.
\<close>

theorem routes_remembered:
  assumes "distinct (map ci_name cities)" "calculate_intercity_routes geodesic osrm cities s = Inr (rs, s')"
  shows "calculate_intercity_routes geodesic osrm cities s' = Inr (rs, s')"
  using route_pairs_again ordered_pairs_distinct [OF assms(1)] assms(2) unfolding calculate_intercity_routes_def by blast

theorem routes_remembered_witness:
  "\<exists>r s'. calculate_intercity_routes flat_distance (\<lambda>p q. Inr (Some [(''distance_m'', VInt 1000), (''duration_s'', VInt 60)]))
       [demo_city ''A'' 0, demo_city ''B'' 5] \<lparr>is_cities = [], is_routes = []\<rparr> = Inr (r, s') \<and> length r = 2 \<and>
     calculate_intercity_routes flat_distance (\<lambda>p q. Inr (Some [(''distance_m'', VInt 1000), (''duration_s'', VInt 60)]))
       [demo_city ''A'' 0, demo_city ''B'' 5] s' = Inr (r, s')"
proof -
  let ?o = "\<lambda>p q :: coord. (Inr (Some [(''distance_m'', VInt 1000), (''duration_s'', VInt 60)]) :: pydict option res)"
  obtain r s' where r: "calculate_intercity_routes flat_distance ?o [demo_city ''A'' 0, demo_city ''B'' 5] \<lparr>is_cities = [], is_routes = []\<rparr> = Inr (r, s')"
    "length r = 2"
    by (simp add: calculate_intercity_routes_def ordered_pairs_def route_pair_def distance_to_def flat_distance_def coordinates_def
      max_intercity_distance_km_def demo_city_def pnum_def dindex_def Let_def)
  from routes_remembered [OF _ r(1)] r show ?thesis by (auto simp: demo_city_def)
qed

text \<open>
  the feasibility of a trip between cities is answered exactly when no two of them are more than
  3000 km apart: beyond that the score is negative and the answer is an error, not a warning.
\<close>

theorem far_trip_is_an_error:
  assumes "2 \<le> length cities" "\<And>p q. 0 \<le> geodesic p q"
  shows "(\<exists>e. analyze_multi_city_feasibility geodesic n cities = Inl e) \<longleftrightarrow>
    3000 < Max (set (pair_distances (distance_to geodesic) cities))"
proof -
  let ?m = "Max (set (pair_distances (distance_to geodesic) cities))"
  have "pair_distances (distance_to geodesic) cities \<noteq> []" using assms(1) by (cases cities; cases "tl cities") auto
  then have "0 \<le> ?m" using pair_distances_nonneg [of geodesic cities, OF assms(2)] Max_in by blast
  moreover have "ta_max_distance_km (analyze_multi_city_complexity geodesic cities) = ?m"
    using assms(1) by (simp add: analyze_multi_city_complexity_def Let_def)
  moreover have "complexity_level c \<in> {''simple'', ''intercity'', ''international'', ''complex'', ''international_complex''}" for c
    by (simp add: complexity_level_def)
  ultimately show ?thesis
    by (simp add: analyze_multi_city_feasibility_def valid_feasibility_def Let_def)
qed

theorem far_trip_is_an_error_witness:
  "\<exists>e. analyze_multi_city_feasibility flat_distance 2 [demo_city ''A'' 0, demo_city ''B'' 50] = Inl e"
  by (subst far_trip_is_an_error) (simp_all add: flat_distance_def distance_to_def coordinates_def demo_city_def)

end
