(* ===== verification/CityClustering.thy ===== *)
theory CityClustering
  imports InterCity Decisions "HOL-Library.Product_Lexorder"
begin

section \<open>Detecting the cities of a trip\<close>

text \<open>
  src/services/city\_clustering\_service.py: the places are grouped by H3 cell, refined by DBSCAN,
  validated by radius, named and scored.  The geodesic distance of geopy, the H3 cell of a point and
  DBSCAN are parameters; the key of the cache is the string whose digest the code takes.
\<close>

subsection \<open>Words\<close>

text \<open>\<open>s.split()\<close>, \<open>w.strip(chars)\<close> and \<open>w.title()\<close>.\<close>

fun split_by :: "('a \<Rightarrow> bool) \<Rightarrow> 'a list \<Rightarrow> 'a list list" where
  "split_by P [] = [[]]"
| "split_by P (c # s) =
     (if P c then [] # split_by P s else (case split_by P s of [] \<Rightarrow> [[c]] | w # ws \<Rightarrow> (c # w) # ws))"

definition words :: "string \<Rightarrow> string list" where
  "words s = filter (\<lambda>w. w \<noteq> []) (split_by is_space s)"

definition strip_chars :: "string \<Rightarrow> string \<Rightarrow> string" where
  "strip_chars cs s = rev (dropWhile (\<lambda>c. c \<in> set cs) (rev (dropWhile (\<lambda>c. c \<in> set cs) s)))"

definition upper_char :: "char \<Rightarrow> char" where
  "upper_char c = (let n = (of_char c :: nat) in if 97 \<le> n \<and> n \<le> 122 then char_of (n - 32) else c)"

definition is_letter :: "char \<Rightarrow> bool" where
  "is_letter c \<longleftrightarrow> (of_char c :: nat) \<in> {65..90} \<union> {97..122}"

fun title_from :: "bool \<Rightarrow> string \<Rightarrow> string" where
  "title_from after [] = []"
| "title_from after (c # s) = (if after then lower_char c else upper_char c) # title_from (is_letter c) s"

subsection \<open>Configuration and clusters\<close>

record clustering_config =
  cf_eps_km :: real
  cf_min_samples :: int
  cf_min_radius_km :: real
  cf_max_radius_km :: real
  cf_min_pois :: nat
  cf_high :: real
  cf_medium :: real

definition default_clustering_config :: clustering_config where
  "default_clustering_config =
     \<lparr>cf_eps_km = 25, cf_min_samples = 2, cf_min_radius_km = 1/10, cf_max_radius_km = 50, cf_min_pois = 1,
      cf_high = 8/10, cf_medium = 6/10\<rparr>"

record city_cluster =
  cc_id :: string
  cc_name :: pyval
  cc_country :: pyval
  cc_lat :: real
  cc_lon :: real
  cc_pois :: "pydict list"
  cc_confidence :: real

definition cluster_coordinates :: "city_cluster \<Rightarrow> coord" where
  "cluster_coordinates c = (cc_lat c, cc_lon c)"

definition poi_count :: "city_cluster \<Rightarrow> nat" where
  "poi_count c = length (cc_pois c)"

definition poi_coord :: "pydict \<Rightarrow> coord res" where
  "poi_coord p = rbind (pnum p ''lat'') (\<lambda>a. rbind (pnum p ''lon'') (\<lambda>b. Inr (a, b)))"

definition center_distances :: "(coord \<Rightarrow> coord \<Rightarrow> real) \<Rightarrow> coord \<Rightarrow> pydict list \<Rightarrow> real list res" where
  "center_distances geodesic c pois = rmap_list (\<lambda>p. rbind (poi_coord p) (\<lambda>q. Inr (geodesic c q))) pois"

definition calculate_radius_km :: "(coord \<Rightarrow> coord \<Rightarrow> real) \<Rightarrow> city_cluster \<Rightarrow> real res" where
  "calculate_radius_km geodesic c =
     (if poi_count c < 2 then Inr 0
      else rbind (center_distances geodesic (cluster_coordinates c) (cc_pois c)) (\<lambda>ds. Inr (Max (set ds))))"

text \<open>Places per square kilometre; \<open>None\<close> is infinity.\<close>

definition get_poi_density :: "(coord \<Rightarrow> coord \<Rightarrow> real) \<Rightarrow> city_cluster \<Rightarrow> real option res" where
  "get_poi_density geodesic c =
     rbind (calculate_radius_km geodesic c) (\<lambda>r.
     Inr (if r = 0 then None else if pi * r\<^sup>2 > 0 then Some (real (poi_count c) / (pi * r\<^sup>2)) else Some 0))"

subsection \<open>Names\<close>

definition city_keywords :: "string list" where
  "city_keywords =
     [''santiago'', ''valparaiso'', ''antofagasta'', ''calama'', ''iquique'', ''temuco'', ''concepcion'', ''valdivia'',
      ''paris'', ''london'', ''madrid'', ''barcelona'', ''rome'', ''amsterdam'', ''berlin'', ''prague'', ''vienna'']"

definition keyword_city :: "string \<Rightarrow> string option" where
  "keyword_city address =
     (case concat (map (\<lambda>k. if contains k (lower address) then filter (\<lambda>w. contains k (lower w)) (words address) else []) city_keywords) of
        [] \<Rightarrow> None
      | w # ws \<Rightarrow> Some (title_from False (strip_chars ''.,;:'' w)))"

definition extract_city_from_address :: "string \<Rightarrow> string option" where
  "extract_city_from_address address =
     (if address = [] then None
      else
        let a = strip address; parts = split_on (CHR '','') a; n = length parts
        in if n = 2 \<and> (\<forall>c \<in> set (strip (parts ! 0)). \<not> is_digit c) then Some (strip (parts ! 0))
           else if n \<ge> 3 then Some (strip (parts ! (n - 2)))
           else keyword_city a)"

definition country_mapping :: "(string \<times> string) list" where
  "country_mapping =
     [(''chile'', ''Chile''), (''argentina'', ''Argentina''), (''peru'', ''Peru''), (''bolivia'', ''Bolivia''),
      (''brazil'', ''Brazil''), (''france'', ''France''), (''spain'', ''Spain''), (''italy'', ''Italy''),
      (''germany'', ''Germany''), (''netherlands'', ''Netherlands''), (''uk'', ''United Kingdom''),
      (''usa'', ''United States''), (''canada'', ''Canada'')]"

definition extract_country_from_address :: "string \<Rightarrow> string option" where
  "extract_country_from_address address =
     (if address = [] then None
      else map_option snd (List.find (\<lambda>(k, c). contains k (lower (strip address))) country_mapping))"

text \<open>The values of the fields that are present and truthy; the names that one place gives.\<close>

definition city_fields :: "string list" where
  "city_fields = [''city'', ''locality'', ''municipality'']"

definition truthy_fields :: "pydict \<Rightarrow> string list \<Rightarrow> pyval list" where
  "truthy_fields d fs = List.map_filter (\<lambda>f. case map_of d f of Some v \<Rightarrow> if truthy v then Some v else None | None \<Rightarrow> None) fs"

definition opt_str :: "string option \<Rightarrow> pyval list" where
  "opt_str s = (case s of Some n \<Rightarrow> if n = [] then [] else [VStr n] | None \<Rightarrow> [])"

definition city_names_of :: "pydict \<Rightarrow> pyval list" where
  "city_names_of poi =
     truthy_fields poi city_fields @
     (case map_of poi ''address'' of
        Some (VDict a) \<Rightarrow> truthy_fields a city_fields
      | Some (VStr s) \<Rightarrow> opt_str (extract_city_from_address s)
      | _ \<Rightarrow> [])"

definition country_of :: "pydict \<Rightarrow> pyval list" where
  "country_of poi =
     (case truthy_fields poi [''country''] of
        c # cs \<Rightarrow> [c]
      | [] \<Rightarrow>
          (case map_of poi ''address'' of
             Some (VDict a) \<Rightarrow> truthy_fields a [''country'']
           | Some (VStr s) \<Rightarrow> opt_str (extract_country_from_address s)
           | _ \<Rightarrow> []))"

definition landmark_keywords :: "string list" where
  "landmark_keywords = [''tower'', ''museum'', ''cathedral'', ''palace'', ''bridge'', ''square'']"

text \<open>The last word of the first landmark whose name has several words.\<close>

fun landmark_city :: "pydict list \<Rightarrow> string option res" where
  "landmark_city [] = Inr None"
| "landmark_city (p # ps) =
     (case dget p ''name'' (VStr []) of
        VStr n \<Rightarrow>
          (if (\<exists>k \<in> set landmark_keywords. contains k (lower n)) \<and> length (words n) > 1 then Inr (Some (last (words n)))
           else landmark_city ps)
      | _ \<Rightarrow> Inl AttributeError)"

definition determine_cluster_name :: "pydict list \<Rightarrow> pyval res" where
  "determine_cluster_name pois =
     (let names = concat (map city_names_of pois)
      in if names \<noteq> [] then count_most_common names
         else rbind (landmark_city pois) (\<lambda>l.
           case l of
             Some c \<Rightarrow> Inr (VStr c)
           | None \<Rightarrow>
               (case pois of [] \<Rightarrow> Inl IndexError
                | p # ps \<Rightarrow> Inr (dget p ''name'' (VStr (''City_'' @ show_nat (length pois) @ ''_pois''))))))"

definition determine_cluster_country :: "pydict list \<Rightarrow> pyval res" where
  "determine_cluster_country pois =
     (let countries = concat (map country_of pois) in if countries \<noteq> [] then count_most_common countries else Inr (VStr ''Unknown''))"

subsection \<open>Refinement\<close>

definition dbscan_groups :: "(int \<times> pydict) list \<Rightarrow> (int, pydict list) dict" where
  "dbscan_groups lps = fold (\<lambda>(l, p). add_to l p) (filter (\<lambda>(l, p). l \<noteq> - 1) lps) []"

text \<open>A point of noise is a cluster of its own; these come before the groups.\<close>

definition refine_cell ::
  "clustering_config \<Rightarrow> (real \<Rightarrow> int \<Rightarrow> coord list \<Rightarrow> int list res) \<Rightarrow> pydict list \<Rightarrow> pydict list list res" where
  "refine_cell cf dbscan ps =
     (if length ps < 2 then Inr [ps]
      else
        rbind (rmap_list poi_coord ps) (\<lambda>cs.
        rbind (dbscan (cf_eps_km cf / 111) (cf_min_samples cf) cs) (\<lambda>labels.
        if length ps < length labels then Inl IndexError
        else
          let lps = zip labels ps
          in Inr (map (\<lambda>(l, p). [p]) (filter (\<lambda>(l, p). l = - 1) lps) @
                  filter (\<lambda>g. cf_min_pois cf \<le> length g) (map snd (dbscan_groups lps))))))"

definition dbscan_refinement ::
  "clustering_config \<Rightarrow> (real \<Rightarrow> int \<Rightarrow> coord list \<Rightarrow> int list res) \<Rightarrow> (string, pydict list) dict \<Rightarrow> pydict list list res" where
  "dbscan_refinement cf dbscan cells = rbind (rmap_list (\<lambda>(h, ps). refine_cell cf dbscan ps) cells) (\<lambda>gs. Inr (concat gs))"

subsection \<open>Validation\<close>

definition cluster_radius :: "(coord \<Rightarrow> coord \<Rightarrow> real) \<Rightarrow> pydict list \<Rightarrow> coord \<Rightarrow> real res" where
  "cluster_radius geodesic pois center =
     rbind (center_distances geodesic center pois) (\<lambda>ds. Inr (fold max ds 0))"

text \<open>A group of several places is kept when its radius is in range; one place is always kept.\<close>

definition validate_group :: "clustering_config \<Rightarrow> (coord \<Rightarrow> coord \<Rightarrow> real) \<Rightarrow> nat \<times> pydict list \<Rightarrow> city_cluster list res" where
  "validate_group cf geodesic = (\<lambda>(i, ps).
     if ps = [] then Inr []
     else
       rbind (mean_coord ps) (\<lambda>center.
       rbind (cluster_radius geodesic ps center) (\<lambda>r.
       if length ps \<noteq> 1 \<and> \<not> (cf_min_radius_km cf \<le> r \<and> r \<le> cf_max_radius_km cf) then Inr []
       else
         rbind (determine_cluster_name ps) (\<lambda>n. rbind (determine_cluster_country ps) (\<lambda>c.
         Inr [\<lparr>cc_id = ''cluster_'' @ show_nat i, cc_name = n, cc_country = c, cc_lat = fst center, cc_lon = snd center,
               cc_pois = ps, cc_confidence = 0\<rparr>])))))"

definition validate_and_name_clusters ::
  "clustering_config \<Rightarrow> (coord \<Rightarrow> coord \<Rightarrow> real) \<Rightarrow> pydict list list \<Rightarrow> city_cluster list res" where
  "validate_and_name_clusters cf geodesic gs =
     rbind (rmap_list (validate_group cf geodesic) (enumerate 0 gs)) (\<lambda>css. Inr (concat css))"

subsection \<open>Confidence\<close>

definition generic_names :: "string list" where
  "generic_names = [''city'', ''cluster'', ''location'', ''place'', ''area'']"

definition known_cities :: "string list" where
  "known_cities = [''paris'', ''london'', ''berlin'', ''madrid'', ''rome'', ''amsterdam'', ''santiago'', ''valparaiso'', ''antofagasta'', ''calama'']"

definition assess_name_quality :: "pyval \<Rightarrow> real res" where
  "assess_name_quality name =
     (if \<not> truthy name \<or> name = VStr ''Unknown'' then Inr (1/10)
      else
        case name of
          VStr n \<Rightarrow>
            Inr (if \<exists>g \<in> set generic_names. contains g (lower n) then 3/10
                 else if \<exists>c \<in> set n. is_digit c then 1/2
                 else if lower n \<in> set known_cities then 1 else 7/10)
        | _ \<Rightarrow> Inl AttributeError)"

definition assess_geographic_consistency :: "(coord \<Rightarrow> coord \<Rightarrow> real) \<Rightarrow> city_cluster \<Rightarrow> real res" where
  "assess_geographic_consistency geodesic c =
     (if poi_count c < 2 then Inr 1
      else
        rbind (center_distances geodesic (cluster_coordinates c) (cc_pois c)) (\<lambda>ds.
        let m = sum_list ds / real (length ds); variance = sum_list (map (\<lambda>d. (d - m)\<^sup>2) ds) / real (length ds)
        in Inr (min 1 (max (1/10) (1 - sqrt variance / 50)))))"

definition confidence_of :: "(coord \<Rightarrow> coord \<Rightarrow> real) \<Rightarrow> city_cluster \<Rightarrow> real res" where
  "confidence_of geodesic c =
     rbind (calculate_radius_km geodesic c) (\<lambda>r.
     rbind (assess_name_quality (cc_name c)) (\<lambda>q.
     rbind (assess_geographic_consistency geodesic c) (\<lambda>g.
     let n = real (poi_count c)
     in Inr ((min 1 (n / 5) + (if r > 0 then min 1 (n / r) else 1) + q + g) / 4))))"

definition calculate_confidence_scores :: "(coord \<Rightarrow> coord \<Rightarrow> real) \<Rightarrow> city_cluster list \<Rightarrow> city_cluster list res" where
  "calculate_confidence_scores geodesic cs = rmap_list (\<lambda>c. rbind (confidence_of geodesic c) (\<lambda>x. Inr (c\<lparr>cc_confidence := x\<rparr>))) cs"

subsection \<open>The service\<close>

text \<open>The cache of results by the printed coordinates of the sorted places.\<close>

type_synonym clustering_cache = "(string, city_cluster list) dict"

definition clustering_key :: "pydict list \<Rightarrow> string res" where
  "clustering_key pois =
     rbind (rmap_list poi_coord pois) (\<lambda>cs.
     Inr (join_with '';'' (map (\<lambda>(a, b). show_fixed 4 a @ '','' @ show_fixed 4 b) (sort cs))))"

definition clusters_of ::
  "clustering_config \<Rightarrow> (coord \<Rightarrow> coord \<Rightarrow> real) \<Rightarrow> (coord \<Rightarrow> string res) \<Rightarrow> (real \<Rightarrow> int \<Rightarrow> coord list \<Rightarrow> int list res) \<Rightarrow>
   pydict list \<Rightarrow> city_cluster list res" where
  "clusters_of cf geodesic h3 dbscan pois =
     rbind (group_by_cell h3 pois []) (\<lambda>cells.
     rbind (dbscan_refinement cf dbscan cells) (\<lambda>groups.
     rbind (validate_and_name_clusters cf geodesic groups) (\<lambda>valid.
     rbind (calculate_confidence_scores geodesic valid) (\<lambda>scored.
     Inr (filter (\<lambda>c. 3/10 \<le> cc_confidence c \<and> cf_min_pois cf \<le> poi_count c) scored)))))"

definition cluster_pois_advanced ::
  "clustering_config \<Rightarrow> (coord \<Rightarrow> coord \<Rightarrow> real) \<Rightarrow> (coord \<Rightarrow> string res) \<Rightarrow> (real \<Rightarrow> int \<Rightarrow> coord list \<Rightarrow> int list res) \<Rightarrow>
   pydict list \<Rightarrow> clustering_cache \<Rightarrow> (city_cluster list \<times> clustering_cache) res" where
  "cluster_pois_advanced cf geodesic h3 dbscan pois cache =
     (if pois = [] then Inr ([], cache)
      else
        rbind (clustering_key pois) (\<lambda>k.
        case map_of cache k of
          Some cs \<Rightarrow> Inr (cs, cache)
        | None \<Rightarrow> rbind (clusters_of cf geodesic h3 dbscan pois) (\<lambda>cs. Inr (cs, dset k cs cache))))"

record clustering_stats =
  cs_total :: nat
  cs_pois :: nat
  cs_avg_pois :: real
  cs_avg_confidence :: real
  cs_avg_radius :: real
  cs_high :: nat
  cs_medium :: nat
  cs_low :: int
  cs_countries :: "pyval set"

text \<open>\<open>None\<close> is the dictionary that only tells that there are no clusters; the countries come in no particular order.\<close>

definition get_clustering_stats ::
  "clustering_config \<Rightarrow> (coord \<Rightarrow> coord \<Rightarrow> real) \<Rightarrow> city_cluster list \<Rightarrow> clustering_stats option res" where
  "get_clustering_stats cf geodesic cs =
     (if cs = [] then Inr None
      else
        rbind (rmap_list (calculate_radius_km geodesic) cs) (\<lambda>radii.
        let n = length cs; pois = sum_list (map poi_count cs); conf = map cc_confidence cs;
            high = length (filter (\<lambda>c. c \<ge> cf_high cf) conf);
            medium = length (filter (\<lambda>c. cf_medium cf \<le> c \<and> c < cf_high cf) conf)
        in Inr (Some \<lparr>cs_total = n, cs_pois = pois, cs_avg_pois = real pois / real n, cs_avg_confidence = sum_list conf / real (length conf),
             cs_avg_radius = sum_list radii / real (length radii), cs_high = high, cs_medium = medium,
             cs_low = int n - int high - int medium, cs_countries = set (map cc_country cs)\<rparr>)))"

subsection \<open>Lemmas\<close>

lemma group_by_cell_ok:
  "group_by_cell h3 ps d = Inr d' \<Longrightarrow> is_dict d \<Longrightarrow> \<forall>vs \<in> snd ` set d. vs \<noteq> [] \<Longrightarrow>
   is_dict d' \<and> (\<forall>vs \<in> snd ` set d'. vs \<noteq> []) \<and> mset (concat (map snd d')) = mset (concat (map snd d)) + mset ps"
proof (induction h3 ps d rule: group_by_cell.induct)
  case (2 h3 p ps d)
  from "2.prems"(1) obtain x y cell where i: "pnum p ''lat'' = Inr x" "pnum p ''lon'' = Inr y" "h3 (x, y) = Inr cell"
    and r: "group_by_cell h3 ps (add_to cell p d) = Inr d'"
    by (auto simp: rbind_eq_Inr_iff)
  have "is_dict (add_to cell p d)" using "2.prems"(2) by (simp add: add_to_def)
  from "2.IH" [OF i r this add_to_values [OF "2.prems"(3)]] "2.prems"(2) show ?case by (simp add: mset_add_to)
qed simp

lemma fold_add_to_ok:
  "is_dict d \<Longrightarrow> \<forall>vs \<in> snd ` set d. vs \<noteq> [] \<Longrightarrow>
   (\<forall>vs \<in> snd ` set (fold (\<lambda>(l, p). add_to l p) lps d). vs \<noteq> []) \<and>
   mset (concat (map snd (fold (\<lambda>(l, p). add_to l p) lps d))) = mset (concat (map snd d)) + mset (map snd lps)"
proof (induction lps arbitrary: d)
  case (Cons a lps)
  obtain l p where a: "a = (l, p)" by (cases a)
  have "is_dict (add_to l p d)" using Cons.prems(1) by (simp add: add_to_def)
  from Cons.IH [OF this add_to_values [OF Cons.prems(2)]] Cons.prems(1) show ?case by (simp add: a mset_add_to)
qed simp

definition labels_all :: "(real \<Rightarrow> int \<Rightarrow> coord list \<Rightarrow> int list res) \<Rightarrow> bool" where
  "labels_all dbscan \<longleftrightarrow> (\<forall>eps m cs ls. dbscan eps m cs = Inr ls \<longrightarrow> length ls = length cs)"

lemma mset_noise_groups:
  "mset (concat (map (\<lambda>(l, p). [p]) (filter (\<lambda>(l, p). P l) lps))) + mset (map snd (filter (\<lambda>(l, p). \<not> P l) lps)) = mset (map snd lps)"
  by (induction lps) auto

lemma refine_cell_ok:
  assumes "refine_cell cf dbscan ps = Inr gs" "labels_all dbscan" "cf_min_pois cf \<le> 1" "ps \<noteq> []"
  shows "mset (concat gs) = mset ps \<and> [] \<notin> set gs"
proof (cases "length ps < 2")
  case True
  with assms show ?thesis by (auto simp: refine_cell_def)
next
  case False
  with assms(1) obtain cs labels where cs: "rmap_list poi_coord ps = Inr cs" "dbscan (cf_eps_km cf / 111) (cf_min_samples cf) cs = Inr labels"
    and gs: "gs = map (\<lambda>(l, p). [p]) (filter (\<lambda>(l, p). l = - 1) (zip labels ps)) @
      filter (\<lambda>g. cf_min_pois cf \<le> length g) (map snd (dbscan_groups (zip labels ps)))"
    by (auto simp: refine_cell_def rbind_eq_Inr_iff Let_def split: if_splits)
  have l: "length labels = length ps"
    using assms(2) cs(2) rmap_list_length [OF cs(1)] unfolding labels_all_def by metis
  let ?o = "filter (\<lambda>(l, p). l \<noteq> - 1) (zip labels ps)"
  have f: "\<forall>vs \<in> snd ` set (dbscan_groups (zip labels ps)). vs \<noteq> []"
    "mset (concat (map snd (dbscan_groups (zip labels ps)))) = mset (map snd ?o)"
    using fold_add_to_ok [of "[]" ?o] by (simp_all add: dbscan_groups_def)
  have "\<forall>g \<in> set (map snd (dbscan_groups (zip labels ps))). cf_min_pois cf \<le> length g"
  proof
    fix g assume "g \<in> set (map snd (dbscan_groups (zip labels ps)))"
    with f(1) have "g \<noteq> []" by auto
    with assms(3) show "cf_min_pois cf \<le> length g" by (cases g) auto
  qed
  then have "filter (\<lambda>g. cf_min_pois cf \<le> length g) (map snd (dbscan_groups (zip labels ps))) = map snd (dbscan_groups (zip labels ps))"
    by (simp only: filter_True)
  moreover have "map snd (zip labels ps) = ps" using l by simp
  ultimately show ?thesis using f mset_noise_groups [of "\<lambda>l. l = - 1" "zip labels ps"] by (auto simp: gs)
qed

lemma dbscan_refinement_ok:
  assumes "dbscan_refinement cf dbscan cells = Inr gs" "labels_all dbscan" "cf_min_pois cf \<le> 1" "\<forall>vs \<in> snd ` set cells. vs \<noteq> []"
  shows "mset (concat gs) = mset (concat (map snd cells)) \<and> [] \<notin> set gs"
proof -
  from assms(1) obtain gss where "rmap_list (\<lambda>(h, ps). refine_cell cf dbscan ps) cells = Inr gss" "gs = concat gss"
    by (auto simp: dbscan_refinement_def rbind_eq_Inr_iff)
  moreover from this(1) assms(4) have "mset (concat (concat gss)) = mset (concat (map snd cells)) \<and> [] \<notin> set (concat gss)"
  proof (induction cells arbitrary: gss)
    case (Cons c cells)
    obtain h ps where c: "c = (h, ps)" by (cases c)
    from Cons.prems c obtain g gss' where g: "refine_cell cf dbscan ps = Inr g" "gss = g # gss'"
      "rmap_list (\<lambda>(h, ps). refine_cell cf dbscan ps) cells = Inr gss'" by (auto simp: rbind_eq_Inr_iff)
    from refine_cell_ok [OF g(1) assms(2,3)] Cons.IH [OF g(3)] Cons.prems(2) c g(2) show ?case by simp
  qed simp
  ultimately show ?thesis by simp
qed

lemma validate_group_ok:
  assumes "validate_group cf geodesic (i, g) = Inr cs"
  shows "map cc_pois cs \<in> {[], [g]} \<and> (length g = 1 \<longrightarrow> map cc_pois cs = [g]) \<and>
    (\<forall>c \<in> set cs. length g = 1 \<or> (\<exists>r. cluster_radius geodesic g (cluster_coordinates c) = Inr r \<and>
       cf_min_radius_km cf \<le> r \<and> r \<le> cf_max_radius_km cf))"
  using assms by (auto simp: validate_group_def rbind_eq_Inr_iff cluster_coordinates_def split: if_splits)

lemma validate_ok:
  "list_all2 (\<lambda>(i, g) cs. validate_group cf geodesic (i, g) = Inr cs) igs css \<Longrightarrow>
   mset (concat (map cc_pois (concat css))) \<subseteq># mset (concat (map snd igs)) \<and>
   (\<forall>g \<in> set (map snd igs). length g = 1 \<longrightarrow> g \<in> set (map cc_pois (concat css))) \<and>
   (\<forall>c \<in> set (concat css). cc_pois c \<in> set (map snd igs) \<and> (length (cc_pois c) = 1 \<or>
      (\<exists>r. cluster_radius geodesic (cc_pois c) (cluster_coordinates c) = Inr r \<and> cf_min_radius_km cf \<le> r \<and> r \<le> cf_max_radius_km cf)))"
proof (induction igs css rule: list_all2_induct)
  case (Cons ig igs cs css)
  obtain i g where ig: "ig = (i, g)" by (cases ig)
  have v: "map cc_pois cs = [] \<or> map cc_pois cs = [g]" "length g = 1 \<Longrightarrow> map cc_pois cs = [g]"
    "\<And>c. c \<in> set cs \<Longrightarrow> length g = 1 \<or> (\<exists>r. cluster_radius geodesic g (cluster_coordinates c) = Inr r \<and>
       cf_min_radius_km cf \<le> r \<and> r \<le> cf_max_radius_km cf)"
    using validate_group_ok [of cf geodesic i g cs] Cons.hyps(1) by (auto simp: ig)
  have c: "cc_pois c = g" if "c \<in> set cs" for c
  proof -
    have "cc_pois c \<in> set (map cc_pois cs)" using that by simp
    with v(1) show ?thesis by (metis empty_iff list.set(1) set_ConsD)
  qed
  have "mset (concat (map cc_pois cs)) \<subseteq># mset g" using v(1) by auto
  then have "mset (concat (map cc_pois (concat (cs # css)))) \<subseteq># mset (concat (map snd (ig # igs)))"
    using Cons.IH by (simp add: ig subset_mset.add_mono)
  moreover have "\<forall>h \<in> set (map snd (ig # igs)). length h = 1 \<longrightarrow> h \<in> set (map cc_pois (concat (cs # css)))"
    using v(2) Cons.IH by (auto simp: ig)
  ultimately show ?case using Cons.IH v(3) c by (fastforce simp: ig)
qed simp

lemma scores_ok:
  assumes "calculate_confidence_scores geodesic cs = Inr ss"
  shows "list_all2 (\<lambda>c s. \<exists>x. confidence_of geodesic c = Inr x \<and> s = c\<lparr>cc_confidence := x\<rparr>) cs ss"
  using assms unfolding calculate_confidence_scores_def rmap_list_Inr_conv
  by (rule list_all2_mono) (auto simp: rbind_eq_Inr_iff)

lemma name_quality_bounds: "assess_name_quality n = Inr q \<Longrightarrow> 1/10 \<le> q \<and> q \<le> 1"
  by (auto simp: assess_name_quality_def split: pyval.splits if_splits)

lemma consistency_bounds: "assess_geographic_consistency geodesic c = Inr g \<Longrightarrow> 1/10 \<le> g \<and> g \<le> 1 \<and> (poi_count c < 2 \<longrightarrow> g = 1)"
proof -
  assume "assess_geographic_consistency geodesic c = Inr g"
  then obtain y where "g = (if poi_count c < 2 then 1 else min 1 (max (1/10) y))"
    by (auto simp: assess_geographic_consistency_def rbind_eq_Inr_iff Let_def split: if_splits)
  then show ?thesis by (auto simp: min_def max_def)
qed

lemma confidence_bounds:
  assumes "confidence_of geodesic c = Inr x" "cc_pois c \<noteq> []"
  shows "0 < x \<and> x \<le> 1 \<and> (poi_count c = 1 \<longrightarrow> 23/40 \<le> x)"
proof -
  obtain r q g where r: "calculate_radius_km geodesic c = Inr r" "assess_name_quality (cc_name c) = Inr q"
    "assess_geographic_consistency geodesic c = Inr g"
    "x = (min 1 (real (poi_count c) / 5) + (if r > 0 then min 1 (real (poi_count c) / r) else 1) + q + g) / 4"
    using assms(1) by (auto simp: confidence_of_def rbind_eq_Inr_iff Let_def)
  define d where "d = (if r > 0 then min 1 (real (poi_count c) / r) else 1)"
  have d: "0 < d" "d \<le> 1" using assms(2) by (auto simp: d_def poi_count_def)
  define a where "a = min 1 (real (poi_count c) / 5)"
  have "1 \<le> real (poi_count c)" using assms(2) by (cases "cc_pois c") (auto simp: poi_count_def)
  then have a: "1/5 \<le> a" "a \<le> 1" by (auto simp: a_def)
  have "poi_count c = 1 \<Longrightarrow> d = 1" using r(1) by (simp add: calculate_radius_km_def d_def split: if_splits)
  moreover have "4 * x = a + d + q + g" using r(4) by (simp add: d_def a_def)
  moreover have "1/10 \<le> q" "q \<le> 1" using name_quality_bounds [OF r(2)] by auto
  moreover have "1/10 \<le> g" "g \<le> 1" "poi_count c = 1 \<Longrightarrow> g = 1" using consistency_bounds [OF r(3)] by auto
  moreover have "poi_count c = 1 \<Longrightarrow> a = 1/5" by (simp add: a_def)
  ultimately show ?thesis using d a by (cases "poi_count c = 1") auto
qed

lemmas one_place_simps = poi_coord_def pnum_def dindex_def clusters_of_def add_to_def dbscan_refinement_def refine_cell_def
  validate_and_name_clusters_def validate_group_def mean_coord_def cluster_radius_def center_distances_def determine_cluster_name_def
  city_names_of_def truthy_fields_def city_fields_def count_most_common_def most_common_def determine_cluster_country_def
  country_of_def calculate_confidence_scores_def confidence_of_def calculate_radius_km_def poi_count_def assess_name_quality_def
  assess_geographic_consistency_def Let_def default_clustering_config_def List.map_filter_simps generic_names_def lower_def
  lower_char_def is_digit_def digit_val_def known_cities_def

subsection \<open>Properties\<close>

lemma clusters_of_account:
  assumes "clusters_of default_clustering_config geodesic h3 dbscan pois = Inr cs" "labels_all dbscan"
  shows "\<exists>cells groups. group_by_cell h3 pois [] = Inr cells \<and> dbscan_refinement default_clustering_config dbscan cells = Inr groups \<and>
    mset (concat groups) = mset pois \<and> mset (concat (map cc_pois cs)) \<subseteq># mset pois \<and>
    (\<forall>g \<in> set groups. length g = 1 \<longrightarrow> g \<in> set (map cc_pois cs)) \<and>
    (\<forall>c \<in> set cs. cc_pois c \<in> set groups \<and> 3/10 \<le> cc_confidence c \<and> cc_confidence c \<le> 1 \<and>
       (length (cc_pois c) = 1 \<or> (\<exists>r. cluster_radius geodesic (cc_pois c) (cluster_coordinates c) = Inr r \<and> 1/10 \<le> r \<and> r \<le> 50)))"
proof -
  from assms(1) obtain cells groups valid scored where
    i: "group_by_cell h3 pois [] = Inr cells" "dbscan_refinement default_clustering_config dbscan cells = Inr groups"
      "validate_and_name_clusters default_clustering_config geodesic groups = Inr valid"
      "calculate_confidence_scores geodesic valid = Inr scored"
    and cs: "cs = filter (\<lambda>c. 3/10 \<le> cc_confidence c \<and> 1 \<le> poi_count c) scored"
    by (auto simp: clusters_of_def rbind_eq_Inr_iff default_clustering_config_def)
  note g = group_by_cell_ok [OF i(1) is_dict_Nil]
  have gr: "mset (concat groups) = mset pois \<and> [] \<notin> set groups"
    using dbscan_refinement_ok [OF i(2) assms(2)] g by (simp add: default_clustering_config_def)
  from i(3) obtain css where "rmap_list (validate_group default_clustering_config geodesic) (enumerate 0 groups) = Inr css"
    and valid: "valid = concat css"
    by (auto simp: validate_and_name_clusters_def rbind_eq_Inr_iff)
  then have "list_all2 (\<lambda>(i, g) cs. validate_group default_clustering_config geodesic (i, g) = Inr cs) (enumerate 0 groups) css"
    by (simp add: rmap_list_Inr_conv case_prod_unfold)
  note v = validate_ok [OF this, folded valid, simplified default_clustering_config_def clustering_config.simps map_snd_enumerate]
  note s = scores_ok [OF i(4)]
  have sp: "map cc_pois scored = map cc_pois valid"
    using s by (induction rule: list_all2_induct) auto
  have sc: "\<exists>c \<in> set valid. cc_pois c = cc_pois x \<and> cluster_coordinates c = cluster_coordinates x \<and> confidence_of geodesic c = Inr (cc_confidence x)"
    if "x \<in> set scored" for x
    using s that by (induction rule: list_all2_induct) (auto simp: cluster_coordinates_def)
  have conf: "0 < cc_confidence x \<and> cc_confidence x \<le> 1 \<and> (length (cc_pois x) = 1 \<longrightarrow> 23/40 \<le> cc_confidence x)" if x: "x \<in> set scored" for x
  proof -
    obtain c where c: "c \<in> set valid" "cc_pois c = cc_pois x" "confidence_of geodesic c = Inr (cc_confidence x)"
      using sc [OF x] by auto
    with v gr have "cc_pois c \<noteq> []" by metis
    from confidence_bounds [OF c(3) this] c(2) show ?thesis by (simp add: poi_count_def)
  qed
  have "mset (concat (map cc_pois cs)) \<subseteq># mset (concat (map cc_pois scored))"
    unfolding cs by (induction scored) (auto simp: subset_mset.add_mono intro: subset_mset.order_trans)
  moreover have "g \<in> set (map cc_pois cs)" if "g \<in> set groups" "length g = 1" for g
  proof -
    have "g \<in> set (map cc_pois scored)" using v that sp by auto
    then obtain x where "x \<in> set scored" "cc_pois x = g" by auto
    with conf [of x] that(2) show ?thesis by (force simp: cs poi_count_def)
  qed
  moreover have "cc_pois c \<in> set groups \<and> 3/10 \<le> cc_confidence c \<and> cc_confidence c \<le> 1 \<and>
       (length (cc_pois c) = 1 \<or> (\<exists>r. cluster_radius geodesic (cc_pois c) (cluster_coordinates c) = Inr r \<and> 1/10 \<le> r \<and> r \<le> 50))"
    if "c \<in> set cs" for c
  proof -
    have c: "c \<in> set scored" "3/10 \<le> cc_confidence c" using that by (simp_all add: cs)
    obtain b where "b \<in> set valid" "cc_pois b = cc_pois c" "cluster_coordinates b = cluster_coordinates c"
      using sc [OF c(1)] by blast
    with v conf [OF c(1)] c(2) show ?thesis by metis
  qed
  moreover have "mset (concat (map cc_pois scored)) \<subseteq># mset pois" using gr v sp by simp
  ultimately show ?thesis using gr i(1,2) by (intro exI [of _ cells] exI [of _ groups]) (blast intro: subset_mset.order_trans)
qed


lemma clusters_of_part:
  assumes "clusters_of default_clustering_config geodesic h3 dbscan pois = Inr cs" "labels_all dbscan"
  shows "mset (concat (map cc_pois cs)) \<subseteq># mset pois"
  using clusters_of_account [OF assms] by blast

text \<open>
  C11: the computation of the clusters of cities (an answer out of its cache apart) invents and duplicates no place: the places of its
  clusters are a part of the given ones, which the refinement by DBSCAN splits into groups without losing any; every cluster is one of
  these groups, a group of a single place is never lost, a cluster of several places has a radius between 100 m and 50 km, and every
  confidence lies between 0.3 and 1.
\<close>

theorem detected_cities_account_for_places:
  assumes "clusters_of default_clustering_config geodesic h3 dbscan pois = Inr cs" "labels_all dbscan"
  shows "\<exists>cells groups. group_by_cell h3 pois [] = Inr cells \<and> dbscan_refinement default_clustering_config dbscan cells = Inr groups \<and>
    mset (concat groups) = mset pois \<and> mset (concat (map cc_pois cs)) \<subseteq># mset pois \<and>
    (\<forall>g \<in> set groups. length g = 1 \<longrightarrow> g \<in> set (map cc_pois cs)) \<and>
    (\<forall>c \<in> set cs. cc_pois c \<in> set groups \<and> 3/10 \<le> cc_confidence c \<and> cc_confidence c \<le> 1 \<and>
       (length (cc_pois c) = 1 \<or> (\<exists>r. cluster_radius geodesic (cc_pois c) (cluster_coordinates c) = Inr r \<and> 1/10 \<le> r \<and> r \<le> 50)))"
  using assms by (rule clusters_of_account)

theorem detected_cities_account_for_places_witness:
  "\<exists>cs. clusters_of default_clustering_config (\<lambda>p q. 0) (\<lambda>q. Inr ''cell'') (\<lambda>eps m cs. Inr (replicate (length cs) 0))
       [[(''name'', VStr ''Louvre''), (''lat'', VInt 0), (''lon'', VInt 0), (''city'', VStr ''Paris'')]] = Inr cs \<and>
     length cs = 1 \<and> mset (concat (map cc_pois cs)) \<subseteq>#
       mset [[(''name'', VStr ''Louvre''), (''lat'', VInt 0), (''lon'', VInt 0), (''city'', VStr ''Paris'')]]"
proof -
  let ?db = "\<lambda>(eps :: real) (m :: int) (cs :: coord list). Inr (replicate (length cs) 0) :: int list res"
  let ?ps = "[[(''name'', VStr ''Louvre''), (''lat'', VInt 0), (''lon'', VInt 0), (''city'', VStr ''Paris'')]]"
  obtain cs where r: "clusters_of default_clustering_config (\<lambda>p q. 0) (\<lambda>q. Inr ''cell'') ?db ?ps = Inr cs" "length cs = 1"
    by (simp add: one_place_simps)
  have "labels_all ?db" by (simp add: labels_all_def)
  from detected_cities_account_for_places [OF r(1) this] r show ?thesis by blast
qed

lemma group_one_cell:
  "rmap_list poi_coord ps = Inr cs \<Longrightarrow> \<forall>q \<in> set cs. h3 q = Inr cell \<Longrightarrow>
   group_by_cell h3 ps [(cell, xs)] = Inr [(cell, xs @ ps)]"
  by (induction ps arbitrary: cs xs) (auto simp: rbind_eq_Inr_iff poi_coord_def add_to_def)

lemma fold_add_to_one: "fold (\<lambda>(k, p). add_to k p) (map (\<lambda>p. (l, p)) ps) [(l, xs)] = [(l, xs @ ps)]"
  by (induction ps arbitrary: xs) (auto simp: add_to_def)

lemma dbscan_groups_one: "l \<noteq> - 1 \<Longrightarrow> dbscan_groups (zip (replicate (Suc (length ps)) l) (p # ps)) = [(l, p # ps)]"
proof -
  assume l: "l \<noteq> - 1"
  have "zip (replicate (length ps) l) ps = map (\<lambda>p. (l, p)) ps" by (induction ps) auto
  moreover have "filter (\<lambda>(k, p). k \<noteq> - 1) (map (\<lambda>p. (l, p)) ps) = map (\<lambda>p. (l, p)) ps" using l by (induction ps) auto
  ultimately show ?thesis using l fold_add_to_one [of l ps "[p]"] by (simp add: dbscan_groups_def add_to_def)
qed

text \<open>
  places that stand close together are lost: when a trip's places form one group whose
  radius is below 100 m, no city is detected at all.
\<close>

theorem close_places_vanish:
  assumes "rmap_list poi_coord pois = Inr cs" "2 \<le> length pois" "\<forall>q \<in> set cs. h3 q = Inr cell"
    and "dbscan (25/111) 2 cs = Inr (replicate (length pois) l)" "l \<noteq> - 1"
    and "mean_coord pois = Inr center" "cluster_radius geodesic pois center = Inr r" "r < 1/10"
  shows "clusters_of default_clustering_config geodesic h3 dbscan pois = Inr []"
proof -
  obtain p ps where p: "pois = p # ps" using assms(2) by (cases pois) auto
  with assms(1) obtain q cs' where q: "poi_coord p = Inr q" "cs = q # cs'" "rmap_list poi_coord ps = Inr cs'"
    by (auto simp: rbind_eq_Inr_iff)
  have "group_by_cell h3 pois [] = Inr [(cell, pois)]"
    using group_one_cell [OF q(3), of h3 cell "[p]"] assms(3) q(1,2)
    by (auto simp: p poi_coord_def rbind_eq_Inr_iff add_to_def)
  moreover have "refine_cell default_clustering_config dbscan pois = Inr [pois]"
    using assms(1,2,4,5) dbscan_groups_one [OF assms(5), of ps p]
    by (auto simp: refine_cell_def default_clustering_config_def p filter_empty_conv in_set_replicate dest!: set_zip_leftD)
  moreover have "validate_group default_clustering_config geodesic (0, pois) = Inr []"
    using assms(2,6,7,8) by (auto simp: validate_group_def default_clustering_config_def)
  ultimately show ?thesis
    by (simp add: clusters_of_def dbscan_refinement_def validate_and_name_clusters_def calculate_confidence_scores_def)
qed

theorem close_places_vanish_witness:
  "clusters_of default_clustering_config (\<lambda>p q. 0) (\<lambda>q. Inr ''cell'') (\<lambda>eps m cs. Inr (replicate (length cs) 0))
     (replicate 2 [(''lat'', VInt 0), (''lon'', VInt 0)]) = Inr []"
  by (rule close_places_vanish [where l = 0 and cell = "''cell''" and r = 0 and center = "(0, 0)" and cs = "replicate 2 (0, 0)"])
    (simp_all add: poi_coord_def pnum_def dindex_def mean_coord_def cluster_radius_def center_distances_def numeral_2_eq_2)

text \<open>
  the answers are remembered by printed coordinates alone: after one answered request, every
  other list of places with the same key gets the clusters of the first, whatever its names, cities and
  countries are.
\<close>

theorem clusters_remembered_by_coordinates:
  assumes "cluster_pois_advanced cf geodesic h3 dbscan pois cache = Inr (cs, cache')" "pois \<noteq> []" "other \<noteq> []"
    and "clustering_key other = clustering_key pois"
  shows "cluster_pois_advanced cf geodesic2 h32 dbscan2 other cache' = Inr (cs, cache')"
  using assms by (auto simp: cluster_pois_advanced_def rbind_eq_Inr_iff split: option.splits)

theorem clusters_remembered_by_coordinates_witness:
  "\<exists>cs cache.
     cluster_pois_advanced default_clustering_config (\<lambda>p q. 0) (\<lambda>q. Inr ''cell'') (\<lambda>eps m cs. Inr [])
       [[(''name'', VStr ''Louvre''), (''lat'', VInt 0), (''lon'', VInt 0), (''city'', VStr ''Paris'')]] [] = Inr (cs, cache) \<and>
     map cc_name cs = [VStr ''Paris''] \<and>
     cluster_pois_advanced default_clustering_config (\<lambda>p q. 0) (\<lambda>q. Inr ''cell'') (\<lambda>eps m cs. Inr [])
       [[(''name'', VStr ''Prado''), (''lat'', VInt 0), (''lon'', VInt 0), (''city'', VStr ''Madrid'')]] cache = Inr (cs, cache)"
proof -
  let ?run = "cluster_pois_advanced default_clustering_config (\<lambda>p q. 0) (\<lambda>q. Inr ''cell'') (\<lambda>eps m cs. Inr [])"
  let ?louvre = "[[(''name'', VStr ''Louvre''), (''lat'', VInt 0), (''lon'', VInt 0), (''city'', VStr ''Paris'')]]"
  let ?prado = "[[(''name'', VStr ''Prado''), (''lat'', VInt 0), (''lon'', VInt 0), (''city'', VStr ''Madrid'')]]"
  have k: "clustering_key ?prado = clustering_key ?louvre" by (simp add: clustering_key_def poi_coord_def pnum_def dindex_def)
  obtain cs cache where r: "?run ?louvre [] = Inr (cs, cache)" "map cc_name cs = [VStr ''Paris'']"
    by (simp add: cluster_pois_advanced_def clustering_key_def one_place_simps)
  from clusters_remembered_by_coordinates [OF r(1) list.distinct(2) list.distinct(2) k] r show ?thesis by (intro exI [of _ cs] exI [of _ cache]) simp
qed

lemma strip_head: "strip s = s \<Longrightarrow> s = c # t \<Longrightarrow> \<not> is_space c"
proof
  assume a: "strip s = s" "s = c # t" "is_space c"
  have "length (strip s) \<le> length (dropWhile is_space s)"
    unfolding strip_def by (metis length_dropWhile_le length_rev)
  also have "\<dots> \<le> length t" using a(2,3) by (simp add: length_dropWhile_le)
  finally show False using a(1,2) by simp
qed

lemma strip_before_comma:
  assumes "\<not> is_space c"
  shows "strip ((c # s) @ CHR '','' # t) = (c # s) @ CHR '','' # rev (dropWhile is_space (rev t))"
proof -
  have "\<not> is_space (CHR '','')" by (simp add: is_space_def)
  then show ?thesis using assms by (simp add: strip_def dropWhile_append dropWhile_eq_Nil_conv)
qed

text \<open>
  a city written before its country, with one comma and no digit, is read back, whatever spaces
  follow; with a street before it, it is read back too.
\<close>

theorem city_before_country:
  assumes "strip city = city" "city \<noteq> []" "CHR '','' \<notin> set city" "\<forall>c \<in> set city. \<not> is_digit c" "CHR '','' \<notin> set country"
    and "strip street = street" "street \<noteq> []" "CHR '','' \<notin> set street"
  shows "extract_city_from_address (city @ '','' @ country) = Some city \<and>
    extract_city_from_address (street @ '','' @ city @ '','' @ country) = Some city"
proof -
  let ?r = "rev (dropWhile is_space (rev country))"
  obtain c city' where c: "city = c # city'" "\<not> is_space c" using assms(1,2) strip_head by (cases city) auto
  obtain d street' where d: "street = d # street'" "\<not> is_space d" using assms(6,7) strip_head by (cases street) auto
  have "CHR '','' \<notin> set ?r" using assms(5) by (auto dest: set_dropWhileD)
  then have p: "split_on (CHR '','') (city @ CHR '','' # ?r) = [city, ?r]"
    using assms(3) by (simp add: split_on_append split_on_none)
  have "strip (city @ CHR '','' # country) = city @ CHR '','' # ?r"
    using strip_before_comma [OF c(2)] by (simp add: c(1))
  moreover have "strip (street @ CHR '','' # city @ CHR '','' # country) = street @ CHR '','' # city @ CHR '','' # ?r"
    using strip_before_comma [OF d(2), of "street' @ CHR '','' # city"] by (simp add: d(1))
  ultimately show ?thesis using assms(1,2,4,7,8) p
    by (simp add: extract_city_from_address_def split_on_append numeral_2_eq_2 numeral_3_eq_3 del: rev_is_Nil_conv)
qed

theorem city_before_country_witness:
  "extract_city_from_address ''Antofagasta, Chile '' = Some ''Antofagasta'' \<and>
   extract_city_from_address ''Avenida 12,Antofagasta, Chile '' = Some ''Antofagasta''"
  using city_before_country [of "''Antofagasta''" "'' Chile ''" "''Avenida 12''"]
  by (simp add: strip_def is_space_def is_digit_def digit_val_def)

text \<open>The first key that occurs anywhere in the address wins: Perugia lies in Peru, Milwaukee in the United Kingdom.\<close>

lemma countries_by_substring:
  "extract_country_from_address ''Perugia, Italy'' = Some ''Peru''"
  "extract_country_from_address ''Milwaukee, USA'' = Some ''United Kingdom''"
  by code_simp+

end
