(* ===== verification/MultiCity.thy ===== *)
theory MultiCity
  imports CityClustering
begin

section \<open>Trips through several cities\<close>

text \<open>
  src/services/multi\_city\_optimizer\_simple.py (the optimiser the API uses) and
  src/services/multi\_city\_optimizer.py (the full one).  The clusters come from the modelled service.
  The integrator whose method the full optimiser calls is a parameter; the class in the repository
  has no method of that name, so that every call raises \<open>AttributeError\<close> (\<open>no_such_method\<close>).
\<close>

subsection \<open>Itineraries\<close>

datatype strategy = SINGLE_CITY_ORTOOLS | INTERCITY_HYBRID | MULTI_COUNTRY_COMPLEX | CUSTOM_EUROTRIP

record multi_city_itinerary =
  it_cities :: "city list"
  it_routes :: "intercity_route list"
  it_schedule :: "(int, pydict list) dict"
  it_accommodations :: "pydict list"
  it_days :: int
  it_distance_km :: real
  it_strategy :: strategy
  it_confidence :: real

definition cities_count :: "multi_city_itinerary \<Rightarrow> nat" where
  "cities_count it = length (it_cities it)"

definition countries_count :: "multi_city_itinerary \<Rightarrow> nat" where
  "countries_count it = card (set (map ci_country (it_cities it)))"

definition get_city_sequence :: "multi_city_itinerary \<Rightarrow> pyval list" where
  "get_city_sequence it = map ci_name (it_cities it)"

definition intercity_threshold_km :: real where "intercity_threshold_km = 300"

definition international_threshold_km :: real where "international_threshold_km = 800"

definition convert_clusters_to_cities :: "city_cluster list \<Rightarrow> city list" where
  "convert_clusters_to_cities =
     map (\<lambda>c. \<lparr>ci_name = cc_name c, ci_lat = cc_lat c, ci_lon = cc_lon c, ci_country = cc_country c, ci_pois = cc_pois c\<rparr>)"

definition max_pair_distance :: "(coord \<Rightarrow> coord \<Rightarrow> real) \<Rightarrow> city list \<Rightarrow> real" where
  "max_pair_distance geodesic cities = fold max (pair_distances (distance_to geodesic) cities) 0"

definition simple_strategy :: "(coord \<Rightarrow> coord \<Rightarrow> real) \<Rightarrow> city list \<Rightarrow> strategy" where
  "simple_strategy geodesic cities =
     (let mx = max_pair_distance geodesic cities
      in if length cities \<le> 1 then SINGLE_CITY_ORTOOLS
         else if length cities = 2 \<and> mx \<le> intercity_threshold_km then INTERCITY_HYBRID
         else if card (set (map ci_country cities)) > 1 \<or> mx > international_threshold_km then MULTI_COUNTRY_COMPLEX
         else INTERCITY_HYBRID)"

definition full_strategy :: "(coord \<Rightarrow> coord \<Rightarrow> real) \<Rightarrow> city list \<Rightarrow> strategy" where
  "full_strategy geodesic cities =
     (let mx = max_pair_distance geodesic cities
      in if length cities \<le> 1 then SINGLE_CITY_ORTOOLS
         else if length cities = 2 \<and> mx \<le> intercity_threshold_km then INTERCITY_HYBRID
         else if card (set (map ci_country cities)) > 2 \<or> mx > international_threshold_km then MULTI_COUNTRY_COMPLEX
         else if length cities \<le> 4 \<and> mx \<le> international_threshold_km then INTERCITY_HYBRID
         else CUSTOM_EUROTRIP)"

definition first_truthy :: "string \<Rightarrow> pydict list \<Rightarrow> pyval option" where
  "first_truthy k pois =
     (case List.map_filter (\<lambda>p. case map_of p k of Some v \<Rightarrow> if truthy v then Some v else None | None \<Rightarrow> None) pois of
        [] \<Rightarrow> None | v # vs \<Rightarrow> Some v)"

definition infer_city_name :: "pydict list \<Rightarrow> pyval" where
  "infer_city_name pois =
     (case first_truthy ''city'' pois of Some v \<Rightarrow> v | None \<Rightarrow> VStr (''City_'' @ show_nat (length pois) @ ''_POIs''))"

definition infer_country :: "pydict list \<Rightarrow> pyval" where
  "infer_country pois = (case first_truthy ''country'' pois of Some v \<Rightarrow> v | None \<Rightarrow> VStr ''Unknown'')"

definition city_of_all :: "pydict list \<Rightarrow> city res" where
  "city_of_all pois =
     rbind (mean_coord pois) (\<lambda>c.
     Inr \<lparr>ci_name = infer_city_name pois, ci_lat = fst c, ci_lon = snd c, ci_country = infer_country pois, ci_pois = pois\<rparr>)"

subsection \<open>Days\<close>

text \<open>The day \<open>d\<close> of \<open>n\<close> when each but the last takes \<open>k\<close> places: the last takes the rest.\<close>

definition day_slice :: "'a list \<Rightarrow> nat \<Rightarrow> nat \<Rightarrow> nat \<Rightarrow> 'a list" where
  "day_slice pois k n d = (if d < n then take k (drop ((d - 1) * k) pois) else drop ((d - 1) * k) pois)"

definition slices :: "pydict list \<Rightarrow> nat \<Rightarrow> int \<Rightarrow> (int, pydict list) dict" where
  "slices pois k days = map (\<lambda>d. (int d, day_slice pois k (nat days) d)) [1..<Suc (nat days)]"

definition simple_daily_distribution :: "pydict list \<Rightarrow> int \<Rightarrow> (int, pydict list) dict" where
  "simple_daily_distribution pois days =
     (if pois = [] then []
      else slices pois (if days > 0 then max 1 (length pois div nat days) else length pois) days)"

text \<open>The full optimiser divides by the days without looking.\<close>

definition full_daily_distribution :: "pydict list \<Rightarrow> int \<Rightarrow> (int, pydict list) dict res" where
  "full_daily_distribution pois days =
     (if days = 0 then Inl ZeroDivisionError
      else Inr (slices pois (nat (max 1 (int (length pois) div days))) days))"

definition city_weight :: "city \<Rightarrow> real" where
  "city_weight c = (if ci_pois c \<noteq> [] then real (length (ci_pois c)) else 1)"

definition famous_cities :: "string list" where
  "famous_cities = [''paris'', ''london'', ''rome'', ''berlin'', ''madrid'']"

definition full_city_weight :: "city \<Rightarrow> real res" where
  "full_city_weight c =
     rbind (vlower (ci_name c)) (\<lambda>n. Inr (if n \<in> set famous_cities then city_weight c * (3/2) else city_weight c))"

text \<open>The first key of greatest weight.\<close>

fun heaviest :: "'k \<times> real \<Rightarrow> ('k, real) dict \<Rightarrow> 'k" where
  "heaviest best [] = fst best"
| "heaviest best (kv # kvs) = heaviest (if snd kv > snd best then kv else best) kvs"

definition share_of :: "real \<Rightarrow> real \<Rightarrow> int \<Rightarrow> int" where
  "share_of w total_weight total_days = max 1 (round_half_even (w / total_weight * real_of_int total_days))"

definition values_sum :: "('k, 'v :: comm_monoid_add) dict \<Rightarrow> 'v" where
  "values_sum d = sum_list (map snd d)"

definition shares_of :: "('k, real) dict \<Rightarrow> int \<Rightarrow> ('k, int) dict" where
  "shares_of weights total_days = map (\<lambda>(k, w). (k, share_of w (values_sum weights) total_days)) weights"

definition add_days :: "'k \<Rightarrow> int \<Rightarrow> ('k, int) dict \<Rightarrow> ('k, int) dict" where
  "add_days m x d = map (\<lambda>(k, v). (k, if k = m then v + x else v)) d"

definition distribute_by_weight :: "('k, real) dict \<Rightarrow> int \<Rightarrow> ('k, int) dict" where
  "distribute_by_weight weights total_days =
     (let shares = shares_of weights total_days; actual = values_sum shares
      in if actual \<noteq> total_days then add_days (heaviest (hd weights) (tl weights)) (total_days - actual) shares else shares)"

definition distribute_days_among_cities :: "city list \<Rightarrow> int \<Rightarrow> (pyval, int) dict" where
  "distribute_days_among_cities cities total_days =
     (if cities = [] then [] else distribute_by_weight (fold (\<lambda>c. dset (ci_name c) (city_weight c)) cities []) total_days)"

definition full_distribute_days :: "city list \<Rightarrow> int \<Rightarrow> (pyval, int) dict res" where
  "full_distribute_days cities total_days =
     (if cities = [] then Inr []
      else rbind (rmap_list full_city_weight cities) (\<lambda>ws.
        Inr (distribute_by_weight (fold (\<lambda>(c, w). dset (ci_name c) w) (zip cities ws) []) total_days)))"

definition day_of :: "(pyval, int) dict \<Rightarrow> city \<Rightarrow> int" where
  "day_of days c = (case map_of days (ci_name c) of None \<Rightarrow> 1 | Some d \<Rightarrow> d)"

subsection \<open>The simple optimiser\<close>

text \<open>The days of one city from \<open>current\<close> on.\<close>

definition put_days :: "(int, pydict list) dict \<Rightarrow> int \<Rightarrow> int \<Rightarrow> (int, pydict list) dict \<Rightarrow> (int, pydict list) dict" where
  "put_days city_schedule current city_days schedule =
     fold (\<lambda>i. dset (current + int i) (case map_of city_schedule (int i + 1) of None \<Rightarrow> [] | Some ps \<Rightarrow> ps))
       [0..<nat city_days] schedule"

definition add_city_days :: "(pyval, int) dict \<Rightarrow> city \<Rightarrow> int \<times> (int, pydict list) dict \<Rightarrow> int \<times> (int, pydict list) dict" where
  "add_city_days days c = (\<lambda>(current, schedule).
     (current + day_of days c, put_days (simple_daily_distribution (ci_pois c) (day_of days c)) current (day_of days c) schedule))"

fun leg_distances :: "(coord \<Rightarrow> coord \<Rightarrow> real) \<Rightarrow> city list \<Rightarrow> real" where
  "leg_distances geodesic (a # b # cs) = distance_to geodesic a b + leg_distances geodesic (b # cs)"
| "leg_distances geodesic cs = 0"

definition optimize_single_city_simple :: "pydict list \<Rightarrow> int \<Rightarrow> multi_city_itinerary res" where
  "optimize_single_city_simple pois days =
     rbind (city_of_all pois) (\<lambda>c.
     Inr \<lparr>it_cities = [c], it_routes = [], it_schedule = simple_daily_distribution pois days, it_accommodations = [],
          it_days = days, it_distance_km = 0, it_strategy = SINGLE_CITY_ORTOOLS, it_confidence = 8/10\<rparr>)"

definition optimize_intercity_hybrid_simple ::
  "(coord \<Rightarrow> coord \<Rightarrow> real) \<Rightarrow> city list \<Rightarrow> int \<Rightarrow> pyval option \<Rightarrow> multi_city_itinerary" where
  "optimize_intercity_hybrid_simple geodesic cities days start_city =
     (let seq = find_optimal_city_sequence geodesic cities start_city; dpc = distribute_days_among_cities seq days
      in \<lparr>it_cities = seq, it_routes = [], it_schedule = snd (fold (add_city_days dpc) seq (1, [])), it_accommodations = [],
          it_days = days, it_distance_km = leg_distances geodesic seq, it_strategy = INTERCITY_HYBRID, it_confidence = 7/10\<rparr>)"

definition optimize_multi_city_simple ::
  "(coord \<Rightarrow> coord \<Rightarrow> real) \<Rightarrow> (coord \<Rightarrow> string res) \<Rightarrow> (real \<Rightarrow> int \<Rightarrow> coord list \<Rightarrow> int list res) \<Rightarrow>
   pydict list \<Rightarrow> int \<Rightarrow> pyval option \<Rightarrow> clustering_cache \<Rightarrow> (multi_city_itinerary \<times> clustering_cache) res" where
  "optimize_multi_city_simple geodesic h3 dbscan pois days start_city cache =
     rbind (cluster_pois_advanced default_clustering_config geodesic h3 dbscan pois cache) (\<lambda>(clusters, cache1).
     let cities = convert_clusters_to_cities clusters
     in if simple_strategy geodesic cities = SINGLE_CITY_ORTOOLS
        then rbind (optimize_single_city_simple pois days) (\<lambda>it. Inr (it, cache1))
        else Inr (optimize_intercity_hybrid_simple geodesic cities days start_city, cache1))"

subsection \<open>The full optimiser\<close>

definition no_such_method :: "pydict list \<Rightarrow> int \<Rightarrow> pydict res" where
  "no_such_method pois days = Inl AttributeError"

fun days_of_items :: "int \<Rightarrow> pyval list \<Rightarrow> (int, pyval list) dict \<Rightarrow> (int, pyval list) dict res" where
  "days_of_items current [] schedule = Inr schedule"
| "days_of_items current (v # vs) schedule =
     rbind (vget v ''type'' VNone) (\<lambda>t.
     if t = VStr ''poi'' then days_of_items current vs (add_to current v schedule)
     else if t = VStr ''day_end'' then days_of_items (current + 1) vs schedule
     else days_of_items current vs schedule)"

definition as_dict :: "pyval \<Rightarrow> pydict" where
  "as_dict v = (case v of VDict d \<Rightarrow> d | _ \<Rightarrow> [])"

definition convert_ortools_to_daily_schedule :: "pyval \<Rightarrow> (int, pydict list) dict res" where
  "convert_ortools_to_daily_schedule items =
     rbind (viter items) (\<lambda>vs. rbind (days_of_items 1 vs []) (\<lambda>d. Inr (map (\<lambda>(k, ps). (k, map as_dict ps)) d)))"

definition create_fallback_itinerary :: "pydict list \<Rightarrow> int \<Rightarrow> multi_city_itinerary res" where
  "create_fallback_itinerary pois days =
     rbind (city_of_all pois) (\<lambda>c. rbind (full_daily_distribution pois days) (\<lambda>s.
     Inr \<lparr>it_cities = [c], it_routes = [], it_schedule = s, it_accommodations = [], it_days = days, it_distance_km = 0,
          it_strategy = SINGLE_CITY_ORTOOLS, it_confidence = 1/2\<rparr>))"

text \<open>The branch inside \<open>try\<close>; \<open>None\<close> when the integrator reports a failure.\<close>

definition try_single_city :: "(pydict list \<Rightarrow> int \<Rightarrow> pydict res) \<Rightarrow> pydict list \<Rightarrow> int \<Rightarrow> multi_city_itinerary option res" where
  "try_single_city integrator pois days =
     rbind (integrator pois days) (\<lambda>result. rbind (dindex result ''success'') (\<lambda>ok.
     if \<not> truthy ok then Inr None
     else
       rbind (city_of_all pois) (\<lambda>c.
       rbind (rbind (dindex result ''itinerary'') convert_ortools_to_daily_schedule) (\<lambda>s.
       rbind (need_num (dget result ''confidence'' (VFloat (9/10)))) (\<lambda>conf.
       Inr (Some \<lparr>it_cities = [c], it_routes = [], it_schedule = s, it_accommodations = [], it_days = days,
                  it_distance_km = 0, it_strategy = SINGLE_CITY_ORTOOLS, it_confidence = conf\<rparr>))))))"

definition optimize_single_city :: "(pydict list \<Rightarrow> int \<Rightarrow> pydict res) \<Rightarrow> pydict list \<Rightarrow> int \<Rightarrow> multi_city_itinerary res" where
  "optimize_single_city integrator pois days =
     (case try_single_city integrator pois days of Inr (Some it) \<Rightarrow> Inr it | _ \<Rightarrow> create_fallback_itinerary pois days)"

definition try_city_pois :: "(pydict list \<Rightarrow> int \<Rightarrow> pydict res) \<Rightarrow> pydict list \<Rightarrow> int \<Rightarrow> (int, pydict list) dict res" where
  "try_city_pois integrator pois days =
     rbind (integrator pois days) (\<lambda>result. rbind (dindex result ''success'') (\<lambda>ok.
     if truthy ok then rbind (dindex result ''itinerary'') convert_ortools_to_daily_schedule
     else full_daily_distribution pois days))"

definition optimize_city_pois_with_ortools ::
  "(pydict list \<Rightarrow> int \<Rightarrow> pydict res) \<Rightarrow> pydict list \<Rightarrow> int \<Rightarrow> (int, pydict list) dict res" where
  "optimize_city_pois_with_ortools integrator pois days =
     (case try_city_pois integrator pois days of Inr s \<Rightarrow> Inr s | Inl e \<Rightarrow> full_daily_distribution pois days)"

definition full_city_days ::
  "(pydict list \<Rightarrow> int \<Rightarrow> pydict res) \<Rightarrow> (pyval, int) dict \<Rightarrow> city \<Rightarrow> int \<times> (int, pydict list) dict \<Rightarrow> (int \<times> (int, pydict list) dict) res" where
  "full_city_days integrator days c = (\<lambda>(current, schedule).
     if ci_pois c = [] then Inr (current + day_of days c, schedule)
     else
       rbind (optimize_city_pois_with_ortools integrator (ci_pois c) (day_of days c)) (\<lambda>s.
       Inr (current + day_of days c, put_days s current (day_of days c) schedule)))"

text \<open>\<open>find_hotels\<close> is the search of the recommender, another method that does not exist.\<close>

definition plan_intercity_accommodations ::
  "(pydict list \<Rightarrow> int \<Rightarrow> pyval list res) \<Rightarrow> city list \<Rightarrow> (pyval, int) dict \<Rightarrow> pydict list" where
  "plan_intercity_accommodations find_hotels cities days =
     concat (map (\<lambda>c.
       if day_of days c > 1
       then (case find_hotels (ci_pois c) (day_of days c - 1) of
               Inr (h # hs) \<Rightarrow>
                 [[(''city'', ci_name c), (''hotel'', h), (''nights'', VInt (day_of days c - 1)),
                   (''coordinates'', VList [VFloat (ci_lat c), VFloat (ci_lon c)])]]
             | _ \<Rightarrow> [])
       else []) cities)"

definition plan_international_accommodations :: "city list \<Rightarrow> pydict list" where
  "plan_international_accommodations cities =
     map (\<lambda>c. [(''city'', ci_name c), (''country'', ci_country c), (''type'', VStr ''hotel''),
               (''coordinates'', VList [VFloat (ci_lat c), VFloat (ci_lon c)]), (''nights'', VInt 1)])
       (filter (\<lambda>c. 2 \<le> length (ci_pois c)) cities)"

record trip_services =
  ts_geodesic :: "coord \<Rightarrow> coord \<Rightarrow> real"
  ts_osrm :: "coord \<Rightarrow> coord \<Rightarrow> pydict option res"
  ts_integrator :: "pydict list \<Rightarrow> int \<Rightarrow> pydict res"
  ts_hotels :: "pydict list \<Rightarrow> int \<Rightarrow> pyval list res"

definition optimize_intercity_hybrid ::
  "trip_services \<Rightarrow> city list \<Rightarrow> int \<Rightarrow> pyval option \<Rightarrow> intercity_service \<Rightarrow> (multi_city_itinerary \<times> intercity_service) res" where
  "optimize_intercity_hybrid sv cities days start_city s =
     (let seq = find_optimal_city_sequence (ts_geodesic sv) cities start_city
      in rbind (calculate_intercity_routes (ts_geodesic sv) (ts_osrm sv) seq s) (\<lambda>(routes, s1).
         rbind (full_distribute_days cities days) (\<lambda>dpc.
         rbind (rfold (full_city_days (ts_integrator sv) dpc) seq (1, [])) (\<lambda>(current, schedule).
         Inr (\<lparr>it_cities = seq, it_routes = filter (\<lambda>r. ir_origin r \<in> set seq \<and> ir_destination r \<in> set seq) routes,
               it_schedule = schedule, it_accommodations = plan_intercity_accommodations (ts_hotels sv) seq dpc,
               it_days = days, it_distance_km = sum_list (map ir_distance_km routes), it_strategy = INTERCITY_HYBRID,
               it_confidence = 8/10\<rparr>, s1)))))"

definition group_cities_by_country :: "city list \<Rightarrow> (pyval, city list) dict" where
  "group_cities_by_country cities = fold (\<lambda>c. add_to (ci_country c) c) cities []"

definition optimize_country_sequence :: "(pyval, city list) dict \<Rightarrow> pyval option \<Rightarrow> pyval list" where
  "optimize_country_sequence d start_city =
     (if length d \<le> 1 then keys d
      else
        case start_city of
          None \<Rightarrow> keys d
        | Some n \<Rightarrow>
            if \<not> truthy n then keys d
            else (case List.find (\<lambda>(k, cs). \<exists>c \<in> set cs. ci_name c = n) d of
                    None \<Rightarrow> keys d | Some (k, cs) \<Rightarrow> k # remove1 k (keys d)))"

definition distribute_days_among_countries :: "(pyval, city list) dict \<Rightarrow> int \<Rightarrow> (pyval, int) dict" where
  "distribute_days_among_countries d total_days =
     shares_of (map (\<lambda>(k, cs). (k, max 1 (real (sum_list (map (\<lambda>c. length (ci_pois c)) cs))))) d) total_days"

record country_trip =
  ct_cities :: "city list"
  ct_routes :: "intercity_route list"
  ct_schedule :: "(int, pydict list) dict"
  ct_current :: int
  ct_service :: intercity_service

definition add_country ::
  "trip_services \<Rightarrow> (pyval, city list) dict \<Rightarrow> (pyval, int) dict \<Rightarrow> pyval \<Rightarrow> country_trip \<Rightarrow> country_trip res" where
  "add_country sv by_country days country t =
     (case (map_of by_country country, map_of days country) of
        (Some cities, Some n) \<Rightarrow>
          rbind (optimize_intercity_hybrid sv cities n None (ct_service t)) (\<lambda>(it, s).
          Inr \<lparr>ct_cities = ct_cities t @ it_cities it, ct_routes = ct_routes t @ it_routes it,
               ct_schedule = fold (\<lambda>(d, ps). dset (ct_current t + d - 1) ps) (it_schedule it) (ct_schedule t),
               ct_current = ct_current t + n, ct_service = s\<rparr>)
      | _ \<Rightarrow> Inl KeyError)"

definition optimize_multi_country ::
  "trip_services \<Rightarrow> city list \<Rightarrow> int \<Rightarrow> pyval option \<Rightarrow> intercity_service \<Rightarrow> (multi_city_itinerary \<times> intercity_service) res" where
  "optimize_multi_country sv cities days start_city s =
     (let by_country = group_cities_by_country cities; dpc = distribute_days_among_countries by_country days
      in rbind (rfold (add_country sv by_country dpc) (optimize_country_sequence by_country start_city)
             \<lparr>ct_cities = [], ct_routes = [], ct_schedule = [], ct_current = 1, ct_service = s\<rparr>) (\<lambda>t.
         Inr (\<lparr>it_cities = ct_cities t, it_routes = ct_routes t, it_schedule = ct_schedule t,
               it_accommodations = plan_international_accommodations (ct_cities t), it_days = days, it_distance_km = 0,
               it_strategy = MULTI_COUNTRY_COMPLEX, it_confidence = 7/10\<rparr>, ct_service t)))"

definition optimize_multi_city ::
  "trip_services \<Rightarrow> (coord \<Rightarrow> string res) \<Rightarrow> (real \<Rightarrow> int \<Rightarrow> coord list \<Rightarrow> int list res) \<Rightarrow> pydict list \<Rightarrow> int \<Rightarrow> pyval option \<Rightarrow>
   clustering_cache \<times> intercity_service \<Rightarrow> (multi_city_itinerary \<times> clustering_cache \<times> intercity_service) res" where
  "optimize_multi_city sv h3 dbscan pois days start_city = (\<lambda>(cache, s).
     rbind (cluster_pois_advanced default_clustering_config (ts_geodesic sv) h3 dbscan pois cache) (\<lambda>(clusters, cache1).
     let cities = convert_clusters_to_cities clusters
     in (case full_strategy (ts_geodesic sv) cities of
           SINGLE_CITY_ORTOOLS \<Rightarrow> rbind (optimize_single_city (ts_integrator sv) pois days) (\<lambda>it. Inr (it, cache1, s))
         | INTERCITY_HYBRID \<Rightarrow> rbind (optimize_intercity_hybrid sv cities days start_city s) (\<lambda>(it, s1). Inr (it, cache1, s1))
         | _ \<Rightarrow> rbind (optimize_multi_country sv cities days start_city s) (\<lambda>(it, s1). Inr (it, cache1, s1)))))"

subsection \<open>Lemmas\<close>

lemma heaviest_mem: "\<exists>w. (heaviest kv kvs, w) \<in> set (kv # kvs) \<and> (\<forall>kv' \<in> set (kv # kvs). snd kv' \<le> w)"
proof (induction kv kvs rule: heaviest.induct)
  case (1 kv)
  then show ?case by (cases kv) simp
next
  case (2 kv x xs)
  then obtain w where w: "(heaviest kv (x # xs), w) \<in> set ((if snd x > snd kv then x else kv) # xs)"
    "\<forall>kv' \<in> set ((if snd x > snd kv then x else kv) # xs). snd kv' \<le> w" by auto
  show ?case by (rule exI [of _ w]) (use w in \<open>auto split: if_splits\<close>)
qed

lemma keys_shares [simp]: "map fst (shares_of ws n) = map fst ws"
  by (simp add: shares_of_def case_prod_unfold)

lemma keys_add_days [simp]: "map fst (add_days m x d) = map fst d"
  by (simp add: add_days_def case_prod_unfold)

lemma add_days_other: "m \<notin> fst ` set d \<Longrightarrow> add_days m x d = d"
  by (induction d) (auto simp: add_days_def)

lemma add_days_Cons: "add_days m x ((k, v) # d) = (k, if k = m then v + x else v) # add_days m x d"
  by (simp add: add_days_def)

lemma values_sum_Cons: "values_sum ((k, v) # d) = v + values_sum d"
  by (simp add: values_sum_def)

lemma values_sum_append: "values_sum (d @ e) = values_sum d + values_sum e"
  by (simp add: values_sum_def)

lemma values_sum_add_days: "distinct (map fst d) \<Longrightarrow> m \<in> fst ` set d \<Longrightarrow> values_sum (add_days m x d) = values_sum d + x"
proof (induction d)
  case (Cons e d)
  obtain k v where e: "e = (k, v)" by (cases e)
  show ?case
  proof (cases "k = m")
    case True
    with Cons.prems(1) have "add_days m x d = d" by (intro add_days_other) (simp add: e)
    with True show ?thesis by (simp add: e add_days_Cons values_sum_Cons)
  next
    case False
    with Cons show ?thesis by (simp add: e add_days_Cons values_sum_Cons)
  qed
qed simp

lemma keys_distribute [simp]: "map fst (distribute_by_weight ws n) = map fst ws"
  by (simp add: distribute_by_weight_def Let_def)

lemma heaviest_key: "ws \<noteq> [] \<Longrightarrow> heaviest (hd ws) (tl ws) \<in> fst ` set (shares_of ws n)"
proof -
  assume "ws \<noteq> []"
  then have "heaviest (hd ws) (tl ws) \<in> set (map fst ws)" using heaviest_mem [of "hd ws" "tl ws"] by force
  then have "heaviest (hd ws) (tl ws) \<in> set (map fst (shares_of ws n))" by simp
  then show ?thesis by (simp only: set_map)
qed

lemma distribute_sum:
  assumes "distinct (map fst ws)" "ws \<noteq> []"
  shows "values_sum (distribute_by_weight ws n) = n"
  using values_sum_add_days [OF _ heaviest_key [OF assms(2)], of n "n - values_sum (shares_of ws n)"] assms(1)
  by (simp add: distribute_by_weight_def Let_def)

lemma share_positive: "(k, v) \<in> set (shares_of ws n) \<Longrightarrow> 1 \<le> v"
  by (auto simp: shares_of_def share_of_def)

lemma values_sum_ge_length:
  fixes d :: "('k, int) dict"
  shows "(\<And>k v. (k, v) \<in> set d \<Longrightarrow> 1 \<le> v) \<Longrightarrow> int (length d) \<le> values_sum d"
proof (induction d)
  case (Cons e d)
  obtain k v where e: "e = (k, v)" by (cases e)
  have "int (length d) \<le> values_sum d" using Cons.prems by (intro Cons.IH) auto
  moreover have "1 \<le> v" using Cons.prems e by auto
  ultimately show ?case by (simp add: e values_sum_Cons)
qed (simp add: values_sum_def)

lemma heaviest_share:
  assumes "distinct (map fst ws)" "ws \<noteq> []" "n < int (length ws)"
  shows "\<exists>v. map_of (distribute_by_weight ws n) (heaviest (hd ws) (tl ws)) = Some v \<and> v \<le> n - (int (length ws) - 1)"
proof -
  let ?s = "shares_of ws n" let ?m = "heaviest (hd ws) (tl ws)"
  have l: "length ?s = length ws" by (metis keys_shares length_map)
  have "int (length ?s) \<le> values_sum ?s" by (rule values_sum_ge_length) (rule share_positive)
  then have d: "distribute_by_weight ws n = add_days ?m (n - values_sum ?s) ?s"
    using assms(3) l by (simp add: distribute_by_weight_def Let_def)
  obtain v where v: "(?m, v) \<in> set ?s" using heaviest_key [OF assms(2), of n] by force
  then obtain xs ys where s: "?s = xs @ (?m, v) # ys" by (metis split_list)
  have p: "\<And>k u. (k, u) \<in> set (xs @ (?m, v) # ys) \<Longrightarrow> 1 \<le> u" unfolding s [symmetric] by (rule share_positive)
  have "int (length xs) \<le> values_sum xs" "int (length ys) \<le> values_sum ys"
    using p by (auto intro!: values_sum_ge_length)
  then have "int (length ws) - 1 \<le> values_sum ?s - v"
    using arg_cong [OF s, of length] arg_cong [OF s, of values_sum] l by (simp add: values_sum_append values_sum_Cons)
  moreover have "(?m, v + (n - values_sum ?s)) \<in> set (distribute_by_weight ws n)"
    unfolding d add_days_def using v by force
  ultimately show ?thesis using assms(1) by (intro exI [of _ "v + (n - values_sum ?s)"]) simp
qed


lemma city_weights:
  "distinct (map fst d @ map ci_name cs) \<Longrightarrow> fold (\<lambda>c. dset (ci_name c) (w c)) cs d = d @ map (\<lambda>c. (ci_name c, w c)) cs"
proof (induction cs arbitrary: d)
  case (Cons c cs)
  then have "ci_name c \<notin> fst ` set d" by auto
  then have "dset (ci_name c) (w c) d = d @ [(ci_name c, w c)]" by (rule dset_fresh)
  with Cons.IH [of "d @ [(ci_name c, w c)]"] Cons.prems show ?case by simp
qed simp

lemma city_weights_Nil: "distinct (map ci_name cs) \<Longrightarrow> fold (\<lambda>c. dset (ci_name c) (w c)) cs [] = map (\<lambda>c. (ci_name c, w c)) cs"
  using city_weights [of "[]" cs w] by simp

lemma put_days_fresh:
  "\<forall>k \<in> fst ` set sched. k < current \<Longrightarrow>
   put_days s current n sched = sched @ map (\<lambda>i. (current + int i, case map_of s (int i + 1) of None \<Rightarrow> [] | Some ps \<Rightarrow> ps)) [0..<nat n]"
proof -
  assume k: "\<forall>k \<in> fst ` set sched. k < current"
  have "fold (\<lambda>i. dset (current + int i) (f i)) [0..<m] sched = sched @ map (\<lambda>i. (current + int i, f i)) [0..<m]" for f :: "nat \<Rightarrow> pydict list" and m
  proof (induction m)
    case (Suc m)
    have "current + int m \<notin> fst ` set (sched @ map (\<lambda>i. (current + int i, f i)) [0..<m])" using k by auto
    then show ?case using Suc by (simp add: dset_fresh)
  qed simp
  then show ?thesis by (simp add: put_days_def)
qed

lemma map_of_slices: "1 \<le> d \<Longrightarrow> d \<le> nat days \<Longrightarrow> map_of (slices pois k days) (int d) = Some (day_slice pois k (nat days) d)"
  by (rule map_of_is_SomeI) (auto simp: slices_def comp_def distinct_map inj_on_def simp del: upt_Suc)

lemma take_all_slices: "concat (map (\<lambda>i. take k (drop (i * k) xs)) [0..<n]) = take (n * k) xs"
proof (induction n)
  case (Suc n)
  have "take (n * k) xs @ take k (drop (n * k) xs) = take (n * k + k) xs" by (rule take_add [symmetric])
  with Suc show ?case by (simp add: add.commute)
qed simp

lemma slices_concat: "1 \<le> n \<Longrightarrow> concat (map (day_slice pois k n) [1..<Suc n]) = pois"
proof -
  assume n: "1 \<le> n"
  have "map (day_slice pois k n) [1..<Suc n] = map (\<lambda>i. day_slice pois k n (Suc i)) [0..<n]"
    by (simp add: map_Suc_upt [symmetric] comp_def del: map_Suc_upt upt_Suc)
  also have "\<dots> = map (\<lambda>i. take k (drop (i * k) pois)) [0..<n - 1] @ [drop ((n - 1) * k) pois]"
  proof -
    have u: "[0..<n] = [0..<n - 1] @ [n - 1]" using n by (metis Suc_diff_1 less_le_trans upt_Suc_append zero_le zero_less_one)
    show ?thesis unfolding u using n by (auto simp: day_slice_def)
  qed
  finally show ?thesis by (simp add: take_all_slices)
qed

lemma slices_parts:
  assumes "1 \<le> n"
  shows "concat (map snd (slices pois k n)) = pois" "map fst (slices pois k n) = map int [1..<Suc (nat n)]"
  using slices_concat [of "nat n" pois k] assms
  by (simp_all add: slices_def comp_def case_prod_unfold del: upt_Suc)

text \<open>The days of one city: the next days, with its places in their order.\<close>

lemma city_days_parts:
  assumes "1 \<le> n" "\<forall>k \<in> fst ` set sched. k < current"
  shows "map fst (put_days (simple_daily_distribution pois n) current n sched) = map fst sched @ map (\<lambda>i. current + int i) [0..<nat n] \<and>
    concat (map snd (put_days (simple_daily_distribution pois n) current n sched)) = concat (map snd sched) @ pois"
proof (cases "pois = []")
  case True
  then show ?thesis using assms(2) by (simp add: put_days_fresh simple_daily_distribution_def comp_def concat_eq_Nil_conv)
next
  case False
  let ?k = "max 1 (length pois div nat n)"
  have s: "simple_daily_distribution pois n = slices pois ?k n" using False assms(1) by (simp add: simple_daily_distribution_def)
  have "map (\<lambda>i. case map_of (slices pois ?k n) (int i + 1) of None \<Rightarrow> [] | Some ps \<Rightarrow> ps) [0..<nat n] =
    map (\<lambda>i. day_slice pois ?k (nat n) (Suc i)) [0..<nat n]"
  proof (rule map_cong [OF refl])
    fix i assume "i \<in> set [0..<nat n]"
    then have "map_of (slices pois ?k n) (int (Suc i)) = Some (day_slice pois ?k (nat n) (Suc i))" by (intro map_of_slices) auto
    then show "(case map_of (slices pois ?k n) (int i + 1) of None \<Rightarrow> [] | Some ps \<Rightarrow> ps) = day_slice pois ?k (nat n) (Suc i)"
      by (simp add: add.commute)
  qed
  also have "\<dots> = map (day_slice pois ?k (nat n)) [1..<Suc (nat n)]"
    by (simp add: map_Suc_upt [symmetric] comp_def del: map_Suc_upt upt_Suc)
  finally show ?thesis using assms(2) slices_concat [of "nat n" pois ?k] assms(1)
    by (simp add: s put_days_fresh comp_def del: upt_Suc)
qed

definition total_days_of :: "(pyval, int) dict \<Rightarrow> city list \<Rightarrow> int" where
  "total_days_of days cs = sum_list (map (day_of days) cs)"

lemma trip_days_parts:
  "\<forall>c \<in> set cs. 1 \<le> day_of days c \<Longrightarrow> map fst sched = map int [1..<nat current] \<Longrightarrow> 1 \<le> current \<Longrightarrow>
   map fst (snd (fold (add_city_days days) cs (current, sched))) = map int [1..<nat (current + total_days_of days cs)] \<and>
   concat (map snd (snd (fold (add_city_days days) cs (current, sched)))) = concat (map snd sched) @ concat (map ci_pois cs)"
proof (induction cs arbitrary: current sched)
  case (Cons c cs)
  let ?n = "day_of days c"
  let ?s = "put_days (simple_daily_distribution (ci_pois c) ?n) current ?n sched"
  have n: "1 \<le> ?n" using Cons.prems(1) by simp
  have "k < current" if "k \<in> fst ` set sched" for k
  proof -
    have "k \<in> set (map int [1..<nat current])" using that Cons.prems(2) by (metis image_set)
    then show ?thesis by auto
  qed
  note p = city_days_parts [OF n, of sched current "ci_pois c"]
  have "map int [1..<nat current] @ map (\<lambda>i. current + int i) [0..<nat ?n] = map int [1..<nat (current + ?n)]"
  proof -
    have "nat (current + ?n) = nat current + nat ?n" using n Cons.prems(3) by simp
    moreover have "[1..<nat current + nat ?n] = [1..<nat current] @ [nat current..<nat current + nat ?n]"
      using Cons.prems(3) by (intro upt_add_eq_append) simp
    moreover have "map int [nat current..<nat current + nat ?n] = map (\<lambda>i. current + int i) [0..<nat ?n]"
      by (rule nth_equalityI) (use Cons.prems(3) in auto)
    ultimately show ?thesis by simp
  qed
  then have "map fst ?s = map int [1..<nat (current + ?n)]" using p Cons.prems(2) \<open>\<And>k. k \<in> fst ` set sched \<Longrightarrow> k < current\<close> by simp
  moreover have "1 \<le> current + ?n" using n Cons.prems(3) by simp
  ultimately show ?case using Cons.IH [of "?s" "current + ?n"] Cons.prems(1) p \<open>\<And>k. k \<in> fst ` set sched \<Longrightarrow> k < current\<close>
    by (simp add: add_city_days_def total_days_of_def add.assoc)
qed (simp add: total_days_of_def)


subsection \<open>Properties\<close>

lemma days_of_cities:
  assumes "distinct (map ci_name cs)" "cs \<noteq> []"
  shows "total_days_of (distribute_days_among_cities cs n) cs = n"
proof -
  let ?ws = "map (\<lambda>c. (ci_name c, city_weight c)) cs"
  let ?d = "distribute_days_among_cities cs n"
  have d: "?d = distribute_by_weight ?ws n"
    using assms by (simp add: distribute_days_among_cities_def city_weights_Nil)
  then have k: "map fst ?d = map ci_name cs" by (simp add: comp_def)
  have "map (day_of ?d) cs = map (\<lambda>k. case map_of ?d k of None \<Rightarrow> 1 | Some v \<Rightarrow> v) (map ci_name cs)"
    by (simp add: day_of_def comp_def)
  also have "\<dots> = map (\<lambda>k. case map_of ?d k of None \<Rightarrow> 1 | Some v \<Rightarrow> v) (map fst ?d)" by (simp only: k)
  also have "\<dots> = map snd ?d"
  proof -
    have "distinct (map fst ?d)" using k assms(1) by simp
    then show ?thesis by (auto simp: comp_def)
  qed
  finally have "total_days_of ?d cs = values_sum ?d" by (simp add: total_days_of_def values_sum_def)
  also have "\<dots> = n" unfolding d by (rule distribute_sum) (use assms in \<open>simp_all add: comp_def\<close>)
  finally show ?thesis .
qed

lemma sequence_parts:
  assumes "distinct (map ci_name cities)" "seq = find_optimal_city_sequence geodesic cities start_city"
  shows "mset seq = mset cities"
proof (cases "length cities \<le> 1")
  case True
  then show ?thesis using assms(2) by (simp add: find_optimal_city_sequence_def)
next
  case False
  then show ?thesis using sequence_permutation [OF _ assms(1), of geodesic start_city] assms(2) by simp
qed

lemma hybrid_covers:
  assumes "distinct (map ci_name cities)" "cities \<noteq> []" "it = optimize_intercity_hybrid_simple geodesic cities n start_city"
    and "\<forall>c \<in> set cities. 1 \<le> day_of (distribute_days_among_cities (it_cities it) n) c"
  shows "mset (it_cities it) = mset cities \<and> map fst (it_schedule it) = map int [1..<nat (n + 1)] \<and>
    concat (map snd (it_schedule it)) = concat (map ci_pois (it_cities it))"
proof -
  let ?seq = "find_optimal_city_sequence geodesic cities start_city"
  have i: "it_cities it = ?seq" "it_schedule it = snd (fold (add_city_days (distribute_days_among_cities ?seq n)) ?seq (1, []))"
    by (simp_all add: assms(3) optimize_intercity_hybrid_simple_def Let_def)
  have m: "mset ?seq = mset cities" by (rule sequence_parts [OF assms(1) refl])
  have s: "set ?seq = set cities" using m by (rule mset_eq_setD)
  have "distinct (map ci_name ?seq)" using assms(1) m by (metis mset_eq_imp_distinct_iff mset_map)
  moreover have "?seq \<noteq> []" using m assms(2) by auto
  ultimately have "total_days_of (distribute_days_among_cities ?seq n) ?seq = n" by (rule days_of_cities)
  then show ?thesis using trip_days_parts [of ?seq "distribute_days_among_cities ?seq n" "[]" 1] assms(4) i m s
    by (simp add: add.commute)
qed

text \<open>
  C27: for cities with distinct names, of which every one gets a day, the simple optimiser orders the cities without losing one,
  and its schedule has exactly the days 1 to \<open>n\<close> and holds every place of every city once, city after city in the
  order of the sequence. (Of two cities with one name the second replaces the first.)
\<close>

theorem city_trip_covers_days_and_places:
  assumes "distinct (map ci_name cities)" "cities \<noteq> []" "it = optimize_intercity_hybrid_simple geodesic cities n start_city"
    and "\<forall>c \<in> set cities. 1 \<le> day_of (distribute_days_among_cities (it_cities it) n) c"
  shows "mset (it_cities it) = mset cities \<and> map fst (it_schedule it) = map int [1..<nat (n + 1)] \<and>
    concat (map snd (it_schedule it)) = concat (map ci_pois (it_cities it))"
  using assms by (rule hybrid_covers)

text \<open>
  with fewer days than cities, the city of greatest weight gets no day at all or a negative
  number of them.
\<close>

theorem heaviest_city_loses_its_days:
  assumes "distinct (map ci_name cities)" "cities \<noteq> []" "n < int (length cities)"
  shows "\<exists>c \<in> set cities. day_of (distribute_days_among_cities cities n) c \<le> n - (int (length cities) - 1) \<and>
    (\<forall>d \<in> set cities. city_weight d \<le> city_weight c)"
proof -
  let ?ws = "map (\<lambda>c. (ci_name c, city_weight c)) cities"
  have d: "distribute_days_among_cities cities n = distribute_by_weight ?ws n"
    using assms by (simp add: distribute_days_among_cities_def city_weights_Nil)
  have ne: "?ws \<noteq> []" using assms(2) by simp
  let ?m = "heaviest (hd ?ws) (tl ?ws)"
  from heaviest_mem [of "hd ?ws" "tl ?ws", unfolded list.collapse [OF ne]] obtain w where
    w: "(?m, w) \<in> set ?ws" "\<forall>kv \<in> set ?ws. snd kv \<le> w" by blast
  then obtain c where c: "c \<in> set cities" "ci_name c = ?m" "city_weight c = w" by auto
  from heaviest_share [of ?ws n] assms ne obtain v where
    "map_of (distribute_by_weight ?ws n) ?m = Some v" "v \<le> n - (int (length cities) - 1)"
    by (auto simp: comp_def)
  then have "day_of (distribute_days_among_cities cities n) c \<le> n - (int (length cities) - 1)"
    by (simp add: day_of_def d c(2))
  then show ?thesis using c w(2) by auto
qed

definition demo_pois_city :: "string \<Rightarrow> real \<Rightarrow> nat \<Rightarrow> city" where
  "demo_pois_city n x k = \<lparr>ci_name = VStr n, ci_lat = x, ci_lon = 0, ci_country = VStr ''Chile'',
     ci_pois = map (\<lambda>i. [(''name'', VStr (n @ show_nat i))]) [0..<k]\<rparr>"

theorem city_trip_covers_days_and_places_witness:
  "map fst (it_schedule (optimize_intercity_hybrid_simple flat_distance [demo_pois_city ''A'' 0 1, demo_pois_city ''B'' 1 1] 2 None)) = [1, 2] \<and>
   length (concat (map snd (it_schedule (optimize_intercity_hybrid_simple flat_distance [demo_pois_city ''A'' 0 1, demo_pois_city ''B'' 1 1] 2 None)))) = 2"
proof -
  let ?cs = "[demo_pois_city ''A'' 0 1, demo_pois_city ''B'' 1 1]"
  let ?it = "optimize_intercity_hybrid_simple flat_distance ?cs 2 None"
  have it: "it_cities ?it = ?cs"
    by (simp add: optimize_intercity_hybrid_simple_def find_optimal_city_sequence_def first_named_def demo_pois_city_def Let_def)
  have "\<forall>c \<in> set ?cs. 1 \<le> day_of (distribute_days_among_cities (it_cities ?it) 2) c"
    unfolding it by (simp add: demo_pois_city_def day_of_def distribute_days_among_cities_def distribute_by_weight_def shares_of_def
        city_weight_def values_sum_def share_of_def round_half_even_def Let_def)
  from city_trip_covers_days_and_places [OF _ _ refl this] it show ?thesis
    by (simp add: demo_pois_city_def upt_rec)
qed

theorem heaviest_city_loses_its_days_witness:
  "\<exists>c \<in> set [demo_pois_city ''A'' 0 3, demo_pois_city ''B'' 1 1]. day_of (distribute_days_among_cities [demo_pois_city ''A'' 0 3, demo_pois_city ''B'' 1 1] 1) c \<le> 0"
proof -
  let ?cs = "[demo_pois_city ''A'' 0 3, demo_pois_city ''B'' 1 1]"
  have d: "distinct (map ci_name ?cs)" by (simp add: demo_pois_city_def)
  from heaviest_city_loses_its_days [OF d, of 1] obtain c where "c \<in> set ?cs"
    "day_of (distribute_days_among_cities ?cs 1) c \<le> 1 - (int (length ?cs) - 1)" by auto
  then show ?thesis by (intro bexI [of _ c]) simp_all
qed

text \<open>
  the full optimiser never gets an answer of its integrator: with the method missing, a trip in
  one city is exactly the fallback, of confidence one half, and it fails for a trip of no days or no places.
\<close>

theorem single_city_is_always_the_fallback:
  "optimize_single_city no_such_method pois days = create_fallback_itinerary pois days \<and>
   (\<forall>it. optimize_single_city no_such_method pois days = Inr it \<longrightarrow>
      it_confidence it = 1/2 \<and> (1 \<le> days \<longrightarrow> map fst (it_schedule it) = map int [1..<Suc (nat days)] \<and> concat (map snd (it_schedule it)) = pois)) \<and>
   (days = 0 \<longrightarrow> (\<exists>e. optimize_single_city no_such_method pois days = Inl e))"
proof -
  have f: "optimize_single_city no_such_method pois days = create_fallback_itinerary pois days"
    by (simp add: optimize_single_city_def try_single_city_def no_such_method_def)
  have "it_confidence it = 1/2 \<and> (1 \<le> days \<longrightarrow> map fst (it_schedule it) = map int [1..<Suc (nat days)] \<and> concat (map snd (it_schedule it)) = pois)"
    if "create_fallback_itinerary pois days = Inr it" for it
    using that slices_parts [of days pois]
    by (auto simp: create_fallback_itinerary_def full_daily_distribution_def rbind_eq_Inr_iff simp del: upt_Suc split: if_splits)
  moreover have "\<exists>e. create_fallback_itinerary pois days = Inl e" if "days = 0"
    using that by (cases "city_of_all pois") (simp_all add: create_fallback_itinerary_def full_daily_distribution_def)
  ultimately show ?thesis unfolding f by blast
qed

theorem single_city_is_always_the_fallback_witness:
  "\<exists>it. optimize_single_city no_such_method [[(''lat'', VInt 0), (''lon'', VInt 0)]] 1 = Inr it \<and> it_confidence it = 1/2"
proof -
  have "\<exists>it. create_fallback_itinerary [[(''lat'', VInt 0), (''lon'', VInt 0)]] 1 = Inr it"
    by (simp add: create_fallback_itinerary_def city_of_all_def mean_coord_def pnum_def dindex_def full_daily_distribution_def)
  then show ?thesis using single_city_is_always_the_fallback [of "[[(''lat'', VInt 0), (''lon'', VInt 0)]]" 1] by metis
qed

lemma rfold_error:
  assumes "x \<in> set xs" "\<And>s. f x s = Inl e" "\<And>y s e'. f y s = Inl e' \<Longrightarrow> e' = e"
  shows "rfold f xs s = Inl e"
  using assms(1)
proof (induction xs arbitrary: s)
  case (Cons y xs)
  show ?case
  proof (cases "f y s")
    case (Inl e')
    with assms(3) show ?thesis by simp
  next
    case (Inr s')
    then have "x \<in> set xs" using Cons.prems assms(2) by auto
    with Inr Cons.IH show ?thesis by simp
  qed
qed simp

lemma full_city_days_error: "full_city_days no_such_method days c s = Inl e \<Longrightarrow> e = ZeroDivisionError"
  by (auto simp: full_city_days_def optimize_city_pois_with_ortools_def try_city_pois_def no_such_method_def full_daily_distribution_def
      split: prod.splits if_splits)

text \<open>
  in the full optimiser a city with places that gets no day ends the whole request with a
  division by zero, although the failure of the integrator was caught.
\<close>

theorem full_trip_fails_on_a_city_without_days:
  assumes "calculate_intercity_routes (ts_geodesic sv) (ts_osrm sv) (find_optimal_city_sequence (ts_geodesic sv) cities start_city) s = Inr (routes, s1)"
    and "full_distribute_days cities days = Inr dpc" "ts_integrator sv = no_such_method"
    and "c \<in> set (find_optimal_city_sequence (ts_geodesic sv) cities start_city)" "ci_pois c \<noteq> []" "day_of dpc c = 0"
  shows "optimize_intercity_hybrid sv cities days start_city s = Inl ZeroDivisionError"
proof -
  have "full_city_days no_such_method dpc c t = Inl ZeroDivisionError" for t
    using assms(5,6) by (simp add: full_city_days_def optimize_city_pois_with_ortools_def try_city_pois_def no_such_method_def
        full_daily_distribution_def split: prod.splits)
  then have "rfold (full_city_days no_such_method dpc) (find_optimal_city_sequence (ts_geodesic sv) cities start_city) (1, []) = Inl ZeroDivisionError"
    by (rule rfold_error [OF assms(4)]) (rule full_city_days_error)
  then show ?thesis using assms(1,2,3) by (simp add: optimize_intercity_hybrid_def Let_def)
qed

definition no_hotels :: "pydict list \<Rightarrow> int \<Rightarrow> pyval list res" where
  "no_hotels pois nights = Inl AttributeError"

theorem full_trip_fails_on_a_city_without_days_witness:
  "optimize_intercity_hybrid \<lparr>ts_geodesic = flat_distance, ts_osrm = (\<lambda>p q. Inr None), ts_integrator = no_such_method, ts_hotels = no_hotels\<rparr>
     [demo_pois_city ''A'' 0 1, demo_pois_city ''B'' 1 1] 1 None \<lparr>is_cities = [], is_routes = []\<rparr> = Inl ZeroDivisionError"
proof -
  let ?sv = "\<lparr>ts_geodesic = flat_distance, ts_osrm = (\<lambda>p q. Inr None), ts_integrator = no_such_method, ts_hotels = no_hotels\<rparr>"
  let ?cs = "[demo_pois_city ''A'' 0 1, demo_pois_city ''B'' 1 1]" let ?s = "\<lparr>is_cities = [], is_routes = []\<rparr>"
  have seq: "find_optimal_city_sequence (ts_geodesic ?sv) ?cs None = ?cs"
    by (simp add: find_optimal_city_sequence_def first_named_def demo_pois_city_def Let_def)
  have r: "calculate_intercity_routes (ts_geodesic ?sv) (ts_osrm ?sv) (find_optimal_city_sequence (ts_geodesic ?sv) ?cs None) ?s = Inr ([], ?s)"
    unfolding seq by (simp add: calculate_intercity_routes_def ordered_pairs_def route_pair_def demo_pois_city_def distance_to_def
        coordinates_def flat_distance_def max_intercity_distance_km_def upt_rec)
  obtain dpc where d: "full_distribute_days ?cs 1 = Inr dpc" "day_of dpc (demo_pois_city ''A'' 0 1) = 0"
    by (simp add: full_distribute_days_def full_city_weight_def demo_pois_city_def distribute_by_weight_def shares_of_def values_sum_def
        share_of_def round_half_even_def city_weight_def famous_cities_def lower_def lower_char_def add_days_def day_of_def Let_def)
  have "demo_pois_city ''A'' 0 1 \<in> set (find_optimal_city_sequence (ts_geodesic ?sv) ?cs None)" unfolding seq by simp
  from full_trip_fails_on_a_city_without_days [OF r d(1) _ this _ d(2)] show ?thesis by (simp add: demo_pois_city_def)
qed


lemma converted [simp]:
  "map ci_name (convert_clusters_to_cities cs) = map cc_name cs" "map ci_pois (convert_clusters_to_cities cs) = map cc_pois cs"
  "length (convert_clusters_to_cities cs) = length cs"
  by (simp_all add: convert_clusters_to_cities_def comp_def)

lemma mset_concat_map: "mset (concat (map f xs)) = (\<Sum>x \<in># mset xs. mset (f x))"
  by (induction xs) auto

lemma detected_part:
  assumes "cluster_pois_advanced default_clustering_config geodesic h3 dbscan pois [] = Inr (clusters, cache)" "labels_all dbscan"
  shows "mset (concat (map cc_pois clusters)) \<subseteq># mset pois"
proof (cases "pois = []")
  case True
  with assms(1) show ?thesis by (simp add: cluster_pois_advanced_def)
next
  case False
  with assms(1) have "clusters_of default_clustering_config geodesic h3 dbscan pois = Inr clusters"
    by (auto simp: cluster_pois_advanced_def rbind_eq_Inr_iff)
  then show ?thesis by (rule clusters_of_part [OF _ assms(2)])
qed

text \<open>
  C26: a request to the simple optimiser, from the places to the schedule: when the detected cities
  bear different names and each gets a day, the schedule has exactly the days asked for and holds
  places of the request only, each at most once; with at most one city it holds all of them in their order.
\<close>

theorem simple_trip_schedules_given_places:
  assumes "cluster_pois_advanced default_clustering_config geodesic h3 dbscan pois [] = Inr (clusters, cache1)" "labels_all dbscan"
    and "distinct (map cc_name clusters)" "1 \<le> n"
    and "optimize_multi_city_simple geodesic h3 dbscan pois n start_city [] = Inr (it, cache2)"
    and "\<forall>c \<in> set (it_cities it). 1 \<le> day_of (distribute_days_among_cities (it_cities it) n) c"
  shows "map fst (it_schedule it) = map int [1..<nat (n + 1)] \<and> mset (concat (map snd (it_schedule it))) \<subseteq># mset pois \<and>
    (length clusters \<le> 1 \<longrightarrow> concat (map snd (it_schedule it)) = pois)"
proof -
  let ?cs = "convert_clusters_to_cities clusters"
  have "simple_strategy geodesic ?cs = SINGLE_CITY_ORTOOLS \<longleftrightarrow> length clusters \<le> 1"
    by (simp add: simple_strategy_def Let_def)
  note strategy = this
  show ?thesis
  proof (cases "length clusters \<le> 1")
    case True
    with assms(1,5) strategy have "optimize_single_city_simple pois n = Inr it"
      by (auto simp: optimize_multi_city_simple_def rbind_eq_Inr_iff Let_def split: if_splits)
    then have "it_schedule it = simple_daily_distribution pois n" "pois \<noteq> []"
      by (auto simp: optimize_single_city_simple_def city_of_all_def mean_coord_def rbind_eq_Inr_iff split: if_splits)
    moreover from this have "it_schedule it = slices pois (max 1 (length pois div nat n)) n"
      using assms(4) by (simp add: simple_daily_distribution_def)
    moreover have "nat (n + 1) = Suc (nat n)" using assms(4) by simp
    ultimately show ?thesis
      using slices_parts [OF assms(4), of pois "max 1 (length pois div nat n)"] by (simp only: subset_mset.order_refl simp_thms)
  next
    case False
    with assms(1,5) strategy have it: "it = optimize_intercity_hybrid_simple geodesic ?cs n start_city"
      by (auto simp: optimize_multi_city_simple_def Let_def)
    have "mset (it_cities it) = mset ?cs"
      using sequence_parts [of ?cs _ geodesic start_city, OF _ refl] assms(3)
      by (simp add: it optimize_intercity_hybrid_simple_def Let_def)
    then have "set (it_cities it) = set ?cs" by (rule mset_eq_setD)
    then have days: "\<forall>c \<in> set ?cs. 1 \<le> day_of (distribute_days_among_cities (it_cities it) n) c" using assms(6) by simp
    have ne: "?cs \<noteq> []" using False by (auto simp flip: length_0_conv)
    have d: "distinct (map ci_name ?cs)" using assms(3) by simp
    note h = hybrid_covers [OF d ne it days]
    have t: "mset (it_cities it) = mset ?cs" "map fst (it_schedule it) = map int [1..<nat (n + 1)]"
      "concat (map snd (it_schedule it)) = concat (map ci_pois (it_cities it))"
      using h by blast+
    have "mset (concat (map ci_pois (it_cities it))) = mset (concat (map ci_pois ?cs))"
      using t(1) by (simp only: mset_concat_map)
    then show ?thesis using t(2,3) detected_part [OF assms(1,2)] False by simp
  qed
qed

theorem simple_trip_schedules_given_places_witness:
  "\<exists>it cache. optimize_multi_city_simple flat_distance (\<lambda>q. Inr ''cell'') (\<lambda>eps m cs. Inr (replicate (length cs) 0))
       [[(''name'', VStr ''Louvre''), (''lat'', VInt 0), (''lon'', VInt 0), (''city'', VStr ''Paris'')]] 1 None [] = Inr (it, cache) \<and>
     map fst (it_schedule it) = [1] \<and>
     concat (map snd (it_schedule it)) = [[(''name'', VStr ''Louvre''), (''lat'', VInt 0), (''lon'', VInt 0), (''city'', VStr ''Paris'')]]"
proof -
  let ?db = "\<lambda>(eps :: real) (m :: int) (cs :: coord list). Inr (replicate (length cs) 0) :: int list res"
  let ?ps = "[[(''name'', VStr ''Louvre''), (''lat'', VInt 0), (''lon'', VInt 0), (''city'', VStr ''Paris'')]]"
  let ?h = "\<lambda>q :: coord. Inr ''cell'' :: string res"
  obtain cs cache1 where c: "cluster_pois_advanced default_clustering_config flat_distance ?h ?db ?ps [] = Inr (cs, cache1)" "length cs = 1"
    by (simp add: cluster_pois_advanced_def clustering_key_def one_place_simps flat_distance_def)
  then obtain c0 where c0: "cs = [c0]" by (metis One_nat_def length_0_conv length_Suc_conv)
  obtain it where i: "optimize_multi_city_simple flat_distance ?h ?db ?ps 1 None [] = Inr (it, cache1)" "length (it_cities it) = 1"
    using c by (simp add: optimize_multi_city_simple_def Let_def simple_strategy_def optimize_single_city_simple_def city_of_all_def
        mean_coord_def pnum_def dindex_def)
  then obtain c1 where c1: "it_cities it = [c1]" by (metis One_nat_def length_0_conv length_Suc_conv)
  have "labels_all ?db" by (simp add: labels_all_def)
  moreover have "total_days_of (distribute_days_among_cities [c1] 1) [c1] = 1" by (rule days_of_cities) simp_all
  ultimately show ?thesis using simple_trip_schedules_given_places [OF c(1) _ _ _ i(1)] i(1) c0 c1 by (simp add: total_days_of_def upt_rec)
qed

end
