(* ===== verification/HotelRecommender.thy ===== *)
theory HotelRecommender
  imports Decisions
begin

section \<open>Recommending hotels\<close>

text \<open>
  src/services/hotel\_recommender.py: the table of hotels, the score of a hotel for the places of a trip, the
  hotels made up where the table and the places service have none, and the plan of stays of a trip through
  several cities.  The answers of the places service and the geodesic distance of geopy are parameters.
\<close>

subsection \<open>Recommendations and stays\<close>

record hotel_rec =
  hr_name :: pyval
  hr_lat :: real
  hr_lon :: real
  hr_address :: pyval
  hr_rating :: pyval
  hr_price :: pyval
  hr_centroid_km :: real
  hr_places_km :: real
  hr_score :: real
  hr_reasoning :: string
  hr_city :: pyval
  hr_accessibility :: real

record stay =
  ac_city :: pyval
  ac_hotel :: hotel_rec
  ac_nights :: int
  ac_check_in :: int
  ac_check_out :: int
  ac_coordinates :: coord

record logistics =
  lo_complexity :: string
  lo_score :: real
  lo_distances :: "(real \<times> real) option" \<comment> \<open>average and maximum, when there are several stays\<close>
  lo_changes :: nat

record stay_plan =
  pl_stays :: "stay list"
  pl_nights :: int
  pl_cities :: nat
  pl_cost :: real
  pl_logistics :: "logistics option"

definition add_city_accommodation :: "pyval \<Rightarrow> hotel_rec \<Rightarrow> int \<Rightarrow> int \<Rightarrow> stay list \<Rightarrow> stay list" where
  "add_city_accommodation city hotel nights check_in stays =
     stays @ [\<lparr>ac_city = city, ac_hotel = hotel, ac_nights = nights, ac_check_in = check_in, ac_check_out = check_in + nights,
               ac_coordinates = (hr_lat hotel, hr_lon hotel)\<rparr>]"

definition get_accommodation_sequence :: "stay_plan \<Rightarrow> pyval list" where
  "get_accommodation_sequence p = map ac_city (sort_key ac_check_in (pl_stays p))"

subsection \<open>The table of hotels\<close>

definition hotel_row :: "string \<Rightarrow> real \<Rightarrow> real \<Rightarrow> string \<Rightarrow> real \<Rightarrow> string \<Rightarrow> pydict" where
  "hotel_row n lat lon address rating price =
     [(''name'', VStr n), (''lat'', VFloat lat), (''lon'', VFloat lon), (''address'', VStr address),
      (''rating'', VFloat rating), (''price_range'', VStr price)]"

definition santiago_hotels :: "pydict list" where
  "santiago_hotels =
     [hotel_row ''Hotel Sheraton Santiago'' (- 33.4172) (- 70.606) (''Av. Santa Mar'' @ utf8 [195, 173] @ ''a 1742, Providencia'') (4.6) ''high'',
      hotel_row ''W Santiago'' (- 33.415) (- 70.61) ''Isidora Goyenechea 3000, Las Condes'' (4.7) ''high'',
      hotel_row ''Hotel Plaza San Francisco'' (- 33.4372) (- 70.6506) ''Alameda 816, Santiago Centro'' (4.5) ''medium'',
      hotel_row ''Hotel Carrera'' (- 33.4378) (- 70.6511) ''Teatinos 180, Santiago Centro'' (4.2) ''medium'',
      hotel_row ''Ibis Santiago Providencia'' (- 33.4372) (- 70.6172) (''Eliodoro Y'' @ utf8 [195, 161, 195, 177] @ ''ez 1800, Providencia'') (4.0) ''low'',
      hotel_row ''Hotel Director Vitacura'' (- 33.389) (- 70.595) ''Av. Vitacura 3600, Vitacura'' (4.4) ''high'',
      hotel_row ''Hotel Magnolia Santiago Centro'' (- 33.4389) (- 70.6507) (''Hu'' @ utf8 [195, 169] @ ''rfanos 539, Santiago Centro'') (4.1) ''medium'',
      hotel_row ''Best Western Los Condes'' (- 33.4089) (- 70.595) ''Vitacura 4873, Las Condes'' (4.0) ''medium'',
      hotel_row ''Hotel Boutique Castillo Rojo'' (- 33.4262) (- 70.6344) (''Constituci'' @ utf8 [195, 179] @ ''n 195, Bellavista'') (4.3) ''medium'',
      hotel_row ''Hotel NH Ciudad de Santiago'' (- 33.435) (- 70.645) (''Av. O'' @ utf8 [39] @ ''Higgins 136, Santiago Centro'') (4.2) ''medium'']"

definition antofagasta_hotels :: "pydict list" where
  "antofagasta_hotels =
     [hotel_row ''Hotel Terrado Antofagasta'' (- 23.646929) (- 70.4031467) ''Avenida Balmaceda 2575, Antofagasta'' (4.5) ''high'',
      hotel_row ''Hotel Antofagasta'' (- 23.65) (- 70.3977) ''Av. Grecia 1490, Antofagasta'' (4.3) ''medium'',
      hotel_row ''Ibis Antofagasta'' (- 23.6435) (- 70.3955) ''Av. Grecia 1171, Antofagasta'' (4.0) ''low'']"

definition calama_hotels :: "pydict list" where
  "calama_hotels =
     [hotel_row ''Hotel Diego de Almagro Calama'' (- 22.4583) (- 68.9204) ''Av. Granaderos 3452, Calama'' (4.2) ''medium'',
      hotel_row ''Park Plaza Calama'' (- 22.4595) (- 68.9215) ''Av. Balmaceda 2634, Calama'' (4.1) ''medium'']"

definition paris_hotels :: "pydict list" where
  "paris_hotels =
     [hotel_row ''Hotel Le Meurice'' (48.8656) (2.3279) ''228 Rue de Rivoli, Paris'' (4.8) ''high'',
      hotel_row ''Hotel des Grands Boulevards'' (48.8719) (2.3432) (''17 Boulevard Poissonni'' @ utf8 [195, 168] @ ''re, Paris'') (4.5) ''high'',
      hotel_row ''Hotel Malte Opera'' (48.8719) (2.3432) ''63 Rue de Richelieu, Paris'' (4.2) ''medium'',
      hotel_row ''Hotel ibis Paris Centre'' (48.8566) (2.3522) ''35 Boulevard Saint-Marcel, Paris'' (4.0) ''medium'']"

definition amsterdam_hotels :: "pydict list" where
  "amsterdam_hotels =
     [hotel_row ''Waldorf Astoria Amsterdam'' (52.3676) (4.9041) ''Herengracht 542-556, Amsterdam'' (4.7) ''high'',
      hotel_row ''Hotel V Nesplein'' (52.3654) (4.8944) ''Nesplein 49, Amsterdam'' (4.4) ''medium'',
      hotel_row ''Hotel NH Amsterdam Centre'' (52.3702) (4.8952) ''Stadhouderskade 7, Amsterdam'' (4.2) ''medium'']"

definition berlin_hotels :: "pydict list" where
  "berlin_hotels =
     [hotel_row ''Hotel Adlon Kempinski Berlin'' (52.5163) (13.3777) ''Unter den Linden 77, Berlin'' (4.8) ''high'',
      hotel_row ''Meininger Hotel Berlin Mitte'' (52.52) (13.405) ''Hallesches Ufer 30, Berlin'' (4.1) ''low'',
      hotel_row ''Hotel Hackescher Hof'' (52.5243) (13.4015) (''Gro'' @ utf8 [195, 159] @ ''e Pr'' @ utf8 [195, 164] @ ''sidentenstra'' @ utf8 [195, 159] @ ''e 8, Berlin'') (4.3) ''medium'']"

definition rome_hotels :: "pydict list" where
  "rome_hotels =
     [hotel_row ''Hotel de Russie'' (41.9109) (12.4776) ''Via del Babuino 9, Rome'' (4.7) ''high'',
      hotel_row ''Hotel Artemide'' (41.9028) (12.4964) ''Via Nazionale 22, Rome'' (4.4) ''medium'']"

definition barcelona_hotels :: "pydict list" where
  "barcelona_hotels =
     [hotel_row ''Hotel Casa Fuster'' (41.4036) (2.154) (''Passeig de Gr'' @ utf8 [195, 160] @ ''cia 132, Barcelona'') (4.6) ''high'',
      hotel_row ''Hotel Barcelona Gothic'' (41.3851) (2.1734) ''Carrer Jaume I, 14, Barcelona'' (4.2) ''medium'']"

definition hotel_database :: "(string, pydict list) dict" where
  "hotel_database =
     [(''santiago'', santiago_hotels),
      (''antofagasta'', antofagasta_hotels),
      (''calama'', calama_hotels),
      (''paris'', paris_hotels),
      (''amsterdam'', amsterdam_hotels),
      (''berlin'', berlin_hotels),
      (''rome'', rome_hotels),
      (''barcelona'', barcelona_hotels)]"

subsection \<open>Centre and score\<close>

text \<open>The mean of the places weighted by their priorities.\<close>

fun weigh_places :: "pydict list \<Rightarrow> real \<times> real \<times> real \<Rightarrow> (real \<times> real \<times> real) res" where
  "weigh_places [] acc = Inr acc"
| "weigh_places (p # ps) (a, b, w) =
     rbind (pnum p ''lat'') (\<lambda>lat. rbind (need_num (dget p ''priority'' (VInt 5))) (\<lambda>k. rbind (pnum p ''lon'') (\<lambda>lon.
     weigh_places ps (a + lat * k, b + lon * k, w + k))))"

definition calculate_geographic_centroid :: "pydict list \<Rightarrow> coord res" where
  "calculate_geographic_centroid places =
     (if places = [] then Inr (- 33.4489, - 70.6693)
      else rbind (weigh_places places (0, 0, 0)) (\<lambda>(a, b, w). if w = 0 then Inl ZeroDivisionError else Inr (a / w, b / w)))"

definition hotel_distance :: "coord \<Rightarrow> pydict \<Rightarrow> real res" where
  "hotel_distance h p = rbind (pnum p ''lat'') (\<lambda>a. rbind (pnum p ''lon'') (\<lambda>b. Inr (haversine_atan2 h (a, b))))"

definition weighted_distance :: "coord \<Rightarrow> pydict \<Rightarrow> real res" where
  "weighted_distance h p =
     rbind (hotel_distance h p) (\<lambda>d. rbind (need_num (dget p ''priority'' (VInt 5))) (\<lambda>k. Inr (d * (k / 10))))"

definition score_of :: "real \<Rightarrow> real \<Rightarrow> real \<Rightarrow> real" where
  "score_of to_centroid average rating =
     (let centroid_score = max 0 (1 - to_centroid / 10); distance_score = max 0 (1 - average / 8);
          bonus = (if to_centroid < 2 then 0.2 else if to_centroid < 5 then 0.1 else 0)
      in min 1 (centroid_score * 0.3 + distance_score * 0.4 + rating / 5 * 0.2 + bonus * 0.1))"

definition calculate_convenience_score :: "pydict \<Rightarrow> pydict list \<Rightarrow> coord \<Rightarrow> real res" where
  "calculate_convenience_score hotel places centroid =
     rbind (pnum hotel ''lat'') (\<lambda>a. rbind (pnum hotel ''lon'') (\<lambda>b.
     rbind (rmap_list (weighted_distance (a, b)) places) (\<lambda>ds.
     rbind (need_num (dget hotel ''rating'' (VFloat 3))) (\<lambda>r.
     Inr (score_of (haversine_atan2 (a, b) centroid) (if places = [] then 0 else sum_list ds / real (length places)) r)))))"

definition determine_city :: "real \<Rightarrow> string option" where
  "determine_city lat =
     (if - 23.7 \<le> lat \<and> lat \<le> - 23.5 then Some ''antofagasta''
      else if - 22.5 \<le> lat \<and> lat \<le> - 22.4 then Some ''calama''
      else if - 35 \<le> lat \<and> lat \<le> - 32 then Some ''santiago''
      else None)"

subsection \<open>Made-up hotels\<close>

definition international_cities :: "(coord \<times> string) list" where
  "international_cities =
     [((28.5383, - 81.3792), ''Orlando''),
      ((25.7617, - 80.1918), ''Miami''),
      ((40.7128, - 74.006), ''Nueva York''),
      ((34.0522, - 118.2437), ''Los '' @ utf8 [195, 129] @ ''ngeles''),
      ((41.8781, - 87.6298), ''Chicago''),
      ((19.4326, - 99.1332), ''Ciudad de M'' @ utf8 [195, 169] @ ''xico''),
      ((20.6597, - 103.3496), ''Guadalajara''),
      ((- 23.5505, - 46.6333), ''S'' @ utf8 [195, 163] @ ''o Paulo''),
      ((- 22.9068, - 43.1729), ''R'' @ utf8 [195, 173] @ ''o de Janeiro''),
      ((- 34.6118, - 58.396), ''Buenos Aires''),
      ((- 12.0464, - 77.0428), ''Lima'')]"

definition realistic_hotels :: "(string, (string \<times> string) list) dict" where
  "realistic_hotels =
     [(''Orlando'',
        [(''Grand Bohemian Orlando'', ''high''),
         (''Embassy Suites Orlando Downtown'', ''medium''),
         (''Hampton Inn & Suites Orlando Downtown'', ''medium''),
         (''Hilton Orlando Lake Buena Vista'', ''high''),
         (''Holiday Inn Express Orlando Downtown'', ''low'')]),
      (''Miami'',
        [(''The Ritz-Carlton South Beach'', ''high''),
         (''Fontainebleau Miami Beach'', ''high''),
         (''Hampton Inn & Suites Miami Downtown'', ''medium''),
         (''Holiday Inn Express Miami Airport'', ''low''),
         (''InterContinental Miami'', ''high'')]),
      (''Nueva York'',
        [(''The Plaza Hotel'', ''high''),
         (''Hampton Inn Manhattan Times Square'', ''medium''),
         (''Holiday Inn Express Manhattan'', ''low''),
         (''The Westin New York'', ''high''),
         (''Courtyard by Marriott Manhattan'', ''medium'')]),
      (''Los '' @ utf8 [195, 129] @ ''ngeles'',
        [(''The Beverly Hills Hotel'', ''high''),
         (''Hollywood Roosevelt Hotel'', ''medium''),
         (''Hampton Inn & Suites LAX'', ''medium''),
         (''Holiday Inn Express Hollywood'', ''low''),
         (''The Standard Downtown LA'', ''medium'')])]"

definition other_hotels :: "(string \<times> string) list" where
  "other_hotels =
     [(''Grand Hotel Central'', ''high''), (''Plaza Hotel'', ''medium''), (''Business Hotel'', ''medium''),
      (''Express Inn'', ''low''), (''City Center Hotel'', ''medium'')]"

definition get_realistic_hotels_for_city :: "string \<Rightarrow> (string \<times> string) list" where
  "get_realistic_hotels_for_city city = (case map_of realistic_hotels city of Some hs \<Rightarrow> hs | None \<Rightarrow> other_hotels)"

definition plane_distance :: "coord \<Rightarrow> coord \<Rightarrow> real" where
  "plane_distance p q = sqrt ((fst p - fst q)\<^sup>2 + (snd p - snd q)\<^sup>2)"

text \<open>The loop starts from an infinite distance (\<open>None\<close>) and the default name.\<close>

fun closest_city :: "coord \<Rightarrow> real option \<times> string \<Rightarrow> (coord \<times> string) list \<Rightarrow> string" where
  "closest_city q best [] = snd best"
| "closest_city q best ((p, n) # cs) =
     closest_city q (if fst best = None \<or> plane_distance q p < the (fst best) then (Some (plane_distance q p), n) else best) cs"

definition infer_international_city :: "coord \<Rightarrow> string" where
  "infer_international_city q = closest_city q (None, ''Ciudad Internacional'') international_cities"

definition generic_hotels :: "(string \<times> string) list" where
  "generic_hotels =
     [(''Hotel Plaza'', ''high''), (''Hotel Centro'', ''medium''), (''Hotel Boutique'', ''high''),
      (''Hotel Ejecutivo'', ''medium''), (''Hotel Business'', ''medium''), (''Hotel Comfort'', ''low'')]"

definition synthetic_hotel :: "coord \<Rightarrow> string \<Rightarrow> nat \<times> string \<times> string \<Rightarrow> pydict" where
  "synthetic_hotel c city = (\<lambda>(i, n, price).
     [(''name'', VStr n),
      (''lat'', VFloat (if i = 0 then fst c else fst c + real i * 0.002)),
      (''lon'', VFloat (if i = 0 then snd c else snd c + real i * 0.002)),
      (''address'', VStr (if i = 0 then ''Centro de '' @ city else ''Cerca del centro de '' @ city)),
      (''rating'', VFloat (py_round 1 (4.2 + real i * 0.05))), (''price_range'', VStr price),
      (''synthetic'', VBool True), (''centroid_optimized'', VBool (i = 0))])"

definition num_or_zero :: "pyval \<Rightarrow> real" where
  "num_or_zero v = (case num_of v of Some x \<Rightarrow> x | None \<Rightarrow> 0)"

definition centroid_optimized :: "pydict \<Rightarrow> bool" where
  "centroid_optimized h \<longleftrightarrow> truthy (dget h ''centroid_optimized'' (VBool False))"

text \<open>The hotel at the centre first, then by rating; Python sorts pairs, here two stable sorts.\<close>

definition generate_synthetic_hotels :: "coord \<Rightarrow> string \<Rightarrow> pydict list" where
  "generate_synthetic_hotels centroid pref =
     (let city = infer_international_city centroid;
          hs = map (synthetic_hotel centroid city)
            (filter (\<lambda>(i, n, price). pref = ''any'' \<or> price = pref) (enumerate 0 (get_realistic_hotels_for_city city @ generic_hotels)))
      in take 3 (sort_key (\<lambda>h. \<not> centroid_optimized h) (sort_key (\<lambda>h. num_or_zero (dget h ''rating'' (VInt 0))) hs)))"

subsection \<open>Hotels of the places service\<close>

definition map_google_price_to_range :: "real \<Rightarrow> string" where
  "map_google_price_to_range l = (if l \<le> 1 then ''low'' else if l \<le> 2 then ''medium'' else ''high'')"

definition google_hotel :: "coord \<Rightarrow> string \<Rightarrow> pyval \<Rightarrow> pydict list res" where
  "google_hotel c pref place =
     rbind (vget place ''geometry'' (VDict [])) (\<lambda>g. rbind (vget g ''location'' (VDict [])) (\<lambda>loc.
     rbind (vget loc ''lat'' (VFloat (fst c))) (\<lambda>lat. rbind (vget loc ''lng'' (VFloat (snd c))) (\<lambda>lon.
     rbind (vget place ''price_level'' (VInt 2)) (\<lambda>l. rbind (need_num l) (\<lambda>level.
     rbind (vget place ''name'' (VStr ''Hotel'')) (\<lambda>n.
     let price = map_google_price_to_range level
     in if pref \<noteq> ''any'' \<and> price \<noteq> pref then Inr []
        else
          rbind (vget place ''vicinity'' (VStr [])) (\<lambda>address. rbind (vget place ''rating'' (VFloat 4)) (\<lambda>rating.
          rbind (vget place ''place_id'' VNone) (\<lambda>pid.
          Inr [[(''name'', n), (''lat'', lat), (''lon'', lon), (''address'', address), (''rating'', rating),
                (''price_range'', VStr price), (''google_place_id'', pid), (''synthetic'', VBool False),
                (''source'', VStr ''google_places'')]])))))))))) "

definition no_results :: "pyval \<Rightarrow> bool res" where
  "no_results d = (if \<not> truthy d then Inr True else rbind (vget d ''results'' VNone) (\<lambda>r. Inr (\<not> truthy r)))"

text \<open>\<open>nearby c radius type\<close> is the answer of the places service.\<close>

definition google_results :: "(coord \<Rightarrow> nat \<Rightarrow> string \<Rightarrow> pyval res) \<Rightarrow> coord \<Rightarrow> string \<Rightarrow> pydict list res" where
  "google_results nearby c pref =
     rbind (nearby c 5000 ''lodging'') (\<lambda>d1. rbind (no_results d1) (\<lambda>none1.
     rbind (if none1 then nearby c 8000 ''accommodation'' else Inr d1) (\<lambda>d2. rbind (no_results d2) (\<lambda>none2.
     if none2 then Inr []
     else
       rbind (vget d2 ''results'' VNone) (\<lambda>r.
       rbind (case r of VList xs \<Rightarrow> Inr (take 5 xs) | VStr s \<Rightarrow> viter (VStr (take 5 s)) | _ \<Rightarrow> Inl TypeError) (\<lambda>places.
       rbind (rmap_list (google_hotel c pref) places) (\<lambda>hs. Inr (concat hs))))))))"

definition search_hotels_with_google_places :: "(coord \<Rightarrow> nat \<Rightarrow> string \<Rightarrow> pyval res) \<Rightarrow> coord \<Rightarrow> string \<Rightarrow> pydict list" where
  "search_hotels_with_google_places nearby c pref = (case google_results nearby c pref of Inr hs \<Rightarrow> hs | Inl e \<Rightarrow> [])"

subsection \<open>Recommendation\<close>

definition available_hotels :: "(coord \<Rightarrow> nat \<Rightarrow> string \<Rightarrow> pyval res) \<Rightarrow> coord \<Rightarrow> string \<Rightarrow> pydict list" where
  "available_hotels nearby c pref =
     (case Option.bind (determine_city (fst c)) (map_of hotel_database) of
        Some hs \<Rightarrow> (if pref \<noteq> ''any'' then filter (\<lambda>h. dget h ''price_range'' VNone = VStr pref) hs else hs)
      | None \<Rightarrow>
          (let hs = search_hotels_with_google_places nearby c pref
           in if hs \<noteq> [] then hs else generate_synthetic_hotels c pref))"

definition reasoning_of :: "real \<Rightarrow> real \<Rightarrow> real \<Rightarrow> string" where
  "reasoning_of to_centroid rating average =
     (let parts =
        (if to_centroid < 2 then [''Muy cerca del centro de tus actividades'']
         else if to_centroid < 5 then [''Ubicaci'' @ utf8 [195, 179] @ ''n conveniente para tus planes''] else []) @
        (if rating \<ge> 4.5 then [''Hotel de alta calidad''] else if rating \<ge> 4 then [''Buena calidad y servicio''] else []) @
        (if average < 3 then [''F'' @ utf8 [195, 161] @ ''cil acceso a tus destinos''] else [])
      in if parts \<noteq> [] then join_with ('' '' @ utf8 [226, 128, 162] @ '' '') parts else ''Opci'' @ utf8 [195, 179] @ ''n disponible en la zona'')"

definition recommendation_of :: "pydict list \<Rightarrow> coord \<Rightarrow> pydict \<Rightarrow> hotel_rec res" where
  "recommendation_of places centroid h =
     rbind (pnum h ''lat'') (\<lambda>a. rbind (pnum h ''lon'') (\<lambda>b.
     rbind (rmap_list (hotel_distance (a, b)) places) (\<lambda>ds.
     let to_centroid = haversine_atan2 (a, b) centroid; average = sum_list ds / real (length places)
     in rbind (calculate_convenience_score h places centroid) (\<lambda>score.
        rbind (pnum h ''rating'') (\<lambda>rating.
        rbind (dindex h ''name'') (\<lambda>n. rbind (dindex h ''address'') (\<lambda>address. rbind (dindex h ''rating'') (\<lambda>r.
        rbind (dindex h ''price_range'') (\<lambda>price.
        Inr \<lparr>hr_name = n, hr_lat = a, hr_lon = b, hr_address = address, hr_rating = r, hr_price = price,
             hr_centroid_km = py_round 2 to_centroid, hr_places_km = py_round 2 average, hr_score = py_round 3 score,
             hr_reasoning = reasoning_of to_centroid rating average, hr_city = VStr [], hr_accessibility = 0\<rparr>)))))))))"

text \<open>\<open>xs[:n]\<close>; a stable descending sort.\<close>

definition prefix_to :: "int \<Rightarrow> 'a list \<Rightarrow> 'a list" where
  "prefix_to n xs = (if 0 \<le> n then take (nat n) xs else take (length xs - nat (- n)) xs)"

definition recommend_hotels :: "(coord \<Rightarrow> nat \<Rightarrow> string \<Rightarrow> pyval res) \<Rightarrow> pydict list \<Rightarrow> int \<Rightarrow> string \<Rightarrow> hotel_rec list res" where
  "recommend_hotels nearby places max_recommendations pref =
     (if places = [] then Inr []
      else
        rbind (calculate_geographic_centroid places) (\<lambda>c.
        rbind (rmap_list (recommendation_of places c) (available_hotels nearby c pref)) (\<lambda>rs.
        Inr (prefix_to max_recommendations (sort_key (\<lambda>r. - hr_score r) rs)))))"

definition selection_criteria :: pyval where
  "selection_criteria =
     VDict [(''based_on'', VStr ''geographic_proximity_to_planned_activities''),
       (''factors'', VList (map VStr [''distance_to_activity_centroid'', ''average_distance_to_all_places'', ''hotel_rating'', ''central_location_bonus''])),
       (''algorithm'', VStr ''weighted_convenience_score'')]"

definition format_recommendations_for_api :: "hotel_rec list \<Rightarrow> pydict list" where
  "format_recommendations_for_api rs =
     map (\<lambda>(i, r).
       [(''name'', hr_name r), (''lat'', VFloat (hr_lat r)), (''lon'', VFloat (hr_lon r)), (''type'', VStr ''hotel''),
        (''address'', hr_address r), (''rating'', hr_rating r), (''price_range'', hr_price r),
        (''distance_to_centroid_km'', VFloat (hr_centroid_km r)), (''avg_distance_to_places_km'', VFloat (hr_places_km r)),
        (''convenience_score'', VFloat (hr_score r)), (''reasoning'', VStr (hr_reasoning r)),
        (''recommendation_rank'', VInt (int i + 1)), (''selection_criteria'', selection_criteria)]) (enumerate 0 rs)"

subsection \<open>Stays of a trip through several cities\<close>

definition synthetic_city_coords :: "(string, coord) dict" where
  "synthetic_city_coords =
     [(''paris'', (48.8566, 2.3522)),
      (''london'', (51.5074, - 0.1278)),
      (''berlin'', (52.52, 13.405)),
      (''madrid'', (40.4168, - 3.7038)),
      (''rome'', (41.9028, 12.4964)),
      (''amsterdam'', (52.3676, 4.9041)),
      (''barcelona'', (41.3851, 2.1734)),
      (''santiago'', (- 33.4489, - 70.6693)),
      (''valparaiso'', (- 33.0472, - 71.6127))]"

definition get_synthetic_city_coordinates :: "string \<Rightarrow> coord" where
  "get_synthetic_city_coordinates city = (case map_of synthetic_city_coords (lower city) of Some c \<Rightarrow> c | None \<Rightarrow> (0, 0))"

definition generate_synthetic_hotel_for_city :: "string \<Rightarrow> hotel_rec list" where
  "generate_synthetic_hotel_for_city city =
     (let c = get_synthetic_city_coordinates city
      in [\<lparr>hr_name = VStr (''Hotel Central '' @ city), hr_lat = fst c, hr_lon = snd c, hr_address = VStr (''Centro de '' @ city),
           hr_rating = VFloat 4, hr_price = VStr ''medium'', hr_centroid_km = 0, hr_places_km = 0, hr_score = 0.7,
           hr_reasoning = ''Hotel sint'' @ utf8 [195, 169] @ ''tico generado para '' @ city @ '' (sin data espec'' @ utf8 [195, 173] @ ''fica disponible)'',
           hr_city = VStr city, hr_accessibility = 0\<rparr>])"

definition table_hotel :: "string \<Rightarrow> pydict \<Rightarrow> hotel_rec res" where
  "table_hotel city h =
     rbind (dindex h ''name'') (\<lambda>n. rbind (pnum h ''lat'') (\<lambda>a. rbind (pnum h ''lon'') (\<lambda>b.
     rbind (need_num (dget h ''rating'' (VFloat 0))) (\<lambda>r.
     Inr \<lparr>hr_name = n, hr_lat = a, hr_lon = b, hr_address = dget h ''address'' (VStr []), hr_rating = dget h ''rating'' (VFloat 0),
          hr_price = dget h ''price_range'' (VStr ''medium''), hr_centroid_km = 0, hr_places_km = 0, hr_score = r / 5,
          hr_reasoning = ''Hotel encontrado por b'' @ utf8 [195, 186] @ ''squeda de ciudad: '' @ city, hr_city = VStr city, hr_accessibility = 0\<rparr>))))"

definition city_key :: "string \<Rightarrow> string" where
  "city_key city = map (\<lambda>c. if c = CHR '' '' then CHR ''_'' else c) (lower city)"

definition find_hotels_by_city_name :: "string \<Rightarrow> nat \<Rightarrow> hotel_rec list res" where
  "find_hotels_by_city_name city n =
     (case map_of hotel_database (city_key city) of
        Some hs \<Rightarrow> rmap_list (table_hotel city) (take n hs)
      | None \<Rightarrow> Inr (generate_synthetic_hotel_for_city city))"

definition intercity_accessibility :: "(coord \<Rightarrow> coord \<Rightarrow> real) \<Rightarrow> hotel_rec \<Rightarrow> coord \<Rightarrow> real" where
  "intercity_accessibility geodesic h c = max 0 (1 - geodesic (hr_lat h, hr_lon h) c / 20)"

definition hotels_of_city :: "pyval \<Rightarrow> hotel_rec list res" where
  "hotels_of_city name = (case name of VStr n \<Rightarrow> find_hotels_by_city_name n 3 | _ \<Rightarrow> Inl AttributeError)"

text \<open>A city of one day is passed over, and so is its day.\<close>

definition plan_city ::
  "(coord \<Rightarrow> coord \<Rightarrow> real) \<Rightarrow> (pyval, int) dict \<Rightarrow> pyval \<times> coord \<Rightarrow> int \<times> stay list \<Rightarrow> (int \<times> stay list) res" where
  "plan_city geodesic days = (\<lambda>(name, c) (current, stays).
     let n = (case map_of days name of Some d \<Rightarrow> d | None \<Rightarrow> 1)
     in if n \<le> 1 then Inr (current, stays)
        else
          rbind (hotels_of_city name) (\<lambda>hotels.
          Inr (current + n,
            case hotels of
              [] \<Rightarrow> stays
            | h # hs \<Rightarrow>
                add_city_accommodation name (h\<lparr>hr_city := name, hr_accessibility := intercity_accessibility geodesic h c\<rparr>) (n - 1) current stays)))"

definition night_price :: "pyval \<Rightarrow> real" where
  "night_price p =
     (if p = VStr ''low'' then 50 else if p = VStr ''medium'' then 120 else if p = VStr ''high'' then 250 else 120)"

definition estimate_accommodation_costs :: "stay list \<Rightarrow> real" where
  "estimate_accommodation_costs stays = sum_list (map (\<lambda>a. night_price (hr_price (ac_hotel a)) * real_of_int (ac_nights a)) stays)"

fun hotel_legs :: "(coord \<Rightarrow> coord \<Rightarrow> real) \<Rightarrow> stay list \<Rightarrow> real list" where
  "hotel_legs geodesic (a # b # ss) =
     geodesic (hr_lat (ac_hotel a), hr_lon (ac_hotel a)) (hr_lat (ac_hotel b), hr_lon (ac_hotel b)) # hotel_legs geodesic (b # ss)"
| "hotel_legs geodesic ss = []"

definition analyze_intercity_logistics :: "(coord \<Rightarrow> coord \<Rightarrow> real) \<Rightarrow> stay list \<Rightarrow> logistics" where
  "analyze_intercity_logistics geodesic stays =
     (if length stays \<le> 1 then \<lparr>lo_complexity = ''simple'', lo_score = 1, lo_distances = None, lo_changes = 0\<rparr>
      else
        let ds = hotel_legs geodesic stays; average = sum_list ds / real (length ds); mx = Max (set ds)
        in \<lparr>lo_complexity = (if mx > 800 then ''international'' else if average > 300 then ''intercity'' else ''simple''),
            lo_score = max 0.1 (1 - average / 1000), lo_distances = Some (average, mx), lo_changes = length stays\<rparr>)"

definition plan_multi_city_accommodations ::
  "(coord \<Rightarrow> coord \<Rightarrow> real) \<Rightarrow> (pyval \<times> coord) list \<Rightarrow> (pyval, int) dict \<Rightarrow> stay_plan res" where
  "plan_multi_city_accommodations geodesic cities days =
     rbind (rfold (plan_city geodesic days) cities (1, [])) (\<lambda>(current, stays).
     Inr \<lparr>pl_stays = stays, pl_nights = sum_list (map ac_nights stays), pl_cities = length stays,
          pl_cost = estimate_accommodation_costs stays, pl_logistics = Some (analyze_intercity_logistics geodesic stays)\<rparr>)"

text \<open>Of several stays in one city the map keeps the last.\<close>

fun sequence_stays :: "(pyval, stay) dict \<Rightarrow> int \<Rightarrow> pyval list \<Rightarrow> stay list" where
  "sequence_stays m current [] = []"
| "sequence_stays m current (c # cs) =
     (case map_of m c of
        Some a \<Rightarrow>
          a\<lparr>ac_check_in := current, ac_check_out := current + ac_nights a\<rparr> # sequence_stays m (current + ac_nights a + 1) cs
      | None \<Rightarrow> sequence_stays m current cs)"

definition optimize_accommodation_sequence :: "stay_plan \<Rightarrow> pyval list \<Rightarrow> stay_plan" where
  "optimize_accommodation_sequence p sequence =
     \<lparr>pl_stays = sequence_stays (fold (\<lambda>a. dset (ac_city a) a) (pl_stays p) []) 1 sequence, pl_nights = pl_nights p,
      pl_cities = pl_cities p, pl_cost = pl_cost p, pl_logistics = None\<rparr>"

subsection \<open>Lemmas\<close>

lemma score_bounds:
  assumes "0 \<le> d" "0 \<le> a" "0 \<le> r" "r \<le> 5"
  shows "0 \<le> score_of d a r \<and> score_of d a r \<le> 0.92"
proof -
  define b where "b = (if d < 2 then 0.2 else if d < 5 then 0.1 else (0::real))"
  define c where "c = max 0 (1 - d / 10)"
  define e where "e = max 0 (1 - a / 8)"
  have "0 \<le> b" "b \<le> 0.2" "0 \<le> c" "c \<le> 1" "0 \<le> e" "e \<le> 1"
    using assms by (auto simp: b_def c_def e_def)
  moreover have "score_of d a r = min 1 (c * 0.3 + e * 0.4 + r / 5 * 0.2 + b * 0.1)"
    by (simp add: score_of_def b_def c_def e_def Let_def)
  ultimately show ?thesis using assms by auto
qed

lemma sum_list_bound: "\<forall>x \<in> set xs. 0 \<le> x \<Longrightarrow> 0 \<le> sum_list (xs :: real list)"
  by (induction xs) auto

lemma prefix_to_take: "0 \<le> n \<Longrightarrow> prefix_to n xs = take (nat n) xs"
  by (simp add: prefix_to_def)

lemma sorted_take_best:
  fixes f :: "'a \<Rightarrow> real"
  assumes "ys = sort_key (\<lambda>x. - f x) xs"
  shows "sorted_wrt (\<lambda>x y. f y \<le> f x) (take n ys) \<and> mset (take n ys) + mset (drop n ys) = mset xs \<and>
    (\<forall>x \<in> set (take n ys). \<forall>y \<in> set (drop n ys). f y \<le> f x)"
proof -
  have s: "sorted_wrt (\<lambda>x y. f y \<le> f x) ys"
    using sorted_sort_key [of "\<lambda>x. - f x" xs] unfolding assms sorted_map by (rule sorted_wrt_mono_rel [rotated]) simp
  have "take n ys @ drop n ys = ys" by simp
  then have "sorted_wrt (\<lambda>x y. f y \<le> f x) (take n ys @ drop n ys)" using s by simp
  then have "sorted_wrt (\<lambda>x y. f y \<le> f x) (take n ys)" "\<forall>x \<in> set (take n ys). \<forall>y \<in> set (drop n ys). f y \<le> f x"
    unfolding sorted_wrt_append by blast+
  moreover have "mset (take n ys) + mset (drop n ys) = mset ys" by (simp flip: mset_append)
  moreover have "mset ys = mset xs" by (simp add: assms)
  ultimately show ?thesis by simp
qed

lemma closest_city_ok:
  assumes "fst best = Some (plane_distance q p)" "(p, snd best) \<in> set all" "set cs \<subseteq> set all" "\<forall>x \<in> set all - set cs. plane_distance q p \<le> plane_distance q (fst x)"
  shows "\<exists>p. (p, closest_city q best cs) \<in> set all \<and> (\<forall>x \<in> set all. plane_distance q p \<le> plane_distance q (fst x))"
  using assms
proof (induction q best cs arbitrary: p rule: closest_city.induct)
  case (1 q best)
  then show ?case by (intro exI [of _ p]) simp
next
  case (2 q best p1 n cs)
  show ?case
  proof (cases "plane_distance q p1 < plane_distance q p")
    case True
    have "\<forall>x \<in> set all - set cs. plane_distance q p1 \<le> plane_distance q (fst x)"
      proof
      fix x assume x: "x \<in> set all - set cs"
      show "plane_distance q p1 \<le> plane_distance q (fst x)"
      proof (cases "x = (p1, n)")
        case False
        with x have "x \<in> set all - set ((p1, n) # cs)" by simp
        with "2.prems"(4) have "plane_distance q p \<le> plane_distance q (fst x)" by blast
        with True show ?thesis by simp
      qed simp
    qed
    moreover have "closest_city q best ((p1, n) # cs) = closest_city q (Some (plane_distance q p1), n) cs" using "2.prems"(1) True by simp
    ultimately show ?thesis using "2.IH" [of p1] "2.prems"(1,3) True by simp
  next
    case False
    have "\<forall>x \<in> set all - set cs. plane_distance q p \<le> plane_distance q (fst x)"
      proof
      fix x assume x: "x \<in> set all - set cs"
      show "plane_distance q p \<le> plane_distance q (fst x)"
      proof (cases "x = (p1, n)")
        case False
        with x have "x \<in> set all - set ((p1, n) # cs)" by simp
        with "2.prems"(4) show ?thesis by blast
      qed (use False in simp)
    qed
    moreover have "closest_city q best ((p1, n) # cs) = closest_city q best cs" using "2.prems"(1) False by simp
    ultimately show ?thesis using "2.IH" [of p] "2.prems"(1,2,3) False by simp
  qed
qed

lemma infer_city_ok:
  "\<exists>p. (p, infer_international_city q) \<in> set international_cities \<and>
     (\<forall>x \<in> set international_cities. plane_distance q p \<le> plane_distance q (fst x))"
proof -
  obtain p n cs where c: "international_cities = (p, n) # cs" by (simp add: international_cities_def)
  have "\<exists>p'. (p', closest_city q (Some (plane_distance q p), n) cs) \<in> set ((p, n) # cs) \<and>
     (\<forall>x \<in> set ((p, n) # cs). plane_distance q p' \<le> plane_distance q (fst x))"
    by (rule closest_city_ok [where p = p]) auto
  then show ?thesis by (simp add: infer_international_city_def c)
qed

lemma first_hotel_high: "\<exists>n hs. get_realistic_hotels_for_city city = (n, ''high'') # hs"
  by (auto simp: get_realistic_hotels_for_city_def other_hotels_def realistic_hotels_def)

lemma synthetic_centre: "centroid_optimized (synthetic_hotel c city (i, n, price)) \<longleftrightarrow> i = 0"
  by (simp add: centroid_optimized_def synthetic_hotel_def)

lemma find_hotels_nonempty:
  assumes "1 \<le> n" "find_hotels_by_city_name city n = Inr hs"
  shows "hs \<noteq> []"
proof (cases "map_of hotel_database (city_key city)")
  case None
  then show ?thesis using assms(2) by (auto simp: find_hotels_by_city_name_def generate_synthetic_hotel_for_city_def Let_def)
next
  case (Some t)
  then have "t \<noteq> []"
    by (auto simp: hotel_database_def santiago_hotels_def antofagasta_hotels_def calama_hotels_def paris_hotels_def amsterdam_hotels_def
        berlin_hotels_def rome_hotels_def barcelona_hotels_def split: if_splits)
  then show ?thesis using Some assms by (cases n; cases t) (auto simp: find_hotels_by_city_name_def rbind_eq_Inr_iff)
qed

definition stop_days :: "(pyval, int) dict \<Rightarrow> pyval \<times> coord \<Rightarrow> int" where
  "stop_days days s = (case map_of days (fst s) of Some d \<Rightarrow> d | None \<Rightarrow> 1)"

lemma plan_city_ok:
  assumes "plan_city geodesic days s (current, stays) = Inr (current', stays')"
  shows "if stop_days days s \<le> 1 then current' = current \<and> stays' = stays
    else current' = current + stop_days days s \<and> (\<exists>a. stays' = stays @ [a] \<and> ac_city a = fst s \<and> ac_nights a = stop_days days s - 1 \<and>
      ac_check_in a = current \<and> ac_check_out a = current + ac_nights a)"
proof (cases "stop_days days s \<le> 1")
  case True
  then show ?thesis using assms by (cases s) (simp add: plan_city_def stop_days_def Let_def)
next
  case False
  obtain name c where s: "s = (name, c)" by (cases s)
  have "plan_city geodesic days s (current, stays) = rbind (hotels_of_city name) (\<lambda>hotels. Inr (current + stop_days days s,
    case hotels of [] \<Rightarrow> stays | h # hs \<Rightarrow>
      add_city_accommodation name (h\<lparr>hr_city := name, hr_accessibility := intercity_accessibility geodesic h c\<rparr>) (stop_days days s - 1) current stays))"
    using False unfolding s stop_days_def plan_city_def fst_conv by (simp add: Let_def)
  with assms obtain hotels where h: "hotels_of_city name = Inr hotels" "current' = current + stop_days days s"
    "stays' = (case hotels of [] \<Rightarrow> stays | h # hs \<Rightarrow>
       add_city_accommodation name (h\<lparr>hr_city := name, hr_accessibility := intercity_accessibility geodesic h c\<rparr>) (stop_days days s - 1) current stays)"
    by (auto simp: rbind_eq_Inr_iff)
  have "hotels \<noteq> []" using h(1) find_hotels_nonempty [of 3] by (auto simp: hotels_of_city_def split: pyval.splits)
  then show ?thesis using False h(2,3) by (cases hotels) (auto simp: add_city_accommodation_def s)
qed

text \<open>The stays in order: those of the cities of several days, from the day \<open>current\<close> on.\<close>

fun stays_from :: "(pyval, int) dict \<Rightarrow> int \<Rightarrow> (pyval \<times> coord) list \<Rightarrow> stay list \<Rightarrow> bool" where
  "stays_from days current [] stays = (stays = [])"
| "stays_from days current (s # ss) stays =
     (if stop_days days s \<le> 1 then stays_from days current ss stays
      else (case stays of [] \<Rightarrow> False
            | a # rest \<Rightarrow> ac_city a = fst s \<and> ac_nights a = stop_days days s - 1 \<and> ac_check_in a = current \<and>
                ac_check_out a = current + ac_nights a \<and> stays_from days (current + stop_days days s) ss rest))"

lemma plan_stays:
  "rfold (plan_city geodesic days) cities (current, stays) = Inr (current', stays') \<Longrightarrow>
   \<exists>new. stays' = stays @ new \<and> stays_from days current cities new"
proof (induction cities arbitrary: current stays)
  case (Cons s ss)
  from Cons.prems obtain c1 s1 where i: "plan_city geodesic days s (current, stays) = Inr (c1, s1)"
    "rfold (plan_city geodesic days) ss (c1, s1) = Inr (current', stays')" by (auto simp: rbind_eq_Inr_iff)
  from Cons.IH [OF i(2)] obtain new where n: "stays' = s1 @ new" "stays_from days c1 ss new" by blast
  from plan_city_ok [OF i(1)] n show ?case by (cases "stop_days days s \<le> 1") auto
qed simp

subsection \<open>Properties\<close>

text \<open>
  C29: the recommended hotels are a best choice of the available ones: at most as many as asked for, in
  descending order of score, and no hotel left out scores higher than a recommended one.
\<close>

theorem recommended_hotels_are_the_best:
  assumes "recommend_hotels nearby places n pref = Inr rs" "0 \<le> n" "places \<noteq> []"
  shows "\<exists>c all. calculate_geographic_centroid places = Inr c \<and>
    rmap_list (recommendation_of places c) (available_hotels nearby c pref) = Inr all \<and>
    length rs = min (nat n) (length all) \<and> sorted_wrt (\<lambda>r q. hr_score q \<le> hr_score r) rs \<and>
    (\<exists>left_out. mset rs + mset left_out = mset all \<and> (\<forall>r \<in> set rs. \<forall>q \<in> set left_out. hr_score q \<le> hr_score r))"
proof -
  from assms obtain c all where c: "calculate_geographic_centroid places = Inr c"
    "rmap_list (recommendation_of places c) (available_hotels nearby c pref) = Inr all"
    "rs = take (nat n) (sort_key (\<lambda>r. - hr_score r) all)"
    by (auto simp: recommend_hotels_def rbind_eq_Inr_iff prefix_to_take)
  from sorted_take_best [OF refl, of hr_score "nat n" all] c show ?thesis
    by (intro exI [of _ c] exI [of _ all] conjI exI [of _ "drop (nat n) (sort_key (\<lambda>r. - hr_score r) all)"]) auto
qed

theorem recommended_hotels_are_the_best_witness:
  "\<exists>rs. recommend_hotels (\<lambda>c r t. Inr VNone) [[(''lat'', VFloat (- 22.45)), (''lon'', VFloat (- 68.9))]] 1 ''any'' = Inr rs \<and> length rs = 1"
proof -
  let ?ps = "[[(''lat'', VFloat (- 22.45)), (''lon'', VFloat (- 68.9))]]"
  have c: "calculate_geographic_centroid ?ps = Inr (- 22.45, - 68.9)"
    by (simp add: calculate_geographic_centroid_def pnum_def dindex_def)
  have h: "available_hotels (\<lambda>c r t. Inr VNone) (- 22.45, - 68.9) ''any'' = calama_hotels"
    by (simp add: available_hotels_def determine_city_def hotel_database_def)
  have "\<exists>all. rmap_list (recommendation_of ?ps (- 22.45, - 68.9)) calama_hotels = Inr all"
    by (simp add: calama_hotels_def hotel_row_def recommendation_of_def calculate_convenience_score_def weighted_distance_def
        hotel_distance_def pnum_def dindex_def Let_def)
  then obtain all where a: "rmap_list (recommendation_of ?ps (- 22.45, - 68.9)) calama_hotels = Inr all" by blast
  have l: "length all = 2" using rmap_list_length [OF a] by (simp add: calama_hotels_def)
  have r: "recommend_hotels (\<lambda>c r t. Inr VNone) ?ps 1 ''any'' = Inr (prefix_to 1 (sort_key (\<lambda>r. - hr_score r) all))"
    by (simp only: recommend_hotels_def c rbind_Inr h a list.distinct if_False)
  from recommended_hotels_are_the_best [OF r] obtain c0 all0 where
    "calculate_geographic_centroid ?ps = Inr c0" "rmap_list (recommendation_of ?ps c0) (available_hotels (\<lambda>c r t. Inr VNone) c0 ''any'') = Inr all0"
    "length (prefix_to 1 (sort_key (\<lambda>r. - hr_score r) all)) = min (nat 1) (length all0)" by auto
  moreover from this(1,2) c h a have "all0 = all" by (simp only: sum.inject)
  ultimately show ?thesis using l r by simp
qed

text \<open>
  with a rating from 0 to 5 and priorities that are not negative, the score of a hotel lies
  between 0 and 0.92: the cap at 1 is never reached.
\<close>

theorem convenience_score_range:
  assumes "calculate_convenience_score hotel places c = Inr s" "num_of (dget hotel ''rating'' (VFloat 3)) = Some r" "0 \<le> r" "r \<le> 5"
    and "\<forall>p \<in> set places. \<forall>k. num_of (dget p ''priority'' (VInt 5)) = Some k \<longrightarrow> 0 \<le> k"
  shows "0 \<le> s \<and> s \<le> 0.92"
proof -
  from assms(1,2) obtain a b ds where s: "rmap_list (weighted_distance (a, b)) places = Inr ds"
    "s = score_of (haversine_atan2 (a, b) c) (if places = [] then 0 else sum_list ds / real (length places)) r"
    by (auto simp: calculate_convenience_score_def rbind_eq_Inr_iff need_num_def)
  have "\<forall>x \<in> set ds. 0 \<le> x"
  proof
    fix x assume "x \<in> set ds"
    with rmap_list_mem [OF s(1)] obtain p where p: "p \<in> set places" "weighted_distance (a, b) p = Inr x" by auto
    then obtain d k where "hotel_distance (a, b) p = Inr d" "num_of (dget p ''priority'' (VInt 5)) = Some k" "x = d * (k / 10)"
      by (auto simp: weighted_distance_def rbind_eq_Inr_iff need_num_def split: option.splits)
    moreover from this(1) have "0 \<le> d" by (auto simp: hotel_distance_def rbind_eq_Inr_iff haversine_atan2_nonneg)
    moreover have "0 \<le> k" using assms(5) p(1) calculation(2) by blast
    ultimately show "0 \<le> x" by (simp only: mult_nonneg_nonneg divide_nonneg_pos zero_less_numeral)
  qed
  then have "0 \<le> sum_list ds" by (rule sum_list_bound)
  then show ?thesis using s(2) assms(3,4) score_bounds [OF haversine_atan2_nonneg] by simp
qed

theorem convenience_score_range_witness:
  "\<exists>s. calculate_convenience_score (hd calama_hotels) [] (- 22.45, - 68.9) = Inr s \<and> 0 \<le> s \<and> s \<le> 0.92"
proof -
  obtain s where s: "calculate_convenience_score (hd calama_hotels) [] (- 22.45, - 68.9) = Inr s"
    by (simp add: calculate_convenience_score_def calama_hotels_def hotel_row_def pnum_def dindex_def)
  from convenience_score_range [OF s, of "4.2"] s show ?thesis by (simp add: calama_hotels_def hotel_row_def)
qed

text \<open>
  the latitude alone decides on the table: a trip around 33 degrees south gets the hotels of
  Santiago, wherever on that circle it is and whatever the places service would answer.
\<close>

theorem latitude_decides_the_table:
  assumes "- 35 \<le> lat" "lat \<le> - 32"
  shows "available_hotels nearby (lat, lon) pref = filter (\<lambda>h. pref = ''any'' \<or> dget h ''price_range'' VNone = VStr pref) santiago_hotels"
  using assms by (auto simp: available_hotels_def determine_city_def hotel_database_def)

theorem latitude_decides_the_table_witness:
  "available_hotels (\<lambda>c r t. Inl ConnectionError) (- 33.8688, 151.2093) ''any'' = santiago_hotels"
  by (subst latitude_decides_the_table) simp_all

text \<open>
  a made-up hotel stands at the centre of the trip exactly when the first hotel of the list may be
  chosen: with the price ranges low and medium none does, although they are placed there to be close to everything.
\<close>

theorem synthetic_hotels_at_the_centre:
  "(\<exists>h \<in> set (generate_synthetic_hotels c pref). centroid_optimized h) \<longleftrightarrow> pref = ''any'' \<or> pref = ''high''"
proof -
  obtain n hs where f: "get_realistic_hotels_for_city (infer_international_city c) = (n, ''high'') # hs" using first_hotel_high by blast
  let ?ok = "\<lambda>(i :: nat, n :: string, price). pref = ''any'' \<or> price = pref"
  let ?rows = "enumerate 0 (get_realistic_hotels_for_city (infer_international_city c) @ generic_hotels)"
  let ?hs = "map (synthetic_hotel c (infer_international_city c)) (filter ?ok ?rows)"
  let ?s = "sort_key (\<lambda>h. \<not> centroid_optimized h) (sort_key (\<lambda>h. num_or_zero (dget h ''rating'' (VInt 0))) ?hs)"
  have g: "generate_synthetic_hotels c pref = take 3 ?s" by (simp add: generate_synthetic_hotels_def Let_def)
  have rows: "(i, m, price) \<in> set ?rows \<Longrightarrow> i = 0 \<Longrightarrow> price = ''high''" for i m price
    by (simp add: f in_set_enumerate_eq)
  have all: "(\<exists>h \<in> set ?hs. centroid_optimized h) \<longleftrightarrow> pref = ''any'' \<or> pref = ''high''"
  proof
    assume "\<exists>h \<in> set ?hs. centroid_optimized h"
    then obtain i m price where "(i, m, price) \<in> set ?rows" "pref = ''any'' \<or> price = pref"
      "centroid_optimized (synthetic_hotel c (infer_international_city c) (i, m, price))" by auto
    then show "pref = ''any'' \<or> pref = ''high''" using rows synthetic_centre by blast
  next
    assume "pref = ''any'' \<or> pref = ''high''"
    then have "(0, n, ''high'') \<in> set (filter ?ok ?rows)" by (auto simp: f)
    then have "synthetic_hotel c (infer_international_city c) (0, n, ''high'') \<in> set ?hs" unfolding set_map by (rule imageI)
    then show "\<exists>h \<in> set ?hs. centroid_optimized h" using synthetic_centre by blast
  qed
  have "(\<exists>h \<in> set (take 3 ?s). centroid_optimized h) \<longleftrightarrow> (\<exists>h \<in> set ?s. centroid_optimized h)"
  proof
    assume "\<exists>h \<in> set ?s. centroid_optimized h"
    then obtain h where h: "h \<in> set ?s" "centroid_optimized h" by blast
    then obtain x xs where x: "?s = x # xs" by (cases ?s) auto
    have "sorted (map (\<lambda>h. \<not> centroid_optimized h) ?s)" by (rule sorted_sort_key)
    then have "centroid_optimized x" using h by (auto simp: x)
    then show "\<exists>h \<in> set (take 3 ?s). centroid_optimized h" by (simp add: x)
  qed (meson in_set_takeD)
  also have "\<dots> \<longleftrightarrow> (\<exists>h \<in> set ?hs. centroid_optimized h)" by simp
  finally show ?thesis using g all by simp
qed

text \<open>
  the city whose hotels are made up is always the nearest of eleven cities of the Americas,
  never the default: a trip in Europe or Asia gets hotels named after one of them.
\<close>

theorem inferred_city_is_the_nearest:
  "(\<exists>p. (p, infer_international_city q) \<in> set international_cities \<and>
     (\<forall>x \<in> set international_cities. plane_distance q p \<le> plane_distance q (fst x))) \<and>
   infer_international_city q \<noteq> ''Ciudad Internacional''"
proof -
  have "map snd international_cities = [''Orlando'', ''Miami'', ''Nueva York'', ''Los '' @ utf8 [195, 129] @ ''ngeles'', ''Chicago'',
     ''Ciudad de M'' @ utf8 [195, 169] @ ''xico'', ''Guadalajara'', ''S'' @ utf8 [195, 163] @ ''o Paulo'', ''R'' @ utf8 [195, 173] @ ''o de Janeiro'',
     ''Buenos Aires'', ''Lima'']" by (simp only: international_cities_def list.map snd_conv)
  then have "''Ciudad Internacional'' \<notin> set (map snd international_cities)" by simp
  then have "''Ciudad Internacional'' \<notin> snd ` set international_cities" by (simp only: set_map not_False_eq_True)
  moreover obtain p where p: "(p, infer_international_city q) \<in> set international_cities"
    "\<forall>x \<in> set international_cities. plane_distance q p \<le> plane_distance q (fst x)" using infer_city_ok by blast
  moreover have "infer_international_city q \<in> snd ` set international_cities" by (rule image_eqI [OF _ p(1)]) (simp only: snd_conv)
  ultimately have "infer_international_city q \<noteq> ''Ciudad Internacional''" by (intro notI) (simp only:)
  with p show ?thesis by (intro conjI exI [of _ p])
qed

theorem inferred_city_is_the_nearest_witness:
  "infer_international_city (48.8566, 2.3522) \<noteq> ''Ciudad Internacional''"
  using inferred_city_is_the_nearest by blast

lemma stays_from_ok:
  "stays_from days current cities stays \<Longrightarrow>
   map ac_city stays = map fst (filter (\<lambda>s. 1 < stop_days days s) cities) \<and>
   (\<forall>a \<in> set stays. 1 \<le> ac_nights a \<and> current \<le> ac_check_in a \<and> ac_check_out a = ac_check_in a + ac_nights a) \<and>
   sorted_wrt (\<lambda>a b. ac_check_out a < ac_check_in b) stays"
proof (induction days current cities stays rule: stays_from.induct)
  case (2 days current s ss stays)
  show ?case
  proof (cases "stop_days days s \<le> 1")
    case True
    then show ?thesis using "2.IH"(1) "2.prems" by simp
  next
    case False
    with "2.prems" obtain a rest where a: "stays = a # rest" "ac_city a = fst s" "ac_nights a = stop_days days s - 1"
      "ac_check_in a = current" "ac_check_out a = current + ac_nights a" "stays_from days (current + stop_days days s) ss rest"
      by (cases stays) auto
    from "2.IH"(2) [OF False a(1,6)] False a show ?thesis by fastforce
  qed
qed simp

lemma cost_bounds:
  "\<forall>a \<in> set stays. 1 \<le> ac_nights a \<Longrightarrow>
   50 * real_of_int (sum_list (map ac_nights stays)) \<le> estimate_accommodation_costs stays \<and>
   estimate_accommodation_costs stays \<le> 250 * real_of_int (sum_list (map ac_nights stays))"
proof (induction stays)
  case (Cons a stays)
  have "50 \<le> night_price p \<and> night_price p \<le> 250" for p by (simp add: night_price_def)
  then have "50 * real_of_int (ac_nights a) \<le> night_price (hr_price (ac_hotel a)) * real_of_int (ac_nights a)"
    "night_price (hr_price (ac_hotel a)) * real_of_int (ac_nights a) \<le> 250 * real_of_int (ac_nights a)"
    using Cons.prems by (auto intro!: mult_right_mono)
  moreover have "50 * real_of_int (sum_list (map ac_nights stays)) \<le> estimate_accommodation_costs stays"
    "estimate_accommodation_costs stays \<le> 250 * real_of_int (sum_list (map ac_nights stays))" using Cons by auto
  moreover have "estimate_accommodation_costs (a # stays) =
    night_price (hr_price (ac_hotel a)) * real_of_int (ac_nights a) + estimate_accommodation_costs stays"
    by (simp add: estimate_accommodation_costs_def)
  ultimately show ?case by (simp only: list.map sum_list.Cons of_int_add distrib_left) (intro conjI add_mono)
qed (simp add: estimate_accommodation_costs_def)

text \<open>
  C28: the stays of a trip are one per city of several days, in the order of the cities, each ending the
  number of its nights after it begins and before the next one begins; the nights add up and the cost is
  between 50 and 250 dollars a night.
\<close>

theorem stays_of_a_trip:
  assumes "plan_multi_city_accommodations geodesic cities days = Inr p"
  shows "map ac_city (pl_stays p) = map fst (filter (\<lambda>s. 1 < stop_days days s) cities) \<and>
    (\<forall>a \<in> set (pl_stays p). 1 \<le> ac_nights a \<and> 1 \<le> ac_check_in a \<and> ac_check_out a = ac_check_in a + ac_nights a) \<and>
    sorted_wrt (\<lambda>a b. ac_check_out a < ac_check_in b) (pl_stays p) \<and> pl_nights p = sum_list (map ac_nights (pl_stays p)) \<and>
    50 * real_of_int (pl_nights p) \<le> pl_cost p \<and> pl_cost p \<le> 250 * real_of_int (pl_nights p)"
proof -
  from assms obtain current stays where r: "rfold (plan_city geodesic days) cities (1, []) = Inr (current, stays)"
    "pl_stays p = stays" "pl_nights p = sum_list (map ac_nights stays)" "pl_cost p = estimate_accommodation_costs stays"
    by (auto simp: plan_multi_city_accommodations_def rbind_eq_Inr_iff)
  from plan_stays [OF r(1)] stays_from_ok [of days 1 cities stays] cost_bounds [of stays] r show ?thesis by auto
qed

theorem stays_of_a_trip_witness:
  "\<exists>p. plan_multi_city_accommodations (\<lambda>p q. 0) [(VStr ''Lyon'', (45, 4)), (VStr ''Nice'', (43, 7))] [(VStr ''Lyon'', 3)] = Inr p \<and>
     map ac_city (pl_stays p) = [VStr ''Lyon'']"
proof -
  obtain p where p: "plan_multi_city_accommodations (\<lambda>p q. 0) [(VStr ''Lyon'', (45, 4)), (VStr ''Nice'', (43, 7))] [(VStr ''Lyon'', 3)] = Inr p"
    by (simp add: plan_multi_city_accommodations_def plan_city_def hotels_of_city_def find_hotels_by_city_name_def hotel_database_def
        city_key_def lower_def lower_char_def generate_synthetic_hotel_for_city_def Let_def)
  from stays_of_a_trip [OF p] p show ?thesis by (simp add: stop_days_def)
qed

lemma stay_of_city:
  "stays_from days current (pre @ s # post) stays \<Longrightarrow> 1 < stop_days days s \<Longrightarrow> \<forall>t \<in> set pre. 1 \<le> stop_days days t \<Longrightarrow>
   \<exists>a \<in> set stays. ac_city a = fst s \<and>
     ac_check_in a = current + sum_list (map (stop_days days) pre) - int (length (filter (\<lambda>t. stop_days days t = 1) pre))"
proof (induction pre arbitrary: current stays)
  case Nil
  then show ?case by (cases stays) auto
next
  case (Cons t pre)
  show ?case
  proof (cases "stop_days days t \<le> 1")
    case True
    then have "stop_days days t = 1" using Cons.prems(3) by force
    then show ?thesis using Cons.IH [of current stays] Cons.prems by auto
  next
    case False
    then obtain a rest where "stays = a # rest" "stays_from days (current + stop_days days t) (pre @ s # post) rest"
      using Cons.prems(1) by (cases stays) auto
    then show ?thesis using Cons.IH [of "current + stop_days days t" rest] Cons.prems(2,3) False by (auto simp: algebra_simps)
  qed
qed

text \<open>
  a one-day city before a stay moves its check-in a day before the arrival: the day of
  such a city is not counted.
\<close>

theorem one_day_stops_shift_the_check_in:
  assumes "plan_multi_city_accommodations geodesic (pre @ s # post) days = Inr p" "1 < stop_days days s"
    and "\<forall>t \<in> set pre. 1 \<le> stop_days days t"
  shows "\<exists>a \<in> set (pl_stays p). ac_city a = fst s \<and>
    ac_check_in a = 1 + sum_list (map (stop_days days) pre) - int (length (filter (\<lambda>t. stop_days days t = 1) pre))"
proof -
  from assms(1) obtain current where r: "rfold (plan_city geodesic days) (pre @ s # post) (1, []) = Inr (current, pl_stays p)"
    by (auto simp: plan_multi_city_accommodations_def rbind_eq_Inr_iff)
  from plan_stays [OF r] have "stays_from days 1 (pre @ s # post) (pl_stays p)" by simp
  then show ?thesis using assms(2,3) by (rule stay_of_city)
qed

theorem one_day_stops_shift_the_check_in_witness:
  "\<exists>p. plan_multi_city_accommodations (\<lambda>p q. 0) [(VStr ''Lyon'', (45, 4)), (VStr ''Nice'', (43, 7))] [(VStr ''Lyon'', 1), (VStr ''Nice'', 3)] = Inr p \<and>
     (\<exists>a \<in> set (pl_stays p). ac_city a = VStr ''Nice'' \<and> ac_check_in a = 1)"
proof -
  let ?d = "[(VStr ''Lyon'', 1), (VStr ''Nice'', 3)]"
  obtain p where p: "plan_multi_city_accommodations (\<lambda>p q. 0) ([(VStr ''Lyon'', (45, 4))] @ (VStr ''Nice'', (43, 7)) # []) ?d = Inr p"
    by (simp add: plan_multi_city_accommodations_def plan_city_def hotels_of_city_def find_hotels_by_city_name_def hotel_database_def
        city_key_def lower_def lower_char_def generate_synthetic_hotel_for_city_def Let_def)
  from one_day_stops_shift_the_check_in [OF p] p show ?thesis by (simp add: stop_days_def)
qed

lemma sequence_stays_ok:
  "\<forall>a \<in> ran (map_of m). 1 \<le> ac_nights a \<Longrightarrow> \<forall>c a. map_of m c = Some a \<longrightarrow> ac_city a = c \<Longrightarrow>
   map ac_city (sequence_stays m current cs) = filter (\<lambda>c. map_of m c \<noteq> None) cs \<and>
   (\<forall>a \<in> set (sequence_stays m current cs). current \<le> ac_check_in a \<and> ac_check_out a = ac_check_in a + ac_nights a \<and>
      (\<exists>b. map_of m (ac_city a) = Some b \<and> ac_nights a = ac_nights b \<and> ac_hotel a = ac_hotel b)) \<and>
   sorted_wrt (\<lambda>a b. ac_check_out a < ac_check_in b) (sequence_stays m current cs)"
proof (induction m current cs rule: sequence_stays.induct)
  case (2 m current c cs)
  show ?case
  proof (cases "map_of m c")
    case None
    then show ?thesis using "2.IH"(1) "2.prems" by simp
  next
    case (Some a)
    then have "1 \<le> ac_nights a" "ac_city a = c" using "2.prems" by (auto intro: ranI)
    then show ?thesis using "2.IH"(2) [OF Some "2.prems"] Some by fastforce
  qed
qed simp

lemma find_append: "List.find P (xs @ ys) = (case List.find P xs of None \<Rightarrow> List.find P ys | Some z \<Rightarrow> Some z)"
  by (induction xs) auto

lemma find_SomeD: "List.find P xs = Some x \<Longrightarrow> x \<in> set xs \<and> P x"
  by (induction xs) (auto split: if_splits)

lemma stay_map:
  "map_of (fold (\<lambda>a. dset (ac_city a) a) stays d) c =
     (case List.find (\<lambda>a. ac_city a = c) (rev stays) of Some a \<Rightarrow> Some a | None \<Rightarrow> map_of d c)"
proof (induction stays arbitrary: d)
  case (Cons a stays)
  then show ?case by (cases "List.find (\<lambda>a. ac_city a = c) (rev stays)") (simp_all add: find_append)
qed simp

text \<open>
  put in the order of the journey, the stays are those of its cities that have one, each
  beginning the day after the one before ends, with their nights unchanged.
\<close>

theorem stays_follow_the_journey:
  assumes "\<forall>a \<in> set (pl_stays p). 1 \<le> ac_nights a" "q = optimize_accommodation_sequence p journey"
  shows "map ac_city (pl_stays q) = filter (\<lambda>c. c \<in> ac_city ` set (pl_stays p)) journey \<and>
    (\<forall>a \<in> set (pl_stays q). ac_check_out a = ac_check_in a + ac_nights a \<and>
      (\<exists>b \<in> set (pl_stays p). ac_city b = ac_city a \<and> ac_nights a = ac_nights b \<and> ac_hotel a = ac_hotel b)) \<and>
    sorted_wrt (\<lambda>a b. ac_check_out a < ac_check_in b) (pl_stays q)"
proof -
  let ?m = "fold (\<lambda>a. dset (ac_city a) a) (pl_stays p) []"
  have m: "map_of ?m c = List.find (\<lambda>a. ac_city a = c) (rev (pl_stays p))" for c
    by (simp add: stay_map split: option.splits)
  have f: "map_of ?m c = Some a \<Longrightarrow> a \<in> set (pl_stays p) \<and> ac_city a = c" for c a
    using find_SomeD [of "\<lambda>a. ac_city a = c" "rev (pl_stays p)" a] by (simp add: m)
  have d: "map_of ?m c \<noteq> None \<longleftrightarrow> c \<in> ac_city ` set (pl_stays p)" for c
    by (auto simp: m find_None_iff)
  have c1: "\<forall>a \<in> ran (map_of ?m). 1 \<le> ac_nights a"
  proof
    fix a assume "a \<in> ran (map_of ?m)"
    then obtain c where "map_of ?m c = Some a" unfolding ran_def by blast
    with f assms(1) show "1 \<le> ac_nights a" by blast
  qed
  have c2: "\<forall>c a. map_of ?m c = Some a \<longrightarrow> ac_city a = c" using f by blast
  note k = sequence_stays_ok [OF c1 c2, of 1 journey]
  have q: "pl_stays q = sequence_stays ?m 1 journey" by (simp add: assms(2) optimize_accommodation_sequence_def)
  show ?thesis unfolding q
  proof (intro conjI ballI)
    show "map ac_city (sequence_stays ?m 1 journey) = filter (\<lambda>c. c \<in> ac_city ` set (pl_stays p)) journey"
      using k [THEN conjunct1] by (simp only: d)
    show "sorted_wrt (\<lambda>a b. ac_check_out a < ac_check_in b) (sequence_stays ?m 1 journey)"
      by (rule k [THEN conjunct2, THEN conjunct2])
    fix a assume a: "a \<in> set (sequence_stays ?m 1 journey)"
    note ka = k [THEN conjunct2, THEN conjunct1, THEN bspec, OF a]
    show "ac_check_out a = ac_check_in a + ac_nights a" by (rule ka [THEN conjunct2, THEN conjunct1])
    from ka obtain b where "map_of ?m (ac_city a) = Some b" "ac_nights a = ac_nights b" "ac_hotel a = ac_hotel b" by blast
    then show "\<exists>b \<in> set (pl_stays p). ac_city b = ac_city a \<and> ac_nights a = ac_nights b \<and> ac_hotel a = ac_hotel b"
      using f by blast
  qed
qed

theorem stays_follow_the_journey_witness:
  "map ac_city (pl_stays (optimize_accommodation_sequence
     \<lparr>pl_stays = add_city_accommodation (VStr ''Lyon'') (hd (generate_synthetic_hotel_for_city ''Lyon'')) 2 1 [], pl_nights = 2,
       pl_cities = 1, pl_cost = 240, pl_logistics = None\<rparr> [VStr ''Nice'', VStr ''Lyon''])) = [VStr ''Lyon'']"
  by (subst stays_follow_the_journey [THEN conjunct1, OF _ refl]) (simp_all add: add_city_accommodation_def)

end
