(* ===== verification/MultiCityApi.thy ===== *)
theory MultiCityApi
  imports MultiCity HotelRecommender
begin

section \<open>The multi-city endpoint\<close>

text \<open>
  src/api.py, \<open>optimize_multi_city_itinerary\<close>: a request's places become places of the optimiser, its
  itinerary and the stays planned for it become the answer.  A \<open>Place\<close> is the dictionary of its
  attributes; every exception becomes an HTTP error.  The optimiser is made afresh for each request.
\<close>

subsection \<open>Requests\<close>

definition set_if_given :: "string \<Rightarrow> pydict \<Rightarrow> pydict \<Rightarrow> pydict" where
  "set_if_given k place poi = (case map_of place k of Some v \<Rightarrow> if truthy v then dset k v poi else poi | None \<Rightarrow> poi)"

definition poi_of_place :: "pydict \<Rightarrow> pydict" where
  "poi_of_place place =
     (let poi = [(''name'', dget place ''name'' VNone), (''lat'', dget place ''lat'' VNone), (''lon'', dget place ''lon'' VNone),
                 (''category'', VStr ''attraction''), (''visit_duration_hours'', VInt 2)];
          poi = set_if_given ''category'' place (set_if_given ''country'' place (set_if_given ''city'' place poi))
      in case map_of place ''visit_duration_hours'' of Some v \<Rightarrow> dset ''visit_duration_hours'' v poi | None \<Rightarrow> poi)"

subsection \<open>Answers\<close>

record city_info =
  in_name :: pyval
  in_country :: pyval
  in_coordinates :: coord
  in_pois :: nat
  in_days :: nat

record stay_info =
  si_city :: pyval
  si_hotel :: pyval
  si_rating :: pyval
  si_price :: pyval
  si_nights :: int
  si_check_in :: int
  si_check_out :: int
  si_cost :: real
  si_coordinates :: coord

record multi_city_response =
  re_cities :: "city_info list"
  re_sequence :: "pyval list"
  re_schedule :: "(int, pydict list) dict"
  re_stays :: "stay_info list"
  re_days :: int
  re_countries :: nat
  re_distance :: real
  re_stay_cost :: real
  re_strategy :: strategy
  re_confidence :: real
  re_routes :: nat
  re_pois_per_city :: real

text \<open>The days on which a place says that it lies in the city.\<close>

definition days_in_city :: "multi_city_itinerary \<Rightarrow> city \<Rightarrow> nat" where
  "days_in_city it c = length (filter (\<lambda>(d, ps). \<exists>p \<in> set ps. dget p ''city'' VNone = ci_name c) (it_schedule it))"

definition stay_days :: "multi_city_itinerary \<Rightarrow> (pyval, int) dict" where
  "stay_days it = fold (\<lambda>c. dset (ci_name c) (max 1 (int (days_in_city it c)))) (it_cities it) []"

definition stay_info_of :: "stay \<Rightarrow> stay_info" where
  "stay_info_of a =
     \<lparr>si_city = ac_city a, si_hotel = hr_name (ac_hotel a), si_rating = hr_rating (ac_hotel a), si_price = hr_price (ac_hotel a),
      si_nights = ac_nights a, si_check_in = ac_check_in a, si_check_out = ac_check_out a,
      si_cost = 120 * real_of_int (ac_nights a), si_coordinates = (hr_lat (ac_hotel a), hr_lon (ac_hotel a))\<rparr>"

definition stays_for :: "(coord \<Rightarrow> coord \<Rightarrow> real) \<Rightarrow> bool \<Rightarrow> multi_city_itinerary \<Rightarrow> (stay_info list \<times> real) res" where
  "stays_for geodesic wanted it =
     (if wanted
      then rbind (plan_multi_city_accommodations geodesic (map (\<lambda>c. (ci_name c, coordinates c)) (it_cities it)) (stay_days it)) (\<lambda>p.
        Inr (map stay_info_of (pl_stays p), pl_cost p))
      else Inr ([], 0))"

definition city_info_of :: "multi_city_itinerary \<Rightarrow> city \<Rightarrow> city_info" where
  "city_info_of it c =
     \<lparr>in_name = ci_name c, in_country = ci_country c, in_coordinates = coordinates c, in_pois = length (ci_pois c),
      in_days = days_in_city it c\<rparr>"

definition http_500 :: "'a res \<Rightarrow> 'a res" where
  "http_500 r = (case r of Inl e \<Rightarrow> Inl (OtherError ''HTTPException 500'') | Inr x \<Rightarrow> Inr x)"

definition multi_city_answer :: "nat \<Rightarrow> multi_city_itinerary \<Rightarrow> stay_info list \<times> real \<Rightarrow> multi_city_response" where
  "multi_city_answer n it stays =
     \<lparr>re_cities = map (city_info_of it) (it_cities it), re_sequence = get_city_sequence it, re_schedule = it_schedule it,
      re_stays = fst stays, re_days = it_days it, re_countries = countries_count it, re_distance = it_distance_km it,
      re_stay_cost = snd stays, re_strategy = it_strategy it, re_confidence = it_confidence it, re_routes = length (it_routes it),
      re_pois_per_city = (if it_cities it \<noteq> [] then real n / real (length (it_cities it)) else 0)\<rparr>"

definition optimize_multi_city_endpoint ::
  "(coord \<Rightarrow> coord \<Rightarrow> real) \<Rightarrow> (coord \<Rightarrow> string res) \<Rightarrow> (real \<Rightarrow> int \<Rightarrow> coord list \<Rightarrow> int list res) \<Rightarrow>
   pydict list \<Rightarrow> int \<Rightarrow> pyval option \<Rightarrow> bool \<Rightarrow> multi_city_response res" where
  "optimize_multi_city_endpoint geodesic h3 dbscan places days start_city wanted =
     (let pois = map poi_of_place places
      in http_500
        (rbind (optimize_multi_city_simple geodesic h3 dbscan pois days start_city []) (\<lambda>(it, cache).
         rbind (stays_for geodesic wanted it) (\<lambda>stays. Inr (multi_city_answer (length pois) it stays)))))"

subsection \<open>Lemmas\<close>

lemma most_common_mem: "xs \<noteq> [] \<Longrightarrow> most_common xs \<in> set xs"
proof -
  assume "xs \<noteq> []"
  let ?n = "Max (count_list xs ` set xs)"
  have "?n \<in> count_list xs ` set xs" using \<open>xs \<noteq> []\<close> by (intro Max_in) auto
  then have "filter (\<lambda>x. count_list xs x = ?n) xs \<noteq> []" by (auto simp: filter_empty_conv)
  then have "hd (filter (\<lambda>x. count_list xs x = ?n) xs) \<in> set (filter (\<lambda>x. count_list xs x = ?n) xs)" by (rule hd_in_set)
  then show ?thesis by (simp add: most_common_def Let_def)
qed

lemma truthy_fields_truthy: "v \<in> set (truthy_fields d fs) \<Longrightarrow> truthy v"
  by (induction fs) (auto simp: truthy_fields_def List.map_filter_simps split: option.splits if_splits)

lemma city_names_truthy: "v \<in> set (city_names_of p) \<Longrightarrow> truthy v"
proof -
  assume v: "v \<in> set (city_names_of p)"
  show ?thesis
  proof (cases "v \<in> set (truthy_fields p city_fields)")
    case True
    then show ?thesis by (rule truthy_fields_truthy)
  next
    case False
    with v obtain a where a: "map_of p ''address'' = Some a" by (cases "map_of p ''address''") (auto simp: city_names_of_def)
    with False v show ?thesis
      by (cases a) (auto simp: city_names_of_def opt_str_def dest: truthy_fields_truthy split: option.splits if_splits)
  qed
qed

lemma cluster_name_not_none:
  assumes "determine_cluster_name ps = Inr v" "\<forall>p \<in> set ps. \<exists>n. map_of p ''name'' = Some (VStr n)"
  shows "v \<noteq> VNone"
proof (cases "concat (map city_names_of ps) = []")
  case True
  with assms show ?thesis
    by (cases ps) (auto simp: determine_cluster_name_def rbind_eq_Inr_iff dget_def split: option.splits)
next
  case False
  with assms(1) have "v = most_common (concat (map city_names_of ps))"
    by (auto simp: determine_cluster_name_def count_most_common_def Let_def split: if_splits)
  then have "v \<in> set (concat (map city_names_of ps))" using most_common_mem [OF False] by simp
  then show ?thesis using city_names_truthy by fastforce
qed

lemma clusters_named:
  assumes "clusters_of cf geodesic h3 dbscan pois = Inr cs" "c \<in> set cs"
  shows "determine_cluster_name (cc_pois c) = Inr (cc_name c)"
proof -
  from assms(1) obtain groups valid scored where i: "validate_and_name_clusters cf geodesic groups = Inr valid"
    "calculate_confidence_scores geodesic valid = Inr scored" "set cs \<subseteq> set scored"
    unfolding clusters_of_def by (elim rbind_eq_InrE) (auto intro: that)
  obtain b where b: "b \<in> set valid" "cc_pois b = cc_pois c" "cc_name b = cc_name c"
  proof -
    have "c \<in> set scored" using i(3) assms(2) by blast
    then obtain j where "j < length scored" "scored ! j = c" by (auto simp: in_set_conv_nth)
    then have "valid ! j \<in> set valid" "cc_pois (valid ! j) = cc_pois c" "cc_name (valid ! j) = cc_name c"
      using scores_ok [OF i(2)] by (auto simp: list_all2_conv_all_nth)
    then show ?thesis by (rule that)
  qed
  from i(1) obtain css where r: "rmap_list (validate_group cf geodesic) (enumerate 0 groups) = Inr css" and v: "valid = concat css"
    unfolding validate_and_name_clusters_def rbind_eq_Inr_iff by blast
  from b(1) v obtain bs where bs: "b \<in> set bs" "bs \<in> set css" by auto
  from rmap_list_mem [OF r bs(2)] obtain k g where g: "validate_group cf geodesic (k, g) = Inr bs" by auto
  have "g \<noteq> []" using g bs(1) by (auto simp: validate_group_def)
  then have "determine_cluster_name (cc_pois b) = Inr (cc_name b)" using g bs(1)
    by (auto simp: validate_group_def rbind_eq_Inr_iff split: if_splits)
  then show ?thesis using b(2,3) by simp
qed

lemma sequence_subset: "set (find_optimal_city_sequence geodesic cities start_city) \<subseteq> set cities"
proof (cases "length cities \<le> 1")
  case True
  then show ?thesis by (simp add: find_optimal_city_sequence_def)
next
  case False
  let ?f = "first_named start_city cities" let ?r = "filter (\<lambda>c. ci_name c \<noteq> ci_name ?f) cities"
  have "set (greedy_sequence geodesic (length ?r) ?f ?r) = set ?r" by (rule mset_eq_setD) (rule greedy_mset, simp)
  moreover have "?f \<in> set cities" using False by (intro first_named_mem) auto
  moreover have "find_optimal_city_sequence geodesic cities start_city = ?f # greedy_sequence geodesic (length ?r) ?f ?r"
    using False by (simp add: find_optimal_city_sequence_def Let_def)
  ultimately show ?thesis by auto
qed
lemma simple_days_subset: "(d, ps) \<in> set (simple_daily_distribution pois n) \<Longrightarrow> set ps \<subseteq> set pois"
proof -
  assume "(d, ps) \<in> set (simple_daily_distribution pois n)"
  then obtain k i where "ps = day_slice pois k (nat n) i" by (auto simp: simple_daily_distribution_def slices_def split: if_splits)
  then show ?thesis by (auto simp: day_slice_def dest: in_set_takeD in_set_dropD)
qed

lemma dset_within: "\<forall>x \<in> set s. set (snd x) \<subseteq> A \<Longrightarrow> set v \<subseteq> A \<Longrightarrow> \<forall>x \<in> set (dset k v s). set (snd x) \<subseteq> A"
  by (induction s) auto

lemma fold_dset_within:
  "\<forall>i. set (f i) \<subseteq> A \<Longrightarrow> \<forall>x \<in> set s. set (snd x) \<subseteq> A \<Longrightarrow> \<forall>x \<in> set (fold (\<lambda>i. dset (k i) (f i)) js s). set (snd x) \<subseteq> A"
proof (induction js arbitrary: s)
  case (Cons i js)
  have "\<forall>x \<in> set (dset (k i) (f i) s). set (snd x) \<subseteq> A" using Cons.prems by (intro dset_within) auto
  from Cons.IH [OF Cons.prems(1) this] show ?case by simp
qed simp

lemma put_days_subset:
  assumes "\<forall>x \<in> set s. set (snd x) \<subseteq> A" "\<forall>x \<in> set sched. set (snd x) \<subseteq> A"
  shows "\<forall>x \<in> set (put_days s current n sched). set (snd x) \<subseteq> A"
proof -
  have "set (case map_of s (int i + 1) of None \<Rightarrow> [] | Some ps \<Rightarrow> ps) \<subseteq> A" for i :: nat
  proof (cases "map_of s (int i + 1)")
    case (Some ps)
    then have "(int i + 1, ps) \<in> set s" by (rule map_of_SomeD)
    with assms(1) have "set (snd (int i + 1, ps)) \<subseteq> A" by (rule bspec)
    with Some show ?thesis by simp
  qed simp
  then show ?thesis unfolding put_days_def by (intro fold_dset_within allI assms(2))
qed

lemma trip_days_subset:
  "\<forall>c \<in> set cs. set (ci_pois c) \<subseteq> A \<Longrightarrow> \<forall>x \<in> set sched. set (snd x) \<subseteq> A \<Longrightarrow>
   \<forall>x \<in> set (snd (fold (add_city_days days) cs (current, sched))). set (snd x) \<subseteq> A"
proof (induction cs arbitrary: current sched)
  case (Cons c cs)
  have "\<forall>x \<in> set (simple_daily_distribution (ci_pois c) (day_of days c)). set (snd x) \<subseteq> A"
    using Cons.prems(1) simple_days_subset by fastforce
  note p = put_days_subset [OF this Cons.prems(2), of current "day_of days c"]
  have "fold (add_city_days days) (c # cs) (current, sched) = fold (add_city_days days) cs (current + day_of days c,
    put_days (simple_daily_distribution (ci_pois c) (day_of days c)) current (day_of days c) sched)" by (simp add: add_city_days_def)
  then show ?case using Cons.IH [OF _ p] Cons.prems(1) by simp
qed simp

lemma inferred_name_not_none: "infer_city_name pois \<noteq> VNone"
proof (cases "first_truthy ''city'' pois")
  case (Some v)
  have "\<forall>v \<in> set (List.map_filter (\<lambda>p. case map_of p ''city'' of Some v \<Rightarrow> if truthy v then Some v else None | None \<Rightarrow> None) pois). truthy v"
    by (induction pois) (auto simp: List.map_filter_simps split: option.splits)
  moreover have "v \<in> set (List.map_filter (\<lambda>p. case map_of p ''city'' of Some v \<Rightarrow> if truthy v then Some v else None | None \<Rightarrow> None) pois)"
    using Some by (simp add: first_truthy_def split: list.splits)
  ultimately have "truthy v" by blast
  then show ?thesis using Some by (auto simp: infer_city_name_def)
qed (simp add: infer_city_name_def)

lemma itinerary_of_single_city:
  assumes "optimize_single_city_simple pois days = Inr it"
  shows "it_schedule it = simple_daily_distribution pois days \<and> (\<forall>c \<in> set (it_cities it). ci_name c \<noteq> VNone)"
proof -
  from assms obtain c where "city_of_all pois = Inr c" "it_schedule it = simple_daily_distribution pois days" "it_cities it = [c]"
    by (auto simp: optimize_single_city_simple_def rbind_eq_Inr_iff)
  moreover from this(1) have "ci_name c = infer_city_name pois"
    by (auto simp: city_of_all_def rbind_eq_Inr_iff split: prod.splits)
  ultimately show ?thesis using inferred_name_not_none by simp
qed

lemma hybrid_itinerary:
  assumes "\<forall>c \<in> set cs. set (ci_pois c) \<subseteq> A \<and> ci_name c \<noteq> VNone" "it = optimize_intercity_hybrid_simple geodesic cs days start_city"
  shows "(\<forall>x \<in> set (it_schedule it). set (snd x) \<subseteq> A) \<and> (\<forall>c \<in> set (it_cities it). ci_name c \<noteq> VNone)"
proof -
  let ?seq = "find_optimal_city_sequence geodesic cs start_city"
  have seq: "\<forall>c \<in> set ?seq. set (ci_pois c) \<subseteq> A" "\<forall>c \<in> set ?seq. ci_name c \<noteq> VNone"
    using assms(1) sequence_subset [of geodesic cs start_city] by blast+
  have it: "it_schedule it = snd (fold (add_city_days (distribute_days_among_cities ?seq days)) ?seq (1, []))" "it_cities it = ?seq"
    by (simp_all add: assms(2) optimize_intercity_hybrid_simple_def Let_def)
  show ?thesis unfolding it using trip_days_subset [OF seq(1), of "[]"] seq(2) by simp
qed

lemma itinerary_from_request:
  assumes "optimize_multi_city_simple geodesic h3 dbscan pois days start_city [] = Inr (it, cache)" "labels_all dbscan"
    and "\<forall>p \<in> set pois. \<exists>n. map_of p ''name'' = Some (VStr n)"
  shows "(\<forall>x \<in> set (it_schedule it). set (snd x) \<subseteq> set pois) \<and> (\<forall>c \<in> set (it_cities it). ci_name c \<noteq> VNone)"
proof -
  from assms(1) obtain clusters cache1 where c: "cluster_pois_advanced default_clustering_config geodesic h3 dbscan pois [] = Inr (clusters, cache1)"
    by (auto simp: optimize_multi_city_simple_def rbind_eq_Inr_iff)
  let ?cs = "convert_clusters_to_cities clusters"
  have r: "optimize_multi_city_simple geodesic h3 dbscan pois days start_city [] =
    (if simple_strategy geodesic ?cs = SINGLE_CITY_ORTOOLS
     then rbind (optimize_single_city_simple pois days) (\<lambda>it. Inr (it, cache1))
     else Inr (optimize_intercity_hybrid_simple geodesic ?cs days start_city, cache1))"
    by (simp only: optimize_multi_city_simple_def c rbind_Inr prod.case Let_def)
  show ?thesis
  proof (cases "simple_strategy geodesic ?cs = SINGLE_CITY_ORTOOLS")
    case True
    with assms(1) r have "optimize_single_city_simple pois days = Inr it" by (simp add: rbind_eq_Inr_iff)
    from itinerary_of_single_city [OF this] show ?thesis using simple_days_subset by fastforce
  next
    case False
    with assms(1) r have it: "it = optimize_intercity_hybrid_simple geodesic ?cs days start_city" by simp
    have pois: "set (cc_pois x) \<subseteq> set pois" if "x \<in> set clusters" for x
    proof -
      have "set_mset (mset (concat (map cc_pois clusters))) \<subseteq> set_mset (mset pois)"
        using detected_part [OF c assms(2)] by (rule set_mset_mono)
      then show ?thesis using that by auto
    qed
    have "clusters \<noteq> []" using False by (auto simp: simple_strategy_def convert_clusters_to_cities_def)
    then have "pois \<noteq> []" using c by (auto simp: cluster_pois_advanced_def)
    then have cl: "clusters_of default_clustering_config geodesic h3 dbscan pois = Inr clusters"
      using c by (auto simp: cluster_pois_advanced_def rbind_eq_Inr_iff Let_def)
    have "set (ci_pois y) \<subseteq> set pois \<and> ci_name y \<noteq> VNone" if y: "y \<in> set ?cs" for y
    proof -
      obtain x where x: "x \<in> set clusters" "ci_name y = cc_name x" "ci_pois y = cc_pois x"
        using y by (auto simp: convert_clusters_to_cities_def)
      have "\<forall>p \<in> set (cc_pois x). \<exists>n. map_of p ''name'' = Some (VStr n)" using pois [OF x(1)] assms(3) by blast
      from cluster_name_not_none [OF clusters_named [OF cl x(1)] this] x pois show ?thesis by simp
    qed
    then show ?thesis using hybrid_itinerary [OF _ it] by blast
  qed
qed

lemma all_one: "\<forall>c \<in> set cs. f c = (0::nat) \<Longrightarrow> \<forall>k n. map_of d k = Some n \<longrightarrow> n = 1 \<Longrightarrow>
  \<forall>k n. map_of (fold (\<lambda>c. dset (ci_name c) (max 1 (int (f c)))) cs d) k = Some n \<longrightarrow> n = 1"
proof (induction cs arbitrary: d)
  case (Cons c cs)
  have "\<forall>k n. map_of (dset (ci_name c) (max 1 (int (f c))) d) k = Some n \<longrightarrow> n = 1" using Cons.prems by simp
  from Cons.IH [OF _ this] Cons.prems(1) show ?case by simp
qed simp

lemma poi_without_city: "map_of place ''city'' = None \<Longrightarrow> dget (poi_of_place place) ''city'' VNone = VNone"
  by (simp add: poi_of_place_def set_if_given_def dget_def Let_def split: option.splits)

lemma poi_name: "map_of (poi_of_place place) ''name'' = Some (dget place ''name'' VNone)"
  by (simp add: poi_of_place_def set_if_given_def Let_def split: option.splits)

lemma no_days_no_stays:
  assumes "\<forall>c \<in> set (it_cities it). days_in_city it c = 0"
  shows "stays_for geodesic wanted it = Inr ([], 0)"
proof -
  have "\<forall>k n. map_of (stay_days it) k = Some n \<longrightarrow> n = 1"
    unfolding stay_days_def by (rule all_one) (use assms in auto)
  then have "stop_days (stay_days it) s = 1" for s by (simp add: stop_days_def split: option.splits)
  then have "plan_city geodesic (stay_days it) (k, c) (1, []) = Inr (1, [])" for k c
  proof -
    have "(case map_of (stay_days it) k of Some d \<Rightarrow> d | None \<Rightarrow> 1) = 1"
      using \<open>stop_days (stay_days it) (k, c) = 1\<close> unfolding stop_days_def fst_conv .
    then show ?thesis by (simp only: plan_city_def prod.case Let_def order.refl if_True)
  qed
  then have "plan_city geodesic (stay_days it) s (1, []) = Inr (1, [])" for s by (cases s) simp
  then have "rfold (plan_city geodesic (stay_days it)) cs (1, []) = Inr (1, [])" for cs by (induction cs) simp_all
  then show ?thesis by (simp add: stays_for_def plan_multi_city_accommodations_def estimate_accommodation_costs_def)
qed

lemma no_days_for_places:
  assumes "optimize_multi_city_simple geodesic h3 dbscan (map poi_of_place places) days start_city [] = Inr (it, cache)" "labels_all dbscan"
    and "\<forall>p \<in> set places. map_of p ''city'' = None \<and> (\<exists>n. map_of p ''name'' = Some (VStr n))"
  shows "\<forall>c \<in> set (it_cities it). days_in_city it c = 0"
proof
  fix c assume c: "c \<in> set (it_cities it)"
  have "\<forall>p \<in> set (map poi_of_place places). \<exists>n. map_of p ''name'' = Some (VStr n)"
    using assms(3) by (auto simp: poi_name dget_def)
  note f = itinerary_from_request [OF assms(1,2) this]
  have "dget p ''city'' VNone \<noteq> ci_name c" if "(d, ps) \<in> set (it_schedule it)" "p \<in> set ps" for d ps p
  proof -
    from f that have "p \<in> poi_of_place ` set places" by fastforce
    then have "dget p ''city'' VNone = VNone" using assms(3) poi_without_city by blast
    then show ?thesis using f c by metis
  qed
  then show "days_in_city it c = 0" by (auto simp: days_in_city_def filter_empty_conv)
qed

lemma endpoint_answer:
  assumes "optimize_multi_city_simple geodesic h3 dbscan (map poi_of_place places) days start_city [] = Inr (it, cache)" "labels_all dbscan"
    and "\<forall>p \<in> set places. map_of p ''city'' = None \<and> (\<exists>n. map_of p ''name'' = Some (VStr n))"
  shows "optimize_multi_city_endpoint geodesic h3 dbscan places days start_city wanted = Inr (multi_city_answer (length places) it ([], 0))"
  using assms(1) no_days_no_stays [OF no_days_for_places [OF assms]] by (simp add: optimize_multi_city_endpoint_def http_500_def)

subsection \<open>Properties\<close>

text \<open>
  a \<open>Place\<close> has no city, so the endpoint never counts a day for any city: it reports no
  assigned days, plans no stay and estimates no cost, whatever the trip and even when stays are asked for.
\<close>

theorem endpoint_never_plans_stays:
  assumes "optimize_multi_city_endpoint geodesic h3 dbscan places days start_city wanted = Inr r" "labels_all dbscan"
    and "\<forall>p \<in> set places. map_of p ''city'' = None \<and> (\<exists>n. map_of p ''name'' = Some (VStr n))"
  shows "re_stays r = [] \<and> re_stay_cost r = 0 \<and> (\<forall>c \<in> set (re_cities r). in_days c = 0)"
proof -
  from assms(1) obtain it cache where i: "optimize_multi_city_simple geodesic h3 dbscan (map poi_of_place places) days start_city [] = Inr (it, cache)"
    by (auto simp: optimize_multi_city_endpoint_def http_500_def rbind_eq_Inr_iff Let_def split: sum.splits)
  from endpoint_answer [OF i assms(2,3)] assms(1) have "r = multi_city_answer (length places) it ([], 0)" by simp
  then show ?thesis using no_days_for_places [OF i assms(2,3)] by (simp add: multi_city_answer_def city_info_of_def)
qed

theorem endpoint_never_plans_stays_witness:
  "\<exists>r. optimize_multi_city_endpoint (\<lambda>p q. 0) (\<lambda>q. Inr ''cell'') (\<lambda>eps m cs. Inr (replicate (length cs) 0))
       [[(''name'', VStr ''Louvre''), (''lat'', VInt 0), (''lon'', VInt 0)]] 3 None True = Inr r \<and> re_stays r = []"
proof -
  let ?db = "\<lambda>(eps :: real) (m :: int) (cs :: coord list). Inr (replicate (length cs) 0) :: int list res"
  let ?ps = "[[(''name'', VStr ''Louvre''), (''lat'', VInt 0), (''lon'', VInt 0)]]"
  obtain cs cache1 where c: "cluster_pois_advanced default_clustering_config (\<lambda>p q. 0) (\<lambda>q. Inr ''cell'') ?db (map poi_of_place ?ps) [] = Inr (cs, cache1)"
    by (simp add: cluster_pois_advanced_def clustering_key_def one_place_simps poi_of_place_def set_if_given_def landmark_keywords_def words_def dget_def)
  have "\<exists>it. optimize_single_city_simple (map poi_of_place ?ps) 3 = Inr it"
    by (simp add: optimize_single_city_simple_def city_of_all_def mean_coord_def pnum_def dindex_def poi_of_place_def set_if_given_def)
  then obtain it1 where "optimize_single_city_simple (map poi_of_place ?ps) 3 = Inr it1" by blast
  then have "\<exists>it cache. optimize_multi_city_simple (\<lambda>p q. 0) (\<lambda>q. Inr ''cell'') ?db (map poi_of_place ?ps) 3 None [] = Inr (it, cache)"
    by (simp only: optimize_multi_city_simple_def c rbind_Inr prod.case Let_def) simp
  then obtain it cache where i: "optimize_multi_city_simple (\<lambda>p q. 0) (\<lambda>q. Inr ''cell'') ?db (map poi_of_place ?ps) 3 None [] = Inr (it, cache)" by blast
  have l: "labels_all ?db" by (simp add: labels_all_def)
  have p: "\<forall>p \<in> set ?ps. map_of p ''city'' = None \<and> (\<exists>n. map_of p ''name'' = Some (VStr n))" by simp
  note r = endpoint_answer [OF i l p, of True]
  from endpoint_never_plans_stays [OF r l p] r show ?thesis by blast
qed

end
