(* ===== verification/FormatConverter.thy ===== *)
theory FormatConverter
  imports CityClustering
begin

section \<open>Conversion between the formats of the API and of OR-Tools\<close>

text \<open>
  src/utils/ortools\_format\_converter.py: a request becomes a request of the OR-Tools service, its result
  becomes the days of the API.  What cannot be converted is left out with a warning.  The texts of
  exceptions and of values in warnings, the parsing and printing of ISO dates, the day of the call and its
  timestamp are parameters; of a date and time only the day matters.
\<close>

subsection \<open>Results, statistics and values\<close>

record conversion_result =
  cv_success :: bool
  cv_data :: pydict
  cv_warnings :: "string list"
  cv_metadata :: pydict

record conversion_stats =
  st_to_ortools :: nat
  st_to_legacy :: nat
  st_warnings :: nat

definition new_conversion_stats :: conversion_stats where
  "new_conversion_stats = \<lparr>st_to_ortools = 0, st_to_legacy = 0, st_warnings = 0\<rparr>"

record texts =
  tx_error :: "py_error \<Rightarrow> string"
  tx_value :: "pyval \<Rightarrow> string"
  tx_now :: string
  tx_today :: int
  tx_parse_iso :: "string \<Rightarrow> int res"
  tx_show_date :: "int \<Rightarrow> string"

text \<open>\<open>k in v\<close> for a string \<open>k\<close>, and \<open>v[i]\<close> for an index of the range.\<close>

fun vin :: "string \<Rightarrow> pyval \<Rightarrow> bool res" where
  "vin k (VDict d) = Inr (has_key d k)"
| "vin k (VList xs) = Inr (VStr k \<in> set xs)"
| "vin k (VStr s) = Inr (contains k s)"
| "vin k _ = Inl TypeError"

fun vnth :: "pyval \<Rightarrow> nat \<Rightarrow> pyval res" where
  "vnth (VList xs) i = (if i < length xs then Inr (xs ! i) else Inl IndexError)"
| "vnth (VStr s) i = (if i < length s then Inr (VStr [s ! i]) else Inl IndexError)"
| "vnth (VDict d) i = Inl KeyError"
| "vnth _ i = Inl TypeError"

definition replace_char :: "char \<Rightarrow> string \<Rightarrow> string \<Rightarrow> string" where
  "replace_char c r s = concat (map (\<lambda>x. if x = c then r else [x]) s)"

definition mapped :: "(string \<times> string) list \<Rightarrow> string \<Rightarrow> string \<Rightarrow> string" where
  "mapped m k dflt = (case map_of m k of Some v \<Rightarrow> v | None \<Rightarrow> dflt)"

definition strs :: "string list \<Rightarrow> pyval" where
  "strs xs = VList (map VStr xs)"

subsection \<open>A place\<close>

definition location_field :: "string \<Rightarrow> real \<Rightarrow> pyval \<Rightarrow> pyval \<Rightarrow> real res" where
  "location_field k dflt direct place =
     (if direct \<noteq> VNone then py_float direct
      else
        rbind (vget place ''geometry'' (VDict [])) (\<lambda>g. rbind (vget g ''location'' (VDict [])) (\<lambda>loc.
        rbind (vin k loc) (\<lambda>there. if there then rbind (vindex loc k) py_float else Inr dflt))))"

definition extract_latitude :: "pyval \<Rightarrow> real res" where
  "extract_latitude place =
     rbind (vget place ''latitude'' VNone) (\<lambda>b. rbind (vget place ''lat'' b) (\<lambda>a.
     location_field ''lat'' (- 33.4372) a place))"

definition extract_longitude :: "pyval \<Rightarrow> real res" where
  "extract_longitude place =
     rbind (vget place ''longitude'' VNone) (\<lambda>c. rbind (vget place ''lng'' c) (\<lambda>b. rbind (vget place ''lon'' b) (\<lambda>a.
     location_field ''lng'' (- 70.6506) a place)))"

definition place_types :: "(string \<times> string) list" where
  "place_types =
     [(''tourist_attraction'', ''tourist_attraction''), (''restaurant'', ''restaurant''), (''museum'', ''museum''), (''park'', ''park''),
      (''shopping_mall'', ''shopping''), (''hotel'', ''lodging''), (''cafe'', ''restaurant''), (''bar'', ''restaurant''),
      (''church'', ''place_of_worship''), (''beach'', ''natural_feature''), (''viewpoint'', ''tourist_attraction''),
      (''market'', ''shopping'')]"

definition normalize_place_type :: "pyval \<Rightarrow> string res" where
  "normalize_place_type t = rbind (vlower t) (\<lambda>s. Inr (mapped place_types s ''tourist_attraction''))"

definition default_durations :: "(string \<times> int) list" where
  "default_durations =
     [(''restaurant'', 90), (''museum'', 120), (''tourist_attraction'', 60), (''park'', 90), (''shopping'', 120), (''hotel'', 0)]"

definition default_duration :: "pyval \<Rightarrow> int res" where
  "default_duration place =
     rbind (vget place ''type'' (VStr ''tourist_attraction'')) (\<lambda>t.
     if \<not> hashable t then Inl TypeError
     else Inr (case t of VStr s \<Rightarrow> (case map_of default_durations s of Some n \<Rightarrow> n | None \<Rightarrow> 60) | _ \<Rightarrow> 60))"

definition first_word :: "string \<Rightarrow> pyval res" where
  "first_word s = (case words s of [] \<Rightarrow> Inl IndexError | w # ws \<Rightarrow> Inr (VStr w))"

definition extract_duration :: "pyval \<Rightarrow> int res" where
  "extract_duration place =
     rbind (vget place ''visit_duration'' VNone) (\<lambda>b. rbind (vget place ''duration'' b) (\<lambda>d.
     case d of
       VNone \<Rightarrow> default_duration place
     | VStr s \<Rightarrow>
         (if contains ''hour'' (lower s) then rbind (first_word (lower s)) (\<lambda>w. rbind (py_float w) (\<lambda>h. Inr (py_trunc (h * 60))))
          else if contains ''min'' (lower s) then rbind (first_word (lower s)) py_int
          else default_duration place)
     | _ \<Rightarrow> py_int d))"

definition weekday_text :: "string list" where
  "weekday_text =
     map (\<lambda>(day, a, b). day @ '': '' @ a @ '' AM '' @ utf8 [226, 128, 147] @ '' '' @ b @ '' PM'')
       [(''Monday'', ''9:00'', ''6:00''), (''Tuesday'', ''9:00'', ''6:00''), (''Wednesday'', ''9:00'', ''6:00''),
        (''Thursday'', ''9:00'', ''6:00''), (''Friday'', ''9:00'', ''6:00''), (''Saturday'', ''9:00'', ''6:00''),
        (''Sunday'', ''10:00'', ''5:00'')]"

definition extract_opening_hours :: "pyval \<Rightarrow> pyval res" where
  "extract_opening_hours place =
     rbind (vget place ''opening_hours'' (VDict [])) (\<lambda>h.
     if truthy h
     then
       rbind (vget h ''open_now'' (VBool True)) (\<lambda>o1. rbind (vget h ''periods'' (VList [])) (\<lambda>p.
       rbind (vget h ''weekday_text'' (VList [])) (\<lambda>w.
       Inr (VDict [(''open_now'', o1), (''periods'', p), (''weekday_text'', w)]))))
     else Inr (VDict [(''open_now'', VBool True), (''periods'', VList []), (''weekday_text'', strs weekday_text)]))"

definition in_chile_box :: "real \<Rightarrow> real \<Rightarrow> bool" where
  "in_chile_box lat lon \<longleftrightarrow> - 56 \<le> lat \<and> lat \<le> - 17 \<and> - 80 \<le> lon \<and> lon \<le> - 66"

text \<open>The required fields of a dictionary and the box of its coordinates.\<close>

definition validate_fields :: "string list \<Rightarrow> pydict \<Rightarrow> bool res" where
  "validate_fields required d =
     (if \<exists>f \<in> set required. dget d f VNone = VNone then Inr False
      else rbind (pnum d ''lat'') (\<lambda>lat. rbind (pnum d ''lon'') (\<lambda>lon. Inr (in_chile_box lat lon))))"

definition validate_ortools_place :: "pydict \<Rightarrow> bool res" where
  "validate_ortools_place = validate_fields [''name'', ''lat'', ''lon'', ''place_type'']"

definition keys_value :: "pyval \<Rightarrow> pyval" where
  "keys_value v = (case v of VDict d \<Rightarrow> strs (map fst d) | _ \<Rightarrow> VList [])"

definition convert_place :: "nat \<Rightarrow> pyval \<Rightarrow> pydict res" where
  "convert_place i place =
     rbind (vget place ''name'' (VStr (''Place_'' @ show_nat (i + 1)))) (\<lambda>n.
     rbind (extract_latitude place) (\<lambda>lat. rbind (extract_longitude place) (\<lambda>lon.
     rbind (vget place ''type'' (VStr ''tourist_attraction'')) (\<lambda>t. rbind (normalize_place_type t) (\<lambda>ty.
     rbind (vget place ''user_rating'' (VFloat 4)) (\<lambda>r0. rbind (vget place ''rating'' r0) (\<lambda>rating.
     rbind (extract_duration place) (\<lambda>minutes.
     rbind (vget place ''vicinity'' (VStr [])) (\<lambda>a0. rbind (vget place ''address'' a0) (\<lambda>address.
     rbind (vget place ''price_level'' (VInt 2)) (\<lambda>price. rbind (extract_opening_hours place) (\<lambda>hours.
     rbind (vget place ''google_place_id'' (VStr [])) (\<lambda>g. rbind (vget place ''place_id'' g) (\<lambda>pid.
     Inr [(''name'', n), (''lat'', VFloat lat), (''lon'', VFloat lon), (''place_type'', VStr ty), (''rating'', rating),
          (''visit_duration_minutes'', VInt minutes), (''address'', address), (''price_level'', price), (''opening_hours'', hours),
          (''metadata'', VDict [(''original_index'', VInt (int i)), (''legacy_fields'', keys_value place), (''place_id'', pid)])]))))))))))))))"

text \<open>A place gives a converted place or a warning.\<close>

definition place_or_warning :: "texts \<Rightarrow> nat \<times> pyval \<Rightarrow> string + pydict" where
  "place_or_warning tx = (\<lambda>(i, place).
     case rbind (convert_place i place) (\<lambda>p. rbind (validate_ortools_place p) (\<lambda>ok. Inr (p, ok))) of
       Inl e \<Rightarrow> Inl (''place_'' @ show_nat i @ ''_conversion_error: '' @ tx_error tx e)
     | Inr (p, ok) \<Rightarrow> if ok then Inr p else Inl (''place_'' @ show_nat i @ ''_validation_failed''))"

definition lefts :: "('a + 'b) list \<Rightarrow> 'a list" where
  "lefts xs = List.map_filter (\<lambda>x. case x of Inl a \<Rightarrow> Some a | Inr b \<Rightarrow> None) xs"

definition rights :: "('a + 'b) list \<Rightarrow> 'b list" where
  "rights xs = List.map_filter (\<lambda>x. case x of Inl a \<Rightarrow> None | Inr b \<Rightarrow> Some b) xs"

definition convert_places_to_ortools :: "texts \<Rightarrow> pyval \<Rightarrow> (pydict list \<times> string list) res" where
  "convert_places_to_ortools tx places =
     rbind (viter places) (\<lambda>ps. let rs = map (place_or_warning tx) (enumerate 0 ps) in Inr (rights rs, lefts rs))"

subsection \<open>Dates, preferences and accommodations\<close>

datatype date_arg = DateText string | DateTime int | OtherDate

text \<open>An argument and whether it was defaulted; \<open>fallback\<close> is its default.\<close>

definition date_of :: "texts \<Rightarrow> int \<Rightarrow> date_arg \<Rightarrow> (int \<times> bool) res" where
  "date_of tx fallback a =
     (case a of
        DateText s \<Rightarrow> rbind (tx_parse_iso tx (replace_char (CHR ''Z'') ''+00:00'' s)) (\<lambda>d. Inr (d, False))
      | DateTime d \<Rightarrow> Inr (d, False)
      | OtherDate \<Rightarrow> Inr (fallback, True))"

definition convert_dates_to_ortools :: "texts \<Rightarrow> date_arg \<Rightarrow> date_arg \<Rightarrow> (string \<times> string) \<times> string list" where
  "convert_dates_to_ortools tx start end1 =
     (case date_of tx (tx_today tx) start of
        Inl e \<Rightarrow> ((tx_show_date tx (tx_today tx), tx_show_date tx (tx_today tx + 1)), [''date_conversion_error: '' @ tx_error tx e])
      | Inr (d1, now) \<Rightarrow>
          let w1 = (if now then [''start_date_defaulted_to_now''] else [])
          in case date_of tx (d1 + 1) end1 of
               Inl e \<Rightarrow> ((tx_show_date tx (tx_today tx), tx_show_date tx (tx_today tx + 1)), w1 @ [''date_conversion_error: '' @ tx_error tx e])
             | Inr (d2, next) \<Rightarrow>
                 ((tx_show_date tx d1, tx_show_date tx d2), w1 @ (if next then [''end_date_defaulted_to_next_day''] else [])))"

definition convert_preferences_to_ortools :: "pydict \<Rightarrow> pydict" where
  "convert_preferences_to_ortools r =
     [(''transport_mode'', dget r ''transport_mode'' (VStr ''driving'')), (''daily_start_hour'', dget r ''daily_start_hour'' (VInt 9)),
      (''daily_end_hour'', dget r ''daily_end_hour'' (VInt 18)), (''optimization_target'', VStr ''minimize_travel_time''),
      (''max_walking_distance_km'', dget r ''max_walking_distance'' (VFloat 2)), (''enable_time_windows'', VBool True),
      (''enable_vehicle_routing'', dget r ''multi_day'' (VBool True)),
      (''constraints'', VDict
         [(''max_daily_activities'', dget r ''max_daily_activities'' (VInt 6)),
          (''min_daily_activities'', dget r ''min_daily_activities'' (VInt 2)),
          (''lunch_time_window'', VDict
             [(''start'', dget r ''lunch_start'' (VStr ''12:00'')), (''end'', dget r ''lunch_end'' (VStr ''15:00''))])])] @
     (case map_of r ''budget'' of
        Some b \<Rightarrow> [(''budget_constraints'', VDict [(''max_daily_budget'', b), (''currency'', dget r ''currency'' (VStr ''CLP''))])]
      | None \<Rightarrow> []) @
     (case map_of r ''accessibility'' of Some a \<Rightarrow> [(''accessibility_requirements'', a)] | None \<Rightarrow> [])"

definition accommodation_types :: "string list" where
  "accommodation_types = [''hotel'', ''hostel'', ''motel'', ''guest_house'', ''apartment'', ''lodge'', ''inn'', ''resort'']"

definition normalize_accommodation_type :: "pyval \<Rightarrow> string res" where
  "normalize_accommodation_type t =
     rbind (vlower t) (\<lambda>s.
     let n = map (\<lambda>c. if c = CHR '' '' \<or> c = CHR ''-'' then CHR ''_'' else c) s
     in Inr (if n \<in> set accommodation_types then n else ''hotel''))"

definition validate_ortools_accommodation :: "pydict \<Rightarrow> bool res" where
  "validate_ortools_accommodation = validate_fields [''name'', ''lat'', ''lon'', ''type'', ''city'']"

definition convert_accommodation :: "nat \<Rightarrow> pyval \<Rightarrow> pydict res" where
  "convert_accommodation i a =
     rbind (vget a ''name'' (VStr (''Accommodation_'' @ show_nat (i + 1)))) (\<lambda>n.
     rbind (extract_latitude a) (\<lambda>lat. rbind (extract_longitude a) (\<lambda>lon.
     rbind (vget a ''type'' (VStr ''hotel'')) (\<lambda>t. rbind (normalize_accommodation_type t) (\<lambda>ty.
     rbind (vget a ''rating'' (VFloat 3.5)) (\<lambda>rating. rbind (vget a ''address'' (VStr [])) (\<lambda>address.
     rbind (vget a ''city'' (VStr [])) (\<lambda>c. rbind (vlower c) (\<lambda>city.
     rbind (vget a ''price_level'' (VInt 2)) (\<lambda>price. rbind (vget a ''amenities'' (VList [])) (\<lambda>amenities.
     rbind (vget a ''check_in_time'' (VStr ''15:00'')) (\<lambda>t1. rbind (vget a ''check_out_time'' (VStr ''11:00'')) (\<lambda>t2.
     Inr [(''name'', n), (''lat'', VFloat lat), (''lon'', VFloat lon), (''type'', VStr ty), (''rating'', rating), (''address'', address),
          (''city'', VStr city), (''price_level'', price), (''amenities'', amenities), (''availability'', VBool True),
          (''check_in_time'', t1), (''check_out_time'', t2)])))))))))))))"

text \<open>The handler reads the name again, so what is not a dictionary makes the whole conversion raise.\<close>

definition accommodation_or_warning :: "texts \<Rightarrow> nat \<times> pyval \<Rightarrow> (string + pydict) res" where
  "accommodation_or_warning tx = (\<lambda>(i, a).
     case rbind (convert_accommodation i a) (\<lambda>p. rbind (validate_ortools_accommodation p) (\<lambda>ok. Inr (p, ok))) of
       Inl e \<Rightarrow>
         rbind (vget a ''name'' (VStr (''accommodation_'' @ show_nat (i + 1)))) (\<lambda>n.
         Inr (Inl (''accommodation_conversion_error: '' @ tx_error tx e @ '' for '' @ tx_value tx n)))
     | Inr (p, ok) \<Rightarrow>
         if ok then Inr (Inr p)
         else
           rbind (vget a ''name'' (VStr (''Accommodation_'' @ show_nat (i + 1)))) (\<lambda>n.
           Inr (Inl (''invalid_accommodation_skipped: '' @ tx_value tx n))))"

definition convert_accommodations_to_ortools :: "texts \<Rightarrow> pyval \<Rightarrow> (pydict list \<times> string list) res" where
  "convert_accommodations_to_ortools tx accommodations =
     rbind (viter accommodations) (\<lambda>as1.
     rbind (rmap_list (accommodation_or_warning tx) (enumerate 0 as1)) (\<lambda>rs. Inr (rights rs, lefts rs)))"

subsection \<open>From the API to OR-Tools\<close>

text \<open>The values of the dates are apart, since a date is not a JSON value; their keys may be among the fields.\<close>

record legacy_request =
  lq_fields :: pydict
  lq_start :: date_arg
  lq_end :: date_arg

definition converted :: "pydict \<Rightarrow> string list \<Rightarrow> pydict \<Rightarrow> conversion_result" where
  "converted d w m = \<lparr>cv_success = True, cv_data = d, cv_warnings = w, cv_metadata = m\<rparr>"

definition conversion_failed :: "texts \<Rightarrow> py_error \<Rightarrow> conversion_result" where
  "conversion_failed tx e =
     \<lparr>cv_success = False, cv_data = [], cv_warnings = [''conversion_error: '' @ tx_error tx e],
      cv_metadata = [(''error'', VStr (tx_error tx e))]\<rparr>"

definition ortools_request :: "texts \<Rightarrow> legacy_request \<Rightarrow> (pydict \<times> nat \<times> nat \<times> string list) res" where
  "ortools_request tx q =
     (let places = dget (lq_fields q) ''places'' (VList []); accommodations = por (dget (lq_fields q) ''accommodations'' VNone) (VList [])
      in rbind (convert_places_to_ortools tx places) (\<lambda>(ps, w1).
         rbind (convert_accommodations_to_ortools tx accommodations) (\<lambda>(hs, w2).
         case convert_dates_to_ortools tx (lq_start q) (lq_end q) of ((d1, d2), w3) \<Rightarrow>
         rbind (vlen places) (\<lambda>n.
         Inr ([(''places'', VList (map VDict ps)), (''accommodations'', VList (map VDict hs)), (''start_date'', VStr d1),
               (''end_date'', VStr d2), (''preferences'', VDict (convert_preferences_to_ortools (lq_fields q))),
               (''metadata'', VDict
                  [(''original_format'', VStr ''legacy''), (''conversion_version'', VStr ''1.0''),
                   (''places_converted'', VInt (int (length ps))), (''accommodations_converted'', VInt (int (length hs))),
                   (''original_places_count'', VInt (int n))])],
              length ps, length hs, w1 @ w2 @ w3)))))"

definition convert_legacy_to_ortools_format ::
  "texts \<Rightarrow> legacy_request \<Rightarrow> conversion_stats \<Rightarrow> conversion_result \<times> conversion_stats" where
  "convert_legacy_to_ortools_format tx q st =
     (case ortools_request tx q of
        Inl e \<Rightarrow> (conversion_failed tx e, st)
      | Inr (d, n, m, w) \<Rightarrow>
          (converted d w
             [(''conversion_type'', VStr ''legacy_to_ortools''), (''timestamp'', VStr (tx_now tx)),
              (''input_keys'', strs (map fst (lq_fields q))), (''output_keys'', strs (map fst d)),
              (''places_converted'', VInt (int n)), (''accommodations_converted'', VInt (int m))],
           st\<lparr>st_to_ortools := st_to_ortools st + 1, st_warnings := st_warnings st + length w\<rparr>))"

subsection \<open>From OR-Tools to the API\<close>

text \<open>The element of a route: what is not a number raises, a fraction in range does not index.\<close>

definition routed_poi :: "pyval \<Rightarrow> pyval \<Rightarrow> pyval list res" where
  "routed_poi pois i =
     rbind (need_num i) (\<lambda>x. if x < 0 then Inr []
       else
         rbind (vlen pois) (\<lambda>n.
         if \<not> x < real n then Inr []
         else
           (case i of
              VFloat f \<Rightarrow> Inl (case pois of VDict d \<Rightarrow> KeyError | _ \<Rightarrow> TypeError)
            | _ \<Rightarrow> rbind (vnth pois (nat \<lfloor>x\<rfloor>)) (\<lambda>p. Inr [p]))))"

definition legacy_route_place :: "nat \<times> pyval \<Rightarrow> pydict res" where
  "legacy_route_place = (\<lambda>(i, poi).
     rbind (vget poi ''name'' (VStr (''Place '' @ show_nat (i + 1)))) (\<lambda>n.
     rbind (vget poi ''latitude'' (VInt 0)) (\<lambda>b. rbind (vget poi ''lat'' b) (\<lambda>lat.
     rbind (vget poi ''longitude'' (VInt 0)) (\<lambda>d. rbind (vget poi ''lng'' d) (\<lambda>c. rbind (vget poi ''lon'' c) (\<lambda>lon.
     rbind (vget poi ''type'' (VStr ''tourist_attraction'')) (\<lambda>t0. rbind (vget poi ''place_type'' t0) (\<lambda>t.
     rbind (vget poi ''rating'' (VFloat 4)) (\<lambda>r. rbind (vget poi ''visit_duration_minutes'' (VInt 60)) (\<lambda>m.
     Inr [(''name'', n), (''lat'', lat), (''lon'', lon), (''type'', t), (''rating'', r), (''duration'', m),
          (''start_time'', VStr (pad2 (9 + i * 2) @ '':00'')), (''end_time'', VStr (pad2 (10 + i * 2) @ '':00'')),
          (''travel_time_to_next'', VInt 0), (''order'', VInt (int i + 1))])))))))))))"

definition convert_ortools_route_to_legacy :: "pydict \<Rightarrow> (pydict \<times> string list) res" where
  "convert_ortools_route_to_legacy r =
     (let route = dget r ''optimized_route'' (VList []); pois = dget r ''optimized_pois'' (VList [])
      in if \<not> truthy route \<or> \<not> truthy pois then Inr ([], [''ortools_route_data_incomplete''])
         else
           rbind (viter route) (\<lambda>is1. rbind (rmap_list (routed_poi pois) is1) (\<lambda>ordered.
           if concat ordered = [] then Inr ([], [''ortools_route_ordering_failed''])
           else
             rbind (rmap_list legacy_route_place (enumerate 0 (concat ordered))) (\<lambda>places.
             Inr ([(''day_1'', VDict
                [(''places'', VList (map VDict places)), (''total_places'', VInt (int (length places))),
                 (''total_distance_km'', dget r ''total_distance_km'' (VInt 0)),
                 (''total_time_minutes'', dget r ''total_time_minutes'' (VInt 0)),
                 (''optimization_algorithm'', dget r ''algorithm_used'' (VStr ''OR_TOOLS'')),
                 (''constraints_satisfied'', dget r ''constraints_satisfied'' (VBool True))])], [])))))"

definition legacy_place :: "pyval \<Rightarrow> pydict res" where
  "legacy_place p =
     rbind (vget p ''name'' (VStr ''Unknown Place'')) (\<lambda>n.
     rbind (vget p ''lat'' (VInt 0)) (\<lambda>b. rbind (vget p ''latitude'' b) (\<lambda>lat.
     rbind (vget p ''lng'' (VInt 0)) (\<lambda>d. rbind (vget p ''lon'' d) (\<lambda>c. rbind (vget p ''longitude'' c) (\<lambda>lon.
     rbind (vget p ''type'' (VStr ''tourist_attraction'')) (\<lambda>t0. rbind (vget p ''place_type'' t0) (\<lambda>t.
     rbind (vget p ''rating'' (VFloat 4)) (\<lambda>r. rbind (vget p ''visit_duration_minutes'' (VInt 60)) (\<lambda>m.
     rbind (vget p ''visit_start_time'' (VStr [])) (\<lambda>t1. rbind (vget p ''visit_end_time'' (VStr [])) (\<lambda>t2.
     rbind (vget p ''travel_time_to_next'' (VInt 0)) (\<lambda>tt. rbind (vget p ''distance_to_next_km'' (VInt 0)) (\<lambda>dd.
     Inr [(''name'', n), (''lat'', lat), (''lon'', lon), (''type'', t), (''rating'', r), (''duration'', m), (''start_time'', t1),
          (''end_time'', t2), (''travel_time_to_next'', tt), (''distance_to_next_km'', dd)]))))))))))))))"

text \<open>The default of the time is evaluated, and divided by 60, even when the time is given.\<close>

definition convert_day_to_legacy :: "pyval \<Rightarrow> string \<Rightarrow> pydict res" where
  "convert_day_to_legacy day key =
     rbind (vget day ''activities'' (VList [])) (\<lambda>a. rbind (vget day ''places'' a) (\<lambda>ps. rbind (viter ps) (\<lambda>xs.
     rbind (rmap_list legacy_place xs) (\<lambda>places.
     rbind (vget day ''distance_km'' (VInt 0)) (\<lambda>d0. rbind (vget day ''total_distance_km'' d0) (\<lambda>d.
     rbind (vget day ''travel_time_minutes'' (VInt 0)) (\<lambda>m. rbind (need_num m) (\<lambda>x.
     rbind (vget day ''total_time_hours'' (VFloat (x / 60))) (\<lambda>t.
     rbind (vget day ''start_time'' (VStr ''09:00'')) (\<lambda>t1. rbind (vget day ''end_time'' (VStr ''18:00'')) (\<lambda>t2.
     rbind (vget day ''summary'' (VStr (''Optimized itinerary for '' @ key))) (\<lambda>s. rbind (vget day ''notes'' (VList [])) (\<lambda>notes.
     Inr [(''places'', VList (map VDict places)), (''total_distance_km'', d), (''total_travel_time_hours'', t),
          (''route_optimization'', VStr ''ortools_tsp''), (''start_time'', t1), (''end_time'', t2), (''day_summary'', s),
          (''optimization_notes'', notes)])))))))))))))"

definition itinerary_data :: "pydict \<Rightarrow> pyval" where
  "itinerary_data r =
     por (dget r ''optimized_itinerary'' VNone) (por (dget r ''itinerary'' VNone) (por (dget r ''days'' VNone)
       (por (dget r ''solution'' VNone) (VList []))))"

definition day_entry :: "string \<times> pyval \<Rightarrow> (string \<times> pyval) res" where
  "day_entry = (\<lambda>(k, d). rbind (convert_day_to_legacy d k) (\<lambda>day. Inr (k, VDict day)))"

definition convert_itinerary_to_legacy_days :: "pydict \<Rightarrow> (pydict \<times> string list) res" where
  "convert_itinerary_to_legacy_days r =
     (if has_key r ''optimized_route'' \<and> has_key r ''optimized_pois'' then convert_ortools_route_to_legacy r
      else if \<not> truthy (itinerary_data r) then Inr ([], [''no_itinerary_data_found''])
      else
        (case itinerary_data r of
           VDict d \<Rightarrow> rbind (rmap_list day_entry d) (\<lambda>days. Inr (days, []))
         | VList ds \<Rightarrow>
             rbind (rmap_list day_entry (map (\<lambda>(i, d). (''day_'' @ show_nat (i + 1), d)) (enumerate 0 ds))) (\<lambda>days. Inr (days, []))
         | _ \<Rightarrow> Inr ([], [])))"

definition convert_metrics_to_legacy :: "pydict \<Rightarrow> pydict" where
  "convert_metrics_to_legacy r =
     [(''algorithm_used'', VStr ''ortools_professional''), (''total_distance_km'', dget r ''total_distance_km'' (VInt 0)),
      (''total_time_minutes'', dget r ''total_time_minutes'' (VInt 0)), (''places_optimized'', dget r ''places_count'' (VInt 0)),
      (''optimization_score'', dget r ''optimization_score'' (VInt 0)), (''execution_time_ms'', dget r ''execution_time_ms'' (VInt 0)),
      (''success_rate'', VFloat (if truthy (dget r ''success'' (VBool True)) then 1 else 0)),
      (''constraints_satisfied'', dget r ''constraints_satisfied'' (VBool True)),
      (''ortools_metadata'', VDict
         [(''solver_status'', dget r ''solver_status'' (VStr ''OPTIMAL'')), (''solution_quality'', dget r ''solution_quality'' (VStr ''HIGH'')),
          (''dropped_places'', dget r ''dropped_places'' (VInt 0))])]"

definition legacy_cluster :: "pyval \<Rightarrow> pyval res" where
  "legacy_cluster c =
     rbind (vget c ''id'' (VInt 0)) (\<lambda>i. rbind (vget c ''places'' (VList [])) (\<lambda>ps. rbind (vlen ps) (\<lambda>n.
     rbind (vget c ''center'' (VDict [])) (\<lambda>ce. rbind (vget ce ''lat'' (VInt 0)) (\<lambda>lat.
     rbind (vget ce ''lon'' (VInt 0)) (\<lambda>lon. rbind (vget c ''radius_km'' (VInt 0)) (\<lambda>r.
     Inr (VDict [(''cluster_id'', i), (''places_count'', VInt (int n)), (''center_lat'', lat), (''center_lon'', lon),
                 (''radius_km'', r), (''optimization_method'', VStr ''ortools_vrp'')]))))))))"

definition convert_clusters_to_legacy :: "pydict \<Rightarrow> (pyval list \<times> string list) res" where
  "convert_clusters_to_legacy r =
     (case map_of r ''clusters'' of
        Some cs \<Rightarrow> rbind (viter cs) (\<lambda>xs. rbind (rmap_list legacy_cluster xs) (\<lambda>ys. Inr (ys, [])))
      | None \<Rightarrow>
          Inr ([VDict [(''cluster_id'', VInt 1), (''places_count'', dget r ''places_count'' (VInt 0)), (''center_lat'', VInt 0),
                       (''center_lon'', VInt 0), (''radius_km'', VInt 0), (''optimization_method'', VStr ''ortools_single_cluster'')]],
               [''clusters_simulated_for_compatibility'']))"

definition recommendation_text :: "texts \<Rightarrow> pyval \<Rightarrow> pyval list" where
  "recommendation_text tx rec =
     (case rec of VStr s \<Rightarrow> [VStr s] | VDict d \<Rightarrow> [dget d ''text'' (VStr (tx_value tx rec))] | _ \<Rightarrow> [])"

definition convert_recommendations_to_legacy :: "texts \<Rightarrow> pydict \<Rightarrow> pyval list res" where
  "convert_recommendations_to_legacy tx r =
     rbind (viter (dget r ''recommendations'' (VList []))) (\<lambda>recs.
     rbind (need_num (dget r ''dropped_places'' (VInt 0))) (\<lambda>dropped. rbind (need_num (dget r ''optimization_score'' (VInt 0))) (\<lambda>score.
     Inr (concat (map (recommendation_text tx) recs) @
       (if 0 < dropped
        then [VStr (''OR-Tools optimized route by excluding '' @ tx_value tx (dget r ''dropped_places'' (VInt 0)) @
                '' places that didn'' @ utf8 [39] @ ''t fit constraints'')]
        else []) @
       (if 0.8 < score then [VStr ''Excellent route optimization achieved with OR-Tools algorithm''] else [])))))"

definition legacy_result :: "texts \<Rightarrow> pydict \<Rightarrow> (pydict \<times> nat \<times> string list) res" where
  "legacy_result tx r =
     rbind (convert_itinerary_to_legacy_days r) (\<lambda>(days, w1). rbind (convert_clusters_to_legacy r) (\<lambda>(cs, w2).
     rbind (convert_recommendations_to_legacy tx r) (\<lambda>recs.
     Inr ([(''days'', VDict days), (''optimization_metrics'', VDict (convert_metrics_to_legacy r)), (''clusters_info'', VList cs),
           (''additional_recommendations'', VList recs),
           (''_ortools_metadata'', VDict
              [(''algorithm_used'', VStr ''ortools_professional''), (''conversion_version'', VStr ''1.0''),
               (''original_result_keys'', strs (map fst r)), (''conversion_timestamp'', VStr (tx_now tx))])],
          length days, w1 @ w2))))"

definition convert_ortools_to_legacy_format :: "texts \<Rightarrow> pydict \<Rightarrow> conversion_stats \<Rightarrow> conversion_result \<times> conversion_stats" where
  "convert_ortools_to_legacy_format tx r st =
     (case legacy_result tx r of
        Inl e \<Rightarrow> (conversion_failed tx e, st)
      | Inr (d, n, w) \<Rightarrow>
          (converted d w
             [(''conversion_type'', VStr ''ortools_to_legacy''), (''timestamp'', VStr (tx_now tx)),
              (''input_keys'', strs (map fst r)), (''output_keys'', strs (map fst d)), (''days_converted'', VInt (int n))],
           st\<lparr>st_to_legacy := st_to_legacy st + 1, st_warnings := st_warnings st + length w\<rparr>))"

definition get_conversion_stats :: "conversion_stats \<Rightarrow> nat \<times> nat \<times> nat \<times> nat \<times> real \<times> real" where
  "get_conversion_stats st =
     (let n = st_to_ortools st + st_to_legacy st
      in (n, st_to_ortools st, st_to_legacy st, st_warnings st, real (st_warnings st) / real (max n 1), 1))"

subsection \<open>Lemmas\<close>

lemma sides_simps [simp]:
  "rights [] = []" "lefts [] = []" "rights (Inr b # xs) = b # rights xs" "rights (Inl a # xs) = rights xs"
  "lefts (Inl a # xs) = a # lefts xs" "lefts (Inr b # xs) = lefts xs"
  by (simp_all add: rights_def lefts_def List.map_filter_simps)

lemma length_sides: "length (rights xs) + length (lefts xs) = length xs"
proof (induction xs)
  case (Cons x xs)
  then show ?case by (cases x) simp_all
qed simp

lemma validate_fields_ok:
  assumes "validate_fields required d = Inr True"
  shows "(\<forall>f \<in> set required. dget d f VNone \<noteq> VNone) \<and> (\<exists>lat lon. pnum d ''lat'' = Inr lat \<and> pnum d ''lon'' = Inr lon \<and> in_chile_box lat lon)"
  using assms by (auto simp: validate_fields_def rbind_eq_Inr_iff split: if_splits)

lemma place_ok:
  "place_or_warning tx (i, p) = Inr q \<longleftrightarrow> convert_place i p = Inr q \<and> validate_ortools_place q = Inr True"
proof (cases "convert_place i p")
  case (Inr r)
  then show ?thesis by (cases "validate_ortools_place r") (auto simp: place_or_warning_def)
qed (simp add: place_or_warning_def)

lemma converted_rows:
  "\<exists>js. sorted_wrt (<) js \<and> set js \<subseteq> {n..<n + length ps} \<and>
     list_all2 (\<lambda>i q. convert_place i (ps ! (i - n)) = Inr q \<and> validate_ortools_place q = Inr True) js
       (rights (map (place_or_warning tx) (enumerate n ps)))"
proof (induction ps arbitrary: n)
  case (Cons p ps)
  from Cons.IH [of "Suc n"] obtain js where js: "sorted_wrt (<) js" "set js \<subseteq> {Suc n..<Suc n + length ps}"
    "list_all2 (\<lambda>i q. convert_place i (ps ! (i - Suc n)) = Inr q \<and> validate_ortools_place q = Inr True) js
      (rights (map (place_or_warning tx) (enumerate (Suc n) ps)))" by blast
  have l: "list_all2 (\<lambda>i q. convert_place i ((p # ps) ! (i - n)) = Inr q \<and> validate_ortools_place q = Inr True) js
      (rights (map (place_or_warning tx) (enumerate (Suc n) ps)))"
    using js(3)
  proof (rule list.rel_mono_strong)
    fix i q
    assume "i \<in> set js" and r: "convert_place i (ps ! (i - Suc n)) = Inr q \<and> validate_ortools_place q = Inr True"
    then have "i - n = Suc (i - Suc n)" using js(2) by force
    with r show "convert_place i ((p # ps) ! (i - n)) = Inr q \<and> validate_ortools_place q = Inr True" by simp
  qed
  show ?case
  proof (cases "place_or_warning tx (n, p)")
    case (Inl w)
    then show ?thesis using js l by (intro exI [of _ js]) auto
  next
    case (Inr q)
    then have "convert_place n p = Inr q \<and> validate_ortools_place q = Inr True" by (simp only: place_ok)
    then show ?thesis using js l Inr by (intro exI [of _ "n # js"]) auto
  qed
qed (intro exI [of _ "[]"], simp)

lemma normalized_type: "normalize_place_type t = Inr ty \<Longrightarrow> ty \<in> set (map snd place_types)"
proof -
  assume "normalize_place_type t = Inr ty"
  then obtain k where "ty = mapped place_types k ''tourist_attraction''" by (auto simp: normalize_place_type_def rbind_eq_Inr_iff)
  moreover have "''tourist_attraction'' \<in> set (map snd place_types)" by (simp add: place_types_def)
  moreover have "map_of place_types k = Some v \<Longrightarrow> v \<in> set (map snd place_types)" for v using map_of_SomeD by force
  ultimately show ?thesis by (cases "map_of place_types k") (simp_all only: mapped_def option.case)
qed

lemma converted_fields:
  assumes "convert_place i p = Inr q"
  shows "\<exists>lat lon ty. extract_latitude p = Inr lat \<and> pnum q ''lat'' = Inr lat \<and> extract_longitude p = Inr lon \<and> pnum q ''lon'' = Inr lon \<and>
    ty \<in> set (map snd place_types) \<and> dget q ''place_type'' VNone = VStr ty"
  using assms unfolding convert_place_def
  by (elim rbind_eq_InrE) (auto simp: pnum_def dindex_def simp del: set_map dest: normalized_type)

lemma request_places:
  assumes "ortools_request tx q = Inr (d, n, m, w)" "convert_places_to_ortools tx (dget (lq_fields q) ''places'' (VList [])) = Inr (qs, ws)"
  shows "dget d ''places'' VNone = VList (map VDict qs) \<and> n = length qs \<and> (\<exists>w'. w = ws @ w')"
proof -
  obtain d1 d2 w3 where t: "convert_dates_to_ortools tx (lq_start q) (lq_end q) = ((d1, d2), w3)"
    by (cases "convert_dates_to_ortools tx (lq_start q) (lq_end q)") auto
  show ?thesis using assms(1) unfolding ortools_request_def Let_def assms(2) t rbind_Inr prod.case
    by (elim rbind_eq_InrE) (auto simp: rbind_eq_Inr_iff)
qed

lemma convert_places_list:
  "convert_places_to_ortools tx (VList ps) =
     Inr (rights (map (place_or_warning tx) (enumerate 0 ps)), lefts (map (place_or_warning tx) (enumerate 0 ps)))"
  by (simp add: convert_places_to_ortools_def Let_def)

subsection \<open>Properties\<close>

text \<open>
  C30: the converted places are converted places of the request in their order, each with the coordinates
  found in it, inside the box of Chile, and a type OR-Tools knows; every other place has exactly one warning.
\<close>

theorem converted_places_account_for_request:
  assumes "convert_places_to_ortools tx (VList ps) = Inr (qs, ws)"
  shows "\<exists>js. sorted_wrt (<) js \<and> set js \<subseteq> {..<length ps} \<and>
    list_all2 (\<lambda>i q. convert_place i (ps ! i) = Inr q \<and>
      (\<exists>lat lon ty. extract_latitude (ps ! i) = Inr lat \<and> extract_longitude (ps ! i) = Inr lon \<and> in_chile_box lat lon \<and>
        pnum q ''lat'' = Inr lat \<and> pnum q ''lon'' = Inr lon \<and> dget q ''place_type'' VNone = VStr ty \<and> ty \<in> snd ` set place_types)) js qs \<and>
    length qs + length ws = length ps"
proof -
  let ?rs = "map (place_or_warning tx) (enumerate 0 ps)"
  have q: "qs = rights ?rs" "ws = lefts ?rs" using assms by (simp_all add: convert_places_list)
  obtain js where js: "sorted_wrt (<) js" "set js \<subseteq> {0..<0 + length ps}"
    "list_all2 (\<lambda>i q. convert_place i (ps ! (i - 0)) = Inr q \<and> validate_ortools_place q = Inr True) js (rights ?rs)"
    using converted_rows [of 0 ps tx] by blast
  have "list_all2 (\<lambda>i q. convert_place i (ps ! i) = Inr q \<and>
      (\<exists>lat lon ty. extract_latitude (ps ! i) = Inr lat \<and> extract_longitude (ps ! i) = Inr lon \<and> in_chile_box lat lon \<and>
        pnum q ''lat'' = Inr lat \<and> pnum q ''lon'' = Inr lon \<and> dget q ''place_type'' VNone = VStr ty \<and> ty \<in> snd ` set place_types)) js qs"
    unfolding q(1) using js(3)
  proof (rule list_all2_mono)
    fix i q assume a: "convert_place i (ps ! (i - 0)) = Inr q \<and> validate_ortools_place q = Inr True"
    then have c: "convert_place i (ps ! i) = Inr q" by simp
    from converted_fields [OF c] obtain lat lon ty where f: "extract_latitude (ps ! i) = Inr lat" "pnum q ''lat'' = Inr lat"
      "extract_longitude (ps ! i) = Inr lon" "pnum q ''lon'' = Inr lon" "ty \<in> set (map snd place_types)" "dget q ''place_type'' VNone = VStr ty" by blast
    from a have "in_chile_box lat lon" using validate_fields_ok [of _ q] f(2,4) unfolding validate_ortools_place_def by fastforce
    with c f show "convert_place i (ps ! i) = Inr q \<and>
      (\<exists>lat lon ty. extract_latitude (ps ! i) = Inr lat \<and> extract_longitude (ps ! i) = Inr lon \<and> in_chile_box lat lon \<and>
        pnum q ''lat'' = Inr lat \<and> pnum q ''lon'' = Inr lon \<and> dget q ''place_type'' VNone = VStr ty \<and> ty \<in> snd ` set place_types)"
      unfolding set_map by blast
  qed
  moreover have "length (rights ?rs) + length (lefts ?rs) = length ps" using length_sides [of ?rs] by simp
  ultimately show ?thesis using js(1,2) q by (intro exI [of _ js]) auto
qed

definition demo_texts :: texts where
  "demo_texts = \<lparr>tx_error = \<lambda>e. ''error'', tx_value = \<lambda>v. ''value'', tx_now = ''now'', tx_today = 0, tx_parse_iso = \<lambda>s. Inl ValueError,
     tx_show_date = \<lambda>d. ''date''\<rparr>"

theorem converted_places_account_for_request_witness:
  "\<exists>qs ws. convert_places_to_ortools demo_texts (VList [VDict [(''lat'', VInt (- 33)), (''lon'', VInt (- 70))], VNone]) = Inr (qs, ws) \<and>
     length qs + length ws = 2"
proof -
  obtain qs ws where r: "convert_places_to_ortools demo_texts (VList [VDict [(''lat'', VInt (- 33)), (''lon'', VInt (- 70))], VNone]) = Inr (qs, ws)"
    by (simp add: convert_places_list)
  from converted_places_account_for_request [OF r] r show ?thesis by auto
qed

text \<open>
  a place outside the box of Chile is never converted, so the OR-Tools request of a trip abroad has
  no places, although the conversion succeeds.
\<close>

theorem trip_abroad_loses_its_places:
  assumes "dget (lq_fields q) ''places'' (VList []) = VList ps"
    and "\<forall>p \<in> set ps. \<exists>lat lon. extract_latitude p = Inr lat \<and> extract_longitude p = Inr lon \<and> \<not> in_chile_box lat lon"
    and "cv_success (fst (convert_legacy_to_ortools_format tx q st))"
  shows "dget (cv_data (fst (convert_legacy_to_ortools_format tx q st))) ''places'' VNone = VList [] \<and>
    length ps \<le> length (cv_warnings (fst (convert_legacy_to_ortools_format tx q st)))"
proof -
  let ?rs = "map (place_or_warning tx) (enumerate 0 ps)"
  have "rights ?rs = []"
  proof (rule ccontr)
    assume ne: "rights ?rs \<noteq> []"
    obtain js where js: "set js \<subseteq> {0..<0 + length ps}"
      "list_all2 (\<lambda>i q. convert_place i (ps ! (i - 0)) = Inr q \<and> validate_ortools_place q = Inr True) js (rights ?rs)"
      using converted_rows [of 0 ps tx] by blast
    with ne obtain i is1 where i: "js = i # is1" by (cases js) auto
    with js obtain x where x: "convert_place i (ps ! i) = Inr x" "validate_ortools_place x = Inr True" "i < length ps"
      by (auto simp: list_all2_Cons1)
    from converted_fields [OF x(1)] validate_fields_ok [OF x(2) [unfolded validate_ortools_place_def]] assms(2) x(3) show False
      by (metis nth_mem sum.inject(2))
  qed
  moreover from this have "length (lefts ?rs) = length ps" using length_sides [of ?rs] by simp
  ultimately have c: "convert_places_to_ortools tx (dget (lq_fields q) ''places'' (VList [])) = Inr ([], lefts ?rs)"
    "length (lefts ?rs) = length ps" by (simp_all add: assms(1) convert_places_list)
  from assms(3) obtain d n m w where o: "ortools_request tx q = Inr (d, n, m, w)"
    by (auto simp: convert_legacy_to_ortools_format_def conversion_failed_def split: sum.splits)
  show ?thesis using request_places [OF o c(1)] c(2) by (auto simp: convert_legacy_to_ortools_format_def o converted_def)
qed

theorem trip_abroad_loses_its_places_witness:
  "dget (cv_data (fst (convert_legacy_to_ortools_format demo_texts
     \<lparr>lq_fields = [(''places'', VList [VDict [(''name'', VStr ''Louvre''), (''lat'', VFloat 48.86), (''lon'', VFloat 2.34)]])],
       lq_start = OtherDate, lq_end = OtherDate\<rparr> new_conversion_stats))) ''places'' VNone = VList []"
proof -
  let ?p = "VDict [(''name'', VStr ''Louvre''), (''lat'', VFloat 48.86), (''lon'', VFloat 2.34)]"
  let ?q = "\<lparr>lq_fields = [(''places'', VList [?p])], lq_start = OtherDate, lq_end = OtherDate\<rparr>"
  have s: "cv_success (fst (convert_legacy_to_ortools_format demo_texts ?q new_conversion_stats))"
    by (simp add: convert_legacy_to_ortools_format_def ortools_request_def convert_places_list convert_accommodations_to_ortools_def
        convert_dates_to_ortools_def date_of_def por_def converted_def Let_def split: sum.splits)
  have "extract_latitude ?p = Inr 48.86" "extract_longitude ?p = Inr 2.34" "\<not> in_chile_box 48.86 2.34"
    by (simp_all add: extract_latitude_def extract_longitude_def location_field_def in_chile_box_def)
  then have o: "\<forall>p \<in> set [?p]. \<exists>lat lon. extract_latitude p = Inr lat \<and> extract_longitude p = Inr lon \<and> \<not> in_chile_box lat lon"
    by (metis list.distinct(1) list.set_cases set_ConsD)
  show ?thesis by (rule trip_abroad_loses_its_places [OF _ o s, THEN conjunct1]) simp
qed

lemma rmap_list_projr: "\<forall>x \<in> set xs. \<exists>y. f x = Inr y \<Longrightarrow> rmap_list f xs = Inr (map (\<lambda>x. projr (f x)) xs)"
  by (rule rmap_list_total) fastforce

lemma route_row:
  "\<exists>row. legacy_route_place (i, VDict d) = Inr row \<and> dget row ''name'' VNone = dget d ''name'' (VStr (''Place '' @ show_nat (i + 1))) \<and>
     dget row ''start_time'' VNone = VStr (pad2 (9 + 2 * i) @ '':00'') \<and> dget row ''order'' VNone = VInt (int i + 1)"
  by (simp add: legacy_route_place_def mult.commute)

lemma routed_in_range: "j < length ps \<Longrightarrow> routed_poi (VList ps) (VInt (int j)) = Inr [ps ! j]"
  by (simp add: routed_poi_def)

text \<open>
  a route over the places of the solver becomes one day that visits them in the order of the route,
  whatever their number, one every two hours from nine: the eighth ends at 24:00 and the ninth begins at 25:00.
\<close>

theorem route_becomes_one_day:
  assumes "dget r ''optimized_route'' (VList []) = VList (map (\<lambda>j. VInt (int j)) js)" "dget r ''optimized_pois'' (VList []) = VList (map VDict ds)"
    and "js \<noteq> []" "\<forall>j \<in> set js. j < length ds" "\<forall>d \<in> set ds. has_key d ''name''"
  shows "\<exists>day rows. convert_ortools_route_to_legacy r = Inr ([(''day_1'', VDict day)], []) \<and> dget day ''places'' VNone = VList (map VDict rows) \<and>
    map (\<lambda>row. dget row ''name'' VNone) rows = map (\<lambda>j. dget (ds ! j) ''name'' VNone) js \<and>
    (\<forall>k < length rows. dget (rows ! k) ''start_time'' VNone = VStr (pad2 (9 + 2 * k) @ '':00''))"
proof -
  let ?ps = "map (\<lambda>j. ds ! j) js" let ?xs = "enumerate 0 (map VDict ?ps)"
  let ?rows = "map (\<lambda>x. projr (legacy_route_place x)) ?xs"
  have o: "rmap_list (routed_poi (VList (map VDict ds))) (map (\<lambda>j. VInt (int j)) js) = Inr (map (\<lambda>j. [VDict (ds ! j)]) js)"
    using assms(4)
  proof (induction js)
    case (Cons j js)
    then show ?case using routed_in_range [of j "map VDict ds"] by simp
  qed simp
  have c: "concat (map (\<lambda>j. [VDict (ds ! j)]) js) = map VDict ?ps" by (induction js) simp_all
  have "\<forall>x \<in> set ?xs. \<exists>row. legacy_route_place x = Inr row"
    using route_row by (fastforce simp: in_set_enumerate_eq)
  note rows = rmap_list_projr [OF this]
  have k: "dget (?rows ! k) ''name'' VNone = dget (ds ! (js ! k)) ''name'' VNone \<and>
      dget (?rows ! k) ''start_time'' VNone = VStr (pad2 (9 + 2 * k) @ '':00'')" if "k < length js" for k
  proof -
    obtain row where r: "legacy_route_place (k, VDict (ds ! (js ! k))) = Inr row"
      "dget row ''name'' VNone = dget (ds ! (js ! k)) ''name'' (VStr (''Place '' @ show_nat (k + 1)))"
      "dget row ''start_time'' VNone = VStr (pad2 (9 + 2 * k) @ '':00'')" using route_row by blast
    have "?rows ! k = row" using that r(1) by (simp add: nth_enumerate_eq)
    moreover have "has_key (ds ! (js ! k)) ''name''" using assms(4,5) that by simp
    ultimately show ?thesis using r(2,3) by (auto simp: has_key_def dget_def)
  qed
  have "map (\<lambda>row. dget row ''name'' VNone) ?rows = map (\<lambda>j. dget (ds ! j) ''name'' VNone) js"
    by (rule nth_equalityI) (use k in auto)
  moreover have "\<forall>k < length ?rows. dget (?rows ! k) ''start_time'' VNone = VStr (pad2 (9 + 2 * k) @ '':00'')" using k by simp
  moreover have "ds \<noteq> []" using assms(3,4) by (cases js) auto
  then have t: "truthy (VList (map (\<lambda>j. VInt (int j)) js))" "truthy (VList (map VDict ds))" using assms(3) by simp_all
  have "\<exists>day. convert_ortools_route_to_legacy r = Inr ([(''day_1'', VDict day)], []) \<and> dget day ''places'' VNone = VList (map VDict ?rows)"
    using t rows assms(3) unfolding convert_ortools_route_to_legacy_def Let_def assms(1,2) viter.simps rbind_Inr o c by simp
  ultimately show ?thesis by blast
qed

theorem route_becomes_one_day_witness:
  "\<exists>day rows. convert_ortools_route_to_legacy
       [(''optimized_route'', VList [VInt 1, VInt 0]), (''optimized_pois'', VList [VDict [(''name'', VStr ''A'')], VDict [(''name'', VStr ''B'')]])] =
       Inr ([(''day_1'', VDict day)], []) \<and> dget day ''places'' VNone = VList (map VDict rows) \<and>
     map (\<lambda>row. dget row ''name'' VNone) rows = [VStr ''B'', VStr ''A'']"
proof -
  let ?r = "[(''optimized_route'', VList [VInt 1, VInt 0]), (''optimized_pois'', VList [VDict [(''name'', VStr ''A'')], VDict [(''name'', VStr ''B'')]])]"
  let ?ds = "[[(''name'', VStr ''A'')], [(''name'', VStr ''B'')]]"
  have p: "dget ?r ''optimized_route'' (VList []) = VList (map (\<lambda>j. VInt (int j)) [1, 0])"
    "dget ?r ''optimized_pois'' (VList []) = VList (map VDict ?ds)" "[1, 0] \<noteq> ([] :: nat list)" "\<forall>j \<in> set [1, 0]. j < length ?ds"
    "\<forall>d \<in> set ?ds. has_key d ''name''" by (simp_all add: has_key_def)
  from route_becomes_one_day [OF p] obtain day rows where
    "convert_ortools_route_to_legacy ?r = Inr ([(''day_1'', VDict day)], [])" "dget day ''places'' VNone = VList (map VDict rows)"
    "map (\<lambda>row. dget row ''name'' VNone) rows = map (\<lambda>j. dget (?ds ! j) ''name'' VNone) [1, 0]" by blast
  then show ?thesis by (intro exI [of _ day] exI [of _ rows]) simp
qed

text \<open>
  a place whose opening hours are a text, as the schema \<open>Place\<close> has them, is never converted: reading
  \<open>open_now\<close> from it raises, and the place is left out with a warning.
\<close>

theorem opening_hours_text_drops_the_place:
  assumes "map_of d ''opening_hours'' = Some (VStr s)" "s \<noteq> []"
  shows "\<exists>w. place_or_warning tx (i, VDict d) = Inl w"
proof (cases "place_or_warning tx (i, VDict d)")
  case (Inr q)
  then have "convert_place i (VDict d) = Inr q" by (simp only: place_ok)
  then obtain h where "extract_opening_hours (VDict d) = Inr h" unfolding convert_place_def by (elim rbind_eq_InrE) blast
  then show ?thesis using assms by (simp add: extract_opening_hours_def dget_def)
qed blast

theorem opening_hours_text_drops_the_place_witness:
  "\<exists>w. place_or_warning demo_texts (0, VDict [(''lat'', VInt (- 33)), (''lon'', VInt (- 70)), (''opening_hours'', VStr ''9-18'')]) = Inl w"
  by (rule opening_hours_text_drops_the_place [of _ "''9-18''"]) simp_all

text \<open>Any sequence of conversions: \<open>Inl\<close> a request, \<open>Inr\<close> a result.\<close>

definition convert_one :: "texts \<Rightarrow> legacy_request + pydict \<Rightarrow> conversion_stats \<Rightarrow> conversion_result \<times> conversion_stats" where
  "convert_one tx x st = (case x of Inl q \<Rightarrow> convert_legacy_to_ortools_format tx q st | Inr r \<Rightarrow> convert_ortools_to_legacy_format tx r st)"

fun conversions :: "texts \<Rightarrow> (legacy_request + pydict) list \<Rightarrow> conversion_stats \<Rightarrow> conversion_result list \<times> conversion_stats" where
  "conversions tx [] st = ([], st)"
| "conversions tx (x # xs) st =
     (case convert_one tx x st of (r, st1) \<Rightarrow> case conversions tx xs st1 of (rs, st2) \<Rightarrow> (r # rs, st2))"

lemma convert_one_counts:
  assumes "convert_one tx x st = (r, st')"
  shows "st_to_ortools st' + st_to_legacy st' = st_to_ortools st + st_to_legacy st + (if cv_success r then 1 else 0) \<and>
    st_warnings st' = st_warnings st + (if cv_success r then length (cv_warnings r) else 0)"
  using assms
  by (auto simp: convert_one_def convert_legacy_to_ortools_format_def convert_ortools_to_legacy_format_def converted_def conversion_failed_def
      split: sum.splits)

text \<open>
  over any sequence of conversions the statistics count the successful ones and their warnings; a
  failed one is not counted, and the reported success rate is 1 whatever failed.
\<close>

theorem statistics_count_successes:
  assumes "conversions tx xs st = (rs, st')"
  shows "length rs = length xs \<and>
    st_to_ortools st' + st_to_legacy st' = st_to_ortools st + st_to_legacy st + length (filter cv_success rs) \<and>
    st_warnings st' = st_warnings st + sum_list (map (length \<circ> cv_warnings) (filter cv_success rs)) \<and>
    snd (snd (snd (snd (snd (get_conversion_stats st'))))) = 1"
proof -
  have "length rs = length xs \<and>
    st_to_ortools st' + st_to_legacy st' = st_to_ortools st + st_to_legacy st + length (filter cv_success rs) \<and>
    st_warnings st' = st_warnings st + sum_list (map (length \<circ> cv_warnings) (filter cv_success rs))"
    using assms
  proof (induction xs arbitrary: st rs)
    case (Cons x xs)
    obtain r st1 where r: "convert_one tx x st = (r, st1)" by fastforce
    with Cons.prems obtain rs1 where rs: "conversions tx xs st1 = (rs1, st')" "rs = r # rs1" by (auto split: prod.splits)
    from Cons.IH [OF rs(1)] convert_one_counts [OF r] rs(2) show ?case by auto
  qed simp
  then show ?thesis by (simp add: get_conversion_stats_def Let_def)
qed

theorem statistics_count_successes_witness:
  "st_warnings (snd (conversions demo_texts [Inr []] new_conversion_stats)) = 2"
proof -
  obtain r st where r: "conversions demo_texts [Inr []] new_conversion_stats = ([r], st)" "cv_success r" "length (cv_warnings r) = 2"
    by (simp add: convert_one_def convert_ortools_to_legacy_format_def legacy_result_def convert_itinerary_to_legacy_days_def itinerary_data_def
        has_key_def por_def convert_clusters_to_legacy_def convert_recommendations_to_legacy_def converted_def)
  from statistics_count_successes [OF r(1)] r show ?thesis by (simp add: new_conversion_stats_def)
qed

end
