(* ===== verification/DistanceCache.thy ===== *)
theory DistanceCache
  imports CityClustering Scheduling
begin

section \<open>The cache of distance matrices\<close>

text \<open>
  src/services/ortools\_distance\_cache.py: matrices of distances between the places of a request, kept for
  some time under a key of the places.  The geodesic distance of geopy, the answers of the routing service and
  the clock are parameters; the key is the list whose digest the code takes.
\<close>

subsection \<open>State\<close>

type_synonym places_key = "(pyval \<times> pyval \<times> pyval) list"

record cached_matrix =
  cm_matrix :: "real list list"
  cm_hash :: places_key
  cm_time :: real
  cm_source :: string
  cm_ttl :: real
  cm_places :: nat
  cm_size :: "nat \<times> nat"
  cm_total :: real

definition cm_expired :: "real \<Rightarrow> cached_matrix \<Rightarrow> bool" where
  "cm_expired now m \<longleftrightarrow> cm_time m + cm_ttl m < now"

definition age_seconds :: "real \<Rightarrow> cached_matrix \<Rightarrow> int" where
  "age_seconds now m = py_trunc (now - cm_time m)"

record distance_cache =
  dc_cache :: "(places_key, cached_matrix) dict"
  dc_ttl :: real
  dc_hits :: nat
  dc_misses :: nat
  dc_size :: nat
  dc_average_ms :: real
  dc_stored :: nat

definition max_cache_size :: nat where
  "max_cache_size = 1000"

definition new_distance_cache :: "real \<Rightarrow> distance_cache" where
  "new_distance_cache ttl =
     \<lparr>dc_cache = [], dc_ttl = ttl, dc_hits = 0, dc_misses = 0, dc_size = 0, dc_average_ms = 0, dc_stored = 0\<rparr>"

text \<open>What a calculation asks: \<open>osrm\<close> is the answer of the routing service, if there is one.\<close>

record distance_net =
  nt_geodesic :: "coord \<Rightarrow> coord \<Rightarrow> real res"
  nt_osrm :: "(coord \<Rightarrow> coord \<Rightarrow> pyval res) option"
  nt_parallel :: bool

subsection \<open>The key\<close>

text \<open>\<open>round(x, 6)\<close> keeps an integer an integer, which the JSON text of the key shows.\<close>

definition rounded_coordinate :: "pyval \<Rightarrow> pyval res" where
  "rounded_coordinate v =
     (case v of VInt i \<Rightarrow> Inr (VInt i) | VBool b \<Rightarrow> Inr (VInt (if b then 1 else 0)) | VFloat x \<Rightarrow> Inr (VFloat (py_round 6 x))
      | _ \<Rightarrow> Inl TypeError)"

definition normalized_place :: "pydict \<Rightarrow> (pyval \<times> pyval \<times> pyval) res" where
  "normalized_place p =
     rbind (dindex p ''lat'') (\<lambda>u. rbind (rounded_coordinate u) (\<lambda>a.
     rbind (dindex p ''lon'') (\<lambda>v. rbind (rounded_coordinate v) (\<lambda>b.
     Inr (a, b, dget p ''name'' (VStr []))))))"

definition point_of :: "pyval \<times> pyval \<times> pyval \<Rightarrow> coord" where
  "point_of r = (the (num_of (fst r)), the (num_of (fst (snd r))))"

definition generate_places_hash :: "pydict list \<Rightarrow> places_key res" where
  "generate_places_hash places = rbind (rmap_list normalized_place places) (\<lambda>ns. Inr (sort_key point_of ns))"

subsection \<open>Matrices\<close>

definition matrix_of :: "(nat \<times> pydict \<Rightarrow> nat \<times> pydict \<Rightarrow> real res) \<Rightarrow> pydict list \<Rightarrow> real list list res" where
  "matrix_of cell places = rmap_list (\<lambda>origin. rmap_list (cell origin) (enumerate 0 places)) (enumerate 0 places)"

definition geodesic_between :: "distance_net \<Rightarrow> pydict \<Rightarrow> pydict \<Rightarrow> real res" where
  "geodesic_between net origin destination =
     rbind (poi_coord origin) (\<lambda>p. rbind (poi_coord destination) (\<lambda>q. nt_geodesic net p q))"

definition calculate_geodesic_matrix :: "distance_net \<Rightarrow> pydict list \<Rightarrow> real list list res" where
  "calculate_geodesic_matrix net =
     matrix_of (\<lambda>(i, origin) (j, destination). if i = j then Inr 0 else geodesic_between net origin destination)"

definition get_osrm_distance :: "distance_net \<Rightarrow> pydict \<Rightarrow> pydict \<Rightarrow> real res" where
  "get_osrm_distance net origin destination =
     (case nt_osrm net of
        None \<Rightarrow> Inl (OtherError ''OSRM service not available'')
      | Some osrm \<Rightarrow>
          rbind (poi_coord origin) (\<lambda>p. rbind (poi_coord destination) (\<lambda>q. rbind (osrm p q) (\<lambda>r.
          if \<not> truthy r then Inl (OtherError ''OSRM returned invalid distance'')
          else rbind (need_num r) (\<lambda>d. if 0 < d then Inr d else Inl (OtherError ''OSRM returned invalid distance''))))))"

definition osrm_or_geodesic :: "distance_net \<Rightarrow> pydict \<Rightarrow> pydict \<Rightarrow> real res" where
  "osrm_or_geodesic net origin destination =
     (case get_osrm_distance net origin destination of Inr d \<Rightarrow> Inr d | Inl e \<Rightarrow> geodesic_between net origin destination)"

definition calculate_osrm_sequential :: "distance_net \<Rightarrow> pydict list \<Rightarrow> real list list res" where
  "calculate_osrm_sequential net =
     matrix_of (\<lambda>(i, origin) (j, destination). if i = j then Inr 0 else osrm_or_geodesic net origin destination)"

text \<open>Only the pairs above the diagonal are asked for; the tasks that raise leave their cells at zero.\<close>

definition calculate_osrm_parallel :: "distance_net \<Rightarrow> pydict list \<Rightarrow> real list list res" where
  "calculate_osrm_parallel net =
     matrix_of (\<lambda>(i, p) (j, q).
       Inr (if i = j then 0
            else case (if i < j then osrm_or_geodesic net p q else osrm_or_geodesic net q p) of Inr d \<Rightarrow> d | Inl e \<Rightarrow> 0))"

definition calculate_osrm_matrix :: "distance_net \<Rightarrow> pydict list \<Rightarrow> real list list res" where
  "calculate_osrm_matrix net places =
     (if nt_osrm net = None then Inl (OtherError ''OSRM service not available'')
      else if 10 < length places \<and> nt_parallel net then calculate_osrm_parallel net places
      else calculate_osrm_sequential net places)"

definition choose_source :: "distance_net \<Rightarrow> nat \<Rightarrow> string \<Rightarrow> string" where
  "choose_source net n pref =
     (if pref = ''auto'' then (if n \<le> 5 then ''geodesic'' else if nt_osrm net \<noteq> None then ''osrm'' else ''geodesic'') else pref)"

definition calculate_distance_matrix :: "distance_net \<Rightarrow> pydict list \<Rightarrow> string \<Rightarrow> (real list list \<times> string) res" where
  "calculate_distance_matrix net places pref =
     (let source = choose_source net (length places) pref;
          geodesic = (\<lambda>name. rbind (calculate_geodesic_matrix net places) (\<lambda>m. Inr (m, name)))
      in case (if source = ''osrm'' \<and> nt_osrm net \<noteq> None
               then rbind (calculate_osrm_matrix net places) (\<lambda>m. Inr (m, ''osrm''))
               else geodesic ''geodesic'') of
           Inr r \<Rightarrow> Inr r
         | Inl e \<Rightarrow> if source \<noteq> ''geodesic'' then geodesic ''geodesic_fallback'' else Inl e)"

subsection \<open>Cache\<close>

definition get_from_cache :: "real \<Rightarrow> places_key \<Rightarrow> distance_cache \<Rightarrow> cached_matrix option \<times> distance_cache" where
  "get_from_cache now k st =
     (case map_of (dc_cache st) k of
        None \<Rightarrow> (None, st)
      | Some m \<Rightarrow>
          if cm_expired now m
          then (None, st\<lparr>dc_cache := ddel k (dc_cache st), dc_size := length (ddel k (dc_cache st))\<rparr>)
          else (Some m, st))"

definition cleanup_cache :: "real \<Rightarrow> distance_cache \<Rightarrow> distance_cache" where
  "cleanup_cache now st =
     (let live = filter (\<lambda>(k, m). \<not> cm_expired now m) (dc_cache st);
          cache =
            (if max_cache_size \<le> length live
             then
               fold ddel (map fst (take (max 1 (length live div 5)) (sort_key (\<lambda>(k, m). cm_time m) live))) live
             else live)
      in st\<lparr>dc_cache := cache, dc_size := length cache\<rparr>)"

definition total_of :: "real list list \<Rightarrow> real" where
  "total_of m = sum_list (map sum_list m)"

definition save_to_cache ::
  "real \<Rightarrow> places_key \<Rightarrow> real list list \<Rightarrow> string \<Rightarrow> nat \<Rightarrow> distance_cache \<Rightarrow> distance_cache" where
  "save_to_cache now k matrix source n st =
     (let st1 = (if max_cache_size \<le> length (dc_cache st) then cleanup_cache now st else st);
          cache = dset k \<lparr>cm_matrix = matrix, cm_hash = k, cm_time = now, cm_source = source, cm_ttl = dc_ttl st,
                          cm_places = n, cm_size = (length matrix, case matrix of [] \<Rightarrow> 0 | row # rows \<Rightarrow> length row),
                          cm_total = total_of matrix\<rparr> (dc_cache st1)
      in st1\<lparr>dc_cache := cache, dc_size := length cache, dc_stored := dc_stored st1 + 1\<rparr>)"

record matrix_meta =
  mm_source :: string
  mm_hit :: bool
  mm_time_ms :: real
  mm_cached :: "(int \<times> string) option" \<comment> \<open>age and original source of a hit\<close>
  mm_places :: "nat option"

text \<open>\<open>now\<close> is the time of the lookup, \<open>later\<close> that of the storing, \<open>ms\<close> the measured duration.\<close>

definition dc_get_distance_matrix ::
  "distance_net \<Rightarrow> real \<Rightarrow> real \<Rightarrow> real \<Rightarrow> pydict list \<Rightarrow> string \<Rightarrow> distance_cache \<Rightarrow>
   (real list list \<times> matrix_meta) res \<times> distance_cache" where
  "dc_get_distance_matrix net now later ms places pref st =
     (case generate_places_hash places of
        Inl e \<Rightarrow> (Inl e, st)
      | Inr k \<Rightarrow>
          (case get_from_cache now k st of
             (Some m, st1) \<Rightarrow>
               (Inr (cm_matrix m, \<lparr>mm_source = ''cache'', mm_hit = True, mm_time_ms = ms,
                                    mm_cached = Some (age_seconds now m, cm_source m), mm_places = None\<rparr>),
                st1\<lparr>dc_hits := dc_hits st1 + 1\<rparr>)
           | (None, st1) \<Rightarrow>
               (let st2 = st1\<lparr>dc_misses := dc_misses st1 + 1\<rparr>
                in case calculate_distance_matrix net places pref of
                     Inl e \<Rightarrow> (Inl e, st2)
                   | Inr (m, source) \<Rightarrow>
                       let st3 = save_to_cache later k m source (length places) st2
                       in (Inr (m, \<lparr>mm_source = source, mm_hit = False, mm_time_ms = ms, mm_cached = None,
                                    mm_places = Some (length places)\<rparr>),
                           st3\<lparr>dc_average_ms := (dc_average_ms st3 + ms) / 2\<rparr>))))"

definition invalidate_cache :: "places_key option \<Rightarrow> distance_cache \<Rightarrow> distance_cache" where
  "invalidate_cache k st =
     (case k of
        Some h \<Rightarrow> st\<lparr>dc_cache := ddel h (dc_cache st)\<rparr>
      | None \<Rightarrow> st\<lparr>dc_cache := [], dc_size := 0\<rparr>)"

record cache_report =
  cr_hit_rate :: real
  cr_requests :: nat
  cr_hits :: nat
  cr_misses :: nat
  cr_size :: nat
  cr_max_size :: nat
  cr_average_ms :: real
  cr_stored :: nat
  cr_ttl :: real
  cr_efficiency :: string

definition dc_get_cache_stats :: "distance_cache \<Rightarrow> cache_report" where
  "dc_get_cache_stats st =
     (let n = dc_hits st + dc_misses st; rate = (if 0 < n then real (dc_hits st) / real n else 0)
      in \<lparr>cr_hit_rate = py_round 3 rate, cr_requests = n, cr_hits = dc_hits st, cr_misses = dc_misses st,
          cr_size = dc_size st, cr_max_size = max_cache_size, cr_average_ms = py_round 1 (dc_average_ms st),
          cr_stored = dc_stored st, cr_ttl = dc_ttl st,
          cr_efficiency = (if 0.8 < rate then ''excellent'' else if 0.6 < rate then ''good'' else ''needs_improvement'')\<rparr>)"

subsection \<open>Lemmas\<close>

lemma rmap_list_projr_iff: "rmap_list f xs = Inr ys \<longleftrightarrow> (\<forall>x \<in> set xs. \<exists>y. f x = Inr y) \<and> ys = map (\<lambda>x. projr (f x)) xs"
  by (induction xs arbitrary: ys) (auto simp: rbind_eq_Inr_iff)

lemma rmap_list_perm:
  assumes "rmap_list f xs = Inr ys" "mset zs = mset xs"
  shows "\<exists>ws. rmap_list f zs = Inr ws \<and> mset ws = mset ys"
proof -
  have "set zs = set xs" using assms(2) by (rule mset_eq_setD)
  then have "rmap_list f zs = Inr (map (\<lambda>x. projr (f x)) zs)" using assms(1) by (simp add: rmap_list_projr_iff)
  moreover have "mset (map (\<lambda>x. projr (f x)) zs) = mset ys" using assms by (simp add: rmap_list_projr_iff)
  ultimately show ?thesis by blast
qed

lemma sort_key_perm:
  assumes "mset xs = mset ys" "distinct (map f ys)"
  shows "sort_key f xs = sort_key f ys"
proof (rule sort_key_inj_key_eq)
  show "mset xs = mset (sort_key f ys)" using assms(1) by simp
  show "sorted (map f (sort_key f ys))" by simp
  have "inj_on f (set ys)" using assms(2) by (simp add: distinct_map)
  moreover have "set xs = set ys" using assms(1) by (rule mset_eq_setD)
  ultimately show "inj_on f (set xs)" by simp
qed

lemma key_perm:
  assumes "rmap_list normalized_place ps = Inr ns" "distinct (map point_of ns)" "mset qs = mset ps"
  shows "generate_places_hash qs = generate_places_hash ps"
proof -
  obtain ms where m: "rmap_list normalized_place qs = Inr ms" "mset ms = mset ns" using rmap_list_perm [OF assms(1,3)] by blast
  then show ?thesis using sort_key_perm [OF m(2) assms(2)] assms(1) by (simp add: generate_places_hash_def)
qed

lemma key_mset: "generate_places_hash ps = Inr k \<Longrightarrow> \<exists>ns. rmap_list normalized_place ps = Inr ns \<and> mset ns = mset k"
  by (auto simp: generate_places_hash_def rbind_eq_Inr_iff)

lemma matrix_of_nth:
  assumes "matrix_of cell ps = Inr m"
  shows "length m = length ps \<and> (\<forall>i < length ps. length (m ! i) = length ps \<and> (\<forall>j < length ps. cell (i, ps ! i) (j, ps ! j) = Inr (m ! i ! j)))"
proof -
  have "list_all2 (\<lambda>o1 row. rmap_list (cell o1) (enumerate 0 ps) = Inr row) (enumerate 0 ps) m"
    using assms by (simp add: matrix_of_def rmap_list_Inr_conv)
  then have l: "length m = length ps" and r: "\<forall>i < length ps. list_all2 (\<lambda>x y. cell (i, ps ! i) x = Inr y) (enumerate 0 ps) (m ! i)"
    by (auto simp: list_all2_conv_all_nth nth_enumerate_eq rmap_list_Inr_conv)
  then show ?thesis by (auto simp: list_all2_conv_all_nth nth_enumerate_eq)
qed

lemma get_from_cache_hit: "get_from_cache now k st = (Some m, st1) \<Longrightarrow> st1 = st \<and> map_of (dc_cache st) k = Some m \<and> \<not> cm_expired now m"
  by (auto simp: get_from_cache_def split: option.splits if_splits)

lemma get_from_cache_miss:
  "get_from_cache now k st = (None, st1) \<Longrightarrow> set (dc_cache st1) \<subseteq> set (dc_cache st) \<and> length (dc_cache st1) \<le> length (dc_cache st) \<and>
     (is_dict (dc_cache st) \<longrightarrow> is_dict (dc_cache st1)) \<and> dc_ttl st1 = dc_ttl st"
  by (auto simp: get_from_cache_def AList.delete_eq length_filter_le split: option.splits if_splits)

lemma fold_ddel_le: "set (fold ddel ks d) \<subseteq> set d \<and> length (fold ddel ks d) \<le> length d \<and> (is_dict d \<longrightarrow> is_dict (fold ddel ks d))"
proof (induction ks arbitrary: d)
  case (Cons k ks)
  have "set (ddel k d) \<subseteq> set d" "length (ddel k d) \<le> length d" by (auto simp: AList.delete_eq length_filter_le)
  then show ?case using Cons.IH [of "ddel k d"] by auto
qed simp

lemma cleanup_ok:
  assumes "st' = cleanup_cache now st"
  shows "set (dc_cache st') \<subseteq> set (dc_cache st) \<and> (length (dc_cache st) \<le> max_cache_size \<longrightarrow> length (dc_cache st') < max_cache_size) \<and>
     (is_dict (dc_cache st) \<longrightarrow> is_dict (dc_cache st')) \<and> dc_ttl st' = dc_ttl st"
proof -
  let ?live = "filter (\<lambda>(k, m). \<not> cm_expired now m) (dc_cache st)"
  let ?old = "map fst (take (max 1 (length ?live div 5)) (sort_key (\<lambda>(k, m). cm_time m) ?live))"
  have live: "set ?live \<subseteq> set (dc_cache st)" "length ?live \<le> length (dc_cache st)" "is_dict (dc_cache st) \<longrightarrow> is_dict ?live"
    by auto
  show ?thesis
  proof (cases "max_cache_size \<le> length ?live")
    case False
    then show ?thesis using live assms by (auto simp: cleanup_cache_def Let_def)
  next
    case True
    then have c: "dc_cache st' = fold ddel ?old ?live" using assms by (simp add: cleanup_cache_def Let_def)
    have ne: "?live \<noteq> []" using True by (auto simp: max_cache_size_def)
    let ?s = "sort_key (\<lambda>(k, m). cm_time m) ?live"
    have "?s \<noteq> []" using ne by (metis length_0_conv length_sort)
    then obtain x xs where x: "?s = x # xs" by (cases ?s) auto
    obtain n where n: "max 1 (length ?live div 5) = Suc n" by (metis One_nat_def Suc_le_D max.cobounded1)
    have o: "?old = fst x # map fst (take n xs)" unfolding n x by simp
    have "x \<in> set ?s" by (simp add: x)
    then have "x \<in> set ?live" by simp
    then have l: "length (ddel (fst x) ?live) < length ?live" unfolding AList.delete_eq by (rule length_filter_less) auto
    have f: "fold ddel ?old ?live = fold ddel (map fst (take n xs)) (ddel (fst x) ?live)" unfolding o by simp
    have "length (dc_cache st') < length ?live" unfolding c f using fold_ddel_le l by (meson le_less_trans)
    moreover have "set (dc_cache st') \<subseteq> set ?live" "is_dict ?live \<longrightarrow> is_dict (dc_cache st')" unfolding c using fold_ddel_le by blast+
    moreover have "dc_ttl st' = dc_ttl st" using assms by (simp add: cleanup_cache_def Let_def)
    ultimately show ?thesis using live by (meson less_le_trans order.trans)
  qed
qed

text \<open>What the operations keep of a cache: its size, its lifetime and where its entries come from.\<close>

definition computed_for :: "places_key \<Rightarrow> cached_matrix \<Rightarrow> bool" where
  "computed_for k m \<longleftrightarrow> (\<exists>net ps pref. generate_places_hash ps = Inr k \<and> calculate_distance_matrix net ps pref = Inr (cm_matrix m, cm_source m))"

definition dc_ok :: "real \<Rightarrow> distance_cache \<Rightarrow> bool" where
  "dc_ok ttl st \<longleftrightarrow> is_dict (dc_cache st) \<and> length (dc_cache st) \<le> max_cache_size \<and> dc_ttl st = ttl \<and>
     (\<forall>(k, m) \<in> set (dc_cache st). cm_hash m = k \<and> cm_ttl m = ttl \<and> computed_for k m)"

lemma dc_ok_shrink:
  assumes "dc_ok ttl st" "set (dc_cache st') \<subseteq> set (dc_cache st)" "length (dc_cache st') \<le> length (dc_cache st)" "is_dict (dc_cache st')" "dc_ttl st' = dc_ttl st"
  shows "dc_ok ttl st'"
  using assms unfolding dc_ok_def by auto

lemma save_ok:
  assumes "dc_ok ttl st" "generate_places_hash ps = Inr k" "calculate_distance_matrix net ps pref = Inr (matrix, source)"
  shows "dc_ok ttl (save_to_cache now k matrix source n st)"
proof -
  define st1 where "st1 = (if max_cache_size \<le> length (dc_cache st) then cleanup_cache now st else st)"
  have s: "length (dc_cache st1) < max_cache_size" "set (dc_cache st1) \<subseteq> set (dc_cache st)" "is_dict (dc_cache st1)" "dc_ttl st1 = ttl"
    using assms(1) cleanup_ok [of "cleanup_cache now st" now st] by (auto simp: st1_def dc_ok_def)
  let ?m = "\<lparr>cm_matrix = matrix, cm_hash = k, cm_time = now, cm_source = source, cm_ttl = dc_ttl st, cm_places = n,
    cm_size = (length matrix, case matrix of [] \<Rightarrow> 0 | row # rows \<Rightarrow> length row), cm_total = total_of matrix\<rparr>"
  have c: "dc_cache (save_to_cache now k matrix source n st) = dset k ?m (dc_cache st1)" "dc_ttl (save_to_cache now k matrix source n st) = dc_ttl st1"
    by (simp_all add: save_to_cache_def st1_def Let_def)
  have "computed_for k ?m" using assms(2,3) by (auto simp: computed_for_def)
  moreover have "dc_ttl st = ttl" using assms(1) by (simp add: dc_ok_def)
  moreover have "length (dset k ?m (dc_cache st1)) \<le> max_cache_size" using s(1) by (simp add: length_dset)
  moreover have "is_dict (dset k ?m (dc_cache st1))" using s(3) by simp
  moreover have "cm_hash y = x \<and> cm_ttl y = ttl \<and> computed_for x y" if "(x, y) \<in> set (dset k ?m (dc_cache st1))" for x y
  proof (cases "(x, y) = (k, ?m)")
    case True
    then show ?thesis using calculation(1,2) by simp
  next
    case False
    with set_dset_subset [OF that] s(2) have "(x, y) \<in> set (dc_cache st)" by blast
    then show ?thesis using assms(1) unfolding dc_ok_def by blast
  qed
  ultimately show ?thesis using s(4) unfolding dc_ok_def c by blast
qed

text \<open>The states of a cache: requests under any network and at any time, and invalidations.\<close>

inductive cache_reaches :: "real \<Rightarrow> distance_cache \<Rightarrow> bool" for ttl where
  cache_new: "cache_reaches ttl (new_distance_cache ttl)"
| cache_get: "cache_reaches ttl st \<Longrightarrow> cache_reaches ttl (snd (dc_get_distance_matrix net now later ms places pref st))"
| cache_invalidate: "cache_reaches ttl st \<Longrightarrow> cache_reaches ttl (invalidate_cache k st)"

lemma get_ok:
  assumes "dc_ok ttl st"
  shows "dc_ok ttl (snd (dc_get_distance_matrix net now later ms places pref st))"
proof (cases "generate_places_hash places")
  case (Inr k)
  obtain found st1 where g: "get_from_cache now k st = (found, st1)" by fastforce
  show ?thesis
  proof (cases found)
    case (Some m)
    with g have "st1 = st" using get_from_cache_hit by blast
    then show ?thesis using assms Inr g Some by (simp add: dc_get_distance_matrix_def dc_ok_def)
  next
    case None
    let ?st2 = "st1\<lparr>dc_misses := dc_misses st1 + 1\<rparr>"
    have ok: "dc_ok ttl ?st2"
      using get_from_cache_miss [OF g [unfolded None]] assms by (intro dc_ok_shrink [OF assms]) (auto simp: dc_ok_def)
    show ?thesis
    proof (cases "calculate_distance_matrix net places pref")
      case (Inl e)
      then show ?thesis using ok Inr g None by (simp add: dc_get_distance_matrix_def Let_def)
    next
      case r: (Inr r)
      obtain matrix source where m: "r = (matrix, source)" by fastforce
      from save_ok [OF ok Inr r [unfolded m], of later "length places"] show ?thesis
        using Inr g None r m by (simp add: dc_get_distance_matrix_def Let_def dc_ok_def)
    qed
  qed
qed (use assms in \<open>simp add: dc_get_distance_matrix_def\<close>)

lemma invalidate_ok: "dc_ok ttl st \<Longrightarrow> dc_ok ttl (invalidate_cache k st)"
proof (cases k)
  case (Some h)
  assume ok: "dc_ok ttl st"
  from Some show ?thesis
    by (intro dc_ok_shrink [OF ok]) (use ok in \<open>auto simp: invalidate_cache_def AList.delete_eq length_filter_le dc_ok_def\<close>)
qed (simp add: invalidate_cache_def dc_ok_def)

lemma cache_ok: "cache_reaches ttl st \<Longrightarrow> dc_ok ttl st"
proof (induction rule: cache_reaches.induct)
  case cache_new
  then show ?case by (simp add: dc_ok_def new_distance_cache_def)
qed (simp_all add: get_ok invalidate_ok)

lemma get_matrix_cases:
  assumes "dc_get_distance_matrix net now later ms places pref st = (Inr (m, info), st')"
  obtains (hit) k c where "generate_places_hash places = Inr k" "map_of (dc_cache st) k = Some c" "\<not> cm_expired now c" "m = cm_matrix c"
      "mm_hit info" "dc_cache st' = dc_cache st"
  | (computed) k source st2 where "generate_places_hash places = Inr k" "calculate_distance_matrix net places pref = Inr (m, source)"
      "\<not> mm_hit info" "dc_ttl st2 = dc_ttl st" "dc_cache st' = dc_cache (save_to_cache later k m source (length places) st2)"
proof -
  from assms obtain k where k: "generate_places_hash places = Inr k" by (cases "generate_places_hash places") (auto simp: dc_get_distance_matrix_def)
  obtain found st1 where g: "get_from_cache now k st = (found, st1)" by fastforce
  show ?thesis
  proof (cases found)
    case (Some c)
    with assms k g have r: "m = cm_matrix c" "mm_hit info" "dc_cache st' = dc_cache st1" by (auto simp: dc_get_distance_matrix_def)
    from get_from_cache_hit [OF g [unfolded Some]] r k show ?thesis using hit by blast
  next
    case None
    from assms k g None obtain source where c: "calculate_distance_matrix net places pref = Inr (m, source)"
      by (cases "calculate_distance_matrix net places pref") (auto simp: dc_get_distance_matrix_def Let_def)
    with assms k g None have r: "\<not> mm_hit info"
      "dc_cache st' = dc_cache (save_to_cache later k m source (length places) (st1\<lparr>dc_misses := dc_misses st1 + 1\<rparr>))"
      by (auto simp: dc_get_distance_matrix_def Let_def)
    have "dc_ttl (st1\<lparr>dc_misses := dc_misses st1 + 1\<rparr>) = dc_ttl st" using get_from_cache_miss [OF g [unfolded None]] by simp
    from computed [OF k c r(1) this r(2)] show ?thesis .
  qed
qed

lemma saved_entry:
  "\<exists>c. map_of (dc_cache (save_to_cache now k matrix source n st)) k = Some c \<and> cm_matrix c = matrix \<and> cm_time c = now \<and>
     cm_ttl c = dc_ttl st \<and> cm_source c = source"
  by (simp add: save_to_cache_def Let_def)

subsection \<open>Properties\<close>

text \<open>
  C19: in every state the cache can reach it has at most a thousand entries under distinct keys, each a
  matrix calculated for places with that key, kept for the configured time.
\<close>

theorem distance_cache_invariant:
  assumes "cache_reaches ttl st"
  shows "length (dc_cache st) \<le> max_cache_size \<and> distinct (keys (dc_cache st)) \<and>
    (\<forall>(k, m) \<in> set (dc_cache st). cm_ttl m = ttl \<and>
      (\<exists>net ps pref. generate_places_hash ps = Inr k \<and> calculate_distance_matrix net ps pref = Inr (cm_matrix m, cm_source m)))"
  using cache_ok [OF assms] unfolding dc_ok_def computed_for_def is_dict_def by blast

theorem distance_cache_invariant_witness:
  "length (dc_cache (snd (dc_get_distance_matrix \<lparr>nt_geodesic = \<lambda>p q. Inr 1, nt_osrm = None, nt_parallel = False\<rparr> 0 0 1 [] ''auto''
     (new_distance_cache 60)))) \<le> 1000"
  using distance_cache_invariant [OF cache_get [OF cache_new]] by (simp add: max_cache_size_def)

text \<open>
  a served matrix was calculated for places with the same rounded coordinates and names, in some
  order: from the request itself, or for an earlier one within the time to live.
\<close>

theorem served_matrix_is_of_the_places:
  assumes "cache_reaches ttl st" "dc_get_distance_matrix net now later ms places pref st = (Inr (m, info), st')"
  shows "\<exists>net' ps pref' source ns ns'. rmap_list normalized_place places = Inr ns \<and> rmap_list normalized_place ps = Inr ns' \<and> mset ns = mset ns' \<and>
    calculate_distance_matrix net' ps pref' = Inr (m, source) \<and> (mm_hit info \<or> ps = places)"
  using assms(2)
proof (cases rule: get_matrix_cases)
  case (hit k c)
  then have "(k, c) \<in> set (dc_cache st)" by (simp add: map_of_SomeD)
  with cache_ok [OF assms(1)] have "computed_for k c" unfolding dc_ok_def by blast
  then obtain net' ps pref' where c: "generate_places_hash ps = Inr k" "calculate_distance_matrix net' ps pref' = Inr (m, cm_source c)"
    using hit(4) unfolding computed_for_def by blast
  from key_mset [OF hit(1)] key_mset [OF c(1)] obtain ns ns' where "rmap_list normalized_place places = Inr ns"
    "rmap_list normalized_place ps = Inr ns'" "mset ns = mset ns'" by metis
  with c(2) hit(5) show ?thesis by blast
next
  case (computed k source st2)
  from key_mset [OF computed(1)] computed(2) show ?thesis by blast
qed

theorem served_matrix_is_of_the_places_witness:
  "\<exists>m info st'. dc_get_distance_matrix \<lparr>nt_geodesic = \<lambda>p q. Inr 1, nt_osrm = None, nt_parallel = False\<rparr> 0 0 1 [] ''auto'' (new_distance_cache 60) =
     (Inr (m, info), st') \<and> m = []"
proof -
  let ?net = "\<lparr>nt_geodesic = \<lambda>p q. Inr 1, nt_osrm = None, nt_parallel = False\<rparr> :: distance_net"
  obtain m info st' where g: "dc_get_distance_matrix ?net 0 0 1 [] ''auto'' (new_distance_cache 60) = (Inr (m, info), st')"
    by (simp add: dc_get_distance_matrix_def generate_places_hash_def get_from_cache_def new_distance_cache_def calculate_distance_matrix_def
        choose_source_def calculate_geodesic_matrix_def matrix_of_def Let_def)
  from served_matrix_is_of_the_places [OF cache_new g] obtain net' ps pref' source ns ns' where
    "rmap_list normalized_place [] = Inr ns" "rmap_list normalized_place ps = Inr ns'" "mset ns = mset ns'"
    "calculate_distance_matrix net' ps pref' = Inr (m, source)" by blast
  moreover from this(1-3) have "ps = []" using rmap_list_length [of normalized_place ps ns'] by auto
  ultimately have "m = []"
    by (auto simp: calculate_distance_matrix_def calculate_geodesic_matrix_def calculate_osrm_matrix_def calculate_osrm_sequential_def
        calculate_osrm_parallel_def matrix_of_def Let_def split: if_splits)
  with g show ?thesis by blast
qed

text \<open>
  C20: for places at distinct points (rounded to six decimals) the key ignores their order: after a request that missed the cache
  has had its matrix calculated and stored, a request for the same places in another order gets, within the time to live, that
  matrix, whose rows and columns are in the order of the first request.
\<close>

theorem permuted_places_share_the_matrix:
  assumes "dc_get_distance_matrix net now later ms ps pref st = (Inr (m, info), st1)" "\<not> mm_hit info"
    and "mset qs = mset ps" "rmap_list normalized_place ps = Inr ns" "distinct (map point_of ns)" "now' \<le> later + dc_ttl st"
  shows "\<exists>info' st2. dc_get_distance_matrix net' now' later' ms' qs pref' st1 = (Inr (m, info'), st2) \<and> mm_hit info'"
  using assms(1)
proof (cases rule: get_matrix_cases)
  case (computed k source st2)
  from saved_entry [of later k m source "length ps" st2] obtain c where c: "map_of (dc_cache st1) k = Some c" "cm_matrix c = m"
    "cm_time c = later" "cm_ttl c = dc_ttl st" unfolding computed(4,5) by blast
  have "generate_places_hash qs = Inr k" using key_perm [OF assms(4,5,3)] computed(1) by simp
  moreover have "\<not> cm_expired now' c" using c(3,4) assms(6) by (simp add: cm_expired_def)
  ultimately show ?thesis using c(1,2) by (simp add: dc_get_distance_matrix_def get_from_cache_def)
qed (use assms(2) in simp)

theorem permuted_places_share_the_matrix_witness:
  "\<exists>m st1 info st2.
     snd (dc_get_distance_matrix \<lparr>nt_geodesic = \<lambda>p q. Inr \<bar>fst p - fst q\<bar>, nt_osrm = None, nt_parallel = False\<rparr> 0 0 1
       (map (\<lambda>x. [(''lat'', VInt x), (''lon'', VInt 0)]) [0, 1, 3]) ''geodesic'' (new_distance_cache 60)) = st1 \<and>
     dc_get_distance_matrix \<lparr>nt_geodesic = \<lambda>p q. Inr \<bar>fst p - fst q\<bar>, nt_osrm = None, nt_parallel = False\<rparr> 30 30 1
       (map (\<lambda>x. [(''lat'', VInt x), (''lon'', VInt 0)]) [3, 1, 0]) ''geodesic'' st1 = (Inr (m, info), st2) \<and>
     m ! 0 ! 1 = 1"
proof -
  let ?net = "\<lparr>nt_geodesic = \<lambda>p q. Inr \<bar>fst p - fst q\<bar>, nt_osrm = None, nt_parallel = False\<rparr> :: distance_net"
  define ps :: "pydict list" where "ps = map (\<lambda>x. [(''lat'', VInt x), (''lon'', VInt 0)]) [0, 1, 3]"
  define qs :: "pydict list" where "qs = map (\<lambda>x. [(''lat'', VInt x), (''lon'', VInt 0)]) [3, 1, 0]"
  have n: "rmap_list normalized_place ps = Inr [(VInt 0, VInt 0, VStr []), (VInt 1, VInt 0, VStr []), (VInt 3, VInt 0, VStr [])]"
    by (simp add: ps_def normalized_place_def rounded_coordinate_def dindex_def)
  have c: "calculate_distance_matrix ?net ps ''geodesic'' = Inr ([[0, 1, 3], [1, 0, 2], [3, 2, 0]], ''geodesic'')"
    by (simp add: ps_def calculate_distance_matrix_def choose_source_def calculate_geodesic_matrix_def matrix_of_def geodesic_between_def
        poi_coord_def pnum_def dindex_def)
  obtain k where k: "generate_places_hash ps = Inr k" using n by (simp add: generate_places_hash_def)
  obtain info st1 where g: "dc_get_distance_matrix ?net 0 0 1 ps ''geodesic'' (new_distance_cache 60) =
    (Inr ([[0, 1, 3], [1, 0, 2], [3, 2, 0]], info), st1)" "\<not> mm_hit info"
    by (simp add: dc_get_distance_matrix_def k c get_from_cache_def new_distance_cache_def Let_def)
  have m: "mset qs = mset ps" by (simp add: ps_def qs_def)
  from permuted_places_share_the_matrix [OF g m n, of 30 ?net 30 1 "''geodesic''"] obtain info' st2 where
    h: "dc_get_distance_matrix ?net 30 30 1 qs ''geodesic'' st1 = (Inr ([[0, 1, 3], [1, 0, 2], [3, 2, 0]], info'), st2)"
    by (auto simp: point_of_def new_distance_cache_def)
  have "snd (dc_get_distance_matrix ?net 0 0 1 ps ''geodesic'' (new_distance_cache 60)) = st1" using g(1) by (simp only: snd_conv)
  with h show ?thesis unfolding ps_def qs_def
    by (intro exI [of _ "[[0, 1, 3], [1, 0, 2], [3, 2, 0]]"] exI [of _ st1] exI [of _ info'] exI [of _ st2] conjI) (simp_all only: nth_Cons_0 nth_Cons_Suc One_nat_def)
qed

text \<open>
  every calculated matrix is square over the places with zeros on its diagonal, and none of its
  distances is negative when the geodesic ones are not.
\<close>

theorem distance_matrix_well_formed:
  assumes "calculate_distance_matrix net places pref = Inr (m, source)" "\<forall>p q d. nt_geodesic net p q = Inr d \<longrightarrow> 0 \<le> d"
  shows "length m = length places \<and> (\<forall>i < length places. length (m ! i) = length places \<and> m ! i ! i = 0 \<and> (\<forall>j < length places. 0 \<le> m ! i ! j))"
proof -
  have geo: "geodesic_between net p q = Inr d \<Longrightarrow> 0 \<le> d" for p q d
    using assms(2) by (auto simp: geodesic_between_def rbind_eq_Inr_iff)
  have osrm: "osrm_or_geodesic net p q = Inr d \<Longrightarrow> 0 \<le> d" for p q d
  proof (cases "get_osrm_distance net p q")
    case (Inr x)
    assume "osrm_or_geodesic net p q = Inr d"
    with Inr have "d = x" by (simp add: osrm_or_geodesic_def)
    moreover have "0 < x" using Inr by (auto simp: get_osrm_distance_def rbind_eq_Inr_iff split: option.splits if_splits)
    ultimately show ?thesis by simp
  qed (simp add: osrm_or_geodesic_def geo)
  have "\<exists>cell. matrix_of cell places = Inr m \<and> (\<forall>i p d. cell (i, p) (i, p) = Inr d \<longrightarrow> d = 0) \<and> (\<forall>i p j q d. cell (i, p) (j, q) = Inr d \<longrightarrow> 0 \<le> d)"
  proof -
    have "calculate_geodesic_matrix net places = Inr m \<or> calculate_osrm_sequential net places = Inr m \<or> calculate_osrm_parallel net places = Inr m"
      using assms(1) by (auto simp: calculate_distance_matrix_def calculate_osrm_matrix_def rbind_eq_Inr_iff Let_def split: sum.splits if_splits)
    then show ?thesis
    proof (elim disjE)
      assume a: "calculate_geodesic_matrix net places = Inr m"
      show ?thesis by (intro exI conjI, rule a [unfolded calculate_geodesic_matrix_def]) (auto simp: geo)
    next
      assume a: "calculate_osrm_sequential net places = Inr m"
      show ?thesis by (intro exI conjI, rule a [unfolded calculate_osrm_sequential_def]) (auto simp: osrm)
    next
      assume a: "calculate_osrm_parallel net places = Inr m"
      show ?thesis by (intro exI conjI, rule a [unfolded calculate_osrm_parallel_def]) (auto simp: osrm split: sum.splits)
    qed
  qed
  then obtain cell where c: "matrix_of cell places = Inr m"
    and z: "\<forall>i p d. cell (i, p) (i, p) = Inr d \<longrightarrow> d = 0" and n: "\<forall>i p j q d. cell (i, p) (j, q) = Inr d \<longrightarrow> 0 \<le> d"
    by (elim exE conjE) (rule that)
  note m = matrix_of_nth [OF c]
  have e: "cell (i, places ! i) (j, places ! j) = Inr (m ! i ! j)" if "i < length places" "j < length places" for i j
    using m that by simp
  show ?thesis using m z [rule_format, OF e] n [rule_format, OF e] by simp
qed

theorem distance_matrix_well_formed_witness:
  "\<exists>m source. calculate_distance_matrix \<lparr>nt_geodesic = \<lambda>p q. Inr 1, nt_osrm = None, nt_parallel = False\<rparr>
     (replicate 2 [(''lat'', VInt 0), (''lon'', VInt 0)]) ''auto'' = Inr (m, source) \<and> m ! 0 ! 0 = 0"
proof -
  let ?net = "\<lparr>nt_geodesic = \<lambda>p q. Inr 1, nt_osrm = None, nt_parallel = False\<rparr> :: distance_net"
  let ?ps = "replicate 2 [(''lat'', VInt 0), (''lon'', VInt 0)]"
  have c: "calculate_distance_matrix ?net ?ps ''auto'' = Inr ([[0, 1], [1, 0]], ''geodesic'')"
    by (simp add: calculate_distance_matrix_def choose_source_def calculate_geodesic_matrix_def matrix_of_def geodesic_between_def poi_coord_def
        pnum_def dindex_def numeral_2_eq_2)
  from distance_matrix_well_formed [OF c] c show ?thesis by auto
qed

text \<open>
  the service behind OSRM has no \<open>get_distance_km\<close>, so every call of it raises: the matrix asked from
  OSRM, pair by pair, is the geodesic one under the name osrm.
\<close>

theorem osrm_matrix_is_geodesic:
  assumes "nt_osrm net = Some (\<lambda>p q. Inl AttributeError)" "length places \<le> 10 \<or> \<not> nt_parallel net"
  shows "calculate_distance_matrix net places ''osrm'' = rbind (calculate_geodesic_matrix net places) (\<lambda>m. Inr (m, ''osrm''))"
proof -
  have "osrm_or_geodesic net p q = geodesic_between net p q" for p q
  proof -
    have "\<exists>e. get_osrm_distance net p q = Inl e" by (cases "poi_coord p"; cases "poi_coord q") (simp_all add: get_osrm_distance_def assms(1))
    then show ?thesis by (auto simp: osrm_or_geodesic_def)
  qed
  then have "osrm_or_geodesic net = geodesic_between net" by (intro ext)
  then have "calculate_osrm_sequential net places = calculate_geodesic_matrix net places"
    unfolding calculate_osrm_sequential_def calculate_geodesic_matrix_def by (simp only:)
  moreover have "calculate_osrm_matrix net places = calculate_osrm_sequential net places"
    using assms by (auto simp: calculate_osrm_matrix_def)
  ultimately show ?thesis using assms(1)
    by (cases "calculate_geodesic_matrix net places") (simp_all add: calculate_distance_matrix_def choose_source_def Let_def)
qed

theorem osrm_matrix_is_geodesic_witness:
  "calculate_distance_matrix \<lparr>nt_geodesic = \<lambda>p q. Inr 1, nt_osrm = Some (\<lambda>p q. Inl AttributeError), nt_parallel = True\<rparr> [] ''osrm'' = Inr ([], ''osrm'')"
  by (subst osrm_matrix_is_geodesic) (simp_all add: calculate_geodesic_matrix_def matrix_of_def)

end
