(* ===== verification/Monitoring.thy ===== *)
theory Monitoring
  imports PyVal
begin

section \<open>Monitoring of the optimisations\<close>

text \<open>
  src/services/ortools\_monitoring.py: a sliding list of metrics, the counts of the current window, alerts
  and reports.  Times are seconds; each reading of the clock is an argument, and so are the names of the hour and
  of the day of a time.  An exception leaves the state as far as it was changed.
\<close>

subsection \<open>Metrics and windows\<close>

datatype optimization_status = OptSuccess | OptFailure | OptTimeout | OptError

record metric =
  mt_time :: real
  mt_method :: string
  mt_places :: int
  mt_days :: int
  mt_ms :: int
  mt_status :: optimization_status
  mt_city :: pyval
  mt_user :: pyval
  mt_message :: pyval
  mt_distances :: pyval
  mt_constraints :: pyval
  mt_vehicle :: pyval
  mt_windows :: pyval

record perf_window =
  pw_start :: real
  pw_end :: real
  pw_total :: nat
  pw_success :: nat
  pw_failure :: nat
  pw_timeout :: nat
  pw_error :: nat
  pw_avg :: real
  pw_median :: real
  pw_p95 :: real
  pw_ortools :: nat
  pw_legacy :: nat
  pw_ortools_rate :: real
  pw_legacy_rate :: real

record alert =
  al_type :: string
  al_time :: real
  al_severity :: string
  al_data :: pydict
  al_active :: bool
  al_resolved :: "real option"

text \<open>
  An active alert is the object in the history: the map holds its position there.  The windows of the hours
  are never read; the map keeps each as it was stored.
\<close>

record monitor =
  mo_window_size :: real
  mo_max_metrics :: nat
  mo_metrics :: "metric list"
  mo_window :: perf_window
  mo_hourly :: "(string, perf_window) dict"
  mo_daily :: "(string, perf_window) dict"
  mo_active :: "(string, nat) dict"
  mo_history :: "alert list"

definition new_window :: "real \<Rightarrow> real \<Rightarrow> perf_window" where
  "new_window now size1 =
     \<lparr>pw_start = now, pw_end = now + size1, pw_total = 0, pw_success = 0, pw_failure = 0, pw_timeout = 0, pw_error = 0, pw_avg = 0,
      pw_median = 0, pw_p95 = 0, pw_ortools = 0, pw_legacy = 0, pw_ortools_rate = 0, pw_legacy_rate = 0\<rparr>"

definition new_monitor :: "real \<Rightarrow> nat \<Rightarrow> real \<Rightarrow> monitor" where
  "new_monitor minutes max_metrics now =
     \<lparr>mo_window_size = minutes * 60, mo_max_metrics = max_metrics, mo_metrics = [], mo_window = new_window now (minutes * 60),
      mo_hourly = [], mo_daily = [], mo_active = [], mo_history = []\<rparr>"

text \<open>\<open>deque(maxlen = n).append\<close>.\<close>

definition push_bounded :: "nat \<Rightarrow> 'a \<Rightarrow> 'a list \<Rightarrow> 'a list" where
  "push_bounded n x xs = drop (length xs + 1 - n) (xs @ [x])"

definition update_current_window :: "metric \<Rightarrow> perf_window \<Rightarrow> perf_window" where
  "update_current_window m w =
     (let w1 = w\<lparr>pw_total := pw_total w + 1\<rparr>;
          w2 = (case mt_status m of
                  OptSuccess \<Rightarrow> w1\<lparr>pw_success := pw_success w1 + 1\<rparr>
                | OptFailure \<Rightarrow> w1\<lparr>pw_failure := pw_failure w1 + 1\<rparr>
                | OptTimeout \<Rightarrow> w1\<lparr>pw_timeout := pw_timeout w1 + 1\<rparr>
                | OptError \<Rightarrow> w1\<lparr>pw_error := pw_error w1 + 1\<rparr>)
      in if mt_method m = ''ortools'' then w2\<lparr>pw_ortools := pw_ortools w2 + 1\<rparr> else w2\<lparr>pw_legacy := pw_legacy w2 + 1\<rparr>)"

subsection \<open>Statistics\<close>

definition mean_of :: "real list \<Rightarrow> real" where
  "mean_of xs = sum_list xs / real (length xs)"

definition median_of :: "real list \<Rightarrow> real" where
  "median_of xs =
     (let s = sort xs; n = length xs
      in if odd n then s ! (n div 2) else (s ! (n div 2 - 1) + s ! (n div 2)) / 2)"

definition calculate_percentile :: "real list \<Rightarrow> real \<Rightarrow> real" where
  "calculate_percentile values1 p =
     (if values1 = [] then 0
      else
        let n = length values1; i = nat (py_trunc (real n * p))
        in sort values1 ! (if n \<le> i then n - 1 else i))"

definition times_of :: "metric list \<Rightarrow> real list" where
  "times_of ms = map (\<lambda>m. real_of_int (mt_ms m)) ms"

definition by_method :: "string \<Rightarrow> metric list \<Rightarrow> metric list" where
  "by_method k ms = filter (\<lambda>m. mt_method m = k) ms"

definition with_status :: "optimization_status \<Rightarrow> metric list \<Rightarrow> nat" where
  "with_status s ms = length (filter (\<lambda>m. mt_status m = s) ms)"

definition success_rate :: "metric list \<Rightarrow> real" where
  "success_rate ms = (if ms = [] then 0 else real (with_status OptSuccess ms) / real (length ms))"

subsection \<open>Rotation of the window\<close>

definition metrics_in :: "perf_window \<Rightarrow> metric list \<Rightarrow> metric list" where
  "metrics_in w ms = filter (\<lambda>m. pw_start w \<le> mt_time m \<and> mt_time m < pw_end w) ms"

definition closed_window :: "metric list \<Rightarrow> perf_window \<Rightarrow> perf_window" where
  "closed_window ms w =
     (let w1 = w\<lparr>pw_avg := mean_of (times_of ms), pw_median := median_of (times_of ms), pw_p95 := calculate_percentile (times_of ms) 0.95\<rparr>;
          w2 = (if by_method ''ortools'' ms \<noteq> [] then w1\<lparr>pw_ortools_rate := success_rate (by_method ''ortools'' ms)\<rparr> else w1)
      in if by_method ''legacy'' ms \<noteq> [] then w2\<lparr>pw_legacy_rate := success_rate (by_method ''legacy'' ms)\<rparr> else w2)"

text \<open>The class has no \<open>_create_daily_aggregate\<close>: the first window of a day raises.\<close>

definition finalize_window :: "(real \<Rightarrow> string) \<Rightarrow> (real \<Rightarrow> string) \<Rightarrow> monitor \<Rightarrow> unit res \<times> monitor" where
  "finalize_window hour_key day_key st =
     (let ms = metrics_in (mo_window st) (mo_metrics st)
      in if ms = [] then (Inr (), st)
         else
           let w = closed_window ms (mo_window st);
               st1 = st\<lparr>mo_window := w, mo_hourly := dset (hour_key (pw_start w)) w (mo_hourly st)\<rparr>
           in if day_key (pw_start w) \<notin> set (keys (mo_daily st)) then (Inl AttributeError, st1) else (Inr (), st1))"

definition check_window_rotation :: "(real \<Rightarrow> string) \<Rightarrow> (real \<Rightarrow> string) \<Rightarrow> real \<Rightarrow> real \<Rightarrow> monitor \<Rightarrow> unit res \<times> monitor" where
  "check_window_rotation hour_key day_key now fresh st =
     (if pw_end (mo_window st) \<le> now
      then
        (case finalize_window hour_key day_key st of
           (Inl e, st1) \<Rightarrow> (Inl e, st1)
         | (Inr u, st1) \<Rightarrow> (Inr (), st1\<lparr>mo_window := new_window fresh (mo_window_size st1)\<rparr>))
      else (Inr (), st))"

subsection \<open>Alerts\<close>

definition success_rate_alert :: "perf_window \<Rightarrow> (string \<times> pydict) option" where
  "success_rate_alert w =
     (let rate = real (pw_success w) / real (pw_total w)
      in if rate < 0.95
         then
           let severity = (if rate < 0.8 then ''HIGH'' else ''MEDIUM'')
           in Some (severity,
              [(''current_rate'', VFloat rate), (''threshold'', VFloat 0.95), (''failures'', VInt (int (pw_failure w))),
               (''total'', VInt (int (pw_total w))), (''severity'', VStr severity)])
         else None)"

definition time_alert :: "real \<Rightarrow> int \<Rightarrow> string \<Rightarrow> (string \<times> pydict) option" where
  "time_alert x threshold severity =
     (if real_of_int threshold < x
      then Some (severity, [(''current_time'', VFloat x), (''threshold'', VInt threshold), (''severity'', VStr severity)]) else None)"

definition error_rate_alert :: "perf_window \<Rightarrow> (string \<times> pydict) option" where
  "error_rate_alert w =
     (let rate = real (pw_error w + pw_timeout w) / real (pw_total w)
      in if 0.05 < rate
         then Some (''HIGH'',
           [(''current_rate'', VFloat rate), (''threshold'', VFloat 0.05), (''errors'', VInt (int (pw_error w))),
            (''timeouts'', VInt (int (pw_timeout w))), (''total'', VInt (int (pw_total w))), (''severity'', VStr ''HIGH'')])
         else None)"

definition trigger_alert :: "real \<Rightarrow> string \<Rightarrow> string \<times> pydict \<Rightarrow> monitor \<Rightarrow> monitor" where
  "trigger_alert now k d st =
     st\<lparr>mo_active := dset k (length (mo_history st)) (mo_active st),
        mo_history := mo_history st @ [\<lparr>al_type = k, al_time = now, al_severity = fst d, al_data = snd d, al_active = True, al_resolved = None\<rparr>]\<rparr>"

definition clear_alert :: "real \<Rightarrow> string \<Rightarrow> monitor \<Rightarrow> monitor" where
  "clear_alert now k st =
     (case map_of (mo_active st) k of
        None \<Rightarrow> st
      | Some i \<Rightarrow>
          st\<lparr>mo_active := ddel k (mo_active st),
             mo_history := (mo_history st)[i := (mo_history st ! i)\<lparr>al_active := False, al_resolved := Some now\<rparr>]\<rparr>)"

definition set_alert :: "real \<Rightarrow> string \<Rightarrow> (string \<times> pydict) option \<Rightarrow> monitor \<Rightarrow> monitor" where
  "set_alert now k d st = (case d of Some x \<Rightarrow> trigger_alert now k x st | None \<Rightarrow> clear_alert now k st)"

definition check_alerts :: "real \<Rightarrow> monitor \<Rightarrow> monitor" where
  "check_alerts now st =
     (let w = mo_window st
      in if pw_total w < 5 then st
         else
           set_alert now ''error_rate'' (error_rate_alert w)
            (set_alert now ''p95_execution_time'' (time_alert (pw_p95 w) 10000 ''HIGH'')
              (set_alert now ''avg_execution_time'' (time_alert (pw_avg w) 5000 ''MEDIUM'')
                (set_alert now ''success_rate'' (success_rate_alert w) st))))"

subsection \<open>Recording\<close>

text \<open>The clock is read for the rotation, the new window and the alerts; the metric carries its own time.\<close>

definition record_optimization ::
  "(real \<Rightarrow> string) \<Rightarrow> (real \<Rightarrow> string) \<Rightarrow> real \<Rightarrow> real \<Rightarrow> real \<Rightarrow> metric \<Rightarrow> monitor \<Rightarrow> unit res \<times> monitor" where
  "record_optimization hour_key day_key now fresh late m st =
     (let st1 = st\<lparr>mo_metrics := push_bounded (mo_max_metrics st) m (mo_metrics st), mo_window := update_current_window m (mo_window st)\<rparr>
      in case check_window_rotation hour_key day_key now fresh st1 of
           (Inl e, st2) \<Rightarrow> (Inl e, st2)
         | (Inr u, st2) \<Rightarrow> (Inr (), check_alerts late st2))"

definition ortools_metric :: "real \<Rightarrow> int \<Rightarrow> int \<Rightarrow> int \<Rightarrow> bool \<Rightarrow> pyval \<Rightarrow> pyval \<Rightarrow> pyval \<Rightarrow> pydict \<Rightarrow> metric" where
  "ortools_metric now places days ms success city user err kwargs =
     \<lparr>mt_time = now, mt_method = ''ortools'', mt_places = places, mt_days = days, mt_ms = ms,
      mt_status = (if success then OptSuccess else OptFailure), mt_city = city, mt_user = user, mt_message = err,
      mt_distances = dget kwargs ''distance_calculations'' (VInt 0), mt_constraints = dget kwargs ''constraints_applied'' (VInt 0),
      mt_vehicle = dget kwargs ''vehicle_constraints'' (VBool False), mt_windows = dget kwargs ''time_windows'' (VBool False)\<rparr>"

definition legacy_metric :: "real \<Rightarrow> int \<Rightarrow> int \<Rightarrow> int \<Rightarrow> bool \<Rightarrow> pyval \<Rightarrow> pyval \<Rightarrow> pyval \<Rightarrow> metric" where
  "legacy_metric now places days ms success city user err =
     (ortools_metric now places days ms success city user err [])\<lparr>mt_method := ''legacy''\<rparr>"

subsection \<open>Reports\<close>

record method_report =
  mr_requests :: nat
  mr_success_rate :: real
  mr_avg_ms :: real

definition method_report_of :: "string \<Rightarrow> metric list \<Rightarrow> method_report" where
  "method_report_of k ms =
     (let xs = by_method k ms
      in \<lparr>mr_requests = length xs, mr_success_rate = success_rate xs, mr_avg_ms = (if xs = [] then 0 else mean_of (times_of xs))\<rparr>)"

record summary =
  su_total :: nat
  su_success_rate :: real
  su_failure_rate :: real
  su_timeout_rate :: real
  su_error_rate :: real
  su_avg :: real
  su_median :: real
  su_p95 :: real
  su_p99 :: real
  su_ortools :: method_report
  su_legacy :: method_report
  su_active :: "string list"
  su_alerts :: nat

definition get_performance_summary :: "real \<Rightarrow> real \<Rightarrow> monitor \<Rightarrow> summary option" where
  "get_performance_summary hours now st =
     (let cutoff = now - hours * 3600; ms = filter (\<lambda>m. cutoff \<le> mt_time m) (mo_metrics st); n = real (length ms); ts = times_of ms
      in if ms = [] then None
         else Some
           \<lparr>su_total = length ms, su_success_rate = real (with_status OptSuccess ms) / n, su_failure_rate = real (with_status OptFailure ms) / n,
            su_timeout_rate = real (with_status OptTimeout ms) / n, su_error_rate = real (with_status OptError ms) / n,
            su_avg = mean_of ts, su_median = median_of ts, su_p95 = calculate_percentile ts 0.95, su_p99 = calculate_percentile ts 0.99,
            su_ortools = method_report_of ''ortools'' ms, su_legacy = method_report_of ''legacy'' ms, su_active = keys (mo_active st),
            su_alerts = length (filter (\<lambda>a. cutoff \<le> al_time a) (mo_history st))\<rparr>)"

definition generate_recommendation :: "method_report \<Rightarrow> string" where
  "generate_recommendation r =
     (if 0.95 \<le> mr_success_rate r \<and> mr_avg_ms r \<le> 3000 then ''OR-Tools performing excellently. Continue with current configuration.''
      else if 0.9 \<le> mr_success_rate r then ''OR-Tools performing well. Monitor execution times for optimization opportunities.''
      else if 0.8 \<le> mr_success_rate r then ''OR-Tools performance degraded. Check distance cache, parallel optimizer, and OSRM service.''
      else ''CRITICAL: OR-Tools performance severely degraded. Immediate investigation required.'')"

record comparison =
  co_ortools :: method_report
  co_rate_delta :: real
  co_time_ratio :: real
  co_ortools_status :: string
  co_legacy :: method_report
  co_legacy_status :: string
  co_recommendation :: string

definition get_benchmark_comparison :: "real \<Rightarrow> monitor \<Rightarrow> comparison option" where
  "get_benchmark_comparison now st =
     (case get_performance_summary 24 now st of
        None \<Rightarrow> None
      | Some s \<Rightarrow>
          let o1 = su_ortools s; l = su_legacy s
          in Some
            \<lparr>co_ortools = o1, co_rate_delta = mr_success_rate o1 - 1, co_time_ratio = mr_avg_ms o1 / 2000,
             co_ortools_status = (if 0.95 \<le> mr_success_rate o1 \<and> mr_avg_ms o1 \<le> 3000 then ''MEETING_EXPECTATIONS'' else ''BELOW_EXPECTATIONS''),
             co_legacy = l, co_legacy_status = (if mr_success_rate l \<le> 0.1 then ''AS_EXPECTED'' else ''UNEXPECTEDLY_WORKING''),
             co_recommendation = generate_recommendation o1\<rparr>)"

subsection \<open>Lemmas\<close>

lemma length_push: "length (push_bounded n x xs) = min (Suc (length xs)) n"
  by (simp add: push_bounded_def)

lemma push_keeps: "length ys + 1 < n \<Longrightarrow> \<exists>xs'. push_bounded n x (xs @ m # ys) = xs' @ m # ys @ [x]"
  by (rule exI [of _ "drop (length (xs @ m # ys) + 1 - n) xs"]) (simp add: push_bounded_def)

lemma update_counts:
  "pw_start (update_current_window m w) = pw_start w \<and> pw_end (update_current_window m w) = pw_end w \<and>
   pw_total (update_current_window m w) = pw_total w + 1 \<and> pw_avg (update_current_window m w) = pw_avg w \<and>
   pw_p95 (update_current_window m w) = pw_p95 w \<and>
   pw_success (update_current_window m w) = pw_success w + (if mt_status m = OptSuccess then 1 else 0)"
  by (cases "mt_status m") (simp_all add: update_current_window_def Let_def)

definition counts_ok :: "perf_window \<Rightarrow> bool" where
  "counts_ok w \<longleftrightarrow> pw_total w = pw_success w + pw_failure w + pw_timeout w + pw_error w \<and> pw_total w = pw_ortools w + pw_legacy w"

lemma counts_update: "counts_ok w \<Longrightarrow> counts_ok (update_current_window m w)"
  by (cases "mt_status m") (simp_all add: update_current_window_def counts_ok_def Let_def)

lemma counts_closed: "counts_ok (closed_window ms w) = counts_ok w \<and> pw_start (closed_window ms w) = pw_start w \<and> pw_end (closed_window ms w) = pw_end w"
  by (simp add: closed_window_def counts_ok_def Let_def)

lemma counts_new: "counts_ok (new_window now s)"
  by (simp add: counts_ok_def new_window_def)

text \<open>The alerts that can be active, and those of the history.\<close>

definition rate_alerts :: "string set" where
  "rate_alerts = {''success_rate'', ''error_rate''}"

definition alerts_ok :: "monitor \<Rightarrow> bool" where
  "alerts_ok st \<longleftrightarrow> is_dict (mo_active st) \<and>
     (\<forall>(k, i) \<in> set (mo_active st). i < length (mo_history st) \<and> al_type (mo_history st ! i) = k) \<and> al_type ` set (mo_history st) \<subseteq> rate_alerts"

lemma trigger_ok:
  assumes "alerts_ok st" "k \<in> rate_alerts"
  shows "alerts_ok (trigger_alert now k d st)"
proof -
  let ?a = "dset k (length (mo_history st)) (mo_active st)"
  have "i < length (mo_history (trigger_alert now k d st)) \<and> al_type (mo_history (trigger_alert now k d st) ! i) = j" if "(j, i) \<in> set ?a" for j i
  proof (cases "(j, i) = (k, length (mo_history st))")
    case False
    with set_dset_subset [OF that] have "(j, i) \<in> set (mo_active st)" by blast
    then show ?thesis using assms(1) by (auto simp: alerts_ok_def trigger_alert_def nth_append)
  qed (simp add: trigger_alert_def)
  moreover have "is_dict ?a" using assms(1) by (simp add: alerts_ok_def)
  ultimately show ?thesis using assms unfolding alerts_ok_def by (auto simp: trigger_alert_def)
qed

lemma clear_ok:
  assumes "alerts_ok st"
  shows "alerts_ok (clear_alert now k st)"
proof (cases "map_of (mo_active st) k")
  case (Some i)
  then have m: "(k, i) \<in> set (mo_active st)" by (rule map_of_SomeD)
  then have i: "i < length (mo_history st)" using assms by (auto simp: alerts_ok_def)
  let ?x = "(mo_history st ! i)\<lparr>al_active := False, al_resolved := Some now\<rparr>"
  have t: "al_type ((mo_history st)[i := ?x] ! j) = al_type (mo_history st ! j)" if "j < length (mo_history st)" for j
    using that by (cases "i = j") simp_all
  have "al_type ` set ((mo_history st)[i := ?x]) \<subseteq> al_type ` set (mo_history st)"
    using t by (auto simp: in_set_conv_nth) (metis length_list_update nth_mem image_eqI)
  also have "\<dots> \<subseteq> rate_alerts" using assms by (simp add: alerts_ok_def)
  finally have s: "al_type ` set ((mo_history st)[i := ?x]) \<subseteq> rate_alerts" .
  have c: "mo_history (clear_alert now k st) = (mo_history st)[i := ?x]" "mo_active (clear_alert now k st) = ddel k (mo_active st)"
    by (simp_all add: clear_alert_def Some)
  have "b < length ((mo_history st)[i := ?x]) \<and> al_type ((mo_history st)[i := ?x] ! b) = a" if "(a, b) \<in> set (ddel k (mo_active st))" for a b
  proof -
    from that have "(a, b) \<in> set (mo_active st)" by (simp add: AList.delete_eq)
    then have b: "b < length (mo_history st) \<and> al_type (mo_history st ! b) = a" using assms by (auto simp: alerts_ok_def)
    show ?thesis using b t [OF conjunct1 [OF b]] by (simp only: length_list_update)
  qed
  then show ?thesis using s assms unfolding alerts_ok_def c by (simp only: split_paired_all) auto
qed (simp add: clear_alert_def assms)

lemma set_alert_ok: "alerts_ok st \<Longrightarrow> d = None \<or> k \<in> rate_alerts \<Longrightarrow> alerts_ok (set_alert now k d st)"
  by (cases d) (simp_all add: set_alert_def trigger_ok clear_ok)

lemma set_alert_keeps:
  "mo_window (set_alert now k d st) = mo_window st \<and> mo_metrics (set_alert now k d st) = mo_metrics st \<and> mo_daily (set_alert now k d st) = mo_daily st \<and>
   mo_max_metrics (set_alert now k d st) = mo_max_metrics st"
  by (cases d) (simp_all add: set_alert_def trigger_alert_def clear_alert_def split: option.splits)

lemma check_alerts_keeps:
  "mo_window (check_alerts now st) = mo_window st \<and> mo_metrics (check_alerts now st) = mo_metrics st \<and> mo_daily (check_alerts now st) = mo_daily st \<and>
   mo_max_metrics (check_alerts now st) = mo_max_metrics st"
  by (simp add: check_alerts_def set_alert_keeps Let_def)

lemma check_alerts_ok:
  assumes "alerts_ok st" "pw_avg (mo_window st) = 0" "pw_p95 (mo_window st) = 0"
  shows "alerts_ok (check_alerts now st)"
proof -
  have "time_alert (pw_avg (mo_window st)) 5000 s = None" "time_alert (pw_p95 (mo_window st)) 10000 s = None" for s
    by (simp_all add: time_alert_def assms)
  then show ?thesis using assms(1)
    by (auto simp: check_alerts_def Let_def rate_alerts_def intro!: set_alert_ok)
qed

text \<open>The states of a monitor with a clock that does not go back; \<open>t\<close> is its last reading.\<close>

inductive monitor_reaches :: "(real \<Rightarrow> string) \<Rightarrow> (real \<Rightarrow> string) \<Rightarrow> nat \<Rightarrow> real \<Rightarrow> monitor \<Rightarrow> bool" for hk dk n where
  monitor_new: "monitor_reaches hk dk n now (new_monitor minutes n now)"
| monitor_record:
    "monitor_reaches hk dk n t st \<Longrightarrow> t \<le> now \<Longrightarrow> now \<le> fresh \<Longrightarrow> fresh \<le> late \<Longrightarrow>
     monitor_reaches hk dk n late (snd (record_optimization hk dk now fresh late m st))"

definition monitor_ok :: "nat \<Rightarrow> real \<Rightarrow> monitor \<Rightarrow> bool" where
  "monitor_ok n t st \<longleftrightarrow> mo_daily st = [] \<and> mo_max_metrics st = n \<and> length (mo_metrics st) \<le> n \<and> counts_ok (mo_window st) \<and> alerts_ok st \<and>
     (pw_avg (mo_window st) = 0 \<and> pw_p95 (mo_window st) = 0 \<or> pw_end (mo_window st) \<le> t)"

lemma finalize_cases:
  assumes "mo_daily st = []"
  shows "finalize_window hk dk st = (if metrics_in (mo_window st) (mo_metrics st) = [] then (Inr (), st)
    else (Inl AttributeError, st\<lparr>mo_window := closed_window (metrics_in (mo_window st) (mo_metrics st)) (mo_window st),
      mo_hourly := dset (hk (pw_start (mo_window st))) (closed_window (metrics_in (mo_window st) (mo_metrics st)) (mo_window st)) (mo_hourly st)\<rparr>))"
  using assms counts_closed by (simp add: finalize_window_def Let_def)

lemma record_ok:
  assumes "monitor_ok n t st" "t \<le> now" "now \<le> fresh" "fresh \<le> late"
  shows "monitor_ok n late (snd (record_optimization hk dk now fresh late m st))"
proof -
  let ?st1 = "st\<lparr>mo_metrics := push_bounded (mo_max_metrics st) m (mo_metrics st), mo_window := update_current_window m (mo_window st)\<rparr>"
  have d: "mo_daily ?st1 = []" using assms(1) by (simp add: monitor_ok_def)
  have l: "length (mo_metrics ?st1) \<le> n" using assms(1) by (simp add: monitor_ok_def length_push)
  have c: "counts_ok (mo_window ?st1)" using assms(1) by (simp add: monitor_ok_def counts_update)
  have a: "alerts_ok ?st1" using assms(1) by (simp add: monitor_ok_def alerts_ok_def)
  have e: "pw_end (mo_window ?st1) = pw_end (mo_window st)" "pw_avg (mo_window ?st1) = pw_avg (mo_window st)"
    "pw_p95 (mo_window ?st1) = pw_p95 (mo_window st)" by (simp_all add: update_counts)
  consider (going) "now < pw_end (mo_window st)"
    | (empty) "pw_end (mo_window st) \<le> now" "metrics_in (mo_window ?st1) (mo_metrics ?st1) = []"
    | (stuck) "pw_end (mo_window st) \<le> now" "metrics_in (mo_window ?st1) (mo_metrics ?st1) \<noteq> []" by fastforce
  then show ?thesis
  proof cases
    case going
    then have r: "snd (record_optimization hk dk now fresh late m st) = check_alerts late ?st1"
      using e(1) by (simp add: record_optimization_def check_window_rotation_def Let_def)
    have z: "pw_avg (mo_window ?st1) = 0" "pw_p95 (mo_window ?st1) = 0" using assms(1,2) going e by (auto simp: monitor_ok_def)
    show ?thesis unfolding r monitor_ok_def
      using check_alerts_keeps [of late ?st1] check_alerts_ok [OF a z] d l c z assms(1) by (auto simp: monitor_ok_def)
  next
    case empty
    let ?st2 = "?st1\<lparr>mo_window := new_window fresh (mo_window_size ?st1)\<rparr>"
    have r: "snd (record_optimization hk dk now fresh late m st) = check_alerts late ?st2"
      using empty e(1) finalize_cases [OF d, of hk dk] by (simp add: record_optimization_def check_window_rotation_def Let_def)
    have z: "pw_avg (mo_window ?st2) = 0" "pw_p95 (mo_window ?st2) = 0" by (simp_all add: new_window_def)
    have a2: "alerts_ok ?st2" using a by (simp add: alerts_ok_def)
    show ?thesis unfolding r monitor_ok_def
      using check_alerts_keeps [of late ?st2] check_alerts_ok [OF a2 z] d l counts_new z assms(1) by (auto simp: monitor_ok_def)
  next
    case stuck
    let ?w = "closed_window (metrics_in (mo_window ?st1) (mo_metrics ?st1)) (mo_window ?st1)"
    have r: "snd (record_optimization hk dk now fresh late m st) = ?st1\<lparr>mo_window := ?w, mo_hourly := dset (hk (pw_start (mo_window ?st1))) ?w (mo_hourly ?st1)\<rparr>"
      using stuck e(1) finalize_cases [OF d, of hk dk] by (simp add: record_optimization_def check_window_rotation_def Let_def)
    have "pw_end ?w \<le> late" using counts_closed e(1) stuck(1) assms(3,4) by simp
    then show ?thesis unfolding r using d l c a counts_closed assms(1) by (simp add: monitor_ok_def alerts_ok_def)
  qed
qed

lemma monitor_invariant: "monitor_reaches hk dk n t st \<Longrightarrow> monitor_ok n t st"
proof (induction rule: monitor_reaches.induct)
  case (monitor_new now minutes)
  then show ?case by (simp add: monitor_ok_def new_monitor_def counts_new alerts_ok_def) (simp add: new_window_def)
qed (simp add: record_ok)

subsection \<open>Properties\<close>

text \<open>
  in every state a monitor reaches with a clock that does not go back, the current window counts each
  execution once by its result and once by its method, and at most the given number of metrics is held.
\<close>

theorem monitor_counts_are_consistent:
  "monitor_reaches hk dk n t st \<Longrightarrow>
   pw_total (mo_window st) = pw_success (mo_window st) + pw_failure (mo_window st) + pw_timeout (mo_window st) + pw_error (mo_window st) \<and>
   pw_total (mo_window st) = pw_ortools (mo_window st) + pw_legacy (mo_window st) \<and> length (mo_metrics st) \<le> n"
  by (drule monitor_invariant) (simp add: monitor_ok_def counts_ok_def)

theorem monitor_counts_are_consistent_witness:
  "length (mo_metrics (new_monitor 10 100 0)) \<le> 100"
  by (rule monitor_counts_are_consistent [OF monitor_new [of "\<lambda>x. []" "\<lambda>x. []" 100 0 10], THEN conjunct2, THEN conjunct2])

text \<open>
  no alert on the mean or on the 95th percentile of the time is ever raised: the times of a window are
  calculated when it is closed, and by then its alerts are no longer checked.
\<close>

theorem time_alerts_never_fire:
  "monitor_reaches hk dk n t st \<Longrightarrow>
   (\<forall>a \<in> set (mo_history st). al_type a = ''success_rate'' \<or> al_type a = ''error_rate'') \<and>
   (\<forall>k \<in> set (keys (mo_active st)). k = ''success_rate'' \<or> k = ''error_rate'')"
proof -
  assume "monitor_reaches hk dk n t st"
  then have a: "alerts_ok st" using monitor_invariant by (simp add: monitor_ok_def)
  then have h: "al_type ` set (mo_history st) \<subseteq> rate_alerts" by (simp add: alerts_ok_def)
  have "k \<in> rate_alerts" if "k \<in> set (keys (mo_active st))" for k
  proof -
    from that obtain i where "(k, i) \<in> set (mo_active st)" by auto
    then have "i < length (mo_history st) \<and> al_type (mo_history st ! i) = k" using a by (auto simp: alerts_ok_def)
    then show ?thesis using h nth_mem by (metis image_subset_iff)
  qed
  with h show ?thesis by (auto simp: rate_alerts_def)
qed

definition slow_metric :: metric where
  "slow_metric = ortools_metric 1 5 2 60000 True (VStr ''Santiago'') VNone VNone []"

theorem time_alerts_never_fire_witness:
  "\<forall>a \<in> set (mo_history (snd (record_optimization (\<lambda>x. []) (\<lambda>x. []) 1 1 1 slow_metric (new_monitor 10 100 0)))). al_type a = ''success_rate'' \<or> al_type a = ''error_rate''"
  by (rule time_alerts_never_fire [of "\<lambda>x. []" "\<lambda>x. []" 100 1, THEN conjunct1]) (rule monitor_record [OF monitor_new], simp_all)

text \<open>Records one after another, each with its readings of the clock.\<close>

primrec record_all :: "(real \<Rightarrow> string) \<Rightarrow> (real \<Rightarrow> string) \<Rightarrow> (real \<times> real \<times> real \<times> metric) list \<Rightarrow> monitor \<Rightarrow> unit res list \<times> monitor" where
  "record_all hour_key day_key [] st = ([], st)"
| "record_all hour_key day_key (r # rs) st =
     (let a = record_optimization hour_key day_key (fst r) (fst (snd r)) (fst (snd (snd r))) (snd (snd (snd r))) st;
          b = record_all hour_key day_key rs (snd a)
      in (fst a # fst b, snd b))"

definition stuck_on :: "metric \<Rightarrow> monitor \<Rightarrow> bool" where
  "stuck_on m st \<longleftrightarrow> mo_daily st = [] \<and> pw_start (mo_window st) \<le> mt_time m \<and> mt_time m < pw_end (mo_window st)"

lemma stuck_record:
  assumes "stuck_on m st" "mo_metrics st = xs @ m # ys" "length ys + 1 < mo_max_metrics st" "pw_end (mo_window st) \<le> now"
  shows "fst (record_optimization hk dk now fresh late x st) = Inl AttributeError \<and>
    (let st2 = snd (record_optimization hk dk now fresh late x st)
     in stuck_on m st2 \<and> (\<exists>xs'. mo_metrics st2 = xs' @ m # ys @ [x]) \<and> mo_max_metrics st2 = mo_max_metrics st \<and> pw_end (mo_window st2) = pw_end (mo_window st) \<and>
        mo_active st2 = mo_active st \<and> mo_history st2 = mo_history st)"
proof -
  let ?st1 = "st\<lparr>mo_metrics := push_bounded (mo_max_metrics st) x (mo_metrics st), mo_window := update_current_window x (mo_window st)\<rparr>"
  obtain xs' where p: "mo_metrics ?st1 = xs' @ m # ys @ [x]" using push_keeps [OF assms(3), of x xs m] assms(2) by auto
  have d: "mo_daily ?st1 = []" using assms(1) by (simp add: stuck_on_def)
  have w: "pw_start (mo_window ?st1) = pw_start (mo_window st)" "pw_end (mo_window ?st1) = pw_end (mo_window st)" by (simp_all add: update_counts)
  let ?ms = "metrics_in (mo_window ?st1) (mo_metrics ?st1)"
  have "m \<in> set ?ms" unfolding metrics_in_def p using assms(1) w by (simp add: stuck_on_def)
  then have ne: "?ms \<noteq> []" by force
  let ?w = "closed_window ?ms (mo_window ?st1)"
  have r: "record_optimization hk dk now fresh late x st = (Inl AttributeError, ?st1\<lparr>mo_window := ?w, mo_hourly := dset (hk (pw_start (mo_window ?st1))) ?w (mo_hourly ?st1)\<rparr>)"
    using ne assms(4) w(2) finalize_cases [OF d, of hk dk] by (simp add: record_optimization_def check_window_rotation_def Let_def)
  show ?thesis unfolding r Let_def using p w counts_closed assms(1) by (simp add: stuck_on_def)
qed

lemma stuck_records:
  assumes "stuck_on m st" "mo_metrics st = xs @ m # ys" "length ys + length rs < mo_max_metrics st" "\<forall>r \<in> set rs. pw_end (mo_window st) \<le> fst r"
  shows "(\<forall>y \<in> set (fst (record_all hk dk rs st)). y = Inl AttributeError) \<and> mo_active (snd (record_all hk dk rs st)) = mo_active st \<and>
    mo_history (snd (record_all hk dk rs st)) = mo_history st \<and> pw_end (mo_window (snd (record_all hk dk rs st))) = pw_end (mo_window st)"
  using assms
proof (induction rs arbitrary: st xs ys)
  case (Cons r rs)
  let ?st2 = "snd (record_optimization hk dk (fst r) (fst (snd r)) (fst (snd (snd r))) (snd (snd (snd r))) st)"
  have l: "length ys + 1 < mo_max_metrics st" "pw_end (mo_window st) \<le> fst r" using Cons.prems(3,4) by simp_all
  note s = stuck_record [OF Cons.prems(1,2) l, of hk dk "fst (snd r)" "fst (snd (snd r))" "snd (snd (snd r))", unfolded Let_def]
  from s obtain xs' where p: "mo_metrics ?st2 = xs' @ m # ys @ [snd (snd (snd r))]" by blast
  have q: "stuck_on m ?st2" "length (ys @ [snd (snd (snd r))]) + length rs < mo_max_metrics ?st2" "\<forall>r \<in> set rs. pw_end (mo_window ?st2) \<le> fst r"
    using s Cons.prems(3,4) by simp_all
  show ?case using Cons.IH [OF q(1) p q(2,3)] s by (simp add: Let_def)
qed simp

text \<open>
  C34: once a window that holds a metric has ended and no day has been aggregated yet, each further record after its end
  raises an AttributeError, as long as that metric is still in the bounded list: the window keeps its end, so it is not
  replaced (its counts do go on), and no alert is raised or cleared.
\<close>

theorem monitoring_stops_at_the_first_rotation:
  "mo_daily st = [] \<Longrightarrow> mo_metrics st = xs @ m # ys \<Longrightarrow> pw_start (mo_window st) \<le> mt_time m \<Longrightarrow> mt_time m < pw_end (mo_window st) \<Longrightarrow>
   length ys + length rs < mo_max_metrics st \<Longrightarrow> \<forall>r \<in> set rs. pw_end (mo_window st) \<le> fst r \<Longrightarrow>
   (\<forall>y \<in> set (fst (record_all hk dk rs st)). y = Inl AttributeError) \<and> mo_active (snd (record_all hk dk rs st)) = mo_active st \<and>
   mo_history (snd (record_all hk dk rs st)) = mo_history st \<and> pw_end (mo_window (snd (record_all hk dk rs st))) = pw_end (mo_window st)"
  by (rule stuck_records) (simp_all add: stuck_on_def)

definition first_state :: monitor where
  "first_state = snd (record_optimization (\<lambda>x. []) (\<lambda>x. []) 1 1 1 slow_metric (new_monitor 10 100 0))"

lemma first_state_eq:
  "mo_metrics first_state = [slow_metric] \<and> mo_daily first_state = [] \<and> pw_start (mo_window first_state) = 0 \<and> pw_end (mo_window first_state) = 600 \<and>
   mo_max_metrics first_state = 100"
  by (simp add: first_state_def record_optimization_def check_window_rotation_def new_monitor_def new_window_def push_bounded_def
    update_current_window_def slow_metric_def ortools_metric_def check_alerts_def Let_def)

theorem monitoring_stops_at_the_first_rotation_witness:
  "list_all (\<lambda>y. y = Inl AttributeError)
     (fst (record_all (\<lambda>x. []) (\<lambda>x. []) [(600, 600, 600, slow_metric), (900, 900, 900, slow_metric)] first_state))"
proof -
  note t = monitoring_stops_at_the_first_rotation [of first_state "[]" slow_metric "[]"]
  have "\<forall>y \<in> set (fst (record_all (\<lambda>x. []) (\<lambda>x. []) [(600, 600, 600, slow_metric), (900, 900, 900, slow_metric)] first_state)). y = Inl AttributeError"
    by (rule t [THEN conjunct1]) (simp_all add: first_state_eq, simp_all add: slow_metric_def ortools_metric_def)
  then show ?thesis by (simp add: list_all_iff)
qed

lemma set_alert_types: "\<exists>zs. map al_type (mo_history (set_alert now k d st)) = map al_type (mo_history st) @ zs"
proof (cases d)
  case None
  have a: "map al_type (xs[i := (xs ! i)\<lparr>al_active := False, al_resolved := Some now\<rparr>]) = map al_type xs" for xs i
    by (cases "i < length xs") (simp_all add: map_update list_update_same_conv not_less list_update_beyond)
  show ?thesis by (cases "map_of (mo_active st) k") (simp_all add: None set_alert_def clear_alert_def a)
qed (simp add: set_alert_def trigger_alert_def)

text \<open>
  in a running window with at least five executions of which fewer than 95 in 100 succeeded, every record adds
  one more success rate alert to the history, whether or not one is active.
\<close>

theorem every_record_repeats_the_alert:
  assumes "now < pw_end (mo_window st)" "4 \<le> pw_total (mo_window st)"
    "real (pw_success (update_current_window m (mo_window st))) < 0.95 * real (pw_total (mo_window st) + 1)"
  shows "\<exists>zs. map al_type (mo_history (snd (record_optimization hk dk now fresh late m st))) = map al_type (mo_history st) @ ''success_rate'' # zs"
proof -
  let ?st1 = "st\<lparr>mo_metrics := push_bounded (mo_max_metrics st) m (mo_metrics st), mo_window := update_current_window m (mo_window st)\<rparr>"
  let ?w = "update_current_window m (mo_window st)"
  have t: "pw_total ?w = pw_total (mo_window st) + 1" by (simp add: update_counts)
  obtain d where d: "success_rate_alert ?w = Some d"
    using assms(3) unfolding t [symmetric] success_rate_alert_def Let_def by (simp add: t field_simps)
  let ?a = "set_alert late ''success_rate'' (success_rate_alert ?w) ?st1"
  let ?b = "set_alert late ''avg_execution_time'' (time_alert (pw_avg ?w) 5000 ''MEDIUM'') ?a"
  let ?c = "set_alert late ''p95_execution_time'' (time_alert (pw_p95 ?w) 10000 ''HIGH'') ?b"
  let ?d = "set_alert late ''error_rate'' (error_rate_alert ?w) ?c"
  have r: "snd (record_optimization hk dk now fresh late m st) = ?d"
    using assms(1,2) t by (simp add: record_optimization_def check_window_rotation_def check_alerts_def Let_def update_counts)
  have a: "map al_type (mo_history ?a) = map al_type (mo_history st) @ [''success_rate'']" by (simp add: d set_alert_def trigger_alert_def)
  obtain x where b: "map al_type (mo_history ?b) = map al_type (mo_history ?a) @ x" using set_alert_types by blast
  obtain y where c: "map al_type (mo_history ?c) = map al_type (mo_history ?b) @ y" using set_alert_types by blast
  obtain z where e: "map al_type (mo_history ?d) = map al_type (mo_history ?c) @ z" using set_alert_types by blast
  show ?thesis unfolding r e c b a by simp
qed

definition failing_state :: monitor where
  "failing_state = (new_monitor 10 100 0)\<lparr>mo_window := (new_window 0 600)\<lparr>pw_total := 4, pw_failure := 4, pw_ortools := 4\<rparr>\<rparr>"

theorem every_record_repeats_the_alert_witness:
  "\<exists>zs. map al_type (mo_history (snd (record_optimization (\<lambda>x. []) (\<lambda>x. []) 5 5 5 slow_metric failing_state))) = map al_type (mo_history failing_state) @ ''success_rate'' # zs"
  by (rule every_record_repeats_the_alert)
    (simp_all add: failing_state_def new_monitor_def new_window_def update_current_window_def slow_metric_def ortools_metric_def)

end
