(* ===== verification/AdvancedConstraints.thy ===== *)
theory AdvancedConstraints
  imports CityClustering Scheduling Settings
begin

section \<open>Constraints of the solver\<close>

text \<open>
  src/services/ortools\_advanced\_constraints.py: the constraints for the places and cities of a trip, derived
  from the flags, the settings and the preferences.  The geodesic distance of geopy is a parameter and may
  raise; keys of dictionaries that are not hashable raise a TypeError, and two numbers of different types count as different keys.
\<close>

subsection \<open>Constraints\<close>

datatype constraint_type =
    TimeWindowC | VehicleCapacity | MultiDayRouting | AccommodationPlacement | InterCityTravel | BudgetConstraint | PriorityWeighting

definition constraint_value :: "constraint_type \<Rightarrow> string" where
  "constraint_value c =
     (case c of
        TimeWindowC \<Rightarrow> ''time_window'' | VehicleCapacity \<Rightarrow> ''vehicle_capacity'' | MultiDayRouting \<Rightarrow> ''multi_day_routing''
      | AccommodationPlacement \<Rightarrow> ''accommodation_placement'' | InterCityTravel \<Rightarrow> ''inter_city_travel''
      | BudgetConstraint \<Rightarrow> ''budget_constraint'' | PriorityWeighting \<Rightarrow> ''priority_weighting'')"

definition constraint_weight :: "constraint_type \<Rightarrow> real" where
  "constraint_weight c =
     (case c of
        TimeWindowC \<Rightarrow> 100 | VehicleCapacity \<Rightarrow> 80 | MultiDayRouting \<Rightarrow> 60 | AccommodationPlacement \<Rightarrow> 70 | InterCityTravel \<Rightarrow> 90
      | BudgetConstraint \<Rightarrow> 50 | PriorityWeighting \<Rightarrow> 40)"

definition load_enabled_constraints :: "ot_settings \<Rightarrow> constraint_type list" where
  "load_enabled_constraints s =
     (if ORTOOLS_ENABLE_TIME_WINDOWS s then [TimeWindowC] else []) @
     (if ORTOOLS_ENABLE_VEHICLE_ROUTING s then [VehicleCapacity, MultiDayRouting] else []) @
     (if ORTOOLS_ENABLE_MULTI_CITY s then [InterCityTravel] else []) @
     (if ORTOOLS_ACCOMMODATE_MULTI_CITY s then [AccommodationPlacement] else []) @
     (if ORTOOLS_ENABLE_ADVANCED_CONSTRAINTS s then [BudgetConstraint, PriorityWeighting] else [])"

text \<open>A \<open>datetime.time\<close> as its hour and minute.\<close>

record clock_time =
  ct_hour :: int
  ct_minute :: int

record hour_window =
  tw_start :: clock_time
  tw_end :: clock_time
  tw_offset :: int
  tw_required :: bool

definition to_minutes :: "hour_window \<Rightarrow> int \<times> int" where
  "to_minutes w =
     (let start = ct_hour (tw_start w) * 60 + ct_minute (tw_start w); stop = ct_hour (tw_end w) * 60 + ct_minute (tw_end w);
          day = tw_offset w * 24 * 60
      in (start + day, stop + day))"

record vehicle_constraints =
  vc_daily_km :: real
  vc_drive_hours :: real
  vc_rest :: int
  vc_fuel :: bool
  vc_toll :: real

record accommodation_constraint =
  ac_radius :: real
  ac_min_nights :: int
  ac_max_nights :: int
  ac_budget :: real
  ac_location :: string

record intercity_constraint =
  ic_max_km :: real
  ic_flights_km :: real
  ic_daily_cities :: int
  ic_min_hours :: real

definition default_vehicle :: vehicle_constraints where
  "default_vehicle = \<lparr>vc_daily_km = 500, vc_drive_hours = 4, vc_rest = 30, vc_fuel = False, vc_toll = 0\<rparr>"

subsection \<open>Time windows\<close>

text \<open>\<open>time(h, 0)\<close> of any value.\<close>

definition whole_hour :: "int \<Rightarrow> clock_time res" where
  "whole_hour h = (if 0 \<le> h \<and> h \<le> 23 then Inr \<lparr>ct_hour = h, ct_minute = 0\<rparr> else Inl ValueError)"

definition hour_of :: "pyval \<Rightarrow> clock_time res" where
  "hour_of v = (case v of VInt h \<Rightarrow> whole_hour h | VBool b \<Rightarrow> whole_hour (if b then 1 else 0) | _ \<Rightarrow> Inl TypeError)"

definition window_of :: "clock_time res \<Rightarrow> clock_time res \<Rightarrow> bool \<Rightarrow> hour_window res" where
  "window_of a b required =
     rbind a (\<lambda>x. rbind b (\<lambda>y. Inr \<lparr>tw_start = x, tw_end = y, tw_offset = 0, tw_required = required\<rparr>))"

definition names_any :: "string list \<Rightarrow> string \<Rightarrow> bool" where
  "names_any ks s = list_ex (\<lambda>k. contains k s) ks"

definition restaurant_time_window :: "settings \<Rightarrow> pydict \<Rightarrow> hour_window res" where
  "restaurant_time_window cfg place =
     rbind (vlower (dget place ''name'' (VStr []))) (\<lambda>name.
     if names_any [''breakfast'', ''cafe'', ''coffee''] name then window_of (whole_hour 7) (whole_hour 11) False
     else if names_any [''lunch'', ''almuerzo''] name
     then window_of (whole_hour (RESTAURANT_LUNCH_START cfg)) (whole_hour (RESTAURANT_LUNCH_END cfg)) True
     else if names_any [''dinner'', ''cena'', ''night''] name
     then window_of (whole_hour (RESTAURANT_DINNER_START cfg)) (whole_hour (RESTAURANT_DINNER_END cfg)) True
     else window_of (whole_hour 12) (whole_hour 22) False)"

definition museum_time_window :: "settings \<Rightarrow> hour_window res" where
  "museum_time_window cfg = window_of (whole_hour (MUSEUM_PREFERRED_START cfg)) (whole_hour (MUSEUM_PREFERRED_END cfg)) True"

definition outdoor_time_window :: "hour_window res" where
  "outdoor_time_window = window_of (whole_hour 8) (whole_hour 17) False"

definition shopping_time_window :: "settings \<Rightarrow> hour_window res" where
  "shopping_time_window cfg = window_of (whole_hour (SHOPPING_PREFERRED_START cfg)) (whole_hour (SHOPPING_PREFERRED_END cfg)) False"

definition is_one_of :: "string list \<Rightarrow> pyval \<Rightarrow> bool" where
  "is_one_of ks v = (case v of VStr s \<Rightarrow> s \<in> set ks | _ \<Rightarrow> False)"

definition place_kind :: "pydict \<Rightarrow> pyval" where
  "place_kind place = dget place ''type'' (dget place ''category'' (VStr ''attraction''))"

definition window_of_place :: "settings \<Rightarrow> pyval \<Rightarrow> pyval \<Rightarrow> pydict \<Rightarrow> hour_window res" where
  "window_of_place cfg daily_start daily_end place =
     (let kind = place_kind place
      in if is_one_of [''restaurant'', ''cafe'', ''bar''] kind then restaurant_time_window cfg place
         else if is_one_of [''museum'', ''gallery'', ''monument''] kind then museum_time_window cfg
         else if is_one_of [''park'', ''beach'', ''natural_feature''] kind then outdoor_time_window
         else if is_one_of [''shopping'', ''shopping_mall'', ''store''] kind then shopping_time_window cfg
         else window_of (hour_of daily_start) (hour_of daily_end) False)"

text \<open>A key of a dictionary: lists and dictionaries cannot be one.\<close>

definition dict_key :: "pyval \<Rightarrow> pyval res" where
  "dict_key v = (case v of VList xs \<Rightarrow> Inl TypeError | VDict d \<Rightarrow> Inl TypeError | _ \<Rightarrow> Inr v)"

definition place_key :: "nat \<Rightarrow> pydict \<Rightarrow> pyval" where
  "place_key i place = dget place ''id'' (VStr (''place_'' @ show_nat i))"

definition generate_time_windows :: "settings \<Rightarrow> pydict list \<Rightarrow> pydict \<Rightarrow> (pyval, hour_window) dict res" where
  "generate_time_windows cfg places preferences =
     (let daily_start = dget preferences ''daily_start_hour'' (VInt 9); daily_end = dget preferences ''daily_end_hour'' (VInt 18)
      in rfold (\<lambda>(i, place) windows.
           rbind (window_of_place cfg daily_start daily_end place) (\<lambda>w.
           rbind (dict_key (place_key i place)) (\<lambda>k. Inr (dset k w windows)))) (enumerate 0 places) [])"

subsection \<open>Vehicles\<close>

type_synonym geo_fun = "coord \<Rightarrow> coord \<Rightarrow> real res"

fun leg_sum :: "geo_fun \<Rightarrow> pydict list \<Rightarrow> real res" where
  "leg_sum geo (p # q # ps) =
     rbind (poi_coord p) (\<lambda>a. rbind (poi_coord q) (\<lambda>b. rbind (geo a b) (\<lambda>d. rbind (leg_sum geo (q # ps)) (\<lambda>s. Inr (d + s)))))"
| "leg_sum geo ps = Inr 0"

definition estimate_total_distance :: "geo_fun \<Rightarrow> pydict list \<Rightarrow> real res" where
  "estimate_total_distance geo places = (if length places < 2 then Inr 0 else leg_sum geo places)"

definition generate_vehicle_constraints :: "geo_fun \<Rightarrow> pydict list \<Rightarrow> pydict \<Rightarrow> vehicle_constraints res" where
  "generate_vehicle_constraints geo places preferences =
     (let mode = dget preferences ''transport_mode'' (VStr ''driving''); days = dget preferences ''duration_days'' (VInt 1)
      in rbind (estimate_total_distance geo places) (\<lambda>d.
         if mode = VStr ''walking''
         then Inr \<lparr>vc_daily_km = 15, vc_drive_hours = 0, vc_rest = 60, vc_fuel = False, vc_toll = 0\<rparr>
         else if mode = VStr ''driving''
         then rbind (need_num days) (\<lambda>n.
           Inr \<lparr>vc_daily_km = min 500 (d / max 1 n * 1.5), vc_drive_hours = 4, vc_rest = 30, vc_fuel = (300 < d), vc_toll = 0.05\<rparr>)
         else if mode = VStr ''public_transport''
         then Inr \<lparr>vc_daily_km = 200, vc_drive_hours = 2, vc_rest = 15, vc_fuel = False, vc_toll = 0\<rparr>
         else Inr default_vehicle))"

subsection \<open>Accommodation\<close>

text \<open>\<open>table.get(v, dflt)\<close> with the key any value.\<close>

definition table_get :: "(string \<times> real) list \<Rightarrow> pyval \<Rightarrow> real \<Rightarrow> real res" where
  "table_get t v dflt =
     rbind (dict_key v) (\<lambda>k. Inr (case k of VStr s \<Rightarrow> (case map_of t s of Some x \<Rightarrow> x | None \<Rightarrow> dflt) | _ \<Rightarrow> dflt))"

definition city_radius :: "pyval \<Rightarrow> real res" where
  "city_radius size1 = table_get [(''small'', 10), (''medium'', 20), (''large'', 35), (''metro'', 50)] size1 20"

definition preferred_location :: "pyval \<Rightarrow> pyval \<Rightarrow> string" where
  "preferred_location budget size1 =
     (if is_one_of [''low'', ''mid''] budget then ''budget_friendly''
      else if is_one_of [''small'', ''medium''] size1 then ''city_center'' else ''near_attractions'')"

definition accommodation_of :: "pyval \<Rightarrow> real \<Rightarrow> pydict \<Rightarrow> accommodation_constraint res" where
  "accommodation_of budget_level budget city =
     (let size1 = dget city ''size'' (VStr ''medium'')
      in rbind (vlen (dget city ''pois'' (VList []))) (\<lambda>n.
         let nights = max 1 (int (n div 3))
         in rbind (city_radius size1) (\<lambda>r.
            Inr \<lparr>ac_radius = r, ac_min_nights = max 1 (nights - 1), ac_max_nights = nights + 2, ac_budget = budget,
                 ac_location = preferred_location budget_level size1\<rparr>)))"

text \<open>The hours per city of a pace are looked up and not used; a pace that is not hashable raises.\<close>

definition generate_accommodation_constraints :: "pydict list \<Rightarrow> pydict \<Rightarrow> accommodation_constraint list res" where
  "generate_accommodation_constraints cities preferences =
     (let budget_level = dget preferences ''budget'' (VStr ''mid''); pace = dget preferences ''pace'' (VStr ''normal'')
      in rbind (table_get [(''low'', 50), (''mid'', 100), (''high'', 200), (''luxury'', 400)] budget_level 100) (\<lambda>budget.
         rbind (table_get [(''relaxed'', 6), (''normal'', 4), (''fast'', 2)] pace 4) (\<lambda>hours.
         rmap_list (accommodation_of budget_level budget) cities)))"

subsection \<open>Travel between cities\<close>

definition city_center :: "pydict \<Rightarrow> coord res" where
  "city_center c = rbind (pnum c ''center_lat'') (\<lambda>a. rbind (pnum c ''center_lon'') (\<lambda>b. Inr (a, b)))"

fun cities_max_distance :: "geo_fun \<Rightarrow> pydict list \<Rightarrow> real \<Rightarrow> real res" where
  "cities_max_distance geo [] m = Inr m"
| "cities_max_distance geo (c # cs) m =
     rbind (rfold (\<lambda>d m. rbind (city_center c) (\<lambda>a. rbind (city_center d) (\<lambda>b. rbind (geo a b) (\<lambda>x. Inr (max m x))))) cs m)
       (cities_max_distance geo cs)"

definition generate_intercity_constraints :: "geo_fun \<Rightarrow> pydict list \<Rightarrow> pydict \<Rightarrow> intercity_constraint res" where
  "generate_intercity_constraints geo cities preferences =
     rbind (cities_max_distance geo cities 0) (\<lambda>m.
     let mode = dget preferences ''transport_mode'' (VStr ''driving'')
     in if mode = VStr ''driving'' then Inr \<lparr>ic_max_km = 800, ic_flights_km = 1200, ic_daily_cities = 2, ic_min_hours = 4\<rparr>
        else if mode = VStr ''flying'' then Inr \<lparr>ic_max_km = 5000, ic_flights_km = 300, ic_daily_cities = 3, ic_min_hours = 3\<rparr>
        else Inr \<lparr>ic_max_km = 500, ic_flights_km = 800, ic_daily_cities = 2, ic_min_hours = 4\<rparr>)"

subsection \<open>Applying them\<close>

datatype constraint_info =
    TimeWindowsInfo nat nat nat \<comment> \<open>windows, hard, soft\<close>
  | VehicleInfo real real bool \<comment> \<open>kilometres a day, hours, fuel stops\<close>
  | MultiDayInfo pyval pyval nat \<comment> \<open>days, activities a day, places\<close>
  | PriorityInfo nat real "(real \<times> real) option" \<comment> \<open>places, mean, least and greatest weight\<close>

definition hard_windows :: "(pyval, hour_window) dict \<Rightarrow> nat" where
  "hard_windows ws = length (filter (\<lambda>(k, w). tw_required w) ws)"

definition apply_time_windows :: "(pyval, hour_window) dict \<Rightarrow> constraint_info" where
  "apply_time_windows ws = TimeWindowsInfo (length ws) (hard_windows ws) (length (filter (\<lambda>(k, w). \<not> tw_required w) ws))"

definition apply_vehicle_constraints :: "vehicle_constraints \<Rightarrow> constraint_info" where
  "apply_vehicle_constraints v = VehicleInfo (vc_daily_km v) (vc_drive_hours v) (vc_fuel v)"

definition apply_multiday_constraints :: "pydict list \<Rightarrow> pydict \<Rightarrow> constraint_info" where
  "apply_multiday_constraints places preferences =
     MultiDayInfo (dget preferences ''duration_days'' (VInt 1)) (dget preferences ''max_daily_activities'' (VInt 6)) (length places)"

definition priority_weight :: "pydict \<Rightarrow> real res" where
  "priority_weight place =
     rbind (need_num (dget place ''priority'' (VInt 5))) (\<lambda>p.
     rbind (need_num (dget place ''rating'' (VFloat 4))) (\<lambda>r. Inr (p * 0.6 + r * 0.4)))"

definition apply_priority_weights :: "pydict list \<Rightarrow> constraint_info res" where
  "apply_priority_weights places =
     rbind (rmap_list priority_weight places) (\<lambda>ws.
     Inr (PriorityInfo (length ws) (if ws = [] then 0 else sum_list ws / real (length ws))
       (if ws = [] then None else Some (Min (set ws), Max (set ws)))))"

text \<open>What was applied before an exception stays; the exception becomes a message.\<close>

definition constraint_steps :: "settings \<Rightarrow> geo_fun \<Rightarrow> constraint_type list \<Rightarrow> pydict list \<Rightarrow> pydict \<Rightarrow> (string \<times> constraint_info res) list" where
  "constraint_steps cfg geo enabled places preferences =
     (if TimeWindowC \<in> set enabled
      then [(''time_windows'', rbind (generate_time_windows cfg places preferences) (\<lambda>ws. Inr (apply_time_windows ws)))] else []) @
     (if VehicleCapacity \<in> set enabled
      then [(''vehicle_constraints'', rbind (generate_vehicle_constraints geo places preferences) (\<lambda>v. Inr (apply_vehicle_constraints v)))] else []) @
     (if MultiDayRouting \<in> set enabled then [(''multi_day'', Inr (apply_multiday_constraints places preferences))] else []) @
     (if PriorityWeighting \<in> set enabled then [(''priority_weights'', apply_priority_weights places)] else [])"

fun run_steps :: "(string \<times> constraint_info res) list \<Rightarrow> (string \<times> constraint_info) list \<times> py_error option" where
  "run_steps [] = ([], None)"
| "run_steps ((k, Inl e) # ss) = ([], Some e)"
| "run_steps ((k, Inr x) # ss) = ((k, x) # fst (run_steps ss), snd (run_steps ss))"

definition apply_constraints_to_ortools_model ::
  "settings \<Rightarrow> geo_fun \<Rightarrow> constraint_type list \<Rightarrow> pydict list \<Rightarrow> pydict \<Rightarrow> (string \<times> constraint_info) list \<times> py_error option" where
  "apply_constraints_to_ortools_model cfg geo enabled places preferences = run_steps (constraint_steps cfg geo enabled places preferences)"

subsection \<open>The summary\<close>

datatype time_conflict = NarrowWindow pyval int | ShortHardWindow pyval

definition conflicts_of :: "pyval \<times> hour_window \<Rightarrow> time_conflict list" where
  "conflicts_of kw =
     (let d = snd (to_minutes (snd kw)) - fst (to_minutes (snd kw))
      in (if d < 60 then [NarrowWindow (fst kw) d] else []) @ (if tw_required (snd kw) \<and> d < 120 then [ShortHardWindow (fst kw)] else []))"

definition detect_time_conflicts :: "(pyval, hour_window) dict \<Rightarrow> time_conflict list" where
  "detect_time_conflicts ws = concat (map conflicts_of ws)"

record vehicle_analysis =
  va_daily :: real
  va_distance :: real
  va_feasible :: bool

record constraint_summary =
  cs_enabled :: "string list"
  cs_windows :: "(nat \<times> nat \<times> time_conflict list) option"
  cs_vehicle :: "vehicle_analysis option"

definition window_analysis :: "settings \<Rightarrow> constraint_type list \<Rightarrow> pydict list \<Rightarrow> pydict \<Rightarrow> (nat \<times> nat \<times> time_conflict list) option res" where
  "window_analysis cfg enabled places preferences =
     (if TimeWindowC \<in> set enabled
      then rbind (generate_time_windows cfg places preferences) (\<lambda>ws. Inr (Some (length ws, hard_windows ws, detect_time_conflicts ws)))
      else Inr None)"

definition analyse_vehicle :: "geo_fun \<Rightarrow> constraint_type list \<Rightarrow> pydict list \<Rightarrow> pydict \<Rightarrow> vehicle_analysis option res" where
  "analyse_vehicle geo enabled places preferences =
     (if VehicleCapacity \<in> set enabled
      then
        rbind (generate_vehicle_constraints geo places preferences) (\<lambda>v.
        rbind (estimate_total_distance geo places) (\<lambda>d.
        rbind (need_num (dget preferences ''duration_days'' (VInt 1))) (\<lambda>n.
        Inr (Some \<lparr>va_daily = vc_daily_km v, va_distance = d, va_feasible = (d \<le> vc_daily_km v * n)\<rparr>))))
      else Inr None)"

definition get_constraint_summary :: "settings \<Rightarrow> geo_fun \<Rightarrow> constraint_type list \<Rightarrow> pydict list \<Rightarrow> pydict \<Rightarrow> constraint_summary res" where
  "get_constraint_summary cfg geo enabled places preferences =
     rbind (window_analysis cfg enabled places preferences) (\<lambda>ws.
     rbind (analyse_vehicle geo enabled places preferences) (\<lambda>v.
     Inr \<lparr>cs_enabled = map constraint_value enabled, cs_windows = ws, cs_vehicle = v\<rparr>))"

subsection \<open>Lemmas\<close>

definition first_day_window :: "hour_window \<Rightarrow> bool" where
  "first_day_window w \<longleftrightarrow> tw_offset w = 0 \<and> 0 \<le> fst (to_minutes w) \<and> fst (to_minutes w) \<le> 23 * 60 \<and> 0 \<le> snd (to_minutes w) \<and> snd (to_minutes w) \<le> 23 * 60"

lemma whole_hour_ok: "whole_hour h = Inr t \<longleftrightarrow> 0 \<le> h \<and> h \<le> 23 \<and> t = \<lparr>ct_hour = h, ct_minute = 0\<rparr>"
  by (auto simp: whole_hour_def)

definition full_hour :: "clock_time res \<Rightarrow> bool" where
  "full_hour r \<longleftrightarrow> (\<forall>t. r = Inr t \<longrightarrow> 0 \<le> ct_hour t \<and> ct_hour t \<le> 23 \<and> ct_minute t = 0)"

lemma full_hours [simp]: "full_hour (whole_hour h)" "full_hour (hour_of v)"
  by (auto simp: full_hour_def whole_hour_def hour_of_def split: pyval.splits if_splits)

lemma window_of_first_day: "window_of a b r = Inr w \<Longrightarrow> full_hour a \<Longrightarrow> full_hour b \<Longrightarrow> first_day_window w"
  by (auto simp: window_of_def rbind_eq_Inr_iff full_hour_def first_day_window_def to_minutes_def)

lemma place_window_cases:
  assumes "window_of_place cfg s e p = Inr w"
  obtains (meal) name where "restaurant_time_window cfg p = Inr w" | (museum) "museum_time_window cfg = Inr w" | (outdoor) "outdoor_time_window = Inr w"
    | (shop) "shopping_time_window cfg = Inr w" | (other) "window_of (hour_of s) (hour_of e) False = Inr w"
  using assms by (auto simp: window_of_place_def Let_def split: if_splits)

lemma restaurant_cases:
  assumes "restaurant_time_window cfg p = Inr w"
  obtains "window_of (whole_hour 7) (whole_hour 11) False = Inr w"
    | "window_of (whole_hour (RESTAURANT_LUNCH_START cfg)) (whole_hour (RESTAURANT_LUNCH_END cfg)) True = Inr w"
    | "window_of (whole_hour (RESTAURANT_DINNER_START cfg)) (whole_hour (RESTAURANT_DINNER_END cfg)) True = Inr w"
    | "window_of (whole_hour 12) (whole_hour 22) False = Inr w"
  using assms by (auto simp: restaurant_time_window_def rbind_eq_Inr_iff split: if_splits)

lemma place_window_first_day: "window_of_place cfg s e p = Inr w \<Longrightarrow> first_day_window w"
  by (elim place_window_cases restaurant_cases)
    (auto simp: museum_time_window_def outdoor_time_window_def shopping_time_window_def intro: window_of_first_day)

definition default_hours :: "hour_window \<Rightarrow> bool" where
  "default_hours w \<longleftrightarrow> (let d = snd (to_minutes w) - fst (to_minutes w) in 60 \<le> d \<and> (tw_required w \<longrightarrow> 120 \<le> d))"

lemma place_window_default:
  assumes "window_of_place default_settings (VInt s) (VInt e) p = Inr w" "s < e"
  shows "default_hours w"
  using assms(1)
  by (elim place_window_cases restaurant_cases)
    (auto simp: museum_time_window_def outdoor_time_window_def shopping_time_window_def window_of_def rbind_eq_Inr_iff whole_hour_ok hour_of_def
      default_hours_def to_minutes_def default_settings_def, use assms(2) in linarith)

lemma dict_key_eq: "dict_key v = Inr k \<Longrightarrow> k = v"
  by (auto simp: dict_key_def split: pyval.splits)

definition windows_step :: "settings \<Rightarrow> pyval \<Rightarrow> pyval \<Rightarrow> nat \<times> pydict \<Rightarrow> (pyval, hour_window) dict \<Rightarrow> (pyval, hour_window) dict res" where
  "windows_step cfg s e = (\<lambda>(i, place) windows.
     rbind (window_of_place cfg s e place) (\<lambda>w. rbind (dict_key (place_key i place)) (\<lambda>k. Inr (dset k w windows))))"

lemma time_windows_fold:
  "generate_time_windows cfg places prefs =
   rfold (windows_step cfg (dget prefs ''daily_start_hour'' (VInt 9)) (dget prefs ''daily_end_hour'' (VInt 18))) (enumerate 0 places) []"
  by (simp add: generate_time_windows_def windows_step_def)

lemma windows_step_all:
  assumes "windows_step cfg s e x ws = Inr ws'" "\<forall>w \<in> set (map snd ws). Q w" "\<And>p w. window_of_place cfg s e p = Inr w \<Longrightarrow> Q w"
  shows "\<forall>w \<in> set (map snd ws'). Q w"
proof -
  obtain i p w where w: "window_of_place cfg s e p = Inr w" and ws': "ws' = dset (place_key i p) w ws"
    using assms(1) by (cases x) (auto simp: windows_step_def rbind_eq_Inr_iff dest: dict_key_eq)
  have "v \<in> insert w (set (map snd ws))" if "v \<in> set (map snd ws')" for v
    using that set_dset_subset unfolding ws' by fastforce
  then show ?thesis using assms(2) assms(3) [OF w] by (metis insertE)
qed

lemma windows_all:
  assumes "rfold (windows_step cfg s e) xs ws = Inr ws'" "\<forall>w \<in> set (map snd ws). Q w" "\<And>p w. window_of_place cfg s e p = Inr w \<Longrightarrow> Q w"
  shows "\<forall>w \<in> set (map snd ws'). Q w"
  using rfold_invariant [OF assms(1), of "\<lambda>ws. \<forall>w \<in> set (map snd ws). Q w"] windows_step_all assms(2,3) by blast

lemma windows_keys:
  assumes "rfold (windows_step cfg s e) xs ws = Inr ws'" "is_dict ws"
  shows "is_dict ws' \<and> set (keys ws') = set (keys ws) \<union> (\<lambda>(i, p). place_key i p) ` set xs"
  using assms
proof (induction xs arbitrary: ws)
  case (Cons x xs)
  obtain i p where x: "x = (i, p)" by (cases x)
  from Cons.prems(1) x obtain w where "rfold (windows_step cfg s e) xs (dset (place_key i p) w ws) = Inr ws'"
    by (auto simp: windows_step_def rbind_eq_Inr_iff dest: dict_key_eq)
  from Cons.IH [OF this] Cons.prems(2) show ?case by (auto simp: x keys_dset)
qed simp

text \<open>Requests on which nothing raises.\<close>

definition plain_place :: "pydict \<Rightarrow> bool" where
  "plain_place p \<longleftrightarrow> (\<exists>c. poi_coord p = Inr c) \<and> (\<exists>s. dget p ''name'' (VStr []) = VStr s) \<and> (\<forall>i. dict_key (place_key i p) = Inr (place_key i p)) \<and>
     (\<exists>w. priority_weight p = Inr w)"

definition plain_preferences :: "pydict \<Rightarrow> bool" where
  "plain_preferences d \<longleftrightarrow> (\<exists>s e. hour_of (dget d ''daily_start_hour'' (VInt 9)) = Inr s \<and> hour_of (dget d ''daily_end_hour'' (VInt 18)) = Inr e) \<and>
     (\<exists>n. need_num (dget d ''duration_days'' (VInt 1)) = Inr n)"

lemma plain_window:
  assumes "plain_place p" "hour_of s = Inr a" "hour_of e = Inr b"
  shows "\<exists>w. window_of_place default_settings s e p = Inr w"
  using assms
  by (auto simp: plain_place_def window_of_place_def restaurant_time_window_def museum_time_window_def outdoor_time_window_def
    shopping_time_window_def window_of_def whole_hour_def default_settings_def Let_def)

lemma plain_windows:
  assumes "\<forall>p \<in> set places. plain_place p" "plain_preferences prefs"
  shows "\<exists>ws. generate_time_windows default_settings places prefs = Inr ws"
proof -
  let ?s = "dget prefs ''daily_start_hour'' (VInt 9)" and ?e = "dget prefs ''daily_end_hour'' (VInt 18)"
  obtain a b where ab: "hour_of ?s = Inr a" "hour_of ?e = Inr b" using assms(2) by (auto simp: plain_preferences_def)
  have "\<exists>ws'. windows_step default_settings ?s ?e x ws = Inr ws' \<and> True" if "x \<in> set (enumerate 0 places)" for x ws
  proof -
    obtain i p where x: "x = (i, p)" by (cases x)
    then have p: "plain_place p" using that assms(1) by (auto simp: in_set_enumerate_eq)
    obtain w where "window_of_place default_settings ?s ?e p = Inr w" using plain_window [OF p ab] by blast
    then show ?thesis using p by (simp add: windows_step_def x plain_place_def)
  qed
  then show ?thesis unfolding time_windows_fold
    using rfold_total [of "\<lambda>_. True" "[]" "enumerate 0 places" "windows_step default_settings ?s ?e"] by auto
qed

lemma plain_legs:
  assumes "\<forall>p \<in> set places. \<exists>c. poi_coord p = Inr c" "\<And>a b. \<exists>d. geo a b = Inr d"
  shows "\<exists>d. leg_sum geo places = Inr d"
  using assms(1)
proof (induction places rule: induct_list012)
  case (3 p q ps)
  obtain a b d where "poi_coord p = Inr a" "poi_coord q = Inr b" "leg_sum geo (q # ps) = Inr d" using 3 by auto
  moreover obtain x where "geo a b = Inr x" using assms(2) by blast
  ultimately show ?case by simp
qed simp_all

lemma plain_vehicle:
  assumes "\<forall>p \<in> set places. plain_place p" "plain_preferences prefs" "\<And>a b. \<exists>d. geo a b = Inr d"
  shows "\<exists>v. generate_vehicle_constraints geo places prefs = Inr v"
proof -
  have "\<exists>d. leg_sum geo places = Inr d" by (rule plain_legs) (use assms(1,3) in \<open>auto simp: plain_place_def\<close>)
  then obtain d where d: "estimate_total_distance geo places = Inr d" by (cases "length places < 2") (auto simp: estimate_total_distance_def)
  obtain n where "need_num (dget prefs ''duration_days'' (VInt 1)) = Inr n" using assms(2) by (auto simp: plain_preferences_def)
  then show ?thesis by (simp add: generate_vehicle_constraints_def d Let_def)
qed

lemma plain_weights: "\<forall>p \<in> set places. plain_place p \<Longrightarrow> \<exists>i. apply_priority_weights places = Inr i"
proof -
  assume "\<forall>p \<in> set places. plain_place p"
  then have "\<exists>ws. rmap_list priority_weight places = Inr ws"
    by (induction places) (auto simp: plain_place_def)
  then show ?thesis by (auto simp: apply_priority_weights_def)
qed

lemma run_steps_complete: "snd (run_steps ss) = None \<longleftrightarrow> (\<forall>s \<in> set ss. \<exists>x. snd s = Inr x)"
  by (induction ss rule: run_steps.induct) auto

lemma run_steps_keys: "snd (run_steps ss) = None \<Longrightarrow> map fst (fst (run_steps ss)) = map fst ss"
  by (induction ss rule: run_steps.induct) auto

lemma run_steps_prefix: "\<exists>n. map (\<lambda>(k, x). (k, Inr x)) (fst (run_steps ss)) = take n ss"
proof (induction ss rule: run_steps.induct)
  case (3 k x ss)
  then obtain n where "map (\<lambda>(k, x). (k, Inr x)) (fst (run_steps ss)) = take n ss" by blast
  then show ?case by (intro exI [of _ "Suc n"]) simp
qed (auto intro: exI [of _ 0])

lemma leg_sum_nonneg:
  assumes "leg_sum geo ps = Inr d" "\<And>a b x. geo a b = Inr x \<Longrightarrow> 0 \<le> x"
  shows "0 \<le> d"
  using assms(1)
proof (induction ps arbitrary: d rule: induct_list012)
  case (3 p q ps)
  from 3(3) obtain a b x s where x: "geo a b = Inr x" and s: "leg_sum geo (q # ps) = Inr s" and d: "d = x + s" by (auto simp: rbind_eq_Inr_iff)
  show ?case using 3(2) [OF s] assms(2) [OF x] d by simp
qed simp_all

subsection \<open>Properties\<close>

text \<open>
  every time window lies in the first day, whatever the length of the trip, and the windows are of the
  keys of the places: places with the same id share one.
\<close>

theorem time_windows_never_leave_the_first_day:
  assumes "generate_time_windows cfg places prefs = Inr ws"
  shows "(\<forall>w \<in> set (map snd ws). tw_offset w = 0 \<and> 0 \<le> fst (to_minutes w) \<and> snd (to_minutes w) \<le> 23 * 60) \<and>
    distinct (keys ws) \<and> set (keys ws) = (\<lambda>(i, p). place_key i p) ` set (enumerate 0 places)"
proof -
  note f = assms [unfolded time_windows_fold]
  have "\<forall>w \<in> set (map snd ws). first_day_window w" by (rule windows_all [OF f]) (auto intro: place_window_first_day)
  then show ?thesis using windows_keys [OF f] by (simp add: first_day_window_def is_dict_def)
qed

definition museum_day :: "pydict list" where
  "museum_day = [[(''id'', VStr ''m''), (''type'', VStr ''museum'')], [(''id'', VStr ''m''), (''type'', VStr ''park'')]]"

theorem time_windows_never_leave_the_first_day_witness:
  "\<exists>ws. generate_time_windows default_settings museum_day [(''duration_days'', VInt 5)] = Inr ws \<and> (\<forall>w \<in> set (map snd ws). tw_offset w = 0) \<and> length ws = 1"
proof -
  let ?ws = "[(VStr ''m'', \<lparr>tw_start = \<lparr>ct_hour = 8, ct_minute = 0\<rparr>, tw_end = \<lparr>ct_hour = 17, ct_minute = 0\<rparr>, tw_offset = 0, tw_required = False\<rparr>)]"
  have "generate_time_windows default_settings museum_day [(''duration_days'', VInt 5)] = Inr ?ws"
    by (simp add: generate_time_windows_def museum_day_def window_of_place_def place_kind_def is_one_of_def museum_time_window_def
      outdoor_time_window_def window_of_def whole_hour_def default_settings_def dict_key_def place_key_def)
  then show ?thesis using time_windows_never_leave_the_first_day [of default_settings museum_day _ ?ws] by auto
qed

text \<open>with the default settings and a day that ends after it starts, no conflict is ever reported.\<close>

theorem default_windows_have_no_conflict:
  assumes "generate_time_windows default_settings places prefs = Inr ws"
    "dget prefs ''daily_start_hour'' (VInt 9) = VInt s" "dget prefs ''daily_end_hour'' (VInt 18) = VInt e" "s < e"
  shows "detect_time_conflicts ws = []"
proof -
  note f = assms(1) [unfolded time_windows_fold assms(2,3)]
  have "\<forall>w \<in> set (map snd ws). default_hours w" by (rule windows_all [OF f]) (auto intro: place_window_default [OF _ assms(4)])
  then have "conflicts_of kw = []" if "kw \<in> set ws" for kw
    using that by (auto simp: conflicts_of_def default_hours_def Let_def)
  then show ?thesis by (simp add: detect_time_conflicts_def)
qed

theorem default_windows_have_no_conflict_witness:
  "\<exists>ws. generate_time_windows default_settings museum_day [] = Inr ws \<and> detect_time_conflicts ws = []"
proof -
  let ?ws = "[(VStr ''m'', \<lparr>tw_start = \<lparr>ct_hour = 8, ct_minute = 0\<rparr>, tw_end = \<lparr>ct_hour = 17, ct_minute = 0\<rparr>, tw_offset = 0, tw_required = False\<rparr>)]"
  have "generate_time_windows default_settings museum_day [] = Inr ?ws"
    by (simp add: generate_time_windows_def museum_day_def window_of_place_def place_kind_def is_one_of_def museum_time_window_def
      outdoor_time_window_def window_of_def whole_hour_def default_settings_def dict_key_def place_key_def)
  then show ?thesis using default_windows_have_no_conflict [of museum_day "[]" ?ws 9 18] by simp
qed

text \<open>
  a driven trip of at least a day is called feasible exactly when its distance is at most 500 km a day: the
  other bound on the daily distance, one and a half times the mean, never decides.
\<close>

theorem driving_is_feasible_up_to_500_km_a_day:
  assumes "VehicleCapacity \<in> set enabled" "dget prefs ''transport_mode'' (VStr ''driving'') = VStr ''driving''"
    "need_num (dget prefs ''duration_days'' (VInt 1)) = Inr n" "1 \<le> n" "\<And>a b x. geo a b = Inr x \<Longrightarrow> 0 \<le> x"
    "analyse_vehicle geo enabled places prefs = Inr (Some v)"
  shows "va_feasible v \<longleftrightarrow> va_distance v \<le> 500 * n"
proof -
  from assms(1,6) obtain vc d where vc: "generate_vehicle_constraints geo places prefs = Inr vc" and d: "estimate_total_distance geo places = Inr d"
    and v: "v = \<lparr>va_daily = vc_daily_km vc, va_distance = d, va_feasible = (d \<le> vc_daily_km vc * n)\<rparr>"
    by (auto simp: analyse_vehicle_def rbind_eq_Inr_iff assms(3))
  have k: "vc_daily_km vc = min 500 (d / n * 1.5)"
    using vc assms(2,3,4) d by (auto simp: generate_vehicle_constraints_def Let_def)
  have "0 \<le> d" using d leg_sum_nonneg [OF _ assms(5)] by (auto simp: estimate_total_distance_def split: if_splits)
  moreover have "min 500 (d / n * 1.5) * n = min (500 * n) (d / n * 1.5 * n)" using assms(4) by (simp add: min_mult_distrib_right)
  then have "min 500 (d / n * 1.5) * n = min (500 * n) (1.5 * d)" using assms(4) by simp
  ultimately show ?thesis unfolding v k by (simp add: min_def)
qed

definition meridian_distance :: geo_fun where
  "meridian_distance a b = Inr (\<bar>fst a - fst b\<bar> * 111)"

definition far_ends :: "pydict list" where
  "far_ends = [[(''lat'', VInt 0), (''lon'', VInt 0)], [(''lat'', VInt 10), (''lon'', VInt 0)]]"

theorem driving_is_feasible_up_to_500_km_a_day_witness:
  "\<exists>v. analyse_vehicle meridian_distance [VehicleCapacity] far_ends [(''duration_days'', VInt 2)] = Inr (Some v) \<and> \<not> va_feasible v"
proof -
  have a: "analyse_vehicle meridian_distance [VehicleCapacity] far_ends [(''duration_days'', VInt 2)] =
    Inr (Some \<lparr>va_daily = 500, va_distance = 1110, va_feasible = False\<rparr>)"
    by (simp add: analyse_vehicle_def generate_vehicle_constraints_def estimate_total_distance_def far_ends_def meridian_distance_def
      poi_coord_def pnum_def dindex_def Let_def)
  have "\<not> va_feasible \<lparr>va_daily = 500, va_distance = 1110, va_feasible = False\<rparr> \<or> 1110 \<le> (500 :: real) * 2"
    using driving_is_feasible_up_to_500_km_a_day [OF _ _ _ _ _ a, of 2] by (simp add: meridian_distance_def)
  with a show ?thesis by auto
qed

text \<open>
  the constraints of the travel between cities depend on the transport alone: the distances between the
  cities are measured and not used, and except when flying, cities too far apart by land can be too near to fly.
\<close>

theorem intercity_constraints_ignore_distances:
  assumes "generate_intercity_constraints geo cities prefs = Inr r" "generate_intercity_constraints geo' cities' prefs = Inr r'"
  shows "r = r' \<and> (dget prefs ''transport_mode'' (VStr ''driving'') \<noteq> VStr ''flying'' \<longrightarrow> ic_max_km r < ic_flights_km r)"
proof -
  obtain m m' where "cities_max_distance geo cities 0 = Inr m" "cities_max_distance geo' cities' 0 = Inr m'"
    using assms by (auto simp: generate_intercity_constraints_def rbind_eq_Inr_iff)
  then show ?thesis using assms by (auto simp: generate_intercity_constraints_def Let_def split: if_splits)
qed

theorem intercity_constraints_ignore_distances_witness:
  "\<exists>r. generate_intercity_constraints meridian_distance [[(''center_lat'', VInt 0), (''center_lon'', VInt 0)], [(''center_lat'', VInt 9), (''center_lon'', VInt 0)]] [] = Inr r \<and>
     ic_max_km r < ic_flights_km r"
proof -
  let ?r = "\<lparr>ic_max_km = 800, ic_flights_km = 1200, ic_daily_cities = 2, ic_min_hours = 4\<rparr>"
  have a: "generate_intercity_constraints meridian_distance [[(''center_lat'', VInt 0), (''center_lon'', VInt 0)], [(''center_lat'', VInt 9), (''center_lon'', VInt 0)]] [] = Inr ?r"
    by (simp add: generate_intercity_constraints_def meridian_distance_def city_center_def pnum_def dindex_def)
  show ?thesis using intercity_constraints_ignore_distances [OF a a] a by auto
qed

text \<open>each city gets at least one night, at most as many more as its places give, and never fewer at most than at least.\<close>

theorem accommodation_nights_are_ordered:
  "generate_accommodation_constraints cities prefs = Inr cs \<Longrightarrow>
   length cs = length cities \<and> (\<forall>c \<in> set cs. 1 \<le> ac_min_nights c \<and> ac_min_nights c + 2 \<le> ac_max_nights c \<and> ac_max_nights c \<le> ac_min_nights c + 3)"
proof -
  assume "generate_accommodation_constraints cities prefs = Inr cs"
  then obtain b where r: "rmap_list (accommodation_of (dget prefs ''budget'' (VStr ''mid'')) b) cities = Inr cs"
    by (auto simp: generate_accommodation_constraints_def rbind_eq_Inr_iff Let_def)
  have "1 \<le> ac_min_nights c \<and> ac_min_nights c + 2 \<le> ac_max_nights c \<and> ac_max_nights c \<le> ac_min_nights c + 3"
    if "accommodation_of l b city = Inr c" for l city c
    using that by (auto simp: accommodation_of_def rbind_eq_Inr_iff Let_def)
  with rmap_list_length [OF r] rmap_list_mem [OF r] show ?thesis by blast
qed

theorem accommodation_nights_are_ordered_witness:
  "\<exists>cs. generate_accommodation_constraints [[(''size'', VStr ''large'')]] [] = Inr cs \<and> length cs = 1"
proof -
  let ?cs = "[\<lparr>ac_radius = 35, ac_min_nights = 1, ac_max_nights = 3, ac_budget = 100, ac_location = ''budget_friendly''\<rparr>]"
  have a: "generate_accommodation_constraints [[(''size'', VStr ''large'')]] [] = Inr ?cs"
    by (simp add: generate_accommodation_constraints_def accommodation_of_def table_get_def dict_key_def city_radius_def preferred_location_def is_one_of_def)
  show ?thesis using accommodation_nights_are_ordered [OF a] a by auto
qed

text \<open>
  for places with numeric coordinates, text names, hashable ids and numeric weights, and a day of valid hours,
  every enabled constraint is applied, in the order of the code, and no error is reported.
\<close>

theorem plain_requests_apply_all_constraints:
  assumes "\<forall>p \<in> set places. plain_place p" "plain_preferences prefs" "\<And>a b. \<exists>d. geo a b = Inr d"
  shows "snd (apply_constraints_to_ortools_model default_settings geo (load_enabled_constraints default_ot_settings) places prefs) = None \<and>
    map fst (fst (apply_constraints_to_ortools_model default_settings geo (load_enabled_constraints default_ot_settings) places prefs)) =
      [''time_windows'', ''vehicle_constraints'', ''multi_day'', ''priority_weights'']"
proof -
  let ?en = "load_enabled_constraints default_ot_settings"
  let ?ss = "constraint_steps default_settings geo ?en places prefs"
  obtain ws where ws: "generate_time_windows default_settings places prefs = Inr ws" using plain_windows [OF assms(1,2)] by blast
  obtain v where v: "generate_vehicle_constraints geo places prefs = Inr v" using plain_vehicle [OF assms(1,2), of geo] assms(3) by blast
  obtain i where i: "apply_priority_weights places = Inr i" using plain_weights [OF assms(1)] by blast
  have s: "?ss = [(''time_windows'', Inr (apply_time_windows ws)), (''vehicle_constraints'', Inr (apply_vehicle_constraints v)),
    (''multi_day'', Inr (apply_multiday_constraints places prefs)), (''priority_weights'', Inr i)]"
    by (simp add: constraint_steps_def ws v i load_enabled_constraints_def default_ot_settings_def)
  show ?thesis unfolding apply_constraints_to_ortools_model_def s by simp
qed

theorem plain_requests_apply_all_constraints_witness:
  "snd (apply_constraints_to_ortools_model default_settings meridian_distance (load_enabled_constraints default_ot_settings) far_ends []) = None"
  by (rule plain_requests_apply_all_constraints [THEN conjunct1])
    (auto simp: far_ends_def meridian_distance_def plain_place_def poi_coord_def pnum_def dindex_def priority_weight_def dict_key_def place_key_def
      plain_preferences_def hour_of_def whole_hour_def intro: exI [of _ "23/5"])

end
