(* ===== verification/ParallelOptimizer.thy ===== *)
theory ParallelOptimizer
  imports PyVal Settings
begin

section \<open>The parallel optimiser\<close>

text \<open>
  src/services/ortools\_parallel\_optimizer.py: batches of optimisations over a pool of processes, with
  statistics per batch and per worker.  The pool, the service and the clock are parameters: each task comes
  with what its future gives and how long it took.
\<close>

subsection \<open>Tasks, results and state\<close>

record optimization_task =
  tk_id :: string
  tk_places :: pyval
  tk_preferences :: pyval
  tk_priority :: pyval

record optimization_result =
  or_id :: string
  or_success :: bool
  or_data :: "pyval option"
  or_error :: "py_error option"
  or_ms :: real
  or_worker :: string
  or_source :: string

record worker_stat =
  ws_completed :: nat
  ws_avg :: real
  ws_rate :: real
  ws_last :: "real option"

record worker_health =
  wh_healthy :: bool
  wh_failures :: nat
  wh_last :: "real option"

record global_stats =
  gs_total :: nat
  gs_parallel :: nat
  gs_sequential :: nat
  gs_avg :: real
  gs_time :: real
  gs_rate :: real

record parallel_optimizer =
  po_workers :: int
  po_pool :: bool
  po_stats :: global_stats
  po_worker_stats :: "(string, worker_stat) dict"
  po_health :: "(string, worker_health) dict"

definition new_worker_stat :: worker_stat where
  "new_worker_stat = \<lparr>ws_completed = 0, ws_avg = 0, ws_rate = 1, ws_last = None\<rparr>"

definition new_worker_health :: worker_health where
  "new_worker_health = \<lparr>wh_healthy = True, wh_failures = 0, wh_last = None\<rparr>"

definition new_global_stats :: global_stats where
  "new_global_stats = \<lparr>gs_total = 0, gs_parallel = 0, gs_sequential = 0, gs_avg = 0, gs_time = 0, gs_rate = 0\<rparr>"

definition worker_name :: "nat \<Rightarrow> string" where
  "worker_name i = ''worker_'' @ show_nat i"

text \<open>\<open>made\<close> tells whether the pool could be created: not for fewer than one worker.\<close>

definition initialize_workers :: "ot_settings \<Rightarrow> bool \<Rightarrow> parallel_optimizer \<Rightarrow> parallel_optimizer" where
  "initialize_workers s made st =
     (if ORTOOLS_ENABLE_PARALLEL_OPTIMIZATION s \<and> made \<and> 0 < po_workers st
      then st\<lparr>po_pool := True, po_worker_stats := map (\<lambda>i. (worker_name i, new_worker_stat)) [0..<nat (po_workers st)],
              po_health := map (\<lambda>i. (worker_name i, new_worker_health)) [0..<nat (po_workers st)]\<rparr>
      else st)"

definition new_parallel_optimizer :: "ot_settings \<Rightarrow> int \<Rightarrow> bool \<Rightarrow> parallel_optimizer" where
  "new_parallel_optimizer s cpus made =
     initialize_workers s made
       \<lparr>po_workers = min cpus (ORTOOLS_MAX_PARALLEL_REQUESTS s), po_pool = False, po_stats = new_global_stats, po_worker_stats = [], po_health = []\<rparr>"

subsection \<open>Running the tasks\<close>

text \<open>
  What happens to a task: the call of the service ends with a value or an exception after a time, in a
  process; the future may also not be ready within 30 s, or the pool may be broken.
\<close>

datatype task_run =
    Ran string "pyval res" real \<comment> \<open>process, outcome, milliseconds\<close>
  | TooLate
  | PoolError py_error

definition execute_optimization_in_worker :: "optimization_task \<Rightarrow> string \<Rightarrow> pyval res \<Rightarrow> real \<Rightarrow> optimization_result" where
  "execute_optimization_in_worker t pid outcome ms =
     (case outcome of
        Inr d \<Rightarrow> \<lparr>or_id = tk_id t, or_success = True, or_data = Some d, or_error = None, or_ms = ms, or_worker = ''worker_'' @ pid, or_source = ''parallel''\<rparr>
      | Inl e \<Rightarrow> \<lparr>or_id = tk_id t, or_success = False, or_data = None, or_error = Some e, or_ms = ms, or_worker = ''worker_'' @ pid, or_source = ''parallel''\<rparr>)"

definition parallel_result :: "optimization_task \<Rightarrow> task_run \<Rightarrow> optimization_result" where
  "parallel_result t r =
     (case r of
        Ran pid outcome ms \<Rightarrow> execute_optimization_in_worker t pid outcome ms
      | TooLate \<Rightarrow>
          \<lparr>or_id = tk_id t, or_success = False, or_data = None, or_error = Some TimeoutError, or_ms = 30000, or_worker = ''timeout'', or_source = ''parallel''\<rparr>
      | PoolError e \<Rightarrow>
          \<lparr>or_id = tk_id t, or_success = False, or_data = None, or_error = Some e, or_ms = 0, or_worker = ''error'', or_source = ''parallel''\<rparr>)"

text \<open>\<open>service\<close> is the outcome of creating the service: \<open>None\<close> when it can be created; each call has its outcome and time.\<close>

definition sequential_result :: "optimization_task \<Rightarrow> pyval res \<times> real \<Rightarrow> optimization_result" where
  "sequential_result t r =
     (case fst r of
        Inr d \<Rightarrow>
          \<lparr>or_id = tk_id t, or_success = True, or_data = Some d, or_error = None, or_ms = snd r, or_worker = ''main_thread'', or_source = ''sequential''\<rparr>
      | Inl e \<Rightarrow>
          \<lparr>or_id = tk_id t, or_success = False, or_data = None, or_error = Some e, or_ms = snd r, or_worker = ''main_thread'', or_source = ''sequential''\<rparr>)"

definition process_sequential :: "py_error option \<Rightarrow> (optimization_task \<Rightarrow> pyval res \<times> real) \<Rightarrow> optimization_task list \<Rightarrow> optimization_result list" where
  "process_sequential service call tasks =
     (case service of
        Some e \<Rightarrow>
          map (\<lambda>t. \<lparr>or_id = tk_id t, or_success = False, or_data = None, or_error = Some e, or_ms = 0, or_worker = ''main_thread'',
            or_source = ''sequential''\<rparr>) tasks
      | None \<Rightarrow> map (\<lambda>t. sequential_result t (call t)) tasks)"

record task_env =
  te_service :: "py_error option"
  te_call :: "optimization_task \<Rightarrow> pyval res \<times> real"
  te_submit :: "optimization_task \<Rightarrow> unit res" \<comment> \<open>handing the task to the pool, which a broken pool refuses\<close>
  te_run :: "optimization_task \<Rightarrow> task_run"
  te_now :: real
  te_total_ms :: real

text \<open>A task that the pool does not take makes the whole batch raise, before any result is read.\<close>

definition process_parallel :: "task_env \<Rightarrow> parallel_optimizer \<Rightarrow> optimization_task list \<Rightarrow> optimization_result list res" where
  "process_parallel env st tasks =
     (if \<not> po_pool st then Inr (process_sequential (te_service env) (te_call env) tasks)
      else rbind (rmap_list (te_submit env) tasks) (\<lambda>us. Inr (map (\<lambda>t. parallel_result t (te_run env t)) tasks)))"

subsection \<open>Statistics\<close>

definition count_failure :: "real \<Rightarrow> worker_health \<Rightarrow> worker_health" where
  "count_failure now h =
     (let n = wh_failures h + 1 in h\<lparr>wh_failures := n, wh_last := Some now, wh_healthy := (if 3 < n then False else wh_healthy h)\<rparr>)"

definition count_result :: "real \<Rightarrow> optimization_result \<Rightarrow> worker_stat \<Rightarrow> worker_stat" where
  "count_result now r w =
     (let n = real (ws_completed w + 1)
      in w\<lparr>ws_completed := ws_completed w + 1, ws_last := Some now, ws_avg := (ws_avg w * (n - 1) + or_ms r) / n,
           ws_rate := (ws_rate w * (n - 1) + (if or_success r then 1 else 0)) / n\<rparr>)"

definition update_worker_stats :: "real \<Rightarrow> optimization_result \<Rightarrow> parallel_optimizer \<Rightarrow> parallel_optimizer" where
  "update_worker_stats now r st =
     (let k = or_worker r; w = (case map_of (po_worker_stats st) k of Some w \<Rightarrow> w | None \<Rightarrow> new_worker_stat);
          st1 = st\<lparr>po_worker_stats := dset k (count_result now r w) (po_worker_stats st)\<rparr>
      in if or_success r then st1
         else (case map_of (po_health st) k of None \<Rightarrow> st1 | Some h \<Rightarrow> st1\<lparr>po_health := dset k (count_failure now h) (po_health st)\<rparr>))"

definition successes :: "optimization_result list \<Rightarrow> nat" where
  "successes rs = length (filter or_success rs)"

definition batch_stats :: "optimization_result list \<Rightarrow> real \<Rightarrow> global_stats \<Rightarrow> global_stats" where
  "batch_stats rs total_ms g =
     (let n = length rs; t = gs_total g + n; rate = (if rs = [] then 0 else real (successes rs) / real n)
      in if 0 < t
         then g\<lparr>gs_total := t, gs_rate := gs_rate g * (real (t - n) / real t) + rate * (real n / real t), gs_time := gs_time g + total_ms,
                gs_avg := (gs_time g + total_ms) / real t\<rparr>
         else g\<lparr>gs_total := t\<rparr>)"

definition update_global_stats :: "real \<Rightarrow> optimization_result list \<Rightarrow> real \<Rightarrow> parallel_optimizer \<Rightarrow> parallel_optimizer" where
  "update_global_stats now rs total_ms st =
     fold (update_worker_stats now) rs (st\<lparr>po_stats := batch_stats rs total_ms (po_stats st)\<rparr>)"

definition optimize_parallel :: "ot_settings \<Rightarrow> task_env \<Rightarrow> optimization_task list \<Rightarrow> parallel_optimizer \<Rightarrow> optimization_result list res \<times> parallel_optimizer" where
  "optimize_parallel s env tasks st =
     (if tasks = [] then (Inr [], st)
      else
        let n = length tasks; together = 1 < n \<and> ORTOOLS_ENABLE_PARALLEL_OPTIMIZATION s \<and> po_pool st
        in case (if together then process_parallel env st tasks else Inr (process_sequential (te_service env) (te_call env) tasks)) of
             Inl e \<Rightarrow> (Inl e, st)
           | Inr rs \<Rightarrow>
               (let g = po_stats st;
                    g1 = (if together then g\<lparr>gs_parallel := gs_parallel g + n\<rparr> else g\<lparr>gs_sequential := gs_sequential g + n\<rparr>)
                in (Inr rs, update_global_stats (te_now env) rs (te_total_ms env) (st\<lparr>po_stats := g1\<rparr>))))"

definition batch_tasks :: "int \<Rightarrow> pydict list \<Rightarrow> optimization_task list" where
  "batch_tasks now requests =
     map (\<lambda>(i, r). \<lparr>tk_id = ''batch_'' @ show_nat i @ ''_'' @ show_int now, tk_places = dget r ''places'' (VList []),
        tk_preferences = dget r ''preferences'' (VDict []), tk_priority = dget r ''priority'' (VInt 1)\<rparr>) (enumerate 0 requests)"

definition optimize_parallel_batch :: "ot_settings \<Rightarrow> task_env \<Rightarrow> int \<Rightarrow> pydict list \<Rightarrow> parallel_optimizer \<Rightarrow> optimization_result list res \<times> parallel_optimizer" where
  "optimize_parallel_batch s env now requests = optimize_parallel s env (batch_tasks now requests)"

subsection \<open>Reports\<close>

definition healthy_workers :: "parallel_optimizer \<Rightarrow> nat" where
  "healthy_workers st = length (filter (\<lambda>(k, h). wh_healthy h) (po_health st))"

definition worker_utilization :: "parallel_optimizer \<Rightarrow> real" where
  "worker_utilization st = (if 0 < po_workers st then real (healthy_workers st) / real_of_int (po_workers st) else 0)"

definition parallel_efficiency :: "parallel_optimizer \<Rightarrow> real" where
  "parallel_efficiency st =
     (if gs_parallel (po_stats st) = 0 then 0
      else let speedup = min 2 (real_of_int (po_workers st) * 0.7) in min 1 (gs_rate (po_stats st) * speedup / 2))"

definition identify_bottlenecks :: "ot_settings \<Rightarrow> parallel_optimizer \<Rightarrow> string list" where
  "identify_bottlenecks s st =
     (let ill = length (po_health st) - healthy_workers st
      in (if 5000 < gs_avg (po_stats st) then [''high_avg_execution_time''] else []) @
         (if gs_rate (po_stats st) < 0.9 then [''low_success_rate''] else []) @
         (if 0 < ill then [''unhealthy_workers_'' @ show_nat ill] else []) @
         (if \<not> ORTOOLS_ENABLE_PARALLEL_OPTIMIZATION s then [''parallel_optimization_disabled''] else []))"

definition generate_recommendations :: "ot_settings \<Rightarrow> int \<Rightarrow> parallel_optimizer \<Rightarrow> string list" where
  "generate_recommendations s cpus st =
     (if real_of_int (ORTOOLS_EXPECTED_EXEC_TIME_MS s * 2) < gs_avg (po_stats st) then [''Consider reducing problem complexity or increasing timeout''] else []) @
     (if gs_parallel (po_stats st) < gs_sequential (po_stats st) then [''Enable parallel optimization for better performance''] else []) @
     (if po_workers st < cpus then [''Consider increasing max_workers from '' @ show_int (po_workers st) @ '' to '' @ show_int cpus] else [])"

record optimizer_report =
  rp_stats :: global_stats
  rp_enabled :: bool
  rp_active :: nat
  rp_utilization :: real
  rp_workers :: "(string, worker_stat) dict"
  rp_health :: "(string, worker_health) dict"
  rp_efficiency :: real
  rp_bottlenecks :: "string list"
  rp_recommendations :: "string list"

definition get_performance_stats :: "ot_settings \<Rightarrow> int \<Rightarrow> parallel_optimizer \<Rightarrow> optimizer_report" where
  "get_performance_stats s cpus st =
     \<lparr>rp_stats = (po_stats st)\<lparr>gs_avg := py_round 1 (gs_avg (po_stats st)), gs_rate := py_round 3 (gs_rate (po_stats st))\<rparr>,
      rp_enabled = ORTOOLS_ENABLE_PARALLEL_OPTIMIZATION s, rp_active = healthy_workers st, rp_utilization = py_round 3 (worker_utilization st),
      rp_workers = po_worker_stats st, rp_health = po_health st, rp_efficiency = parallel_efficiency st, rp_bottlenecks = identify_bottlenecks s st,
      rp_recommendations = generate_recommendations s cpus st\<rparr>"

subsection \<open>Lemmas\<close>

text \<open>The states an optimiser reaches with environments of a kind, with all the results so far.\<close>

inductive optimizer_reaches :: "(task_env \<Rightarrow> bool) \<Rightarrow> ot_settings \<Rightarrow> int \<Rightarrow> bool \<Rightarrow> optimization_result list \<Rightarrow> parallel_optimizer \<Rightarrow> bool"
  for E s cpus made where
  optimizer_new: "optimizer_reaches E s cpus made [] (new_parallel_optimizer s cpus made)"
| optimizer_batch: "optimizer_reaches E s cpus made rs st \<Longrightarrow> E env \<Longrightarrow> optimize_parallel s env tasks st = (Inr rs', st') \<Longrightarrow> optimizer_reaches E s cpus made (rs @ rs') st'"
| optimizer_refused: "optimizer_reaches E s cpus made rs st \<Longrightarrow> E env \<Longrightarrow> optimize_parallel s env tasks st = (Inl e, st') \<Longrightarrow> optimizer_reaches E s cpus made rs st'"

text \<open>What a batch is: results in the order of its tasks, or nothing changed.\<close>

lemma optimize_cases:
  assumes "optimize_parallel s env tasks st = (Inr rs, st')"
  obtains (nothing) "tasks = []" "rs = []" "st' = st"
  | (batch) g1 where "tasks \<noteq> []" "g1 = (if 1 < length tasks \<and> ORTOOLS_ENABLE_PARALLEL_OPTIMIZATION s \<and> po_pool st
        then (po_stats st)\<lparr>gs_parallel := gs_parallel (po_stats st) + length tasks\<rparr>
        else (po_stats st)\<lparr>gs_sequential := gs_sequential (po_stats st) + length tasks\<rparr>)"
      "rs = process_sequential (te_service env) (te_call env) tasks \<or> rs = map (\<lambda>t. parallel_result t (te_run env t)) tasks"
      "st' = update_global_stats (te_now env) rs (te_total_ms env) (st\<lparr>po_stats := g1\<rparr>)"
  using assms by (cases "tasks = []") (auto simp: optimize_parallel_def process_parallel_def Let_def rbind_eq_Inr_iff split: sum.splits if_splits)

lemma optimize_refused: "optimize_parallel s env tasks st = (Inl e, st') \<Longrightarrow> st' = st"
  by (auto simp: optimize_parallel_def Let_def split: if_splits sum.splits)

lemma update_worker_keeps:
  "po_stats (update_worker_stats now r st) = po_stats st \<and> po_pool (update_worker_stats now r st) = po_pool st \<and>
   po_workers (update_worker_stats now r st) = po_workers st"
  by (simp add: update_worker_stats_def Let_def split: option.splits)

lemma fold_worker_keeps:
  "po_stats (fold (update_worker_stats now) rs st) = po_stats st \<and> po_pool (fold (update_worker_stats now) rs st) = po_pool st \<and>
   po_workers (fold (update_worker_stats now) rs st) = po_workers st"
  by (induction rs arbitrary: st) (simp_all add: update_worker_keeps)

lemma successes_append: "successes (rs @ rs') = successes rs + successes rs'"
  by (simp add: successes_def)

lemma weighted_rate:
  assumes "r * real a = p" "0 < a + b"
  shows "(r * (real a / real (a + b)) + q / real b * (real b / real (a + b))) * real (a + b) = p + (if b = 0 then 0 else q)"
proof -
  define t where "t = real (a + b)"
  have t: "t \<noteq> 0" using assms(2) unfolding t_def by linarith
  have "(r * (real a / t) + q / real b * (real b / t)) * t = r * real a + q / real b * real b" using t by (simp add: distrib_right)
  then show ?thesis unfolding t_def [symmetric] using assms(1) by simp
qed

definition stats_exact :: "optimization_result list \<Rightarrow> global_stats \<Rightarrow> bool" where
  "stats_exact rs g \<longleftrightarrow> gs_total g = length rs \<and> gs_parallel g + gs_sequential g = length rs \<and> gs_rate g * real (length rs) = real (successes rs)"

lemma batch_exact:
  assumes "stats_exact rs g" "gs_parallel h + gs_sequential h = length rs + length rs'" "gs_total h = gs_total g" "gs_rate h = gs_rate g"
  shows "stats_exact (rs @ rs') (batch_stats rs' ms h)"
proof (cases "rs @ rs' = []")
  case True
  then show ?thesis using assms by (simp add: stats_exact_def batch_stats_def Let_def)
next
  case False
  have z: "rs' = [] \<Longrightarrow> real (successes rs') = 0" by (simp add: successes_def)
  have "gs_rate (batch_stats rs' ms h) * real (length rs + length rs') = real (successes rs) + real (successes rs')"
    using weighted_rate [of "gs_rate g" "length rs" "real (successes rs)" "length rs'" "real (successes rs')"] assms False z
    by (auto simp: stats_exact_def batch_stats_def Let_def)
  then show ?thesis using assms False by (simp add: stats_exact_def successes_append) (simp add: batch_stats_def Let_def)
qed

lemma optimize_stats:
  assumes "optimize_parallel s env tasks st = (Inr rs, st')" "stats_exact rs0 (po_stats st)"
  shows "stats_exact (rs0 @ rs) (po_stats st')"
  using assms(1)
proof (cases rule: optimize_cases)
  case nothing
  then show ?thesis using assms(2) by simp
next
  case (batch g1)
  have n: "length rs = length tasks" using batch(3) by (auto simp: process_sequential_def split: option.splits)
  have st': "po_stats st' = batch_stats rs (te_total_ms env) g1"
    unfolding batch(4) by (simp add: update_global_stats_def fold_worker_keeps)
  show ?thesis unfolding st'
    by (rule batch_exact [OF assms(2)]) (use assms(2) n batch(2) in \<open>auto simp: stats_exact_def\<close>)
qed

lemma reach_stats: "optimizer_reaches E s cpus made rs st \<Longrightarrow> stats_exact rs (po_stats st)"
proof (induction rule: optimizer_reaches.induct)
  case optimizer_new
  show ?case by (simp add: new_parallel_optimizer_def initialize_workers_def stats_exact_def new_global_stats_def successes_def)
qed (use optimize_stats optimize_refused in \<open>metis+\<close>)

text \<open>The figures of one worker against its results.\<close>

definition stat_exact :: "optimization_result list \<Rightarrow> worker_stat \<Rightarrow> bool" where
  "stat_exact rs w \<longleftrightarrow> ws_completed w = length rs \<and> ws_avg w * real (length rs) = sum_list (map or_ms rs) \<and> ws_rate w * real (length rs) = real (successes rs)"

definition of_worker :: "string \<Rightarrow> optimization_result list \<Rightarrow> optimization_result list" where
  "of_worker k rs = filter (\<lambda>r. or_worker r = k) rs"

definition workers_exact :: "optimization_result list \<Rightarrow> (string, worker_stat) dict \<Rightarrow> bool" where
  "workers_exact rs d \<longleftrightarrow> (\<forall>k. stat_exact (of_worker k rs) (case map_of d k of Some w \<Rightarrow> w | None \<Rightarrow> new_worker_stat)) \<and>
     (\<forall>r \<in> set rs. map_of d (or_worker r) \<noteq> None)"

lemma stat_new: "stat_exact [] new_worker_stat"
  by (simp add: stat_exact_def new_worker_stat_def successes_def)

lemma count_exact: "stat_exact rs w \<Longrightarrow> stat_exact (rs @ [r]) (count_result now r w)"
  by (simp add: stat_exact_def count_result_def Let_def successes_def add.commute)

lemma of_worker_snoc: "of_worker k (rs @ [r]) = (if or_worker r = k then of_worker k rs @ [r] else of_worker k rs)"
  by (simp add: of_worker_def)

lemma worker_dict: "po_worker_stats (update_worker_stats now r st) =
   dset (or_worker r) (count_result now r (case map_of (po_worker_stats st) (or_worker r) of Some w \<Rightarrow> w | None \<Rightarrow> new_worker_stat)) (po_worker_stats st)"
  by (simp add: update_worker_stats_def Let_def split: option.splits)

lemma update_worker_exact:
  assumes "workers_exact rs (po_worker_stats st)"
  shows "workers_exact (rs @ [r]) (po_worker_stats (update_worker_stats now r st))"
proof -
  have "stat_exact (of_worker (or_worker r) rs) (case map_of (po_worker_stats st) (or_worker r) of Some w \<Rightarrow> w | None \<Rightarrow> new_worker_stat)"
    using assms by (simp add: workers_exact_def)
  note c = count_exact [OF this, of r now]
  then show ?thesis using assms unfolding workers_exact_def worker_dict by (auto simp: of_worker_snoc)
qed

lemma fold_worker_exact:
  "workers_exact rs0 (po_worker_stats st) \<Longrightarrow> workers_exact (rs0 @ rs) (po_worker_stats (fold (update_worker_stats now) rs st))"
proof (induction rs arbitrary: st rs0)
  case (Cons r rs)
  show ?case using Cons.IH [OF update_worker_exact [OF Cons.prems]] by simp
qed simp

lemma optimize_workers:
  assumes "optimize_parallel s env tasks st = (Inr rs, st')" "workers_exact rs0 (po_worker_stats st)"
  shows "workers_exact (rs0 @ rs) (po_worker_stats st')"
  using assms(1)
proof (cases rule: optimize_cases)
  case nothing
  then show ?thesis using assms(2) by simp
next
  case (batch g1)
  then show ?thesis using assms(2) fold_worker_exact by (simp add: update_global_stats_def)
qed

lemma fresh_workers: "stat_exact [] (case map_of (map (\<lambda>i. (worker_name i, new_worker_stat)) is') k of Some w \<Rightarrow> w | None \<Rightarrow> new_worker_stat)"
  by (induction is') (simp_all add: stat_new)

lemma reach_workers: "optimizer_reaches E s cpus made rs st \<Longrightarrow> workers_exact rs (po_worker_stats st)"
proof (induction rule: optimizer_reaches.induct)
  case optimizer_new
  show ?case by (simp add: new_parallel_optimizer_def initialize_workers_def workers_exact_def of_worker_def fresh_workers stat_new)
qed (use optimize_workers optimize_refused in \<open>metis+\<close>)

text \<open>Results and health.\<close>

definition env_worker_ok :: "int \<Rightarrow> task_env \<Rightarrow> bool" where
  "env_worker_ok n env \<longleftrightarrow> (\<forall>t. case te_run env t of Ran pid r ms \<Rightarrow> (\<forall>i < nat n. pid \<noteq> show_nat i) | _ \<Rightarrow> True)"

lemma worker_name_inj: "''worker_'' @ p = worker_name i \<longleftrightarrow> p = show_nat i"
  by (simp add: worker_name_def)

lemma update_health:
  "or_worker r \<notin> set (keys (po_health st)) \<Longrightarrow> po_health (update_worker_stats now r st) = po_health st"
  by (simp add: update_worker_stats_def Let_def map_of_eq_None_iff split: option.splits)
    (metis map_of_eq_None_iff option.distinct(1) set_map)

lemma fold_health:
  "\<forall>r \<in> set rs. or_worker r \<notin> set (keys (po_health st)) \<Longrightarrow> po_health (fold (update_worker_stats now) rs st) = po_health st"
  by (induction rs arbitrary: st) (simp_all add: update_health)

definition initial_health :: "int \<Rightarrow> (string, worker_health) dict" where
  "initial_health n = map (\<lambda>i. (worker_name i, new_worker_health)) [0..<nat n]"

lemma result_workers:
  assumes "optimize_parallel s env tasks st = (Inr rs, st')" "r \<in> set rs"
  shows "or_worker r \<in> {''main_thread'', ''timeout'', ''error''} \<or> (\<exists>t pid x ms. te_run env t = Ran pid x ms \<and> or_worker r = ''worker_'' @ pid)"
proof -
  have p: "or_worker r \<in> {''main_thread'', ''timeout'', ''error''} \<or> (\<exists>t pid x ms. te_run env t = Ran pid x ms \<and> or_worker r = ''worker_'' @ pid)"
    if "r = parallel_result t (te_run env t)" for t
    using that by (cases "te_run env t") (auto simp: parallel_result_def execute_optimization_in_worker_def split: sum.splits)
  have q: "or_worker r = ''main_thread''" if "r \<in> set (process_sequential v c ts)" for v c ts
    using that by (auto simp: process_sequential_def sequential_result_def split: option.splits sum.splits)
  from assms(1) have "r \<in> set (process_sequential (te_service env) (te_call env) tasks) \<or> r \<in> (\<lambda>t. parallel_result t (te_run env t)) ` set tasks"
  proof (cases rule: optimize_cases)
    case nothing
    then show ?thesis using assms(2) by simp
  next
    case (batch g1)
    then show ?thesis using assms(2) by auto
  qed
  then show ?thesis using p q by auto
qed

lemma named_worker: "k \<in> set (keys (initial_health n)) \<Longrightarrow> \<exists>i < nat n. k = worker_name i"
  by (auto simp: initial_health_def)

lemma named_worker_start: "worker_name i \<notin> {''main_thread'', ''timeout'', ''error''}"
  by (simp add: worker_name_def)

lemma foreign_worker:
  assumes "optimize_parallel s env tasks st = (Inr rs, st')" "r \<in> set rs" "env_worker_ok n env"
  shows "or_worker r \<notin> set (keys (initial_health n))"
proof
  assume "or_worker r \<in> set (keys (initial_health n))"
  then obtain i where i: "i < nat n" "or_worker r = worker_name i" using named_worker by blast
  then obtain t pid x ms where "te_run env t = Ran pid x ms" "pid = show_nat i"
    using result_workers [OF assms(1,2)] named_worker_start [of i] worker_name_inj by metis
  moreover have "case te_run env t of Ran pid r ms \<Rightarrow> (\<forall>i < nat n. pid \<noteq> show_nat i) | _ \<Rightarrow> True" using assms(3) by (simp add: env_worker_ok_def)
  ultimately show False using i(1) by auto
qed

lemma optimize_health:
  assumes "optimize_parallel s env tasks st = (Inr rs, st')" "\<forall>r \<in> set rs. or_worker r \<notin> set (keys (po_health st))"
  shows "po_health st' = po_health st \<and> po_workers st' = po_workers st"
  using assms(1)
proof (cases rule: optimize_cases)
  case (batch g1)
  then show ?thesis using assms(2) fold_health [of rs] by (simp add: update_global_stats_def fold_worker_keeps)
qed simp

lemma reach_health:
  "optimizer_reaches (env_worker_ok n) s cpus made rs st \<Longrightarrow> n = min cpus (ORTOOLS_MAX_PARALLEL_REQUESTS s) \<Longrightarrow>
   po_health st \<in> {[], initial_health n} \<and> po_workers st = n"
proof (induction rule: optimizer_reaches.induct)
  case optimizer_new
  then show ?case by (simp add: new_parallel_optimizer_def initialize_workers_def initial_health_def)
next
  case (optimizer_batch rs st env tasks rs' st')
  then have h: "po_health st \<in> {[], initial_health n}" "env_worker_ok n env" by simp_all
  have "or_worker r \<notin> set (keys (po_health st))" if "r \<in> set rs'" for r
    using foreign_worker [OF optimizer_batch.hyps(3) that h(2)] h(1) by auto
  with optimize_health [OF optimizer_batch.hyps(3)] optimizer_batch show ?case by auto
next
  case (optimizer_refused rs st env tasks e st')
  then show ?case using optimize_refused by metis
qed

subsection \<open>Properties\<close>

text \<open>
  a batch gives exactly one result for each task, in the order of the tasks, each named after its
  task: a failure of one task, of the pool or of the service never loses another's result.
\<close>

theorem one_result_per_task:
  "case optimize_parallel s env tasks st of
     (Inl e, st') \<Rightarrow> st' = st \<and> (\<exists>t \<in> set tasks. te_submit env t = Inl e)
   | (Inr rs, st') \<Rightarrow> map or_id rs = map tk_id tasks"
proof -
  have p: "or_id (parallel_result t r) = tk_id t" for t r
    by (simp add: parallel_result_def execute_optimization_in_worker_def split: task_run.splits sum.splits)
  have q: "map or_id (process_sequential v c tasks) = map tk_id tasks" for v c
    by (simp add: process_sequential_def sequential_result_def split: option.splits sum.splits)
  have e: "rmap_list f xs = Inl e \<Longrightarrow> \<exists>x \<in> set xs. f x = Inl e" for f :: "optimization_task \<Rightarrow> unit res" and xs e
    by (induction xs) (auto simp: rbind_def split: sum.splits)
  show ?thesis
  proof (cases "optimize_parallel s env tasks st")
    case (Pair r st')
    show ?thesis
    proof (cases r)
      case (Inl x)
      then have "optimize_parallel s env tasks st = (Inl x, st')" using Pair by simp
      then have "rmap_list (te_submit env) tasks = Inl x"
        by (auto simp: optimize_parallel_def process_parallel_def Let_def rbind_def split: if_splits sum.splits)
      from e [OF this] optimize_refused [of s env tasks st x st'] Pair Inl show ?thesis by simp
    next
      case (Inr rs)
      then have "optimize_parallel s env tasks st = (Inr rs, st')" using Pair by simp
      then have "map or_id rs = map tk_id tasks"
        by (cases rule: optimize_cases) (auto simp: p q)
      then show ?thesis using Pair Inr by simp
    qed
  qed
qed

text \<open>
  C33: after any batches, every result has been counted once as parallel or sequential, and the reported
  success rate is exactly the share of the successful results, however it was averaged.
\<close>

theorem global_statistics_are_exact:
  "optimizer_reaches E s cpus made rs st \<Longrightarrow>
   gs_total (po_stats st) = length rs \<and> gs_parallel (po_stats st) + gs_sequential (po_stats st) = length rs \<and>
   gs_rate (po_stats st) * real (length rs) = real (successes rs)"
  using reach_stats by (simp add: stats_exact_def)

definition one_task :: optimization_task where
  "one_task = \<lparr>tk_id = ''a'', tk_places = VList [], tk_preferences = VDict [], tk_priority = VInt 1\<rparr>"

definition lucky_env :: task_env where
  "lucky_env = \<lparr>te_service = None, te_call = (\<lambda>t. (Inr (VDict []), 100)), te_submit = (\<lambda>t. Inr ()), te_run = (\<lambda>t. Ran ''4711'' (Inr (VDict [])) 100), te_now = 0, te_total_ms = 100\<rparr>"

lemma lucky_batch:
  "optimize_parallel default_ot_settings lucky_env [one_task] st = (Inr (projr (fst (optimize_parallel default_ot_settings lucky_env [one_task] st))),
     snd (optimize_parallel default_ot_settings lucky_env [one_task] st))"
  by (simp add: optimize_parallel_def process_parallel_def lucky_env_def Let_def rbind_def)

theorem global_statistics_are_exact_witness:
  "gs_total (po_stats (snd (optimize_parallel default_ot_settings lucky_env [one_task] (new_parallel_optimizer default_ot_settings 4 True)))) = 1"
proof -
  let ?p = "optimize_parallel default_ot_settings lucky_env [one_task] (new_parallel_optimizer default_ot_settings 4 True)"
  have "optimizer_reaches (\<lambda>_. True) default_ot_settings 4 True ([] @ projr (fst ?p)) (snd ?p)"
    by (rule optimizer_batch [OF optimizer_new _ lucky_batch]) simp
  then have "gs_total (po_stats (snd ?p)) = length ([] @ projr (fst ?p))" by (rule global_statistics_are_exact [THEN conjunct1])
  moreover have "length (projr (fst ?p)) = 1" by (simp add: optimize_parallel_def process_sequential_def lucky_env_def Let_def)
  ultimately show ?thesis by simp
qed

text \<open>
  the figures of a worker are those of the results it produced: their number, the mean of their times
  and the share of the successful ones.
\<close>

theorem worker_statistics_are_exact:
  assumes "optimizer_reaches E s cpus made rs st" "map_of (po_worker_stats st) k = Some w" "of_worker k rs \<noteq> []"
  shows "ws_completed w = length (of_worker k rs) \<and> ws_avg w = sum_list (map or_ms (of_worker k rs)) / real (length (of_worker k rs)) \<and>
    ws_rate w = real (successes (of_worker k rs)) / real (length (of_worker k rs))"
proof -
  have "stat_exact (of_worker k rs) w" using reach_workers [OF assms(1)] assms(2) by (auto simp: workers_exact_def dest: spec [of _ k])
  then show ?thesis using assms(3) by (simp add: stat_exact_def eq_divide_eq)
qed

theorem worker_statistics_are_exact_witness:
  "\<exists>w. map_of (po_worker_stats (snd (optimize_parallel default_ot_settings lucky_env [one_task] (new_parallel_optimizer default_ot_settings 4 True)))) ''main_thread'' = Some w \<and> ws_avg w = 100"
proof -
  let ?p = "optimize_parallel default_ot_settings lucky_env [one_task] (new_parallel_optimizer default_ot_settings 4 True)"
  have r: "optimizer_reaches (\<lambda>_. True) default_ot_settings 4 True ([] @ projr (fst ?p)) (snd ?p)"
    by (rule optimizer_batch [OF optimizer_new _ lucky_batch]) simp
  have f: "projr (fst ?p) = [\<lparr>or_id = ''a'', or_success = True, or_data = Some (VDict []), or_error = None, or_ms = 100, or_worker = ''main_thread'', or_source = ''sequential''\<rparr>]"
    by (simp add: optimize_parallel_def process_sequential_def sequential_result_def lucky_env_def one_task_def Let_def)
  have "map_of (po_worker_stats (snd ?p)) ''main_thread'' \<noteq> None" using reach_workers [OF r] f by (simp add: workers_exact_def)
  then obtain w where w: "map_of (po_worker_stats (snd ?p)) ''main_thread'' = Some w" by blast
  have "ws_avg w = 100" using worker_statistics_are_exact [OF r w] by (simp add: f of_worker_def)
  with w show ?thesis by blast
qed

text \<open>The service the tasks call lacks both methods: each call raises an AttributeError.\<close>

definition service_without_methods :: "task_env \<Rightarrow> bool" where
  "service_without_methods env \<longleftrightarrow> (\<forall>t. fst (te_call env t) = Inl AttributeError) \<and>
     (\<forall>t. case te_run env t of Ran pid r ms \<Rightarrow> r = Inl AttributeError | _ \<Rightarrow> True)"

lemma missing_methods_fail:
  assumes "service_without_methods env" "optimize_parallel s env tasks st = (Inr rs, st')" "r \<in> set rs"
  shows "\<not> or_success r"
proof -
  have p: "\<not> or_success (parallel_result t (te_run env t))" for t
    using assms(1) by (cases "te_run env t") (auto simp: parallel_result_def execute_optimization_in_worker_def service_without_methods_def split: sum.splits dest: spec [of _ t])
  have q: "\<not> or_success x" if "x \<in> set (process_sequential v (te_call env) tasks)" for x v
    using that assms(1) by (auto simp: process_sequential_def sequential_result_def service_without_methods_def split: option.splits)
  from assms(2) show ?thesis using assms(3) p q by (cases rule: optimize_cases) auto
qed

text \<open>
  with the service of the repository, which has neither of the two methods used, every result is a failure, for batches of any size, whether or not they run in parallel, and
  the success rate stays zero.
\<close>

theorem no_optimization_ever_succeeds:
  assumes "optimizer_reaches service_without_methods s cpus made rs st"
  shows "(\<forall>r \<in> set rs. \<not> or_success r) \<and> gs_rate (po_stats st) * real (length rs) = 0"
proof -
  have "\<forall>r \<in> set rs. \<not> or_success r" using assms
  proof (induction rule: optimizer_reaches.induct)
    case (optimizer_batch rs st env tasks rs' st')
    have "\<forall>r \<in> set rs'. \<not> or_success r" using missing_methods_fail [OF optimizer_batch.hyps(2,3)] by blast
    with optimizer_batch.IH show ?case by auto
  qed simp
  then show ?thesis using reach_stats [OF assms] by (simp add: stats_exact_def successes_def)
qed

definition repository_env :: task_env where
  "repository_env = \<lparr>te_service = None, te_call = (\<lambda>t. (Inl AttributeError, 1)), te_submit = (\<lambda>t. Inr ()), te_run = (\<lambda>t. Ran ''4711'' (Inl AttributeError) 1), te_now = 0, te_total_ms = 2\<rparr>"

lemma repository_batch:
  "optimize_parallel default_ot_settings repository_env [one_task, one_task] st =
   (Inr (projr (fst (optimize_parallel default_ot_settings repository_env [one_task, one_task] st))),
    snd (optimize_parallel default_ot_settings repository_env [one_task, one_task] st))"
  by (simp add: optimize_parallel_def process_parallel_def repository_env_def Let_def rbind_def)

theorem no_optimization_ever_succeeds_witness:
  "list_all (\<lambda>r. \<not> or_success r) (projr (fst (optimize_parallel default_ot_settings repository_env [one_task, one_task] (new_parallel_optimizer default_ot_settings 4 True))))"
proof -
  let ?p = "optimize_parallel default_ot_settings repository_env [one_task, one_task] (new_parallel_optimizer default_ot_settings 4 True)"
  have "optimizer_reaches service_without_methods default_ot_settings 4 True ([] @ projr (fst ?p)) (snd ?p)"
    by (rule optimizer_batch [OF optimizer_new _ repository_batch]) (simp add: service_without_methods_def repository_env_def)
  then have "\<forall>r \<in> set ([] @ projr (fst ?p)). \<not> or_success r" by (rule no_optimization_ever_succeeds [THEN conjunct1])
  then show ?thesis by (simp add: list_all_iff)
qed

text \<open>
  the health of a worker is kept under its number and its results come under the number of its process;
  as long as no process has a number below that of the workers, no failure is ever counted and every worker stays healthy.
\<close>

theorem workers_never_become_unhealthy:
  assumes "optimizer_reaches (env_worker_ok (min cpus (ORTOOLS_MAX_PARALLEL_REQUESTS s))) s cpus made rs st"
  shows "(\<forall>h \<in> set (map snd (po_health st)). wh_healthy h \<and> wh_failures h = 0) \<and> healthy_workers st = length (po_health st)"
proof -
  have "po_health st \<in> {[], initial_health (min cpus (ORTOOLS_MAX_PARALLEL_REQUESTS s))}" using reach_health [OF assms] by simp
  then have a: "\<forall>h \<in> set (map snd (po_health st)). h = new_worker_health" by (auto simp: initial_health_def)
  then have "filter (\<lambda>(k, h). wh_healthy h) (po_health st) = po_health st" by (auto simp: filter_id_conv new_worker_health_def)
  with a show ?thesis by (simp add: healthy_workers_def new_worker_health_def)
qed

theorem workers_never_become_unhealthy_witness:
  "healthy_workers (snd (optimize_parallel default_ot_settings repository_env [one_task, one_task] (new_parallel_optimizer default_ot_settings 4 True))) =
   length (po_health (snd (optimize_parallel default_ot_settings repository_env [one_task, one_task] (new_parallel_optimizer default_ot_settings 4 True))))"
proof -
  let ?p = "optimize_parallel default_ot_settings repository_env [one_task, one_task] (new_parallel_optimizer default_ot_settings 4 True)"
  have "''4711'' \<noteq> show_nat i" if "i < 3" for i
  proof -
    have "i = 0 \<or> i = 1 \<or> i = 2" using that by linarith
    then show ?thesis by (auto simp: show_nat.simps)
  qed
  then have e: "env_worker_ok (min 4 (ORTOOLS_MAX_PARALLEL_REQUESTS default_ot_settings)) repository_env"
    by (simp add: env_worker_ok_def repository_env_def default_ot_settings_def)
  have "optimizer_reaches (env_worker_ok (min 4 (ORTOOLS_MAX_PARALLEL_REQUESTS default_ot_settings))) default_ot_settings 4 True ([] @ projr (fst ?p)) (snd ?p)"
    by (rule optimizer_batch [OF optimizer_new _ repository_batch]) (rule e)
  then show ?thesis by (rule workers_never_become_unhealthy [THEN conjunct2])
qed

end
