(* ===== verification/GeoCache.thy ===== *)
theory GeoCache
  imports Geo Caches Scheduling Decisions "HOL-Library.List_Lexorder" "HOL-Library.Char_ord"
begin

section \<open>The cache of places\<close>

text \<open>
  src/utils/geographic\_cache\_manager.py: results of searches kept in memory and on disk, each with the centre,
  the radius and the types of its search.  The digest of a key is its parts, the directory is a dictionary of
  files by key (\<open>None\<close> is a file that cannot be read), and the clock and the success of a write are arguments.
\<close>

subsection \<open>Entries and keys\<close>

record cache_entry =
  ge_data :: "pydict list"
  ge_created :: real
  ge_accessed :: real
  ge_count :: nat
  ge_location :: coord
  ge_radius :: real
  ge_types :: "string list"
  ge_ttl :: real

type_synonym geo_key = "real \<times> real \<times> real \<times> string"

record geo_cache =
  gm_default_ttl :: real
  gm_memory :: "(geo_key, cache_entry) dict"
  gm_disk :: "(geo_key, cache_entry option) dict"

definition day_s :: real where
  "day_s = 24 * 3600"

definition ttl_by_type :: "(string \<times> real) list" where
  "ttl_by_type =
     [(''tourist_attraction'', 7 * day_s), (''museum'', 7 * day_s), (''park'', 5 * day_s), (''monument'', 14 * day_s),
      (''church'', 14 * day_s), (''restaurant'', 2 * day_s), (''cafe'', 2 * day_s), (''bar'', day_s), (''lodging'', 3 * day_s),
      (''shopping_mall'', 5 * day_s), (''point_of_interest'', 3 * day_s)]"

definition calculate_ttl :: "real \<Rightarrow> string list \<Rightarrow> real" where
  "calculate_ttl dflt types =
     (if types = [] then dflt
      else Min ((\<lambda>t. case map_of ttl_by_type t of Some x \<Rightarrow> x | None \<Rightarrow> dflt) ` set types))"

definition geo_cache_key :: "real \<Rightarrow> real \<Rightarrow> real \<Rightarrow> string list \<Rightarrow> geo_key" where
  "geo_cache_key lat lon radius types =
     (py_round 3 lat, py_round 3 lon, radius, join_with '','' (sort (map (\<lambda>t. strip (lower t)) types)))"

text \<open>The great-circle distance in metres.\<close>

definition haversine_m :: "coord \<Rightarrow> coord \<Rightarrow> real" where
  "haversine_m c1 c2 =
     (let la1 = radians (fst c1); lo1 = radians (snd c1); la2 = radians (fst c2); lo2 = radians (snd c2);
          a = (sin ((la2 - la1) / 2))\<^sup>2 + cos la1 * cos la2 * (sin ((lo2 - lo1) / 2))\<^sup>2
      in 6371000 * (2 * atan2 (sqrt a) (sqrt (1 - a))))"

definition covers_search :: "coord \<Rightarrow> coord \<Rightarrow> real \<Rightarrow> real \<Rightarrow> bool" where
  "covers_search center location search_radius cache_radius \<longleftrightarrow>
     (let distance = haversine_m center location in distance \<le> min cache_radius (search_radius + distance))"

subsection \<open>Lookup\<close>

text \<open>One cached place: \<open>None\<close> when it is filtered out, else its distance with the copy that is returned.\<close>

definition filter_place :: "coord \<Rightarrow> real \<Rightarrow> string list \<Rightarrow> pydict \<Rightarrow> (real \<times> pydict) option res" where
  "filter_place center radius types place =
     rbind (need_num (dget place ''lat'' (VInt 0))) (\<lambda>lat. rbind (need_num (dget place ''lon'' (VInt 0))) (\<lambda>lon.
     let d = haversine_m center (lat, lon)
     in if radius < d then Inr None
        else rbind (vlower (dget place ''type'' (VStr []))) (\<lambda>t.
          if types \<noteq> [] \<and> t \<notin> set (map lower types) then Inr None
          else Inr (Some (d, dset ''cache_hit'' (VBool True) (dset ''distance_m'' (VFloat d) place))))))"

definition filter_cached_results :: "pydict list \<Rightarrow> coord \<Rightarrow> real \<Rightarrow> string list \<Rightarrow> pydict list res" where
  "filter_cached_results data center radius types =
     rbind (rmap_list (filter_place center radius types) data) (\<lambda>rs. Inr (map snd (sort_key fst (List.map_filter id rs))))"

definition serves :: "real \<Rightarrow> coord \<Rightarrow> real \<Rightarrow> string list \<Rightarrow> cache_entry \<Rightarrow> bool" where
  "serves now center radius types e \<longleftrightarrow>
     covers_search center (ge_location e) radius (ge_radius e) \<and> (\<exists>t \<in> set types. t \<in> set (ge_types e)) \<and> now - ge_created e \<le> ge_ttl e"

definition touch_entry :: "real \<Rightarrow> cache_entry \<Rightarrow> cache_entry" where
  "touch_entry now e = e\<lparr>ge_accessed := now, ge_count := ge_count e + 1\<rparr>"

definition default_types :: "string list" where
  "default_types = [''tourist_attraction'', ''restaurant'', ''point_of_interest'']"

definition get_cached_places ::
  "real \<Rightarrow> coord \<Rightarrow> real \<Rightarrow> string list option \<Rightarrow> geo_cache \<Rightarrow> pydict list option res \<times> geo_cache" where
  "get_cached_places now center radius place_types st =
     (let types = (case place_types of Some ts \<Rightarrow> ts | None \<Rightarrow> default_types)
      in case find (\<lambda>(k, e). serves now center radius types e) (gm_memory st) of
           None \<Rightarrow> (Inr None, st)
         | Some (k, e) \<Rightarrow>
             (case filter_cached_results (ge_data e) center radius types of Inl x \<Rightarrow> Inl x | Inr ps \<Rightarrow> Inr (Some ps),
              st\<lparr>gm_memory := dset k (touch_entry now e) (gm_memory st)\<rparr>))"

subsection \<open>Storing\<close>

definition save_to_disk :: "bool \<Rightarrow> geo_key \<Rightarrow> cache_entry \<Rightarrow> geo_cache \<Rightarrow> geo_cache" where
  "save_to_disk written k e st = (if written then st\<lparr>gm_disk := dset k (Some e) (gm_disk st)\<rparr> else st)"

definition cache_places :: "real \<Rightarrow> bool \<Rightarrow> coord \<Rightarrow> real \<Rightarrow> string list \<Rightarrow> pydict list \<Rightarrow> geo_cache \<Rightarrow> geo_cache" where
  "cache_places now written center radius types data st =
     (if data = [] then st
      else
        let k = geo_cache_key (fst center) (snd center) radius types;
            e = \<lparr>ge_data = data, ge_created = now, ge_accessed = now, ge_count = 1, ge_location = center, ge_radius = radius,
                 ge_types = types, ge_ttl = calculate_ttl (gm_default_ttl st) types\<rparr>
        in save_to_disk written k e (st\<lparr>gm_memory := dset k e (gm_memory st)\<rparr>))"

subsection \<open>Starting, cleaning and clearing\<close>

text \<open>A file that cannot be read is deleted.\<close>

definition load_from_disk :: "geo_cache \<Rightarrow> geo_cache" where
  "load_from_disk st =
     st\<lparr>gm_memory := fold (\<lambda>(k, f) m. case f of Some e \<Rightarrow> dset k e m | None \<Rightarrow> m) (gm_disk st) (gm_memory st),
        gm_disk := filter (\<lambda>(k, f). f \<noteq> None) (gm_disk st)\<rparr>"

definition remove_keys :: "geo_key list \<Rightarrow> geo_cache \<Rightarrow> geo_cache" where
  "remove_keys ks st = st\<lparr>gm_memory := fold ddel ks (gm_memory st), gm_disk := fold ddel ks (gm_disk st)\<rparr>"

definition geo_expired :: "real \<Rightarrow> cache_entry \<Rightarrow> bool" where
  "geo_expired now e \<longleftrightarrow> ge_ttl e < now - ge_created e"

definition cleanup_expired :: "real \<Rightarrow> geo_cache \<Rightarrow> geo_cache" where
  "cleanup_expired now st = remove_keys (map fst (filter (\<lambda>(k, e). geo_expired now e) (gm_memory st))) st"

definition start_cache :: "real \<Rightarrow> real \<Rightarrow> (geo_key, cache_entry option) dict \<Rightarrow> geo_cache" where
  "start_cache now hours disk =
     cleanup_expired now (load_from_disk \<lparr>gm_default_ttl = hours * 3600, gm_memory = [], gm_disk = disk\<rparr>)"

definition clear_geo_cache :: "real \<Rightarrow> real option \<Rightarrow> geo_cache \<Rightarrow> nat \<times> geo_cache" where
  "clear_geo_cache now older_than_hours st =
     (case older_than_hours of
        None \<Rightarrow> (length (gm_memory st), st\<lparr>gm_memory := [], gm_disk := []\<rparr>)
      | Some h \<Rightarrow>
          (let ks = map fst (filter (\<lambda>(k, e). h * 3600 < now - ge_created e) (gm_memory st)) in (length ks, remove_keys ks st)))"

record geo_stats =
  gt_entries :: nat
  gt_places :: nat
  gt_size_mb :: real
  gt_places_avg :: real
  gt_access_avg :: real
  gt_ttl_hours :: real
  gt_potential :: string

text \<open>\<open>bytes\<close> is the size of the files.\<close>

definition get_geo_stats :: "real \<Rightarrow> nat \<Rightarrow> geo_cache \<Rightarrow> geo_stats" where
  "get_geo_stats now bytes st =
     (let es = map snd (gm_memory st); n = length es; places = sum_list (map (\<lambda>e. length (ge_data e)) es)
      in \<lparr>gt_entries = n, gt_places = places, gt_size_mb = real bytes / (1024 * 1024),
          gt_places_avg = (if 0 < n then real places / real n else 0),
          gt_access_avg = (if es = [] then 0 else real (sum_list (map ge_count es)) / real n),
          gt_ttl_hours = (if es = [] then 0 else sum_list (map (\<lambda>e. max 0 (ge_ttl e - (now - ge_created e))) es) / real n) / 3600,
          gt_potential = (if 10 < n then ''80-90%'' else ''Insufficient data'')\<rparr>)"

subsection \<open>Lemmas\<close>

lemma haversine_m_eq: "haversine_m p q = 1000 * haversine_atan2 p q"
  by (cases p; cases q) (simp add: haversine_m_def haversine_atan2_def Let_def)

lemma haversine_m_nonneg: "0 \<le> haversine_m p q"
  by (simp add: haversine_m_eq haversine_atan2_nonneg)

lemma haversine_m_self [simp]: "haversine_m p p = 0"
  by (simp add: haversine_m_def atan2_def)

lemma default_ttl_by_type: "map_of ttl_by_type t = Some x \<Longrightarrow> day_s \<le> x \<and> x \<le> 14 * day_s"
  by (auto simp: ttl_by_type_def day_s_def split: if_splits)

lemma ttl_bounds:
  assumes "day_s \<le> d" "d \<le> 14 * day_s"
  shows "day_s \<le> calculate_ttl d types \<and> calculate_ttl d types \<le> 14 * day_s"
proof (cases "types = []")
  case False
  let ?f = "\<lambda>t. case map_of ttl_by_type t of Some x \<Rightarrow> x | None \<Rightarrow> d"
  have "Min (?f ` set types) \<in> ?f ` set types" using False by (intro Min_in) auto
  then obtain t where t: "Min (?f ` set types) = ?f t" by blast
  have c: "calculate_ttl d types = ?f t" unfolding calculate_ttl_def t [symmetric] using False by simp
  show ?thesis unfolding c using assms default_ttl_by_type [of t] by (cases "map_of ttl_by_type t") auto
qed (simp add: calculate_ttl_def assms)

lemma ttl_least: "t \<in> set types \<Longrightarrow> map_of ttl_by_type t = Some x \<Longrightarrow> calculate_ttl d types \<le> x"
  by (auto simp: calculate_ttl_def intro!: Min_le image_eqI [of _ _ t])

text \<open>A found entry is in the dictionary, and serves.\<close>

lemma first_match: "find P xs = Some x \<Longrightarrow> x \<in> set xs \<and> P x"
  by (induction xs) (auto split: if_splits)

lemma found_entry:
  assumes "find (\<lambda>(k, e). serves now center radius types e) m = Some (k, e)"
  shows "(k, e) \<in> set m \<and> serves now center radius types e"
  using first_match [OF assms] by simp

subsection \<open>The disk mirrors the memory\<close>

definition as_stored :: "cache_entry \<Rightarrow> cache_entry" where
  "as_stored e = e\<lparr>ge_accessed := ge_created e, ge_count := 1\<rparr>"

definition files_of :: "(geo_key, cache_entry) dict \<Rightarrow> (geo_key, cache_entry option) dict" where
  "files_of m = map (\<lambda>(k, e). (k, Some (as_stored e))) m"

lemma files_Nil [simp]: "files_of [] = []"
  by (simp add: files_of_def)

lemma files_dset: "files_of (dset k e m) = dset k (Some (as_stored e)) (files_of m)"
  by (induction m) (auto simp: files_of_def)

lemma files_ddel: "files_of (ddel k m) = ddel k (files_of m)"
  by (induction m) (auto simp: files_of_def)

lemma files_fold_ddel: "files_of (fold ddel ks m) = fold ddel ks (files_of m)"
  by (induction ks arbitrary: m) (simp_all add: files_ddel)

lemma files_touch: "is_dict m \<Longrightarrow> (k, e) \<in> set m \<Longrightarrow> files_of (dset k (touch_entry now e) m) = files_of m"
proof (induction m)
  case (Cons x m)
  obtain k' e' where x: "x = (k', e')" by (cases x)
  show ?case
  proof (cases "k' = k")
    case True
    with Cons.prems have "e' = e" by (force simp: x is_dict_def)
    then show ?thesis using True by (simp add: x files_of_def touch_entry_def as_stored_def)
  next
    case False
    then show ?thesis using Cons by (simp add: x files_of_def is_dict_def)
  qed
qed simp

definition entry_ok :: "real \<Rightarrow> cache_entry \<Rightarrow> bool" where
  "entry_ok now e \<longleftrightarrow> ge_data e \<noteq> [] \<and> 1 \<le> ge_count e \<and> ge_created e \<le> ge_accessed e \<and> ge_accessed e \<le> now \<and>
     day_s \<le> ge_ttl e \<and> ge_ttl e \<le> 14 * day_s"

definition geo_ok :: "real \<Rightarrow> geo_cache \<Rightarrow> bool" where
  "geo_ok now st \<longleftrightarrow> gm_default_ttl st = 24 * 3600 \<and> is_dict (gm_memory st) \<and> (\<forall>e \<in> set (map snd (gm_memory st)). entry_ok now e) \<and>
     gm_disk st = files_of (gm_memory st)"

text \<open>
  The states of a cache whose writes succeed, with a clock that does not go back: lookups, stores, clearings
  and restarts from the files. (A write that fails is only logged: the memory then has an entry that no file has.)
\<close>

inductive geo_reaches :: "real \<Rightarrow> geo_cache \<Rightarrow> bool" where
  geo_new: "geo_reaches now (start_cache now 24 [])"
| geo_get: "geo_reaches t st \<Longrightarrow> t \<le> now \<Longrightarrow> geo_reaches now (snd (get_cached_places now center radius types st))"
| geo_put: "geo_reaches t st \<Longrightarrow> t \<le> now \<Longrightarrow> geo_reaches now (cache_places now True center radius types data st)"
| geo_clear: "geo_reaches t st \<Longrightarrow> t \<le> now \<Longrightarrow> geo_reaches now (snd (clear_geo_cache now hours st))"
| geo_restart: "geo_reaches t st \<Longrightarrow> t \<le> now \<Longrightarrow> geo_reaches now (start_cache now 24 (gm_disk st))"

inductive_cases geo_reachesE: "geo_reaches now st"

lemma entry_ok_later: "entry_ok t e \<Longrightarrow> t \<le> now \<Longrightarrow> entry_ok now e"
  by (auto simp: entry_ok_def)

lemma geo_ok_later: "geo_ok t st \<Longrightarrow> t \<le> now \<Longrightarrow> geo_ok now st"
  by (auto simp: geo_ok_def intro: entry_ok_later)

lemma dset_values: "\<forall>e \<in> set (map snd m). P e \<Longrightarrow> P v \<Longrightarrow> \<forall>e \<in> set (map snd (dset k v m)). P e"
  using set_dset_subset by fastforce

lemma fold_ddel_values: "\<forall>e \<in> set (map snd m). P e \<Longrightarrow> \<forall>e \<in> set (map snd (fold ddel ks m)). P e"
proof (induction ks arbitrary: m)
  case (Cons k ks)
  have "\<forall>e \<in> set (map snd (ddel k m)). P e" using Cons.prems by (auto simp: AList.delete_eq)
  from Cons.IH [OF this] show ?case by simp
qed simp

lemma geo_okD:
  assumes "geo_ok now st"
  shows "gm_default_ttl st = 24 * 3600" "is_dict (gm_memory st)" "\<forall>e \<in> set (map snd (gm_memory st)). entry_ok now e"
    "gm_disk st = files_of (gm_memory st)"
  using assms unfolding geo_ok_def by blast+

lemma geo_okI:
  assumes "gm_default_ttl st = 24 * 3600" "is_dict (gm_memory st)" "\<forall>e \<in> set (map snd (gm_memory st)). entry_ok now e"
    "gm_disk st = files_of (gm_memory st)"
  shows "geo_ok now st"
  using assms unfolding geo_ok_def by blast

lemma geo_ok_remove:
  assumes "geo_ok now st"
  shows "geo_ok now (remove_keys ks st)"
proof (rule geo_okI)
  show "gm_default_ttl (remove_keys ks st) = 24 * 3600" using geo_okD(1) [OF assms] by (simp add: remove_keys_def)
  show "is_dict (gm_memory (remove_keys ks st))" using is_dict_fold_ddel [OF geo_okD(2) [OF assms]] by (simp add: remove_keys_def)
  show "\<forall>e \<in> set (map snd (gm_memory (remove_keys ks st))). entry_ok now e"
    using fold_ddel_values [OF geo_okD(3) [OF assms]] by (simp add: remove_keys_def)
  show "gm_disk (remove_keys ks st) = files_of (gm_memory (remove_keys ks st))"
    using geo_okD(4) [OF assms] by (simp add: remove_keys_def files_fold_ddel)
qed

lemma geo_ok_get:
  assumes "geo_ok now st"
  shows "geo_ok now (snd (get_cached_places now center radius types st))"
proof -
  let ?ts = "case types of Some ts \<Rightarrow> ts | None \<Rightarrow> default_types"
  show ?thesis
  proof (cases "find (\<lambda>(k, e). serves now center radius ?ts e) (gm_memory st)")
    case None
    then show ?thesis using assms by (simp add: get_cached_places_def)
  next
    case (Some ke)
    obtain k e where ke: "ke = (k, e)" by (cases ke)
    have m: "(k, e) \<in> set (gm_memory st)" using found_entry [OF Some [unfolded ke]] by simp
    then have "e \<in> set (map snd (gm_memory st))" by force
    then have "entry_ok now e" using geo_okD(3) [OF assms] by blast
    then have v: "entry_ok now (touch_entry now e)" by (auto simp: entry_ok_def touch_entry_def)
    let ?st = "st\<lparr>gm_memory := dset k (touch_entry now e) (gm_memory st)\<rparr>"
    have st: "snd (get_cached_places now center radius types st) = ?st" unfolding get_cached_places_def Let_def Some ke by simp
    show ?thesis unfolding st
    proof (rule geo_okI)
      show "gm_default_ttl ?st = 24 * 3600" using geo_okD(1) [OF assms] by simp
      show "is_dict (gm_memory ?st)" using geo_okD(2) [OF assms] by simp
      show "\<forall>e \<in> set (map snd (gm_memory ?st)). entry_ok now e" using dset_values [OF geo_okD(3) [OF assms] v] by simp
      show "gm_disk ?st = files_of (gm_memory ?st)" using files_touch [OF geo_okD(2) [OF assms] m] geo_okD(4) [OF assms] by simp
    qed
  qed
qed

lemma geo_ok_put:
  assumes "geo_ok now st"
  shows "geo_ok now (cache_places now True center radius types data st)"
proof (cases "data = []")
  case False
  define e where "e = \<lparr>ge_data = data, ge_created = now, ge_accessed = now, ge_count = 1, ge_location = center, ge_radius = radius,
    ge_types = types, ge_ttl = calculate_ttl (gm_default_ttl st) types\<rparr>"
  define k where "k = geo_cache_key (fst center) (snd center) radius types"
  have "day_s \<le> ge_ttl e \<and> ge_ttl e \<le> 14 * day_s"
    unfolding e_def cache_entry.simps geo_okD(1) [OF assms] by (rule ttl_bounds) (simp_all add: day_s_def)
  then have v: "entry_ok now e" using False by (simp add: entry_ok_def e_def)
  have a: "as_stored e = e" by (simp add: as_stored_def e_def)
  let ?st = "st\<lparr>gm_memory := dset k e (gm_memory st), gm_disk := dset k (Some e) (gm_disk st)\<rparr>"
  have st: "cache_places now True center radius types data st = ?st"
    using False by (simp add: cache_places_def save_to_disk_def Let_def e_def k_def)
  show ?thesis unfolding st
  proof (rule geo_okI)
    show "gm_default_ttl ?st = 24 * 3600" using geo_okD(1) [OF assms] by simp
    show "is_dict (gm_memory ?st)" using geo_okD(2) [OF assms] by simp
    show "\<forall>e \<in> set (map snd (gm_memory ?st)). entry_ok now e" using dset_values [OF geo_okD(3) [OF assms] v] by simp
    show "gm_disk ?st = files_of (gm_memory ?st)" using geo_okD(4) [OF assms] by (simp add: files_dset a)
  qed
qed (simp add: cache_places_def assms)

lemma geo_ok_clear: "geo_ok now st \<Longrightarrow> geo_ok now (snd (clear_geo_cache now hours st))"
proof (cases hours)
  case None
  then show "geo_ok now st \<Longrightarrow> ?thesis" by (simp add: clear_geo_cache_def geo_ok_def)
next
  case (Some h)
  then show "geo_ok now st \<Longrightarrow> ?thesis" by (simp only: clear_geo_cache_def Let_def option.case snd_conv geo_ok_remove)
qed

text \<open>Loading files with distinct keys gives the entries in their order.\<close>

lemma load_files:
  "is_dict (m @ m') \<Longrightarrow> fold (\<lambda>(k, f) m. case f of Some e \<Rightarrow> dset k e m | None \<Rightarrow> m) (files_of m') m = m @ map (\<lambda>(k, e). (k, as_stored e)) m'"
proof (induction m' arbitrary: m)
  case (Cons x m')
  obtain k e where x: "x = (k, e)" by (cases x)
  have f: "dset k (as_stored e) m = m @ [(k, as_stored e)]" using Cons.prems by (intro dset_fresh) (auto simp: is_dict_def x)
  have "is_dict ((m @ [(k, as_stored e)]) @ m')" using Cons.prems by (auto simp: is_dict_def x)
  from Cons.IH [OF this] show ?case by (simp add: x f) (simp add: files_of_def f)
qed simp

lemma load_from_files:
  assumes "geo_ok t st"
  shows "gm_memory (load_from_disk \<lparr>gm_default_ttl = 24 * 3600, gm_memory = [], gm_disk = gm_disk st\<rparr>) = map (\<lambda>(k, e). (k, as_stored e)) (gm_memory st)"
proof -
  have "fold (\<lambda>(k, f) m. case f of Some e \<Rightarrow> dset k e m | None \<Rightarrow> m) (files_of (gm_memory st)) [] = [] @ map (\<lambda>(k, e). (k, as_stored e)) (gm_memory st)"
    by (rule load_files) (simp add: geo_okD(2) [OF assms])
  then show ?thesis by (simp add: load_from_disk_def geo_okD(4) [OF assms])
qed

lemma geo_ok_restart:
  assumes "geo_ok now st"
  shows "geo_ok now (start_cache now 24 (gm_disk st))"
proof -
  let ?l = "load_from_disk \<lparr>gm_default_ttl = 24 * 3600, gm_memory = [], gm_disk = gm_disk st\<rparr>"
  have "geo_ok now ?l"
  proof (rule geo_okI)
    show "gm_default_ttl ?l = 24 * 3600" by (simp add: load_from_disk_def)
    show "is_dict (gm_memory ?l)" unfolding load_from_files [OF assms]
      using geo_okD(2) [OF assms] by (simp add: is_dict_def comp_def case_prod_beta)
    show "\<forall>e \<in> set (map snd (gm_memory ?l)). entry_ok now e" unfolding load_from_files [OF assms]
      using geo_okD(3) [OF assms] by (auto simp: entry_ok_def as_stored_def)
    show "gm_disk ?l = files_of (gm_memory ?l)" unfolding load_from_files [OF assms]
      by (simp add: load_from_disk_def geo_okD(4) [OF assms] files_of_def as_stored_def case_prod_beta comp_def)
  qed
  then show ?thesis unfolding start_cache_def cleanup_expired_def Let_def by (simp add: geo_ok_remove)
qed

lemma geo_invariant: "geo_reaches now st \<Longrightarrow> geo_ok now st"
proof (induction rule: geo_reaches.induct)
  case (geo_new now)
  then show ?case by (simp add: start_cache_def load_from_disk_def cleanup_expired_def remove_keys_def geo_ok_def)
qed (auto intro: geo_ok_get geo_ok_put geo_ok_clear geo_ok_restart geo_ok_later)

lemma map_of_as_stored: "map_of (map (\<lambda>(k, e). (k, as_stored e)) m) k = map_option as_stored (map_of m k)"
  by (induction m) auto

lemma map_of_cleanup:
  assumes "is_dict (gm_memory st)"
  shows "map_of (gm_memory (cleanup_expired now st)) k =
    (case map_of (gm_memory st) k of None \<Rightarrow> None | Some e \<Rightarrow> if geo_expired now e then None else Some e)"
proof (cases "map_of (gm_memory st) k")
  case (Some e)
  have "k \<in> set (map fst (filter (\<lambda>(k, e). geo_expired now e) (gm_memory st))) \<longleftrightarrow> geo_expired now e"
  proof
    assume "k \<in> set (map fst (filter (\<lambda>(k, e). geo_expired now e) (gm_memory st)))"
    then obtain e' where "(k, e') \<in> set (gm_memory st)" "geo_expired now e'" by auto
    moreover have "map_of (gm_memory st) k = Some e'" using calculation(1) assms by (simp add: is_dict_def)
    ultimately show "geo_expired now e" using Some by simp
  next
    assume "geo_expired now e"
    then show "k \<in> set (map fst (filter (\<lambda>(k, e). geo_expired now e) (gm_memory st)))" using map_of_SomeD [OF Some] by (auto intro: rev_image_eqI)
  qed
  then show ?thesis by (simp add: cleanup_expired_def remove_keys_def map_of_fold_ddel Some)
qed (simp add: cleanup_expired_def remove_keys_def map_of_fold_ddel)

text \<open>What a hit returns.\<close>

lemma filtered_place:
  assumes "filter_place center radius types place = Inr (Some r)"
  shows "fst r \<le> radius \<and> snd r = dset ''cache_hit'' (VBool True) (dset ''distance_m'' (VFloat (fst r)) place) \<and>
    (types \<noteq> [] \<longrightarrow> (\<exists>t. dget place ''type'' (VStr []) = VStr t \<and> lower t \<in> set (map lower types)))"
proof -
  from assms obtain lat lon t where t: "vlower (dget place ''type'' (VStr [])) = Inr t" "types = [] \<or> t \<in> set (map lower types)"
    "r = (haversine_m center (lat, lon), dset ''cache_hit'' (VBool True) (dset ''distance_m'' (VFloat (haversine_m center (lat, lon))) place))"
    "haversine_m center (lat, lon) \<le> radius"
    by (auto simp: filter_place_def rbind_eq_Inr_iff Let_def split: if_splits)
  from t(1) obtain s where "dget place ''type'' (VStr []) = VStr s" "t = lower s" by (cases "dget place ''type'' (VStr [])") auto
  with t show ?thesis by auto
qed

lemma filtered_results:
  assumes "filter_cached_results data center radius types = Inr ps"
  obtains rs where "ps = map snd rs" "sorted (map fst rs)"
    "\<forall>r \<in> set rs. \<exists>place \<in> set data. filter_place center radius types place = Inr (Some r)"
proof -
  from assms obtain os where os: "rmap_list (filter_place center radius types) data = Inr os" and ps: "ps = map snd (sort_key fst (List.map_filter id os))"
    by (auto simp: filter_cached_results_def rbind_eq_Inr_iff)
  have "\<forall>r \<in> set (sort_key fst (List.map_filter id os)). \<exists>place \<in> set data. filter_place center radius types place = Inr (Some r)"
  proof
    fix r assume "r \<in> set (sort_key fst (List.map_filter id os))"
    then have "Some r \<in> set os" by (auto simp: List.map_filter_def)
    then show "\<exists>place \<in> set data. filter_place center radius types place = Inr (Some r)" by (rule rmap_list_mem [OF os])
  qed
  then show thesis using that [of "sort_key fst (List.map_filter id os)"] ps by simp
qed

subsection \<open>The interface of a store of places\<close>

text \<open>
  What a client relies on: a state good for \<open>P\<close> holds only places with \<open>P\<close>; lookups and stores keep it so,
  and a hit gives marked copies of such places, within the radius.
\<close>

definition marked_copy :: "pydict \<Rightarrow> pydict \<Rightarrow> bool" where
  "marked_copy place p \<longleftrightarrow> (\<exists>d. p = dset ''cache_hit'' (VBool True) (dset ''distance_m'' (VFloat d) place))"

locale place_store =
  fixes lookup :: "real \<Rightarrow> coord \<Rightarrow> real \<Rightarrow> string list option \<Rightarrow> 's \<Rightarrow> pydict list option res \<times> 's"
    and store :: "real \<Rightarrow> bool \<Rightarrow> coord \<Rightarrow> real \<Rightarrow> string list \<Rightarrow> pydict list \<Rightarrow> 's \<Rightarrow> 's"
    and good :: "(pydict \<Rightarrow> bool) \<Rightarrow> 's \<Rightarrow> bool"
  assumes lookup_good: "good P s \<Longrightarrow> good P (snd (lookup now c r ts s))"
    and store_good: "good P s \<Longrightarrow> \<forall>p \<in> set data. P p \<Longrightarrow> good P (store now w c r ts' data s)"
    and lookup_sound: "good P s \<Longrightarrow> fst (lookup now c r ts s) = Inr (Some ps) \<Longrightarrow> p \<in> set ps \<Longrightarrow> \<exists>place. P place \<and> marked_copy place p"
begin

text \<open>Any sequence of lookups and stores of places with \<open>P\<close>.\<close>

inductive store_reaches :: "(pydict \<Rightarrow> bool) \<Rightarrow> 's \<Rightarrow> 's \<Rightarrow> bool" for P s0 where
  store_here: "store_reaches P s0 s0"
| store_lookup: "store_reaches P s0 s \<Longrightarrow> store_reaches P s0 (snd (lookup now c r ts s))"
| store_put: "store_reaches P s0 s \<Longrightarrow> \<forall>p \<in> set data. P p \<Longrightarrow> store_reaches P s0 (store now w c r ts' data s)"

lemma reaches_good: "store_reaches P s0 s \<Longrightarrow> good P s0 \<Longrightarrow> good P s"
  by (induction rule: store_reaches.induct) (simp_all add: lookup_good store_good)

lemma hits_are_stored:
  "store_reaches P s0 s \<Longrightarrow> good P s0 \<Longrightarrow> fst (lookup now c r ts s) = Inr (Some ps) \<Longrightarrow> p \<in> set ps \<Longrightarrow> \<exists>place. P place \<and> marked_copy place p"
  by (rule lookup_sound [OF reaches_good])

end

definition geo_good :: "(pydict \<Rightarrow> bool) \<Rightarrow> geo_cache \<Rightarrow> bool" where
  "geo_good P st \<longleftrightarrow> (\<forall>e \<in> set (map snd (gm_memory st)). \<forall>p \<in> set (ge_data e). P p)"

lemma hit_from_entry:
  assumes "fst (get_cached_places now center radius types st) = Inr (Some ps)"
  obtains k e where "(k, e) \<in> set (gm_memory st)" "serves now center radius (case types of Some ts \<Rightarrow> ts | None \<Rightarrow> default_types) e"
    "filter_cached_results (ge_data e) center radius (case types of Some ts \<Rightarrow> ts | None \<Rightarrow> default_types) = Inr ps"
    "snd (get_cached_places now center radius types st) = st\<lparr>gm_memory := dset k (touch_entry now e) (gm_memory st)\<rparr>"
proof -
  let ?ts = "case types of Some ts \<Rightarrow> ts | None \<Rightarrow> default_types"
  from assms obtain ke where f: "find (\<lambda>(k, e). serves now center radius ?ts e) (gm_memory st) = Some ke"
    by (cases "find (\<lambda>(k, e). serves now center radius ?ts e) (gm_memory st)") (simp_all add: get_cached_places_def)
  obtain k e where ke: "ke = (k, e)" by (cases ke)
  have g: "get_cached_places now center radius types st =
    (case filter_cached_results (ge_data e) center radius ?ts of Inl x \<Rightarrow> Inl x | Inr ps \<Rightarrow> Inr (Some ps),
     st\<lparr>gm_memory := dset k (touch_entry now e) (gm_memory st)\<rparr>)"
    unfolding get_cached_places_def Let_def f ke by simp
  have "filter_cached_results (ge_data e) center radius ?ts = Inr ps"
    using assms unfolding g by (cases "filter_cached_results (ge_data e) center radius ?ts") simp_all
  then show thesis using that [of k e] found_entry [OF f [unfolded ke]] g by simp
qed

lemma geo_lookup_good:
  assumes "geo_good P st"
  shows "geo_good P (snd (get_cached_places now center radius types st))"
proof (cases "find (\<lambda>(k, e). serves now center radius (case types of Some ts \<Rightarrow> ts | None \<Rightarrow> default_types) e) (gm_memory st)")
  case None
  then show ?thesis using assms by (simp add: get_cached_places_def)
next
  case (Some ke)
  obtain k e where ke: "ke = (k, e)" by (cases ke)
  have "e \<in> set (map snd (gm_memory st))" using found_entry [OF Some [unfolded ke]] by force
  then have "\<forall>p \<in> set (ge_data e). P p" using assms unfolding geo_good_def by blast
  then have v: "\<forall>p \<in> set (ge_data (touch_entry now e)). P p" by (simp add: touch_entry_def)
  have st: "snd (get_cached_places now center radius types st) = st\<lparr>gm_memory := dset k (touch_entry now e) (gm_memory st)\<rparr>"
    unfolding get_cached_places_def Let_def Some ke by simp
  show ?thesis unfolding st geo_good_def
    using dset_values [OF assms [unfolded geo_good_def], of "touch_entry now e" k] v by simp
qed

lemma geo_store_good:
  assumes "geo_good P st" "\<forall>p \<in> set data. P p"
  shows "geo_good P (cache_places now w center radius types data st)"
proof (cases "data = []")
  case False
  let ?e = "\<lparr>ge_data = data, ge_created = now, ge_accessed = now, ge_count = 1, ge_location = center, ge_radius = radius,
    ge_types = types, ge_ttl = calculate_ttl (gm_default_ttl st) types\<rparr>"
  have m: "gm_memory (cache_places now w center radius types data st) = dset (geo_cache_key (fst center) (snd center) radius types) ?e (gm_memory st)"
    using False by (simp add: cache_places_def save_to_disk_def Let_def)
  show ?thesis unfolding geo_good_def m
    by (rule dset_values [OF assms(1) [unfolded geo_good_def]]) (simp add: assms(2))
qed (simp add: cache_places_def assms)

lemma geo_lookup_sound:
  assumes "geo_good P st" "fst (get_cached_places now center radius types st) = Inr (Some ps)" "p \<in> set ps"
  shows "\<exists>place. P place \<and> marked_copy place p"
proof -
  obtain k e where m: "(k, e) \<in> set (gm_memory st)" and f: "filter_cached_results (ge_data e) center radius (case types of Some ts \<Rightarrow> ts | None \<Rightarrow> default_types) = Inr ps"
    by (rule hit_from_entry [OF assms(2)])
  obtain rs where rs: "ps = map snd rs"
    "\<forall>r \<in> set rs. \<exists>place \<in> set (ge_data e). filter_place center radius (case types of Some ts \<Rightarrow> ts | None \<Rightarrow> default_types) place = Inr (Some r)"
    by (rule filtered_results [OF f])
  from assms(3) rs(1) obtain r where r: "r \<in> set rs" "p = snd r" by auto
  obtain place where pl: "place \<in> set (ge_data e)" "filter_place center radius (case types of Some ts \<Rightarrow> ts | None \<Rightarrow> default_types) place = Inr (Some r)"
    using rs(2) r(1) by blast
  have "e \<in> set (map snd (gm_memory st))" using m by force
  then have "P place" using assms(1) pl(1) unfolding geo_good_def by blast
  moreover have "marked_copy place p" using conjunct1 [OF conjunct2 [OF filtered_place [OF pl(2)]]] r(2) unfolding marked_copy_def by blast
  ultimately show ?thesis by blast
qed

interpretation places: place_store get_cached_places cache_places geo_good
  by unfold_locales (auto intro: geo_lookup_good geo_store_good geo_lookup_sound)

subsection \<open>Properties\<close>

text \<open>
  an entry covers a search exactly when the centre of the search lies within its own radius: the radius of
  the search plays no role, so that a wide search is answered from a narrow one.
\<close>

theorem coverage_ignores_the_search_radius:
  "0 \<le> radius \<Longrightarrow> covers_search center location radius cached \<longleftrightarrow> haversine_m center location \<le> cached"
  by (auto simp: covers_search_def Let_def)

theorem coverage_ignores_the_search_radius_witness:
  "covers_search (0, 0) (0, 0) 50000 100"
  using coverage_ignores_the_search_radius [of 50000 "(0, 0)" "(0, 0)" 100] by simp

text \<open>
  right after a store into an empty cache, a search from the same centre with any radius, for any types of
  which one was searched, never misses, although nothing was searched beyond the radius or for the other types.
\<close>

theorem narrow_entry_answers_every_search:
  assumes "gm_memory st = []" "data \<noteq> []" "0 \<le> radius" "0 \<le> wide" "t \<in> set types" "t \<in> set wanted" "0 \<le> now'" "now' \<le> calculate_ttl (gm_default_ttl st) types"
  shows "fst (get_cached_places (now + now') center wide (Some wanted) (cache_places now w center radius types data st)) \<noteq> Inr None"
proof -
  let ?k = "geo_cache_key (fst center) (snd center) radius types"
  let ?e = "\<lparr>ge_data = data, ge_created = now, ge_accessed = now, ge_count = 1, ge_location = center, ge_radius = radius,
    ge_types = types, ge_ttl = calculate_ttl (gm_default_ttl st) types\<rparr>"
  have m: "gm_memory (cache_places now w center radius types data st) = [(?k, ?e)]"
    using assms(1,2) by (simp add: cache_places_def save_to_disk_def Let_def)
  have "serves (now + now') center wide wanted ?e" using assms(3-8) by (auto simp: serves_def covers_search_def Let_def)
  then have "find (\<lambda>(k, e). serves (now + now') center wide wanted e) (gm_memory (cache_places now w center radius types data st)) = Some (?k, ?e)"
    unfolding m by simp
  then show ?thesis unfolding get_cached_places_def by (simp split: sum.splits)
qed

definition cafe_place :: pydict where
  "cafe_place = [(''lat'', VInt 0), (''lon'', VInt 0), (''type'', VStr ''cafe'')]"

definition empty_geo_cache :: geo_cache where
  "empty_geo_cache = \<lparr>gm_default_ttl = 24 * 3600, gm_memory = [], gm_disk = []\<rparr>"

theorem narrow_entry_answers_every_search_witness:
  "fst (get_cached_places (0 + 60) (0, 0) 50000 (Some [''museum'', ''cafe'']) (cache_places 0 True (0, 0) 100 [''cafe''] [cafe_place] empty_geo_cache)) \<noteq> Inr None"
  by (rule narrow_entry_answers_every_search [of _ _ _ _ "''cafe''"])
    (simp_all add: empty_geo_cache_def calculate_ttl_def ttl_by_type_def day_s_def)

text \<open>
  every place of a hit is a marked copy of a stored place of one entry that covers the search and has not
  expired, lies within the radius of the search and has a searched type; the nearest comes first.
\<close>

theorem hits_are_near_and_of_the_types:
  assumes "fst (get_cached_places now center radius (Some types) st) = Inr (Some ps)"
  shows "\<exists>k e rs. (k, e) \<in> set (gm_memory st) \<and> serves now center radius types e \<and> ps = map snd rs \<and> sorted (map fst rs) \<and>
    (\<forall>r \<in> set rs. fst r \<le> radius \<and> (\<exists>place \<in> set (ge_data e). marked_copy place (snd r) \<and>
       (\<exists>t. dget place ''type'' (VStr []) = VStr t \<and> lower t \<in> set (map lower types))))"
proof -
  obtain k e where m: "(k, e) \<in> set (gm_memory st)" "serves now center radius types e" and f: "filter_cached_results (ge_data e) center radius types = Inr ps"
    by (rule hit_from_entry [OF assms]) auto
  obtain rs where rs: "ps = map snd rs" "sorted (map fst rs)"
    "\<forall>r \<in> set rs. \<exists>place \<in> set (ge_data e). filter_place center radius types place = Inr (Some r)"
    by (rule filtered_results [OF f])
  have ne: "types \<noteq> []" using m(2) by (auto simp: serves_def)
  have "fst r \<le> radius \<and> (\<exists>place \<in> set (ge_data e). marked_copy place (snd r) \<and> (\<exists>t. dget place ''type'' (VStr []) = VStr t \<and> lower t \<in> set (map lower types)))"
    if "r \<in> set rs" for r
  proof -
    obtain place where pl: "place \<in> set (ge_data e)" and fp: "filter_place center radius types place = Inr (Some r)" using rs(3) \<open>r \<in> set rs\<close> by blast
    note fl = filtered_place [OF fp]
    have "marked_copy place (snd r)" using conjunct1 [OF conjunct2 [OF fl]] unfolding marked_copy_def by blast
    with fl ne pl show ?thesis by blast
  qed
  then show ?thesis using m rs(1,2) by blast
qed

definition cafe_hit :: pydict where
  "cafe_hit = [(''lat'', VInt 0), (''lon'', VInt 0), (''type'', VStr ''cafe''), (''distance_m'', VFloat 0), (''cache_hit'', VBool True)]"

definition cafe_state :: geo_cache where
  "cafe_state = cache_places 0 True (0, 0) 100 [''cafe''] [cafe_place] empty_geo_cache"

lemma cafe_lookup: "fst (get_cached_places 60 (0, 0) 50000 (Some [''cafe'']) cafe_state) = Inr (Some [cafe_hit])"
  by (simp add: cafe_state_def get_cached_places_def cache_places_def save_to_disk_def Let_def empty_geo_cache_def serves_def covers_search_def
    calculate_ttl_def ttl_by_type_def day_s_def filter_cached_results_def filter_place_def cafe_place_def cafe_hit_def lower_def lower_char_def
    List.map_filter_simps)

theorem hits_are_near_and_of_the_types_witness:
  "\<exists>k e rs. (k, e) \<in> set (gm_memory cafe_state) \<and> serves 60 (0, 0) 50000 [''cafe''] e \<and> [cafe_hit] = map snd rs \<and> sorted (map fst rs) \<and>
    (\<forall>r \<in> set rs. fst r \<le> (50000 :: real) \<and> (\<exists>place \<in> set (ge_data e). marked_copy place (snd r) \<and>
       (\<exists>t. dget place ''type'' (VStr []) = VStr t \<and> lower t \<in> set (map lower [''cafe'']))))"
  by (rule hits_are_near_and_of_the_types [OF cafe_lookup])

text \<open>
  C13: in every state a cache reaches from an empty directory by lookups, stores whose write succeeds, clearings and
  restarts from the files, each entry has places, lives at least one day and at most fourteen from its creation, and the
  disk holds exactly the entries of the memory as they were first stored.
\<close>

theorem disk_mirrors_memory:
  "geo_reaches now st \<Longrightarrow> gm_disk st = files_of (gm_memory st) \<and> distinct (keys (gm_memory st)) \<and>
   (\<forall>e \<in> set (map snd (gm_memory st)). ge_data e \<noteq> [] \<and> ge_created e \<le> now \<and> day_s \<le> ge_ttl e \<and> ge_ttl e \<le> 14 * day_s)"
  using geo_invariant [of now st] unfolding geo_ok_def entry_ok_def is_dict_def by fastforce

theorem disk_mirrors_memory_witness:
  "gm_disk (cache_places 5 True (0, 0) 100 [''cafe''] [cafe_place] (start_cache 0 24 [])) =
   files_of (gm_memory (cache_places 5 True (0, 0) 100 [''cafe''] [cafe_place] (start_cache 0 24 [])))"
  by (rule disk_mirrors_memory [THEN conjunct1]) (rule geo_put [OF geo_new], simp)

text \<open>
  C12: a cache that is started again from the files finds exactly the entries that have not expired, with the
  places, the area and the lifetime they had, and with the counts of their accesses set back.
\<close>

theorem restart_keeps_what_has_not_expired:
  assumes "geo_reaches t st"
  shows "map_of (gm_memory (start_cache now 24 (gm_disk st))) k =
    (case map_of (gm_memory st) k of None \<Rightarrow> None | Some e \<Rightarrow> if ge_ttl e < now - ge_created e then None else Some (as_stored e))"
proof -
  note g = geo_invariant [OF assms]
  let ?l = "load_from_disk \<lparr>gm_default_ttl = 24 * 3600, gm_memory = [], gm_disk = gm_disk st\<rparr>"
  note m = load_from_files [OF g]
  have d: "is_dict (gm_memory ?l)" unfolding m using geo_okD(2) [OF g] by (simp add: is_dict_def comp_def case_prod_beta)
  show ?thesis
    unfolding start_cache_def map_of_cleanup [OF d] unfolding m map_of_as_stored
    by (cases "map_of (gm_memory st) k") (simp_all add: geo_expired_def as_stored_def)
qed

theorem restart_keeps_what_has_not_expired_witness:
  "map_of (gm_memory (start_cache 60 24 (gm_disk (cache_places 5 True (0, 0) 100 [''cafe''] [cafe_place] (start_cache 0 24 [])))))
     (geo_cache_key 0 0 100 [''cafe'']) \<noteq> None"
proof -
  have r: "geo_reaches 5 (cache_places 5 True (0, 0) 100 [''cafe''] [cafe_place] (start_cache 0 24 []))"
    by (rule geo_put [OF geo_new]) simp
  show ?thesis
    by (subst restart_keeps_what_has_not_expired [OF r])
      (simp add: cache_places_def save_to_disk_def Let_def start_cache_def load_from_disk_def cleanup_expired_def remove_keys_def
        calculate_ttl_def ttl_by_type_def day_s_def)
qed

end
