(* ===== verification/GooglePlaces.thy ===== *)
theory GooglePlaces
  imports GeoCache "HOL-Library.Product_Lexorder"
begin

section \<open>The places service\<close>

text \<open>
  src/services/google\_places\_service.py: searches for places near a point, with the cache of places, the
  filters of quality, made-up places when nothing is found, and the sorting of places into three kinds of days.
  The answers of the maps client and of the HTTP service, \<open>hash\<close>, \<open>str\<close> of a value, the clock and
  the numbers drawn at random after a seed are parameters.
\<close>

subsection \<open>Made-up places\<close>

definition type_suggestions :: "(string \<times> string list) list" where
  "type_suggestions =
     [(''restaurant'', [''Restaurante local'', ''Lugar de comida t'' @ utf8 [195, 173] @ ''pica'', ''Bistr'' @ utf8 [195, 179] @ '' familiar'', ''Comida casera'',
          ''Parrilla tradicional'', ''Casa de comidas'', ''Restaurante regional'', ''Cocina local'', ''Lugar gastron'' @ utf8 [195, 179] @ ''mico'']),
      (''tourist_attraction'', [''Sitio hist'' @ utf8 [195, 179] @ ''rico'', ''Mirador'', ''Plaza principal'', ''Monumento local'',
          ''Punto panor'' @ utf8 [195, 161] @ ''mico'', ''Lugar emblem'' @ utf8 [195, 161] @ ''tico'', ''Atracci'' @ utf8 [195, 179] @ ''n cultural'',
          ''Sitio de inter'' @ utf8 [195, 169] @ ''s'', ''Lugar destacado'']),
      (''museum'', [''Centro cultural'', ''Galer'' @ utf8 [195, 173] @ ''a de arte'', ''Museo local'', ''Espacio cultural'',
          ''Museo hist'' @ utf8 [195, 179] @ ''rico'', ''Centro de arte'', ''Galer'' @ utf8 [195, 173] @ ''a local'',
          ''Museo tem'' @ utf8 [195, 161] @ ''tico'', ''Espacio expositivo'']),
      (''park'', [''Parque urbano'', ''Plaza verde'', utf8 [195, 129] @ ''rea recreativa'', ''Espacio verde'', ''Parque central'', ''Zona natural'',
          utf8 [195, 129] @ ''rea de descanso'', ''Parque local'', ''Espacio p'' @ utf8 [195, 186] @ ''blico'']),
      (''shopping_mall'', [''Centro comercial'', ''Mercado local'', ''Tiendas'', ''Galer'' @ utf8 [195, 173] @ ''a comercial'', ''Plaza comercial'',
          ''Centro de compras'']),
      (''cafe'', [''Caf'' @ utf8 [195, 169] @ '' local'', ''Lugar de caf'' @ utf8 [195, 169], ''Cafeter'' @ utf8 [195, 173] @ ''a'',
          ''Caf'' @ utf8 [195, 169] @ '' artesanal'', ''Casa de t'' @ utf8 [195, 169], ''Espacio caf'' @ utf8 [195, 169]]),
      (''lodging'', [''Hotel Plaza'', ''Hotel Centro'', ''Hostal Local'']),
      (''accommodation'', [''Hotel Ejecutivo'', ''Hotel Boutique'', ''Hotel Business'']),
      (''point_of_interest'', [''Lugar de inter'' @ utf8 [195, 169] @ ''s'', ''Punto destacado'', ''Sitio relevante'', ''Atracci'' @ utf8 [195, 179] @ ''n local'',
          ''Punto tur'' @ utf8 [195, 173] @ ''stico'', ''Lugar notable''])]"

definition chile_cities :: "(coord \<times> string) list" where
  "chile_cities =
     [((- 33.4489, - 70.6693), ''Santiago''), ((- 23.6509, - 70.3975), ''Antofagasta''), ((- 29.9027, - 71.2519), ''La Serena''),
      ((- 36.8201, - 73.0444), ''Concepci'' @ utf8 [195, 179] @ ''n''), ((- 39.8142, - 73.2459), ''Valdivia''), ((- 20.2141, - 70.1522), ''Iquique''),
      ((- 27.3668, - 70.4037), ''Copiap'' @ utf8 [195, 179]), ((- 22.4908, - 68.9016), ''Calama''), ((- 18.4783, - 70.3146), ''Arica''),
      ((- 41.4693, - 72.9424), ''Puerto Montt''), ((- 53.1638, - 70.9171), ''Punta Arenas'')]"

definition closest_city_name :: "real \<Rightarrow> real \<Rightarrow> string" where
  "closest_city_name lat lon =
     (let best = fold (\<lambda>((clat, clon), name) b.
            (let d = sqrt ((lat - clat)\<^sup>2 + (lon - clon)\<^sup>2)
             in case b of None \<Rightarrow> Some (d, name) | Some (m, old) \<Rightarrow> if d < m then Some (d, name) else b)) chile_cities None
      in case best of Some (d, name) \<Rightarrow> if d < 1 then name else [] | None \<Rightarrow> [])"

definition place_modifiers :: "string list" where
  "place_modifiers = [''Central'', ''del Centro'', ''Principal'', ''Local'', ''Tradicional'', ''Hist'' @ utf8 [195, 179] @ ''rico'']"

definition synthetic_name :: "string \<Rightarrow> string \<Rightarrow> nat \<Rightarrow> string" where
  "synthetic_name city place_type i =
     (let suggestions = (case map_of type_suggestions place_type of Some xs \<Rightarrow> xs | None \<Rightarrow> [''Lugar de inter'' @ utf8 [195, 169] @ ''s'']);
          base = suggestions ! (i mod length suggestions)
      in if place_type \<in> {''lodging'', ''accommodation''}
         then (if city \<noteq> [] \<and> \<not> contains city base then base @ '' '' @ city else base)
         else base @ '' '' @ place_modifiers ! (i mod length place_modifiers))"

definition walk_minutes :: "real \<Rightarrow> int" where
  "walk_minutes km = py_trunc (km * 1000 / 83.33)"

definition suggestion_reason :: "real \<Rightarrow> int \<Rightarrow> string" where
  "suggestion_reason rating eta =
     ''buen rating ('' @ show_float rating @ utf8 [226, 173, 144] @ ''), '' @ (if eta < 5 then ''muy cerca'' else ''cerca'')"

text \<open>The places lie on a spiral around the centre.\<close>

definition spiral_point :: "coord \<Rightarrow> nat \<Rightarrow> nat \<Rightarrow> coord" where
  "spiral_point center n i =
     (let angle = real i * 2 * pi / real n; r = 0.003 + real i * 0.001
      in (fst center + r * cos angle, snd center + r * sin angle))"

definition synthetic_place :: "(string \<Rightarrow> int) \<Rightarrow> coord \<Rightarrow> string \<Rightarrow> nat \<Rightarrow> string \<Rightarrow> nat \<Rightarrow> pydict" where
  "synthetic_place pyhash center city n place_type i =
     (let point = spiral_point center n i; eta = max 1 (walk_minutes (haversine_atan2 center point));
          rating = py_round 1 (3.8 + real_of_int (pyhash (place_type @ ''_'' @ show_nat i) mod 10) / 10)
      in [(''name'', VStr (synthetic_name city place_type i)), (''lat'', VFloat (fst point)), (''lon'', VFloat (snd point)),
          (''type'', VStr place_type), (''rating'', VFloat rating), (''eta_minutes'', VInt eta),
          (''reason'', VStr (suggestion_reason rating eta)), (''synthetic'', VBool True)])"

definition generate_synthetic_suggestions :: "(string \<Rightarrow> int) \<Rightarrow> coord \<Rightarrow> string list \<Rightarrow> nat \<Rightarrow> pydict list res" where
  "generate_synthetic_suggestions pyhash center types limit =
     (let n = max limit 3; city = closest_city_name (fst center) (snd center)
      in if types = [] then Inl ZeroDivisionError
         else Inr (map (\<lambda>i. synthetic_place pyhash center city n (types ! (i mod length types)) i) [0..<n]))"

text \<open>One attempt of a search, and the search: \<open>client k\<close> is the answer at the attempt \<open>k\<close>.\<close>

definition search_attempt ::
  "(string \<Rightarrow> int) \<Rightarrow> (nat \<Rightarrow> pydict list res) \<Rightarrow> coord \<Rightarrow> string list \<Rightarrow> nat \<Rightarrow> nat \<Rightarrow> pydict list res" where
  "search_attempt pyhash client center types limit k =
     rbind (client k) (\<lambda>results.
     if results \<noteq> [] \<and> limit \<le> length results then Inr (take limit results)
     else if results \<noteq> [] then Inr results
     else generate_synthetic_suggestions pyhash center types limit)"

definition search_nearby ::
  "(string \<Rightarrow> int) \<Rightarrow> (nat \<Rightarrow> pydict list res) \<Rightarrow> coord \<Rightarrow> string list option \<Rightarrow> nat \<Rightarrow> pydict list res" where
  "search_nearby pyhash client center types limit =
     (let ts = (case types of None \<Rightarrow> default_types | Some ts \<Rightarrow> ts)
      in case search_attempt pyhash client center ts limit 0 of
           Inr ps \<Rightarrow> Inr ps
         | Inl e \<Rightarrow>
             (case search_attempt pyhash client center ts limit 1 of
                Inr ps \<Rightarrow> Inr ps
              | Inl e \<Rightarrow> generate_synthetic_suggestions pyhash center (if ts = [] then [''point_of_interest''] else ts) limit))"

subsection \<open>Google places\<close>

text \<open>\<open>x in v\<close>, and \<open>v[0] if v else\<close> the fallback.\<close>

definition type_listed :: "pyval \<Rightarrow> string \<Rightarrow> bool res" where
  "type_listed v k =
     (case v of
        VList xs \<Rightarrow> Inr (VStr k \<in> set xs)
      | VStr s \<Rightarrow> Inr (contains k s)
      | VDict d \<Rightarrow> Inr (has_key d k)
      | _ \<Rightarrow> Inl TypeError)"

fun first_listed :: "pyval \<Rightarrow> string list \<Rightarrow> pyval res" where
  "first_listed v [] = (if truthy v then vfirst v else Inr (VStr ''point_of_interest''))"
| "first_listed v (k # ks) = rbind (type_listed v k) (\<lambda>b. if b then Inr (VStr k) else first_listed v ks)"

definition get_main_type :: "pyval \<Rightarrow> pyval res" where
  "get_main_type types =
     first_listed types [''restaurant'', ''tourist_attraction'', ''museum'', ''park'', ''shopping_mall'', ''cafe'', ''bar'', ''lodging'', ''church'']"

text \<open>A result that is not usable, or that makes the code raise, gives \<open>None\<close>.\<close>

definition google_place :: "(pyval \<Rightarrow> string) \<Rightarrow> coord \<Rightarrow> pyval \<Rightarrow> pydict option res" where
  "google_place show origin place =
     rbind (vget place ''geometry'' (VDict [])) (\<lambda>g. rbind (vget g ''location'' (VDict [])) (\<lambda>l.
     rbind (vget l ''lat'' VNone) (\<lambda>lat. rbind (vget l ''lng'' VNone) (\<lambda>lon.
     if \<not> truthy lat \<or> \<not> truthy lon then Inr None
     else
       rbind (need_num lat) (\<lambda>a. rbind (need_num lon) (\<lambda>b.
       let km = haversine_atan2 origin (a, b); eta = walk_minutes km
       in rbind (vget place ''types'' (VList [])) (\<lambda>ts. rbind (get_main_type ts) (\<lambda>t.
          rbind (vget place ''name'' (VStr (''Lugar de inter'' @ utf8 [195, 169] @ ''s''))) (\<lambda>name.
          rbind (vget place ''rating'' (VFloat 4)) (\<lambda>rating. rbind (vget place ''price_level'' VNone) (\<lambda>price.
          rbind (vget place ''user_ratings_total'' (VInt 0)) (\<lambda>total_ratings. rbind (vget place ''vicinity'' (VStr [])) (\<lambda>vicinity.
          rbind (vget place ''place_id'' VNone) (\<lambda>pid. rbind (vget place ''photos'' (VList [])) (\<lambda>photos.
          Inr (Some
            [(''name'', name), (''lat'', lat), (''lon'', lon), (''type'', t), (''rating'', rating), (''eta_minutes'', VInt eta),
             (''distance_km'', VFloat km), (''price_level'', price), (''user_ratings_total'', total_ratings), (''vicinity'', vicinity),
             (''place_id'', pid), (''photos'', photos),
             (''reason'', VStr (''Google Places: '' @ show rating @ utf8 [226, 173, 144] @ '', '' @ show_int eta @ ''min caminando'')),
             (''synthetic'', VBool False), (''source'', VStr ''google_places'')]))))))))))))))))"

definition process_google_place :: "(pyval \<Rightarrow> string) \<Rightarrow> coord \<Rightarrow> pyval \<Rightarrow> pydict option" where
  "process_google_place show origin place = (case google_place show origin place of Inr p \<Rightarrow> p | Inl e \<Rightarrow> None)"

definition chain_keywords :: "string list" where
  "chain_keywords = [''mcdonalds'', ''kfc'', ''burger king'', ''subway'', ''pizza hut'', ''starbucks'', ''dominos'']"

definition chain_check :: "bool \<Rightarrow> pydict \<Rightarrow> bool res" where
  "chain_check exclude_chains place =
     (if exclude_chains
      then rbind (dindex place ''name'') (\<lambda>n. rbind (vlower n) (\<lambda>name. Inr (list_ex (\<lambda>c. contains c name) chain_keywords)))
      else Inr False)"

definition quality_check :: "bool \<Rightarrow> pydict \<Rightarrow> bool res" where
  "quality_check exclude_chains place =
     rbind (need_num (dget place ''rating'' (VInt 0))) (\<lambda>rating.
     if rating < 4.5 then Inr False
     else
       rbind (need_num (dget place ''user_ratings_total'' (VInt 0))) (\<lambda>n.
       if n < 20 then Inr False
       else
         rbind (chain_check exclude_chains place) (\<lambda>chain.
         if chain then Inr False
         else rbind (need_num (dget place ''distance_km'' (VInt 0))) (\<lambda>d. Inr (\<not> 5 < d)))))"

definition is_valid_suggestion :: "bool \<Rightarrow> pydict \<Rightarrow> bool" where
  "is_valid_suggestion exclude_chains place = (case quality_check exclude_chains place of Inr b \<Rightarrow> b | Inl e \<Rightarrow> False)"

text \<open>The reply to a request: a status with a body, or nothing when the request fails.\<close>

definition google_nearby_search :: "(int \<times> pyval) option \<Rightarrow> pyval" where
  "google_nearby_search reply =
     (case reply of
        None \<Rightarrow> VNone
      | Some (status, data) \<Rightarrow>
          if status = 200 then (case vget data ''status'' VNone of Inr v \<Rightarrow> if v = VStr ''OK'' then data else VNone | Inl e \<Rightarrow> VNone)
          else VNone)"

definition day_variety_types :: "string list" where
  "day_variety_types = [''cafe'', ''restaurant'', ''museum'', ''park'', ''point_of_interest'']"

definition get_types_for_day :: "string list option \<Rightarrow> int \<Rightarrow> string list" where
  "get_types_for_day types day_offset =
     (case types of
        Some (t # ts) \<Rightarrow> t # ts
      | _ \<Rightarrow> [''tourist_attraction'', day_variety_types ! nat ((day_offset - 1) mod int (length day_variety_types)), ''cafe''])"

text \<open>The usable results of one type; a body without a list of results, or with an empty one, gives none.\<close>

definition results_of :: "int \<Rightarrow> pyval \<Rightarrow> pyval list" where
  "results_of day_offset reply =
     (case reply of
        VDict d \<Rightarrow>
          (case map_of d ''results'' of
             Some (VList xs) \<Rightarrow> drop (nat ((day_offset - 1) mod int (min (length xs) 3))) xs
           | _ \<Rightarrow> [])
      | _ \<Rightarrow> [])"

definition places_of_type :: "(pyval \<Rightarrow> string) \<Rightarrow> coord \<Rightarrow> bool \<Rightarrow> int \<Rightarrow> pyval \<Rightarrow> pydict list" where
  "places_of_type show origin exclude_chains day_offset reply =
     filter (is_valid_suggestion exclude_chains) (List.map_filter (process_google_place show origin) (results_of day_offset reply))"

subsection \<open>Searching with the cache\<close>

record 's places_service =
  gp_cache :: 's
  gp_hits :: nat
  gp_misses :: nat
  gp_saved :: nat

definition new_places_service :: "'s \<Rightarrow> 's places_service" where
  "new_places_service c = \<lparr>gp_cache = c, gp_hits = 0, gp_misses = 0, gp_saved = 0\<rparr>"

record places_env =
  pe_now :: real
  pe_written :: bool
  pe_key :: bool
  pe_show :: "pyval \<Rightarrow> string"
  pe_reply :: "nat \<Rightarrow> string \<Rightarrow> (int \<times> pyval) option"
  pe_jitter :: "int \<Rightarrow> nat \<Rightarrow> real"

text \<open>\<open>xs[:k]\<close>, with a negative \<open>k\<close> counting from the end.\<close>

definition slice_to :: "int \<Rightarrow> 'a list \<Rightarrow> 'a list" where
  "slice_to k xs = (if 0 \<le> k then take (nat k) xs else take (length xs - nat (- k)) xs)"

definition num_or_0 :: "pyval \<Rightarrow> real" where
  "num_or_0 v = (case num_of v of Some x \<Rightarrow> x | None \<Rightarrow> 0)"

text \<open>The places of a valid list have a number as rating and as minutes; one random number is drawn for each, in order.\<close>

definition rank_places :: "(nat \<Rightarrow> real) \<Rightarrow> pydict list \<Rightarrow> pydict list" where
  "rank_places jitter ps =
     map snd (sort_key (\<lambda>(i, p). (- num_or_0 (dget p ''rating'' VNone) + jitter i, num_or_0 (dget p ''eta_minutes'' VNone))) (enumerate 0 ps))"

text \<open>The requests are numbered: two for one type may be answered differently.\<close>

definition found_places :: "places_env \<Rightarrow> coord \<Rightarrow> string list \<Rightarrow> bool \<Rightarrow> int \<Rightarrow> (string \<Rightarrow> bool) \<Rightarrow> pydict list" where
  "found_places env center types exclude_chains day_offset wanted =
     concat (map (\<lambda>(i, t). places_of_type (pe_show env) center exclude_chains day_offset (google_nearby_search (pe_reply env i t)))
       (filter (\<lambda>(i, t). wanted t) (enumerate 0 types)))"

definition fresh_places :: "places_env \<Rightarrow> coord \<Rightarrow> string list \<Rightarrow> nat \<Rightarrow> bool \<Rightarrow> int \<Rightarrow> pydict list" where
  "fresh_places env center types limit exclude_chains day_offset =
     (let tourist = found_places env center types exclude_chains day_offset (\<lambda>t. t = ''tourist_attraction'');
          other = found_places env center types exclude_chains day_offset (\<lambda>t. t \<noteq> ''tourist_attraction'');
          first = take 2 (rank_places (pe_jitter env (day_offset * 42)) tourist)
      in first @ slice_to (int limit - int (length first)) (rank_places (pe_jitter env (day_offset * 73)) other))"

definition search_nearby_real_with ::
  "(real \<Rightarrow> coord \<Rightarrow> real \<Rightarrow> string list option \<Rightarrow> 's \<Rightarrow> pydict list option res \<times> 's) \<Rightarrow>
   (real \<Rightarrow> bool \<Rightarrow> coord \<Rightarrow> real \<Rightarrow> string list \<Rightarrow> pydict list \<Rightarrow> 's \<Rightarrow> 's) \<Rightarrow>
   places_env \<Rightarrow> coord \<Rightarrow> real \<Rightarrow> string list option \<Rightarrow> nat \<Rightarrow> bool \<Rightarrow> int \<Rightarrow> 's places_service \<Rightarrow> pydict list \<times> 's places_service" where
  "search_nearby_real_with lookup store env center radius types limit exclude_chains day_offset st =
     (let ts = get_types_for_day types day_offset; r = lookup (pe_now env) center radius (Some ts) (gp_cache st); st1 = st\<lparr>gp_cache := snd r\<rparr>
      in case fst r of
           Inl e \<Rightarrow> ([], st1)
         | Inr found \<Rightarrow>
             let cached = (case found of Some ps \<Rightarrow> ps | None \<Rightarrow> [])
             in if cached \<noteq> [] \<and> limit \<le> length cached
                then (take limit (filter (is_valid_suggestion exclude_chains) (take (limit * 2) cached)),
                      st1\<lparr>gp_hits := gp_hits st1 + 1, gp_saved := gp_saved st1 + length ts\<rparr>)
                else
                  let st2 = st1\<lparr>gp_misses := gp_misses st1 + 1\<rparr>
                  in if \<not> pe_key env then ([], st2)
                     else
                       let final = fresh_places env center ts limit exclude_chains day_offset
                       in if final = [] then ([], st2)
                          else (take limit final, st2\<lparr>gp_cache := store (pe_now env) (pe_written env) center radius ts final (gp_cache st2)\<rparr>))"

abbreviation search_nearby_real ::
  "places_env \<Rightarrow> coord \<Rightarrow> real \<Rightarrow> string list option \<Rightarrow> nat \<Rightarrow> bool \<Rightarrow> int \<Rightarrow> geo_cache places_service \<Rightarrow> pydict list \<times> geo_cache places_service" where
  "search_nearby_real \<equiv> search_nearby_real_with get_cached_places cache_places"

subsection \<open>Made-up places of a day\<close>

definition name_variations :: "(string \<times> string list list) list" where
  "name_variations =
     [(''restaurant'',
        [[''Restaurante local'', ''Bistr'' @ utf8 [195, 179] @ '' familiar'', ''Lugar de comida t'' @ utf8 [195, 173] @ ''pica''],
         [''Caf'' @ utf8 [195, 169] @ '' gastron'' @ utf8 [195, 179] @ ''mico'', ''Restaurante tradicional'', ''Casa de comidas''],
         [''Parrilla local'', ''Comida casera'', ''Restaurante del barrio'']]),
      (''tourist_attraction'',
        [[''Sitio hist'' @ utf8 [195, 179] @ ''rico'', ''Mirador'', ''Plaza principal''],
         [''Monumento local'', ''Punto panor'' @ utf8 [195, 161] @ ''mico'', ''Lugar emblem'' @ utf8 [195, 161] @ ''tico''],
         [''Atracci'' @ utf8 [195, 179] @ ''n cultural'', ''Sitio de inter'' @ utf8 [195, 169] @ ''s'', ''Lugar destacado'']]),
      (''museum'',
        [[''Centro cultural'', ''Galer'' @ utf8 [195, 173] @ ''a de arte'', ''Museo local''],
         [''Espacio cultural'', ''Museo hist'' @ utf8 [195, 179] @ ''rico'', ''Centro de arte''],
         [''Galer'' @ utf8 [195, 173] @ ''a local'', ''Museo tem'' @ utf8 [195, 161] @ ''tico'', ''Espacio expositivo'']]),
      (''park'',
        [[''Parque urbano'', ''Plaza verde'', utf8 [195, 129] @ ''rea recreativa''],
         [''Espacio verde'', ''Parque central'', ''Zona natural''],
         [utf8 [195, 129] @ ''rea de descanso'', ''Parque local'', ''Espacio p'' @ utf8 [195, 186] @ ''blico'']]),
      (''cafe'',
        [[''Caf'' @ utf8 [195, 169] @ '' local'', ''Lugar de caf'' @ utf8 [195, 169], ''Cafeter'' @ utf8 [195, 173] @ ''a''],
         [''Caf'' @ utf8 [195, 169] @ '' artesanal'', ''Casa de t'' @ utf8 [195, 169], ''Espacio caf'' @ utf8 [195, 169]],
         [''Caf'' @ utf8 [195, 169] @ '' urbano'', ''Lugar de encuentro'', ''Caf'' @ utf8 [195, 169] @ '' t'' @ utf8 [195, 173] @ ''pico'']]),
      (''shopping_mall'',
        [[''Centro comercial'', ''Mercado local'', ''Tiendas''],
         [''Galer'' @ utf8 [195, 173] @ ''a comercial'', ''Plaza comercial'', ''Centro de compras''],
         [''Mercado central'', ''Zona comercial'', ''Centro urbano'']]),
      (''church'',
        [[''Iglesia hist'' @ utf8 [195, 179] @ ''rica'', ''Templo local'', ''Bas'' @ utf8 [195, 173] @ ''lica''],
         [''Capilla'', ''Santuario'', ''Iglesia colonial''],
         [''Catedral'', ''Templo religioso'', ''Iglesia antigua'']]),
      (''art_gallery'',
        [[''Galer'' @ utf8 [195, 173] @ ''a de arte'', ''Espacio art'' @ utf8 [195, 173] @ ''stico'', ''Centro de arte''],
         [''Galer'' @ utf8 [195, 173] @ ''a local'', ''Exposici'' @ utf8 [195, 179] @ ''n art'' @ utf8 [195, 173] @ ''stica'', ''Espacio cultural''],
         [''Galer'' @ utf8 [195, 173] @ ''a urbana'', ''Centro creativo'', ''Espacio de arte'']])]"

definition day_variety_place :: "coord \<Rightarrow> int \<Rightarrow> string list \<Rightarrow> nat \<Rightarrow> pydict" where
  "day_variety_place center day_offset types i =
     (let place_type = types ! (i mod length types); day = nat ((day_offset - 1) mod 3);
          names = (case map_of name_variations place_type of Some xs \<Rightarrow> xs | None \<Rightarrow> [[''Lugar de inter'' @ utf8 [195, 169] @ ''s'']]);
          available = (if day < length names then names ! day else names ! 0);
          shift = real i * 0.002 + real_of_int (day_offset - 1) * 0.003;
          point = (fst center + shift, snd center + shift);
          eta = max 0 (walk_minutes (haversine_atan2 center point));
          rating = py_round 1 (4 + real_of_int (day_offset - 1) * 0.1 + real i * 0.1)
      in [(''name'', VStr (available ! (i mod length available))), (''lat'', VFloat (fst point)), (''lon'', VFloat (snd point)),
          (''type'', VStr place_type), (''rating'', VFloat (min rating 5)), (''eta_minutes'', VInt eta),
          (''reason'', VStr (suggestion_reason rating eta)), (''synthetic'', VBool True), (''day_generated'', VInt day_offset)])"

definition search_nearby_with_day_variety :: "coord \<Rightarrow> string list option \<Rightarrow> nat \<Rightarrow> int \<Rightarrow> pydict list" where
  "search_nearby_with_day_variety center types limit day_offset =
     map (day_variety_place center day_offset (get_types_for_day types day_offset)) [0..<limit]"

subsection \<open>Statistics\<close>

record places_stats =
  sp_hits :: nat
  sp_misses :: nat
  sp_rate :: real
  sp_saved :: nat
  sp_cost :: real
  sp_storage :: geo_stats

definition get_places_stats :: "real \<Rightarrow> nat \<Rightarrow> geo_cache places_service \<Rightarrow> places_stats" where
  "get_places_stats now bytes st =
     (let n = gp_hits st + gp_misses st; rate = (if 0 < n then real (gp_hits st) / real n * 100 else 0)
      in \<lparr>sp_hits = gp_hits st, sp_misses = gp_misses st, sp_rate = py_round 2 rate, sp_saved = gp_saved st,
          sp_cost = py_round 3 (real (gp_saved st) * 0.032), sp_storage = get_geo_stats now bytes (gp_cache st)\<rparr>)"

text \<open>
  The body of another method follows the counters in this one: it reads \<open>place_types\<close>, which has no value
  yet, and raises.
\<close>

definition reset_places_stats :: "'s places_service \<Rightarrow> unit res \<times> 's places_service" where
  "reset_places_stats st = (Inl (OtherError ''UnboundLocalError''), st\<lparr>gp_hits := 0, gp_misses := 0, gp_saved := 0\<rparr>)"

subsection \<open>Three kinds of days\<close>

record categories =
  cg_nature :: "pydict list"
  cg_cultural :: "pydict list"
  cg_adventure :: "pydict list"

definition nature_types :: "string list" where
  "nature_types = [''park'', ''natural_feature'', ''campground'', ''beach'', ''hiking_area'']"

definition cultural_types :: "string list" where
  "cultural_types = [''museum'', ''art_gallery'', ''church'', ''historic_site'', ''city_hall'']"

definition adventure_types :: "string list" where
  "adventure_types = [''amusement_park'', ''aquarium'', ''zoo'', ''stadium'', ''sports_complex'']"

definition type_set :: "pydict \<Rightarrow> pyval set res" where
  "type_set place =
     rbind (viter (dget place ''types'' (VList []))) (\<lambda>ts. if list_all hashable ts then Inr (set ts) else Inl TypeError)"

definition type_score :: "pyval set \<Rightarrow> string list \<Rightarrow> nat" where
  "type_score ts names = length (filter (\<lambda>n. VStr n \<in> ts) names)"

datatype day_kind = NatureEscape | CulturalImmersion | AdventureDay

definition kind_of_place :: "pydict \<Rightarrow> day_kind option res" where
  "kind_of_place place =
     rbind (type_set place) (\<lambda>ts.
     let n = type_score ts nature_types; c = type_score ts cultural_types; a = type_score ts adventure_types; m = max n (max c a)
     in if m = 0
        then (if VStr ''point_of_interest'' \<in> ts
              then rbind (need_num (dget place ''rating'' (VInt 0))) (\<lambda>r. Inr (Some (if 4.5 \<le> r then CulturalImmersion else AdventureDay)))
              else Inr None)
        else if m = n then Inr (Some NatureEscape) else if m = c then Inr (Some CulturalImmersion) else Inr (Some AdventureDay))"

definition add_to_kind :: "day_kind option \<Rightarrow> pydict \<Rightarrow> categories \<Rightarrow> categories" where
  "add_to_kind k p g =
     (case k of
        None \<Rightarrow> g
      | Some NatureEscape \<Rightarrow> g\<lparr>cg_nature := cg_nature g @ [p]\<rparr>
      | Some CulturalImmersion \<Rightarrow> g\<lparr>cg_cultural := cg_cultural g @ [p]\<rparr>
      | Some AdventureDay \<Rightarrow> g\<lparr>cg_adventure := cg_adventure g @ [p]\<rparr>)"

definition categorize_places :: "pydict list \<Rightarrow> categories res" where
  "categorize_places places =
     rfold (\<lambda>p g. rbind (kind_of_place p) (\<lambda>k. Inr (add_to_kind k p g))) places \<lparr>cg_nature = [], cg_cultural = [], cg_adventure = []\<rparr>"

text \<open>The coordinates of the places that have a location; the client has no method for the distance of two of them.\<close>

definition place_locations :: "pydict \<Rightarrow> (pyval \<times> pyval) list res" where
  "place_locations p =
     (case map_of p ''geometry'' of
        None \<Rightarrow> Inr []
      | Some g \<Rightarrow>
          rbind (type_listed g ''location'') (\<lambda>b.
          if b
          then rbind (vindex g ''location'') (\<lambda>l. rbind (vindex l ''lat'') (\<lambda>a. rbind (vindex l ''lng'') (\<lambda>c. Inr [(a, c)])))
          else Inr []))"

definition calculate_average_distance :: "(pyval \<times> pyval) list \<Rightarrow> real res" where
  "calculate_average_distance cs = (if length cs < 2 then Inr 0 else Inl AttributeError)"

definition get_transport_options :: "pydict list \<Rightarrow> (string \<times> string) list res" where
  "get_transport_options places =
     rbind (rmap_list place_locations places) (\<lambda>css. rbind (calculate_average_distance (concat css)) (\<lambda>d.
     if 10 < d
     then Inr [(''nature_escape'', ''Tour organizado o auto recomendado''), (''cultural_immersion'', ''Transporte p'' @ utf8 [195, 186] @ ''blico o taxi''),
               (''adventure_day'', ''Tour organizado o transporte p'' @ utf8 [195, 186] @ ''blico'')]
     else if 3 < d
     then Inr [(''nature_escape'', ''Transporte p'' @ utf8 [195, 186] @ ''blico o auto''), (''cultural_immersion'', ''Transporte p'' @ utf8 [195, 186] @ ''blico''),
               (''adventure_day'', ''Transporte p'' @ utf8 [195, 186] @ ''blico o bicicleta'')]
     else Inr [(''nature_escape'', ''Transporte p'' @ utf8 [195, 186] @ ''blico o caminando''), (''cultural_immersion'', ''A pie o bicicleta''),
               (''adventure_day'', ''A pie o transporte p'' @ utf8 [195, 186] @ ''blico'')]))"

subsection \<open>Lemmas\<close>

text \<open>What a valid suggestion has.\<close>

definition good_quality :: "bool \<Rightarrow> pydict \<Rightarrow> bool" where
  "good_quality exclude_chains p \<longleftrightarrow>
     (\<exists>r n d. need_num (dget p ''rating'' (VInt 0)) = Inr r \<and> 4.5 \<le> r \<and> need_num (dget p ''user_ratings_total'' (VInt 0)) = Inr n \<and> 20 \<le> n \<and>
        need_num (dget p ''distance_km'' (VInt 0)) = Inr d \<and> d \<le> 5) \<and>
     (exclude_chains \<longrightarrow> (\<exists>s. map_of p ''name'' = Some (VStr s) \<and> (\<forall>c \<in> set chain_keywords. \<not> contains c (lower s))))"

lemma chain_check_False: "chain_check True p = Inr False \<longleftrightarrow> (\<exists>s. map_of p ''name'' = Some (VStr s) \<and> (\<forall>c \<in> set chain_keywords. \<not> contains c (lower s)))"
proof -
  have v: "vlower v = Inr name \<longleftrightarrow> (\<exists>s. v = VStr s \<and> name = lower s)" for v name by (cases v) auto
  show ?thesis by (simp add: chain_check_def rbind_eq_Inr_iff dindex_eq_Inr v list_ex_iff) blast
qed

lemma valid_iff: "is_valid_suggestion exclude_chains p \<longleftrightarrow> good_quality exclude_chains p"
proof -
  have a: "is_valid_suggestion exclude_chains p \<longleftrightarrow> quality_check exclude_chains p = Inr True"
    by (cases "quality_check exclude_chains p") (simp_all add: is_valid_suggestion_def)
  have c: "chain_check exclude_chains p = Inr False \<longleftrightarrow>
    (exclude_chains \<longrightarrow> (\<exists>s. map_of p ''name'' = Some (VStr s) \<and> (\<forall>c \<in> set chain_keywords. \<not> contains c (lower s))))"
    using chain_check_False by (cases exclude_chains) (simp_all add: chain_check_def)
  have q: "quality_check exclude_chains p = Inr True \<longleftrightarrow>
    (\<exists>r n d. need_num (dget p ''rating'' (VInt 0)) = Inr r \<and> 4.5 \<le> r \<and> need_num (dget p ''user_ratings_total'' (VInt 0)) = Inr n \<and> 20 \<le> n \<and>
        need_num (dget p ''distance_km'' (VInt 0)) = Inr d \<and> d \<le> 5) \<and> chain_check exclude_chains p = Inr False"
    unfolding quality_check_def
    by (cases "need_num (dget p ''rating'' (VInt 0))"; cases "need_num (dget p ''user_ratings_total'' (VInt 0))";
        cases "need_num (dget p ''distance_km'' (VInt 0))"; cases "chain_check exclude_chains p") auto
  show ?thesis unfolding a q c good_quality_def ..
qed

lemma set_rank: "set (rank_places j ps) = set ps"
proof -
  have "set (rank_places j ps) = set (map snd (enumerate 0 ps))" by (simp only: rank_places_def set_map set_sort)
  then show ?thesis by simp
qed

lemma length_rank: "length (rank_places j ps) = length ps"
  by (simp add: rank_places_def)

lemma set_slice_to: "set (slice_to k xs) \<subseteq> set xs"
  by (auto simp: slice_to_def dest: in_set_takeD)

lemma found_place:
  assumes "p \<in> set (found_places env center types x day wanted)"
  shows "is_valid_suggestion x p \<and> (\<exists>v. process_google_place (pe_show env) center v = Some p)"
  using assms by (auto simp: found_places_def places_of_type_def List.map_filter_def)

lemma fresh_place:
  assumes "p \<in> set (fresh_places env center types limit x day)"
  shows "is_valid_suggestion x p \<and> (\<exists>v. process_google_place (pe_show env) center v = Some p)"
proof -
  from assms obtain wanted where "p \<in> set (found_places env center types x day wanted)"
    using set_slice_to set_take_subset set_rank by (fastforce simp: fresh_places_def Let_def)
  then show ?thesis by (rule found_place)
qed

lemma processed_fields:
  assumes "process_google_place show origin v = Some p"
  shows "dget p ''synthetic'' VNone = VBool False \<and> dget p ''source'' VNone = VStr ''google_places''"
proof -
  from assms have "google_place show origin v = Inr (Some p)"
    by (cases "google_place show origin v") (simp_all add: process_google_place_def)
  then show ?thesis unfolding google_place_def by (elim rbind_eq_InrE) (auto simp: Let_def elim!: rbind_eq_InrE split: if_splits)
qed

definition from_google :: "pydict \<Rightarrow> bool" where
  "from_google p \<longleftrightarrow> dget p ''synthetic'' VNone = VBool False \<and> dget p ''source'' VNone = VStr ''google_places''"

lemma fresh_from_google: "\<forall>p \<in> set (fresh_places env center types limit x day). from_google p"
  using fresh_place processed_fields unfolding from_google_def by blast

lemma marked_from_google: "from_google place \<Longrightarrow> marked_copy place p \<Longrightarrow> from_google p"
  by (auto simp: from_google_def marked_copy_def dget_dset)

lemma in_taken: "p \<in> set (take n (filter P (take m xs))) \<Longrightarrow> p \<in> set xs \<and> P p"
  by (drule in_set_takeD) (auto dest: in_set_takeD)

text \<open>The outcomes of a search.\<close>

lemma search_cases:
  assumes "search_nearby_real_with lookup store env center radius types limit x day st = (ps, st')"
  obtains (failed) "ps = []" "gp_cache st' = snd (lookup (pe_now env) center radius (Some (get_types_for_day types day)) (gp_cache st))"
  | (hit) cached where "fst (lookup (pe_now env) center radius (Some (get_types_for_day types day)) (gp_cache st)) = Inr (Some cached)"
      "ps = take limit (filter (is_valid_suggestion x) (take (limit * 2) cached))"
      "gp_cache st' = snd (lookup (pe_now env) center radius (Some (get_types_for_day types day)) (gp_cache st))"
  | (fresh) "ps = take limit (fresh_places env center (get_types_for_day types day) limit x day)"
      "gp_cache st' = store (pe_now env) (pe_written env) center radius (get_types_for_day types day)
         (fresh_places env center (get_types_for_day types day) limit x day)
         (snd (lookup (pe_now env) center radius (Some (get_types_for_day types day)) (gp_cache st)))"
proof -
  let ?r = "lookup (pe_now env) center radius (Some (get_types_for_day types day)) (gp_cache st)"
  let ?f = "fresh_places env center (get_types_for_day types day) limit x day"
  show thesis
  proof (cases "fst ?r")
    case (Inl e)
    then show thesis using assms by (intro failed) (auto simp: search_nearby_real_with_def Let_def)
  next
    case (Inr found)
    define c where "c = (case found of Some ps \<Rightarrow> ps | None \<Rightarrow> [])"
    show thesis
    proof (cases "c \<noteq> [] \<and> limit \<le> length c")
      case True
      then have "found = Some c" by (cases found) (simp_all add: c_def)
      then show thesis using assms True Inr by (intro hit [of c]) (auto simp: search_nearby_real_with_def Let_def c_def)
    next
      case False
      consider "\<not> pe_key env" | "?f = []" | "pe_key env" "?f \<noteq> []" by blast
      then show thesis
      proof cases
        case 1
        then show thesis using assms False Inr by (intro failed) (auto simp: search_nearby_real_with_def Let_def c_def [symmetric])
      next
        case 2
        then show thesis using assms False Inr by (intro failed) (auto simp: search_nearby_real_with_def Let_def c_def [symmetric] split: if_splits)
      next
        case 3
        then show thesis using assms False Inr by (intro fresh) (auto simp: search_nearby_real_with_def Let_def c_def [symmetric])
      qed
    qed
  qed
qed

text \<open>The states of a service that starts with a store.\<close>

inductive service_reaches ::
  "(real \<Rightarrow> coord \<Rightarrow> real \<Rightarrow> string list option \<Rightarrow> 's \<Rightarrow> pydict list option res \<times> 's) \<Rightarrow>
   (real \<Rightarrow> bool \<Rightarrow> coord \<Rightarrow> real \<Rightarrow> string list \<Rightarrow> pydict list \<Rightarrow> 's \<Rightarrow> 's) \<Rightarrow> 's \<Rightarrow> 's places_service \<Rightarrow> bool"
  for lookup store s0 where
  service_new: "service_reaches lookup store s0 (new_places_service s0)"
| service_search: "service_reaches lookup store s0 st \<Longrightarrow>
    service_reaches lookup store s0 (snd (search_nearby_real_with lookup store env center radius types limit x day st))"
| service_reset: "service_reaches lookup store s0 st \<Longrightarrow> service_reaches lookup store s0 (snd (reset_places_stats st))"

context place_store
begin

lemma search_good:
  assumes "good from_google (gp_cache st)"
  shows "good from_google (gp_cache (snd (search_nearby_real_with lookup store env center radius types limit x day st))) \<and>
    (\<forall>p \<in> set (fst (search_nearby_real_with lookup store env center radius types limit x day st)). from_google p)"
proof -
  obtain ps st' where r: "search_nearby_real_with lookup store env center radius types limit x day st = (ps, st')" by (rule prod.exhaust)
  have l: "good from_google (snd (lookup (pe_now env) center radius (Some (get_types_for_day types day)) (gp_cache st)))"
    by (rule lookup_good [OF assms])
  show ?thesis
  proof (cases rule: search_cases [OF r])
    case 1
    then show ?thesis using l by (simp add: r)
  next
    case (2 cached)
    have "from_google p" if "p \<in> set cached" for p
      using lookup_sound [OF assms 2(1) that] marked_from_google by blast
    then have "\<forall>p \<in> set ps. from_google p" unfolding 2(2) by (intro ballI) (drule in_taken, elim conjE)
    then show ?thesis using 2(3) l by (simp add: r)
  next
    case 3
    let ?f = "fresh_places env center (get_types_for_day types day) limit x day"
    have f: "\<forall>p \<in> set ?f. from_google p" by (rule fresh_from_google)
    have "\<forall>p \<in> set ps. from_google p" unfolding 3(1) using f set_take_subset [of limit ?f] by (meson subsetD)
    moreover have "good from_google (gp_cache st')" unfolding 3(2) by (rule store_good [OF l f])
    ultimately show ?thesis by (simp add: r)
  qed
qed

lemma service_good: "service_reaches lookup store s0 st \<Longrightarrow> good from_google s0 \<Longrightarrow> good from_google (gp_cache st)"
  by (induction rule: service_reaches.induct) (simp_all add: new_places_service_def reset_places_stats_def search_good)

lemma service_results:
  "service_reaches lookup store s0 st \<Longrightarrow> good from_google s0 \<Longrightarrow>
   \<forall>p \<in> set (fst (search_nearby_real_with lookup store env center radius types limit x day st)). from_google p"
  using search_good [OF service_good] by blast

end

lemma synthetic_total: "types \<noteq> [] \<Longrightarrow> \<exists>ps. generate_synthetic_suggestions h c types n = Inr ps \<and> ps \<noteq> []"
  by (simp add: generate_synthetic_suggestions_def Let_def)

lemma search_attempt_nonempty: "search_attempt h client c types n k = Inr ps \<Longrightarrow> 1 \<le> n \<Longrightarrow> ps \<noteq> []"
  by (cases "client k") (auto simp: search_attempt_def generate_synthetic_suggestions_def Let_def split: if_splits)

lemma spiral_distance: "(fst (spiral_point c n i) - fst c)\<^sup>2 + (snd (spiral_point c n i) - snd c)\<^sup>2 = (0.003 + real i * 0.001)\<^sup>2"
proof -
  have "(r * cos a)\<^sup>2 + (r * sin a)\<^sup>2 = r\<^sup>2" for r a :: real
    by (metis mult.right_neutral power_mult_distrib ring_class.ring_distribs(1) sin_cos_squared_add2)
  then show ?thesis by (simp add: spiral_point_def Let_def)
qed

lemma categorize_fold:
  "rfold (\<lambda>p g. rbind (kind_of_place p) (\<lambda>k. Inr (add_to_kind k p g))) places g = Inr g' \<Longrightarrow>
   cg_nature g' = cg_nature g @ filter (\<lambda>p. kind_of_place p = Inr (Some NatureEscape)) places \<and>
   cg_cultural g' = cg_cultural g @ filter (\<lambda>p. kind_of_place p = Inr (Some CulturalImmersion)) places \<and>
   cg_adventure g' = cg_adventure g @ filter (\<lambda>p. kind_of_place p = Inr (Some AdventureDay)) places"
proof (induction places arbitrary: g)
  case (Cons p places)
  from Cons.prems obtain k where k: "kind_of_place p = Inr k"
    and f: "rfold (\<lambda>p g. rbind (kind_of_place p) (\<lambda>k. Inr (add_to_kind k p g))) places (add_to_kind k p g) = Inr g'"
    by (auto simp: rbind_eq_Inr_iff)
  show ?case using Cons.IH [OF f] k by (cases "k"; cases "the k") (simp_all add: add_to_kind_def)
qed simp

subsection \<open>Properties\<close>

text \<open>
  every place a search suggests, from the cache or from Google, has a rating of at least 4.5 from at least
  20 reviews, lies within 5 km and, when chains are excluded, has a name without the name of a chain; and there are at
  most as many as asked for.
\<close>

theorem suggestions_have_quality:
  "length (fst (search_nearby_real env center radius types limit x day st)) \<le> limit \<and>
   (\<forall>p \<in> set (fst (search_nearby_real env center radius types limit x day st)). good_quality x p)"
proof -
  obtain ps st' where r: "search_nearby_real env center radius types limit x day st = (ps, st')" by (rule prod.exhaust)
  have "length ps \<le> limit \<and> (\<forall>p \<in> set ps. is_valid_suggestion x p)"
  proof (cases rule: search_cases [OF r])
    case (2 cached)
    have "\<forall>p \<in> set ps. is_valid_suggestion x p" unfolding 2(2) by (intro ballI) (drule in_taken, elim conjE)
    moreover have "length ps \<le> limit" unfolding 2(2) by simp
    ultimately show ?thesis by (rule conjI [rotated])
  next
    case 3
    have "\<forall>p \<in> set ps. is_valid_suggestion x p" unfolding 3(1) by (intro ballI, drule in_set_takeD, drule fresh_place, elim conjE)
    moreover have "length ps \<le> limit" unfolding 3(1) by simp
    ultimately show ?thesis by (rule conjI [rotated])
  qed simp_all
  then show ?thesis by (simp add: r valid_iff)
qed

definition good_reply :: "int \<times> pyval" where
  "good_reply = (200, VDict [(''status'', VStr ''OK''), (''results'', VList [VDict
     [(''geometry'', VDict [(''location'', VDict [(''lat'', VInt 1), (''lng'', VInt 1)])]), (''name'', VStr ''A''), (''rating'', VFloat 5),
      (''user_ratings_total'', VInt 90), (''types'', VList [VStr ''cafe''])]])])"

definition good_env :: places_env where
  "good_env = \<lparr>pe_now = 10, pe_written = True, pe_key = True, pe_show = (\<lambda>v. []), pe_reply = (\<lambda>i t. Some good_reply), pe_jitter = (\<lambda>s i. 0)\<rparr>"

theorem suggestions_have_quality_witness:
  "\<forall>p \<in> set (fst (search_nearby_real good_env (1, 1) 3000 None 3 True 1 (new_places_service empty_geo_cache))). good_quality True p"
  by (rule suggestions_have_quality [THEN conjunct2])

text \<open>
  C14: the real search never invents a place: in every state a service reaches by such searches from a cache of places from
  Google, whatever the replies, each place that \<open>search_nearby_real\<close> answers is marked as real and as from Google.
  (The other search of the service, \<open>search_nearby\<close>, does make places up.)
\<close>

theorem real_searches_never_invent_places:
  "service_reaches get_cached_places cache_places s0 st \<Longrightarrow> geo_good from_google s0 \<Longrightarrow>
   \<forall>p \<in> set (fst (search_nearby_real env center radius types limit x day st)).
     dget p ''synthetic'' VNone = VBool False \<and> dget p ''source'' VNone = VStr ''google_places''"
  using places.service_results [of s0 st env center radius types limit x day] by (simp add: from_google_def)

theorem real_searches_never_invent_places_witness:
  "list_all (\<lambda>p. dget p ''synthetic'' VNone = VBool False \<and> dget p ''source'' VNone = VStr ''google_places'')
     (fst (search_nearby_real good_env (1, 1) 3000 None 3 True 1
       (snd (search_nearby_real good_env (1, 1) 3000 None 3 True 1 (new_places_service (start_cache 0 24 []))))))"
proof -
  have "geo_good from_google (start_cache 0 24 [])"
    by (simp add: geo_good_def start_cache_def load_from_disk_def cleanup_expired_def remove_keys_def)
  from real_searches_never_invent_places [OF service_search [OF service_new] this]
  show ?thesis by (simp add: list_all_iff)
qed

lemma search_nearby_total:
  "1 \<le> limit \<Longrightarrow> \<exists>ps. search_nearby pyhash client center types limit = Inr ps \<and> ps \<noteq> []"
proof -
  assume l: "1 \<le> limit"
  let ?ts = "case types of None \<Rightarrow> default_types | Some ts \<Rightarrow> ts"
  let ?a = "\<lambda>k. search_attempt pyhash client center ?ts limit k"
  define us where "us = (if ?ts = [] then [''point_of_interest''] else ?ts)"
  have "us \<noteq> []" by (simp add: us_def)
  then obtain qs where q: "generate_synthetic_suggestions pyhash center us limit = Inr qs" "qs \<noteq> []"
    using synthetic_total by blast
  show ?thesis
  proof (cases "?a 0")
    case (Inr ps)
    then show ?thesis using search_attempt_nonempty [OF Inr l] by (simp add: search_nearby_def Let_def)
  next
    case (Inl e)
    show ?thesis
    proof (cases "?a 1")
      case (Inr ps)
      then show ?thesis using Inl search_attempt_nonempty [OF Inr l] by (simp add: search_nearby_def Let_def)
    next
      case (Inl e')
      then show ?thesis using \<open>?a 0 = Inl e\<close> q by (simp add: search_nearby_def Let_def us_def)
    qed
  qed
qed

text \<open>
  the search that makes places up never fails and never comes back empty: whatever the client answers or
  raises at either attempt, and for any types, there is at least one place when at least one is asked for.
\<close>

theorem search_nearby_always_answers:
  "1 \<le> limit \<Longrightarrow> \<exists>ps. search_nearby pyhash client center types limit = Inr ps \<and> ps \<noteq> []"
  by (rule search_nearby_total)

theorem search_nearby_always_answers_witness:
  "\<exists>ps. search_nearby (\<lambda>s. 0) (\<lambda>k. Inl ConnectionError) (0, 0) (Some []) 3 = Inr ps \<and> ps \<noteq> []"
  by (rule search_nearby_always_answers) simp

text \<open>
  made-up places lie on a spiral: the place at position \<open>i\<close> is exactly 0.003 + 0.001 i degrees from the
  centre, and there are as many as asked for but at least three.
\<close>

theorem synthetic_places_lie_on_a_spiral:
  "generate_synthetic_suggestions pyhash center types limit = Inr ps \<Longrightarrow>
   length ps = max limit 3 \<and>
   (\<forall>i < length ps. \<exists>a b. dget (ps ! i) ''lat'' VNone = VFloat a \<and> dget (ps ! i) ''lon'' VNone = VFloat b \<and>
      (a - fst center)\<^sup>2 + (b - snd center)\<^sup>2 = (0.003 + real i * 0.001)\<^sup>2)"
proof -
  assume "generate_synthetic_suggestions pyhash center types limit = Inr ps"
  then have ps: "ps = map (\<lambda>i. synthetic_place pyhash center (closest_city_name (fst center) (snd center)) (max limit 3) (types ! (i mod length types)) i) [0..<max limit 3]"
    by (simp add: generate_synthetic_suggestions_def Let_def split: if_splits)
  have "dget (synthetic_place h center c n t i) ''lat'' VNone = VFloat (fst (spiral_point center n i)) \<and>
    dget (synthetic_place h center c n t i) ''lon'' VNone = VFloat (snd (spiral_point center n i))" for h c n t i
    by (simp add: synthetic_place_def Let_def)
  then show ?thesis using spiral_distance [of center] unfolding ps by (simp del: split_paired_All)
qed

theorem synthetic_places_lie_on_a_spiral_witness:
  "\<exists>ps. generate_synthetic_suggestions (\<lambda>s. 0) (0, 0) [''cafe''] 1 = Inr ps \<and> length ps = 3"
proof -
  obtain ps where p: "generate_synthetic_suggestions (\<lambda>s. 0) (0, 0) [''cafe''] 1 = Inr ps"
    using synthetic_total [of "[''cafe'']"] by blast
  with synthetic_places_lie_on_a_spiral [OF p] show ?thesis by simp
qed

text \<open>
  on the first day, and on every fifth after it, the default search asks for cafes twice; if both requests get
  the same reply then every cafe found is a candidate twice.
\<close>

theorem first_day_doubles_every_cafe:
  assumes "(day - 1) mod 5 = 0" "pe_reply env 1 ''cafe'' = pe_reply env 2 ''cafe''"
  shows "\<exists>cs. found_places env center (get_types_for_day None day) x day (\<lambda>t. t \<noteq> ''tourist_attraction'') = cs @ cs"
proof -
  have t: "get_types_for_day None day = [''tourist_attraction'', ''cafe'', ''cafe'']"
    using assms(1) by (simp add: get_types_for_day_def day_variety_types_def)
  show ?thesis unfolding t found_places_def using assms(2) by (simp add: numeral_2_eq_2) (rule exI, rule refl)
qed

theorem first_day_doubles_every_cafe_witness:
  "\<exists>cs. found_places good_env (1, 1) (get_types_for_day None 6) True 6 (\<lambda>t. t \<noteq> ''tourist_attraction'') = cs @ cs"
  by (rule first_day_doubles_every_cafe) (simp_all add: good_env_def)

text \<open>
  the categories are exactly the places of each kind in their order: no place is in two of them, and a place
  is in none exactly when it has no type of any kind and is no point of interest.
\<close>

theorem categories_sort_the_places:
  assumes "categorize_places places = Inr g"
  shows "cg_nature g = filter (\<lambda>p. kind_of_place p = Inr (Some NatureEscape)) places \<and>
    cg_cultural g = filter (\<lambda>p. kind_of_place p = Inr (Some CulturalImmersion)) places \<and>
    cg_adventure g = filter (\<lambda>p. kind_of_place p = Inr (Some AdventureDay)) places"
  using categorize_fold [OF assms [unfolded categorize_places_def]] by simp

theorem categories_sort_the_places_witness:
  "\<exists>g. categorize_places [[(''types'', VList [VStr ''park'', VStr ''museum''])]] = Inr g \<and> length (cg_nature g) = 1"
proof -
  have k: "kind_of_place [(''types'', VList [VStr ''park'', VStr ''museum''])] = Inr (Some NatureEscape)"
  proof -
    have "type_set [(''types'', VList [VStr ''park'', VStr ''museum''])] = Inr {VStr ''park'', VStr ''museum''}"
      by (simp add: type_set_def is_list_def is_dict_val_def)
    moreover have "type_score {VStr ''park'', VStr ''museum''} nature_types = 1" "type_score {VStr ''park'', VStr ''museum''} cultural_types = 1"
      "type_score {VStr ''park'', VStr ''museum''} adventure_types = 0"
      by (simp_all add: type_score_def nature_types_def cultural_types_def adventure_types_def)
    ultimately show ?thesis by (simp only: kind_of_place_def rbind_Inr Let_def) simp
  qed
  then obtain g where g: "categorize_places [[(''types'', VList [VStr ''park'', VStr ''museum''])]] = Inr g" by (simp add: categorize_places_def)
  show ?thesis using categories_sort_the_places [OF g] g k by simp
qed

text \<open>
  whenever the means of transport are recommended, it is the recommendation for places close together: the client
  has no method for the distance, so that two places with a location make the recommendation fail.
\<close>

theorem transport_is_always_for_close_places:
  "get_transport_options places = Inr opts \<Longrightarrow>
   map_of opts ''cultural_immersion'' = Some ''A pie o bicicleta'' \<and> (\<exists>css. rmap_list place_locations places = Inr css \<and> length (concat css) < 2)"
  by (auto simp: get_transport_options_def rbind_eq_Inr_iff calculate_average_distance_def split: if_splits)

theorem transport_is_always_for_close_places_witness:
  "\<exists>opts. get_transport_options [] = Inr opts \<and> map_of opts ''cultural_immersion'' = Some ''A pie o bicicleta''"
proof -
  obtain opts where o: "get_transport_options [] = Inr opts" by (simp add: get_transport_options_def calculate_average_distance_def)
  with transport_is_always_for_close_places [OF o] show ?thesis by blast
qed

text \<open>the filter of chains does not know the names with an apostrophe: a McDonald's passes it.\<close>

theorem chains_with_an_apostrophe_pass:
  "is_valid_suggestion True
     [(''name'', VStr (''McDonald'' @ [CHR 0x27] @ ''s'')), (''rating'', VFloat 4.6), (''user_ratings_total'', VInt 500), (''distance_km'', VInt 1)]"
  by (simp add: is_valid_suggestion_def quality_check_def chain_check_def dindex_def lower_def lower_char_def chain_keywords_def)

end
