(* ===== verification/MapsClient.thy ===== *)
theory MapsClient
  imports GooglePlaces Clusters
begin

section \<open>The maps client\<close>

text \<open>
  src/utils/google\_maps\_client.py: details of places, routes, matrices, searches and geocoding from the maps
  service, with what is used when the service does not answer.  A reply is a body or the exception of its request;
  \<open>session\<close> tells whether the client was entered as a context, without which a request raises.  Times of the
  opening hours are text, and a time of another type raises.  The decorator that caches the methods is in Caches.
\<close>

definition ask :: "bool \<Rightarrow> pyval res \<Rightarrow> pyval res" where
  "ask session reply = (if session then reply else Inl AttributeError)"

text \<open>\<open>v[:n]\<close>.\<close>

definition vtake :: "nat \<Rightarrow> pyval \<Rightarrow> pyval res" where
  "vtake n v = (case v of VList xs \<Rightarrow> Inr (VList (take n xs)) | VStr s \<Rightarrow> Inr (VStr (take n s)) | _ \<Rightarrow> Inl TypeError)"

definition convert_transport_mode :: "string \<Rightarrow> string" where
  "convert_transport_mode mode =
     (case map_of [(''walk'', ''walking''), (''walking'', ''walking''), (''drive'', ''driving''), (''driving'', ''driving''),
         (''bike'', ''bicycling''), (''bicycling'', ''bicycling''), (''transit'', ''transit'')] (lower mode) of
        Some m \<Rightarrow> m | None \<Rightarrow> ''walking'')"

subsection \<open>Opening hours\<close>

record place_opening =
  op_now :: pyval
  op_periods :: pyval
  op_text :: pyval
  op_parsed :: "(pyval, string \<times> string) dict"

definition default_week_text :: "string list" where
  "default_week_text =
     (let dash = utf8 [226, 128, 147]
      in [''Lunes: 09:00'' @ dash @ ''18:00'', ''Martes: 09:00'' @ dash @ ''18:00'', ''Mi'' @ utf8 [195, 169] @ ''rcoles: 09:00'' @ dash @ ''18:00'',
          ''Jueves: 09:00'' @ dash @ ''18:00'', ''Viernes: 09:00'' @ dash @ ''18:00'', ''S'' @ utf8 [195, 161] @ ''bado: 10:00'' @ dash @ ''17:00'',
          ''Domingo: 10:00'' @ dash @ ''17:00''])"

definition default_opening_hours :: place_opening where
  "default_opening_hours =
     \<lparr>op_now = VBool True, op_periods = VList [], op_text = VList (map VStr default_week_text),
      op_parsed = map (\<lambda>d. (VInt d, (''09:00'', ''18:00''))) [0..4] @ map (\<lambda>d. (VInt d, (''10:00'', ''17:00''))) [5..6]\<rparr>"

definition hour_text :: "pyval \<Rightarrow> string \<Rightarrow> string res" where
  "hour_text t dflt =
     rbind (vget t ''time'' (VStr dflt)) (\<lambda>v. case v of VStr s \<Rightarrow> Inr (take 2 s @ '':'' @ drop 2 s) | _ \<Rightarrow> Inl TypeError)"

definition parse_period :: "pyval \<Rightarrow> (pyval, string \<times> string) dict \<Rightarrow> (pyval, string \<times> string) dict res" where
  "parse_period period parsed =
     rbind (vget period ''open'' (VDict [])) (\<lambda>a. rbind (vget period ''close'' (VDict [])) (\<lambda>b.
     if truthy a \<and> truthy b
     then rbind (vget a ''day'' (VInt 0)) (\<lambda>day. rbind (hour_text a ''0900'') (\<lambda>x. rbind (hour_text b ''1800'') (\<lambda>y.
       if hashable day then Inr (dset day (x, y) parsed) else Inl TypeError)))
     else Inr parsed))"

definition parse_periods :: "pyval \<Rightarrow> (pyval, string \<times> string) dict res" where
  "parse_periods periods = rbind (viter periods) (\<lambda>ps. rfold parse_period ps [])"

definition parse_opening_hours :: "pyval \<Rightarrow> place_opening res" where
  "parse_opening_hours hours =
     (if \<not> truthy hours then Inr default_opening_hours
      else
        rbind (vget hours ''periods'' (VList [])) (\<lambda>periods. rbind (vget hours ''weekday_text'' (VList [])) (\<lambda>txt.
        rbind (vget hours ''open_now'' (VBool True)) (\<lambda>now1. rbind (parse_periods periods) (\<lambda>parsed.
        Inr \<lparr>op_now = now1, op_periods = periods, op_text = txt, op_parsed = parsed\<rparr>)))))"

subsection \<open>Visits and reviews\<close>

definition visit_hours :: "(string \<times> real) list" where
  "visit_hours =
     [(''museum'', 2.5), (''park'', 1.5), (''restaurant'', 1.25), (''cafe'', 0.75), (''shopping_mall'', 2), (''church'', 0.75),
      (''tourist_attraction'', 2), (''amusement_park'', 4), (''zoo'', 3), (''aquarium'', 2.5), (''art_gallery'', 1.5), (''library'', 1),
      (''movie_theater'', 2.5), (''night_club'', 3), (''bar'', 1.5)]"

text \<open>The first type with a known duration; a type that is not hashable raises.\<close>

fun first_visit :: "pyval list \<Rightarrow> real option res" where
  "first_visit [] = Inr None"
| "first_visit (t # ts) =
     (if \<not> hashable t then Inl TypeError
      else case t of VStr s \<Rightarrow> (case map_of visit_hours s of Some h \<Rightarrow> Inr (Some h) | None \<Rightarrow> first_visit ts) | _ \<Rightarrow> first_visit ts)"

definition estimate_visit_duration :: "pyval \<Rightarrow> real res" where
  "estimate_visit_duration place =
     rbind (vget place ''types'' (VList [])) (\<lambda>v. rbind (viter v) (\<lambda>ts. rbind (first_visit ts) (\<lambda>h.
     case h of
       Some x \<Rightarrow> Inr x
     | None \<Rightarrow>
         rbind (vget place ''rating'' (VFloat 4)) (\<lambda>w. rbind (need_num w) (\<lambda>r. Inr (if 4.5 \<le> r then 2 else if 4 \<le> r then 1.5 else 1))))))"

record review_summary =
  rs_summary :: string
  rs_sentiment :: string
  rs_recent :: "string list"

definition review_text :: "pyval \<Rightarrow> string res" where
  "review_text r = rbind (vget r ''text'' (VStr [])) (\<lambda>v. case v of VStr s \<Rightarrow> Inr (take 100 s @ ''...'') | _ \<Rightarrow> Inl TypeError)"

definition summarize_reviews :: "pyval \<Rightarrow> review_summary res" where
  "summarize_reviews reviews =
     (if \<not> truthy reviews
      then Inr \<lparr>rs_summary = ''Sin rese'' @ utf8 [195, 177] @ ''as disponibles'', rs_sentiment = ''neutral'', rs_recent = []\<rparr>
      else
        rbind (viter reviews) (\<lambda>rs.
        rbind (rmap_list (\<lambda>r. rbind (vget r ''rating'' (VInt 3)) need_num) rs) (\<lambda>xs.
        let avg = sum_list xs / real (length rs)
        in rbind (rmap_list review_text (take 2 rs)) (\<lambda>texts.
           Inr \<lparr>rs_summary = ''Promedio '' @ show_fixed 1 avg @ ''/5 basado en '' @ show_nat (length rs) @ '' rese'' @ utf8 [195, 177] @ ''as'',
                rs_sentiment = (if 4 \<le> avg then ''positive'' else if 3 \<le> avg then ''neutral'' else ''negative''), rs_recent = texts\<rparr>))))"

subsection \<open>Details of a place\<close>

record place_details =
  dt_name :: pyval
  dt_lat :: pyval
  dt_lon :: pyval
  dt_rating :: pyval
  dt_price :: pyval
  dt_types :: pyval
  dt_hours :: place_opening
  dt_visit :: real
  dt_more :: "(pyval \<times> pyval \<times> review_summary) option" \<comment> \<open>address, photos and reviews\<close>

definition format_place_details :: "string \<Rightarrow> coord \<Rightarrow> pyval \<Rightarrow> place_details res" where
  "format_place_details original_name c place =
     rbind (vget place ''geometry'' (VDict [])) (\<lambda>g. rbind (vget g ''location'' (VDict [])) (\<lambda>l.
     rbind (vget place ''name'' (VStr original_name)) (\<lambda>name. rbind (vget place ''formatted_address'' (VStr [])) (\<lambda>address.
     rbind (vget l ''lat'' (VFloat (fst c))) (\<lambda>lat. rbind (vget l ''lng'' (VFloat (snd c))) (\<lambda>lon.
     rbind (vget place ''rating'' (VFloat 4)) (\<lambda>rating. rbind (vget place ''price_level'' (VInt 2)) (\<lambda>price.
     rbind (vget place ''types'' (VList [VStr ''point_of_interest''])) (\<lambda>types.
     rbind (vget place ''opening_hours'' VNone) (\<lambda>h. rbind (parse_opening_hours h) (\<lambda>hours.
     rbind (estimate_visit_duration place) (\<lambda>visit.
     rbind (vget place ''photos'' (VList [])) (\<lambda>ph. rbind (vtake 3 ph) (\<lambda>photos.
     rbind (vget place ''reviews'' (VList [])) (\<lambda>rv. rbind (summarize_reviews rv) (\<lambda>reviews.
     Inr \<lparr>dt_name = name, dt_lat = lat, dt_lon = lon, dt_rating = rating, dt_price = price, dt_types = types, dt_hours = hours,
          dt_visit = visit, dt_more = Some (address, photos, reviews)\<rparr>))))))))))))))))"

definition basic_details :: "string \<Rightarrow> coord \<Rightarrow> place_details" where
  "basic_details name c =
     \<lparr>dt_name = VStr name, dt_lat = VFloat (fst c), dt_lon = VFloat (snd c), dt_rating = VFloat 4, dt_price = VInt 2,
      dt_types = VList [VStr ''point_of_interest''], dt_hours = default_opening_hours, dt_visit = 1.5, dt_more = None\<rparr>"

text \<open>The search by text gives \<open>None\<close> when it finds nothing or fails.\<close>

definition text_search_place :: "bool \<Rightarrow> pyval res \<Rightarrow> string \<Rightarrow> coord \<Rightarrow> place_details option" where
  "text_search_place session text_reply name c =
     (case rbind (ask session text_reply) (\<lambda>data. rbind (vget data ''results'' VNone) (\<lambda>rs.
        if truthy rs then rbind (vfirst rs) (\<lambda>place. rbind (format_place_details name c place) (\<lambda>d. Inr (Some d))) else Inr None)) of
        Inr d \<Rightarrow> d | Inl e \<Rightarrow> None)"

definition details_answer ::
  "bool \<Rightarrow> pyval res \<Rightarrow> pyval res \<Rightarrow> pyval res \<Rightarrow> string \<Rightarrow> coord \<Rightarrow> place_details option option res" where
  "details_answer session search_reply text_reply details_reply name c =
     rbind (ask session search_reply) (\<lambda>data. rbind (vget data ''results'' VNone) (\<lambda>rs.
     if \<not> truthy rs then Inr (Some (text_search_place session text_reply name c))
     else
       rbind (vfirst rs) (\<lambda>place. rbind (vget place ''place_id'' VNone) (\<lambda>pid.
       rbind (ask session details_reply) (\<lambda>d. rbind (vget d ''result'' VNone) (\<lambda>r.
       if truthy r then rbind (format_place_details name c r) (\<lambda>x. Inr (Some (Some x))) else Inr None))))))"

definition get_place_details :: "bool \<Rightarrow> pyval res \<Rightarrow> pyval res \<Rightarrow> pyval res \<Rightarrow> string \<Rightarrow> coord \<Rightarrow> place_details option" where
  "get_place_details session search_reply text_reply details_reply name c =
     (case details_answer session search_reply text_reply details_reply name c of
        Inr (Some d) \<Rightarrow> d | _ \<Rightarrow> Some (basic_details name c))"

subsection \<open>Routes\<close>

record route_result =
  rr_waypoints :: "pydict list"
  rr_distance :: real
  rr_duration :: real
  rr_polyline :: pyval
  rr_optimized :: bool

definition leg_value :: "pyval \<Rightarrow> string \<Rightarrow> pyval res" where
  "leg_value leg k = rbind (vget leg k (VDict [])) (\<lambda>v. vget v ''value'' (VInt 0))"

text \<open>\<open>xs[k]\<close> with a value as index: a negative one counts from the end.\<close>

definition at_index :: "'a list \<Rightarrow> pyval \<Rightarrow> 'a res" where
  "at_index xs v =
     (case v of
        VInt k \<Rightarrow>
          let i = (if k < 0 then int (length xs) + k else k) in if 0 \<le> i \<and> i < int (length xs) then Inr (xs ! nat i) else Inl IndexError
      | VBool b \<Rightarrow> if (if b then 1 else 0) < length xs then Inr (xs ! (if b then 1 else 0)) else Inl IndexError
      | _ \<Rightarrow> Inl TypeError)"

definition travel_fields :: "pyval \<Rightarrow> pyval \<Rightarrow> pyval \<Rightarrow> pydict \<Rightarrow> pydict" where
  "travel_fields meters seconds instructions p =
     dset ''travel_instructions'' instructions (dset ''travel_duration_s'' seconds (dset ''travel_distance_m'' meters p))"

definition route_leg :: "pyval list \<Rightarrow> pydict list \<Rightarrow> nat \<times> pyval \<Rightarrow> pydict list \<times> real \<times> real \<Rightarrow> (pydict list \<times> real \<times> real) res" where
  "route_leg order waypoints = (\<lambda>(i, leg) (ps, d, s).
     if i < length order
     then
       rbind (at_index waypoints (order ! i)) (\<lambda>w. rbind (leg_value leg ''distance'') (\<lambda>m. rbind (leg_value leg ''duration'') (\<lambda>t.
       rbind (vget leg ''steps'' (VList [])) (\<lambda>st. rbind (vtake 3 st) (\<lambda>steps. rbind (need_num m) (\<lambda>x. rbind (need_num t) (\<lambda>y.
       Inr (ps @ [travel_fields m t steps w], d + x, s + y))))))))
     else Inr (ps, d, s))"

definition parse_route_response :: "pyval \<Rightarrow> pydict list \<Rightarrow> route_result res" where
  "parse_route_response route waypoints =
     rbind (vget route ''legs'' (VList [])) (\<lambda>lv. rbind (vget route ''waypoint_order'' (VList (map (\<lambda>i. VInt (int i)) [0..<length waypoints]))) (\<lambda>ov.
     rbind (viter lv) (\<lambda>legs. rbind (viter ov) (\<lambda>order.
     rbind (rfold (route_leg order waypoints) (enumerate 0 (butlast legs)) ([], 0, 0)) (\<lambda>(ps, d, s).
     rbind (vget route ''overview_polyline'' (VDict [])) (\<lambda>p. rbind (vget p ''points'' (VStr [])) (\<lambda>line.
     Inr \<lparr>rr_waypoints = ps, rr_distance = d, rr_duration = s, rr_polyline = line, rr_optimized = True\<rparr>)))))))"

text \<open>The nearest of the remaining points, the first among equals.\<close>

definition point_distance :: "pydict \<Rightarrow> pydict \<Rightarrow> real res" where
  "point_distance p q =
     rbind (pnum p ''lat'') (\<lambda>a. rbind (pnum p ''lon'') (\<lambda>b. rbind (pnum q ''lat'') (\<lambda>c. rbind (pnum q ''lon'') (\<lambda>d. haversine_km a b c d))))"

definition point_minutes :: "settings \<Rightarrow> string \<Rightarrow> pydict \<Rightarrow> pydict \<Rightarrow> real res" where
  "point_minutes cfg mode p q =
     rbind (pnum p ''lat'') (\<lambda>a. rbind (pnum p ''lon'') (\<lambda>b. rbind (pnum q ''lat'') (\<lambda>c. rbind (pnum q ''lon'') (\<lambda>d.
     estimate_travel_minutes cfg a b c d mode))))"

fun scan_closest :: "pydict \<Rightarrow> (nat \<times> pydict) list \<Rightarrow> ((nat \<times> pydict) \<times> real) option \<Rightarrow> ((nat \<times> pydict) \<times> real) option res" where
  "scan_closest current [] best = Inr best"
| "scan_closest current (q # qs) best =
     rbind (point_distance current (snd q)) (\<lambda>d.
     scan_closest current qs (case best of None \<Rightarrow> Some (q, d) | Some (p, m) \<Rightarrow> if d < m then Some (q, d) else best))"

text \<open>Each waypoint carries its position; \<open>n\<close> is the number of the remaining ones.\<close>

fun fallback_loop :: "settings \<Rightarrow> string \<Rightarrow> nat \<Rightarrow> pydict \<Rightarrow> (nat \<times> pydict) list \<Rightarrow> ((nat \<times> pydict) list \<times> real \<times> real) res" where
  "fallback_loop cfg mode 0 current remaining = Inr ([], 0, 0)"
| "fallback_loop cfg mode (Suc n) current remaining =
     rbind (scan_closest current remaining None) (\<lambda>b.
     case b of
       None \<Rightarrow> Inr ([], 0, 0)
     | Some ((i, p), d) \<Rightarrow>
         rbind (point_minutes cfg mode current p) (\<lambda>m.
         let p' = travel_fields (VInt (py_trunc (d * 1000))) (VInt (py_trunc (m * 60))) (VList []) p
         in rbind (fallback_loop cfg mode n p' (filter (\<lambda>q. fst q \<noteq> i) remaining)) (\<lambda>r.
            Inr ((i, p') # fst r, d * 1000 + fst (snd r), m * 60 + snd (snd r)))))"

definition fallback_order :: "settings \<Rightarrow> string \<Rightarrow> pydict list \<Rightarrow> pydict \<Rightarrow> ((nat \<times> pydict) list \<times> real \<times> real) res" where
  "fallback_order cfg mode waypoints start_point = fallback_loop cfg mode (length waypoints) start_point (enumerate 0 waypoints)"

definition maps_fallback_route :: "settings \<Rightarrow> string \<Rightarrow> pydict list \<Rightarrow> pydict \<Rightarrow> route_result res" where
  "maps_fallback_route cfg mode waypoints start_point =
     rbind (fallback_order cfg mode waypoints start_point) (\<lambda>r.
     Inr \<lparr>rr_waypoints = map snd (fst r), rr_distance = real_of_int (py_trunc (fst (snd r))), rr_duration = real_of_int (py_trunc (snd (snd r))),
          rr_polyline = VStr [], rr_optimized = False\<rparr>)"

definition has_coords :: "pydict \<Rightarrow> unit res" where
  "has_coords p = rbind (dindex p ''lat'') (\<lambda>a. rbind (dindex p ''lon'') (\<lambda>b. Inr ()))"

definition route_answer :: "settings \<Rightarrow> bool \<Rightarrow> pyval res \<Rightarrow> pydict list \<Rightarrow> pydict \<Rightarrow> string \<Rightarrow> route_result res" where
  "route_answer cfg session reply waypoints start_point mode =
     rbind (has_coords start_point) (\<lambda>u. rbind (rmap_list has_coords waypoints) (\<lambda>us. rbind (ask session reply) (\<lambda>data.
     rbind (vget data ''status'' VNone) (\<lambda>s. rbind (vget data ''routes'' VNone) (\<lambda>rs.
     if s = VStr ''OK'' \<and> truthy rs then rbind (vfirst rs) (\<lambda>route. parse_route_response route waypoints)
     else maps_fallback_route cfg mode waypoints start_point)))))"

definition get_optimal_route :: "settings \<Rightarrow> bool \<Rightarrow> pyval res \<Rightarrow> pydict list \<Rightarrow> pydict \<Rightarrow> string \<Rightarrow> route_result res" where
  "get_optimal_route cfg session reply waypoints start_point mode =
     (case route_answer cfg session reply waypoints start_point mode of
        Inr r \<Rightarrow> Inr r | Inl e \<Rightarrow> maps_fallback_route cfg mode waypoints start_point)"

subsection \<open>Matrices\<close>

record matrix_cell =
  mc_meters :: pyval
  mc_seconds :: pyval
  mc_distance_text :: pyval
  mc_duration_text :: pyval

definition own_cell :: "settings \<Rightarrow> string \<Rightarrow> pydict \<Rightarrow> pydict \<Rightarrow> matrix_cell res" where
  "own_cell cfg mode p q =
     rbind (point_distance p q) (\<lambda>km. rbind (point_minutes cfg mode p q) (\<lambda>m.
     Inr \<lparr>mc_meters = VInt (py_trunc (km * 1000)), mc_seconds = VInt (py_trunc (m * 60)), mc_distance_text = VStr (show_fixed 1 km @ '' km''),
          mc_duration_text = VStr (show_fixed 0 m @ '' min'')\<rparr>))"

definition list_at :: "'a list \<Rightarrow> nat \<Rightarrow> 'a res" where
  "list_at xs i = (if i < length xs then Inr (xs ! i) else Inl IndexError)"

definition parse_cell :: "settings \<Rightarrow> pydict list \<Rightarrow> pydict list \<Rightarrow> nat \<Rightarrow> nat \<times> pyval \<Rightarrow> matrix_cell res" where
  "parse_cell cfg origins destinations i = (\<lambda>(j, element).
     rbind (vget element ''status'' VNone) (\<lambda>s.
     if s = VStr ''OK''
     then
       rbind (vget element ''distance'' (VDict [])) (\<lambda>d. rbind (vget element ''duration'' (VDict [])) (\<lambda>t.
       rbind (vget d ''value'' (VInt 0)) (\<lambda>dv. rbind (vget t ''value'' (VInt 0)) (\<lambda>tv.
       rbind (vget d ''text'' (VStr [])) (\<lambda>dt. rbind (vget t ''text'' (VStr [])) (\<lambda>tt.
       Inr \<lparr>mc_meters = dv, mc_seconds = tv, mc_distance_text = dt, mc_duration_text = tt\<rparr>))))))
     else rbind (list_at origins i) (\<lambda>p. rbind (list_at destinations j) (\<lambda>q. own_cell cfg ''walking'' p q))))"

definition parse_distance_matrix :: "settings \<Rightarrow> pyval \<Rightarrow> pydict list \<Rightarrow> pydict list \<Rightarrow> matrix_cell list list res" where
  "parse_distance_matrix cfg data origins destinations =
     rbind (vget data ''rows'' (VList [])) (\<lambda>rv. rbind (viter rv) (\<lambda>rows.
     rmap_list (\<lambda>(i, row). rbind (vget row ''elements'' (VList [])) (\<lambda>ev. rbind (viter ev) (\<lambda>es.
       rmap_list (parse_cell cfg origins destinations i) (enumerate 0 es)))) (enumerate 0 rows)))"

definition fallback_distance_matrix :: "settings \<Rightarrow> string \<Rightarrow> pydict list \<Rightarrow> pydict list \<Rightarrow> matrix_cell list list res" where
  "fallback_distance_matrix cfg mode origins destinations = rmap_list (\<lambda>p. rmap_list (own_cell cfg mode p) destinations) origins"

definition matrix_answer :: "settings \<Rightarrow> bool \<Rightarrow> pyval res \<Rightarrow> pydict list \<Rightarrow> pydict list \<Rightarrow> string \<Rightarrow> matrix_cell list list res" where
  "matrix_answer cfg session reply origins destinations mode =
     rbind (rmap_list has_coords origins) (\<lambda>us. rbind (rmap_list has_coords destinations) (\<lambda>vs. rbind (ask session reply) (\<lambda>data.
     rbind (vget data ''status'' VNone) (\<lambda>s.
     if s = VStr ''OK'' then parse_distance_matrix cfg data origins destinations
     else fallback_distance_matrix cfg mode origins destinations))))"

definition maps_distance_matrix :: "settings \<Rightarrow> bool \<Rightarrow> pyval res \<Rightarrow> pydict list \<Rightarrow> pydict list \<Rightarrow> string \<Rightarrow> matrix_cell list list res" where
  "maps_distance_matrix cfg session reply origins destinations mode =
     (case matrix_answer cfg session reply origins destinations mode of
        Inr m \<Rightarrow> Inr m | Inl e \<Rightarrow> fallback_distance_matrix cfg mode origins destinations)"

subsection \<open>Searching\<close>

definition photo_fields :: "string \<Rightarrow> string \<Rightarrow> (pyval \<Rightarrow> string) \<Rightarrow> pydict \<Rightarrow> (pyval \<times> pyval) res" where
  "photo_fields base_url key show place =
     (case map_of place ''photos'' of
        None \<Rightarrow> Inr (VNone, VStr [])
      | Some ph \<Rightarrow>
          rbind (vlen ph) (\<lambda>n.
          if n = 0 then Inr (VNone, VStr [])
          else
            rbind (vfirst ph) (\<lambda>first. rbind (vget first ''photo_reference'' VNone) (\<lambda>r.
            if truthy r
            then Inr (r, VStr (base_url @ ''/place/photo?photoreference='' @ show r @ ''&sensor=false&maxheight=400&key='' @ key))
            else Inr (VNone, VStr [])))))"

definition hours_field :: "pydict \<Rightarrow> pyval res" where
  "hours_field place =
     (case map_of place ''opening_hours'' of
        None \<Rightarrow> Inr (VDict [])
      | Some h \<Rightarrow>
          rbind (vget h ''open_now'' (VBool True)) (\<lambda>a. rbind (vget h ''periods'' (VList [])) (\<lambda>b.
          Inr (VDict [(''open_now'', a), (''periods'', b)]))))"

definition nearby_place :: "string \<Rightarrow> string \<Rightarrow> (pyval \<Rightarrow> string) \<Rightarrow> pyval \<Rightarrow> pydict res" where
  "nearby_place base_url key show v =
     (case v of
        VDict place \<Rightarrow>
          rbind (dindex place ''geometry'') (\<lambda>g. rbind (vindex g ''location'') (\<lambda>l. rbind (vindex l ''lat'') (\<lambda>lat. rbind (vindex l ''lng'') (\<lambda>lon.
          rbind (photo_fields base_url key show place) (\<lambda>photo. rbind (hours_field place) (\<lambda>hours.
          let rating = dget place ''rating'' (VFloat 4)
          in Inr
            [(''name'', dget place ''name'' (VStr ''Lugar sin nombre'')), (''lat'', lat), (''lon'', lon), (''rating'', rating),
             (''user_ratings_total'', dget place ''user_ratings_total'' (VInt 0)), (''price_level'', dget place ''price_level'' (VInt 0)),
             (''types'', dget place ''types'' (VList [])), (''place_id'', dget place ''place_id'' (VStr [])),
             (''vicinity'', dget place ''vicinity'' (VStr [])),
             (''address'', dget place ''vicinity'' (VStr (''Direcci'' @ utf8 [195, 179] @ ''n no disponible''))),
             (''photo_reference'', fst photo), (''photo_url'', snd photo), (''opening_hours'', hours), (''website'', VStr []), (''phone'', VStr []),
             (''description'', VStr (''Lugar encontrado en Google Places con '' @ show rating @ utf8 [226, 173, 144] @ '' de rating'')),
             (''synthetic'', VBool False), (''google_places_verified'', VBool True)]))))))
      | _ \<Rightarrow> Inl AttributeError)"

fun add_nearby :: "nat \<Rightarrow> (pyval \<Rightarrow> pydict res) \<Rightarrow> pyval list \<Rightarrow> pydict list \<Rightarrow> pydict list res" where
  "add_nearby limit f [] acc = Inr acc"
| "add_nearby limit f (v # vs) acc =
     rbind (f v) (\<lambda>p. if limit \<le> length acc + 1 then Inr (acc @ [p]) else add_nearby limit f vs (acc @ [p]))"

definition nearby_of_type :: "nat \<Rightarrow> (pyval \<Rightarrow> pydict res) \<Rightarrow> int \<times> pyval \<Rightarrow> pydict list \<Rightarrow> pydict list res" where
  "nearby_of_type limit f reply acc =
     (if fst reply = 200
      then
        rbind (vget (snd reply) ''status'' VNone) (\<lambda>s.
        if s = VStr ''OK''
        then rbind (vget (snd reply) ''results'' (VList [])) (\<lambda>rv. rbind (vtake 2 rv) (\<lambda>two. rbind (viter two) (\<lambda>ps. add_nearby limit f ps acc)))
        else Inr acc)
      else Inr acc)"

fun nearby_loop :: "nat \<Rightarrow> (pyval \<Rightarrow> pydict res) \<Rightarrow> (nat \<Rightarrow> string \<Rightarrow> (int \<times> pyval) res) \<Rightarrow> nat \<Rightarrow> string list \<Rightarrow> pydict list \<Rightarrow> pydict list res" where
  "nearby_loop limit f reply i [] acc = Inr acc"
| "nearby_loop limit f reply i (t # ts) acc =
     rbind (reply i t) (\<lambda>r. rbind (nearby_of_type limit f r acc) (\<lambda>acc'.
     if limit \<le> length acc' then Inr acc' else nearby_loop limit f reply (Suc i) ts acc'))"

text \<open>Any exception gives no places at all.\<close>

definition search_nearby_places ::
  "string \<Rightarrow> string \<Rightarrow> (pyval \<Rightarrow> string) \<Rightarrow> (nat \<Rightarrow> string \<Rightarrow> (int \<times> pyval) res) \<Rightarrow> string list \<Rightarrow> nat \<Rightarrow> pydict list" where
  "search_nearby_places base_url key show reply types limit =
     (if key = [] then []
      else case nearby_loop limit (nearby_place base_url key show) reply 0 types [] of Inr ps \<Rightarrow> take limit ps | Inl e \<Rightarrow> [])"

subsection \<open>Geocoding\<close>

definition geocoded_city :: "pyval \<Rightarrow> pydict" where
  "geocoded_city address = [(''city'', VNone), (''state'', VNone), (''country'', VNone), (''country_code'', VNone), (''formatted_address'', address)]"

definition add_component :: "pyval \<Rightarrow> pydict \<Rightarrow> pydict res" where
  "add_component component info =
     rbind (vget component ''types'' (VList [])) (\<lambda>ts.
     rbind (type_listed ts ''locality'') (\<lambda>a.
     if a then rbind (vindex component ''long_name'') (\<lambda>n. Inr (dset ''city'' n info))
     else rbind (type_listed ts ''administrative_area_level_1'') (\<lambda>b.
       if b then rbind (vindex component ''long_name'') (\<lambda>n. Inr (dset ''state'' n info))
       else rbind (type_listed ts ''country'') (\<lambda>c.
         if c then rbind (vindex component ''long_name'') (\<lambda>n. rbind (vindex component ''short_name'') (\<lambda>k.
           Inr (dset ''country_code'' k (dset ''country'' n info))))
         else Inr info))))"

definition components_of :: "pyval \<Rightarrow> pyval list res" where
  "components_of result = rbind (vget result ''address_components'' (VList [])) viter"

fun city_of_results :: "pyval list \<Rightarrow> pydict option res" where
  "city_of_results [] = Inr None"
| "city_of_results (r # rs) =
     rbind (components_of r) (\<lambda>cs. rbind (vget r ''formatted_address'' (VStr [])) (\<lambda>address.
     rbind (rfold add_component cs (geocoded_city address)) (\<lambda>info.
     if truthy (dget info ''city'' VNone) then Inr (Some info) else city_of_results rs)))"

definition add_geocoded_country :: "pyval \<Rightarrow> pydict \<Rightarrow> pydict res" where
  "add_geocoded_country component info =
     rbind (vget component ''types'' (VList [])) (\<lambda>ts. rbind (type_listed ts ''country'') (\<lambda>c.
     if c then rbind (vindex component ''long_name'') (\<lambda>n. rbind (vindex component ''short_name'') (\<lambda>k.
       Inr (dset ''country_code'' k (dset ''country'' n info))))
     else Inr info))"

fun area_of_components :: "pyval \<Rightarrow> pyval list \<Rightarrow> pyval list \<Rightarrow> pydict option res" where
  "area_of_components address whole [] = Inr None"
| "area_of_components address whole (c # cs) =
     rbind (vget c ''types'' (VList [])) (\<lambda>ts. rbind (type_listed ts ''administrative_area_level_2'') (\<lambda>b.
     if b then rbind (vindex c ''long_name'') (\<lambda>n. rbind (rfold add_geocoded_country whole (dset ''city'' n (geocoded_city address))) (\<lambda>info. Inr (Some info)))
     else area_of_components address whole cs))"

fun area_of_results :: "pyval list \<Rightarrow> pydict option res" where
  "area_of_results [] = Inr None"
| "area_of_results (r # rs) =
     rbind (components_of r) (\<lambda>cs. rbind (vget r ''formatted_address'' (VStr [])) (\<lambda>address.
     rbind (area_of_components address cs cs) (\<lambda>x. case x of Some info \<Rightarrow> Inr (Some info) | None \<Rightarrow> area_of_results rs)))"

definition reverse_geocode_city :: "(int \<times> pyval) res \<Rightarrow> pydict option" where
  "reverse_geocode_city reply =
     (case rbind reply (\<lambda>(status, data).
        if status \<noteq> 200 then Inr None
        else rbind (vget data ''status'' VNone) (\<lambda>s. rbind (vget data ''results'' VNone) (\<lambda>rv.
          if s \<noteq> VStr ''OK'' \<or> \<not> truthy rv then Inr None
          else rbind (viter rv) (\<lambda>rs. rbind (city_of_results rs) (\<lambda>x. case x of Some info \<Rightarrow> Inr (Some info) | None \<Rightarrow> area_of_results rs))))) of
        Inr x \<Rightarrow> x | Inl e \<Rightarrow> None)"

definition get_place_details_by_id :: "(int \<times> pyval) res \<Rightarrow> pydict option" where
  "get_place_details_by_id reply =
     (case rbind reply (\<lambda>(status, data).
        if status \<noteq> 200 then Inr None
        else rbind (vget data ''status'' VNone) (\<lambda>s. rbind (vget data ''result'' VNone) (\<lambda>r.
          if s \<noteq> VStr ''OK'' \<or> \<not> truthy r then Inr None
          else case r of
              VDict d \<Rightarrow>
                Inr (Some [(''place_id'', dget d ''place_id'' VNone), (''name'', dget d ''name'' VNone), (''formatted_address'', dget d ''formatted_address'' VNone),
                  (''address_components'', dget d ''address_components'' (VList [])), (''types'', dget d ''types'' (VList [])), (''rating'', dget d ''rating'' VNone),
                  (''user_ratings_total'', dget d ''user_ratings_total'' VNone), (''geometry'', dget d ''geometry'' (VDict []))])
            | _ \<Rightarrow> Inl AttributeError))) of
        Inr x \<Rightarrow> x | Inl e \<Rightarrow> None)"


subsection \<open>The route without the service\<close>

lemma point_distance_fields [simp]:
  "point_distance p (travel_fields a b c q) = point_distance p q"
  "point_distance (travel_fields a b c q) p = point_distance q p"
  by (simp_all add: point_distance_def travel_fields_def pnum_def dindex_dset)

lemma point_distance_nonneg: "point_distance p q = Inr d \<Longrightarrow> 0 \<le> d"
  by (auto simp: point_distance_def haversine_km_nonneg elim!: rbind_eq_InrE)

text \<open>A choice at a distance to which no remaining point is nearer.\<close>

lemma scan_closest_minimum:
  assumes "scan_closest c qs best = Inr (Some (p, d))"
    "\<And>q m. best = Some (q, m) \<Longrightarrow> point_distance c (snd q) = Inr m"
  shows "point_distance c (snd p) = Inr d \<and> (p \<in> set qs \<or> best = Some (p, d)) \<and> (\<forall>q \<in> set qs. \<exists>e. point_distance c (snd q) = Inr e \<and> d \<le> e) \<and>
    (\<forall>q m. best = Some (q, m) \<longrightarrow> d \<le> m)"
  using assms
proof (induction c qs best rule: scan_closest.induct)
  case (1 c best)
  then show ?case by auto
next
  case (2 c q qs best)
  obtain e where e: "point_distance c (snd q) = Inr e"
    "scan_closest c qs (case best of None \<Rightarrow> Some (q, e) | Some (p, m) \<Rightarrow> if e < m then Some (q, e) else best) = Inr (Some (p, d))"
    using "2.prems"(1) by (auto elim!: rbind_eq_InrE)
  define b where "b = (case best of None \<Rightarrow> Some (q, e) | Some (p, m) \<Rightarrow> if e < m then Some (q, e) else best)"
  have b: "b = Some (q, e) \<and> (\<forall>p m. best = Some (p, m) \<longrightarrow> e < m) \<or> b = best \<and> (\<exists>p m. best = Some (p, m) \<and> m \<le> e)"
    by (cases best) (auto simp: b_def split: if_splits)
  have k: "\<And>r m. b = Some (r, m) \<Longrightarrow> point_distance c (snd r) = Inr m" using b e(1) "2.prems"(2) by auto
  have ih: "point_distance c (snd p) = Inr d \<and> (p \<in> set qs \<or> b = Some (p, d)) \<and> (\<forall>q \<in> set qs. \<exists>e. point_distance c (snd q) = Inr e \<and> d \<le> e) \<and>
    (\<forall>q m. b = Some (q, m) \<longrightarrow> d \<le> m)"
    by (rule "2.IH" [of e, folded b_def]) (rule e(1), rule e(2) [folded b_def], erule k)
  have de: "d \<le> e" using ih b by fastforce
  have "\<forall>r m. best = Some (r, m) \<longrightarrow> d \<le> m" using ih b de by fastforce
  moreover have "p \<in> set (q # qs) \<or> best = Some (p, d)" using ih b by auto
  ultimately show ?case using ih e(1) de by simp
qed

lemma scan_closest_some: "scan_closest c qs best = Inr None \<Longrightarrow> qs = [] \<and> best = None"
proof (induction c qs best rule: scan_closest.induct)
  case (2 c q qs best)
  then obtain e where "scan_closest c qs (case best of None \<Rightarrow> Some (q, e) | Some (p, m) \<Rightarrow> if e < m then Some (q, e) else best) = Inr None"
    "point_distance c (snd q) = Inr e"
    by (auto elim!: rbind_eq_InrE)
  with "2.IH" [of e] have "(case best of None \<Rightarrow> Some (q, e) | Some (p, m) \<Rightarrow> if e < m then Some (q, e) else best) = None" by blast
  then show ?case by (cases best) (auto split: if_splits)
qed simp

text \<open>A route that goes to a nearest of the points it has left, and its length in kilometres.\<close>

fun nearest_first :: "pydict \<Rightarrow> pydict list \<Rightarrow> bool" where
  "nearest_first c [] = True"
| "nearest_first c (p # ps) =
     ((case point_distance c p of
         Inr d \<Rightarrow> list_all (\<lambda>q. case point_distance c q of Inr e \<Rightarrow> d \<le> e | Inl x \<Rightarrow> False) ps
       | Inl x \<Rightarrow> False) \<and> nearest_first p ps)"

fun route_km :: "pydict \<Rightarrow> pydict list \<Rightarrow> real res" where
  "route_km c [] = Inr 0"
| "route_km c (p # ps) = rbind (point_distance c p) (\<lambda>d. rbind (route_km p ps) (\<lambda>t. Inr (d + t)))"

lemma route_km_fields [simp]: "route_km (travel_fields a b c p) ps = route_km p ps"
  by (cases ps) simp_all

lemma nearest_first_fields [simp]: "nearest_first (travel_fields a b c p) ps = nearest_first p ps"
  by (cases ps) (simp_all split: sum.splits)

definition visited :: "(nat \<times> pydict) list \<Rightarrow> (nat \<times> pydict) list \<Rightarrow> bool" where
  "visited vs remaining \<longleftrightarrow> mset (map fst vs) = mset (map fst remaining) \<and>
     (\<forall>v \<in> set vs. \<exists>p a b. (fst v, p) \<in> set remaining \<and> snd v = travel_fields a b (VList []) p)"

lemma mset_filter_key:
  assumes "distinct (map fst xs)" "x \<in> set xs"
  shows "mset (map fst xs) = add_mset (fst x) (mset (map fst (filter (\<lambda>q. fst q \<noteq> fst x) xs)))"
  using assms
proof (induction xs)
  case (Cons y xs)
  show ?case
  proof (cases "fst y = fst x")
    case True
    then have "filter (\<lambda>q. fst q \<noteq> fst x) xs = xs" using Cons.prems(1) by (auto simp: filter_id_conv image_iff)
    with True show ?thesis by simp
  next
    case False
    with Cons show ?thesis by auto
  qed
qed simp

lemma fallback_loop_visits:
  assumes "fallback_loop cfg mode n c remaining = Inr (vs, d, t)" "distinct (map fst remaining)" "length remaining = n"
  shows "visited vs remaining \<and> nearest_first c (map snd vs) \<and> route_km c (map snd vs) = Inr (d / 1000)"
  using assms
proof (induction cfg mode n c remaining arbitrary: vs d t rule: fallback_loop.induct)
  case (1 cfg mode c remaining)
  then show ?case by (simp add: visited_def)
next
  case (2 cfg mode n c remaining)
  let ?rest = "\<lambda>i. filter (\<lambda>q. fst q \<noteq> i) remaining"
  obtain b where b: "scan_closest c remaining None = Inr b" using "2.prems"(1) by (auto elim!: rbind_eq_InrE)
  have "b \<noteq> None"
  proof
    assume "b = None"
    with b have "remaining = []" using scan_closest_some by blast
    with "2.prems"(3) show False by simp
  qed
  then obtain i p e where bp: "b = Some ((i, p), e)" by (metis not_None_eq surj_pair)
  from "2.prems"(1) b bp obtain m where m: "point_minutes cfg mode c p = Inr m"
    and l: "rbind (fallback_loop cfg mode n (travel_fields (VInt (py_trunc (e * 1000))) (VInt (py_trunc (m * 60))) (VList []) p) (?rest i))
      (\<lambda>r. Inr ((i, travel_fields (VInt (py_trunc (e * 1000))) (VInt (py_trunc (m * 60))) (VList []) p) # fst r, e * 1000 + fst (snd r), m * 60 + snd (snd r)))
      = Inr (vs, d, t)"
    by (auto elim!: rbind_eq_InrE simp: Let_def)
  define p' where "p' = travel_fields (VInt (py_trunc (e * 1000))) (VInt (py_trunc (m * 60))) (VList []) p"
  from l obtain ws d' t' where w: "fallback_loop cfg mode n p' (?rest i) = Inr (ws, d', t')"
    and vs: "vs = (i, p') # ws" "d = e * 1000 + d'"
    by (auto elim!: rbind_eq_InrE simp: p'_def)
  have min: "point_distance c p = Inr e" "(i, p) \<in> set remaining" "\<forall>q \<in> set remaining. \<exists>f. point_distance c (snd q) = Inr f \<and> e \<le> f"
    using scan_closest_minimum [of c remaining None "(i, p)" e] b bp by auto
  have ms: "mset (map fst remaining) = add_mset i (mset (map fst (?rest i)))" using mset_filter_key [OF "2.prems"(2) min(2)] by simp
  have dr: "distinct (map fst (?rest i))" using "2.prems"(2) by (simp add: distinct_map_filter)
  have "size (mset (map fst remaining)) = Suc (length (?rest i))" by (simp only: ms size_add_mset size_mset length_map)
  then have lr: "length (?rest i) = n" using "2.prems"(3) by simp
  from "2.IH" [OF b bp refl refl m p'_def w dr lr]
  have ih: "visited ws (?rest i)" "nearest_first p' (map snd ws)" "route_km p' (map snd ws) = Inr (d' / 1000)" by auto
  have v: "visited vs remaining"
    using ih(1) ms min(2) unfolding visited_def vs p'_def by (fastforce simp: p'_def)
  have "\<exists>f. point_distance c (snd q) = Inr f \<and> e \<le> f" if "q \<in> set ws" for q
  proof -
    from ih(1) that obtain r a1 a2 where "(fst q, r) \<in> set remaining" "snd q = travel_fields a1 a2 (VList []) r"
      unfolding visited_def by fastforce
    with min(3) show ?thesis by fastforce
  qed
  then have "list_all (\<lambda>q. case point_distance c q of Inr f \<Rightarrow> e \<le> f | Inl x \<Rightarrow> False) (map snd ws)"
    by (fastforce simp: list_all_iff)
  then have nf: "nearest_first c (map snd vs)" using ih(2) min(1) by (simp add: vs p'_def)
  have "route_km c (map snd vs) = Inr (d / 1000)" using ih(3) min(1) by (simp add: vs p'_def field_simps)
  with v nf show ?case by blast
qed

lemma fallback_loop_returns:
  assumes "\<And>c q. c = current \<or> c \<in> set (map snd remaining) \<Longrightarrow> q \<in> set (map snd remaining) \<Longrightarrow> \<exists>d. point_distance c q = Inr d"
    "\<And>c q. c = current \<or> c \<in> set (map snd remaining) \<Longrightarrow> q \<in> set (map snd remaining) \<Longrightarrow> \<exists>m. point_minutes cfg mode c q = Inr m"
  shows "\<exists>r. fallback_loop cfg mode n current remaining = Inr r"
  using assms
proof (induction cfg mode n current remaining rule: fallback_loop.induct)
  case (2 cfg mode n current remaining)
  have "\<exists>b. scan_closest current qs best = Inr b" if "set qs \<subseteq> set remaining" for qs best
    using that
  proof (induction qs arbitrary: best)
    case (Cons q qs)
    obtain d where "point_distance current (snd q) = Inr d" using "2.prems"(1) [of current "snd q"] Cons.prems by auto
    with Cons show ?case by simp
  qed simp
  then obtain b where b: "scan_closest current remaining None = Inr b" by blast
  show ?case
  proof (cases b)
    case (Some x)
    obtain i p e where x: "x = ((i, p), e)" by (metis surj_pair)
    have p: "(i, p) \<in> set remaining" using scan_closest_minimum [of current remaining None "(i, p)" e] b Some x by auto
    obtain m where m: "point_minutes cfg mode current p = Inr m" using "2.prems"(2) [of current p] p by force
    define p' where "p' = travel_fields (VInt (py_trunc (e * 1000))) (VInt (py_trunc (m * 60))) (VList []) p"
    have pm: "point_minutes cfg mode p' q = point_minutes cfg mode p q" for q
      by (simp add: point_minutes_def p'_def travel_fields_def pnum_def dindex_dset)
    have pd: "point_distance p' q = point_distance p q" for q by (simp add: p'_def)
    have in_p: "p \<in> snd ` set remaining" using p by force
    have "\<exists>r. fallback_loop cfg mode n p' (filter (\<lambda>q. fst q \<noteq> i) remaining) = Inr r"
    proof (rule "2.IH" [OF b Some x [symmetric] refl m p'_def])
      fix c q assume c: "c = p' \<or> c \<in> set (map snd (filter (\<lambda>q. fst q \<noteq> i) remaining))" "q \<in> set (map snd (filter (\<lambda>q. fst q \<noteq> i) remaining))"
      then have q: "q \<in> set (map snd remaining)" by auto
      show "\<exists>d. point_distance c q = Inr d"
        using "2.prems"(1) [OF _ q, of p] "2.prems"(1) [OF _ q, of c] c(1) in_p pd by auto
      show "\<exists>m. point_minutes cfg mode c q = Inr m"
        using "2.prems"(2) [OF _ q, of p] "2.prems"(2) [OF _ q, of c] c(1) in_p pm by auto
    qed
    with b Some x m show ?thesis by (auto simp: Let_def p'_def)
  qed (use b in simp)
qed simp

text \<open>A point with numeric coordinates in range.\<close>

definition well_located :: "pydict \<Rightarrow> bool" where
  "well_located p = (case (pnum p ''lat'', pnum p ''lon'') of (Inr a, Inr b) \<Rightarrow> - 90 \<le> a \<and> a \<le> 90 \<and> - 180 \<le> b \<and> b \<le> 180 | _ \<Rightarrow> False)"

lemma well_locatedE:
  assumes "well_located p"
  obtains a b where "pnum p ''lat'' = Inr a" "pnum p ''lon'' = Inr b" "in_range a b"
  using assms by (auto simp: well_located_def in_range_def split: sum.splits)

lemma well_located_distance: "well_located p \<Longrightarrow> well_located q \<Longrightarrow> \<exists>d. point_distance p q = Inr d"
  by (auto elim!: well_locatedE simp: point_distance_def haversine_km_Inr)

lemma well_located_minutes:
  assumes "well_located p" "well_located q" "speed_map cfg mode = Some v" "v \<noteq> 0"
  shows "\<exists>m. point_minutes cfg mode p q = Inr m"
proof -
  obtain a b where p: "pnum p ''lat'' = Inr a" "pnum p ''lon'' = Inr b" "in_range a b" using assms(1) by (rule well_locatedE)
  obtain c d where q: "pnum q ''lat'' = Inr c" "pnum q ''lon'' = Inr d" "in_range c d" using assms(2) by (rule well_locatedE)
  show ?thesis using assms(3,4) by (simp add: point_minutes_def p q estimate_travel_minutes_def haversine_km_Inr py_div_def)
qed

lemma point_minutes_walking: "\<exists>e. point_minutes cfg ''walking'' p q = Inl e"
  by (cases "pnum p ''lat''"; cases "pnum p ''lon''"; cases "pnum q ''lat''"; cases "pnum q ''lon''")
    (simp_all add: point_minutes_def estimate_travel_minutes_def speed_map_def)

lemma walking_has_no_fallback: "ps \<noteq> [] \<Longrightarrow> \<exists>e. maps_fallback_route cfg ''walking'' ps s = Inl e"
proof -
  assume "ps \<noteq> []"
  then obtain p ps' where ps: "ps = p # ps'" by (cases ps) auto
  have l: "\<exists>e. fallback_loop cfg ''walking'' (Suc n) s rem = Inl e" if "rem \<noteq> []" for n rem
  proof (cases "scan_closest s rem None")
    case (Inr b)
    have "b \<noteq> None"
    proof
      assume "b = None"
      with Inr have "rem = []" using scan_closest_some by blast
      with that show False by simp
    qed
    then obtain x where x: "b = Some x" by blast
    obtain i q d where y: "x = ((i, q), d)" by (cases x) (auto split: prod.splits)
    obtain e where "point_minutes cfg ''walking'' s q = Inl e" using point_minutes_walking by blast
    then show ?thesis using Inr x y by auto
  qed simp
  have "enumerate 0 ps \<noteq> []" by (simp add: ps)
  from l [OF this] obtain e where "fallback_loop cfg ''walking'' (Suc (length ps')) s (enumerate 0 ps) = Inl e" by blast
  then show ?thesis by (simp add: maps_fallback_route_def fallback_order_def ps)
qed

text \<open>
  C32: the route made without the service visits each waypoint exactly once, with nothing but the three travel fields added to it, always goes
  to a nearest of the points it has left, and its total is the length of that route in metres, without the fraction.
\<close>

theorem fallback_route_visits_every_waypoint:
  assumes "maps_fallback_route cfg mode ps s = Inr r"
  shows "\<exists>is. mset is = mset [0..<length ps] \<and> length (rr_waypoints r) = length ps \<and>
      (\<forall>k < length ps. \<exists>a b. rr_waypoints r ! k = travel_fields a b (VList []) (ps ! (is ! k))) \<and>
      nearest_first s (rr_waypoints r) \<and>
      (\<exists>km. route_km s (rr_waypoints r) = Inr km \<and> rr_distance r = real_of_int (py_trunc (km * 1000)))"
proof -
  from assms obtain vs d t where l: "fallback_loop cfg mode (length ps) s (enumerate 0 ps) = Inr (vs, d, t)"
    and r: "rr_waypoints r = map snd vs" "rr_distance r = real_of_int (py_trunc d)"
    by (auto simp: maps_fallback_route_def fallback_order_def elim!: rbind_eq_InrE)
  have k: "visited vs (enumerate 0 ps) \<and> nearest_first s (map snd vs) \<and> route_km s (map snd vs) = Inr (d / 1000)"
    using fallback_loop_visits [OF l] by simp
  then have m: "mset (map fst vs) = mset [0..<length ps]" by (simp add: visited_def)
  from arg_cong [OF m, of size] have len: "length vs = length ps" by simp
  have w: "\<exists>a b. rr_waypoints r ! j = travel_fields a b (VList []) (ps ! (map fst vs ! j))" if "j < length ps" for j
  proof -
    have "vs ! j \<in> set vs" using that len by simp
    with k obtain p a b where "(fst (vs ! j), p) \<in> set (enumerate 0 ps)" "snd (vs ! j) = travel_fields a b (VList []) p"
      unfolding visited_def by blast
    then show ?thesis using that len by (auto simp: in_set_enumerate_eq r(1))
  qed
  have "\<exists>km. route_km s (rr_waypoints r) = Inr km \<and> rr_distance r = real_of_int (py_trunc (km * 1000))"
    using k by (intro exI [of _ "d / 1000"]) (simp add: r)
  with k m w len show ?thesis by (intro exI [of _ "map fst vs"] conjI) (simp_all add: r(1))
qed

theorem fallback_route_visits_every_waypoint_witness:
  "\<exists>r. maps_fallback_route default_settings ''walk'' [[(''lat'', VFloat 0), (''lon'', VFloat 0)]] [(''lat'', VFloat 0), (''lon'', VFloat 0)] = Inr r \<and>
     length (rr_waypoints r) = 1 \<and> nearest_first [(''lat'', VFloat 0), (''lon'', VFloat 0)] (rr_waypoints r)"
proof -
  let ?s = "[(''lat'', VFloat 0), (''lon'', VFloat 0)]"
  have l: "well_located ?s" by (simp add: well_located_def pnum_def dindex_def)
  have w: "speed_map default_settings ''walk'' = Some (9 / 2)" by (simp add: speed_map_def default_settings_def)
  have "\<exists>d. point_distance ?s ?s = Inr d" "\<exists>m. point_minutes default_settings ''walk'' ?s ?s = Inr m"
    using well_located_distance [OF l l] well_located_minutes [OF l l w] by auto
  then have "\<exists>x. fallback_order default_settings ''walk'' [?s] ?s = Inr x"
    unfolding fallback_order_def by (intro fallback_loop_returns) (simp_all add: enumerate_eq_zip)
  then obtain r where r: "maps_fallback_route default_settings ''walk'' [?s] ?s = Inr r" by (auto simp: maps_fallback_route_def)
  show ?thesis using fallback_route_visits_every_waypoint [OF r] r by (intro exI [of _ r]) auto
qed

text \<open>
  C40: with one of the four modes the estimates know (walk, drive, bike, transit), its speed not zero, and all coordinates in range, a route is
  always found, whatever the service answers; with the default mode, walking, which they do not know, and at least one waypoint, every route
  found is read off a reply of the service with the status OK: any exception, a missing session, another status and a reply that cannot be read all raise.
\<close>

theorem routes_need_a_mode_of_the_estimates:
  "(speed_map cfg mode = Some v \<and> v \<noteq> 0 \<and> well_located s \<and> list_all well_located ps \<longrightarrow>
      (\<exists>r. get_optimal_route cfg session reply ps s mode = Inr r)) \<and>
   (ps \<noteq> [] \<and> get_optimal_route cfg session reply ps s ''walking'' = Inr r \<longrightarrow>
      session \<and> (\<exists>d route. reply = Inr (VDict d) \<and> dget d ''status'' VNone = VStr ''OK'' \<and> vfirst (dget d ''routes'' VNone) = Inr route \<and>
        parse_route_response route ps = Inr r))"
proof (intro conjI impI)
  assume a: "speed_map cfg mode = Some v \<and> v \<noteq> 0 \<and> well_located s \<and> list_all well_located ps"
  then have i: "\<And>c. c = s \<or> c \<in> set (map snd (enumerate 0 ps)) \<Longrightarrow> well_located c" by (auto simp: list_all_iff)
  have "\<exists>x. fallback_order cfg mode ps s = Inr x"
    unfolding fallback_order_def
    by (rule fallback_loop_returns; rule well_located_distance well_located_minutes) (use a i in auto)
  then have "\<exists>r. maps_fallback_route cfg mode ps s = Inr r" by (auto simp: maps_fallback_route_def)
  then show "\<exists>r. get_optimal_route cfg session reply ps s mode = Inr r" by (simp add: get_optimal_route_def split: sum.splits)
next
  assume a: "ps \<noteq> [] \<and> get_optimal_route cfg session reply ps s ''walking'' = Inr r"
  obtain x where x: "maps_fallback_route cfg ''walking'' ps s = Inl x" using walking_has_no_fallback [of ps] a by blast
  with a have r: "route_answer cfg session reply ps s ''walking'' = Inr r" by (auto simp: get_optimal_route_def split: sum.splits)
  then show session by (auto simp: route_answer_def ask_def elim!: rbind_eq_InrE split: if_splits)
  from r x show "\<exists>d route. reply = Inr (VDict d) \<and> dget d ''status'' VNone = VStr ''OK'' \<and> vfirst (dget d ''routes'' VNone) = Inr route \<and>
        parse_route_response route ps = Inr r"
    by (auto simp: route_answer_def ask_def elim!: rbind_eq_InrE vget.elims split: if_splits)
qed

theorem routes_need_a_mode_of_the_estimates_witness:
  "(\<exists>r. get_optimal_route default_settings False (Inl TimeoutError) [[(''lat'', VFloat 1), (''lon'', VFloat 1)]] [(''lat'', VFloat 0), (''lon'', VFloat 0)] ''walk'' = Inr r) \<and>
   (\<exists>x. get_optimal_route default_settings False (Inl TimeoutError) [[(''lat'', VFloat 1), (''lon'', VFloat 1)]] [(''lat'', VFloat 0), (''lon'', VFloat 0)] ''walking'' = Inl x)"
proof -
  have "well_located [(''lat'', VFloat 0), (''lon'', VFloat 0)]" "list_all well_located [[(''lat'', VFloat 1), (''lon'', VFloat 1)]]"
    by (simp_all add: well_located_def pnum_def dindex_def)
  moreover have "speed_map default_settings ''walk'' = Some (9 / 2)"
    by (simp add: speed_map_def default_settings_def)
  moreover note * = routes_need_a_mode_of_the_estimates [of default_settings "''walk''" "9 / 2" "[(''lat'', VFloat 0), (''lon'', VFloat 0)]"
      "[[(''lat'', VFloat 1), (''lon'', VFloat 1)]]" False "Inl TimeoutError"]
  ultimately show ?thesis
    by (cases "get_optimal_route default_settings False (Inl TimeoutError) [[(''lat'', VFloat 1), (''lon'', VFloat 1)]] [(''lat'', VFloat 0), (''lon'', VFloat 0)] ''walking''") auto
qed

subsection \<open>The route of the service\<close>

lemma rfold_route_legs:
  assumes "rfold (route_leg order ps) (enumerate k legs) (acc, d, s) = Inr (ws, d', s')"
  shows "\<exists>new. ws = acc @ new \<and> length new = min (length legs) (length order - k) \<and>
    (\<forall>j < length new. \<exists>w a b c. at_index ps (order ! (k + j)) = Inr w \<and> new ! j = travel_fields a b c w)"
  using assms
proof (induction legs arbitrary: k acc d s)
  case (Cons leg legs)
  then obtain st where st: "route_leg order ps (k, leg) (acc, d, s) = Inr st" "rfold (route_leg order ps) (enumerate (Suc k) legs) st = Inr (ws, d', s')"
    by (auto elim!: rbind_eq_InrE)
  show ?case
  proof (cases "k < length order")
    case True
    with st(1) obtain w a b c x y where w: "at_index ps (order ! k) = Inr w" "st = (acc @ [travel_fields a b c w], x, y)"
      by (auto simp: route_leg_def elim!: rbind_eq_InrE)
    from Cons.IH [OF st(2) [unfolded w(2)]] obtain new where new: "ws = (acc @ [travel_fields a b c w]) @ new"
      "length new = min (length legs) (length order - Suc k)"
      "\<forall>j < length new. \<exists>w a b c. at_index ps (order ! (Suc k + j)) = Inr w \<and> new ! j = travel_fields a b c w" by blast
    have "\<exists>v a' b' c'. at_index ps (order ! (k + j)) = Inr v \<and> (travel_fields a b c w # new) ! j = travel_fields a' b' c' v"
      if "j < length (travel_fields a b c w # new)" for j
    proof (cases j)
      case 0
      then show ?thesis using w(1) by auto
    next
      case (Suc i)
      then show ?thesis using new(3) that by simp
    qed
    then show ?thesis using new(1,2) True by (intro exI [of _ "travel_fields a b c w # new"]) auto
  next
    case False
    then have "st = (acc, d, s)" using st(1) by (simp add: route_leg_def)
    from Cons.IH [OF st(2) [unfolded this]] False show ?thesis by auto
  qed
qed simp

text \<open>
  the stops of the service's route are the waypoints in the order it gives, one for each leg but the last (the way back), each with the
  travel fields of its leg; so when the order is a permutation and there is a leg more than waypoints, every waypoint is visited exactly once.
\<close>

theorem service_route_follows_its_order:
  assumes "parse_route_response route ps = Inr r"
    "vget route ''legs'' (VList []) = Inr (VList legs)"
    "vget route ''waypoint_order'' (VList (map (\<lambda>i. VInt (int i)) [0..<length ps])) = Inr (VList order)"
  shows "length (rr_waypoints r) = min (length legs - 1) (length order) \<and>
    (\<forall>k < length (rr_waypoints r). \<exists>w a b c. at_index ps (order ! k) = Inr w \<and> rr_waypoints r ! k = travel_fields a b c w) \<and>
    (\<forall>js. mset js = mset [0..<length ps] \<and> order = map (\<lambda>i. VInt (int i)) js \<and> length legs = Suc (length ps) \<longrightarrow>
      length (rr_waypoints r) = length ps \<and> (\<forall>k < length ps. \<exists>a b c. rr_waypoints r ! k = travel_fields a b c (ps ! (js ! k))))"
proof -
  from assms obtain ws d s where w: "rfold (route_leg order ps) (enumerate 0 (butlast legs)) ([], 0, 0) = Inr (ws, d, s)" "rr_waypoints r = ws"
    by (auto simp: parse_route_response_def elim!: rbind_eq_InrE)
  from rfold_route_legs [OF w(1)] w(2)
  have l: "length (rr_waypoints r) = min (length legs - 1) (length order)"
    and n: "\<forall>k < length (rr_waypoints r). \<exists>w a b c. at_index ps (order ! k) = Inr w \<and> rr_waypoints r ! k = travel_fields a b c w" by auto
  have "length (rr_waypoints r) = length ps \<and> (\<forall>k < length ps. \<exists>a b c. rr_waypoints r ! k = travel_fields a b c (ps ! (js ! k)))"
    if js: "mset js = mset [0..<length ps]" "order = map (\<lambda>i. VInt (int i)) js" "length legs = Suc (length ps)" for js
  proof -
    from arg_cong [OF js(1), of size] have lj: "length js = length ps" by simp
    then have lr: "length (rr_waypoints r) = length ps" using l js(2,3) by simp
    have "\<exists>a b c. rr_waypoints r ! k = travel_fields a b c (ps ! (js ! k))" if k: "k < length ps" for k
    proof -
      have "js ! k \<in> set js" using k lj by simp
      then have "js ! k < length ps" using mset_eq_setD [OF js(1)] by simp
      then have "at_index ps (order ! k) = Inr (ps ! (js ! k))" using k lj by (simp add: js(2) at_index_def)
      then show ?thesis using n k lr by fastforce
    qed
    with lr show ?thesis by blast
  qed
  with l n show ?thesis by blast
qed

definition sample_route :: pyval where
  "sample_route =
     (let leg = (\<lambda>m t. VDict [(''distance'', VDict [(''value'', VInt m)]), (''duration'', VDict [(''value'', VInt t)])])
      in VDict [(''legs'', VList [leg 100 60, leg 200 90, leg 300 120]), (''waypoint_order'', VList [VInt 1, VInt 0])])"

theorem service_route_follows_its_order_witness:
  "\<exists>r. parse_route_response sample_route [[(''name'', VStr ''a'')], [(''name'', VStr ''b'')]] = Inr r \<and> length (rr_waypoints r) = 2 \<and> rr_distance r = 300"
proof -
  let ?ps = "[[(''name'', VStr ''a'')], [(''name'', VStr ''b'')]]"
  obtain r where r: "parse_route_response sample_route ?ps = Inr r" "rr_distance r = 300"
    by (simp add: parse_route_response_def sample_route_def Let_def route_leg_def leg_value_def at_index_def vtake_def enumerate_eq_zip)
  obtain legs where "vget sample_route ''legs'' (VList []) = Inr (VList legs)" "length legs = 3" by (simp add: sample_route_def Let_def)
  moreover have "vget sample_route ''waypoint_order'' (VList (map (\<lambda>i. VInt (int i)) [0..<length ?ps])) = Inr (VList [VInt 1, VInt 0])"
    by (simp add: sample_route_def Let_def)
  ultimately show ?thesis using service_route_follows_its_order [OF r(1)] r by auto
qed

subsection \<open>Searches and opening hours\<close>

lemma add_nearby_bounds:
  assumes "add_nearby limit f vs acc = Inr ps" "length acc < limit" "\<And>v p. f v = Inr p \<Longrightarrow> P p" "list_all P acc"
  shows "length ps \<le> limit \<and> length ps \<le> length acc + length vs \<and> list_all P ps"
  using assms
proof (induction limit f vs acc rule: add_nearby.induct)
  case (2 limit f v vs acc)
  then obtain p where p: "f v = Inr p" "(if limit \<le> length acc + 1 then Inr (acc @ [p]) else add_nearby limit f vs (acc @ [p])) = Inr ps"
    by (auto elim!: rbind_eq_InrE)
  then have ok: "list_all P (acc @ [p])" using "2.prems" by auto
  show ?case
  proof (cases "limit \<le> length acc + 1")
    case True
    with p ok "2.prems"(2) show ?thesis by auto
  next
    case False
    with "2.IH" [OF p(1) False] p(2) "2.prems"(3) ok show ?thesis by fastforce
  qed
qed auto

lemma nearby_loop_bounds:
  assumes "nearby_loop limit f reply i ts acc = Inr ps" "length acc < limit" "\<And>v p. f v = Inr p \<Longrightarrow> P p" "list_all P acc"
  shows "length ps \<le> limit \<and> length ps \<le> length acc + 2 * length ts \<and> list_all P ps"
  using assms
proof (induction ts arbitrary: i acc)
  case (Cons t ts)
  then obtain r acc' where r: "nearby_of_type limit f r acc = Inr acc'"
    "(if limit \<le> length acc' then Inr acc' else nearby_loop limit f reply (Suc i) ts acc') = Inr ps"
    by (auto elim!: rbind_eq_InrE)
  have b: "length acc' \<le> limit \<and> length acc' \<le> length acc + 2 \<and> list_all P acc'"
  proof (cases "acc' = acc")
    case True
    with Cons.prems show ?thesis by simp
  next
    case False
    with r(1) obtain v two vs where "vtake 2 v = Inr two" "viter two = Inr vs" "add_nearby limit f vs acc = Inr acc'"
      by (auto simp: nearby_of_type_def elim!: rbind_eq_InrE split: if_splits)
    moreover from this have "length vs \<le> 2" by (auto simp: vtake_def split: pyval.splits)
    ultimately show ?thesis using add_nearby_bounds [of limit f vs acc acc' P] Cons.prems by fastforce
  qed
  show ?case
  proof (cases "limit \<le> length acc'")
    case True
    with r(2) b show ?thesis by auto
  next
    case False
    with Cons.IH [of "Suc i" acc'] r(2) b Cons.prems(3) show ?thesis by fastforce
  qed
qed simp

text \<open>
  a search for nearby places gives at most \<open>limit\<close> places, at most two for each type asked for, and each is marked as verified and not
  synthetic.
\<close>

theorem nearby_searches_are_bounded:
  "length (search_nearby_places base_url key show reply types limit) \<le> min limit (2 * length types) \<and>
   list_all (\<lambda>p. dget p ''synthetic'' VNone = VBool False \<and> dget p ''google_places_verified'' VNone = VBool True)
     (search_nearby_places base_url key show reply types limit)"
proof (cases "key = [] \<or> limit = 0")
  case True
  then show ?thesis by (auto simp: search_nearby_places_def split: sum.splits)
next
  case False
  let ?P = "\<lambda>p. dget p ''synthetic'' VNone = VBool False \<and> dget p ''google_places_verified'' VNone = VBool True"
  have f: "nearby_place base_url key show v = Inr p \<Longrightarrow> ?P p" for v p
    by (cases v) (auto simp: nearby_place_def Let_def elim!: rbind_eq_InrE)
  show ?thesis
  proof (cases "nearby_loop limit (nearby_place base_url key show) reply 0 types []")
    case (Inr ps)
    have "length ps \<le> limit \<and> length ps \<le> length ([] :: pydict list) + 2 * length types \<and> list_all ?P ps"
      by (rule nearby_loop_bounds [OF Inr]) (use False f in auto)
    then show ?thesis using False Inr by (auto simp: search_nearby_places_def list_all_iff dest: in_set_takeD)
  qed (use False in \<open>simp add: search_nearby_places_def\<close>)
qed

text \<open>
  the parsed opening hours have one entry for each day, each of a period with both an opening and a closing: a place that never closes,
  whose only period has no closing, has none.
\<close>

theorem parsed_hours_come_from_whole_periods:
  assumes "parse_periods (VList ps) = Inr hours"
  shows "is_dict hours \<and> (\<forall>day \<in> set (keys hours). \<exists>p \<in> set ps. \<exists>a b. vget p ''open'' (VDict []) = Inr a \<and> vget p ''close'' (VDict []) = Inr b \<and>
    truthy a \<and> truthy b \<and> vget a ''day'' (VInt 0) = Inr day)"
proof -
  let ?Q = "\<lambda>p day. \<exists>a b. vget p ''open'' (VDict []) = Inr a \<and> vget p ''close'' (VDict []) = Inr b \<and> truthy a \<and> truthy b \<and> vget a ''day'' (VInt 0) = Inr day"
  let ?I = "\<lambda>h. is_dict h \<and> (\<forall>day \<in> set (keys h). \<exists>p \<in> set ps. ?Q p day)"
  have step: "?I h'" if p: "p \<in> set ps" and h: "?I h" and s: "parse_period p h = Inr h'" for p h h'
  proof -
    from s consider "h' = h" | day x where "h' = dset day x h" "?Q p day"
      by (fastforce simp: parse_period_def elim!: rbind_eq_InrE split: if_splits)
    then show ?thesis
    proof cases
      case 2
      have "is_dict h'" using h by (simp add: 2(1))
      moreover have "set (keys h') \<subseteq> insert day (set (keys h))" by (auto simp: 2(1) keys_dset)
      ultimately show ?thesis using h p 2(2) by blast
    qed (use h in simp)
  qed
  have "rfold parse_period ps [] = Inr hours" using assms by (simp add: parse_periods_def)
  then show "?I hours"
  proof (rule rfold_invariant)
    show "?I []" by simp
    show "?I h'" if "p \<in> set ps" "?I h" "parse_period p h = Inr h'" for p h h' using that by (rule step)
  qed
qed

theorem parsed_hours_come_from_whole_periods_witness:
  "parse_periods (VList [VDict [(''open'', VDict [(''day'', VInt 0), (''time'', VStr ''0000'')])]]) = Inr [] \<and> is_dict ([] :: (pyval, string \<times> string) dict)"
proof -
  have e: "parse_periods (VList [VDict [(''open'', VDict [(''day'', VInt 0), (''time'', VStr ''0000'')])]]) = Inr []"
    by (simp add: parse_periods_def parse_period_def)
  from parsed_hours_come_from_whole_periods [OF e] e show ?thesis by blast
qed

end
