(* ===== verification/Partitioner.thy ===== *)
theory Partitioner
  imports CityClustering
begin

section \<open>The spatial partitioner\<close>

text \<open>
  src/services/h3\_spatial\_partitioner.py: the places of a request by H3 cell, the session of a routing request
  and the cities among the places.  The H3 library and \<open>hash\<close> are parameters; the order of a set is the order
  in which its elements were met.  Latitude and longitude of a place are numbers.
\<close>

subsection \<open>State\<close>

record h3_lib =
  hx_cell :: "coord \<Rightarrow> string res"
  hx_center :: "string \<Rightarrow> coord"
  hx_boundary :: "string \<Rightarrow> coord list"
  hx_ring :: "string \<Rightarrow> string list"
  hx_area :: real
  hx_polygon :: "coord list \<Rightarrow> string list res"
  hx_hash :: "string set \<Rightarrow> string" \<comment> \<open>\<open>str(hash(str(sorted(cells))))\<close>\<close>

record bounding =
  bb_north :: real
  bb_south :: real
  bb_east :: real
  bb_west :: real

record h3_cluster =
  hc_id :: string
  hc_center :: coord
  hc_bbox :: bounding
  hc_pois :: nat
  hc_city :: "string option"
  hc_area :: real

record routing_session =
  rs_id :: string
  rs_main :: string
  rs_clusters :: "string list"
  rs_places :: "pydict list"
  rs_bbox :: bounding
  rs_area :: real

text \<open>What the file of the cache holds; \<open>None\<close> where it does not exist or cannot be read.\<close>

record partitioner =
  pt_resolution :: int
  pt_clusters :: "(string, h3_cluster) dict"
  pt_cities :: "(string, string) dict"

definition load_partitioner :: "partitioner option \<Rightarrow> partitioner \<Rightarrow> partitioner" where
  "load_partitioner file pt =
     (case file of
        Some f \<Rightarrow> if pt_resolution f = pt_resolution pt then pt\<lparr>pt_clusters := pt_clusters f, pt_cities := pt_cities f\<rparr> else pt
      | None \<Rightarrow> pt)"

definition new_partitioner :: "int \<Rightarrow> partitioner option \<Rightarrow> partitioner" where
  "new_partitioner resolution file = load_partitioner file \<lparr>pt_resolution = resolution, pt_clusters = [], pt_cities = []\<rparr>"

text \<open>\<open>writable\<close>: the file can be written.\<close>

definition save_partitioner :: "bool \<Rightarrow> partitioner \<Rightarrow> partitioner option \<Rightarrow> partitioner option" where
  "save_partitioner writable pt file = (if writable then Some pt else file)"

subsection \<open>Boxes\<close>

definition bounding_of :: "coord list \<Rightarrow> bounding res" where
  "bounding_of ps =
     (if ps = [] then Inl ValueError
      else Inr \<lparr>bb_north = Max (fst ` set ps), bb_south = Min (fst ` set ps), bb_east = Max (snd ` set ps), bb_west = Min (snd ` set ps)\<rparr>)"

definition get_h3_bbox :: "h3_lib \<Rightarrow> string \<Rightarrow> bounding res" where
  "get_h3_bbox h cell = bounding_of (hx_boundary h cell)"

definition box_area :: "bounding \<Rightarrow> real" where
  "box_area b = (bb_north b - bb_south b) * (bb_east b - bb_west b) * (11132/100) * (11132/100)"

definition get_clusters_for_bbox :: "h3_lib \<Rightarrow> bounding \<Rightarrow> string list res" where
  "get_clusters_for_bbox h b =
     hx_polygon h [(bb_north b, bb_west b), (bb_north b, bb_east b), (bb_south b, bb_east b), (bb_south b, bb_west b)]"

subsection \<open>Sessions\<close>

text \<open>The first cell with most places.\<close>

fun fullest :: "(string \<times> pydict list) list \<Rightarrow> string \<times> pydict list \<Rightarrow> string" where
  "fullest [] best = fst best"
| "fullest (c # cs) best = fullest cs (if length (snd best) < length (snd c) then c else best)"

definition relevant_cells :: "h3_lib \<Rightarrow> string \<Rightarrow> string list \<Rightarrow> string list" where
  "relevant_cells h main cells =
     (if 1 < length cells
      then (let near = filter (\<lambda>c. c \<in> set (hx_ring h main)) cells in if main \<in> set near then near else near @ [main])
      else cells)"

definition session_name :: "h3_lib \<Rightarrow> nat \<Rightarrow> string list \<Rightarrow> string" where
  "session_name h n cells = ''session_'' @ show_nat n @ ''_'' @ take 8 (hx_hash h (set cells))"

definition cluster_pois_auto :: "h3_lib \<Rightarrow> pydict list \<Rightarrow> routing_session res" where
  "cluster_pois_auto h pois =
     (if pois = [] then Inl ValueError
      else
        rbind (group_by_cell (hx_cell h) pois []) (\<lambda>groups.
        let cells = keys groups; main = fullest (tl groups) (hd groups)
        in rbind (rmap_list poi_coord pois) (\<lambda>ps. rbind (bounding_of ps) (\<lambda>b.
           Inr \<lparr>rs_id = session_name h (length pois) cells, rs_main = main, rs_clusters = relevant_cells h main cells,
                rs_places = pois, rs_bbox = b, rs_area = box_area b\<rparr>))))"

subsection \<open>Cities\<close>

definition partition_cities :: "(string \<times> coord \<times> real) list" where
  "partition_cities =
     [(''Santiago'', (- 334489/10000, - 706693/10000), 1/2),
      (''Valpara'' @ utf8 [195, 173] @ ''so'', (- 330472/10000, - 716127/10000), 3/10),
      (''Concepci'' @ utf8 [195, 179] @ ''n'', (- 368201/10000, - 730444/10000), 3/10),
      (''La Serena'', (- 299027/10000, - 712519/10000), 2/10),
      (''Antofagasta'', (- 236509/10000, - 703975/10000), 2/10),
      (''Temuco'', (- 387359/10000, - 725904/10000), 2/10),
      (''Valdivia'', (- 398142/10000, - 732459/10000), 2/10),
      (''Puerto Montt'', (- 414693/10000, - 729424/10000), 2/10),
      (''Punta Arenas'', (- 531638/10000, - 709171/10000), 3/10),
      (''Iquique'', (- 202307/10000, - 701355/10000), 2/10),
      (''Calama'', (- 224667/10000, - 689167/10000), 2/10),
      (''Copiap'' @ utf8 [195, 179], (- 273668/10000, - 703323/10000), 2/10)]"

definition estimate_city_name :: "coord \<Rightarrow> string option" where
  "estimate_city_name p =
     map_option fst (find (\<lambda>(name, (lat, lon), r). sqrt ((fst p - lat)\<^sup>2 + (snd p - lon)\<^sup>2) \<le> r) partition_cities)"

text \<open>The groups of three places or more, each under its name; a group replaces the one before it with the same name.\<close>

fun named_groups :: "h3_lib \<Rightarrow> (string \<times> pydict list) list \<Rightarrow> nat \<Rightarrow> (string \<times> pydict list) list" where
  "named_groups h [] n = []"
| "named_groups h ((cell, ps) # gs) n =
     (if 3 \<le> length ps
      then (case estimate_city_name (hx_center h cell) of
              Some name \<Rightarrow> (name, ps) # named_groups h gs n
            | None \<Rightarrow> (''Cluster_'' @ show_nat n, ps) # named_groups h gs (n + 1))
      else named_groups h gs n)"

definition sparse_places :: "(string \<times> pydict list) list \<Rightarrow> pydict list" where
  "sparse_places groups = concat (map snd (filter (\<lambda>g. length (snd g) < 3) groups))"

definition detect_cities_from_pois :: "h3_lib \<Rightarrow> pydict list \<Rightarrow> (string, pydict list) dict res" where
  "detect_cities_from_pois h pois =
     rbind (group_by_cell (hx_cell h) pois []) (\<lambda>groups.
     let cities = fold (\<lambda>(name, ps). dset name ps) (named_groups h groups 1) []; rest = sparse_places groups
     in Inr (if rest = [] then cities else dset ''Other'' rest cities))"

definition create_cluster_metadata :: "h3_lib \<Rightarrow> string \<Rightarrow> pydict list \<Rightarrow> partitioner \<Rightarrow> (h3_cluster \<times> partitioner) res" where
  "create_cluster_metadata h cell pois pt =
     rbind (get_h3_bbox h cell) (\<lambda>b.
     let c = \<lparr>hc_id = cell, hc_center = hx_center h cell, hc_bbox = b, hc_pois = length pois,
              hc_city = estimate_city_name (hx_center h cell), hc_area = hx_area h\<rparr>
     in Inr (c, pt\<lparr>pt_clusters := dset cell c (pt_clusters pt)\<rparr>))"

subsection \<open>Lemmas\<close>

lemma fullest_is_a_maximum:
  "\<exists>ps. (fullest cs best, ps) \<in> insert best (set cs) \<and> (\<forall>g \<in> insert best (set cs). length (snd g) \<le> length ps)"
proof (induction cs arbitrary: best)
  case Nil
  show ?case by (intro exI [of _ "snd best"]) simp
next
  case (Cons c cs)
  let ?b = "if length (snd best) < length (snd c) then c else best"
  obtain ps where ps: "(fullest cs ?b, ps) \<in> insert ?b (set cs)" "\<forall>g \<in> insert ?b (set cs). length (snd g) \<le> length ps"
    using Cons.IH by blast
  have "length (snd ?b) \<le> length ps" using ps(2) by blast
  then have "length (snd c) \<le> length ps \<and> length (snd best) \<le> length ps" by (simp split: if_splits)
  with ps show ?case by (intro exI [of _ ps]) (auto split: if_splits)
qed

lemma group_by_cell_nonempty: "group_by_cell h3 ps [] = Inr d \<Longrightarrow> ps \<noteq> [] \<Longrightarrow> d \<noteq> []"
  using group_by_cell_ok [of h3 ps "[]" d] by (cases ps) auto

lemma bounding_of_contains:
  assumes "bounding_of ps = Inr b" "p \<in> set ps"
  shows "bb_south b \<le> fst p \<and> fst p \<le> bb_north b \<and> bb_west b \<le> snd p \<and> snd p \<le> bb_east b"
proof -
  have b: "b = \<lparr>bb_north = Max (fst ` set ps), bb_south = Min (fst ` set ps), bb_east = Max (snd ` set ps), bb_west = Min (snd ` set ps)\<rparr>"
    using assms(1) by (simp add: bounding_of_def split: if_splits)
  have "fst p \<in> fst ` set ps" "snd p \<in> snd ` set ps" using assms(2) by simp_all
  then show ?thesis by (simp add: b)
qed

lemma bounding_of_area: "bounding_of ps = Inr b \<Longrightarrow> 0 \<le> box_area b"
proof -
  assume b: "bounding_of ps = Inr b"
  then obtain p where "p \<in> set ps" by (cases ps) (auto simp: bounding_of_def)
  from bounding_of_contains [OF b this] have "0 \<le> bb_north b - bb_south b" "0 \<le> bb_east b - bb_west b" by linarith+
  then show ?thesis unfolding box_area_def by (intro mult_nonneg_nonneg) simp_all
qed

lemma fold_dset_distinct:
  assumes "distinct (map fst xs)" "is_dict d" "set (map fst xs) \<inter> set (keys d) = {}"
  shows "fold (\<lambda>(k, v). dset k v) xs d = d @ xs"
  using assms
proof (induction xs arbitrary: d)
  case (Cons x xs)
  obtain k v where x: "x = (k, v)" by (cases x)
  have "dset k v d = d @ [(k, v)]" using Cons.prems(3) by (intro dset_fresh) (auto simp: x)
  moreover have "is_dict (dset k v d)" using Cons.prems(2) by simp
  ultimately have "fold (\<lambda>(k, v). dset k v) xs (d @ [(k, v)]) = (d @ [(k, v)]) @ xs"
    using Cons.IH [of "d @ [(k, v)]"] Cons.prems by (auto simp: x)
  with \<open>dset k v d = d @ [(k, v)]\<close> show ?case by (simp add: x)
qed simp

lemma named_groups_places: "concat (map snd (named_groups h gs n)) = concat (map snd (filter (\<lambda>g. 3 \<le> length (snd g)) gs))"
  by (induction h gs n rule: named_groups.induct) (auto split: option.splits)

lemma named_groups_mem: "g \<in> set (named_groups h gs n) \<Longrightarrow> \<exists>c. (c, snd g) \<in> set gs \<and> 3 \<le> length (snd g)"
  by (induction h gs n rule: named_groups.induct) (auto split: option.splits if_splits)

lemma mset_filter_split: "mset (concat (map f (filter P xs))) + mset (concat (map f (filter (\<lambda>x. \<not> P x) xs))) = mset (concat (map f xs))"
  by (induction xs) auto

lemma values_of_fold_dset:
  "(k, v) \<in> set (fold (\<lambda>(k, v). dset k v) xs d) \<Longrightarrow> (k, v) \<in> set xs \<or> (k, v) \<in> set d"
proof (induction xs arbitrary: d)
  case (Cons x xs)
  obtain a b where x: "x = (a, b)" by (cases x)
  from Cons.IH [of "dset a b d"] Cons.prems show ?case using set_dset_subset [of k v a b d] by (auto simp: x)
qed simp

lemma group_by_cell_coords: "group_by_cell h ps d = Inr d' \<Longrightarrow> \<exists>cs. rmap_list poi_coord ps = Inr cs"
proof (induction h ps d rule: group_by_cell.induct)
  case (2 h p ps d)
  from "2.prems" obtain x y cell where i: "pnum p ''lat'' = Inr x" "pnum p ''lon'' = Inr y" "h (x, y) = Inr cell"
    and r: "group_by_cell h ps (add_to cell p d) = Inr d'"
    by (auto simp: rbind_eq_Inr_iff)
  from "2.IH" [OF i r] i show ?case by (auto simp: poi_coord_def)
qed simp

lemma session_exists:
  assumes "pois \<noteq> []" "group_by_cell (hx_cell h) pois [] = Inr groups"
  shows "\<exists>s. cluster_pois_auto h pois = Inr s \<and> rs_places s = pois"
proof -
  obtain cs where cs: "rmap_list poi_coord pois = Inr cs" using group_by_cell_coords [OF assms(2)] by blast
  have "cs \<noteq> []" using rmap_list_length [OF cs] assms(1) by auto
  then show ?thesis using assms cs by (simp add: cluster_pois_auto_def bounding_of_def Let_def)
qed

subsection \<open>Properties\<close>

text \<open>
  the session of a routing request names a cell with most places as its main cell, its cells are cells of the places and hold the main one,
  and its box holds every place and has no negative area; there is a session for every non-empty list whose places have a cell.
\<close>

theorem session_of_a_request:
  "(pois = [] \<longrightarrow> cluster_pois_auto h pois = Inl ValueError) \<and>
   (pois \<noteq> [] \<longrightarrow> (\<forall>groups. group_by_cell (hx_cell h) pois [] = Inr groups \<longrightarrow>
     (\<exists>s. cluster_pois_auto h pois = Inr s \<and> rs_places s = pois \<and>
       (\<exists>ps. (rs_main s, ps) \<in> set groups \<and> (\<forall>g \<in> set groups. length (snd g) \<le> length ps)) \<and>
       rs_main s \<in> set (rs_clusters s) \<and> set (rs_clusters s) \<subseteq> set (keys groups) \<and> 0 \<le> rs_area s \<and>
       (\<forall>p \<in> set pois. \<forall>c. poi_coord p = Inr c \<longrightarrow>
         bb_south (rs_bbox s) \<le> fst c \<and> fst c \<le> bb_north (rs_bbox s) \<and> bb_west (rs_bbox s) \<le> snd c \<and> snd c \<le> bb_east (rs_bbox s)))))"
proof (intro conjI impI allI)
  show "pois = [] \<Longrightarrow> cluster_pois_auto h pois = Inl ValueError" by (simp add: cluster_pois_auto_def)
next
  fix groups assume n: "pois \<noteq> []" and g: "group_by_cell (hx_cell h) pois [] = Inr groups"
  obtain cs where cs: "rmap_list poi_coord pois = Inr cs" using group_by_cell_coords [OF g] by blast
  have csn: "cs \<noteq> []" using rmap_list_length [OF cs] n by auto
  then obtain b where b: "bounding_of cs = Inr b" by (simp add: bounding_of_def)
  have gn: "groups \<noteq> []" using group_by_cell_nonempty [OF g n] .
  let ?m = "fullest (tl groups) (hd groups)"
  obtain ps where ps: "(?m, ps) \<in> set groups" "\<forall>g \<in> set groups. length (snd g) \<le> length ps"
    using fullest_is_a_maximum [of "tl groups" "hd groups"] gn by (metis list.collapse list.simps(15))
  define s where "s = \<lparr>rs_id = session_name h (length pois) (keys groups), rs_main = ?m, rs_clusters = relevant_cells h ?m (keys groups),
    rs_places = pois, rs_bbox = b, rs_area = box_area b\<rparr>"
  have s: "cluster_pois_auto h pois = Inr s" using n by (simp add: cluster_pois_auto_def g Let_def cs b s_def)
  have m: "?m \<in> set (keys groups)" using ps(1) by force
  have r: "rs_places s = pois" "rs_main s = ?m" "rs_clusters s = relevant_cells h ?m (keys groups)" "rs_bbox s = b" "rs_area s = box_area b"
    by (simp_all add: s_def)
  have 1: "?m \<in> set (relevant_cells h ?m (keys groups))"
  proof (cases "1 < length (keys groups)")
    case False
    with m show ?thesis by (simp add: relevant_cells_def)
  qed (simp add: relevant_cells_def Let_def)
  have 2: "set (relevant_cells h ?m (keys groups)) \<subseteq> set (keys groups)"
    using m by (auto simp: relevant_cells_def Let_def)
  have 3: "\<forall>p \<in> set pois. \<forall>c. poi_coord p = Inr c \<longrightarrow> bb_south b \<le> fst c \<and> fst c \<le> bb_north b \<and> bb_west b \<le> snd c \<and> snd c \<le> bb_east b"
  proof (intro ballI allI impI)
    fix p c assume p: "p \<in> set pois" "poi_coord p = Inr c"
    from cs have a: "list_all2 (\<lambda>x y. poi_coord x = Inr y) pois cs" by (simp add: rmap_list_Inr_conv)
    from p(1) obtain i where i: "i < length pois" "p = pois ! i" by (auto simp: in_set_conv_nth)
    have "poi_coord p = Inr (cs ! i)" unfolding i(2) using a i(1) by (rule list_all2_nthD)
    then have "c = cs ! i" using p(2) by simp
    then have "c \<in> set cs" using i(1) list_all2_lengthD [OF a] by simp
    then show "bb_south b \<le> fst c \<and> fst c \<le> bb_north b \<and> bb_west b \<le> snd c \<and> snd c \<le> bb_east b" by (rule bounding_of_contains [OF b])
  qed
  have 4: "\<exists>ps. (rs_main s, ps) \<in> set groups \<and> (\<forall>g \<in> set groups. length (snd g) \<le> length ps)"
    unfolding r by (rule exI [of _ ps]) (rule conjI [OF ps])
  show "\<exists>s. cluster_pois_auto h pois = Inr s \<and> rs_places s = pois \<and>
       (\<exists>ps. (rs_main s, ps) \<in> set groups \<and> (\<forall>g \<in> set groups. length (snd g) \<le> length ps)) \<and>
       rs_main s \<in> set (rs_clusters s) \<and> set (rs_clusters s) \<subseteq> set (keys groups) \<and> 0 \<le> rs_area s \<and>
       (\<forall>p \<in> set pois. \<forall>c. poi_coord p = Inr c \<longrightarrow>
         bb_south (rs_bbox s) \<le> fst c \<and> fst c \<le> bb_north (rs_bbox s) \<and> bb_west (rs_bbox s) \<le> snd c \<and> snd c \<le> bb_east (rs_bbox s))"
    by (intro exI [of _ s] conjI) (fact s, fact r(1), fact 4, (fact | simp only: r 1 2 bounding_of_area [OF b] 3)+)
qed

theorem session_of_a_request_witness:
  "\<exists>s. cluster_pois_auto \<lparr>hx_cell = \<lambda>c. Inr ''cell'', hx_center = \<lambda>c. (0, 0), hx_boundary = \<lambda>c. [], hx_ring = \<lambda>c. [], hx_area = 250,
      hx_polygon = \<lambda>p. Inr [], hx_hash = \<lambda>cs. ''0''\<rparr> [[(''lat'', VFloat 1), (''lon'', VFloat 2)]] = Inr s \<and> rs_main s \<in> set (rs_clusters s)"
proof -
  let ?h = "\<lparr>hx_cell = \<lambda>c. Inr ''cell'', hx_center = \<lambda>c. (0, 0), hx_boundary = \<lambda>c. [], hx_ring = \<lambda>c. [], hx_area = 250,
      hx_polygon = \<lambda>p. Inr [], hx_hash = \<lambda>cs. ''0''\<rparr> :: h3_lib"
  have g: "group_by_cell (hx_cell ?h) [[(''lat'', VFloat 1), (''lon'', VFloat 2)]] [] = Inr [(''cell'', [[(''lat'', VFloat 1), (''lon'', VFloat 2)]])]"
    by (simp add: pnum_def dindex_def add_to_def)
  show ?thesis using session_of_a_request [of "[[(''lat'', VFloat 1), (''lon'', VFloat 2)]]" ?h] g by blast
qed

text \<open>
  every city and the rest under ``Other'' are places of the request; when the cells of three places or more have different names, none of them
  ``Other'', no place is lost and none is there twice.
\<close>

theorem cities_of_a_request:
  assumes "detect_cities_from_pois h pois = Inr cities" "group_by_cell (hx_cell h) pois [] = Inr groups"
  shows "(\<forall>c \<in> set cities. set (snd c) \<subseteq> set pois \<and> (fst c = ''Other'' \<or> 3 \<le> length (snd c))) \<and>
    (distinct (map fst (named_groups h groups 1)) \<and> ''Other'' \<notin> set (map fst (named_groups h groups 1)) \<longrightarrow>
      mset (concat (map snd cities)) = mset pois)"
proof -
  let ?n = "named_groups h groups 1"
  have g: "is_dict groups" "mset (concat (map snd groups)) = mset pois" using group_by_cell_ok [OF assms(2)] by simp_all
  have c: "cities = (let cs = fold (\<lambda>(name, ps). dset name ps) ?n [] in if sparse_places groups = [] then cs else dset ''Other'' (sparse_places groups) cs)"
    using assms by (simp add: detect_cities_from_pois_def Let_def split: if_splits)
  have u: "(\<Union>a \<in> set groups. set (snd a)) = set pois" using arg_cong [OF g(2), of set_mset] by simp
  have sub: "(cell, ps) \<in> set groups \<Longrightarrow> set ps \<subseteq> set pois" for cell ps unfolding u [symmetric] by force
  have f: "g \<in> set (fold (\<lambda>(name, ps). dset name ps) ?n []) \<Longrightarrow> set (snd g) \<subseteq> set pois \<and> 3 \<le> length (snd g)" for g
    using values_of_fold_dset [of "fst g" "snd g" ?n "[]"] named_groups_mem [of g h groups 1] sub by auto
  have "set (sparse_places groups) \<subseteq> set pois" using sub by (fastforce simp: sparse_places_def)
  then have "\<forall>c \<in> set cities. set (snd c) \<subseteq> set pois \<and> (fst c = ''Other'' \<or> 3 \<le> length (snd c))"
    using f set_dset_subset unfolding c Let_def by (fastforce split: if_splits)
  moreover have "mset (concat (map snd cities)) = mset pois"
    if d: "distinct (map fst ?n)" "''Other'' \<notin> set (map fst ?n)"
  proof -
    have "fold (\<lambda>(name, ps). dset name ps) ?n [] = ?n" using fold_dset_distinct [OF d(1), of "[]"] by simp
    then have "cities = ?n @ (if sparse_places groups = [] then [] else [(''Other'', sparse_places groups)])"
      using d(2) by (auto simp: c Let_def dset_fresh)
    then have "concat (map snd cities) = concat (map snd ?n) @ sparse_places groups" by auto
    then have "mset (concat (map snd cities)) =
      mset (concat (map snd (filter (\<lambda>g. 3 \<le> length (snd g)) groups))) + mset (concat (map snd (filter (\<lambda>g. \<not> 3 \<le> length (snd g)) groups)))"
      by (simp add: named_groups_places sparse_places_def not_le)
    then show ?thesis by (simp only: mset_filter_split g(2))
  qed
  ultimately show ?thesis by blast
qed

text \<open>The centre of every cell is Santiago, and the places of latitude 1 and 2 lie in two cells.\<close>

definition santiago_h3 :: h3_lib where
  "santiago_h3 =
     \<lparr>hx_cell = \<lambda>c. Inr (if fst c = 1 then ''a'' else ''b''), hx_center = \<lambda>c. (- 334489/10000, - 706693/10000), hx_boundary = \<lambda>c. [],
      hx_ring = \<lambda>c. [], hx_area = 250, hx_polygon = \<lambda>p. Inr [], hx_hash = \<lambda>cs. ''0''\<rparr>"

definition point_at :: "real \<Rightarrow> pydict" where
  "point_at x = [(''lat'', VFloat x), (''lon'', VFloat 0)]"

lemma santiago_groups:
  "group_by_cell (hx_cell santiago_h3) (replicate 3 (point_at 1) @ replicate 3 (point_at 2)) [] =
     Inr [(''a'', replicate 3 (point_at 1)), (''b'', replicate 3 (point_at 2))]"
  by (simp add: santiago_h3_def numeral_3_eq_3 point_at_def pnum_def dindex_def add_to_def)

lemma santiago_name: "estimate_city_name (hx_center santiago_h3 c) = Some ''Santiago''"
  by (simp add: estimate_city_name_def santiago_h3_def partition_cities_def)

lemma santiago_cities:
  "detect_cities_from_pois santiago_h3 (replicate 3 (point_at 1) @ replicate 3 (point_at 2)) = Inr [(''Santiago'', replicate 3 (point_at 2))]"
proof -
  have "sparse_places [(''a'', replicate 3 (point_at 1)), (''b'', replicate 3 (point_at 2))] = []" by (auto simp: sparse_places_def)
  then show ?thesis unfolding detect_cities_from_pois_def santiago_groups by (simp add: santiago_name)
qed

theorem cities_of_a_request_witness:
  "detect_cities_from_pois santiago_h3 (replicate 3 (point_at 1) @ replicate 3 (point_at 2)) = Inr [(''Santiago'', replicate 3 (point_at 2))] \<and>
   set (replicate 3 (point_at 2)) \<subseteq> set (replicate 3 (point_at 1) @ replicate 3 (point_at 2))"
  using cities_of_a_request [OF santiago_cities santiago_groups] santiago_cities by simp

text \<open>
  when every cell of three places or more lies at the same city, only the places of the last one are kept and those of the others are lost.
\<close>

theorem city_of_two_cells_keeps_the_last:
  assumes "group_by_cell (hx_cell h) pois [] = Inr (gs @ [(cell, ps)])"
    "\<forall>g \<in> set (gs @ [(cell, ps)]). 3 \<le> length (snd g) \<and> estimate_city_name (hx_center h (fst g)) = Some name"
  shows "detect_cities_from_pois h pois = Inr [(name, ps)] \<and> (gs \<noteq> [] \<longrightarrow> length ps < length pois)"
proof -
  have n: "\<forall>g \<in> set gs. 3 \<le> length (snd g) \<and> estimate_city_name (hx_center h (fst g)) = Some name \<Longrightarrow>
    named_groups h gs k = map (\<lambda>g. (name, snd g)) gs" for gs k
    by (induction gs) auto
  have f: "fold (\<lambda>(k, v). dset k v) (map (\<lambda>g. (name, snd g)) gs @ [(name, v)]) d = [(name, v)]" if "d = [] \<or> (\<exists>w. d = [(name, w)])" for gs v d
    using that by (induction gs arbitrary: d) auto
  have "named_groups h (gs @ [(cell, ps)]) 1 = map (\<lambda>g. (name, snd g)) gs @ [(name, ps)]" using n [OF assms(2)] by simp
  moreover have "sparse_places (gs @ [(cell, ps)]) = []" using assms(2) by (auto simp: sparse_places_def filter_empty_conv)
  ultimately have "detect_cities_from_pois h pois = Inr [(name, ps)]"
    unfolding detect_cities_from_pois_def assms(1) by (simp add: f del: fold_append)
  moreover have "length ps < length pois" if ne: "gs \<noteq> []"
  proof -
    have "mset (concat (map snd (gs @ [(cell, ps)]))) = mset pois" using group_by_cell_ok [OF assms(1)] by simp
    from arg_cong [OF this, of size] have l: "length (concat (map snd gs)) + length ps = length pois" by simp
    have h: "hd gs \<in> set gs" using ne by simp
    then have "3 \<le> length (snd (hd gs))" using assms(2) by simp
    then have "snd (hd gs) \<noteq> []" by auto
    with h have "0 < length (concat (map snd gs))" by auto
    with l show ?thesis by linarith
  qed
  ultimately show ?thesis by blast
qed

theorem city_of_two_cells_keeps_the_last_witness:
  "detect_cities_from_pois santiago_h3 (replicate 3 (point_at 1) @ replicate 3 (point_at 2)) = Inr [(''Santiago'', replicate 3 (point_at 2))] \<and>
   length (replicate 3 (point_at 2)) < length (replicate 3 (point_at 1) @ replicate 3 (point_at 2))"
proof -
  have g: "group_by_cell (hx_cell santiago_h3) (replicate 3 (point_at 1) @ replicate 3 (point_at 2)) [] =
    Inr ([(''a'', replicate 3 (point_at 1))] @ [(''b'', replicate 3 (point_at 2))])" using santiago_groups by simp
  from city_of_two_cells_keeps_the_last [OF g, of "''Santiago''"] santiago_name show ?thesis by simp
qed

end
