(* ===== verification/ODMatrix.thy ===== *)
theory ODMatrix
  imports Partitioner ProfessionalOptimizer
begin

section \<open>Matrices of a routing session\<close>

text \<open>
  src/services/osrm\_service.py, src/services/redis\_od\_cache.py and src/services/hybrid\_architecture\_integrator.py: the
  matrix of a session from the routing server or the graph, kept in Redis or in memory, and the route made from it.
  The replies of the server, the graph, the store, the solver and the clock are parameters; a key of the store is the
  tuple whose digest and text the code takes, and a stored table is read back as it was written.
\<close>

subsection \<open>Tables\<close>

text \<open>A cell of a matrix: a number, the infinity of the graph, or the null of the server.\<close>

datatype od_cell = Num real | Infinite | Null

fun cell_less :: "od_cell \<Rightarrow> od_cell \<Rightarrow> bool res" where
  "cell_less (Num x) (Num y) = Inr (x < y)"
| "cell_less (Num x) Infinite = Inr True"
| "cell_less Infinite (Num y) = Inr False"
| "cell_less Infinite Infinite = Inr False"
| "cell_less _ _ = Inl TypeError"

fun cell_add :: "od_cell \<Rightarrow> od_cell \<Rightarrow> od_cell res" where
  "cell_add (Num x) (Num y) = Inr (Num (x + y))"
| "cell_add Infinite (Num y) = Inr Infinite"
| "cell_add (Num x) Infinite = Inr Infinite"
| "cell_add Infinite Infinite = Inr Infinite"
| "cell_add _ _ = Inl TypeError"

text \<open>\<open>clean\_numeric\_value\<close>\<close>

fun clean_cell :: "od_cell \<Rightarrow> real" where
  "clean_cell (Num x) = x"
| "clean_cell Infinite = 0"
| "clean_cell Null = 0"

type_synonym od_key = "string \<times> string \<times> coord list \<times> nat"

record od_table =
  tb_distances :: "od_cell list list"
  tb_durations :: "od_cell list list"
  tb_query_s :: real
  tb_sources :: pyval
  tb_destinations :: pyval
  tb_strategy :: "string option"
  tb_calculation_s :: "real option"
  tb_hit :: "bool option"
  tb_cached_at :: "real option"
  tb_ttl :: "int option"
  tb_key :: "od_key option"

definition new_table :: "od_cell list list \<Rightarrow> od_cell list list \<Rightarrow> real \<Rightarrow> pyval \<Rightarrow> pyval \<Rightarrow> od_table" where
  "new_table ds us q src dst =
     \<lparr>tb_distances = ds, tb_durations = us, tb_query_s = q, tb_sources = src, tb_destinations = dst, tb_strategy = None, tb_calculation_s = None,
      tb_hit = None, tb_cached_at = None, tb_ttl = None, tb_key = None\<rparr>"

subsection \<open>The routing server\<close>

text \<open>The body of an answer; a matrix the body does not have raises when it is read.\<close>

record osrm_body =
  ob_code :: string
  ob_distances :: "od_cell list list option"
  ob_durations :: "od_cell list list option"
  ob_sources :: pyval
  ob_destinations :: pyval

record osrm_server =
  os_health :: "(int \<times> string) res"
  os_table :: "coord list \<Rightarrow> (int \<times> osrm_body) res"
  os_query_s :: real

definition osrm_health_check :: "osrm_server \<Rightarrow> bool" where
  "osrm_health_check s = (case os_health s of Inr (code, txt) \<Rightarrow> code = 200 \<and> contains ''Ok'' txt | Inl e \<Rightarrow> False)"

definition osrm_distance_matrix :: "osrm_server \<Rightarrow> coord list \<Rightarrow> od_table option" where
  "osrm_distance_matrix s cs =
     (case os_table s cs of
        Inr (code, b) \<Rightarrow>
          if code \<noteq> 200 \<or> ob_code b \<noteq> ''Ok'' then None
          else (case (ob_distances b, ob_durations b) of
                  (Some ds, Some us) \<Rightarrow> Some (new_table ds us (os_query_s s) (ob_sources b) (ob_destinations b))
                | _ \<Rightarrow> None)
      | Inl e \<Rightarrow> None)"

definition server_route :: "(int \<times> pyval) res \<Rightarrow> real \<Rightarrow> pydict option" where
  "server_route reply query_s =
     (case rbind reply (\<lambda>(code, data).
        if code \<noteq> 200 then Inr None
        else rbind (vget data ''code'' VNone) (\<lambda>c.
          if c \<noteq> VStr ''Ok'' then Inr None
          else rbind (vindex data ''routes'') (\<lambda>rs. rbind (vfirst rs) (\<lambda>r. rbind (vindex r ''distance'') (\<lambda>d. rbind (vindex r ''duration'') (\<lambda>t.
            rbind (vindex r ''geometry'') (\<lambda>g. rbind (vget r ''legs'' (VList [])) (\<lambda>legs. rbind (vget data ''waypoints'' (VList [])) (\<lambda>ws.
            Inr (Some [(''distance_m'', d), (''duration_s'', t), (''geometry'', g), (''query_time_s'', VFloat query_s), (''legs'', legs),
              (''waypoints'', ws)]))))))))))
      of Inr r \<Rightarrow> r | Inl e \<Rightarrow> None)"

text \<open>The attempts to reach a started server: each answers with a status or fails.\<close>

definition server_ready :: "(nat \<Rightarrow> int res) \<Rightarrow> bool" where
  "server_ready attempt = list_ex (\<lambda>i. attempt i = Inr 200) [0..<30]"

subsection \<open>The store\<close>

record 's redis =
  rd_ping :: "'s \<Rightarrow> bool res"
  rd_get :: "real \<Rightarrow> od_key \<Rightarrow> 's \<Rightarrow> od_table option res"
  rd_setex :: "real \<Rightarrow> od_key \<Rightarrow> int \<Rightarrow> od_table \<Rightarrow> 's \<Rightarrow> bool res \<times> 's"
  rd_cluster_keys :: "string \<Rightarrow> 's \<Rightarrow> od_key list res" \<comment> \<open>\<open>keys\<close> of the pattern of a cluster\<close>
  rd_keys :: "'s \<Rightarrow> od_key list res" \<comment> \<open>\<open>keys\<close> and \<open>scan\_iter\<close> of all the keys of the program\<close>
  rd_delete :: "od_key list \<Rightarrow> 's \<Rightarrow> nat res \<times> 's"
  rd_ttl :: "real \<Rightarrow> od_key \<Rightarrow> 's \<Rightarrow> int res"
  rd_info :: "'s \<Rightarrow> pyval res"

text \<open>The client; it has no connection when the first ping fails.\<close>

record 's od_cache =
  oc_client :: "'s redis option"
  oc_default_ttl :: int

definition new_od_cache :: "'s redis \<Rightarrow> int \<Rightarrow> 's \<Rightarrow> 's od_cache" where
  "new_od_cache r ttl s = \<lparr>oc_client = (case rd_ping r s of Inr b \<Rightarrow> Some r | Inl e \<Rightarrow> None), oc_default_ttl = ttl\<rparr>"

definition od_cache_key :: "coord list \<Rightarrow> string \<Rightarrow> string option \<Rightarrow> od_key" where
  "od_cache_key cs mode cluster =
     (mode, (case cluster of Some c \<Rightarrow> if c = [] then ''global'' else c | None \<Rightarrow> ''global''), sort cs, length cs)"

definition get_od_matrix :: "real \<Rightarrow> 's od_cache \<Rightarrow> coord list \<Rightarrow> string \<Rightarrow> string option \<Rightarrow> 's \<Rightarrow> od_table option" where
  "get_od_matrix now c cs mode cluster s =
     (case oc_client c of
        None \<Rightarrow> None
      | Some r \<Rightarrow>
          let k = od_cache_key cs mode cluster
          in case rd_get r now k s of
               Inr (Some t) \<Rightarrow> Some (t\<lparr>tb_hit := Some True, tb_key := Some k\<rparr>)
             | _ \<Rightarrow> None)"

definition set_od_matrix ::
  "real \<Rightarrow> 's od_cache \<Rightarrow> coord list \<Rightarrow> string \<Rightarrow> od_table \<Rightarrow> string option \<Rightarrow> int option \<Rightarrow> 's \<Rightarrow> bool \<times> 's" where
  "set_od_matrix now c cs mode t cluster ttl s =
     (case oc_client c of
        None \<Rightarrow> (False, s)
      | Some r \<Rightarrow>
          let k = od_cache_key cs mode cluster;
              life = (case ttl of Some x \<Rightarrow> if x = 0 then oc_default_ttl c else x | None \<Rightarrow> oc_default_ttl c)
          in case rd_setex r now k life (t\<lparr>tb_cached_at := Some now, tb_ttl := Some life, tb_key := Some k\<rparr>) s of
               (Inr b, s') \<Rightarrow> (b, s')
             | (Inl e, s') \<Rightarrow> (False, s'))"

definition invalidate_cluster_cache :: "'s od_cache \<Rightarrow> string \<Rightarrow> 's \<Rightarrow> nat \<times> 's" where
  "invalidate_cluster_cache c cluster s =
     (case oc_client c of
        None \<Rightarrow> (0, s)
      | Some r \<Rightarrow>
          case rd_cluster_keys r cluster s of
            Inl e \<Rightarrow> (0, s)
          | Inr ks \<Rightarrow> if ks = [] then (0, s) else (case rd_delete r ks s of (Inr n, s') \<Rightarrow> (n, s') | (Inl e, s') \<Rightarrow> (0, s')))"

definition calculate_hit_rate :: "real \<Rightarrow> real \<Rightarrow> real" where
  "calculate_hit_rate hits misses = (if hits + misses = 0 then 0 else hits / (hits + misses) * 100)"

definition redis_stats :: "(py_error \<Rightarrow> string) \<Rightarrow> 's od_cache \<Rightarrow> 's \<Rightarrow> pydict" where
  "redis_stats str_error c s =
     (case oc_client c of
        None \<Rightarrow> [(''connected'', VBool False)]
      | Some r \<Rightarrow>
          case rbind (rd_info r s) (\<lambda>i. rbind (rd_keys r s) (\<lambda>ks.
            rbind (vget i ''redis_version'' VNone) (\<lambda>a. rbind (vget i ''used_memory_human'' VNone) (\<lambda>b. rbind (vget i ''connected_clients'' VNone) (\<lambda>d.
            rbind (vget i ''total_commands_processed'' VNone) (\<lambda>f. rbind (vget i ''keyspace_hits'' (VInt 0)) (\<lambda>h. rbind (vget i ''keyspace_misses'' (VInt 0)) (\<lambda>m.
            rbind (need_num h) (\<lambda>x. rbind (need_num m) (\<lambda>y.
            Inr [(''connected'', VBool True), (''redis_version'', a), (''used_memory_human'', b), (''connected_clients'', d), (''total_commands_processed'', f),
              (''goveling_keys_count'', VInt (int (length ks))), (''keyspace_hits'', h), (''keyspace_misses'', m),
              (''hit_rate'', VFloat (calculate_hit_rate x y))])))))))))) of
            Inr d \<Rightarrow> d
          | Inl e \<Rightarrow> [(''connected'', VBool False), (''error'', VStr (str_error e))])"

fun clean_keys :: "'s redis \<Rightarrow> real \<Rightarrow> od_key list \<Rightarrow> nat \<Rightarrow> 's \<Rightarrow> nat res \<times> 's" where
  "clean_keys r now [] n s = (Inr n, s)"
| "clean_keys r now (k # ks) n s =
     (case rd_ttl r now k s of
        Inl e \<Rightarrow> (Inl e, s)
      | Inr t \<Rightarrow>
          if t = - 2 then (case rd_delete r [k] s of (Inl e, s') \<Rightarrow> (Inl e, s') | (Inr m, s') \<Rightarrow> clean_keys r now ks (n + 1) s')
          else clean_keys r now ks n s)"

definition cleanup_expired_keys :: "real \<Rightarrow> 's od_cache \<Rightarrow> 's \<Rightarrow> nat \<times> 's" where
  "cleanup_expired_keys now c s =
     (case oc_client c of
        None \<Rightarrow> (0, s)
      | Some r \<Rightarrow> (case rd_keys r s of Inl e \<Rightarrow> (0, s) | Inr ks \<Rightarrow> (case clean_keys r now ks 0 s of (Inr n, s') \<Rightarrow> (n, s') | (Inl e, s') \<Rightarrow> (0, s'))))"

definition redis_health_check :: "'s od_cache \<Rightarrow> 's \<Rightarrow> bool" where
  "redis_health_check c s = (case oc_client c of None \<Rightarrow> False | Some r \<Rightarrow> rd_ping r s = Inr True)"

text \<open>\<open>took\<close> is the time of the calculation.\<close>

definition get_or_calculate_matrix ::
  "real \<Rightarrow> real \<Rightarrow> 's od_cache \<Rightarrow> coord list \<Rightarrow> string \<Rightarrow> string option \<Rightarrow> (coord list \<Rightarrow> od_table option) \<Rightarrow> bool \<Rightarrow> 's \<Rightarrow> od_table option \<times> 's" where
  "get_or_calculate_matrix now took c cs mode cluster calculate force_refresh s =
     (case (if force_refresh then None else get_od_matrix now c cs mode cluster s) of
        Some t \<Rightarrow> (Some t, s)
      | None \<Rightarrow>
          (case calculate cs of
             None \<Rightarrow> (None, s)
           | Some t \<Rightarrow>
               let t' = t\<lparr>tb_calculation_s := Some took, tb_hit := Some False\<rparr> in (Some t', snd (set_od_matrix (now + took) c cs mode t' cluster None s))))"

subsection \<open>Calculating a matrix\<close>

text \<open>The graph, when it could be loaded, answers a pair of points with a dictionary or raises.\<close>

record routing_env =
  re_car :: osrm_server
  re_foot :: osrm_server
  re_graph :: "(coord \<Rightarrow> coord \<Rightarrow> pyval res) option"
  re_graph_s :: real
  re_now :: real
  re_took :: real

definition server_for :: "routing_env \<Rightarrow> string \<Rightarrow> osrm_server" where
  "server_for env mode = (if mode = ''car'' then re_car env else re_foot env)"

definition graph_km :: "pyval res \<Rightarrow> real option" where
  "graph_km reply =
     (case rbind reply (\<lambda>r. if \<not> truthy r then Inr None
        else rbind (vindex r ''success'') (\<lambda>ok. if truthy ok then rbind (vget r ''distance_km'' (VInt 0)) (\<lambda>d. rbind (need_num d) (\<lambda>x. Inr (Some x)))
          else Inr None)) of
        Inr x \<Rightarrow> x | Inl e \<Rightarrow> None)"

definition graph_cell :: "(real \<Rightarrow> real) \<Rightarrow> (coord \<Rightarrow> coord \<Rightarrow> pyval res) \<Rightarrow> coord list \<Rightarrow> nat \<Rightarrow> nat \<Rightarrow> od_cell" where
  "graph_cell f graph cs i j = (if i = j then Num 0 else case graph_km (graph (cs ! i) (cs ! j)) of Some km \<Rightarrow> Num (f km) | None \<Rightarrow> Infinite)"

definition square_of :: "nat \<Rightarrow> (nat \<Rightarrow> nat \<Rightarrow> od_cell) \<Rightarrow> od_cell list list" where
  "square_of n f = map (\<lambda>i. map (f i) [0..<n]) [0..<n]"

definition calculate_city2graph_matrix :: "real \<Rightarrow> (coord \<Rightarrow> coord \<Rightarrow> pyval res) \<Rightarrow> coord list \<Rightarrow> od_table" where
  "calculate_city2graph_matrix query_s graph cs =
     (let n = length cs; places = VList (map (\<lambda>c. VDict [(''location'', VList [VFloat (snd c), VFloat (fst c)])]) cs)
      in new_table (square_of n (graph_cell (\<lambda>km. km * 1000) graph cs)) (square_of n (graph_cell (\<lambda>km. km / 50 * 3600) graph cs)) query_s places places)"

definition calculate_matrix_with_fallback :: "routing_env \<Rightarrow> string \<Rightarrow> coord list \<Rightarrow> od_table option" where
  "calculate_matrix_with_fallback env mode cs =
     (let s = server_for env mode
      in case (if osrm_health_check s then osrm_distance_matrix s cs else None) of
           Some t \<Rightarrow> Some (t\<lparr>tb_strategy := Some ''OSRM_PROFESSIONAL''\<rparr>)
         | None \<Rightarrow>
             (case re_graph env of
                Some g \<Rightarrow> Some ((calculate_city2graph_matrix (re_graph_s env) g cs)\<lparr>tb_strategy := Some ''CITY2GRAPH_FALLBACK''\<rparr>)
              | None \<Rightarrow> None))"

record od_answer =
  oa_table :: od_table
  oa_session :: string
  oa_count :: nat
  oa_at :: real

record 's integrator =
  ig_cache :: "'s od_cache"
  ig_store :: 's
  ig_memory :: "(string, od_answer \<times> real) dict"
  ig_ttl :: real

definition memory_key :: "routing_session \<Rightarrow> string \<Rightarrow> string" where
  "memory_key session mode = ''od_'' @ rs_id session @ ''_'' @ mode"

text \<open>The answer is remembered under the name of the session whichever way it was found.\<close>

definition enrich :: "real \<Rightarrow> routing_session \<Rightarrow> string \<Rightarrow> string \<Rightarrow> od_table \<Rightarrow> 's integrator \<Rightarrow> od_answer \<times> 's integrator" where
  "enrich now session mode strategy t st =
     (let a = \<lparr>oa_table = t\<lparr>tb_strategy := Some strategy\<rparr>, oa_session = rs_id session, oa_count = length (rs_places session), oa_at = now\<rparr>
      in (a, st\<lparr>ig_memory := dset (memory_key session mode) (a, now) (ig_memory st)\<rparr>))"

definition fresh_memory :: "real \<Rightarrow> routing_session \<Rightarrow> string \<Rightarrow> 's integrator \<Rightarrow> od_answer option" where
  "fresh_memory now session mode st =
     (case map_of (ig_memory st) (memory_key session mode) of
        Some (a, t) \<Rightarrow> if now - t < ig_ttl st then Some a else None
      | None \<Rightarrow> None)"

definition calculate_od_matrix_hybrid :: "routing_env \<Rightarrow> routing_session \<Rightarrow> string \<Rightarrow> 's integrator \<Rightarrow> od_answer res \<times> 's integrator" where
  "calculate_od_matrix_hybrid env session mode st =
     (case rmap_list poi_coord (rs_places session) of
        Inl e \<Rightarrow> (Inl e, st)
      | Inr cs \<Rightarrow>
          if redis_health_check (ig_cache st) (ig_store st)
          then
            (case get_or_calculate_matrix (re_now env) (re_took env) (ig_cache st) cs mode (Some (rs_main session)) (calculate_matrix_with_fallback env mode) False (ig_store st) of
               (None, s') \<Rightarrow> (Inl (OtherError ''Exception''), st\<lparr>ig_store := s'\<rparr>)
             | (Some t, s') \<Rightarrow>
                 (case enrich (re_now env + re_took env) session mode (case tb_strategy t of Some x \<Rightarrow> x | None \<Rightarrow> ''REDIS_CACHED'') t (st\<lparr>ig_store := s'\<rparr>) of
                    (a, st') \<Rightarrow> (Inr a, st')))
          else
            (case fresh_memory (re_now env) session mode st of
               Some a \<Rightarrow> (Inr a, st)
             | None \<Rightarrow>
                 (case calculate_matrix_with_fallback env mode cs of
                    None \<Rightarrow> (Inl (OtherError ''Exception''), st)
                  | Some t \<Rightarrow> (case enrich (re_now env + re_took env) session mode ''MEMORY_FALLBACK'' t st of (a, st') \<Rightarrow> (Inr a, st')))))"

subsection \<open>The route of a matrix\<close>

record tsp_result =
  bt_route :: "nat list"
  bt_distance :: real
  bt_time :: real
  bt_algorithm :: "string option" \<comment> \<open>under the key \<open>algorithm\<close>\<close>

definition cell_at :: "od_cell list list \<Rightarrow> nat \<Rightarrow> nat \<Rightarrow> od_cell res" where
  "cell_at m i j = lookup2 m i j"

text \<open>The first of the nearest among the points not visited, in ascending order as a set of small numbers is.\<close>

fun nearest_scan :: "od_cell list list \<Rightarrow> nat \<Rightarrow> nat list \<Rightarrow> nat \<times> od_cell \<Rightarrow> nat res" where
  "nearest_scan m i [] best = Inr (fst best)"
| "nearest_scan m i (j # js) best =
     rbind (cell_at m i j) (\<lambda>c. rbind (cell_less c (snd best)) (\<lambda>b. nearest_scan m i js (if b then (j, c) else best)))"

fun tsp_loop :: "od_cell list list \<Rightarrow> od_cell list list \<Rightarrow> nat \<Rightarrow> nat \<Rightarrow> nat list \<Rightarrow> od_cell \<Rightarrow> od_cell \<Rightarrow> (nat list \<times> od_cell \<times> od_cell) res" where
  "tsp_loop ds us 0 i unvisited d t = Inr ([], d, t)"
| "tsp_loop ds us (Suc n) i [] d t = Inr ([], d, t)"
| "tsp_loop ds us (Suc n) i (j # js) d t =
     rbind (cell_at ds i j) (\<lambda>c. rbind (nearest_scan ds i js (j, c)) (\<lambda>k. rbind (cell_at ds i k) (\<lambda>x. rbind (cell_add d x) (\<lambda>d'.
     rbind (cell_at us i k) (\<lambda>y. rbind (cell_add t y) (\<lambda>t'. rbind (tsp_loop ds us n k (remove1 k (j # js)) d' t') (\<lambda>r.
     Inr (k # fst r, snd r))))))))"

definition optimize_tsp_basic :: "od_table \<Rightarrow> tsp_result res" where
  "optimize_tsp_basic t =
     (let n = length (tb_distances t)
      in if n \<le> 1 then Inr \<lparr>bt_route = [0], bt_distance = 0, bt_time = 0, bt_algorithm = None\<rparr>
         else rbind (tsp_loop (tb_distances t) (tb_durations t) (n - 1) 0 [1..<n] (Num 0) (Num 0)) (\<lambda>(route, d, u).
           Inr \<lparr>bt_route = 0 # route, bt_distance = clean_cell d, bt_time = clean_cell u, bt_algorithm = Some ''NEAREST_NEIGHBOR_BASIC''\<rparr>))"

text \<open>The answer of the solver under the keys of the integrator.\<close>

record pro_route =
  pr_route :: "nat list"
  pr_distance :: real
  pr_time :: real
  pr_algorithm_used :: string
  pr_constraints :: bool
  pr_dropped :: "nat list"

datatype tsp_answer = Professional pro_route | Basic tsp_result

definition pro_answer :: "opt_response \<Rightarrow> pro_route" where
  "pro_answer r =
     \<lparr>pr_route = rs_route r, pr_distance = rs_total_distance_km r * 1000, pr_time = rs_total_time_minutes r * 60, pr_algorithm_used = rs_algorithm_used r,
      pr_constraints = rs_constraints_satisfied r, pr_dropped = rs_dropped_pois r\<rparr>"

definition has_time_constraints :: "pydict list \<Rightarrow> bool" where
  "has_time_constraints =
     list_ex (\<lambda>p. truthy (dget p ''opening_hour'' VNone) \<or> truthy (dget p ''closing_hour'' VNone) \<or> truthy (dget p ''duration_minutes'' VNone))"

fun number_of :: "od_cell \<Rightarrow> real option" where
  "number_of (Num x) = Some x"
| "number_of _ = None"

definition numbers_of :: "od_cell list list \<Rightarrow> real list list option" where
  "numbers_of m = (if list_all (list_all (\<lambda>c. number_of c \<noteq> None)) m then Some (map (map (\<lambda>c. the (number_of c))) m) else None)"

text \<open>\<open>strange\<close> is what the solver does with a matrix that has an infinite or a missing cell; \<open>None\<close> is a solution whose reading does not end.\<close>

definition solver_answer :: "solver \<Rightarrow> opt_response res \<Rightarrow> pydict list \<Rightarrow> od_table \<Rightarrow> opt_response res option" where
  "solver_answer solver strange pois t =
     (case (numbers_of (tb_distances t), numbers_of (tb_durations t)) of
        (Some ds, Some us) \<Rightarrow> optimize_itinerary_advanced solver pois \<lparr>od_distances = Some ds, od_durations = Some us\<rparr> (has_time_constraints pois) ''09:00''
      | _ \<Rightarrow> Some strange)"

definition optimize_tsp_professional :: "solver \<Rightarrow> opt_response res \<Rightarrow> pydict list \<Rightarrow> od_table \<Rightarrow> tsp_answer res option" where
  "optimize_tsp_professional solver strange pois t =
     map_option (\<lambda>r. case r of
         Inr x \<Rightarrow> if rs_success x then Inr (Professional (pro_answer x)) else rbind (optimize_tsp_basic t) (\<lambda>b. Inr (Basic b))
       | Inl e \<Rightarrow> rbind (optimize_tsp_basic t) (\<lambda>b. Inr (Basic b)))
     (solver_answer solver strange pois t)"

fun algorithm_named :: "tsp_answer \<Rightarrow> string" where
  "algorithm_named (Professional p) = pr_algorithm_used p"
| "algorithm_named (Basic b) = ''OR_TOOLS_PROFESSIONAL''" \<comment> \<open>the basic route has no key \<open>algorithm\_used\<close>\<close>

record pro_itinerary =
  pi_session :: routing_session
  pi_strategy :: "string option"
  pi_route :: tsp_answer
  pi_processed :: nat
  pi_clusters :: nat
  pi_components :: "string list"
  pi_area :: real
  pi_cities :: nat

definition analyze_routing_request :: "h3_lib \<Rightarrow> pydict list \<Rightarrow> routing_session res" where
  "analyze_routing_request h pois = rbind (cluster_pois_auto h pois) (\<lambda>s. rbind (detect_cities_from_pois h pois) (\<lambda>c. Inr s))"

definition optimize_itinerary_professional ::
  "h3_lib \<Rightarrow> routing_env \<Rightarrow> solver \<Rightarrow> opt_response res \<Rightarrow> pydict list \<Rightarrow> string \<Rightarrow> 's integrator \<Rightarrow> pro_itinerary res option \<times> 's integrator" where
  "optimize_itinerary_professional h env solver strange pois mode st =
     (case analyze_routing_request h pois of
        Inl e \<Rightarrow> (Some (Inl e), st)
      | Inr session \<Rightarrow>
          (case calculate_od_matrix_hybrid env session mode st of
             (Inl e, st') \<Rightarrow> (Some (Inl e), st')
           | (Inr a, st') \<Rightarrow>
               (map_option (\<lambda>r. rbind r (\<lambda>route. rbind (detect_cities_from_pois h pois) (\<lambda>cities.
                  Inr \<lparr>pi_session = session, pi_strategy = tb_strategy (oa_table a), pi_route = route, pi_processed = length pois,
                       pi_clusters = length (rs_clusters session),
                       pi_components = [''H3_SPATIAL_PARTITIONER'', (case tb_strategy (oa_table a) of Some x \<Rightarrow> x | None \<Rightarrow> ''UNKNOWN''), algorithm_named route],
                       pi_area = rs_area session, pi_cities = length cities\<rparr>)))
                (optimize_tsp_professional solver strange pois (oa_table a)), st')))"

definition setup_routing_engine :: "bool \<Rightarrow> bool \<Rightarrow> bool" where
  "setup_routing_engine data_ready started = (data_ready \<and> started)"


subsection \<open>Lemmas\<close>

lemma sort_permuted: "mset xs = mset ys \<Longrightarrow> sort xs = sort ys"
  by (metis mset_sort properties_for_sort sorted_sort)

lemma key_of_permuted: "mset cs = mset cs' \<Longrightarrow> od_cache_key cs mode cluster = od_cache_key cs' mode cluster"
  using sort_permuted [of cs cs'] mset_eq_length [of cs cs'] by (simp add: od_cache_key_def)

text \<open>A store that works: it answers, accepts what it is given and gives it back until it expires.\<close>

definition working_store :: "'s redis \<Rightarrow> bool" where
  "working_store r \<longleftrightarrow>
     (\<forall>s. rd_ping r s = Inr True) \<and>
     (\<forall>now k life t s. fst (rd_setex r now k life t s) = Inr True \<and>
        (\<forall>now' < now + real_of_int life. rd_get r now' k (snd (rd_setex r now k life t s)) = Inr (Some t)))"

lemma store_answers:
  assumes "working_store r" "oc_client c = Some r" "now' < now + real_of_int (oc_default_ttl c)" "mset cs = mset cs'"
  shows "get_od_matrix now' c cs' mode cluster (snd (set_od_matrix now c cs mode t cluster None s)) =
    Some (t\<lparr>tb_cached_at := Some now, tb_ttl := Some (oc_default_ttl c), tb_key := Some (od_cache_key cs mode cluster), tb_hit := Some True\<rparr>)"
proof -
  let ?k = "od_cache_key cs mode cluster"
  let ?t = "t\<lparr>tb_cached_at := Some now, tb_ttl := Some (oc_default_ttl c), tb_key := Some ?k\<rparr>"
  obtain b s' where e: "rd_setex r now ?k (oc_default_ttl c) ?t s = (b, s')" by fastforce
  have "b = Inr True" "rd_get r now' ?k s' = Inr (Some ?t)"
    using assms(1,3) e unfolding working_store_def by (metis fst_conv, metis snd_conv)
  then show ?thesis using e assms(2) key_of_permuted [OF assms(4), of mode cluster]
    by (simp add: set_od_matrix_def get_od_matrix_def Let_def)
qed

lemma tb_distances_enrich: "tb_distances (oa_table (fst (enrich now session mode strategy t st))) = tb_distances t"
  by (simp add: enrich_def Let_def)

lemma hybrid_by_store:
  assumes "rmap_list poi_coord (rs_places session) = Inr cs" "redis_health_check (ig_cache st) (ig_store st)"
    "get_or_calculate_matrix (re_now env) (re_took env) (ig_cache st) cs mode (Some (rs_main session)) (calculate_matrix_with_fallback env mode) False (ig_store st)
      = (Some t, s')"
  shows "\<exists>a st'. calculate_od_matrix_hybrid env session mode st = (Inr a, st') \<and> tb_distances (oa_table a) = tb_distances t \<and>
    ig_store st' = s' \<and> ig_cache st' = ig_cache st"
  using assms by (auto simp: calculate_od_matrix_hybrid_def enrich_def Let_def)

subsection \<open>The basic route\<close>

lemma nearest_scan_minimum:
  assumes "nearest_scan m i js (b, c) = Inr k" "cell_at m i b = Inr c"
  shows "k \<in> set (b # js) \<and> (\<exists>x. cell_at m i k = Inr x \<and> (\<forall>j \<in> set (b # js). \<forall>y. cell_at m i j = Inr y \<longrightarrow> cell_less y x \<noteq> Inr True))"
  using assms
proof (induction js arbitrary: b c)
  case Nil
  then show ?case by (cases c) auto
next
  case (Cons j js)
  from Cons.prems(1) obtain y l where y: "cell_at m i j = Inr y" "cell_less y c = Inr l" "nearest_scan m i js (if l then (j, y) else (b, c)) = Inr k"
    by (auto simp: rbind_eq_Inr_iff)
  show ?case
  proof (cases l)
    case True
    with y(3) have "nearest_scan m i js (j, y) = Inr k" by simp
    from Cons.IH [OF this y(1)] obtain x where x: "k \<in> set (j # js)" "cell_at m i k = Inr x"
      "\<forall>j \<in> set (j # js). \<forall>y. cell_at m i j = Inr y \<longrightarrow> cell_less y x \<noteq> Inr True" by blast
    have "cell_less y x \<noteq> Inr True" using x(3) y(1) by simp
    then have "cell_less c x \<noteq> Inr True" using y(2) True by (cases c; cases y; cases x) auto
    with x Cons.prems(2) show ?thesis by auto
  next
    case False
    with y(3) have "nearest_scan m i js (b, c) = Inr k" by simp
    from Cons.IH [OF this Cons.prems(2)] obtain x where x: "k \<in> set (b # js)" "cell_at m i k = Inr x"
      "\<forall>j \<in> set (b # js). \<forall>y. cell_at m i j = Inr y \<longrightarrow> cell_less y x \<noteq> Inr True" by blast
    have "cell_less c x \<noteq> Inr True" using x(3) Cons.prems(2) by simp
    then have "cell_less y x \<noteq> Inr True" using y(2) False by (cases c; cases y; cases x) auto
    with x y(1) show ?thesis by auto
  qed
qed

text \<open>A tour that goes on to a point none of the others is nearer than, and the sum of its legs.\<close>

fun greedy_tour :: "od_cell list list \<Rightarrow> nat \<Rightarrow> nat list \<Rightarrow> bool" where
  "greedy_tour ds i [] = True"
| "greedy_tour ds i (k # ks) =
     ((case cell_at ds i k of
         Inr x \<Rightarrow> list_all (\<lambda>j. case cell_at ds i j of Inr y \<Rightarrow> cell_less y x \<noteq> Inr True | Inl e \<Rightarrow> False) ks
       | Inl e \<Rightarrow> False) \<and> greedy_tour ds k ks)"

fun tour_sum :: "od_cell list list \<Rightarrow> nat \<Rightarrow> nat list \<Rightarrow> od_cell \<Rightarrow> od_cell res" where
  "tour_sum m i [] acc = Inr acc"
| "tour_sum m i (k # ks) acc = rbind (cell_at m i k) (\<lambda>x. rbind (cell_add acc x) (\<lambda>acc'. tour_sum m k ks acc'))"

lemma nearest_scan_cells: "nearest_scan m i js (b, c) = Inr k \<Longrightarrow> j \<in> set js \<Longrightarrow> \<exists>y. cell_at m i j = Inr y"
proof (induction js arbitrary: b c)
  case (Cons j' js)
  from Cons.prems(1) obtain y l where y: "cell_at m i j' = Inr y" "nearest_scan m i js (if l then (j', y) else (b, c)) = Inr k"
    by (auto simp: rbind_eq_Inr_iff)
  show ?case
  proof (cases "j = j'")
    case False
    with Cons.prems(2) have "j \<in> set js" by simp
    with Cons.IH [of j' y] Cons.IH [of b c] y(2) show ?thesis by (cases l) auto
  qed (use y(1) in simp)
qed simp

lemma tsp_loop_tour:
  assumes "tsp_loop ds us n i unvisited d t = Inr (route, d', t')" "length unvisited = n"
  shows "mset route = mset unvisited \<and> greedy_tour ds i route \<and> tour_sum ds i route d = Inr d' \<and> tour_sum us i route t = Inr t'"
  using assms
proof (induction n arbitrary: i unvisited d t route d' t')
  case (Suc n)
  then obtain j js where u: "unvisited = j # js" by (cases unvisited) auto
  from Suc.prems(1) obtain c k x d1 y t1 r where c: "cell_at ds i j = Inr c" "nearest_scan ds i js (j, c) = Inr k"
    and k: "cell_at ds i k = Inr x" "cell_add d x = Inr d1" "cell_at us i k = Inr y" "cell_add t y = Inr t1"
    and r: "tsp_loop ds us n k (remove1 k unvisited) d1 t1 = Inr r" "route = k # fst r" "(d', t') = snd r"
    unfolding u by (auto elim!: rbind_eq_InrE)
  have m: "k \<in> set unvisited" "\<forall>j \<in> set unvisited. \<forall>y. cell_at ds i j = Inr y \<longrightarrow> cell_less y x \<noteq> Inr True"
    using nearest_scan_minimum [OF c(2,1)] k(1) unfolding u by auto
  have "tsp_loop ds us n k (remove1 k unvisited) d1 t1 = Inr (fst r, d', t')" using r(1,3) by simp
  from Suc.IH [OF this] m(1) Suc.prems(2)
  have ih: "mset (fst r) = mset (remove1 k unvisited)" "greedy_tour ds k (fst r)" "tour_sum ds k (fst r) d1 = Inr d'" "tour_sum us k (fst r) t1 = Inr t'"
    by (simp_all add: length_remove1)
  have "set (fst r) \<subseteq> set unvisited" using mset_eq_setD [OF ih(1)] set_remove1_subset by fastforce
  moreover have "\<exists>y. cell_at ds i j = Inr y" if "j \<in> set unvisited" for j
    using that nearest_scan_cells [OF c(2)] c(1) unfolding u by auto
  ultimately have "list_all (\<lambda>j. case cell_at ds i j of Inr y \<Rightarrow> cell_less y x \<noteq> Inr True | Inl e \<Rightarrow> False) (fst r)"
    using m(2) by (fastforce simp: list_all_iff)
  with ih k m(1) show ?case by (simp add: r(2))
qed simp

lemma tsp_loop_returns:
  assumes "\<And>i j. i < N \<Longrightarrow> j < N \<Longrightarrow> \<exists>x. cell_at ds i j = Inr x \<and> x \<noteq> Null" "\<And>i j. i < N \<Longrightarrow> j < N \<Longrightarrow> \<exists>x. cell_at us i j = Inr x \<and> x \<noteq> Null"
    "i < N" "set unvisited \<subseteq> {..<N}" "d \<noteq> Null" "t \<noteq> Null"
  shows "\<exists>r. tsp_loop ds us n i unvisited d t = Inr r"
  using assms(3-)
proof (induction n arbitrary: i unvisited d t)
  case (Suc n)
  have less: "\<exists>b. cell_less x y = Inr b" if "x \<noteq> Null" "y \<noteq> Null" for x y using that by (cases x; cases y) auto
  have add: "\<exists>z. cell_add x y = Inr z \<and> z \<noteq> Null" if "x \<noteq> Null" "y \<noteq> Null" for x y using that by (cases x; cases y) auto
  have scan: "\<exists>k. nearest_scan ds i js (b, c) = Inr k" if "set js \<subseteq> {..<N}" "c \<noteq> Null" for js b c
    using that
  proof (induction js arbitrary: b c)
    case (Cons j js)
    obtain y where y: "cell_at ds i j = Inr y" "y \<noteq> Null" using assms(1) [OF Suc.prems(1), of j] Cons.prems(1) by auto
    obtain l where "cell_less y c = Inr l" using less [OF y(2) Cons.prems(2)] by blast
    with y Cons show ?case by (cases l) auto
  qed simp
  show ?case
  proof (cases unvisited)
    case (Cons j js)
    obtain c where c: "cell_at ds i j = Inr c" "c \<noteq> Null" using assms(1) [OF Suc.prems(1), of j] Suc.prems(2) Cons by auto
    obtain k where k: "nearest_scan ds i js (j, c) = Inr k" using scan [of js c j] Suc.prems(2) c(2) Cons by auto
    have kN: "k < N" using nearest_scan_minimum [OF k c(1)] Suc.prems(2) Cons by auto
    obtain x y where x: "cell_at ds i k = Inr x" "x \<noteq> Null" and y: "cell_at us i k = Inr y" "y \<noteq> Null"
      using assms(1,2) [OF Suc.prems(1) kN] by blast
    obtain d1 t1 where d: "cell_add d x = Inr d1" "d1 \<noteq> Null" "cell_add t y = Inr t1" "t1 \<noteq> Null"
      using add [OF Suc.prems(3) x(2)] add [OF Suc.prems(4) y(2)] by blast
    have "set (remove1 k unvisited) \<subseteq> {..<N}" using Suc.prems(2) set_remove1_subset by fastforce
    from Suc.IH [OF kN this d(2,4)] obtain r where "tsp_loop ds us n k (remove1 k unvisited) d1 t1 = Inr r" by blast
    with c k x y d show ?thesis by (simp add: Cons)
  qed simp
qed simp

subsection \<open>Properties\<close>

text \<open>
  the store's key puts the points in order, so a session with the points of an earlier one in another order gets the earlier matrix, with its
  rows and columns in the earlier order, for as long as the entry lives.
\<close>

theorem reordered_sessions_share_the_matrix:
  assumes "working_store r" "oc_client (ig_cache st) = Some r"
    and "rmap_list poi_coord (rs_places session) = Inr cs" "rmap_list poi_coord (rs_places session') = Inr cs'"
    and "mset cs = mset cs'" "rs_main session' = rs_main session"
    and "calculate_matrix_with_fallback env mode cs = Some t"
    and "get_od_matrix (re_now env) (ig_cache st) cs mode (Some (rs_main session)) (ig_store st) = None"
    and "re_now env' < re_now env + re_took env + real_of_int (oc_default_ttl (ig_cache st))"
  shows "\<exists>a st' a' st''. calculate_od_matrix_hybrid env session mode st = (Inr a, st') \<and> tb_distances (oa_table a) = tb_distances t \<and>
    calculate_od_matrix_hybrid env' session' mode st' = (Inr a', st'') \<and> tb_distances (oa_table a') = tb_distances t"
proof -
  define c where "c = ig_cache st"
  define m where "m = rs_main session"
  have healthy: "redis_health_check c s" for s using assms(1,2) by (simp add: redis_health_check_def working_store_def c_def)
  obtain u s' where u: "get_or_calculate_matrix (re_now env) (re_took env) c cs mode (Some m) (calculate_matrix_with_fallback env mode) False (ig_store st) = (Some u, s')"
    "tb_distances u = tb_distances t" "s' = snd (set_od_matrix (re_now env + re_took env) c cs mode u (Some m) None (ig_store st))"
    using assms(7,8) by (simp add: get_or_calculate_matrix_def Let_def c_def m_def)
  obtain a st' where a: "calculate_od_matrix_hybrid env session mode st = (Inr a, st')" "tb_distances (oa_table a) = tb_distances u"
    "ig_store st' = s'" "ig_cache st' = c"
    using hybrid_by_store [OF assms(3) healthy [unfolded c_def] u(1) [unfolded c_def m_def]] by (auto simp: c_def)
  obtain v where v: "get_od_matrix (re_now env') c cs' mode (Some m) s' = Some v" "tb_distances v = tb_distances u"
    using store_answers [OF assms(1,2) assms(9) assms(5), of mode "Some m" u "ig_store st"] unfolding u(3) c_def by simp
  have "get_or_calculate_matrix (re_now env') (re_took env') (ig_cache st') cs' mode (Some (rs_main session')) (calculate_matrix_with_fallback env' mode) False (ig_store st')
    = (Some v, s')"
    using v(1) by (simp add: get_or_calculate_matrix_def a(3,4) assms(6) m_def)
  from hybrid_by_store [OF assms(4) _ this] healthy a(4)
  obtain a' st'' where "calculate_od_matrix_hybrid env' session' mode st' = (Inr a', st'')" "tb_distances (oa_table a') = tb_distances v" by auto
  then show ?thesis using a(1,2) u(2) v(2) by auto
qed

text \<open>A store that keeps the last entry of a key with the end of its life.\<close>

definition list_store :: "(od_key \<times> od_table \<times> real) list redis" where
  "list_store =
     \<lparr>rd_ping = \<lambda>s. Inr True,
      rd_get = \<lambda>now k s. Inr (case map_of s k of Some (t, e) \<Rightarrow> if now < e then Some t else None | None \<Rightarrow> None),
      rd_setex = \<lambda>now k life t s. (Inr True, (k, t, now + real_of_int life) # s),
      rd_cluster_keys = \<lambda>c s. Inr (filter (\<lambda>k. fst (snd k) = c) (map fst s)), rd_keys = \<lambda>s. Inr (map fst s),
      rd_delete = \<lambda>ks s. (Inr (length ks), filter (\<lambda>e. fst e \<notin> set ks) s), rd_ttl = \<lambda>now k s. Inr 0, rd_info = \<lambda>s. Inr (VDict [])\<rparr>"

lemma list_store_works: "working_store list_store"
  by (simp add: working_store_def list_store_def)

definition silent_server :: osrm_server where
  "silent_server = \<lparr>os_health = Inl ConnectionError, os_table = \<lambda>cs. Inl ConnectionError, os_query_s = 0\<rparr>"

text \<open>A graph that knows the way from latitude 1 to latitude 2 only.\<close>

definition one_way_env :: "real \<Rightarrow> routing_env" where
  "one_way_env now =
     \<lparr>re_car = silent_server, re_foot = silent_server,
      re_graph = Some (\<lambda>p q. if fst p = 1 \<and> fst q = 2 then Inr (VDict [(''success'', VBool True), (''distance_km'', VInt 7)]) else Inr VNone),
      re_graph_s = 0, re_now = now, re_took = 1\<rparr>"

definition session_through :: "pydict list \<Rightarrow> routing_session" where
  "session_through ps =
     \<lparr>rs_id = ''s'', rs_main = ''c'', rs_clusters = [''c''], rs_places = ps, rs_bbox = \<lparr>bb_north = 2, bb_south = 1, bb_east = 0, bb_west = 0\<rparr>, rs_area = 0\<rparr>"

definition idle_integrator :: "(od_key \<times> od_table \<times> real) list integrator" where
  "idle_integrator = \<lparr>ig_cache = \<lparr>oc_client = Some list_store, oc_default_ttl = 3600\<rparr>, ig_store = [], ig_memory = [], ig_ttl = 3600\<rparr>"

lemma one_way_table:
  "\<exists>t. calculate_matrix_with_fallback (one_way_env now) mode [(1, 0), (2, 0)] = Some t \<and> tb_distances t = [[Num 0, Num 7000], [Infinite, Num 0]]"
  by (simp add: calculate_matrix_with_fallback_def server_for_def one_way_env_def osrm_health_check_def silent_server_def
    calculate_city2graph_matrix_def new_table_def square_of_def graph_cell_def graph_km_def dindex_def Let_def upt_rec)

theorem reordered_sessions_share_the_matrix_witness:
  "\<exists>a st' a' st''. calculate_od_matrix_hybrid (one_way_env 0) (session_through [point_at 1, point_at 2]) ''car'' idle_integrator = (Inr a, st') \<and>
    calculate_od_matrix_hybrid (one_way_env 60) (session_through [point_at 2, point_at 1]) ''car'' st' = (Inr a', st'') \<and>
    tb_distances (oa_table a') = [[Num 0, Num 7000], [Infinite, Num 0]]"
proof -
  obtain t where t: "calculate_matrix_with_fallback (one_way_env 0) ''car'' [(1, 0), (2, 0)] = Some t" "tb_distances t = [[Num 0, Num 7000], [Infinite, Num 0]]"
    using one_way_table by blast
  have c: "rmap_list poi_coord (rs_places (session_through [point_at 1, point_at 2])) = Inr [(1, 0), (2, 0)]"
    "rmap_list poi_coord (rs_places (session_through [point_at 2, point_at 1])) = Inr [(2, 0), (1, 0)]"
    by (simp_all add: session_through_def point_at_def poi_coord_def pnum_def dindex_def)
  have s: "oc_client (ig_cache idle_integrator) = Some list_store" by (simp add: idle_integrator_def)
  have e: "get_od_matrix (re_now (one_way_env 0)) (ig_cache idle_integrator) [(1, 0), (2, 0)] ''car''
      (Some (rs_main (session_through [point_at 1, point_at 2]))) (ig_store idle_integrator) = None"
    by (simp add: get_od_matrix_def idle_integrator_def list_store_def Let_def)
  show ?thesis
    using reordered_sessions_share_the_matrix [OF list_store_works s c _ _ t(1) e, of "one_way_env 60"] t(2)
    by (auto simp: session_through_def one_way_env_def idle_integrator_def)
qed

text \<open>
  without the store, two requests with as many places in the same cells have the same session name, so the second gets the answer of the first,
  whatever its coordinates are, for as long as the memory lives.
\<close>

theorem sessions_of_the_same_cells_share_the_memory:
  assumes "cluster_pois_auto h pois = Inr session" "cluster_pois_auto h pois' = Inr session'"
    and "length pois' = length pois" "group_by_cell (hx_cell h) pois [] = Inr g" "group_by_cell (hx_cell h) pois' [] = Inr g'"
    and "set (keys g') = set (keys g)"
    and "\<not> redis_health_check (ig_cache st) (ig_store st)" "calculate_od_matrix_hybrid env session mode st = (Inr a, st')"
    and "fresh_memory (re_now env) session mode st = None" "re_now env' - (re_now env + re_took env) < ig_ttl st"
  shows "calculate_od_matrix_hybrid env' session' mode st' = (Inr a, st')"
proof -
  have name: "rs_id s = session_name h (length ps) (keys gs) \<and> rs_places s = ps \<and> (\<exists>cs. rmap_list poi_coord ps = Inr cs)"
    if "cluster_pois_auto h ps = Inr s" "group_by_cell (hx_cell h) ps [] = Inr gs" for ps s gs
    using that by (auto simp: cluster_pois_auto_def Let_def elim!: rbind_eq_InrE split: if_splits)
  from name [OF assms(1,4)] name [OF assms(2,5)] assms(3,6)
  have id: "rs_id session' = rs_id session" and cs: "\<exists>cs. rmap_list poi_coord (rs_places session') = Inr cs" "\<exists>cs. rmap_list poi_coord (rs_places session) = Inr cs"
    by (auto simp: session_name_def)
  from assms(7,8,9) cs(2) obtain t where t: "enrich (re_now env + re_took env) session mode ''MEMORY_FALLBACK'' t st = (a, st')"
    by (auto simp: calculate_od_matrix_hybrid_def split: option.splits prod.splits)
  then have st': "st' = st\<lparr>ig_memory := dset (memory_key session mode) (a, re_now env + re_took env) (ig_memory st)\<rparr>"
    by (auto simp: enrich_def Let_def)
  have "fresh_memory (re_now env') session' mode st' = Some a"
    using assms(10) by (simp add: fresh_memory_def st' memory_key_def id)
  then show ?thesis using cs(1) assms(7) by (auto simp: calculate_od_matrix_hybrid_def st')
qed

definition lonely_integrator :: "unit integrator" where
  "lonely_integrator = \<lparr>ig_cache = \<lparr>oc_client = None, oc_default_ttl = 3600\<rparr>, ig_store = (), ig_memory = [], ig_ttl = 3600\<rparr>"

definition one_cell_h3 :: h3_lib where
  "one_cell_h3 = santiago_h3\<lparr>hx_cell := \<lambda>c. Inr ''a''\<rparr>"

lemma one_cell_groups: "group_by_cell (hx_cell one_cell_h3) [point_at x, point_at y] [] = Inr [(''a'', [point_at x, point_at y])]"
  by (simp add: one_cell_h3_def point_at_def pnum_def dindex_def add_to_def)

lemma one_cell_session: "\<exists>s. cluster_pois_auto one_cell_h3 [point_at x, point_at y] = Inr s \<and> rs_places s = [point_at x, point_at y]"
  unfolding cluster_pois_auto_def one_cell_groups
  by (simp add: Let_def poi_coord_def point_at_def pnum_def dindex_def bounding_of_def)

theorem sessions_of_the_same_cells_share_the_memory_witness:
  "\<exists>s s' a st'. cluster_pois_auto one_cell_h3 [point_at 1, point_at 2] = Inr s \<and> cluster_pois_auto one_cell_h3 [point_at 5, point_at 6] = Inr s' \<and>
    calculate_od_matrix_hybrid (one_way_env 0) s ''car'' lonely_integrator = (Inr a, st') \<and>
    calculate_od_matrix_hybrid (one_way_env 60) s' ''car'' st' = (Inr a, st')"
proof -
  obtain s where s: "cluster_pois_auto one_cell_h3 [point_at 1, point_at 2] = Inr s" "rs_places s = [point_at 1, point_at 2]" using one_cell_session by blast
  obtain s' where s': "cluster_pois_auto one_cell_h3 [point_at 5, point_at 6] = Inr s'" using one_cell_session by blast
  obtain t where t: "calculate_matrix_with_fallback (one_way_env 0) ''car'' [(1, 0), (2, 0)] = Some t" using one_way_table by blast
  have c: "rmap_list poi_coord (rs_places s) = Inr [(1, 0), (2, 0)]" by (simp add: s(2) point_at_def poi_coord_def pnum_def dindex_def)
  have h: "\<not> redis_health_check (ig_cache lonely_integrator) (ig_store lonely_integrator)" by (simp add: redis_health_check_def lonely_integrator_def)
  have f: "fresh_memory n s m lonely_integrator = None" for n m by (simp add: fresh_memory_def lonely_integrator_def)
  obtain a st' where e: "enrich (re_now (one_way_env 0) + re_took (one_way_env 0)) s ''car'' ''MEMORY_FALLBACK'' t lonely_integrator = (a, st')" by fastforce
  have a: "calculate_od_matrix_hybrid (one_way_env 0) s ''car'' lonely_integrator = (Inr a, st')"
    using c h f t e by (simp add: calculate_od_matrix_hybrid_def)
  have "calculate_od_matrix_hybrid (one_way_env 60) s' ''car'' st' = (Inr a, st')"
    by (rule sessions_of_the_same_cells_share_the_memory [OF s(1) s' _ one_cell_groups one_cell_groups _ h a f])
      (simp_all add: one_way_env_def lonely_integrator_def)
  with s(1) s' a show ?thesis by blast
qed

text \<open>
  the basic route starts at the first place, visits every place exactly once and always goes on to a place none of the remaining ones is nearer
  than; its distance is the sum of its legs, or zero as soon as one leg is infinite.
\<close>

theorem basic_route_is_a_greedy_tour:
  assumes "optimize_tsp_basic t = Inr r" "2 \<le> length (tb_distances t)"
  shows "\<exists>route c. bt_route r = 0 # route \<and> mset (bt_route r) = mset [0..<length (tb_distances t)] \<and> greedy_tour (tb_distances t) 0 route \<and>
    tour_sum (tb_distances t) 0 route (Num 0) = Inr c \<and> bt_distance r = (case c of Num x \<Rightarrow> x | _ \<Rightarrow> 0)"
proof -
  let ?n = "length (tb_distances t)"
  from assms obtain route d u where l: "tsp_loop (tb_distances t) (tb_durations t) (?n - 1) 0 [1..<?n] (Num 0) (Num 0) = Inr (route, d, u)"
    and r: "bt_route r = 0 # route" "bt_distance r = clean_cell d"
    by (auto simp: optimize_tsp_basic_def Let_def elim!: rbind_eq_InrE)
  from tsp_loop_tour [OF l] have k: "mset route = mset [1..<?n]" "greedy_tour (tb_distances t) 0 route" "tour_sum (tb_distances t) 0 route (Num 0) = Inr d"
    by simp_all
  have "[0..<?n] = 0 # [1..<?n]" unfolding One_nat_def using assms(2) by (intro upt_conv_Cons) linarith
  then have "mset (0 # route) = mset [0..<?n]" by (simp only: mset.simps k(1))
  moreover have "clean_cell d = (case d of Num x \<Rightarrow> x | _ \<Rightarrow> 0)" by (cases d) simp_all
  ultimately show ?thesis using r k by auto
qed

theorem basic_route_is_a_greedy_tour_witness:
  "\<exists>t r. calculate_matrix_with_fallback (one_way_env 0) ''car'' [(2, 0), (1, 0)] = Some t \<and> optimize_tsp_basic t = Inr r \<and>
    bt_route r = [0, 1] \<and> bt_distance r = 0"
proof -
  define t where "t = (calculate_city2graph_matrix 0 (the (re_graph (one_way_env 0))) [(2, 0), (1, 0)])\<lparr>tb_strategy := Some ''CITY2GRAPH_FALLBACK''\<rparr>"
  have t: "calculate_matrix_with_fallback (one_way_env 0) ''car'' [(2, 0), (1, 0)] = Some t"
    by (simp add: calculate_matrix_with_fallback_def server_for_def one_way_env_def osrm_health_check_def silent_server_def t_def Let_def)
  have d: "tb_distances t = [[Num 0, Infinite], [Num 7000, Num 0]]" "\<exists>x. tb_durations t = [[Num 0, Infinite], [x, Num 0]]"
    by (simp_all add: t_def one_way_env_def calculate_city2graph_matrix_def new_table_def square_of_def graph_cell_def graph_km_def dindex_def Let_def upt_rec)
  then obtain r where r: "optimize_tsp_basic t = Inr r" "bt_route r = [0, 1]"
    by (auto simp: optimize_tsp_basic_def Let_def cell_at_def lookup2_def upt_rec)
  from basic_route_is_a_greedy_tour [OF r(1)] d(1) r(2) have "bt_distance r = 0"
    by (auto simp: cell_at_def lookup2_def)
  with t r show ?thesis by blast
qed

text \<open>
  with a graph, without the store and without a server, a request whose places have cells is always answered with a route, whatever the solver
  answers, failures included, as long as the reading of its solution ends.
\<close>

theorem graph_always_gives_a_route:
  assumes "pois \<noteq> []" "group_by_cell (hx_cell h) pois [] = Inr groups" "re_graph env = Some graph"
    and "\<not> osrm_health_check (server_for env mode)" "\<not> redis_health_check (ig_cache st) (ig_store st)" "ig_memory st = []"
    and "\<And>t. solver_answer solver strange pois t \<noteq> None"
  shows "\<exists>p st'. optimize_itinerary_professional h env solver strange pois mode st = (Some (Inr p), st') \<and> pi_processed p = length pois \<and>
    pi_strategy p = Some ''MEMORY_FALLBACK''"
proof -
  obtain session where s: "cluster_pois_auto h pois = Inr session" "rs_places session = pois"
    using session_exists [OF assms(1,2)] by blast
  obtain cs where cs: "rmap_list poi_coord pois = Inr cs" using group_by_cell_coords [OF assms(2)] by blast
  have an: "analyze_routing_request h pois = Inr session" by (simp add: analyze_routing_request_def s(1) detect_cities_from_pois_def assms(2) Let_def)
  define t where "t = (calculate_city2graph_matrix (re_graph_s env) graph cs)\<lparr>tb_strategy := Some ''CITY2GRAPH_FALLBACK''\<rparr>"
  have t: "calculate_matrix_with_fallback env mode cs = Some t" using assms(3,4) by (simp add: calculate_matrix_with_fallback_def t_def Let_def)
  obtain a st' where e: "enrich (re_now env + re_took env) session mode ''MEMORY_FALLBACK'' t st = (a, st')" by fastforce
  have m: "calculate_od_matrix_hybrid env session mode st = (Inr a, st')"
    using cs s(2) assms(5,6) t e by (simp add: calculate_od_matrix_hybrid_def fresh_memory_def)
  have a: "tb_distances (oa_table a) = tb_distances t" "tb_durations (oa_table a) = tb_durations t" "tb_strategy (oa_table a) = Some ''MEMORY_FALLBACK''"
    using e by (auto simp: enrich_def Let_def)
  let ?N = "length cs"
  have cell: "\<exists>x. cell_at (square_of ?N (graph_cell f graph cs)) i j = Inr x \<and> x \<noteq> Null" if "i < ?N" "j < ?N" for f i j
    using that by (simp add: cell_at_def lookup2_def square_of_def graph_cell_def split: option.splits)
  have N: "0 < ?N" using assms(1) rmap_list_length [OF cs] by simp
  have ta: "tb_distances t = square_of ?N (graph_cell (\<lambda>km. km * 1000) graph cs)" "tb_durations t = square_of ?N (graph_cell (\<lambda>km. km / 50 * 3600) graph cs)"
    by (simp_all add: t_def calculate_city2graph_matrix_def Let_def new_table_def)
  have len: "length (tb_distances t) = ?N" by (simp add: ta square_of_def)
  have "\<exists>x. tsp_loop (tb_distances t) (tb_durations t) (?N - 1) 0 [1..<?N] (Num 0) (Num 0) = Inr x"
    unfolding ta by (rule tsp_loop_returns [where N = ?N]) (use cell N in auto)
  then have basic: "\<exists>b. optimize_tsp_basic (oa_table a) = Inr b"
    by (auto simp: optimize_tsp_basic_def a len Let_def)
  obtain x where x: "solver_answer solver strange pois (oa_table a) = Some x" using assms(7) by blast
  have "\<exists>route. optimize_tsp_professional solver strange pois (oa_table a) = Some (Inr route)"
    using basic x by (cases x) (auto simp: optimize_tsp_professional_def)
  then show ?thesis using an m a(3)
    by (auto simp: optimize_itinerary_professional_def detect_cities_from_pois_def assms(2) Let_def)
qed

theorem graph_always_gives_a_route_witness:
  "\<exists>p st'. optimize_itinerary_professional one_cell_h3 (one_way_env 0) (\<lambda>p. Inl TimeoutError) (Inl TimeoutError) [point_at 1, point_at 2] ''car'' lonely_integrator
    = (Some (Inr p), st') \<and> pi_processed p = 2"
proof -
  have h: "\<not> redis_health_check (ig_cache lonely_integrator) (ig_store lonely_integrator)" by (simp add: redis_health_check_def lonely_integrator_def)
  have o: "\<not> osrm_health_check (server_for (one_way_env 0) ''car'')" by (simp add: server_for_def one_way_env_def osrm_health_check_def silent_server_def)
  have s: "solver_answer (\<lambda>p. Inl TimeoutError) (Inl TimeoutError) [point_at 1, point_at 2] t \<noteq> None" for t
    by (auto simp: solver_answer_def optimize_itinerary_advanced_def solve_tsp_basic_def solve_vrptw_def rbind_eq_Inr_iff split: option.splits sum.splits prod.splits)
  have g: "re_graph (one_way_env 0) = Some (the (re_graph (one_way_env 0)))" by (simp add: one_way_env_def)
  show ?thesis
    using graph_always_gives_a_route [OF _ one_cell_groups g o h _ s] by (auto simp: lonely_integrator_def)
qed

end
