(* ===== verification/Multimodal.thy ===== *)
theory Multimodal
  imports Clusters
begin

section \<open>Routes by mode of transport\<close>

text \<open>
  src/services/chile\_multimodal\_router.py and the endpoints of src/api.py over it: a router with one graph file for each
  mode, loaded when first needed, its counts of use, and the HTTP answers (\<open>Inl\<close> of a status is an
  \<open>HTTPException\<close>).  The files, the size of an object in memory and the clock are parameters; \<open>VNone\<close> is \<open>None\<close>.
  The locks order the steps of the threads, so the operations are taken one after the other.
\<close>

subsection \<open>State\<close>

record mode_state =
  ms_loaded :: bool
  ms_memory :: "pyval option" \<comment> \<open>the entry of the mode in the memory cache\<close>
  ms_requests :: nat
  ms_hits :: nat

type_synonym mm_router = "(string, mode_state) dict"

definition mode_speeds :: "(string \<times> real) list" where
  "mode_speeds = [(''drive'', 50), (''walk'', 5), (''bike'', 15)]"

definition cache_files :: "(string \<times> string) list" where
  "cache_files =
     [(''drive'', ''chile_graph_cache.pkl''), (''walk'', ''santiago_metro_walking_cache.pkl''), (''bike'', ''santiago_metro_cycling_cache.pkl'')]"

definition unused_mode :: mode_state where
  "unused_mode = \<lparr>ms_loaded = False, ms_memory = None, ms_requests = 0, ms_hits = 0\<rparr>"

definition new_mm_router :: mm_router where
  "new_mm_router = map (\<lambda>m. (m, unused_mode)) [''drive'', ''walk'', ''bike'']"

text \<open>A file, when it exists: its size in MB and its content or the exception of reading it.\<close>

record mm_env =
  me_file :: "string \<Rightarrow> (real \<times> pyval res) option"
  me_sizeof :: "pyval \<Rightarrow> real"
  me_seconds :: real

subsection \<open>Loading and clearing\<close>

definition count_hit :: "mode_state \<Rightarrow> mode_state" where
  "count_hit m = m\<lparr>ms_hits := ms_hits m + 1\<rparr>"

definition or_none :: "pyval option \<Rightarrow> pyval" where
  "or_none v = (case v of Some x \<Rightarrow> x | None \<Rightarrow> VNone)"

definition load_cache_for_mode :: "mm_env \<Rightarrow> string \<Rightarrow> mm_router \<Rightarrow> pyval \<times> mm_router" where
  "load_cache_for_mode env mode st =
     (case (map_of cache_files mode, map_of st mode) of
        (Some file, Some m) \<Rightarrow>
          if ms_loaded m then (or_none (ms_memory m), dset mode (count_hit m) st)
          else
            (case me_file env file of
               Some (mb, Inr content) \<Rightarrow> (content, dset mode (m\<lparr>ms_memory := Some content, ms_loaded := True\<rparr>) st)
             | _ \<Rightarrow> (VNone, st))
      | _ \<Rightarrow> (VNone, st))"

definition mm_preload :: "mm_env \<Rightarrow> string \<Rightarrow> mm_router \<Rightarrow> bool \<times> mm_router" where
  "mm_preload env mode st = (case load_cache_for_mode env mode st of (v, st') \<Rightarrow> (v \<noteq> VNone, st'))"

definition preload_all_caches :: "mm_env \<Rightarrow> mm_router \<Rightarrow> (string \<times> bool) list \<times> mm_router" where
  "preload_all_caches env st =
     fold (\<lambda>mode (rs, s). case mm_preload env mode s of (b, s') \<Rightarrow> (rs @ [(mode, b)], s')) (map fst cache_files) ([], st)"

definition unload :: "mode_state \<Rightarrow> mode_state" where
  "unload m = m\<lparr>ms_memory := None, ms_loaded := False\<rparr>"

definition clear_memory_cache :: "string option \<Rightarrow> mm_router \<Rightarrow> mm_router" where
  "clear_memory_cache mode st =
     (case mode of
        Some m \<Rightarrow>
          if m \<noteq> []
          then (case map_of st m of Some s \<Rightarrow> if ms_memory s \<noteq> None then dset m (unload s) st else st | None \<Rightarrow> st)
          else map (\<lambda>(k, s). (k, unload s)) st
      | None \<Rightarrow> map (\<lambda>(k, s). (k, unload s)) st)"

subsection \<open>Routes\<close>

record mm_route =
  mr_mode :: string
  mr_km :: real
  mr_minutes :: real
  mr_path :: "coord list"
  mr_source :: string
  mr_cached :: bool
  mr_ms :: "real option"

definition flat_km :: "coord \<Rightarrow> coord \<Rightarrow> real" where
  "flat_km p q = sqrt ((fst q - fst p)\<^sup>2 + (snd q - snd p)\<^sup>2) * 111"

definition calculate_simple_route :: "coord \<Rightarrow> coord \<Rightarrow> string \<Rightarrow> real \<Rightarrow> mm_route" where
  "calculate_simple_route p q mode speed =
     (let km = flat_km p q
      in \<lparr>mr_mode = mode, mr_km = py_round 2 km, mr_minutes = py_round 1 (km / speed * 60), mr_path = [p, q], mr_source = ''simple_calculation'',
          mr_cached = False, mr_ms = None\<rparr>)"

definition cached_calculation :: "real \<Rightarrow> coord \<Rightarrow> coord \<Rightarrow> string \<Rightarrow> real \<Rightarrow> mm_route" where
  "cached_calculation seconds p q mode speed =
     (let km = flat_km p q
      in \<lparr>mr_mode = mode, mr_km = py_round 2 km, mr_minutes = py_round 1 (km / speed * 60), mr_path = [p, q], mr_source = ''cached_calculation'',
          mr_cached = True, mr_ms = Some (py_round 2 (seconds * 1000))\<rparr>)"

text \<open>A mode without counts raises \<open>KeyError\<close>, which the method catches.\<close>

definition mm_get_route :: "mm_env \<Rightarrow> coord \<Rightarrow> coord \<Rightarrow> string \<Rightarrow> mm_router \<Rightarrow> mm_route option \<times> mm_router" where
  "mm_get_route env p q mode st =
     (case map_of st mode of
        None \<Rightarrow> (None, st)
      | Some m \<Rightarrow>
          let st1 = dset mode (m\<lparr>ms_requests := ms_requests m + 1\<rparr>) st
          in case map_of mode_speeds mode of
               None \<Rightarrow> (None, st1)
             | Some v \<Rightarrow>
                 (case load_cache_for_mode env mode st1 of
                    (data, st2) \<Rightarrow>
                      (Some (if data = VNone then calculate_simple_route p q mode v else cached_calculation (me_seconds env) p q mode v), st2)))"

definition calculate_multimodal_routes :: "mm_env \<Rightarrow> coord \<Rightarrow> coord \<Rightarrow> mm_router \<Rightarrow> (string \<times> mm_route option) list \<times> mm_router" where
  "calculate_multimodal_routes env p q st =
     fold (\<lambda>mode (rs, s). case mm_get_route env p q mode s of (r, s') \<Rightarrow> (rs @ [(mode, r)], s')) (map fst mode_speeds) ([], st)"

subsection \<open>Figures\<close>

definition hit_ratio :: "nat \<Rightarrow> nat \<Rightarrow> real" where
  "hit_ratio hits requests = (if 0 < requests then real hits / real requests else 0)"

record mode_status =
  st_exists :: bool
  st_size :: real
  st_loaded :: bool
  st_requests :: nat
  st_hits :: nat
  st_ratio :: real

definition get_cache_status :: "mm_env \<Rightarrow> mm_router \<Rightarrow> (string \<times> mode_status) list" where
  "get_cache_status env st =
     map (\<lambda>(mode, file). (mode,
       let m = the (map_of st mode)
       in \<lparr>st_exists = (me_file env file \<noteq> None), st_size = (case me_file env file of Some (mb, c) \<Rightarrow> mb | None \<Rightarrow> 0),
           st_loaded = ms_loaded m, st_requests = ms_requests m, st_hits = ms_hits m, st_ratio = hit_ratio (ms_hits m) (ms_requests m)\<rparr>))
     cache_files"

definition mode_mb :: "mm_env \<Rightarrow> mode_state \<Rightarrow> real" where
  "mode_mb env m = (case ms_memory m of Some v \<Rightarrow> if ms_loaded m then me_sizeof env v else 0 | None \<Rightarrow> 0)"

definition get_memory_usage :: "mm_env \<Rightarrow> mm_router \<Rightarrow> (string \<times> bool \<times> real) list \<times> real" where
  "get_memory_usage env st =
     (map (\<lambda>(k, m). (k, ms_loaded m \<and> ms_memory m \<noteq> None, mode_mb env m)) st, sum_list (map (\<lambda>(k, m). mode_mb env m) st))"

record mm_summary =
  sm_requests :: nat
  sm_hits :: nat
  sm_loaded :: nat
  sm_ratio :: real

definition performance_summary :: "mm_router \<Rightarrow> mm_summary" where
  "performance_summary st =
     (let r = sum_list (map (ms_requests \<circ> snd) st); h = sum_list (map (ms_hits \<circ> snd) st)
      in \<lparr>sm_requests = r, sm_hits = h, sm_loaded = length (filter (ms_loaded \<circ> snd) st), sm_ratio = hit_ratio h r\<rparr>)"

definition mm_performance_stats ::
  "mm_env \<Rightarrow> mm_router \<Rightarrow> mm_router \<times> (string \<times> mode_status) list \<times> ((string \<times> bool \<times> real) list \<times> real) \<times> mm_summary" where
  "mm_performance_stats env st = (st, get_cache_status env st, get_memory_usage env st, performance_summary st)"

record mm_report =
  op_actions :: "string list" \<comment> \<open>the modes unloaded\<close>
  op_before :: real
  op_after :: real
  op_advice :: "(string \<times> nat) list"

definition little_used :: "mode_state \<Rightarrow> bool" where
  "little_used m \<longleftrightarrow> ms_requests m < 5 \<and> ms_loaded m \<and> hit_ratio (ms_hits m) (ms_requests m) < 1/2"

definition optimize_mode :: "string \<Rightarrow> (string list \<times> (string \<times> nat) list) \<times> mm_router \<Rightarrow> (string list \<times> (string \<times> nat) list) \<times> mm_router" where
  "optimize_mode mode = (\<lambda>((actions, advice), st).
     (case map_of st mode of
        None \<Rightarrow> ((actions, advice), st)
      | Some m \<Rightarrow>
          let st1 = (if little_used m then clear_memory_cache (Some mode) st else st);
              m1 = the (map_of st1 mode)
          in ((if little_used m then actions @ [mode] else actions,
               if 10 < ms_requests m \<and> \<not> ms_loaded m1 then advice @ [(mode, ms_requests m)] else advice), st1)))"

definition mm_optimize_memory :: "mm_env \<Rightarrow> mm_router \<Rightarrow> mm_report \<times> mm_router" where
  "mm_optimize_memory env st =
     (case fold optimize_mode (keys st) (([], []), st) of
        ((actions, advice), st') \<Rightarrow>
          (\<lparr>op_actions = actions, op_before = snd (get_memory_usage env st), op_after = snd (get_memory_usage env st'), op_advice = advice\<rparr>, st'))"

subsection \<open>The endpoints\<close>

datatype router_slot = Untried | Unavailable | Ready mm_router

type_synonym 'a http = "nat + 'a"

text \<open>\<open>ok\<close>: the router can be made.\<close>

definition get_chile_router :: "bool \<Rightarrow> router_slot \<Rightarrow> router_slot" where
  "get_chile_router ok slot = (case slot of Untried \<Rightarrow> if ok then Ready new_mm_router else Unavailable | _ \<Rightarrow> slot)"

definition route_fields :: "string list" where
  "route_fields = [''start_lat'', ''start_lon'', ''end_lat'', ''end_lon'']"

definition request_points :: "pydict \<Rightarrow> (coord \<times> coord) res" where
  "request_points request =
     rbind (rmap_list (\<lambda>k. rbind (dindex request k) py_float) route_fields) (\<lambda>xs.
     case xs of [a, b, c, d] \<Rightarrow> Inr ((a, b), (c, d)) | _ \<Rightarrow> Inl ValueError)"

definition route_endpoint :: "mm_env \<Rightarrow> bool \<Rightarrow> string \<Rightarrow> pydict \<Rightarrow> router_slot \<Rightarrow> (mm_route \<times> string) http \<times> router_slot" where
  "route_endpoint env ok mode request slot =
     (if \<not> list_all (has_key request) route_fields then (Inl 400, slot)
      else
        (case get_chile_router ok slot of
           Ready st \<Rightarrow>
             (case request_points request of
                Inl e \<Rightarrow> (Inl 500, Ready st)
              | Inr (p, q) \<Rightarrow>
                  (case mm_get_route env p q mode st of
                     (Some r, st') \<Rightarrow> (Inr (r, the (map_of cache_files mode)), Ready st')
                   | (None, st') \<Rightarrow> (Inl 404, Ready st')))
         | s \<Rightarrow> (Inl 503, s)))"

definition route_drive :: "mm_env \<Rightarrow> bool \<Rightarrow> pydict \<Rightarrow> router_slot \<Rightarrow> (mm_route \<times> string) http \<times> router_slot" where
  "route_drive env ok = route_endpoint env ok ''drive''"

definition route_walk :: "mm_env \<Rightarrow> bool \<Rightarrow> pydict \<Rightarrow> router_slot \<Rightarrow> (mm_route \<times> string) http \<times> router_slot" where
  "route_walk env ok = route_endpoint env ok ''walk''"

definition route_bike :: "mm_env \<Rightarrow> bool \<Rightarrow> pydict \<Rightarrow> router_slot \<Rightarrow> (mm_route \<times> string) http \<times> router_slot" where
  "route_bike env ok = route_endpoint env ok ''bike''"

text \<open>The first of the modes with the least value.\<close>

fun least_mode :: "(mm_route \<Rightarrow> real) \<Rightarrow> (string \<times> mm_route) list \<Rightarrow> string \<times> mm_route \<Rightarrow> string \<times> mm_route" where
  "least_mode f [] best = best"
| "least_mode f (x # xs) best = least_mode f xs (if f (snd x) < f (snd best) then x else best)"

definition recommended :: "(string \<times> mm_route) list \<Rightarrow> string" where
  "recommended routes =
     (let quick = \<lambda>mode limit. (case map_of routes mode of Some r \<Rightarrow> mr_minutes r \<le> limit | None \<Rightarrow> False)
      in if quick ''walk'' 15 then ''walk'' else if quick ''bike'' 30 then ''bike'' else ''drive'')"

record mm_comparison =
  cp_routes :: "(string \<times> mm_route) list"
  cp_fastest :: "string \<times> mm_route"
  cp_shortest :: "string \<times> mm_route"
  cp_recommended :: string
  cp_failed :: "string list"
  cp_attempted :: nat

definition route_compare :: "mm_env \<Rightarrow> bool \<Rightarrow> pydict \<Rightarrow> router_slot \<Rightarrow> mm_comparison http \<times> router_slot" where
  "route_compare env ok request slot =
     (if \<not> list_all (has_key request) route_fields then (Inl 400, slot)
      else
        (case get_chile_router ok slot of
           Ready st \<Rightarrow>
             (case request_points request of
                Inl e \<Rightarrow> (Inl 500, Ready st)
              | Inr (p, q) \<Rightarrow>
                  (case calculate_multimodal_routes env p q st of
                     (routes, st') \<Rightarrow>
                       let good = List.map_filter (\<lambda>(m, r). map_option (\<lambda>x. (m, x)) r) routes
                       in if good = [] then (Inl 404, Ready st')
                          else (Inr \<lparr>cp_routes = good, cp_fastest = least_mode mr_minutes (tl good) (hd good), cp_shortest = least_mode mr_km (tl good) (hd good),
                                 cp_recommended = recommended good, cp_failed = map fst (filter (\<lambda>(m, r). r = None) routes),
                                 cp_attempted = length routes\<rparr>, Ready st')))
         | s \<Rightarrow> (Inl 503, s)))"

definition mode_names :: "string list" where
  "mode_names = [''drive'', ''walk'', ''bike'']"

text \<open>The outcome of each mode that was loaded.\<close>

definition preload_endpoint :: "mm_env \<Rightarrow> bool \<Rightarrow> pyval \<Rightarrow> router_slot \<Rightarrow> (string \<times> bool) list http \<times> router_slot" where
  "preload_endpoint env ok mode slot =
     (case get_chile_router ok slot of
        Ready st \<Rightarrow>
          if \<not> truthy mode then (Inl 400, Ready st)
          else if mode = VStr ''all'' then (case preload_all_caches env st of (rs, st') \<Rightarrow> (Inr rs, Ready st'))
          else (case find (\<lambda>m. mode = VStr m) mode_names of
                  Some m \<Rightarrow> (case mm_preload env m st of (b, st') \<Rightarrow> (Inr [(m, b)], Ready st'))
                | None \<Rightarrow> (Inl 400, Ready st))
      | s \<Rightarrow> (Inl 503, s))"

text \<open>The memory freed, before and after.\<close>

definition clear_cache_endpoint :: "mm_env \<Rightarrow> bool \<Rightarrow> pyval \<Rightarrow> router_slot \<Rightarrow> (real \<times> real \<times> real) http \<times> router_slot" where
  "clear_cache_endpoint env ok mode slot =
     (case get_chile_router ok slot of
        Ready st \<Rightarrow>
          if \<not> truthy mode then (Inl 400, Ready st)
          else
            let before = snd (get_memory_usage env st);
                answer = \<lambda>st'. (Inr (py_round 2 (before - snd (get_memory_usage env st')), py_round 2 before, py_round 2 (snd (get_memory_usage env st'))), Ready st')
            in if mode = VStr ''all'' then answer (clear_memory_cache None st)
               else (case find (\<lambda>m. mode = VStr m) mode_names of
                       Some m \<Rightarrow> answer (clear_memory_cache (Some m) st)
                     | None \<Rightarrow> (Inl 400, Ready st))
      | s \<Rightarrow> (Inl 503, s))"

text \<open>Here the exception for a missing router is caught by the handler of all exceptions.\<close>

definition optimize_memory_endpoint :: "mm_env \<Rightarrow> bool \<Rightarrow> router_slot \<Rightarrow> mm_report http \<times> router_slot" where
  "optimize_memory_endpoint env ok slot =
     (case get_chile_router ok slot of
        Ready st \<Rightarrow> (case mm_optimize_memory env st of (r, st') \<Rightarrow> (Inr r, Ready st'))
      | s \<Rightarrow> (Inl 500, s))"

definition performance_endpoint ::
  "mm_env \<Rightarrow> bool \<Rightarrow> router_slot \<Rightarrow> (mm_router \<times> (string \<times> mode_status) list \<times> ((string \<times> bool \<times> real) list \<times> real) \<times> mm_summary) http \<times> router_slot" where
  "performance_endpoint env ok slot =
     (case get_chile_router ok slot of
        Ready st \<Rightarrow> (Inr (mm_performance_stats env st), Ready st)
      | s \<Rightarrow> (Inl 500, s))"

record mm_health =
  mh_status :: string
  mh_score :: real
  mh_available :: "string list"
  mh_in_memory :: nat
  mh_size :: real

definition health_grade :: "real \<Rightarrow> string" where
  "health_grade score = (if 90 \<le> score then ''excellent'' else if 75 \<le> score then ''good'' else if 50 \<le> score then ''degraded'' else ''critical'')"

definition multimodal_health_check :: "mm_env \<Rightarrow> bool \<Rightarrow> router_slot \<Rightarrow> mm_health option \<times> router_slot" where
  "multimodal_health_check env ok slot =
     (case get_chile_router ok slot of
        Ready st \<Rightarrow>
          let status = get_cache_status env st; s = performance_summary st;
              available = map fst (filter (\<lambda>(m, c). st_exists c) status);
              score = real (length available) / 3 * 50 + (if 0 < sm_requests s then sm_ratio s * 50 else 50)
          in (Some \<lparr>mh_status = health_grade score, mh_score = py_round 1 score, mh_available = available,
                mh_in_memory = length (filter (\<lambda>(m, c). st_loaded c) status),
                mh_size = py_round 2 (sum_list (map (\<lambda>(m, c). st_size c) (filter (\<lambda>(m, c). st_exists c) status)))\<rparr>, Ready st)
      | s \<Rightarrow> (None, s))"

subsection \<open>Lemmas\<close>

lemma round_half_even_mono: "x \<le> y \<Longrightarrow> round_half_even x \<le> round_half_even y"
proof -
  assume xy: "x \<le> y"
  have b: "\<lfloor>z\<rfloor> \<le> round_half_even z \<and> round_half_even z \<le> \<lfloor>z\<rfloor> + 1" for z :: real
    by (simp add: round_half_even_def Let_def)
  show ?thesis
  proof (cases "\<lfloor>x\<rfloor> = \<lfloor>y\<rfloor>")
    case True
    then show ?thesis using xy by (simp add: round_half_even_def Let_def)
  next
    case False
    with floor_mono [OF xy] have "\<lfloor>x\<rfloor> + 1 \<le> \<lfloor>y\<rfloor>" by linarith
    with b [of x] b [of y] show ?thesis by linarith
  qed
qed

lemma py_round_mono: "x \<le> y \<Longrightarrow> py_round n x \<le> py_round n y"
  unfolding py_round_def by (intro divide_right_mono) (simp_all add: round_half_even_mono mult_right_mono)

lemma flat_km_nonneg: "0 \<le> flat_km p q"
  by (simp add: flat_km_def)

text \<open>The modes of a router, each loaded exactly when it has an entry in memory.\<close>

definition mm_ok :: "mm_router \<Rightarrow> bool" where
  "mm_ok st \<longleftrightarrow> keys st = mode_names \<and> (\<forall>m \<in> set (map snd st). ms_loaded m \<longleftrightarrow> ms_memory m \<noteq> None)"

lemma mm_okE:
  assumes "mm_ok st"
  obtains a b c where "st = [(''drive'', a), (''walk'', b), (''bike'', c)]"
    "ms_loaded a \<longleftrightarrow> ms_memory a \<noteq> None" "ms_loaded b \<longleftrightarrow> ms_memory b \<noteq> None" "ms_loaded c \<longleftrightarrow> ms_memory c \<noteq> None"
proof -
  from assms have k: "map fst st = [''drive'', ''walk'', ''bike'']" by (simp add: mm_ok_def mode_names_def)
  then obtain a b c where "st = [(''drive'', a), (''walk'', b), (''bike'', c)]" by (auto simp: map_eq_Cons_conv)
  with assms show thesis using that by (simp add: mm_ok_def)
qed


lemma mm_ok_modes: "mm_ok st \<Longrightarrow> mode \<in> set mode_names \<longleftrightarrow> map_of st mode \<noteq> None"
proof -
  assume "mm_ok st"
  then have "set mode_names = fst ` set st" unfolding mm_ok_def by (metis set_map)
  then show ?thesis using map_of_eq_None_iff [of st mode] by simp
qed

lemma mm_ok_dset:
  assumes "mm_ok st" "mode \<in> set mode_names" "ms_loaded m \<longleftrightarrow> ms_memory m \<noteq> None"
  shows "mm_ok (dset mode m st)"
  using assms by (auto elim!: mm_okE simp: mm_ok_def mode_names_def)

lemma mm_ok_member: "mm_ok st \<Longrightarrow> map_of st mode = Some m \<Longrightarrow> mode \<in> set mode_names \<and> (ms_loaded m \<longleftrightarrow> ms_memory m \<noteq> None)"
proof
  assume a: "mm_ok st" "map_of st mode = Some m"
  then show "mode \<in> set mode_names" by (simp add: mm_ok_modes)
  have "m \<in> set (map snd st)" using map_of_SomeD [OF a(2)] by force
  then show "ms_loaded m \<longleftrightarrow> ms_memory m \<noteq> None" using a(1) unfolding mm_ok_def by blast
qed

text \<open>What is in memory is the content of the file of the mode.\<close>

definition from_files :: "mm_env \<Rightarrow> mm_router \<Rightarrow> bool" where
  "from_files env st \<longleftrightarrow>
     (\<forall>mode m v. map_of st mode = Some m \<and> ms_memory m = Some v \<longrightarrow>
        (\<exists>fl mb. map_of cache_files mode = Some fl \<and> me_file env fl = Some (mb, Inr v)))"

lemma from_files_dset:
  assumes "from_files env st"
    "\<And>v. ms_memory m = Some v \<Longrightarrow> \<exists>fl mb. map_of cache_files mode = Some fl \<and> me_file env fl = Some (mb, Inr v)"
  shows "from_files env (dset mode m st)"
  using assms by (auto simp: from_files_def)

lemma from_filesD: "from_files env st \<Longrightarrow> map_of st mode = Some m \<Longrightarrow> ms_memory m = Some v \<Longrightarrow>
  \<exists>fl mb. map_of cache_files mode = Some fl \<and> me_file env fl = Some (mb, Inr v)"
  by (auto simp: from_files_def)

lemma load_cases:
  assumes "mm_ok st" "load_cache_for_mode env mode st = (v, st')"
  obtains (missing) "v = VNone" "st' = st"
  | (hit) m where "map_of st mode = Some m" "ms_memory m = Some v" "st' = dset mode (count_hit m) st"
  | (loaded) m fl mb where "map_of st mode = Some m" "map_of cache_files mode = Some fl" "me_file env fl = Some (mb, Inr v)"
      "st' = dset mode (m\<lparr>ms_memory := Some v, ms_loaded := True\<rparr>) st"
proof (cases "map_of cache_files mode")
  case None
  then show ?thesis using assms(2) missing by (simp add: load_cache_for_mode_def)
next
  case (Some fl)
  then have "mode \<in> set mode_names" by (auto simp: cache_files_def mode_names_def split: if_splits)
  then obtain m where m: "map_of st mode = Some m" using mm_ok_modes [OF assms(1)] by auto
  show ?thesis
  proof (cases "ms_loaded m")
    case True
    then obtain w where "ms_memory m = Some w" using mm_ok_member [OF assms(1) m] by auto
    with True m Some assms(2) hit [OF m] show ?thesis by (simp add: load_cache_for_mode_def or_none_def)
  next
    case False
    show ?thesis
    proof (cases "me_file env fl")
      case None
      with False m Some assms(2) missing show ?thesis by (simp add: load_cache_for_mode_def)
    next
      case f: (Some x)
      obtain mb c where x: "x = (mb, c)" by (cases x)
      show ?thesis
      proof (cases c)
        case (Inl e)
        with f x False m Some assms(2) missing show ?thesis by (simp add: load_cache_for_mode_def)
      next
        case (Inr w)
        with f x False m Some have "load_cache_for_mode env mode st = (w, dset mode (m\<lparr>ms_memory := Some w, ms_loaded := True\<rparr>) st)"
          by (simp add: load_cache_for_mode_def)
        then have e: "w = v" "st' = dset mode (m\<lparr>ms_memory := Some w, ms_loaded := True\<rparr>) st" unfolding assms(2) by (metis Pair_inject)+
        show ?thesis by (rule loaded [OF m Some]) (use e f x Inr in auto)
      qed
    qed
  qed
qed

lemma load_keeps:
  assumes "mm_ok st" "from_files env st" "load_cache_for_mode env mode st = (v, st')"
  shows "mm_ok st' \<and> from_files env st'"
  using assms(1,3)
proof (cases rule: load_cases)
  case missing
  with assms show ?thesis by simp
next
  case (hit m)
  with mm_ok_member [OF assms(1) hit(1)] have "mm_ok st'" by (auto intro!: mm_ok_dset assms(1) simp: count_hit_def)
  moreover have "from_files env st'"
    unfolding hit(3) by (rule from_files_dset [OF assms(2)]) (rule from_filesD [OF assms(2) hit(1)], simp add: count_hit_def)
  ultimately show ?thesis by blast
next
  case (loaded m fl mb)
  with mm_ok_member [OF assms(1) loaded(1)] have "mm_ok st'" by (auto intro!: mm_ok_dset assms(1))
  moreover have "from_files env st'" unfolding loaded(4) by (rule from_files_dset [OF assms(2)]) (simp add: loaded(2,3))
  ultimately show ?thesis by blast
qed

lemma route_keeps:
  assumes "mm_ok st" "from_files env st"
  shows "mm_ok (snd (mm_get_route env p q mode st)) \<and> from_files env (snd (mm_get_route env p q mode st))"
proof (cases "map_of st mode")
  case None
  with assms show ?thesis by (simp add: mm_get_route_def)
next
  case (Some m)
  let ?m = "m\<lparr>ms_requests := ms_requests m + 1\<rparr>"
  have mode: "mode \<in> set mode_names" "ms_loaded m \<longleftrightarrow> ms_memory m \<noteq> None" using mm_ok_member [OF assms(1) Some] by simp_all
  have 1: "mm_ok (dset mode ?m st)" by (rule mm_ok_dset [OF assms(1) mode(1)]) (simp add: mode(2))
  have 2: "from_files env (dset mode ?m st)" by (rule from_files_dset [OF assms(2)]) (rule from_filesD [OF assms(2) Some], simp)
  obtain v st' where l: "load_cache_for_mode env mode (dset mode ?m st) = (v, st')" by fastforce
  from load_keeps [OF 1 2 l] 1 2 l show ?thesis by (simp add: mm_get_route_def Some Let_def split: option.split)
qed

lemma unload_keeps: "mm_ok st \<Longrightarrow> from_files env st \<Longrightarrow> mm_ok (clear_memory_cache mode st) \<and> from_files env (clear_memory_cache mode st)"
proof -
  assume a: "mm_ok st" "from_files env st"
  have all: "mm_ok (map (\<lambda>(k, s). (k, unload s)) st) \<and> from_files env (map (\<lambda>(k, s). (k, unload s)) st)"
    using a(1) by (auto simp: mm_ok_def from_files_def map_of_map unload_def comp_def case_prod_beta)
  have one: "mm_ok (dset m (unload s) st) \<and> from_files env (dset m (unload s) st)" if "map_of st m = Some s" for m s
    using mm_ok_dset [OF a(1), of m "unload s"] mm_ok_member [OF a(1) that] from_files_dset [OF a(2), of "unload s" m] by (simp add: unload_def)
  show ?thesis using a all one by (auto simp: clear_memory_cache_def split: option.split)
qed

lemma optimize_fold_keeps:
  "mm_ok st \<Longrightarrow> from_files env st \<Longrightarrow> mm_ok (snd (fold optimize_mode ms (acc, st))) \<and> from_files env (snd (fold optimize_mode ms (acc, st)))"
proof (induction ms arbitrary: acc st)
  case (Cons mode ms)
  obtain acc' st' where s: "optimize_mode mode (acc, st) = (acc', st')" by fastforce
  have "st' = st \<or> st' = clear_memory_cache (Some mode) st"
    using s by (cases acc) (auto simp: optimize_mode_def Let_def split: option.splits if_splits)
  then have "mm_ok st' \<and> from_files env st'" using Cons.prems unload_keeps by blast
  with Cons.IH [of st' acc'] s show ?case by simp
qed simp

subsection \<open>Properties\<close>

text \<open>The states a router of the program goes through.\<close>

inductive mm_reaches :: "mm_env \<Rightarrow> mm_router \<Rightarrow> bool" for env where
  mm_new: "mm_reaches env new_mm_router"
| mm_route: "mm_reaches env st \<Longrightarrow> mm_reaches env (snd (mm_get_route env p q mode st))"
| mm_load: "mm_reaches env st \<Longrightarrow> mm_reaches env (snd (mm_preload env mode st))"
| mm_clear: "mm_reaches env st \<Longrightarrow> mm_reaches env (clear_memory_cache mode st)"
| mm_optimize: "mm_reaches env st \<Longrightarrow> mm_reaches env (snd (mm_optimize_memory env st))"

lemma mm_invariant: "mm_reaches env st \<Longrightarrow> mm_ok st \<and> from_files env st"
proof (induction rule: mm_reaches.induct)
  case mm_new
  show ?case by (auto simp: mm_ok_def new_mm_router_def mode_names_def unused_mode_def from_files_def split: if_splits)
next
  case (mm_route st p q mode)
  then show ?case using route_keeps by blast
next
  case (mm_load st mode)
  obtain v st' where l: "load_cache_for_mode env mode st = (v, st')" by fastforce
  with load_keeps [OF _ _ l] mm_load.IH show ?case by (simp add: mm_preload_def)
next
  case (mm_clear st mode)
  then show ?case using unload_keeps by blast
next
  case (mm_optimize st)
  obtain a b st' where f: "fold optimize_mode (keys st) (([], []), st) = ((a, b), st')" by (metis surj_pair)
  with optimize_fold_keeps [of st env "keys st" "([], [])"] mm_optimize.IH show ?case by (simp add: mm_optimize_memory_def)
qed

text \<open>
  in every reachable state a mode is marked as loaded exactly when it has an entry in memory, and the entry is the content of the file of
  that mode.
\<close>

theorem loaded_modes_hold_their_files:
  assumes "mm_reaches env st" "map_of st mode = Some m"
  shows "mode \<in> set mode_names \<and> (ms_loaded m \<longleftrightarrow> ms_memory m \<noteq> None) \<and>
    (\<forall>v. ms_memory m = Some v \<longrightarrow> (\<exists>fl mb. map_of cache_files mode = Some fl \<and> me_file env fl = Some (mb, Inr v)))"
  using mm_invariant [OF assms(1)] mm_ok_member [OF _ assms(2)] from_filesD [OF _ assms(2)] by blast

definition graph_env :: mm_env where
  "graph_env = \<lparr>me_file = \<lambda>f. Some (10, Inr (VStr f)), me_sizeof = \<lambda>v. 1, me_seconds = 0\<rparr>"

theorem loaded_modes_hold_their_files_witness:
  "\<exists>m. map_of (snd (mm_preload graph_env ''walk'' new_mm_router)) ''walk'' = Some m \<and> ms_loaded m \<and>
     ms_memory m = Some (VStr ''santiago_metro_walking_cache.pkl'') \<and>
     (\<exists>fl mb. map_of cache_files ''walk'' = Some fl \<and> me_file graph_env fl = Some (mb, Inr (VStr ''santiago_metro_walking_cache.pkl'')))"
proof -
  have r: "mm_reaches graph_env (snd (mm_preload graph_env ''walk'' new_mm_router))" by (rule mm_load [OF mm_new])
  obtain m where m: "map_of (snd (mm_preload graph_env ''walk'' new_mm_router)) ''walk'' = Some m" "ms_loaded m"
    "ms_memory m = Some (VStr ''santiago_metro_walking_cache.pkl'')"
    by (simp add: mm_preload_def load_cache_for_mode_def cache_files_def new_mm_router_def unused_mode_def graph_env_def)
  with loaded_modes_hold_their_files [OF r m(1)] show ?thesis by blast
qed

lemma route_is_simple:
  assumes "mm_reaches env st" "map_of mode_speeds mode = Some v"
  shows "\<exists>r st'. mm_get_route env p q mode st = (Some r, st') \<and>
    r\<lparr>mr_source := ''simple_calculation'', mr_cached := False, mr_ms := None\<rparr> = calculate_simple_route p q mode v \<and>
    (\<forall>k. map_option ms_requests (map_of st' k) = (if k = mode then map_option (Suc \<circ> ms_requests) (map_of st k) else map_option ms_requests (map_of st k)))"
proof -
  note ok = mm_invariant [OF assms(1)]
  have "mode \<in> set mode_names" using assms(2) by (auto simp: mode_speeds_def mode_names_def split: if_splits)
  then obtain m where m: "map_of st mode = Some m" using mm_ok_modes ok by auto
  let ?st = "dset mode (m\<lparr>ms_requests := ms_requests m + 1\<rparr>) st"
  have ok1: "mm_ok ?st" by (rule mm_ok_dset) (use ok mm_ok_member [OF _ m] in auto)
  obtain data st' where l: "load_cache_for_mode env mode ?st = (data, st')" by fastforce
  have "map_option ms_requests (map_of st' k) = map_option ms_requests (map_of ?st k)" for k
    using ok1 l by (cases rule: load_cases) (auto simp: count_hit_def)
  then have r: "map_option ms_requests (map_of st' k) = (if k = mode then map_option (Suc \<circ> ms_requests) (map_of st k) else map_option ms_requests (map_of st k))" for k
    using m by simp
  have g: "mm_get_route env p q mode st = (Some (if data = VNone then calculate_simple_route p q mode v else cached_calculation (me_seconds env) p q mode v), st')"
    using assms(2) m l by (simp add: mm_get_route_def)
  show ?thesis
    unfolding g using r by (intro exI conjI) (rule refl, auto simp: calculate_simple_route_def cached_calculation_def Let_def)
qed

lemma simple_figures:
  "r\<lparr>mr_source := a, mr_cached := b, mr_ms := c\<rparr> = calculate_simple_route p q mode v \<Longrightarrow>
   mr_mode r = mode \<and> mr_km r = py_round 2 (flat_km p q) \<and> mr_minutes r = py_round 1 (flat_km p q / v * 60)"
  by (cases r) (simp add: calculate_simple_route_def Let_def)

lemma other_modes_have_no_route: "mm_reaches env st \<Longrightarrow> map_of mode_speeds mode = None \<Longrightarrow> mm_get_route env p q mode st = (None, st)"
proof -
  assume a: "mm_reaches env st" "map_of mode_speeds mode = None"
  then have "mode \<notin> set mode_names" by (auto simp: mode_speeds_def mode_names_def split: if_splits)
  then have "map_of st mode = None" using mm_ok_modes [of st mode] mm_invariant [OF a(1)] by auto
  then show ?thesis by (simp add: mm_get_route_def)
qed

text \<open>
  a reachable router answers every request for one of its modes with the route of the simple calculation, loaded or not: the graph only changes the
  name of the source; the request is counted for its mode alone.  Every other mode is answered with nothing and changes nothing.
\<close>

theorem the_graph_never_changes_a_route:
  assumes "mm_reaches env st"
  shows "(\<forall>v. map_of mode_speeds mode = Some v \<longrightarrow>
      (\<exists>r st'. mm_get_route env p q mode st = (Some r, st') \<and>
         r\<lparr>mr_source := ''simple_calculation'', mr_cached := False, mr_ms := None\<rparr> = calculate_simple_route p q mode v \<and>
         (\<forall>k. map_option ms_requests (map_of st' k) = (if k = mode then map_option (Suc \<circ> ms_requests) (map_of st k) else map_option ms_requests (map_of st k))))) \<and>
    (map_of mode_speeds mode = None \<longrightarrow> mm_get_route env p q mode st = (None, st))"
  using route_is_simple [OF assms] other_modes_have_no_route [OF assms] by blast

theorem the_graph_never_changes_a_route_witness:
  "\<exists>r st'. mm_get_route graph_env (0, 0) (0, 1) ''drive'' new_mm_router = (Some r, st') \<and> mr_cached r \<and>
     r\<lparr>mr_source := ''simple_calculation'', mr_cached := False, mr_ms := None\<rparr> = calculate_simple_route (0, 0) (0, 1) ''drive'' 50"
proof -
  have v: "map_of mode_speeds ''drive'' = Some 50" by (simp add: mode_speeds_def)
  from the_graph_never_changes_a_route [OF mm_new [of graph_env], of "''drive''" "(0, 0)" "(0, 1)"] v
  obtain r st' where r: "mm_get_route graph_env (0, 0) (0, 1) ''drive'' new_mm_router = (Some r, st')"
    "r\<lparr>mr_source := ''simple_calculation'', mr_cached := False, mr_ms := None\<rparr> = calculate_simple_route (0, 0) (0, 1) ''drive'' 50" by auto
  have "mr_cached r" using r(1)
    by (auto simp: mm_get_route_def load_cache_for_mode_def cache_files_def mode_speeds_def new_mm_router_def unused_mode_def graph_env_def
      cached_calculation_def Let_def)
  with r show ?thesis by blast
qed

lemma ready_router: "(\<And>st. slot = Ready st \<Longrightarrow> mm_reaches env st) \<Longrightarrow> get_chile_router ok slot = Ready st \<Longrightarrow> mm_reaches env st"
  by (auto simp: get_chile_router_def intro: mm_new split: router_slot.splits if_splits)

text \<open>
  an endpoint for one mode answers 400 exactly without one of the coordinates, then 503 without a router, then 500 when a coordinate is not a number,
  and otherwise always with the simple route between the two points; it never answers 404.
\<close>

theorem route_endpoint_answers:
  assumes "\<And>st. slot = Ready st \<Longrightarrow> mm_reaches env st" "map_of mode_speeds mode = Some v"
    and "route_endpoint env ok mode request slot = (r, slot')"
  shows "(r = Inl 400 \<longleftrightarrow> \<not> list_all (has_key request) route_fields) \<and>
    (r = Inl 503 \<longleftrightarrow> list_all (has_key request) route_fields \<and> get_chile_router ok slot = Unavailable) \<and>
    (r = Inl 500 \<longleftrightarrow> list_all (has_key request) route_fields \<and> get_chile_router ok slot \<noteq> Unavailable \<and> (\<exists>e. request_points request = Inl e)) \<and>
    r \<noteq> Inl 404 \<and>
    (\<forall>x f. r = Inr (x, f) \<longrightarrow> (\<exists>p q. request_points request = Inr (p, q) \<and> mr_km x = py_round 2 (flat_km p q) \<and>
       mr_minutes x = py_round 1 (flat_km p q / v * 60)))"
proof (cases "list_all (has_key request) route_fields")
  case True
  show ?thesis
  proof (cases "get_chile_router ok slot")
    case Untried
    then show ?thesis by (simp add: get_chile_router_def split: router_slot.splits if_splits)
  next
    case Unavailable
    with True assms(3) show ?thesis by (auto simp: route_endpoint_def)
  next
    case (Ready st)
    note reach = ready_router [OF assms(1) Ready]
    show ?thesis
    proof (cases "request_points request")
      case (Inl e)
      with True Ready assms(3) show ?thesis by (auto simp: route_endpoint_def)
    next
      case (Inr pq)
      obtain p q where pq: "pq = (p, q)" by (cases pq)
      obtain x st' where x: "mm_get_route env p q mode st = (Some x, st')" "mr_km x = py_round 2 (flat_km p q)" "mr_minutes x = py_round 1 (flat_km p q / v * 60)"
        using route_is_simple [OF reach assms(2), of p q] simple_figures by blast
      with True Ready Inr pq assms(3) show ?thesis by (auto simp: route_endpoint_def)
    qed
  qed
next
  case False
  with assms(3) show ?thesis by (auto simp: route_endpoint_def)
qed

definition short_trip :: pydict where
  "short_trip = [(''start_lat'', VInt 0), (''start_lon'', VInt 0), (''end_lat'', VInt 0), (''end_lon'', VInt 1)]"

theorem route_endpoint_answers_witness:
  "\<exists>x f s. route_endpoint graph_env True ''walk'' short_trip Untried = (Inr (x, f), s) \<and> mr_km x = py_round 2 (flat_km (0, 0) (0, 1))"
proof -
  have v: "map_of mode_speeds ''walk'' = Some 5" by (simp add: mode_speeds_def)
  have p: "request_points short_trip = Inr ((0, 0), (0, 1))" by (simp add: request_points_def route_fields_def short_trip_def dindex_def)
  obtain r s where r: "route_endpoint graph_env True ''walk'' short_trip Untried = (r, s)" by fastforce
  have k: "list_all (has_key short_trip) route_fields" by (simp add: route_fields_def short_trip_def has_key_def)
  have g: "get_chile_router True Untried \<noteq> Unavailable" by (simp add: get_chile_router_def)
  obtain st1 where g1: "get_chile_router True Untried = Ready st1" by (simp add: get_chile_router_def)
  from route_endpoint_answers [OF _ v r] k g p
  have n: "r \<noteq> Inl 400" "r \<noteq> Inl 503" "r \<noteq> Inl 500" "r \<noteq> Inl 404" by auto
  have "\<exists>x f. r = Inr (x, f)" using r k g1 p n by (auto simp: route_endpoint_def split: prod.splits option.splits)
  then obtain x f where x: "r = Inr (x, f)" by blast
  from route_endpoint_answers [OF _ v r] x p have "mr_km x = py_round 2 (flat_km (0, 0) (0, 1))" by auto
  with r x show ?thesis by blast
qed

lemma least_mode_first: "\<forall>x \<in> set xs. f (snd best) \<le> f (snd x) \<Longrightarrow> least_mode f xs best = best"
  by (induction xs) (auto simp: not_less)

lemma routes_of_all_modes:
  assumes "mm_reaches env st"
  shows "\<exists>a b c st'. calculate_multimodal_routes env p q st = ([(''drive'', Some a), (''walk'', Some b), (''bike'', Some c)], st') \<and>
    mr_km a = py_round 2 (flat_km p q) \<and> mr_km b = mr_km a \<and> mr_km c = mr_km a \<and> mr_minutes a = py_round 1 (flat_km p q / 50 * 60) \<and>
    mr_minutes b = py_round 1 (flat_km p q / 5 * 60) \<and> mr_minutes c = py_round 1 (flat_km p q / 15 * 60)"
proof -
  have v: "map_of mode_speeds ''drive'' = Some 50" "map_of mode_speeds ''walk'' = Some 5" "map_of mode_speeds ''bike'' = Some 15" by (simp_all add: mode_speeds_def)
  obtain a s1 where a: "mm_get_route env p q ''drive'' st = (Some a, s1)" "mr_km a = py_round 2 (flat_km p q)" "mr_minutes a = py_round 1 (flat_km p q / 50 * 60)"
    using route_is_simple [OF assms v(1), of p q] simple_figures by blast
  have r1: "mm_reaches env s1" using mm_route [OF assms, of p q "''drive''"] a(1) by simp
  obtain b s2 where b: "mm_get_route env p q ''walk'' s1 = (Some b, s2)" "mr_km b = py_round 2 (flat_km p q)" "mr_minutes b = py_round 1 (flat_km p q / 5 * 60)"
    using route_is_simple [OF r1 v(2), of p q] simple_figures by blast
  have r2: "mm_reaches env s2" using mm_route [OF r1, of p q "''walk''"] b(1) by simp
  obtain c s3 where c: "mm_get_route env p q ''bike'' s2 = (Some c, s3)" "mr_km c = py_round 2 (flat_km p q)" "mr_minutes c = py_round 1 (flat_km p q / 15 * 60)"
    using route_is_simple [OF r2 v(3), of p q] simple_figures by blast
  show ?thesis using a b c by (simp add: calculate_multimodal_routes_def mode_speeds_def)
qed

text \<open>
  whatever the points are, the comparison finds a route for all three modes and calls driving both the fastest and the shortest; it recommends walking
  up to fifteen minutes, else cycling up to half an hour, else driving.
\<close>

theorem comparison_always_prefers_driving:
  assumes "\<And>st. slot = Ready st \<Longrightarrow> mm_reaches env st" "get_chile_router ok slot \<noteq> Unavailable"
    and "list_all (has_key request) route_fields" "request_points request = Inr (p, q)"
  shows "\<exists>c slot'. route_compare env ok request slot = (Inr c, slot') \<and> map fst (cp_routes c) = mode_names \<and> cp_failed c = [] \<and>
    fst (cp_fastest c) = ''drive'' \<and> fst (cp_shortest c) = ''drive'' \<and>
    cp_recommended c = (if py_round 1 (flat_km p q / 5 * 60) \<le> 15 then ''walk'' else if py_round 1 (flat_km p q / 15 * 60) \<le> 30 then ''bike'' else ''drive'')"
proof -
  obtain st where st: "get_chile_router ok slot = Ready st"
    using assms(2) by (cases "get_chile_router ok slot") (auto simp: get_chile_router_def split: router_slot.splits if_splits)
  obtain a b c st' where r: "calculate_multimodal_routes env p q st = ([(''drive'', Some a), (''walk'', Some b), (''bike'', Some c)], st')"
    and k: "mr_km b = mr_km a" "mr_km c = mr_km a"
    and m: "mr_minutes a = py_round 1 (flat_km p q / 50 * 60)" "mr_minutes b = py_round 1 (flat_km p q / 5 * 60)" "mr_minutes c = py_round 1 (flat_km p q / 15 * 60)"
    using routes_of_all_modes [OF ready_router [OF assms(1) st], of p q] by blast
  have le: "mr_minutes a \<le> mr_minutes b" "mr_minutes a \<le> mr_minutes c"
    unfolding m using flat_km_nonneg [of p q] by (auto intro!: py_round_mono)
  have f: "least_mode mr_minutes [(''walk'', b), (''bike'', c)] (''drive'', a) = (''drive'', a)" by (rule least_mode_first) (use le in auto)
  have s: "least_mode mr_km [(''walk'', b), (''bike'', c)] (''drive'', a) = (''drive'', a)" by (rule least_mode_first) (use k in auto)
  show ?thesis
    using assms(3,4) st r f s m(2,3) by (simp add: route_compare_def List.map_filter_def recommended_def mode_names_def)
qed

theorem comparison_always_prefers_driving_witness:
  "\<exists>c s. route_compare graph_env True short_trip Untried = (Inr c, s) \<and> fst (cp_fastest c) = ''drive'' \<and> fst (cp_shortest c) = ''drive''"
proof -
  have p: "request_points short_trip = Inr ((0, 0), (0, 1))" by (simp add: request_points_def route_fields_def short_trip_def dindex_def)
  have k: "list_all (has_key short_trip) route_fields" by (simp add: route_fields_def short_trip_def has_key_def)
  show ?thesis using comparison_always_prefers_driving [OF _ _ k p, of Untried graph_env True] by (auto simp: get_chile_router_def)
qed

lemma preload_hits:
  assumes "map_of cache_files mode = Some fl" "map_of st mode = Some m" "ms_loaded m"
  shows "map_of (snd (mm_preload env mode st)) mode = Some (count_hit m)"
  using assms by (simp add: mm_preload_def load_cache_for_mode_def)

lemma preloads_only_hit:
  assumes "map_of cache_files mode = Some fl" "map_of st mode = Some m" "ms_loaded m"
  shows "\<exists>m'. map_of (((snd \<circ> mm_preload env mode) ^^ n) st) mode = Some m' \<and> ms_loaded m' \<and> ms_hits m' = ms_hits m + n \<and> ms_requests m' = ms_requests m"
proof (induction n)
  case 0
  show ?case using assms(2,3) by simp
next
  case (Suc n)
  then obtain m' where m': "map_of (((snd \<circ> mm_preload env mode) ^^ n) st) mode = Some m'" "ms_loaded m'" "ms_hits m' = ms_hits m + n" "ms_requests m' = ms_requests m"
    by blast
  have step: "((snd \<circ> mm_preload env mode) ^^ Suc n) st = snd (mm_preload env mode (((snd \<circ> mm_preload env mode) ^^ n) st))"
    by (simp only: funpow.simps comp_apply)
  have "ms_loaded (count_hit m') \<and> ms_hits (count_hit m') = ms_hits m + Suc n \<and> ms_requests (count_hit m') = ms_requests m"
    using m' by (simp add: count_hit_def)
  then show ?case unfolding step using preload_hits [OF assms(1) m'(1,2), of env] by blast
qed

text \<open>
  a preload of a loaded mode counts as a hit without a request: after \<open>n\<close> of them and one route the ratio of hits to requests of the mode is
  \<open>n + 1\<close>, beyond one.
\<close>

theorem preloads_inflate_the_hit_ratio:
  assumes "map_of mode_speeds mode = Some v" "map_of st mode = Some m" "ms_loaded m" "ms_requests m = 0" "ms_hits m = 0"
  shows "\<exists>m'. map_of (snd (mm_get_route env p q mode (((snd \<circ> mm_preload env mode) ^^ n) st))) mode = Some m' \<and>
    hit_ratio (ms_hits m') (ms_requests m') = real n + 1"
proof -
  obtain fl where fl: "map_of cache_files mode = Some fl"
    using assms(1) by (auto simp: mode_speeds_def cache_files_def split: if_splits)
  obtain m1 where m1: "map_of (((snd \<circ> mm_preload env mode) ^^ n) st) mode = Some m1" "ms_loaded m1" "ms_hits m1 = n" "ms_requests m1 = 0"
    using preloads_only_hit [OF fl assms(2,3), where env = env and n = n] assms(4,5) by auto
  then show ?thesis using assms(1) fl by (simp add: mm_get_route_def load_cache_for_mode_def Let_def count_hit_def hit_ratio_def)
qed

theorem preloads_inflate_the_hit_ratio_witness:
  "\<exists>st m'. mm_reaches graph_env st \<and> map_of (snd (mm_get_route graph_env (0, 0) (0, 1) ''walk'' (((snd \<circ> mm_preload graph_env ''walk'') ^^ 3) st))) ''walk'' = Some m' \<and>
    hit_ratio (ms_hits m') (ms_requests m') = 4"
proof -
  let ?st = "snd (mm_preload graph_env ''walk'' new_mm_router)"
  have r: "mm_reaches graph_env ?st" by (rule mm_load [OF mm_new])
  obtain m where m: "map_of ?st ''walk'' = Some m" "ms_loaded m" "ms_requests m = 0" "ms_hits m = 0"
    by (simp add: mm_preload_def load_cache_for_mode_def cache_files_def new_mm_router_def unused_mode_def graph_env_def)
  have v: "map_of mode_speeds ''walk'' = Some 5" by (simp add: mode_speeds_def)
  from preloads_inflate_the_hit_ratio [OF v m, of graph_env "(0, 0)" "(0, 1)" 3] r show ?thesis by auto
qed

text \<open>
  the optimization of the memory unloads exactly the modes that are loaded, have had fewer than five requests and are hit less than half the time, and
  keeps all counts.
\<close>

theorem optimization_unloads_little_used_modes:
  assumes "mm_reaches env st"
  shows "snd (mm_optimize_memory env st) = map (\<lambda>(k, m). (k, if little_used m then unload m else m)) st \<and>
    op_actions (fst (mm_optimize_memory env st)) = map fst (filter (\<lambda>(k, m). little_used m) st)"
proof -
  obtain a b c where st: "st = [(''drive'', a), (''walk'', b), (''bike'', c)]"
    "ms_loaded a \<longleftrightarrow> ms_memory a \<noteq> None" "ms_loaded b \<longleftrightarrow> ms_memory b \<noteq> None" "ms_loaded c \<longleftrightarrow> ms_memory c \<noteq> None"
    using mm_invariant [OF assms] mm_okE by blast
  have l: "little_used m \<Longrightarrow> ms_loaded m" for m by (simp add: little_used_def)
  have o: "mm_optimize_memory env st = (\<lparr>op_actions = x, op_before = snd (get_memory_usage env st), op_after = snd (get_memory_usage env s), op_advice = y\<rparr>, s)"
    if "fold optimize_mode (keys st) (([], []), st) = ((x, y), s)" for x y s
    using that by (simp add: mm_optimize_memory_def)
  have "\<exists>y. fold optimize_mode (keys st) (([], []), st) =
    ((map fst (filter (\<lambda>(k, m). little_used m) st), y), map (\<lambda>(k, m). (k, if little_used m then unload m else m)) st)"
    using st(2-4) l [of a] l [of b] l [of c] unfolding st(1)
    by (cases "little_used a"; cases "little_used b"; cases "little_used c") (simp_all add: optimize_mode_def Let_def clear_memory_cache_def)
  then show ?thesis using o by fastforce
qed

theorem optimization_unloads_little_used_modes_witness:
  "snd (mm_optimize_memory graph_env (snd (mm_preload graph_env ''walk'' new_mm_router))) = new_mm_router"
proof -
  have r: "mm_reaches graph_env (snd (mm_preload graph_env ''walk'' new_mm_router))" by (rule mm_load [OF mm_new])
  show ?thesis using optimization_unloads_little_used_modes [OF r]
    by (simp add: mm_preload_def load_cache_for_mode_def cache_files_def new_mm_router_def unused_mode_def graph_env_def little_used_def hit_ratio_def unload_def)
qed

end
