(* ===== verification/ItineraryApi.thy ===== *)
theory ItineraryApi
  imports MultiCityApi
begin

section \<open>The main itinerary endpoint\<close>

text \<open>
  src/api.py, \<open>generate_hybrid_itinerary_endpoint\<close> (\<open>/create_itinerary\<close>): the places of the request are normalised, the
  lodgings among them set apart, a hotel recommended when there is none, the optimiser called up to three times, and
  a basic itinerary made when it failed.  Python's local variables that the function reads before it binds them are
  the fields \<open>lo_semantic_info\<close> and \<open>lo_timedelta\<close> of its frame.  A \<open>Place\<close> is the dictionary of its attributes, an
  enumeration member the string of its value; \<open>str\<close> of a value that is no string, the analytics module (which the
  repository does not hold), the semantic service and the optimiser are parameters.
\<close>

subsection \<open>Safe conversions\<close>

definition safe_float :: "pyval \<Rightarrow> real \<Rightarrow> real" where
  "safe_float v dflt = (case v of VNone \<Rightarrow> dflt | _ \<Rightarrow> (case py_float v of Inr x \<Rightarrow> x | Inl e \<Rightarrow> dflt))"

definition safe_int :: "pyval \<Rightarrow> int \<Rightarrow> int" where
  "safe_int v dflt = (case v of VNone \<Rightarrow> dflt | _ \<Rightarrow> (case py_int v of Inr x \<Rightarrow> x | Inl e \<Rightarrow> dflt))"

definition py_str :: "(pyval \<Rightarrow> string) \<Rightarrow> pyval \<Rightarrow> string" where
  "py_str str_of v = (case v of VStr s \<Rightarrow> s | _ \<Rightarrow> str_of v)"

definition safe_str :: "(pyval \<Rightarrow> string) \<Rightarrow> pyval \<Rightarrow> string \<Rightarrow> string" where
  "safe_str str_of v dflt = (if v = VNone then dflt else py_str str_of v)"

definition safe_enum_value :: "(pyval \<Rightarrow> string) \<Rightarrow> pyval \<Rightarrow> string \<Rightarrow> string" where
  "safe_enum_value str_of v dflt =
     (if v = VNone then dflt
      else let s = py_str str_of v in if contains ''PlaceType.'' s then lower (last (split_on (CHR ''.'') s)) else s)"

subsection \<open>Places\<close>

definition clamped_rating :: "pyval \<Rightarrow> real" where
  "clamped_rating v = max 0 (min 5 (safe_float v 0))"

definition quality_flag :: "real \<Rightarrow> pyval" where
  "quality_flag rating = (if 0 < rating \<and> rating < 9/2 then VStr ''user_provided_below_threshold'' else VNone)"

definition normalize_request_place :: "(pyval \<Rightarrow> string) \<Rightarrow> nat \<Rightarrow> pydict \<Rightarrow> pydict" where
  "normalize_request_place str_of i d =
     (let field = (\<lambda>k. dget d k VNone); rating = clamped_rating (field ''rating'') in
      [(''place_id'', por (por (field ''place_id'') (field ''id'')) (VStr (''place_'' @ show_nat i))),
       (''name'', VStr (safe_str str_of (field ''name'') (''Lugar '' @ show_nat (i + 1)))),
       (''lat'', VFloat (safe_float (field ''lat'') 0)),
       (''lon'', VFloat (safe_float (field ''lon'') 0)),
       (''category'', VStr (safe_enum_value str_of (por (field ''category'') (field ''type'')) ''general'')),
       (''type'', VStr (safe_enum_value str_of (por (field ''type'') (field ''category'')) ''point_of_interest'')),
       (''rating'', VFloat rating),
       (''price_level'', VInt (max 0 (min 4 (safe_int (field ''price_level'') 0)))),
       (''address'', VStr (safe_str str_of (field ''address'') '''')),
       (''description'', VStr (safe_str str_of (field ''description'')
          (''Visita a '' @ py_str str_of (dget d ''name'' (VStr ''lugar''))))),
       (''photos'', por (field ''photos'') (VList [])),
       (''opening_hours'', por (field ''opening_hours'') (VDict [])),
       (''website'', VStr (safe_str str_of (field ''website'') '''')),
       (''phone'', VStr (safe_str str_of (field ''phone'') '''')),
       (''priority'', VInt (max 1 (min 10 (safe_int (field ''priority'') 5)))),
       (''quality_flag'', quality_flag rating)])"

definition error_place :: "nat \<Rightarrow> pydict" where
  "error_place i =
     [(''place_id'', VStr (''error_place_'' @ show_nat i)), (''name'', VStr (''Lugar '' @ show_nat (i + 1))), (''lat'', VFloat 0),
      (''lon'', VFloat 0), (''category'', VStr ''general''), (''type'', VStr ''point_of_interest''), (''rating'', VFloat 0),
      (''price_level'', VInt 0), (''address'', VStr (''Direcci'' @ utf8 [195, 179] @ ''n no disponible'')),
      (''description'', VStr (''Lugar con informaci'' @ utf8 [195, 179] @ ''n limitada'')), (''photos'', VList []),
      (''opening_hours'', VDict []), (''website'', VStr ''''), (''phone'', VStr ''''), (''priority'', VInt 5)]"

text \<open>Only a place without \<open>get\<close> makes the body of the loop raise.\<close>

definition normalize_request_places :: "(pyval \<Rightarrow> string) \<Rightarrow> pyval list \<Rightarrow> pydict list" where
  "normalize_request_places str_of places =
     map (\<lambda>(i, p). case p of VDict d \<Rightarrow> normalize_request_place str_of i d | _ \<Rightarrow> error_place i) (enumerate 0 places)"

definition request_lodging :: "pydict \<Rightarrow> bool" where
  "request_lodging p \<longleftrightarrow>
     vlower (dget p ''type'' (VStr '''')) = Inr ''accommodation'' \<or> vlower (dget p ''place_type'' (VStr '''')) = Inr ''accommodation''"

definition hotel_place :: "(pyval \<Rightarrow> string) \<Rightarrow> hotel_rec \<Rightarrow> pydict" where
  "hotel_place str_of h =
     [(''name'', hr_name h), (''lat'', VFloat (hr_lat h)), (''lon'', VFloat (hr_lon h)), (''type'', VStr ''accommodation''),
      (''place_type'', VStr ''accommodation''), (''rating'', hr_rating h), (''address'', hr_address h),
      (''category'', VStr ''accommodation''), (''user_ratings_total'', VInt 100),
      (''description'', VStr (''Hotel recomendado autom'' @ utf8 [195, 161] @ ''ticamente: '' @ py_str str_of (hr_name h))),
      (''estimated_time'', VStr ''1h''), (''image'', VStr ''''), (''website'', VStr ''''), (''phone'', VStr ''''),
      (''priority'', VInt 5), (''_auto_recommended'', VBool True)]"

text \<open>A hotel that cannot be found, for whatever reason, changes nothing.\<close>

definition with_recommended_hotel ::
  "(pyval \<Rightarrow> string) \<Rightarrow> (coord \<Rightarrow> nat \<Rightarrow> string \<Rightarrow> pyval res) \<Rightarrow> pydict list \<Rightarrow> pydict list" where
  "with_recommended_hotel str_of nearby places =
     (case recommend_hotels nearby places 1 ''any'' of Inr (h # hs) \<Rightarrow> places @ [hotel_place str_of h] | _ \<Rightarrow> places)"

subsection \<open>Frames\<close>

record create_frame =
  lo_result :: "pyval option"
  lo_last_error :: "py_error option"
  lo_semantic_info :: "pydict option"
  lo_timedelta :: "unit option" \<comment> \<open>bound by the import statement near the end of the function\<close>

definition read_local :: "'a option \<Rightarrow> 'a res" where
  "read_local x = (case x of None \<Rightarrow> Inl (OtherError ''UnboundLocalError'') | Some v \<Rightarrow> Inr v)"

definition entry_frame :: create_frame where
  "entry_frame = \<lparr>lo_result = None, lo_last_error = None, lo_semantic_info = None, lo_timedelta = None\<rparr>"

subsection \<open>Attempts\<close>

fun py_in :: "string \<Rightarrow> pyval \<Rightarrow> bool res" where
  "py_in k (VDict d) = Inr (has_key d k)"
| "py_in k (VStr s) = Inr (contains k s)"
| "py_in k (VList xs) = Inr (VStr k \<in> set xs)"
| "py_in k _ = Inl TypeError"

definition check_result :: "pyval \<Rightarrow> unit res" where
  "check_result v =
     (if truthy v then rbind (py_in ''days'' v) (\<lambda>found. if found then Inr () else Inl ValueError) else Inl ValueError)"

text \<open>The attempts that are left, the frame after them and the seconds slept between them.\<close>

fun attempt_loop :: "(nat \<Rightarrow> pyval res) \<Rightarrow> nat list \<Rightarrow> create_frame \<Rightarrow> create_frame \<times> nat list" where
  "attempt_loop opt [] fr = (fr, [])"
| "attempt_loop opt (k # ks) fr =
     (let again = (\<lambda>e fr. let r = attempt_loop opt ks (fr\<lparr>lo_last_error := Some e\<rparr>)
                          in (fst r, (if k < 2 then [k + 1] else []) @ snd r))
      in case opt k of
           Inl e \<Rightarrow> again e fr
         | Inr v \<Rightarrow> (case check_result v of
                       Inl e \<Rightarrow> again e (fr\<lparr>lo_result := Some v\<rparr>)
                     | Inr u \<Rightarrow> (fr\<lparr>lo_result := Some v\<rparr>, [])))"

subsection \<open>The basic itinerary\<close>

text \<open>A day of it; its transfers and free blocks are empty and its travel times zero.\<close>

record fallback_day =
  fb_day :: int
  fb_date :: int
  fb_activities :: "pydict list"
  fb_error :: py_error \<comment> \<open>named in its recommendation\<close>
  fb_base :: "pydict option"

fun fallback_days :: "unit option \<Rightarrow> py_error \<Rightarrow> int \<Rightarrow> nat \<Rightarrow> nat \<Rightarrow> pydict list \<Rightarrow> nat \<Rightarrow> nat list \<Rightarrow> fallback_day list res" where
  "fallback_days td e start per_day remaining places idx [] = Inr []"
| "fallback_days td e start per_day remaining places idx (i # is) =
     rbind (read_local td) (\<lambda>u.
       let n = per_day + (if i < remaining then 1 else 0);
           ps = take n (drop idx places)
       in rbind (fallback_days td e start per_day remaining places (idx + n) is) (\<lambda>ds.
          Inr (\<lparr>fb_day = int i + 1, fb_date = start + int i, fb_activities = ps, fb_error = e,
                fb_base = (case ps of [] \<Rightarrow> None | p # _ \<Rightarrow> Some p)\<rparr> # ds)))"

record fallback_answer =
  fa_itinerary :: "fallback_day list"
  fa_places :: nat
  fa_days :: int
  fa_error :: py_error

definition fallback_itinerary :: "unit option \<Rightarrow> py_error \<Rightarrow> int \<Rightarrow> int \<Rightarrow> pydict list \<Rightarrow> fallback_answer res" where
  "fallback_itinerary td e start finish places =
     (let day_count = finish - start + 1;
          per_day = (if 0 < day_count then length places div nat day_count else length places);
          remaining = (if 0 < day_count then length places mod nat day_count else 0)
      in rbind (fallback_days td e start per_day remaining places 0 [0..<nat day_count]) (\<lambda>ds.
         Inr \<lparr>fa_itinerary = ds, fa_places = length places, fa_days = day_count, fa_error = e\<rparr>))"

subsection \<open>The names of transfers\<close>

definition need_dict :: "pyval \<Rightarrow> pydict res" where
  "need_dict v = (case v of VDict d \<Rightarrow> Inr d | _ \<Rightarrow> Inl AttributeError)"

definition base_near :: "pydict \<Rightarrow> pyval \<Rightarrow> pyval \<Rightarrow> bool res" where
  "base_near base lat lon =
     rbind (need_num (dget base ''lat'' (VInt 0))) (\<lambda>a. rbind (need_num lat) (\<lambda>b.
       if \<bar>a - b\<bar> < 1/100
       then rbind (need_num (dget base ''lon'' (VInt 0))) (\<lambda>c. rbind (need_num lon) (\<lambda>d. Inr (\<bar>c - d\<bar> < 1/100)))
       else Inr False))"

definition rename_end :: "pydict \<Rightarrow> string \<Rightarrow> string \<Rightarrow> string \<Rightarrow> pydict \<Rightarrow> pydict \<Rightarrow> pydict res" where
  "rename_end base k lat_key lon_key transfer corrected =
     rbind (base_near base (dget transfer lat_key (VInt 0)) (dget transfer lon_key (VInt 0))) (\<lambda>near.
       Inr (if near then dset k (dget base ''name'' (dget transfer k (VStr ''''))) corrected else corrected))"

definition rename_ends :: "pydict \<Rightarrow> pyval \<Rightarrow> pydict \<Rightarrow> pydict res" where
  "rename_ends transfer base corrected =
     rbind (need_dict base) (\<lambda>b.
     rbind (rename_end b ''from'' ''from_lat'' ''from_lon'' transfer corrected) (\<lambda>c.
     rename_end b ''to'' ''to_lat'' ''to_lon'' transfer c))"

definition correct_transfer :: "pyval list \<Rightarrow> pydict \<Rightarrow> pydict res" where
  "correct_transfer bases transfer = rfold (rename_ends transfer) bases transfer"

definition day_bases :: "pyval list \<Rightarrow> pyval list res" where
  "day_bases days = rbind (rmap_list (\<lambda>d. vget d ''base'' (VDict [])) days) (\<lambda>bs. Inr (filter truthy bs))"

definition correct_aliases :: "pyval \<Rightarrow> pyval list \<Rightarrow> pyval res" where
  "correct_aliases metrics days =
     rbind (py_in ''intercity_transfers'' metrics) (\<lambda>found.
       if found \<and> days \<noteq> []
       then rbind (day_bases days) (\<lambda>bases.
            rbind (vindex metrics ''intercity_transfers'') (\<lambda>v. rbind (viter v) (\<lambda>ts.
            rbind (rmap_list (\<lambda>t. rbind (need_dict t) (correct_transfer bases)) ts) (\<lambda>cs.
            rbind (need_dict metrics) (\<lambda>m. Inr (VDict (dset ''intercity_transfers'' (VList (map VDict cs)) m)))))))
       else Inr metrics)"

subsection \<open>The endpoint\<close>

definition count_activities :: "pyval list \<Rightarrow> nat res" where
  "count_activities days =
     rbind (rmap_list (\<lambda>d. rbind (vget d ''activities'' (VList [])) vlen) days) (\<lambda>ns. Inr (sum_list ns))"

text \<open>
  What the function does with a result, up to its first use of \<open>semantic_info\<close>; \<open>rest\<close> is what it would do with it.
\<close>

definition answer_of_result ::
  "(pydict \<Rightarrow> pyval \<Rightarrow> pyval \<Rightarrow> pyval list \<Rightarrow> nat \<Rightarrow> 'r res) \<Rightarrow> create_frame \<Rightarrow> pyval \<Rightarrow> 'r res" where
  "answer_of_result rest fr result =
     rbind (vget result ''days'' (VList [])) (\<lambda>v. rbind (viter v) (\<lambda>days.
     rbind (vget result ''optimization_metrics'' (VDict [])) (\<lambda>metrics.
     rbind (vget result ''clusters_info'' (VDict [])) (\<lambda>clusters.
     rbind (correct_aliases metrics days) (\<lambda>metrics.
     rbind (count_activities days) (\<lambda>n.
     rbind (read_local (lo_semantic_info fr)) (\<lambda>info. rest info metrics clusters days n)))))))"

record create_request =
  cr_places :: "pyval list"
  cr_start :: int \<comment> \<open>a date: the request's validators have read it\<close>
  cr_end :: int
  cr_accommodations :: "pydict list option"

record 'r create_env =
  ce_analytics :: "unit res" \<comment> \<open>\<open>from utils.analytics import analytics\<close>\<close>
  ce_track :: "nat \<Rightarrow> unit res"
  ce_track_error :: "py_error \<Rightarrow> unit res"
  ce_str :: "pyval \<Rightarrow> string"
  ce_nearby :: "coord \<Rightarrow> nat \<Rightarrow> string \<Rightarrow> pyval res"
  ce_enhance :: "(pydict list \<Rightarrow> pydict list res) option" \<comment> \<open>when the semantic system is enabled\<close>
  ce_optimize :: "nat \<Rightarrow> pydict list \<Rightarrow> int \<Rightarrow> int \<Rightarrow> pydict list \<Rightarrow> bool \<Rightarrow> pyval res"
  ce_rest :: "pydict \<Rightarrow> pyval \<Rightarrow> pyval \<Rightarrow> pyval list \<Rightarrow> nat \<Rightarrow> 'r res"

definition own_accommodations :: "create_request \<Rightarrow> pydict list" where
  "own_accommodations rq = (case cr_accommodations rq of None \<Rightarrow> [] | Some acs \<Rightarrow> acs)"

text \<open>The places given to the optimiser, the lodgings, and whether the request named no lodging.\<close>

definition prepared_places :: "'r create_env \<Rightarrow> create_request \<Rightarrow> pydict list \<times> pydict list \<times> bool" where
  "prepared_places en rq =
     (let places = normalize_request_places (ce_str en) (cr_places rq);
          lodgings = filter request_lodging places;
          none = (lodgings = [] \<and> own_accommodations rq = []);
          places = (if none then with_recommended_hotel (ce_str en) (ce_nearby en) places else places);
          places = (case ce_enhance en of None \<Rightarrow> places | Some f \<Rightarrow> (case f places of Inr ps \<Rightarrow> ps | Inl e \<Rightarrow> places))
      in (places, own_accommodations rq @ lodgings, none))"

definition attempt :: "'r create_env \<Rightarrow> create_request \<Rightarrow> nat \<Rightarrow> pyval res" where
  "attempt en rq k =
     (case prepared_places en rq of (places, lodgings, none) \<Rightarrow>
        rbind (ce_track en k) (\<lambda>u. ce_optimize en k places (cr_start rq) (cr_end rq) lodgings none))"

definition create_body :: "'r create_env \<Rightarrow> create_request \<Rightarrow> (fallback_answer + 'r) res \<times> nat list" where
  "create_body en rq =
     (if cr_places rq = [] then (Inl (OtherError ''HTTPException 400''), [])
      else case attempt_loop (attempt en rq) [0, 1, 2] entry_frame of (fr, slept) \<Rightarrow>
        (case lo_result fr of
           Some v \<Rightarrow> (rbind (answer_of_result (ce_rest en) fr v) (\<lambda>r. Inr (Inr r)), slept)
         | None \<Rightarrow>
             (rbind (read_local (lo_last_error fr)) (\<lambda>e.
              rbind (fallback_itinerary (lo_timedelta fr) e (cr_start rq) (cr_end rq) (fst (prepared_places en rq))) (\<lambda>a.
              Inr (Inl a))), slept)))"

text \<open>Every exception of the body, its own HTTP errors too, becomes a 500 once it has been recorded.\<close>

definition create_itinerary :: "'r create_env \<Rightarrow> create_request \<Rightarrow> (fallback_answer + 'r) res \<times> nat list" where
  "create_itinerary en rq =
     (case ce_analytics en of
        Inl e \<Rightarrow> (Inl e, [])
      | Inr u \<Rightarrow>
          (case create_body en rq of
             (Inr a, slept) \<Rightarrow> (Inr a, slept)
           | (Inl e, slept) \<Rightarrow> (rbind (ce_track_error en e) (\<lambda>u. http_500 (Inl e)), slept)))"


subsection \<open>Lemmas\<close>

lemma answer_of_unbound: "lo_semantic_info fr = None \<Longrightarrow> \<exists>e. answer_of_result rest fr v = Inl e"
proof -
  assume n: "lo_semantic_info fr = None"
  have "answer_of_result rest fr v \<noteq> Inr r" for r
    by (auto simp: answer_of_result_def rbind_eq_Inr_iff read_local_def n)
  then show ?thesis by (cases "answer_of_result rest fr v") auto
qed

declare attempt_loop.simps [simp del]

lemma attempt_loop_frame:
  "lo_semantic_info (fst (attempt_loop opt ks fr)) = lo_semantic_info fr \<and>
   lo_timedelta (fst (attempt_loop opt ks fr)) = lo_timedelta fr"
  by (induction opt ks fr rule: attempt_loop.induct) (auto simp: attempt_loop.simps Let_def split: sum.splits)

lemma fallback_unbound: "start \<le> finish \<Longrightarrow> \<exists>e'. fallback_itinerary None e start finish places = Inl e'"
proof -
  assume "start \<le> finish"
  then have "[0..<nat (finish - start + 1)] = 0 # [1..<nat (finish - start + 1)]" by (simp add: upt_conv_Cons)
  then show ?thesis by (simp add: fallback_itinerary_def Let_def read_local_def)
qed

lemma create_body_raises: "cr_start rq \<le> cr_end rq \<Longrightarrow> \<exists>e. fst (create_body en rq) = Inl e"
proof (cases "cr_places rq = []")
  case False
  assume d: "cr_start rq \<le> cr_end rq"
  obtain fr slept where l: "attempt_loop (attempt en rq) [0, 1, 2] entry_frame = (fr, slept)" by fastforce
  have fr: "lo_semantic_info fr = None" "lo_timedelta fr = None"
    using attempt_loop_frame [of "attempt en rq" "[0, 1, 2]" entry_frame]
    by (simp_all only: l fst_conv) (simp_all add: entry_frame_def)
  show ?thesis
  proof (cases "lo_result fr")
    case (Some v)
    obtain e where "answer_of_result (ce_rest en) fr v = Inl e" using answer_of_unbound [OF fr(1)] by blast
    then show ?thesis using False Some by (simp add: create_body_def l [unfolded One_nat_def])
  next
    case None
    have "fst (create_body en rq) \<noteq> Inr a" for a
    proof
      assume "fst (create_body en rq) = Inr a"
      then obtain e b where "fallback_itinerary None e (cr_start rq) (cr_end rq) (fst (prepared_places en rq)) = Inr b"
        using False None by (auto simp: create_body_def l [unfolded One_nat_def] fr rbind_eq_Inr_iff)
      with fallback_unbound [OF d] show False by (metis Inl_Inr_False)
    qed
    then show ?thesis by (cases "fst (create_body en rq)") auto
  qed
qed (simp add: create_body_def)

lemma attempt_loop_waits: "snd (attempt_loop opt [0, 1, 2] fr) \<in> {[], [1], [1, 2]}"
  by (simp add: attempt_loop.simps Let_def split: sum.split)

lemma take_drop_split: "take n (drop i xs) @ take m (drop (i + n) xs) = take (n + m) (drop i xs)"
  by (metis add.commute drop_drop take_add)

lemma fallback_days_bound:
  "\<exists>ds. fallback_days (Some u) e start q r places idx is = Inr ds \<and> map fb_date ds = map (\<lambda>i. start + int i) is \<and>
     concat (map fb_activities ds) = take (\<Sum>i\<leftarrow>is. q + (if i < r then 1 else 0)) (drop idx places) \<and>
     (\<forall>d \<in> set ds. length (fb_activities d) \<le> q + 1)"
proof (induction "is" arbitrary: idx)
  case (Cons i js)
  let ?n = "q + (if i < r then 1 else 0)"
  from Cons.IH [of "idx + ?n"] obtain ds where ds: "fallback_days (Some u) e start q r places (idx + ?n) js = Inr ds"
    "map fb_date ds = map (\<lambda>i. start + int i) js"
    "concat (map fb_activities ds) = take (\<Sum>i\<leftarrow>js. q + (if i < r then 1 else 0)) (drop (idx + ?n) places)"
    "\<forall>d \<in> set ds. length (fb_activities d) \<le> q + 1" by blast
  define d where "d = \<lparr>fb_day = int i + 1, fb_date = start + int i, fb_activities = take ?n (drop idx places), fb_error = e,
    fb_base = (case take ?n (drop idx places) of [] \<Rightarrow> None | p # _ \<Rightarrow> Some p)\<rparr>"
  have "fallback_days (Some u) e start q r places idx (i # js) = Inr (d # ds)"
    by (simp only: fallback_days.simps read_local_def option.case rbind_Inr Let_def ds(1) d_def)
  moreover have "concat (map fb_activities (d # ds)) = take (\<Sum>i\<leftarrow>i # js. q + (if i < r then 1 else 0)) (drop idx places)"
    using take_drop_split [of ?n idx places] by (simp only: list.map concat.simps ds(3) sum_list.Cons) (simp add: d_def)
  moreover have "map fb_date (d # ds) = map (\<lambda>i. start + int i) (i # js)" by (simp add: ds(2) d_def)
  moreover have "\<forall>x \<in> set (d # ds). length (fb_activities x) \<le> q + 1" using ds(4) by (auto simp: d_def)
  ultimately show ?case by blast
qed simp

lemma share_sum: "(\<Sum>i\<leftarrow>[0..<n]. q + (if i < r then 1 else 0)) = q * n + min r n" for q r :: nat
  by (induction n) (auto simp: min_def)

lemma near_base_of_rename:
  assumes "rename_end b k lat lon t c = Inr c'"
  shows "map_of c' j = map_of c j \<or> j = k \<and> map_of c' j = Some (dget b ''name'' (dget t k (VStr ''''))) \<and>
     base_near b (dget t lat (VInt 0)) (dget t lon (VInt 0)) = Inr True"
  using assms by (auto simp: rename_end_def rbind_eq_Inr_iff split: if_splits)

lemma rename_ends_names:
  assumes "rename_ends t v c = Inr c'"
  shows "map_of c' j = map_of c j \<or> (\<exists>b lat lon. v = VDict b \<and> (j, lat, lon) \<in> {(''from'', ''from_lat'', ''from_lon''), (''to'', ''to_lat'', ''to_lon'')} \<and>
     map_of c' j = Some (dget b ''name'' (dget t j (VStr ''''))) \<and> base_near b (dget t lat (VInt 0)) (dget t lon (VInt 0)) = Inr True)"
proof -
  from assms obtain b c1 where b: "v = VDict b" "rename_end b ''from'' ''from_lat'' ''from_lon'' t c = Inr c1"
    "rename_end b ''to'' ''to_lat'' ''to_lon'' t c1 = Inr c'"
    by (auto simp: rename_ends_def rbind_eq_Inr_iff need_dict_def split: pyval.splits)
  from near_base_of_rename [OF b(2), of j] near_base_of_rename [OF b(3), of j] b(1) show ?thesis by auto
qed

lemma correct_transfer_names:
  "rfold (rename_ends t) vs c = Inr c' \<Longrightarrow>
   map_of c' j = map_of c j \<or> (\<exists>b lat lon. VDict b \<in> set vs \<and> (j, lat, lon) \<in> {(''from'', ''from_lat'', ''from_lon''), (''to'', ''to_lat'', ''to_lon'')} \<and>
     map_of c' j = Some (dget b ''name'' (dget t j (VStr ''''))) \<and> base_near b (dget t lat (VInt 0)) (dget t lon (VInt 0)) = Inr True)"
proof (induction vs arbitrary: c)
  case (Cons v vs)
  then obtain c1 where c1: "rename_ends t v c = Inr c1" "rfold (rename_ends t) vs c1 = Inr c'" by (auto simp: rbind_eq_Inr_iff)
  from rename_ends_names [OF c1(1), of j] Cons.IH [OF c1(2)] show ?case by (elim disjE) auto
qed simp

subsection \<open>Properties\<close>

text \<open>
  whatever the optimiser, the services and the rest of the function do, a request for at least one
  day is never answered: both the answer of a result and the basic itinerary read a local variable that is not bound yet.
  Where the analytics module exists and records the error, the answer is the HTTP error 500, for a request without places too.
\<close>

theorem create_itinerary_never_answers:
  assumes "cr_start rq \<le> cr_end rq"
  shows "(\<exists>e. fst (create_itinerary en rq) = Inl e) \<and>
    (ce_analytics en = Inr u \<and> (\<forall>e. ce_track_error en e = Inr u) \<longrightarrow> fst (create_itinerary en rq) = Inl (OtherError ''HTTPException 500''))"
proof -
  obtain e where "fst (create_body en rq) = Inl e" using create_body_raises [OF assms] by blast
  then obtain slept where "create_body en rq = (Inl e, slept)" by (metis prod.collapse)
  then have c: "fst (create_itinerary en rq) = (case ce_analytics en of Inl e \<Rightarrow> Inl e | Inr u \<Rightarrow> rbind (ce_track_error en e) (\<lambda>u. http_500 (Inl e)))"
    by (simp add: create_itinerary_def split: sum.split)
  show ?thesis unfolding c by (auto simp: http_500_def rbind_def split: sum.splits)
qed

definition calm_env :: "pyval list create_env" where
  "calm_env = \<lparr>ce_analytics = Inr (), ce_track = (\<lambda>k. Inr ()), ce_track_error = (\<lambda>e. Inr ()), ce_str = (\<lambda>v. []),
     ce_nearby = (\<lambda>c n s. Inl TimeoutError), ce_enhance = None,
     ce_optimize = (\<lambda>k ps s e ls n. if k = 0 then Inl TimeoutError else Inr (VDict [(''days'', VList [])])), ce_rest = (\<lambda>i m c ds n. Inr ds)\<rparr>"

definition day_trip :: create_request where
  "day_trip = \<lparr>cr_places = [VDict [(''name'', VStr ''Mirador''), (''lat'', VFloat (-23)), (''lon'', VFloat (-70)), (''rating'', VInt 4), (''priority'', VInt 12)]],
     cr_start = 10, cr_end = 11, cr_accommodations = None\<rparr>"

theorem create_itinerary_never_answers_witness:
  "fst (create_itinerary calm_env day_trip) = Inl (OtherError ''HTTPException 500'')"
  using create_itinerary_never_answers [of day_trip calm_env "()"] by (simp add: day_trip_def calm_env_def)

text \<open>
  the places of a request keep their number and order, and each is normalised: its rating lies between 0 and 5, its
  price level between 0 and 4, its priority between 1 and 10, its coordinates are numbers, and it is marked exactly when it is rated below 4.5.
\<close>

theorem normalized_places_within_bounds:
  "length (normalize_request_places str_of ps) = length ps \<and>
   (\<forall>i < length ps. \<exists>r c q x y. let p = normalize_request_places str_of ps ! i in
      map_of p ''rating'' = Some (VFloat r) \<and> 0 \<le> r \<and> r \<le> 5 \<and> map_of p ''price_level'' = Some (VInt c) \<and> 0 \<le> c \<and> c \<le> 4 \<and>
      map_of p ''priority'' = Some (VInt q) \<and> 1 \<le> q \<and> q \<le> 10 \<and> map_of p ''lat'' = Some (VFloat x) \<and> map_of p ''lon'' = Some (VFloat y) \<and>
      (dget p ''quality_flag'' VNone \<noteq> VNone \<longleftrightarrow> 0 < r \<and> r < 9/2))"
proof -
  have p: "\<exists>r c q x y. map_of p ''rating'' = Some (VFloat r) \<and> 0 \<le> r \<and> r \<le> 5 \<and> map_of p ''price_level'' = Some (VInt c) \<and> 0 \<le> c \<and> c \<le> 4 \<and>
      map_of p ''priority'' = Some (VInt q) \<and> 1 \<le> q \<and> q \<le> 10 \<and> map_of p ''lat'' = Some (VFloat x) \<and> map_of p ''lon'' = Some (VFloat y) \<and>
      (dget p ''quality_flag'' VNone \<noteq> VNone \<longleftrightarrow> 0 < r \<and> r < 9/2)" if "p = normalize_request_place str_of i d \<or> p = error_place i" for p i d
    using that by (elim disjE) (simp_all add: normalize_request_place_def error_place_def clamped_rating_def quality_flag_def Let_def)
  show ?thesis
    unfolding Let_def
  proof (intro conjI allI impI)
    fix i assume "i < length ps"
    then have "normalize_request_places str_of ps ! i = (case ps ! i of VDict d \<Rightarrow> normalize_request_place str_of i d | _ \<Rightarrow> error_place i)"
      by (simp add: normalize_request_places_def nth_enumerate_eq)
    then have "\<exists>d. normalize_request_places str_of ps ! i = normalize_request_place str_of i d \<or> normalize_request_places str_of ps ! i = error_place i"
      by (cases "ps ! i") auto
    then obtain d where "normalize_request_places str_of ps ! i = normalize_request_place str_of i d \<or> normalize_request_places str_of ps ! i = error_place i" ..
    from p [OF this] show "\<exists>r c q x y. map_of (normalize_request_places str_of ps ! i) ''rating'' = Some (VFloat r) \<and> 0 \<le> r \<and> r \<le> 5 \<and>
      map_of (normalize_request_places str_of ps ! i) ''price_level'' = Some (VInt c) \<and> 0 \<le> c \<and> c \<le> 4 \<and>
      map_of (normalize_request_places str_of ps ! i) ''priority'' = Some (VInt q) \<and> 1 \<le> q \<and> q \<le> 10 \<and>
      map_of (normalize_request_places str_of ps ! i) ''lat'' = Some (VFloat x) \<and> map_of (normalize_request_places str_of ps ! i) ''lon'' = Some (VFloat y) \<and>
      (dget (normalize_request_places str_of ps ! i) ''quality_flag'' VNone \<noteq> VNone \<longleftrightarrow> 0 < r \<and> r < 9/2)" .
  qed (simp add: normalize_request_places_def)
qed

theorem normalized_places_within_bounds_witness:
  "\<exists>r q. map_of (normalize_request_places (\<lambda>v. []) (cr_places day_trip) ! 0) ''rating'' = Some (VFloat r) \<and> r \<le> 5 \<and>
     map_of (normalize_request_places (\<lambda>v. []) (cr_places day_trip) ! 0) ''priority'' = Some (VInt q) \<and> q \<le> 10"
  using normalized_places_within_bounds [of "\<lambda>v. []" "cr_places day_trip", THEN conjunct2, rule_format, of 0]
  by (auto simp: Let_def day_trip_def)

text \<open>
  the optimiser is called at most three times, with pauses of one and two seconds, and a request
  without places never reaches it.
\<close>

theorem create_itinerary_retries_twice:
  "snd (create_itinerary en rq) \<in> {[], [1], [1, 2]} \<and> (cr_places rq = [] \<longrightarrow> snd (create_itinerary en rq) = [])"
proof -
  have "snd (create_body en rq) \<in> {[], [1], [1, 2]}"
    using attempt_loop_waits [of "attempt en rq" entry_frame]
    by (auto simp: create_body_def split: prod.splits option.splits)
  moreover have "snd (create_itinerary en rq) \<in> {[], snd (create_body en rq)}"
    by (auto simp: create_itinerary_def split: sum.splits prod.splits)
  moreover have "cr_places rq = [] \<longrightarrow> snd (create_body en rq) = []" by (simp add: create_body_def)
  ultimately show ?thesis by auto
qed

theorem create_itinerary_retries_twice_witness:
  "snd (create_itinerary calm_env (day_trip\<lparr>cr_places := []\<rparr>)) = []"
  using create_itinerary_retries_twice [of calm_env "day_trip\<lparr>cr_places := []\<rparr>"] by simp

text \<open>
  were \<open>timedelta\<close> bound, the basic itinerary would have a day for each date of the trip in
  order, hold every place exactly once in the order of the request, and fill its days evenly.
\<close>

theorem fallback_itinerary_shares_places:
  assumes "start \<le> finish"
  shows "\<exists>a. fallback_itinerary (Some ()) e start finish places = Inr a \<and> map fb_date (fa_itinerary a) = [start..finish] \<and>
    concat (map fb_activities (fa_itinerary a)) = places \<and>
    (\<forall>d \<in> set (fa_itinerary a). length (fb_activities d) \<le> length places div nat (finish - start + 1) + 1)"
proof -
  let ?n = "nat (finish - start + 1)"
  let ?q = "length places div ?n" and ?r = "length places mod ?n"
  have n: "0 < finish - start + 1" using assms by simp
  from fallback_days_bound [of "()" e start ?q ?r places 0 "[0..<?n]"]
  obtain ds where ds: "fallback_days (Some ()) e start ?q ?r places 0 [0..<?n] = Inr ds" "map fb_date ds = map (\<lambda>i. start + int i) [0..<?n]"
    "concat (map fb_activities ds) = take (\<Sum>i\<leftarrow>[0..<?n]. ?q + (if i < ?r then 1 else 0)) (drop 0 places)"
    "\<forall>d \<in> set ds. length (fb_activities d) \<le> ?q + 1" by blast
  have "?r < ?n" using n by (intro mod_less_divisor) simp
  then have "(\<Sum>i\<leftarrow>[0..<?n]. ?q + (if i < ?r then 1 else 0)) = length places" using share_sum [of ?q ?r ?n] by (simp add: min_def)
  moreover have "map (\<lambda>i. start + int i) [0..<?n] = [start..finish]"
    using n by (intro nth_equalityI) (auto simp: nth_upto)
  ultimately show ?thesis using ds n by (simp add: fallback_itinerary_def Let_def)
qed

theorem fallback_itinerary_shares_places_witness:
  "\<exists>a. fallback_itinerary (Some ()) TimeoutError 10 12 [[(''name'', VStr ''a'')], [(''name'', VStr ''b'')]] = Inr a \<and>
     map fb_date (fa_itinerary a) = [10..12] \<and> concat (map fb_activities (fa_itinerary a)) = [[(''name'', VStr ''a'')], [(''name'', VStr ''b'')]]"
  using fallback_itinerary_shares_places [of 10 12 TimeoutError "[[(''name'', VStr ''a'')], [(''name'', VStr ''b'')]]"] by auto

text \<open>
  correcting an intercity transfer changes nothing but the names of its ends, and gives an end
  only the name of a base of the itinerary that lies within a hundredth of a degree of it.
\<close>

theorem corrected_ends_are_near_bases:
  assumes "correct_transfer bases t = Inr c" "map_of c k \<noteq> map_of t k"
  shows "\<exists>b lat lon. VDict b \<in> set bases \<and> (k, lat, lon) \<in> {(''from'', ''from_lat'', ''from_lon''), (''to'', ''to_lat'', ''to_lon'')} \<and>
    map_of c k = Some (dget b ''name'' (dget t k (VStr ''''))) \<and> base_near b (dget t lat (VInt 0)) (dget t lon (VInt 0)) = Inr True"
  using correct_transfer_names [OF assms(1) [unfolded correct_transfer_def], of k] assms(2) by blast

definition named_base :: pydict where
  "named_base = [(''name'', VStr ''Calama''), (''lat'', VFloat 22), (''lon'', VFloat 68)]"

definition old_transfer :: pydict where
  "old_transfer = [(''from'', VStr ''Zona 1''), (''to'', VStr ''Zona 2''), (''from_lat'', VFloat 22), (''from_lon'', VFloat 68)]"

theorem corrected_ends_are_near_bases_witness:
  "\<exists>b lat lon. VDict b \<in> set [VDict named_base] \<and> (''from'', lat, lon) \<in> {(''from'', ''from_lat'', ''from_lon''), (''to'', ''to_lat'', ''to_lon'')} \<and>
    base_near b (dget old_transfer lat (VInt 0)) (dget old_transfer lon (VInt 0)) = Inr True"
proof -
  have "correct_transfer [VDict named_base] old_transfer = Inr (dset ''from'' (VStr ''Calama'') old_transfer)"
    by (simp add: correct_transfer_def rename_ends_def rename_end_def base_near_def need_dict_def named_base_def old_transfer_def)
  from corrected_ends_are_near_bases [OF this, of "''from''"] show ?thesis by (auto simp: old_transfer_def)
qed

end
