(* ===== verification/SmartSuggestions.thy ===== *)
theory SmartSuggestions
  imports GooglePlaces ItineraryApi
begin

section \<open>Suggestions for free days\<close>

text \<open>
  src/api.py, \<open>generate_smart_suggestions_for_day\<close>: three places for a day without activities, from the places
  service where it knows places that were not suggested before, from tables otherwise.  The service is the
  parameter \<open>search k category radius\<close> (the answer to the search for the \<open>k\<close>-th category of the day); \<open>day\<close> is the date's string,
  the identifiers of the places already suggested are a list that stands for the caller's set.
\<close>

subsection \<open>Categories of a day\<close>

definition mentions :: "string \<Rightarrow> string \<Rightarrow> pyval \<Rightarrow> string \<Rightarrow> bool res" where
  "mentions interest word interests prefs_text =
     rbind (py_in interest interests) (\<lambda>found. Inr (found \<or> contains word prefs_text))"

definition interest_categories :: "pyval \<Rightarrow> string \<Rightarrow> string list res" where
  "interest_categories interests prefs_text =
     rbind (mentions ''tourist_attraction'' ''culture'' interests prefs_text) (\<lambda>culture.
     rbind (mentions ''restaurant'' ''food'' interests prefs_text) (\<lambda>food.
     rbind (mentions ''nature'' ''nature'' interests prefs_text) (\<lambda>nature.
     rbind (py_in ''shopping'' interests) (\<lambda>shopping.
     rbind (py_in ''nightlife'' interests) (\<lambda>nightlife.
       let cs = (if culture then [''tourist_attraction'', ''point_of_interest'', ''museum'', ''art_gallery''] else []) @
                (if food then [''restaurant'', ''cafe'', ''bakery''] else []) @
                (if nature then [''park'', ''natural_feature'', ''zoo''] else []) @
                (if shopping then [''shopping_mall'', ''store'', ''department_store''] else []) @
                (if nightlife then [''night_club'', ''bar'', ''casino''] else [])
       in Inr (if cs = []
               then [''tourist_attraction'', ''restaurant'', ''point_of_interest'', ''museum'', ''park'', ''art_gallery'', ''cafe'', ''shopping_mall'']
               else cs))))))"

definition rotated :: "int \<Rightarrow> string list \<Rightarrow> string list" where
  "rotated n cs = map (\<lambda>i. cs ! nat (((n - 1) * 3 + int i) mod int (length cs))) [0..<3]"

definition day_radius :: "int \<Rightarrow> int" where
  "day_radius n = 8000 + (n mod 3) * 2000"

subsection \<open>Choosing a place\<close>

fun name_used :: "string \<Rightarrow> pydict list \<Rightarrow> bool res" where
  "name_used s [] = Inr False"
| "name_used s (p # ps) =
     rbind (vlower (dget p ''name'' (VStr []))) (\<lambda>u. if contains s u \<or> contains u s then Inr True else name_used s ps)"

text \<open>The first place with an identifier not used yet and a name unlike those of the day.\<close>

fun first_fresh :: "pyval list \<Rightarrow> pydict list \<Rightarrow> pydict list \<Rightarrow> pydict option res" where
  "first_fresh used chosen [] = Inr None"
| "first_fresh used chosen (s # ss) =
     (let pid = dget s ''place_id'' (VStr []) in
      rbind (vlower (dget s ''name'' (VStr []))) (\<lambda>n.
      if \<not> truthy pid then first_fresh used chosen ss
      else if \<not> hashable pid then Inl TypeError
      else if pid \<in> set used then first_fresh used chosen ss
      else rbind (name_used n chosen) (\<lambda>u. if u then first_fresh used chosen ss else Inr (Some s))))"

definition visit_times :: "(string \<times> string \<times> string) list" where
  "visit_times =
     [(''restaurant'', ''1.5h'', ''12:00-14:00''),
      (''cafe'', ''1.0h'', ''15:00-16:00''),
      (''museum'', ''2.5h'', ''10:00-12:30''),
      (''art_gallery'', ''2.0h'', ''10:30-12:30''),
      (''park'', ''1.5h'', ''09:00-10:30''),
      (''natural_feature'', ''2.0h'', ''09:00-11:00''),
      (''shopping_mall'', ''2.0h'', ''14:00-16:00''),
      (''store'', ''1.0h'', ''15:00-16:00''),
      (''tourist_attraction'', ''2.5h'', ''10:00-12:30''),
      (''point_of_interest'', ''2.0h'', ''10:00-12:00''),
      (''night_club'', ''3.0h'', ''21:00-00:00''),
      (''bar'', ''2.0h'', ''19:00-21:00'')]"

definition spaced :: "string \<Rightarrow> string" where
  "spaced s = map (\<lambda>c. if c = CHR ''_'' then CHR '' '' else c) s"

definition plus_joined :: "string \<Rightarrow> string" where
  "plus_joined s = map (\<lambda>c. if c = CHR '' '' then CHR ''+'' else c) s"

definition need_str :: "pyval \<Rightarrow> string res" where
  "need_str v = (case v of VStr s \<Rightarrow> Inr s | _ \<Rightarrow> Inl TypeError)"

text \<open>\<open>', '.join(interests)\<close>, and the interests that match the category.\<close>

definition join_values :: "pyval \<Rightarrow> string res" where
  "join_values v = rbind (viter v) (\<lambda>xs. rbind (rmap_list need_str xs) (\<lambda>ss.
     Inr (concat (case ss of [] \<Rightarrow> [] | s # rest \<Rightarrow> s # map (\<lambda>t. '', '' @ t) rest))))"

definition interest_match :: "string \<Rightarrow> pyval \<Rightarrow> string list res" where
  "interest_match category interests = rbind (viter interests) (\<lambda>xs. rbind (rmap_list need_str xs) (\<lambda>ss.
     Inr (filter (\<lambda>i. contains i category \<or> contains category i) ss)))"

record suggestion_context =
  sc_str :: "pyval \<Rightarrow> string"
  sc_center :: coord
  sc_day :: string
  sc_interests :: pyval
  sc_budget :: pyval

definition suggested_place :: "suggestion_context \<Rightarrow> string \<Rightarrow> nat \<Rightarrow> pydict \<Rightarrow> pydict res" where
  "suggested_place cx category order s =
     (let times = (case map_of visit_times category of Some t \<Rightarrow> t | None \<Rightarrow> (''2.0h'', ''10:00-12:00''));
          synthetic = dget s ''synthetic'' (VBool False);
          name = dget s ''name'' (VStr (''Lugar '' @ category));
          shown = py_str (sc_str cx) name;
          lng = dget s ''lon'' (dget s ''lng'' (VFloat (snd (sc_center cx))));
          lat = dget s ''lat'' (VFloat (fst (sc_center cx)))
      in rbind (if truthy synthetic
                then Inr (utf8 [240, 159, 147, 141] @ '' Sugerencia local para '' @ spaced category @ '' - '' @ shown,
                          utf8 [240, 159, 142, 175] @ '' Sugerencia basada en tus intereses para '' @ sc_day cx)
                else rbind (join_values (sc_interests cx)) (\<lambda>is.
                     Inr (utf8 [226, 156, 168] @ '' Recomendado por Google Places - '' @ shown @ '' es un destino destacado en el '' @ utf8 [195, 161] @ ''rea'',
                          utf8 [240, 159, 142, 175] @ '' Sugerencia inteligente basada en tus intereses ('' @ is @ '') para '' @ sc_day cx))) (\<lambda>(description, reason).
         rbind (case name of VStr n \<Rightarrow> Inr n | _ \<Rightarrow> Inl AttributeError) (\<lambda>n.
         rbind (interest_match category (sc_interests cx)) (\<lambda>ms.
         Inr [(''id'', VStr (''suggested-'' @ sc_day cx @ ''-'' @ show_nat order)), (''name'', name), (''category'', VStr category),
           (''rating'', dget s ''rating'' (VFloat 4)), (''image'', dget s ''photo_url'' (dget s ''photo'' (VStr ''''))),
           (''description'', VStr description), (''estimated_time'', VStr (fst times)), (''priority'', VInt (3 + int (order mod 2))),
           (''lat'', lat), (''lng'', lng), (''recommended_duration'', VStr (fst times)), (''best_time'', VStr (snd times)),
           (''order'', VInt (int order)), (''is_intercity'', VBool False), (''suggested'', VBool True), (''suggestion_reason'', VStr reason),
           (''address'', dget s ''address'' (VStr (''Direcci'' @ utf8 [195, 179] @ ''n no disponible''))), (''phone'', dget s ''phone'' (VStr '''')),
           (''website'', dget s ''website'' (VStr '''')), (''reviews_count'', dget s ''user_ratings_total'' (dget s ''reviews_count'' (VInt 0))),
           (''place_id'', dget s ''place_id'' (VStr '''')), (''price_level'', dget s ''price_level'' (VInt 0)),
           (''types'', dget s ''types'' (VList [VStr category])), (''opening_hours'', dget s ''opening_hours'' (VDict [])),
           (''google_maps_url'', VStr (''https://www.google.com/maps/search/'' @ plus_joined n @ ''/@'' @ py_str (sc_str cx) lat @ '','' @ py_str (sc_str cx) lng)),
           (''google_places_verified'', VBool (\<not> truthy synthetic)), (''synthetic'', synthetic),
           (''popularity_score'', dget s ''rating'' (VFloat 4)), (''budget_match'', sc_budget cx), (''interest_match'', VList (map VStr ms)),
           (''eta_minutes'', dget s ''eta_minutes'' (VInt 5))]))))"

definition category_fallback :: "suggestion_context \<Rightarrow> string \<Rightarrow> nat \<Rightarrow> pydict" where
  "category_fallback cx category order =
     [(''id'', VStr (''suggested-'' @ sc_day cx @ ''-fallback-'' @ show_nat order)), (''name'', VStr (''Explorar '' @ spaced category @ '' local'')),
      (''category'', VStr category), (''rating'', VFloat 4), (''image'', VStr ''''), (''description'', VStr (''Sugerencia local para '' @ spaced category)),
      (''estimated_time'', VStr ''2.0h''), (''priority'', VInt 3), (''lat'', VFloat (fst (sc_center cx))), (''lng'', VFloat (snd (sc_center cx))),
      (''recommended_duration'', VStr ''2.0h''), (''best_time'', VStr ''10:00-12:00''), (''order'', VInt (int order)), (''is_intercity'', VBool False),
      (''suggested'', VBool True), (''suggestion_reason'', VStr (''Sugerencia autom'' @ utf8 [195, 161] @ ''tica para '' @ sc_day cx)), (''google_places_verified'', VBool False)]"

subsection \<open>The loop over the categories\<close>

record suggestion_state =
  ss_chosen :: "pydict list"
  ss_used :: "pyval list"
  ss_order :: nat

definition add_suggestion :: "pydict \<Rightarrow> suggestion_state \<Rightarrow> suggestion_state" where
  "add_suggestion p st = st\<lparr>ss_chosen := ss_chosen st @ [p], ss_order := ss_order st + 1\<rparr>"

text \<open>
  One category: the state after it and whether its body ended without an exception. A budget that cannot be a key of the
  table of price levels raises before the search.
\<close>

definition category_step :: "suggestion_context \<Rightarrow> pydict list res \<Rightarrow> string \<Rightarrow> suggestion_state \<Rightarrow> suggestion_state \<times> bool" where
  "category_step cx found category st =
     (case rbind (if hashable (sc_budget cx) then found else Inl TypeError) (first_fresh (ss_used st) (ss_chosen st)) of
        Inl e \<Rightarrow> (add_suggestion (category_fallback cx category (ss_order st)) st, False)
      | Inr None \<Rightarrow> (st, True)
      | Inr (Some s) \<Rightarrow>
          (let st = st\<lparr>ss_used := dget s ''place_id'' (VStr []) # ss_used st\<rparr>
           in case suggested_place cx category (ss_order st) s of
                Inl e \<Rightarrow> (add_suggestion (category_fallback cx category (ss_order st)) st, False)
              | Inr p \<Rightarrow> (add_suggestion p st, True)))"

fun category_loop :: "suggestion_context \<Rightarrow> (nat \<Rightarrow> string \<Rightarrow> pydict list res) \<Rightarrow> nat \<Rightarrow> string list \<Rightarrow> suggestion_state \<Rightarrow> suggestion_state" where
  "category_loop cx search k [] st = st"
| "category_loop cx search k (c # cs) st =
     (case category_step cx (search k c) c st of
        (st, ok) \<Rightarrow> if ok \<and> 3 \<le> length (ss_chosen st) then st else category_loop cx search (Suc k) cs st)"

subsection \<open>Filling up\<close>

definition fallback_options :: "(string \<times> string) list list" where
  "fallback_options =
     [[(''restaurant'', ''Caf'' @ utf8 [195, 169] @ '' parisino tradicional''), (''museum'', ''Galer'' @ utf8 [195, 173] @ ''a de arte local''), (''park'', ''Jard'' @ utf8 [195, 173] @ ''n urbano cercano'')],
      [(''shopping_mall'', ''Mercado local t'' @ utf8 [195, 173] @ ''pico''), (''tourist_attraction'', ''Monumento hist'' @ utf8 [195, 179] @ ''rico''), (''cafe'', ''Pasteler'' @ utf8 [195, 173] @ ''a artesanal'')],
      [(''point_of_interest'', ''Mirador panor'' @ utf8 [195, 161] @ ''mico''), (''restaurant'', ''Bistro de barrio''), (''library'', ''Centro cultural local'')],
      [(''art_gallery'', ''Espacio creativo''), (''park'', ''Plaza principal''), (''restaurant'', ''Cocina regional'')]]"

definition varied_place :: "suggestion_context \<Rightarrow> int \<Rightarrow> nat \<Rightarrow> nat \<Rightarrow> string \<times> string \<Rightarrow> pydict" where
  "varied_place cx n have_n i option =
     [(''id'', VStr (''suggested-'' @ sc_day cx @ ''-varied-'' @ show_nat (i + 1))), (''name'', VStr (snd option)), (''category'', VStr (fst option)),
      (''rating'', VFloat (4.1 + real i * 0.1)), (''image'', VStr ''''), (''description'', VStr (''Sugerencia d'' @ utf8 [195, 173] @ ''a '' @ show_int n @ '' - '' @ snd option)),
      (''estimated_time'', VStr ''1.5h''), (''priority'', VInt 4), (''lat'', VFloat (fst (sc_center cx) + (real i + real_of_int n * 0.5) * 0.001)),
      (''lng'', VFloat (snd (sc_center cx) + (real i + real_of_int n * 0.3) * 0.001)), (''recommended_duration'', VStr ''1.5h''),
      (''best_time'', VStr ''12:30-14:00''), (''order'', VInt (int have_n + int i + 1)), (''is_intercity'', VBool False), (''suggested'', VBool True),
      (''suggestion_reason'', VStr (''Sugerencia variada para '' @ sc_day cx @ '' (d'' @ utf8 [195, 173] @ ''a '' @ show_int n @ '')'')),
      (''google_places_verified'', VBool False), (''synthetic'', VBool True)]"

definition day_fallbacks :: "int \<Rightarrow> (string \<times> string) list" where
  "day_fallbacks n = fallback_options ! nat ((n - 1) mod int (length fallback_options))"

definition varied_places :: "suggestion_context \<Rightarrow> int \<Rightarrow> nat \<Rightarrow> pydict list" where
  "varied_places cx n have_n =
     map (\<lambda>i. varied_place cx n have_n i (day_fallbacks n ! i)) (filter (\<lambda>i. i < length (day_fallbacks n)) [0..<3 - have_n])"

lemma day_fallbacks_three: "length (day_fallbacks n) = 3"
proof -
  have "0 \<le> (n - 1) mod 4" "(n - 1) mod 4 < 4" by simp_all
  then have "(n - 1) mod 4 = 0 \<or> (n - 1) mod 4 = 1 \<or> (n - 1) mod 4 = 2 \<or> (n - 1) mod 4 = 3" by linarith
  then show ?thesis by (auto simp: day_fallbacks_def fallback_options_def)
qed

lemma varied_places_length: "length (varied_places cx n k) = 3 - k"
proof -
  have "filter (\<lambda>i. i < 3) [0..<3 - k] = [0..<3 - k]" by (rule filter_True) auto
  then show ?thesis by (simp add: varied_places_def day_fallbacks_three)
qed

text \<open>The \<open>while\<close> loop of the code: each round adds a place.\<close>

function fill_up :: "suggestion_context \<Rightarrow> int \<Rightarrow> pydict list \<Rightarrow> pydict list" where
  "fill_up cx n ps = (if length ps < 3 then fill_up cx n (ps @ varied_places cx n (length ps)) else ps)"
  by pat_completeness auto
termination
  by (relation "measure (\<lambda>(cx, n, ps). 3 - length ps)") (simp_all add: varied_places_length)

declare fill_up.simps [simp del]

subsection \<open>The suggestions of a day\<close>

definition emergency_suggestions :: "coord \<Rightarrow> string \<Rightarrow> pydict list" where
  "emergency_suggestions center day =
     [[(''id'', VStr (''suggested-'' @ day @ ''-emergency-1'')), (''name'', VStr (''Explorar '' @ utf8 [195, 161] @ ''rea local'')), (''category'', VStr ''tourist_attraction''),
        (''rating'', VFloat 4), (''image'', VStr ''''), (''description'', VStr (''Sugerencia de emergencia para '' @ day)), (''estimated_time'', VStr ''2.0h''),
        (''priority'', VInt 3), (''lat'', VFloat (fst center)), (''lng'', VFloat (snd center)), (''recommended_duration'', VStr ''2.0h''),
        (''best_time'', VStr ''10:00-12:00''), (''order'', VInt 1), (''is_intercity'', VBool False), (''suggested'', VBool True),
        (''suggestion_reason'', VStr (''Sugerencia autom'' @ utf8 [195, 161] @ ''tica para '' @ day)), (''google_places_verified'', VBool False), (''synthetic'', VBool True)],
      [(''id'', VStr (''suggested-'' @ day @ ''-emergency-2'')), (''name'', VStr (''Almuerzo local'')), (''category'', VStr ''restaurant''),
        (''rating'', VFloat 4), (''image'', VStr ''''), (''description'', VStr (''Restaurante sugerido para '' @ day)), (''estimated_time'', VStr ''1.5h''),
        (''priority'', VInt 4), (''lat'', VFloat (fst center + 0.001)), (''lng'', VFloat (snd center + 0.001)), (''recommended_duration'', VStr ''1.5h''),
        (''best_time'', VStr ''12:30-14:00''), (''order'', VInt 2), (''is_intercity'', VBool False), (''suggested'', VBool True),
        (''suggestion_reason'', VStr (''Sugerencia autom'' @ utf8 [195, 161] @ ''tica para '' @ day)), (''google_places_verified'', VBool False), (''synthetic'', VBool True)],
      [(''id'', VStr (''suggested-'' @ day @ ''-emergency-3'')), (''name'', VStr (''Actividad recreativa'')), (''category'', VStr ''park''),
        (''rating'', VFloat 4), (''image'', VStr ''''), (''description'', VStr (''Parque o actividad al aire libre para '' @ day)), (''estimated_time'', VStr ''1.5h''),
        (''priority'', VInt 3), (''lat'', VFloat (fst center + 0.002)), (''lng'', VFloat (snd center + 0.002)), (''recommended_duration'', VStr ''1.5h''),
        (''best_time'', VStr ''15:00-17:00''), (''order'', VInt 3), (''is_intercity'', VBool False), (''suggested'', VBool True),
        (''suggestion_reason'', VStr (''Sugerencia autom'' @ utf8 [195, 161] @ ''tica para '' @ day)), (''google_places_verified'', VBool False), (''synthetic'', VBool True)]]"

definition generate_smart_suggestions_for_day ::
  "(pyval \<Rightarrow> string) \<Rightarrow> (nat \<Rightarrow> string \<Rightarrow> int \<Rightarrow> pydict list res) \<Rightarrow> coord \<Rightarrow> string \<Rightarrow> pyval \<Rightarrow> int \<Rightarrow> pyval list \<Rightarrow> pydict list \<times> pyval list" where
  "generate_smart_suggestions_for_day str_of search center day prefs n used =
     (case rbind (vget prefs ''interests'' (VList [VStr ''tourist_attraction'', VStr ''restaurant'', VStr ''museum''])) (\<lambda>interests.
           rbind (vget prefs ''budget'' (VStr ''medium'')) (\<lambda>budget.
           rbind (interest_categories interests (str_of prefs)) (\<lambda>cs. Inr (interests, budget, cs)))) of
        Inl e \<Rightarrow> (emergency_suggestions center day, used)
      | Inr (interests, budget, cs) \<Rightarrow>
          (let cx = \<lparr>sc_str = str_of, sc_center = center, sc_day = day, sc_interests = interests, sc_budget = budget\<rparr>;
               st = category_loop cx (\<lambda>k c. search k c (day_radius n)) 0 (rotated n cs) \<lparr>ss_chosen = [], ss_used = used, ss_order = 1\<rparr>
           in (fill_up cx n (ss_chosen st), ss_used st)))"

subsection \<open>Lemmas\<close>

lemma fill_up_once: "length ps \<le> 3 \<Longrightarrow> fill_up cx n ps = ps @ varied_places cx n (length ps)"
proof (cases "length ps < 3")
  case True
  have "length (ps @ varied_places cx n (length ps)) = 3" using True by (simp add: varied_places_length)
  then have "fill_up cx n (ps @ varied_places cx n (length ps)) = ps @ varied_places cx n (length ps)"
    by (subst fill_up.simps) simp
  then show ?thesis using True by (subst fill_up.simps) simp
next
  case False
  moreover assume "length ps \<le> 3"
  ultimately have l: "length ps = 3" by simp
  then have "varied_places cx n (length ps) = []" using varied_places_length [of cx n 3] by simp
  then show ?thesis using l by (subst fill_up.simps) simp
qed

lemma first_fresh_new:
  "first_fresh used chosen ss = Inr (Some s) \<Longrightarrow>
   s \<in> set ss \<and> truthy (dget s ''place_id'' (VStr [])) \<and> dget s ''place_id'' (VStr []) \<notin> set used"
  by (induction ss) (auto simp: Let_def rbind_eq_Inr_iff split: if_splits)

lemma first_fresh_none:
  "\<forall>s \<in> set ss. map_of s ''place_id'' = None \<and> (\<exists>n. map_of s ''name'' = Some (VStr n)) \<Longrightarrow> first_fresh used chosen ss = Inr None"
  by (induction ss) (auto simp: Let_def dget_def)

definition real_ids :: "pydict list \<Rightarrow> pyval list" where
  "real_ids ps = filter truthy (map (\<lambda>p. dget p ''place_id'' VNone) ps)"

lemma real_ids_append: "real_ids (ps @ qs) = real_ids ps @ real_ids qs"
  by (simp add: real_ids_def)

lemma suggested_place_fields:
  "suggested_place cx c i s = Inr p \<Longrightarrow> dget p ''place_id'' VNone = dget s ''place_id'' (VStr []) \<and> dget p ''order'' VNone = VInt (int i)"
  by (auto simp: suggested_place_def Let_def rbind_eq_Inr_iff)

lemma category_fallback_fields:
  "dget (category_fallback cx c i) ''place_id'' VNone = VNone" "dget (category_fallback cx c i) ''order'' VNone = VInt (int i)"
  by (simp_all add: category_fallback_def)

lemma varied_place_fields:
  "dget (varied_place cx n k i w) ''place_id'' VNone = VNone" "dget (varied_place cx n k i w) ''order'' VNone = VInt (int k + int i + 1)"
  by (simp_all add: varied_place_def)

definition suggestions_ok :: "pyval list \<Rightarrow> suggestion_state \<Rightarrow> bool" where
  "suggestions_ok used st \<longleftrightarrow>
     ss_order st = length (ss_chosen st) + 1 \<and> map (\<lambda>p. dget p ''order'' VNone) (ss_chosen st) = map (\<lambda>i. VInt (int i + 1)) [0..<length (ss_chosen st)] \<and>
     distinct (real_ids (ss_chosen st)) \<and> set used \<subseteq> set (ss_used st) \<and> set (real_ids (ss_chosen st)) \<subseteq> set (ss_used st) - set used"

lemma add_suggestion_ok:
  assumes "suggestions_ok used st" "dget p ''order'' VNone = VInt (int (ss_order st))" "ss_used st' = ss_used st \<or> ss_used st' = dget p ''place_id'' VNone # ss_used st"
    "ss_chosen st' = ss_chosen st" "ss_order st' = ss_order st"
    "truthy (dget p ''place_id'' VNone) \<Longrightarrow> dget p ''place_id'' VNone \<notin> set (ss_used st) \<and> dget p ''place_id'' VNone \<in> set (ss_used st')"
  shows "suggestions_ok used (add_suggestion p st')"
  using assms by (auto simp: suggestions_ok_def add_suggestion_def real_ids_def)

lemma add_fallback_ok:
  assumes "suggestions_ok used st" "set (ss_used st) \<subseteq> set (ss_used st')" "ss_chosen st' = ss_chosen st" "ss_order st' = ss_order st"
    "set (ss_used st') \<inter> set (real_ids (ss_chosen st)) \<subseteq> set (ss_used st)"
  shows "suggestions_ok used (add_suggestion (category_fallback cx c (ss_order st)) st')"
  using assms by (auto simp: suggestions_ok_def add_suggestion_def real_ids_def category_fallback_fields)

lemma category_step_ok:
  assumes "suggestions_ok used st"
  shows "suggestions_ok used (fst (category_step cx found c st)) \<and>
    length (ss_chosen (fst (category_step cx found c st))) \<le> length (ss_chosen st) + 1"
proof (cases "rbind (if hashable (sc_budget cx) then found else Inl TypeError) (first_fresh (ss_used st) (ss_chosen st))")
  case (Inl e)
  then have "category_step cx found c st = (add_suggestion (category_fallback cx c (ss_order st)) st, False)" by (simp add: category_step_def)
  moreover have "suggestions_ok used (add_suggestion (category_fallback cx c (ss_order st)) st)" using add_fallback_ok [OF assms, of st cx c] by simp
  ultimately show ?thesis by (simp add: add_suggestion_def)
next
  case (Inr r)
  show ?thesis
  proof (cases r)
    case None
    then show ?thesis using Inr assms by (simp add: category_step_def)
  next
    case (Some s)
    let ?st = "st\<lparr>ss_used := dget s ''place_id'' (VStr []) # ss_used st\<rparr>"
    from Inr Some have new: "truthy (dget s ''place_id'' (VStr []))" "dget s ''place_id'' (VStr []) \<notin> set (ss_used st)"
      using first_fresh_new by (auto simp: rbind_eq_Inr_iff)
    show ?thesis
    proof (cases "suggested_place cx c (ss_order st) s")
      case (Inl e)
      then have "category_step cx found c st = (add_suggestion (category_fallback cx c (ss_order st)) ?st, False)"
        using Inr Some by (simp add: category_step_def Let_def)
      moreover have "suggestions_ok used (add_suggestion (category_fallback cx c (ss_order st)) ?st)"
        using assms new by (intro add_fallback_ok) (auto simp: suggestions_ok_def)
      ultimately show ?thesis by (simp add: add_suggestion_def)
    next
      case (Inr p)
      then have "category_step cx found c st = (add_suggestion p ?st, True)"
        using \<open>rbind _ _ = Inr r\<close> Some by (simp add: category_step_def Let_def)
      moreover have "suggestions_ok used (add_suggestion p ?st)"
        using suggested_place_fields [OF Inr] new by (intro add_suggestion_ok [OF assms]) auto
      ultimately show ?thesis by (simp add: add_suggestion_def)
    qed
  qed
qed

lemma category_loop_ok:
  "suggestions_ok used st \<Longrightarrow> suggestions_ok used (category_loop cx search k cs st) \<and>
   length (ss_chosen (category_loop cx search k cs st)) \<le> length (ss_chosen st) + length cs"
proof (induction cs arbitrary: k st)
  case (Cons c cs)
  obtain st' ok where s: "category_step cx (search k c) c st = (st', ok)" by fastforce
  from category_step_ok [OF Cons.prems, of cx "search k c" c] s
  have s': "suggestions_ok used st'" "length (ss_chosen st') \<le> length (ss_chosen st) + 1" by simp_all
  from Cons.IH [OF s'(1), of "Suc k"] s s' show ?case by simp
qed simp

lemma rotated_length: "length (rotated n cs) = 3"
  by (simp add: rotated_def)

text \<open>What the function returns when reading the preferences raises nothing.\<close>

lemma generate_cases:
  obtains (emergency) "generate_smart_suggestions_for_day str_of search center day prefs n used = (emergency_suggestions center day, used)"
  | (places) cx st where "generate_smart_suggestions_for_day str_of search center day prefs n used = (fill_up cx n (ss_chosen st), ss_used st)"
      "suggestions_ok used st" "length (ss_chosen st) \<le> 3"
proof (cases "rbind (vget prefs ''interests'' (VList [VStr ''tourist_attraction'', VStr ''restaurant'', VStr ''museum''])) (\<lambda>interests.
           rbind (vget prefs ''budget'' (VStr ''medium'')) (\<lambda>budget.
           rbind (interest_categories interests (str_of prefs)) (\<lambda>cs. Inr (interests, budget, cs))))")
  case (Inl e)
  then show ?thesis by (intro emergency) (simp add: generate_smart_suggestions_for_day_def)
next
  case (Inr r)
  obtain interests budget cs where r: "r = (interests, budget, cs)" by (metis prod_cases3)
  let ?st = "\<lparr>ss_chosen = [], ss_used = used, ss_order = 1\<rparr>"
  have ok: "suggestions_ok used ?st" by (simp add: suggestions_ok_def real_ids_def)
  let ?cx = "\<lparr>sc_str = str_of, sc_center = center, sc_day = day, sc_interests = interests, sc_budget = budget\<rparr>"
  show ?thesis
    using category_loop_ok [OF ok, of ?cx "\<lambda>k c. search k c (day_radius n)" 0 "rotated n cs"] Inr r
    by (intro places [of ?cx "category_loop ?cx (\<lambda>k c. search k c (day_radius n)) 0 (rotated n cs) ?st"])
      (simp_all add: generate_smart_suggestions_for_day_def Let_def rotated_length)
qed

lemma varied_orders: "map (\<lambda>p. dget p ''order'' VNone) (varied_places cx n k) = map (\<lambda>i. VInt (int i + 1)) [k..<3]"
proof -
  have "filter (\<lambda>i. i < 3) [0..<3 - k] = [0..<3 - k]" by (rule filter_True) auto
  then have "map (\<lambda>p. dget p ''order'' VNone) (varied_places cx n k) = map (\<lambda>i. VInt (int (i + k) + 1)) [0..<3 - k]"
    by (simp add: varied_places_def day_fallbacks_three varied_place_fields ac_simps)
  also have "\<dots> = map (\<lambda>i. VInt (int i + 1)) (map (\<lambda>i. i + k) [0..<3 - k])" by simp
  also have "map (\<lambda>i. i + k) [0..<3 - k] = [k..<3]" using map_add_upt [of k "3 - k"] by (cases "k \<le> 3") simp_all
  finally show ?thesis .
qed

lemma varied_ids: "real_ids (varied_places cx n k) = []"
  by (simp add: real_ids_def varied_places_def varied_place_fields)

lemma emergency_fields:
  "length (emergency_suggestions center day) = 3" "real_ids (emergency_suggestions center day) = []"
  "map (\<lambda>p. dget p ''order'' VNone) (emergency_suggestions center day) = [VInt 1, VInt 2, VInt 3]"
  by (simp_all add: emergency_suggestions_def real_ids_def)

lemma synthetic_anonymous:
  assumes "generate_synthetic_suggestions pyhash center ts limit = Inr ps" "s \<in> set ps"
  shows "map_of s ''place_id'' = None \<and> (\<exists>n. map_of s ''name'' = Some (VStr n))"
  using assms by (auto simp: generate_synthetic_suggestions_def synthetic_place_def Let_def split: if_splits)

lemma search_without_finds:
  assumes "\<And>a. client a = Inr [] \<or> (\<exists>e. client a = Inl e)" "search_nearby pyhash client center types limit = Inr ps" "s \<in> set ps"
  shows "map_of s ''place_id'' = None \<and> (\<exists>n. map_of s ''name'' = Some (VStr n))"
proof -
  have a: "search_attempt pyhash client center ts limit k = Inr qs \<Longrightarrow> generate_synthetic_suggestions pyhash center ts limit = Inr qs" for ts k qs
    using assms(1) [of k] by (auto simp: search_attempt_def)
  from assms(2) obtain ts where "generate_synthetic_suggestions pyhash center ts limit = Inr ps"
    using a by (auto simp: search_nearby_def Let_def split: sum.splits if_splits)
  from synthetic_anonymous [OF this assms(3)] show ?thesis .
qed

lemma smart_orders:
  "map (\<lambda>p. dget p ''order'' VNone) (fst (generate_smart_suggestions_for_day str_of search center day prefs n used)) = [VInt 1, VInt 2, VInt 3]"
proof (cases rule: generate_cases [of str_of search center day prefs n used])
  case emergency
  then show ?thesis by (simp add: emergency_fields)
next
  case (places cx st)
  have "map (\<lambda>p. dget p ''order'' VNone) (fill_up cx n (ss_chosen st)) =
      map (\<lambda>i. VInt (int i + 1)) [0..<length (ss_chosen st)] @ map (\<lambda>i. VInt (int i + 1)) [length (ss_chosen st)..<3]"
    using places(2) by (simp add: fill_up_once [OF places(3)] varied_orders suggestions_ok_def)
  also have "\<dots> = map (\<lambda>i. VInt (int i + 1)) [0..<3]"
    using upt_add_eq_append [of 0 "length (ss_chosen st)" "3 - length (ss_chosen st)"] places(3) by (simp flip: map_append)
  also have "\<dots> = [VInt 1, VInt 2, VInt 3]" by (simp add: upt_rec)
  finally show ?thesis by (simp add: places(1))
qed

lemma smart_fresh:
  "case generate_smart_suggestions_for_day str_of search center day prefs n used of (ps, used') \<Rightarrow>
     distinct (real_ids ps) \<and> set (real_ids ps) \<inter> set used = {} \<and> set used \<union> set (real_ids ps) \<subseteq> set used'"
proof (cases rule: generate_cases [of str_of search center day prefs n used])
  case emergency
  then show ?thesis by (simp add: emergency_fields)
next
  case (places cx st)
  then show ?thesis by (auto simp: fill_up_once real_ids_append varied_ids suggestions_ok_def)
qed

lemma smart_length: "length (fst (generate_smart_suggestions_for_day str_of search center day prefs n used)) = 3"
  using smart_orders [of str_of search center day prefs n used, THEN arg_cong, of length] by simp

subsection \<open>Properties\<close>

text \<open>
  a free day gets exactly three suggestions, numbered from one to three, whatever the preferences are and whatever the places
  service answers or raises.
\<close>

theorem a_free_day_gets_three_suggestions:
  "map (\<lambda>p. dget p ''order'' VNone) (fst (generate_smart_suggestions_for_day str_of search center day prefs n used)) = [VInt 1, VInt 2, VInt 3]"
  by (rule smart_orders)

text \<open>
  a place of the places service is suggested at most once: the identified places of a day differ from each
  other and from those suggested before, and the caller's set remembers them with the earlier ones.
\<close>

theorem suggestions_never_repeat:
  "case generate_smart_suggestions_for_day str_of search center day prefs n used of (ps, used') \<Rightarrow>
     distinct (real_ids ps) \<and> set (real_ids ps) \<inter> set used = {} \<and> set used \<union> set (real_ids ps) \<subseteq> set used'"
  by (rule smart_fresh)

text \<open>
  the places that the service makes up when its client finds nothing carry no identifier and are all passed over: with
  well-formed preferences the day then gets the three places of the table of its number.
\<close>

theorem made_up_places_are_never_suggested:
  assumes "\<And>k a. client k a = Inr [] \<or> (\<exists>e. client k a = Inl e)"
    "vget prefs ''interests'' (VList [VStr ''tourist_attraction'', VStr ''restaurant'', VStr ''museum'']) = Inr (VList interests)"
    "vget prefs ''budget'' (VStr ''medium'') = Inr budget" "hashable budget"
  shows "\<exists>cx. generate_smart_suggestions_for_day str_of (\<lambda>k c r. search_nearby pyhash (client k) center (Some [c]) 3) center day prefs n used =
    (varied_places cx n 0, used)"
proof -
  let ?search = "\<lambda>k c. search_nearby pyhash (client k) center (Some [c]) 3"
  note b = assms(3)
  obtain cs where cs: "interest_categories (VList interests) (str_of prefs) = Inr cs"
    by (simp add: interest_categories_def mentions_def Let_def)
  define cx where "cx = \<lparr>sc_str = str_of, sc_center = center, sc_day = day, sc_interests = VList interests, sc_budget = budget\<rparr>"
  define st where "st = \<lparr>ss_chosen = [], ss_used = used, ss_order = (1::nat)\<rparr>"
  have step: "category_step cx (?search k c) c st = (st, True)" for k c
  proof -
    obtain ps where ps: "?search k c = Inr ps" using search_nearby_total [of 3 pyhash "client k" center "Some [c]"] by auto
    have "first_fresh used [] ps = Inr None"
      using search_without_finds [OF assms(1) ps] by (intro first_fresh_none) blast
    then show ?thesis using assms(4) by (simp add: category_step_def ps st_def cx_def)
  qed
  have "category_loop cx ?search k ds st = st" for k ds
    by (induction ds arbitrary: k) (simp_all add: step)
  then have "generate_smart_suggestions_for_day str_of (\<lambda>k c r. ?search k c) center day prefs n used = (fill_up cx n (ss_chosen st), ss_used st)"
    using assms(2) b cs unfolding cx_def st_def by (simp add: generate_smart_suggestions_for_day_def Let_def)
  then show ?thesis by (auto simp: st_def fill_up_once)
qed

theorem made_up_places_are_never_suggested_witness:
  "\<exists>cx. generate_smart_suggestions_for_day (\<lambda>v. []) (\<lambda>k c r. search_nearby (\<lambda>s. 0) (\<lambda>a. Inl TimeoutError) (-23, -70) (Some [c]) 3) (-23, -70)
     ''2025-01-02'' (VDict []) 2 [] = (varied_places cx 2 0, [])"
  by (rule made_up_places_are_never_suggested [of "\<lambda>k a. Inl TimeoutError", where budget = "VStr ''medium''"]) simp_all

end
