(* ===== verification/Spec2Isabelle.thy ===== *)
theory Spec2Isabelle
  imports CircuitBreakers ProfessionalOptimizer Settings Geo ORToolsService RobustServices Pipeline Decisions MultiCityApi FormatConverter DistanceCache Monitoring AdvancedConstraints ParallelOptimizer GeoCache GooglePlaces MapsClient Partitioner ODMatrix Multimodal ItineraryApi SmartSuggestions
begin

text \<open>
  Verification library of Goveling ML, a service that plans trips: it takes places, dates and lodgings and answers with
  days of visits, transfers and suggestions.

  \<^bold>\<open>The program and its parts.\<close>  The request of \<open>/create_itinerary\<close> (src/api.py) is normalised and handed to
  \<open>optimize_itinerary_hybrid_v31\<close> (src/utils/hybrid\_optimizer\_v31.py), which chooses between the classic method, the
  City2Graph method and the OR-Tools method.  The classic method checks the coordinates, clusters the places with
  DBSCAN, gives every cluster a home base, spreads the clusters over the days, packs them, routes each day over the
  routing services, adds transfers between days, and fills gaps with suggestions.  Around it stand the routing stack (OSRM,
  OpenRouteService, a free service, a robust wrapper with retries and a circuit breaker), several caches, the decision engine, the
  planning of trips through several cities, and the OR-Tools services with their matrices, constraints, pool and monitoring.

  \<^bold>\<open>Theories and code\<close> (each theory starts with the list of what it holds):
  \<^item> \<open>Prelude\<close>: exceptions as values of \<open>'a res = py_error + 'a\<close>, \<open>rbind\<close>, \<open>rmap_list\<close>, \<open>rfold\<close>, dictionaries in insertion
    order, the collections \<open>model_simps\<close> and \<open>res_elims\<close>; \<open>PyVal\<close>: dynamically typed values with their operations, numbers
    and strings; \<open>Settings\<close>: src/settings.py.
  \<^item> \<open>Geo\<close>, \<open>Coordinates\<close>: src/utils/geo\_utils.py, src/utils/geographic\_validator.py and the coordinate checks of the optimiser.
  \<^item> \<open>Caches\<close> (src/utils/google\_cache.py, src/utils/performance\_cache.py), \<open>CircuitBreakers\<close> (the breakers of the optimiser, of
    City2Graph and of the OR-Tools service), \<open>Routing\<close> (src/utils/osrm\_service.py, openroute\_service.py,
    free\_routing\_service.py, hybrid\_routing\_service.py), \<open>RobustServices\<close> (retries, fallbacks, cached and persistent routing and batches
    of \<open>HybridOptimizerV31\<close>).
  \<^item> The optimiser, src/utils/hybrid\_optimizer\_v31.py, in the order of its pipeline: \<open>Clusters\<close> (\<open>cluster_pois\<close>, home bases),
    \<open>DayDistribution\<close> (\<open>allocate_clusters_to_days\<close>, the packing strategies), \<open>Scheduling\<close> (\<open>_route_cluster_with_time_windows\<close>,
    normalised places), \<open>DayRouting\<close> (\<open>route_day_enhanced\<close>), \<open>BetweenDays\<close> (transfers between days), \<open>Suggestions\<close>
    (enrichment, free days), \<open>Pipeline\<close> (\<open>_optimize_classic_method\<close> and the choice of the method).
  \<^item> \<open>Decisions\<close>: \<open>should_use_city2graph\<close> and src/utils/ortools\_decision\_engine.py.
  \<^item> Several cities: \<open>InterCity\<close> (src/services/intercity\_service.py), \<open>CityClustering\<close> (city\_clustering\_service.py), \<open>MultiCity\<close>
    (multi\_city\_optimizer\_simple.py, multi\_city\_optimizer.py), \<open>HotelRecommender\<close> (hotel\_recommender.py), \<open>MultiCityApi\<close> (the endpoint).
  \<^item> OR-Tools: \<open>ProfessionalOptimizer\<close>, \<open>ORToolsService\<close>, \<open>FormatConverter\<close>, \<open>DistanceCache\<close>, \<open>Monitoring\<close>,
    \<open>AdvancedConstraints\<close>, \<open>ParallelOptimizer\<close>: src/services/ortools\_*.py, city2graph\_ortools\_service.py and
    src/utils/ortools\_format\_converter.py.
  \<^item> Places: \<open>GeoCache\<close> (src/utils/geographic\_cache\_manager.py), \<open>GooglePlaces\<close> (google\_places\_service.py), \<open>MapsClient\<close>
    (google\_maps\_client.py), \<open>SmartSuggestions\<close> (\<open>generate_smart_suggestions_for_day\<close> of src/api.py).
  \<^item> Matrices and graphs: \<open>Partitioner\<close> (h3\_spatial\_partitioner.py), \<open>ODMatrix\<close> (src/services/osrm\_service.py, redis\_od\_cache.py,
    hybrid\_architecture\_integrator.py), \<open>Multimodal\<close> (chile\_multimodal\_router.py and its endpoints).
  \<^item> \<open>ItineraryApi\<close>: \<open>generate_hybrid_itinerary_endpoint\<close> of src/api.py.

  \<^bold>\<open>How the code is read.\<close>  A class is a record of its attributes, an enumeration a datatype; a method is a function from
  its arguments and the state to its result and the new state, with every call that changes state in it; a \<open>raise\<close> is an
  \<open>Inl\<close>, a \<open>try\<close> a case distinction on the result.  The shared optimiser, the breakers and the caches are threaded through the calls in the
  order of the code.  Where the code updates a shared dictionary in place and it matters, the update is a definition of its own (\<open>set_cached\<close>).
  Clocks, network replies and libraries are arguments: each reading of the clock and each reply is a value or a function of the attempt's
  number, so that a theorem holds for every behaviour of them.

  \<^bold>\<open>What the lemmas show.\<close>
  \<^item> Conservation: clustering, allocation, packing, the pipeline, the city clustering, the multi-city optimisers and the
    format conversion lose and double no place beyond what each theorem names (\<open>trip_conserves_places\<close>, \<open>allocation_conserves_places\<close>,
    \<open>cluster_pois_partition\<close>, \<open>detected_cities_account_for_places\<close>, \<open>converted_places_account_for_request\<close>).
  \<^item> Schedules: the activities of a cluster and everything a day schedules lie in their windows in order; the days of a
    trip are its dates (\<open>day_schedule_feasible\<close>, \<open>day_stays_in_window\<close>, \<open>one_day_per_date\<close>).
  \<^item> Failures: the robust router always answers but for one exception, an outage opens the breaker, the breaker refines the
    policy of consecutive failures under every interleaving of calls (\<open>routing_service_robust_total\<close>, \<open>breaker_interleaving_contract\<close>).
  \<^item> Caches: no stale answer, mirrored files, restarts, bounds and keys (\<open>google_cache_never_stale\<close>, \<open>disk_mirrors_memory\<close>,
    \<open>restart_keeps_what_has_not_expired\<close>, \<open>distance_cache_invariant\<close>).
  \<^item> Choices: the decisions are characterised exactly, the greedy city sequence, the hotels and the fallback route are what their contracts say.
  \<^item> What the code does not do although it means to: some paths end in an exception on every input (\<open>optimize_with_ortools_never_succeeds\<close>,
    \<open>create_itinerary_never_answers\<close>, \<open>monitoring_stops_at_the_first_rotation\<close>).

  \<^bold>\<open>Interfaces.\<close>  \<open>ttl_cache\<close> (lookups, stores, updates and clean-ups against the log of stores; interpreted by both in-memory
  caches), \<open>circuit_breaker\<close> (admission, success and failure; interpreted by the three breakers), \<open>eta_provider\<close> with its
  extension \<open>day_router\<close> (a routing service that answers with non-negative durations in good states; interpreted by the robust router) and \<open>place_store\<close>
  (lookups and stores that keep a property of places; interpreted by the place cache).  The properties rest on the facts of the
  interpretations.

  \<^bold>\<open>Bounds and fuel.\<close>  The retry loops run over the four attempts (\<open>retry_loop\<close>) and the three attempts of the endpoint (\<open>attempt_loop\<close>) of the code.
  \<open>greedy_sequence\<close>, \<open>fallback_loop\<close> and \<open>tsp_loop\<close> carry as fuel the number of cities, waypoints and points left, of which each round removes one, so that
  the fuel never runs out.  \<open>decimals_from\<close> looks at seventeen decimals, the most a double prints.  \<open>fill_up\<close> ends because each round adds the
  missing places.  \<open>extract_loop\<close>, which follows a solver's successors, is a partial function: \<open>None\<close> is a loop that never ends, and
  the theorems about it assume a path to an end and prove that it answers.

  \<^bold>\<open>Idealisations.\<close>  Floats are reals, without rounding of arithmetic, infinities and NaN; angles use the real \<open>sin\<close>, \<open>cos\<close>, \<open>asin\<close>,
  \<open>atan2\<close>.  Strings are their UTF-8 bytes: \<open>lower\<close> and \<open>strip\<close> act on ASCII, and a slice counts bytes.  A digest (MD5, SHA) is the
  tuple of its parts.  Dates are ordinals and times minutes.  Tasks of one \<open>gather\<close> are run in their order or have their replies as parameters.  Log lines are left out.

  \<^bold>\<open>Not modelled.\<close>  The graph services of City2Graph and the semantic services over them (osmnx, networkx, scikit-learn), of
  which the optimiser sees one answer; downloads from S3 and Google Drive; the schemas that pydantic checks; the other endpoints of src/api.py, which
  wrap the modelled services in JSON, and the endpoint of multi-modal itineraries; everything in the main endpoint behind its first
  read of an unbound variable; scripts and logging.
\<close>

end
